(* ===== verification/Prelude.thy ===== *)
theory Prelude
  imports Complex_Main "HOL-Library.AList" "HOL-Library.Sublist" "HOL-Library.Char_ord"
    "HOL-Library.List_Lexorder"
begin

text \<open>
  Shared vocabulary of the development: Python exceptions as values, the part of
  Python's \<open>str\<close>, \<open>list\<close> and \<open>dict\<close> that the modelled modules use, and JSON values.

  A Python \<open>str\<close> is a \<open>string\<close> read as a list of code points below 256 (the Latin-1
  fragment of Unicode); case mapping, white space and line breaks follow Python's
  definitions on that fragment. A Python \<open>dict\<close> is an association list in insertion
  order with distinct keys: \<open>d[k] = v\<close> is \<open>AList.update k v d\<close> (in place when the key is
  there, appended otherwise), \<open>d.pop(k, None)\<close> is \<open>AList.delete k d\<close> and \<open>d.get(k)\<close> is
  \<open>map_of d k\<close>. Times and money are exact rationals: floating-point rounding is not
  modelled.
\<close>

named_theorems py_simps \<open>evaluation of the Python string and container operations\<close>
named_theorems inv_intros \<open>preservation of the component invariants\<close>

section \<open>Exceptions\<close>

datatype exc_class =
    PermissionError | RuntimeError | TypeError | ValueError | KeyError | OSError
  | KeyboardInterrupt | SystemExit | OtherError string

text \<open>An exception is its class and its text \<open>str(exc)\<close>.\<close>

datatype py_exc = Exn (exn_class: exc_class) (exn_msg: string)

text \<open>\<open>except Exception\<close> catches everything but the two interpreter-exit classes.\<close>

fun is_Exception :: "py_exc \<Rightarrow> bool" where
  "is_Exception (Exn KeyboardInterrupt _) = False"
| "is_Exception (Exn SystemExit _) = False"
| "is_Exception _ = True"

fun exc_name :: "exc_class \<Rightarrow> string" where
  "exc_name PermissionError = ''PermissionError''"
| "exc_name RuntimeError = ''RuntimeError''"
| "exc_name TypeError = ''TypeError''"
| "exc_name ValueError = ''ValueError''"
| "exc_name KeyError = ''KeyError''"
| "exc_name OSError = ''OSError''"
| "exc_name KeyboardInterrupt = ''KeyboardInterrupt''"
| "exc_name SystemExit = ''SystemExit''"
| "exc_name (OtherError n) = n"

type_synonym 'a py_result = "py_exc + 'a"

text \<open>Sequencing of pure code that may raise, and a comprehension over a list of it.\<close>

definition rbind :: "('e + 'a) \<Rightarrow> ('a \<Rightarrow> 'e + 'b) \<Rightarrow> 'e + 'b" where
  "rbind m k = (case m of Inl e \<Rightarrow> Inl e | Inr x \<Rightarrow> k x)"

fun rmap :: "('a \<Rightarrow> 'e + 'b) \<Rightarrow> 'a list \<Rightarrow> 'e + 'b list" where
  "rmap f [] = Inr []"
| "rmap f (x # xs) = rbind (f x) (\<lambda>y. rbind (rmap f xs) (\<lambda>ys. Inr (y # ys)))"

text \<open>
  Sequencing of stateful code that may raise: \<open>sbind\<close> runs the next statement, \<open>try_permission\<close>
  is \<open>try: m except PermissionError as exc: handler(str(exc)) else: k\<close>.
\<close>

definition sbind ::
  "'a py_result \<times> 's \<Rightarrow> ('a \<Rightarrow> 's \<Rightarrow> 'b py_result \<times> 's) \<Rightarrow> 'b py_result \<times> 's" where
  "sbind m k = (case m of (Inl e, s) \<Rightarrow> (Inl e, s) | (Inr x, s) \<Rightarrow> k x s)"

definition try_permission ::
  "'a py_result \<times> 's \<Rightarrow> (string \<Rightarrow> 's \<Rightarrow> 'b py_result \<times> 's) \<Rightarrow> ('a \<Rightarrow> 's \<Rightarrow> 'b py_result \<times> 's)
     \<Rightarrow> 'b py_result \<times> 's" where
  "try_permission m handler k =
     (case m of
        (Inr x, s) \<Rightarrow> k x s
      | (Inl (Exn PermissionError msg), s) \<Rightarrow> handler msg s
      | (Inl e, s) \<Rightarrow> (Inl e, s))"

section \<open>Strings\<close>

definition py_space :: "char \<Rightarrow> bool" where
  "py_space c = (let n = (of_char c :: nat) in
     (9 \<le> n \<and> n \<le> 13) \<or> (28 \<le> n \<and> n \<le> 32) \<or> n = 133 \<or> n = 160)"

definition py_lower_char :: "char \<Rightarrow> char" where
  "py_lower_char c = (let n = (of_char c :: nat) in
     if (65 \<le> n \<and> n \<le> 90) \<or> (192 \<le> n \<and> n \<le> 222 \<and> n \<noteq> 215) then char_of (n + 32) else c)"

definition py_lower :: "string \<Rightarrow> string" where
  "py_lower s = map py_lower_char s"

definition py_lstrip :: "string \<Rightarrow> string" where
  "py_lstrip s = dropWhile py_space s"

definition py_rstrip :: "string \<Rightarrow> string" where
  "py_rstrip s = rev (dropWhile py_space (rev s))"

definition py_strip :: "string \<Rightarrow> string" where
  "py_strip s = py_rstrip (py_lstrip s)"

text \<open>\<open>sep.join(parts)\<close>\<close>

fun py_join :: "string \<Rightarrow> string list \<Rightarrow> string" where
  "py_join sep [] = []"
| "py_join sep [x] = x"
| "py_join sep (x # y # xs) = x @ sep @ py_join sep (y # xs)"

text \<open>\<open>s.replace(old, new)\<close> for a one-character \<open>old\<close>.\<close>

definition py_replace1 :: "char \<Rightarrow> string \<Rightarrow> string \<Rightarrow> string" where
  "py_replace1 c new s = concat (map (\<lambda>d. if d = c then new else [d]) s)"

text \<open>\<open>str(n)\<close> of an integer.\<close>

fun nat_str :: "nat \<Rightarrow> string" where
  "nat_str n = (if n < 10 then [char_of (48 + n)] else nat_str (n div 10) @ [char_of (48 + n mod 10)])"

declare nat_str.simps [simp del]

definition int_str :: "int \<Rightarrow> string" where
  "int_str i = (if i < 0 then ''-'' @ nat_str (nat (- i)) else nat_str (nat i))"

section \<open>Lists and dictionaries\<close>

text \<open>
  \<open>xs[-k:]\<close>: for positive \<open>k\<close> the last \<open>k\<close> elements; \<open>-0\<close> is \<open>0\<close>, so \<open>xs[-0:]\<close> is the
  whole list, and a negative \<open>k\<close> drops from the front.
\<close>

definition slice_last :: "int \<Rightarrow> 'a list \<Rightarrow> 'a list" where
  "slice_last k xs = (if k > 0 then drop (length xs - nat k) xs else drop (nat (- k)) xs)"

type_synonym ('k, 'v) pydict = "('k \<times> 'v) list"

abbreviation dict_get :: "('k, 'v) pydict \<Rightarrow> 'k \<Rightarrow> 'v option" where
  "dict_get d k \<equiv> map_of d k"

definition dict_get_default :: "('k, 'v) pydict \<Rightarrow> 'k \<Rightarrow> 'v \<Rightarrow> 'v" where
  "dict_get_default d k v = (case map_of d k of None \<Rightarrow> v | Some w \<Rightarrow> w)"

text \<open>\<open>d.update(e)\<close>: the entries of \<open>e\<close> are stored one after the other.\<close>

definition dict_update :: "('k, 'v) pydict \<Rightarrow> ('k, 'v) pydict \<Rightarrow> ('k, 'v) pydict" where
  "dict_update d e = fold (\<lambda>(k, v). AList.update k v) e d"

abbreviation dict_wf :: "('k, 'v) pydict \<Rightarrow> bool" where
  "dict_wf d \<equiv> distinct (map fst d)"

section \<open>JSON values\<close>

datatype json =
    JNull | JBool bool | JInt int | JFloat rat | JStr string
  | JList "json list" | JObj "(string \<times> json) list"

type_synonym json_obj = "(string \<times> json) list"

section \<open>Lemmas\<close>

lemma rbind_Inr [simp]: "rbind m k = Inr y \<longleftrightarrow> (\<exists>x. m = Inr x \<and> k x = Inr y)"
  by (auto simp: rbind_def split: sum.splits)

lemma rbind_simps [simp]: "rbind (Inr x) k = k x" "rbind (Inl e) k = Inl e"
  by (simp_all add: rbind_def)

lemma rmap_Inr: "rmap f xs = Inr ys \<longleftrightarrow> list_all2 (\<lambda>x y. f x = Inr y) xs ys"
proof (induction xs arbitrary: ys)
  case (Cons x xs)
  then show ?case by (cases ys) auto
qed auto

lemma sbind_Inr:
  "sbind m k = (Inr y, s') \<longleftrightarrow> (\<exists>x s. m = (Inr x, s) \<and> k x s = (Inr y, s'))"
  by (auto simp: sbind_def split: prod.splits sum.splits)

lemma sbind_simps [simp]: "sbind (Inr x, s) k = k x s" "sbind (Inl e, s) k = (Inl e, s)"
  by (simp_all add: sbind_def)

lemma try_permission_simps [simp]:
  "try_permission (Inr x, s) h k = k x s" "try_permission (Inl (Exn PermissionError msg), s) h k = h msg s"
  by (simp_all add: try_permission_def)

lemma try_permission_Inr:
  "try_permission m h k = (Inr y, s') \<longleftrightarrow>
     (\<exists>x s. m = (Inr x, s) \<and> k x s = (Inr y, s')) \<or>
     (\<exists>msg s. m = (Inl (Exn PermissionError msg), s) \<and> h msg s = (Inr y, s'))"
  by (auto simp: try_permission_def split: prod.splits sum.splits py_exc.splits exc_class.splits)

lemma slice_last_length: "0 < k \<Longrightarrow> length (slice_last k xs) = min (nat k) (length xs)"
  by (auto simp: slice_last_def)

lemma slice_last_suffix: "suffix (slice_last k xs) xs"
  by (simp add: slice_last_def suffix_drop)

lemma set_slice_last: "set (slice_last k xs) \<subseteq> set xs"
  by (simp add: slice_last_def set_drop_subset)

lemma slice_last_all: "int (length xs) \<le> k \<Longrightarrow> slice_last k xs = xs"
  by (cases "k > 0") (auto simp: slice_last_def)

lemma dict_wf_update [simp]: "dict_wf d \<Longrightarrow> dict_wf (AList.update k v d)"
  by (rule distinct_update)

lemma dict_wf_delete [simp]: "dict_wf d \<Longrightarrow> dict_wf (AList.delete k d)"
  by (rule distinct_delete)

lemma map_of_update_same [simp]: "map_of (AList.update k v d) k = Some v"
  by (simp add: update_conv')

lemma map_of_update_other: "k' \<noteq> k \<Longrightarrow> map_of (AList.update k v d) k' = map_of d k'"
  by (simp add: update_conv')

lemma map_of_delete_same [simp]: "map_of (AList.delete k d) k = None"
  by (simp add: delete_conv')

lemma map_of_delete_other: "k' \<noteq> k \<Longrightarrow> map_of (AList.delete k d) k' = map_of d k'"
  by (simp add: delete_conv')

lemma map_of_dict_update:
  "map_of (dict_update d e) k =
     (case map_of (rev e) k of None \<Rightarrow> map_of d k | Some v \<Rightarrow> Some v)"
proof (induction e arbitrary: d rule: rev_induct)
  case Nil
  then show ?case by (simp add: dict_update_def)
next
  case (snoc x xs)
  obtain k0 v0 where x: "x = (k0, v0)" by (cases x)
  have "dict_update d (xs @ [x]) = AList.update k0 v0 (dict_update d xs)"
    by (simp add: dict_update_def x)
  then show ?case using snoc by (simp add: x update_conv')
qed

lemma dict_wf_dict_update: "dict_wf d \<Longrightarrow> dict_wf (dict_update d e)"
proof (induction e arbitrary: d)
  case Nil
  then show ?case by (simp add: dict_update_def)
next
  case (Cons x e)
  from Cons.prems have "dict_wf (AList.update (fst x) (snd x) d)" by simp
  from Cons.IH [OF this] show ?case by (simp add: dict_update_def case_prod_beta)
qed

lemma map_of_filter_key: "map_of (filter (\<lambda>(k, _). P k) xs) k = (if P k then map_of xs k else None)"
  by (induction xs) auto

lemma json_size_obj: "(k, v) \<in> set kvs \<Longrightarrow> size v < size (JObj kvs)"
  by (induction kvs) (auto simp: size_prod_simp)

lemma map_of_json_size: "map_of kvs k = Some v \<Longrightarrow> size v < size (JObj kvs)"
  by (rule json_size_obj) (rule map_of_SomeD)

text \<open>Code equations on the bits of a character, so that the kernel evaluates them without unary numbers.\<close>

lemma py_lower_char_bits [code]:
  "py_lower_char (Char b0 b1 b2 b3 b4 b5 b6 b7) =
     (if b6 \<and> \<not> b5 \<and> (if b7 then \<not> (b4 \<and> b2 \<and> b1 \<and> b0) else (b0 \<or> b1 \<or> b2 \<or> b3 \<or> b4) \<and> \<not> (b4 \<and> b3 \<and> (b2 \<or> b1 \<and> b0)))
      then Char b0 b1 b2 b3 b4 True b6 b7 else Char b0 b1 b2 b3 b4 b5 b6 b7)"
  by (cases b0; cases b1; cases b2; cases b3; cases b4; cases b5; cases b6; cases b7)
     (simp_all add: py_lower_char_def char_of_def bit_0)

lemma py_space_bits [code]: "py_space (Char b0 b1 b2 b3 b4 b5 b6 b7) =
   (\<not> b6 \<and> (if b7 then \<not> b4 \<and> \<not> b3 \<and> (if b5 then \<not> b2 \<and> \<not> b1 \<and> \<not> b0 else b2 \<and> \<not> b1 \<and> b0)
     else if b5 then \<not> b4 \<and> \<not> b3 \<and> \<not> b2 \<and> \<not> b1 \<and> \<not> b0
     else b3 \<and> (if b4 then b2 else (b0 \<or> b1 \<or> b2) \<and> \<not> (b2 \<and> b1))))"
  by (cases b0; cases b1; cases b2; cases b3; cases b4; cases b5; cases b6; cases b7)
     (simp_all add: py_space_def)

end
