(* ===== verification/Py_Text.thy ===== *)
theory Py_Text
  imports Prelude
begin

text \<open>
  Python's text conversions as the modelled modules use them: \<open>repr\<close> and \<open>str\<close>, \<open>json.dumps\<close>,
  \<open>int(s)\<close> and \<open>float(s)\<close> with their errors, fixed-point formatting, \<open>split\<close>, \<open>partition\<close> and
  the substring test.

  A float is \<open>Fin q\<close> for an exact rational or one of the three special values; decimal literals
  too large for a double become infinite, rounding to 53 bits is not modelled. \<open>repr\<close> of a
  float (the shortest decimal that reads back) is the argument \<open>frepr\<close> where it is needed.
\<close>

section \<open>Searching and splitting\<close>

definition py_startswith :: "string \<Rightarrow> string \<Rightarrow> bool" where
  "py_startswith s p = prefix p s"

text \<open>\<open>pat in s\<close>\<close>

fun py_in :: "string \<Rightarrow> string \<Rightarrow> bool" where
  "py_in pat [] = (pat = [])"
| "py_in pat (c # s) = (prefix pat (c # s) \<or> py_in pat s)"

text \<open>\<open>s.split(c)\<close> for one character.\<close>

fun py_split1 :: "char \<Rightarrow> string \<Rightarrow> string list" where
  "py_split1 c [] = [[]]"
| "py_split1 c (d # s) =
     (if d = c then [] # py_split1 c s
      else case py_split1 c s of [] \<Rightarrow> [[d]] | w # ws \<Rightarrow> (d # w) # ws)"

text \<open>\<open>s.partition(c)\<close>, without the separator.\<close>

definition py_partition1 :: "char \<Rightarrow> string \<Rightarrow> string \<times> string" where
  "py_partition1 c s = (takeWhile (\<lambda>d. d \<noteq> c) s, drop 1 (dropWhile (\<lambda>d. d \<noteq> c) s))"

lemma py_in_sublist: "py_in pat s \<longleftrightarrow> (\<exists>pre post. s = pre @ pat @ post)"
proof (induction s)
  case Nil
  then show ?case by auto
next
  case (Cons c s)
  have "(\<exists>pre post. c # s = pre @ pat @ post) \<longleftrightarrow>
      prefix pat (c # s) \<or> (\<exists>pre post. s = pre @ pat @ post)"
  proof
    assume "\<exists>pre post. c # s = pre @ pat @ post"
    then obtain pre post where "c # s = pre @ pat @ post" by blast
    then show "prefix pat (c # s) \<or> (\<exists>pre post. s = pre @ pat @ post)"
      by (cases pre) (auto simp: prefix_def)
  next
    assume "prefix pat (c # s) \<or> (\<exists>pre post. s = pre @ pat @ post)"
    then show "\<exists>pre post. c # s = pre @ pat @ post"
      by (metis append_Cons append_Nil prefix_def)
  qed
  with Cons.IH show ?case by simp
qed

lemma py_split1_join: "py_join [c] (py_split1 c s) = s"
proof (induction s)
  case Nil
  then show ?case by simp
next
  case (Cons d s)
  have "py_split1 c s \<noteq> []" by (cases s) (auto split: list.splits)
  then obtain w ws where "py_split1 c s = w # ws" by (cases "py_split1 c s") auto
  with Cons.IH show ?case by (cases ws) auto
qed

section \<open>repr and str\<close>

definition hex_digit :: "nat \<Rightarrow> char" where
  "hex_digit n = (if n < 10 then char_of (48 + n) else char_of (87 + n))"

definition hex2 :: "nat \<Rightarrow> string" where
  "hex2 n = [hex_digit (n div 16), hex_digit (n mod 16)]"

definition py_repr_char :: "char \<Rightarrow> char \<Rightarrow> string" where
  "py_repr_char q c = (let n = (of_char c :: nat) in
     if c = q \<or> n = 92 then [CHR 0x5C, c]
     else if n = 9 then [CHR 0x5C, CHR ''t'']
     else if n = 10 then [CHR 0x5C, CHR ''n'']
     else if n = 13 then [CHR 0x5C, CHR ''r'']
     else if n < 32 \<or> (127 \<le> n \<and> n \<le> 160) \<or> n = 173 then [CHR 0x5C, CHR ''x''] @ hex2 n
     else [c])"

definition py_repr :: "string \<Rightarrow> string" where
  "py_repr s = (let q = (if CHR 0x27 \<in> set s \<and> CHR 0x22 \<notin> set s then CHR 0x22 else CHR 0x27)
     in [q] @ concat (map (py_repr_char q) s) @ [q])"

fun json_repr :: "(rat \<Rightarrow> string) \<Rightarrow> json \<Rightarrow> string" where
  "json_repr fr JNull = ''None''"
| "json_repr fr (JBool b) = (if b then ''True'' else ''False'')"
| "json_repr fr (JInt i) = int_str i"
| "json_repr fr (JFloat q) = fr q"
| "json_repr fr (JStr s) = py_repr s"
| "json_repr fr (JList vs) = ''['' @ py_join '', '' (map (json_repr fr) vs) @ '']''"
| "json_repr fr (JObj kvs) =
     ''{'' @ py_join '', '' (map (\<lambda>(k, v). py_repr k @ '': '' @ json_repr fr v) kvs) @ ''}''"

definition json_str :: "(rat \<Rightarrow> string) \<Rightarrow> json \<Rightarrow> string" where
  "json_str fr v = (case v of JStr s \<Rightarrow> s | _ \<Rightarrow> json_repr fr v)"

text \<open>\<open>bool(v)\<close> and \<open>type(v).__name__\<close> of a JSON value.\<close>

fun json_truthy :: "json \<Rightarrow> bool" where
  "json_truthy JNull = False"
| "json_truthy (JBool b) = b"
| "json_truthy (JInt i) = (i \<noteq> 0)"
| "json_truthy (JFloat q) = (q \<noteq> 0)"
| "json_truthy (JStr s) = (s \<noteq> [])"
| "json_truthy (JList vs) = (vs \<noteq> [])"
| "json_truthy (JObj kvs) = (kvs \<noteq> [])"

fun json_type_name :: "json \<Rightarrow> string" where
  "json_type_name JNull = ''NoneType''"
| "json_type_name (JBool _) = ''bool''"
| "json_type_name (JInt _) = ''int''"
| "json_type_name (JFloat _) = ''float''"
| "json_type_name (JStr _) = ''str''"
| "json_type_name (JList _) = ''list''"
| "json_type_name (JObj _) = ''dict''"

text \<open>\<open>repr\<close> of a list of strings.\<close>

definition string_list_repr :: "string list \<Rightarrow> string" where
  "string_list_repr xs = ''['' @ py_join '', '' (map py_repr xs) @ '']''"

section \<open>json.dumps\<close>

text \<open>\<open>ensure_ascii=False\<close> string escapes.\<close>

definition json_esc_char :: "char \<Rightarrow> string" where
  "json_esc_char c = (let n = (of_char c :: nat) in
     if n = 34 \<or> n = 92 then [CHR 0x5C, c]
     else if n = 10 then [CHR 0x5C, CHR ''n'']
     else if n = 13 then [CHR 0x5C, CHR ''r'']
     else if n = 9 then [CHR 0x5C, CHR ''t'']
     else if n = 8 then [CHR 0x5C, CHR ''b'']
     else if n = 12 then [CHR 0x5C, CHR ''f'']
     else if n < 32 then [CHR 0x5C] @ ''u00'' @ hex2 n
     else [c])"

definition json_quote :: "string \<Rightarrow> string" where
  "json_quote s = [CHR 0x22] @ concat (map json_esc_char s) @ [CHR 0x22]"

text \<open>\<open>json.dumps(v, sort_keys=True, ensure_ascii=False)\<close>\<close>

fun json_dumps_sorted :: "(rat \<Rightarrow> string) \<Rightarrow> json \<Rightarrow> string" where
  "json_dumps_sorted fr JNull = ''null''"
| "json_dumps_sorted fr (JBool b) = (if b then ''true'' else ''false'')"
| "json_dumps_sorted fr (JInt i) = int_str i"
| "json_dumps_sorted fr (JFloat q) = fr q"
| "json_dumps_sorted fr (JStr s) = json_quote s"
| "json_dumps_sorted fr (JList vs) = ''['' @ py_join '', '' (map (json_dumps_sorted fr) vs) @ '']''"
| "json_dumps_sorted fr (JObj kvs) =
     ''{'' @ py_join '', '' (map (\<lambda>(k, t). json_quote k @ '': '' @ t)
       (sort_key fst (map (\<lambda>(k, v). (k, json_dumps_sorted fr v)) kvs))) @ ''}''"

section \<open>Numbers\<close>

datatype pyfloat = Fin rat | PInf | NInf | NaN

text \<open>Python's \<open>x >= q\<close> for a finite \<open>q\<close>: every comparison with NaN is false.\<close>

fun pyfloat_ge :: "pyfloat \<Rightarrow> rat \<Rightarrow> bool" where
  "pyfloat_ge (Fin x) q = (x \<ge> q)"
| "pyfloat_ge PInf q = True"
| "pyfloat_ge NInf q = False"
| "pyfloat_ge NaN q = False"

definition is_digit :: "char \<Rightarrow> bool" where
  "is_digit c = (CHR ''0'' \<le> c \<and> c \<le> CHR ''9'')"

definition digit_val :: "char \<Rightarrow> nat" where
  "digit_val c = of_char c - 48"

text \<open>
  A run of digits with single underscores between them: its value, the number of digits and
  the rest.
\<close>

fun digit_tail :: "nat \<Rightarrow> nat \<Rightarrow> string \<Rightarrow> nat \<times> nat \<times> string" where
  "digit_tail v n [] = (v, n, [])"
| "digit_tail v n (c # cs) =
     (if is_digit c then digit_tail (10 * v + digit_val c) (n + 1) cs
      else if c = CHR ''_'' \<and> cs \<noteq> [] \<and> is_digit (hd cs) then digit_tail v n cs
      else (v, n, c # cs))"

definition digit_part :: "string \<Rightarrow> (nat \<times> nat \<times> string) option" where
  "digit_part s = (case s of [] \<Rightarrow> None
     | c # cs \<Rightarrow> if is_digit c then Some (digit_tail (digit_val c) 1 cs) else None)"

definition py_sign :: "string \<Rightarrow> bool \<times> string" where
  "py_sign s = (case s of [] \<Rightarrow> (False, [])
     | c # cs \<Rightarrow> if c = CHR ''-'' then (True, cs) else if c = CHR ''+'' then (False, cs) else (False, s))"

definition py_int :: "string \<Rightarrow> int option" where
  "py_int s = (case py_sign (py_strip s) of (neg, r) \<Rightarrow>
     (case digit_part r of
        Some (v, _, []) \<Rightarrow> Some (if neg then - int v else int v)
      | _ \<Rightarrow> None))"

text \<open>Half of the last gap below \<open>2 ^ 1024\<close>: a literal at or above it reads as infinity.\<close>

definition float_overflow :: rat where
  "float_overflow = 2 ^ 1024 - 2 ^ 970"

definition float_exponent :: "rat \<Rightarrow> string \<Rightarrow> rat option" where
  "float_exponent x r =
     (if r = [] then Some x
      else if hd r = CHR ''e'' \<or> hd r = CHR ''E''
      then (case py_sign (tl r) of (neg, r1) \<Rightarrow>
             (case digit_part r1 of
                Some (v, _, []) \<Rightarrow> Some (if neg then x / 10 ^ v else x * 10 ^ v)
              | _ \<Rightarrow> None))
      else None)"

definition float_number :: "string \<Rightarrow> rat option" where
  "float_number s =
     (case digit_part s of
        None \<Rightarrow>
          (if s \<noteq> [] \<and> hd s = CHR ''.''
           then (case digit_part (tl s) of
                   None \<Rightarrow> None
                 | Some (f, k, r) \<Rightarrow> float_exponent (of_nat f / 10 ^ k) r)
           else None)
      | Some (v, _, r) \<Rightarrow>
          (if r \<noteq> [] \<and> hd r = CHR ''.''
           then (case digit_part (tl r) of
                   None \<Rightarrow> float_exponent (of_nat v) (tl r)
                 | Some (f, k, r2) \<Rightarrow> float_exponent (of_nat v + of_nat f / 10 ^ k) r2)
           else float_exponent (of_nat v) r))"

definition py_float :: "string \<Rightarrow> pyfloat option" where
  "py_float s = (case py_sign (py_strip s) of (neg, r) \<Rightarrow>
     (if py_lower r \<in> {''inf'', ''infinity''} then Some (if neg then NInf else PInf)
      else if py_lower r = ''nan'' then Some NaN
      else map_option (\<lambda>x. if x \<ge> float_overflow then (if neg then NInf else PInf)
                            else Fin (if neg then - x else x)) (float_number r)))"

definition round_half_even :: "rat \<Rightarrow> int" where
  "round_half_even x = (let f = \<lfloor>x\<rfloor>; d = x - of_int f in
     if d < 1 / 2 then f else if d > 1 / 2 then f + 1 else if even f then f else f + 1)"

text \<open>\<open>f"{x:.kf}"\<close>\<close>

definition fmt_fixed :: "nat \<Rightarrow> rat \<Rightarrow> string" where
  "fmt_fixed k x =
     (let n = nat (round_half_even (\<bar>x\<bar> * 10 ^ k));
          ds = nat_str n;
          padded = replicate (k + 1 - length ds) (CHR ''0'') @ ds
      in (if x < 0 then ''-'' else []) @ take (length padded - k) padded @
         (if k = 0 then [] else ''.'' @ drop (length padded - k) padded))"

lemma nat_str_ne [simp]: "nat_str n \<noteq> []"
  by (subst nat_str.simps) simp


text \<open>Code equations on the bits of a character, so that the kernel evaluates them without unary numbers.\<close>

lemma is_digit_bits [code]: "is_digit (Char b0 b1 b2 b3 b4 b5 b6 b7) =
   (\<not> b7 \<and> \<not> b6 \<and> b5 \<and> b4 \<and> \<not> (b3 \<and> (b2 \<or> b1)))"
  by (cases b0; cases b1; cases b2; cases b3; cases b4; cases b5; cases b6; cases b7)
     (simp_all add: is_digit_def)

end
