(* ===== verification/Tool_Registry.thy ===== *)
theory Tool_Registry
  imports Py_Text
begin

text \<open>
  The tool registry of \<open>fa/inner_loop/registry.py\<close>: the value types \<open>ToolError\<close>,
  \<open>ToolResult\<close>, \<open>ToolSpec\<close> and \<open>ToolCall\<close>, the portable-schema validator
  (\<open>validate_tool_schema_portability\<close> and its helpers, one definition per helper) and
  the registry itself (\<open>register\<close>, \<open>lookup\<close>, \<open>validate\<close>, \<open>dispatch\<close>).

  The JSON-Schema compiler \<open>fastjsonschema\<close> is third-party code: it is the parameter
  \<open>compile\<close> of \<open>registry_register\<close>. A tool handler acts on a world of type \<open>'w\<close>.
\<close>

section \<open>Values\<close>

record tool_error =
  te_code :: string
  te_message :: string
  te_retryable :: bool

record tool_result =
  tr_summary :: string
  tr_result :: "json option"
  tr_error :: "tool_error option"
  tr_artifacts :: "string list"

record tool_call =
  tc_name :: string
  tc_params :: json_obj
  tc_call_id :: string

definition tool_result_post_init :: "tool_result \<Rightarrow> tool_result py_result" where
  "tool_result_post_init r =
     (if tr_summary r = [] then Inl (Exn ValueError ''tool result summary is required'')
      else if tr_error r \<noteq> None \<and> tr_result r \<noteq> None
      then Inl (Exn ValueError ''tool result cannot contain both result and error'')
      else Inr r)"

definition tool_result_ok :: "string \<Rightarrow> json option \<Rightarrow> string list \<Rightarrow> tool_result py_result" where
  "tool_result_ok summary res artifacts =
     tool_result_post_init
       \<lparr>tr_summary = summary, tr_result = res, tr_error = None, tr_artifacts = artifacts\<rparr>"

definition tool_result_fail :: "string \<Rightarrow> string \<Rightarrow> bool \<Rightarrow> string option \<Rightarrow> tool_result py_result" where
  "tool_result_fail code message retryable summary =
     tool_result_post_init
       \<lparr>tr_summary = (case summary of Some s \<Rightarrow> s | None \<Rightarrow> message), tr_result = None,
        tr_error = Some \<lparr>te_code = code, te_message = message, te_retryable = retryable\<rparr>,
        tr_artifacts = []\<rparr>"

definition tool_call_post_init :: "tool_call \<Rightarrow> tool_call py_result" where
  "tool_call_post_init c =
     (if tc_name c = [] then Inl (Exn ValueError ''tool call name is required'') else Inr c)"

type_synonym 'w tool_handler = "json_obj \<Rightarrow> 'w \<Rightarrow> tool_result py_result \<times> 'w"

record 'w tool_spec =
  ts_name :: string
  ts_description :: string
  ts_input_schema :: json_obj
  ts_permission :: string
  ts_handler :: "'w tool_handler"
  ts_tags :: "string list"
  ts_output_schema :: "json_obj option"
  ts_defer_loading :: bool
  ts_max_context_bytes :: int
  ts_elide :: "(json \<Rightarrow> int \<Rightarrow> string) option"

definition DEFAULT_TOOL_CONTEXT_BYTES :: int where
  "DEFAULT_TOOL_CONTEXT_BYTES = 32768"

definition VALID_PERMISSIONS :: "string list" where
  "VALID_PERMISSIONS = [''read'', ''workspace'']"

definition tool_spec_post_init :: "'w tool_spec \<Rightarrow> 'w tool_spec py_result" where
  "tool_spec_post_init s =
     (if ts_name s = [] then Inl (Exn ValueError ''tool name is required'')
      else if ts_description s = [] then Inl (Exn ValueError ''tool description is required'')
      else if ts_input_schema s = [] then Inl (Exn ValueError ''tool input_schema is required'')
      else if ts_max_context_bytes s < 0
      then Inl (Exn ValueError ''max_context_bytes must be >= 0'')
      else if ts_permission s = ''full''
      then Inl (Exn ValueError ''permission 'full' is reserved for a future ADR'')
      else if ts_permission s \<notin> set VALID_PERMISSIONS
      then Inl (Exn ValueError (''unknown tool permission: '' @ ts_permission s))
      else Inr s)"

section \<open>Portable tool schemas\<close>

definition PORTABLE_SCHEMA_TYPES :: "string list" where
  "PORTABLE_SCHEMA_TYPES = [''object'', ''array'', ''string'', ''integer'', ''number'', ''boolean'']"

definition PORTABLE_SCHEMA_KEYS :: "string list" where
  "PORTABLE_SCHEMA_KEYS =
     [''type'', ''properties'', ''required'', ''items'', ''enum'', ''description'', ''default'',
      ''minLength'', ''maxLength'', ''minimum'', ''maximum'', ''additionalProperties'']"

text \<open>\<open>ToolSchemaPortabilityError\<close>: the JSON pointer of the offending node and the reason.\<close>

record schema_error =
  se_tool :: string
  se_path :: string
  se_reason :: string

definition portable_error :: "string \<Rightarrow> string \<Rightarrow> string \<Rightarrow> schema_error" where
  "portable_error tool path reason =
     \<lparr>se_tool = tool, se_path = (if path = [] then ''/'' else path), se_reason = reason\<rparr>"

definition pointer_escape :: "string \<Rightarrow> string" where
  "pointer_escape token = py_replace1 (CHR ''/'') ''~1'' (py_replace1 (CHR ''~'') ''~0'' token)"

definition pointer :: "string \<Rightarrow> string \<Rightarrow> string" where
  "pointer path token =
     (if path = [] then ''/'' @ pointer_escape token else path @ ''/'' @ pointer_escape token)"

fun value_matches_type :: "json \<Rightarrow> string \<Rightarrow> bool" where
  "value_matches_type v t =
     (if t = ''object'' then (case v of JObj _ \<Rightarrow> True | _ \<Rightarrow> False)
      else if t = ''array'' then (case v of JList _ \<Rightarrow> True | _ \<Rightarrow> False)
      else if t = ''string'' then (case v of JStr _ \<Rightarrow> True | _ \<Rightarrow> False)
      else if t = ''integer'' then (case v of JInt _ \<Rightarrow> True | _ \<Rightarrow> False)
      else if t = ''number'' then (case v of JInt _ \<Rightarrow> True | JFloat _ \<Rightarrow> True | _ \<Rightarrow> False)
      else if t = ''boolean'' then (case v of JBool _ \<Rightarrow> True | _ \<Rightarrow> False)
      else False)"

definition validate_schema_header ::
  "string \<Rightarrow> json_obj \<Rightarrow> string \<Rightarrow> bool \<Rightarrow> schema_error + string" where
  "validate_schema_header tool schema path is_root =
     (case find (\<lambda>k. k \<notin> set PORTABLE_SCHEMA_KEYS) (sort (map fst schema)) of
        Some k \<Rightarrow> Inl (portable_error tool (pointer path k) ''unsupported_keyword'')
      | None \<Rightarrow>
         (let type_path = pointer path ''type'' in
          case map_of schema ''type'' of
            Some (JStr t) \<Rightarrow>
              (if t \<notin> set PORTABLE_SCHEMA_TYPES
               then Inl (portable_error tool type_path ''unsupported_type'')
               else if is_root \<and> t \<noteq> ''object''
               then Inl (portable_error tool type_path ''root_not_object'')
               else case map_of schema ''description'' of
                      None \<Rightarrow> Inr t
                    | Some (JStr _) \<Rightarrow> Inr t
                    | Some _ \<Rightarrow> Inl (portable_error tool (pointer path ''description'')
                                      ''invalid_description''))
          | _ \<Rightarrow> Inl (portable_error tool type_path ''unsupported_type'')))"

text \<open>
  The helpers that recurse into sub-schemas take the recursive validator as the argument
  \<open>rec\<close> (schema and path to error or nothing); \<open>validate_portable_schema_node\<close> ties the knot.
\<close>

fun properties_loop ::
  "(json_obj \<Rightarrow> string \<Rightarrow> schema_error option) \<Rightarrow> string \<Rightarrow> string \<Rightarrow> json_obj \<Rightarrow> string list
     \<Rightarrow> schema_error + string list" where
  "properties_loop rec tool ppath props [] = Inr []"
| "properties_loop rec tool ppath props (n # ns) =
     (case map_of props n of
        Some (JObj sub) \<Rightarrow>
          (case rec sub (pointer ppath n) of
             Some e \<Rightarrow> Inl e
           | None \<Rightarrow> (case properties_loop rec tool ppath props ns of
                        Inl e \<Rightarrow> Inl e | Inr names \<Rightarrow> Inr (n # names)))
      | _ \<Rightarrow> Inl (portable_error tool ppath ''invalid_properties''))"

definition validate_schema_properties ::
  "(json_obj \<Rightarrow> string \<Rightarrow> schema_error option) \<Rightarrow> string \<Rightarrow> json_obj \<Rightarrow> string \<Rightarrow> string
     \<Rightarrow> schema_error + string list" where
  "validate_schema_properties rec tool schema path schema_type =
     (case map_of schema ''properties'' of
        None \<Rightarrow> Inr []
      | Some pv \<Rightarrow>
         (let ppath = pointer path ''properties'' in
          case pv of
            JObj props \<Rightarrow>
              (if schema_type \<noteq> ''object''
               then Inl (portable_error tool ppath ''invalid_properties'')
               else properties_loop rec tool ppath props (sort (map fst props)))
          | _ \<Rightarrow> Inl (portable_error tool ppath ''invalid_properties'')))"

fun required_loop ::
  "string \<Rightarrow> string \<Rightarrow> string list \<Rightarrow> nat \<Rightarrow> string list \<Rightarrow> json list \<Rightarrow> schema_error option" where
  "required_loop tool rpath names i seen [] = None"
| "required_loop tool rpath names i seen (v # vs) =
     (case v of
        JStr s \<Rightarrow>
          (if s \<in> set seen
           then Some (portable_error tool (pointer rpath (nat_str i)) ''invalid_required'')
           else if s \<notin> set names
           then Some (portable_error tool (pointer rpath (nat_str i)) ''required_unknown_property'')
           else required_loop tool rpath names (Suc i) (s # seen) vs)
      | _ \<Rightarrow> Some (portable_error tool (pointer rpath (nat_str i)) ''invalid_required''))"

definition validate_schema_required ::
  "string \<Rightarrow> json_obj \<Rightarrow> string \<Rightarrow> string \<Rightarrow> string list \<Rightarrow> schema_error option" where
  "validate_schema_required tool schema path schema_type names =
     (case map_of schema ''required'' of
        None \<Rightarrow> None
      | Some rv \<Rightarrow>
         (let rpath = pointer path ''required'' in
          case rv of
            JList vs \<Rightarrow>
              (if schema_type \<noteq> ''object'' then Some (portable_error tool rpath ''invalid_required'')
               else required_loop tool rpath names 0 [] vs)
          | _ \<Rightarrow> Some (portable_error tool rpath ''invalid_required'')))"

definition validate_schema_children ::
  "(json_obj \<Rightarrow> string \<Rightarrow> schema_error option) \<Rightarrow> string \<Rightarrow> json_obj \<Rightarrow> string \<Rightarrow> string
     \<Rightarrow> schema_error option" where
  "validate_schema_children rec tool schema path schema_type =
     (let ipath = pointer path ''items'';
          items_result =
            (if schema_type = ''array''
             then (case map_of schema ''items'' of
                     Some (JObj sub) \<Rightarrow> rec sub ipath
                   | _ \<Rightarrow> Some (portable_error tool ipath ''invalid_items''))
             else (case map_of schema ''items'' of
                     None \<Rightarrow> None
                   | Some _ \<Rightarrow> Some (portable_error tool ipath ''invalid_items'')))
      in case items_result of
           Some e \<Rightarrow> Some e
         | None \<Rightarrow>
            (case map_of schema ''additionalProperties'' of
               None \<Rightarrow> None
             | Some av \<Rightarrow>
                (let apath = pointer path ''additionalProperties'' in
                 if schema_type \<noteq> ''object''
                 then Some (portable_error tool apath ''invalid_additional_properties'')
                 else case av of
                        JObj sub \<Rightarrow> rec sub apath
                      | JBool _ \<Rightarrow> None
                      | _ \<Rightarrow> Some (portable_error tool apath ''invalid_additional_properties''))))"

fun enum_loop :: "string \<Rightarrow> string \<Rightarrow> string \<Rightarrow> nat \<Rightarrow> json list \<Rightarrow> schema_error option" where
  "enum_loop tool epath t i [] = None"
| "enum_loop tool epath t i (v # vs) =
     (if \<not> value_matches_type v t
      then Some (portable_error tool (pointer epath (nat_str i)) ''invalid_enum'')
      else enum_loop tool epath t (Suc i) vs)"

definition validate_schema_values ::
  "string \<Rightarrow> json_obj \<Rightarrow> string \<Rightarrow> string \<Rightarrow> schema_error option" where
  "validate_schema_values tool schema path schema_type =
     (let enum_result =
        (case map_of schema ''enum'' of
           None \<Rightarrow> None
         | Some ev \<Rightarrow>
            (let epath = pointer path ''enum'' in
             case ev of
               JList vs \<Rightarrow>
                 (if schema_type \<in> {''object'', ''array''} \<or> vs = []
                  then Some (portable_error tool epath ''invalid_enum'')
                  else enum_loop tool epath schema_type 0 vs)
             | _ \<Rightarrow> Some (portable_error tool epath ''invalid_enum'')))
      in case enum_result of
           Some e \<Rightarrow> Some e
         | None \<Rightarrow>
            (case map_of schema ''default'' of
               None \<Rightarrow> None
             | Some d \<Rightarrow> (if value_matches_type d schema_type then None
                          else Some (portable_error tool (pointer path ''default'') ''invalid_default''))))"

text \<open>Numeric reading of a bound: \<open>None\<close> for a value that is no number (booleans included).\<close>

fun json_number :: "json \<Rightarrow> rat option" where
  "json_number (JInt i) = Some (of_int i)"
| "json_number (JFloat q) = Some q"
| "json_number _ = None"

definition length_bound_invalid :: "string \<Rightarrow> json option \<Rightarrow> bool" where
  "length_bound_invalid schema_type v =
     (case v of None \<Rightarrow> False
      | Some (JInt i) \<Rightarrow> schema_type \<noteq> ''string'' \<or> i < 0
      | Some _ \<Rightarrow> True)"

definition number_bound_invalid :: "string \<Rightarrow> json option \<Rightarrow> bool" where
  "number_bound_invalid schema_type v =
     (case v of None \<Rightarrow> False
      | Some x \<Rightarrow> schema_type \<notin> {''integer'', ''number''} \<or> json_number x = None)"

definition validate_schema_bounds ::
  "string \<Rightarrow> json_obj \<Rightarrow> string \<Rightarrow> string \<Rightarrow> schema_error option" where
  "validate_schema_bounds tool schema path schema_type =
     (let err = (\<lambda>k. Some (portable_error tool (pointer path k) ''invalid_bound''));
          mn = map_of schema ''minLength''; mx = map_of schema ''maxLength'';
          lo = map_of schema ''minimum''; hi = map_of schema ''maximum'' in
      if length_bound_invalid schema_type mn then err ''minLength''
      else if length_bound_invalid schema_type mx then err ''maxLength''
      else if (case (mn, mx) of (Some (JInt a), Some (JInt b)) \<Rightarrow> a > b | _ \<Rightarrow> False)
      then err ''maxLength''
      else if number_bound_invalid schema_type lo then err ''minimum''
      else if number_bound_invalid schema_type hi then err ''maximum''
      else if (case (Option.bind lo json_number, Option.bind hi json_number) of
                 (Some a, Some b) \<Rightarrow> a > b | _ \<Rightarrow> False)
      then err ''maximum''
      else None)"

text \<open>Congruence rules: the helpers call \<open>rec\<close> on the sub-schemas of \<open>schema\<close> only.\<close>

lemma properties_loop_cong [fundef_cong]:
  assumes "tool = tool'" "ppath = ppath'" "props = props'" "ns = ns'"
    and "\<And>n sub p. map_of props' n = Some (JObj sub) \<Longrightarrow> rec sub p = rec' sub p"
  shows "properties_loop rec tool ppath props ns = properties_loop rec' tool' ppath' props' ns'"
  using assms by (induction ns arbitrary: ns') (auto split: option.splits json.splits sum.splits)

lemma validate_schema_properties_cong [fundef_cong]:
  assumes "tool = tool'" "schema = schema'" "path = path'" "st = st'"
    and "\<And>props n sub p. map_of schema' ''properties'' = Some (JObj props) \<Longrightarrow>
           map_of props n = Some (JObj sub) \<Longrightarrow> rec sub p = rec' sub p"
  shows "validate_schema_properties rec tool schema path st =
         validate_schema_properties rec' tool' schema' path' st'"
  using assms unfolding validate_schema_properties_def
  by (auto simp: Let_def split: option.splits json.splits intro!: properties_loop_cong)

lemma validate_schema_children_cong [fundef_cong]:
  assumes "tool = tool'" "schema = schema'" "path = path'" "st = st'"
    and "\<And>k sub p. map_of schema' k = Some (JObj sub) \<Longrightarrow> rec sub p = rec' sub p"
  shows "validate_schema_children rec tool schema path st =
         validate_schema_children rec' tool' schema' path' st'"
proof -
  have items: "(case map_of schema' ''items'' of Some (JObj sub) \<Rightarrow> rec sub p | _ \<Rightarrow> E) =
      (case map_of schema' ''items'' of Some (JObj sub) \<Rightarrow> rec' sub p | _ \<Rightarrow> E)" for p E
    using assms(5) [of "''items''"] by (auto split: option.split json.split)
  have additional: "map_of schema' ''additionalProperties'' = Some av \<Longrightarrow>
      (case av of JObj sub \<Rightarrow> rec sub p | JBool _ \<Rightarrow> None | _ \<Rightarrow> E) =
      (case av of JObj sub \<Rightarrow> rec' sub p | JBool _ \<Rightarrow> None | _ \<Rightarrow> E)" for p E av
    using assms(5) [of "''additionalProperties''"] by (auto split: json.split)
  show ?thesis
  proof (cases "map_of schema' ''additionalProperties''")
    case None
    then show ?thesis unfolding validate_schema_children_def assms(1-4) items Let_def None
      by (simp only: option.case)
  next
    case (Some av)
    show ?thesis
      unfolding validate_schema_children_def assms(1-4) items Let_def Some option.case
        additional [OF Some] ..
  qed
qed

function validate_portable_schema_node ::
  "string \<Rightarrow> json_obj \<Rightarrow> string \<Rightarrow> bool \<Rightarrow> schema_error option" where
  "validate_portable_schema_node tool schema path is_root =
     (case validate_schema_header tool schema path is_root of
        Inl e \<Rightarrow> Some e
      | Inr t \<Rightarrow>
         (case validate_schema_properties
                 (\<lambda>sub p. validate_portable_schema_node tool sub p False) tool schema path t of
            Inl e \<Rightarrow> Some e
          | Inr names \<Rightarrow>
             (case validate_schema_required tool schema path t names of
                Some e \<Rightarrow> Some e
              | None \<Rightarrow>
                 (case validate_schema_children
                         (\<lambda>sub p. validate_portable_schema_node tool sub p False) tool schema path t of
                    Some e \<Rightarrow> Some e
                  | None \<Rightarrow>
                     (case validate_schema_values tool schema path t of
                        Some e \<Rightarrow> Some e
                      | None \<Rightarrow> validate_schema_bounds tool schema path t)))))"
  by pat_completeness auto
termination
proof (relation "measure (\<lambda>(tool, schema, path, is_root). size (JObj schema))", goal_cases)
  case 1
  show ?case by simp
next
  case (2 tool schema path is_root t props n sub p)
  from 2(2) have "size (JObj props) < size (JObj schema)" by (rule map_of_json_size)
  moreover from 2(3) have "size (JObj sub) < size (JObj props)" by (rule map_of_json_size)
  ultimately have "size (JObj sub) < size (JObj schema)" by (rule less_trans [rotated])
  then show ?case by (simp del: json.size)
next
  case (3 tool schema path is_root t names k sub p)
  from 3(4) have "size (JObj sub) < size (JObj schema)" by (rule map_of_json_size)
  then show ?case by (simp del: json.size)
qed

declare validate_portable_schema_node.simps [simp del]

definition validate_tool_schema_portability :: "string \<Rightarrow> json_obj \<Rightarrow> schema_error option" where
  "validate_tool_schema_portability tool schema = validate_portable_schema_node tool schema [] True"

section \<open>The registry\<close>

text \<open>
  A compiled validator maps the call's parameters to nothing or to the validation error
  (message and JSON path) that \<open>fastjsonschema\<close> raises.
\<close>

type_synonym json_validator = "json_obj \<Rightarrow> (string \<times> string list) option"

record 'w tool_registry =
  reg_tools :: "(string \<times> 'w tool_spec) list"
  reg_validators :: "(string \<times> json_validator) list"

definition registry_init :: "'w tool_registry" where
  "registry_init = \<lparr>reg_tools = [], reg_validators = []\<rparr>"

definition registry_register ::
  "(json_obj \<Rightarrow> string + json_validator) \<Rightarrow> 'w tool_spec \<Rightarrow> 'w tool_registry
     \<Rightarrow> 'w tool_registry py_result" where
  "registry_register compile spec reg =
     (if ts_name spec \<in> set (map fst (reg_tools reg))
      then Inl (Exn ValueError (''tool already registered: '' @ ts_name spec))
      else case compile (ts_input_schema spec) of
             Inl msg \<Rightarrow> Inl (Exn ValueError (''invalid input_schema for tool '' @ ts_name spec @ '': '' @ msg))
           | Inr compiled \<Rightarrow>
              (case validate_tool_schema_portability (ts_name spec) (ts_input_schema spec) of
                 Some e \<Rightarrow> Inl (Exn ValueError (''non-portable tool schema: tool='' @ se_tool e
                                 @ '' path='' @ se_path e @ '' reason='' @ se_reason e))
               | None \<Rightarrow>
                  Inr (reg\<lparr>reg_tools := AList.update (ts_name spec) spec (reg_tools reg),
                           reg_validators := AList.update (ts_name spec) compiled (reg_validators reg)\<rparr>)))"

definition registry_lookup :: "'w tool_registry \<Rightarrow> string \<Rightarrow> 'w tool_spec py_result" where
  "registry_lookup reg name =
     (case map_of (reg_tools reg) name of
        Some spec \<Rightarrow> Inr spec
      | None \<Rightarrow> Inl (Exn KeyError (py_repr (''tool is not registered: '' @ name))))"

definition registry_validate :: "'w tool_registry \<Rightarrow> tool_call \<Rightarrow> tool_result option py_result" where
  "registry_validate reg call =
     (case map_of (reg_validators reg) (tc_name call) of
        None \<Rightarrow> Inl (Exn KeyError (py_repr (''tool is not registered: '' @ tc_name call)))
      | Some check \<Rightarrow>
         (case check (tc_params call) of
            None \<Rightarrow> Inr None
          | Some (msg, path) \<Rightarrow>
             (let joined = py_join ''/'' path; loc = (if joined = [] then ''<root>'' else joined) in
              case tool_result_fail ''invalid_params'' (msg @ '' at '' @ loc) True None of
                Inl e \<Rightarrow> Inl e
              | Inr r \<Rightarrow> Inr (Some r))))"

definition handler_crash_result :: "py_exc \<Rightarrow> tool_result py_result" where
  "handler_crash_result e =
     tool_result_fail ''internal_error''
       (''tool handler raised '' @ exc_name (exn_class e) @ '': '' @ exn_msg e) False None"

definition registry_dispatch ::
  "'w tool_registry \<Rightarrow> tool_call \<Rightarrow> 'w \<Rightarrow> tool_result py_result \<times> 'w" where
  "registry_dispatch reg call w =
     (case registry_validate reg call of
        Inl e \<Rightarrow> (Inl e, w)
      | Inr (Some failure) \<Rightarrow> (Inr failure, w)
      | Inr None \<Rightarrow>
         (case map_of (reg_tools reg) (tc_name call) of
            None \<Rightarrow> (handler_crash_result (Exn KeyError (py_repr (tc_name call))), w)
          | Some spec \<Rightarrow>
             (case ts_handler spec (tc_params call) w of
                (Inr r, w') \<Rightarrow> (Inr r, w')
              | (Inl e, w') \<Rightarrow> (if is_Exception e then handler_crash_result e else Inl e, w'))))"

definition registry_names :: "'w tool_registry \<Rightarrow> string list" where
  "registry_names reg = map fst (reg_tools reg)"

definition registry_specs :: "'w tool_registry \<Rightarrow> 'w tool_spec list" where
  "registry_specs reg = map snd (reg_tools reg)"

section \<open>The portable profile, stated declaratively\<close>

definition required_ok :: "string \<Rightarrow> string set \<Rightarrow> json_obj \<Rightarrow> bool" where
  "required_ok t names s \<longleftrightarrow>
     (\<forall>rv. map_of s ''required'' = Some rv \<longrightarrow>
        t = ''object'' \<and> (\<exists>rs. rv = JList (map JStr rs) \<and> distinct rs \<and> set rs \<subseteq> names))"

definition values_ok :: "string \<Rightarrow> json_obj \<Rightarrow> bool" where
  "values_ok t s \<longleftrightarrow>
     (\<forall>ev. map_of s ''enum'' = Some ev \<longrightarrow>
        t \<noteq> ''object'' \<and> t \<noteq> ''array'' \<and>
        (\<exists>vs. ev = JList vs \<and> vs \<noteq> [] \<and> (\<forall>v \<in> set vs. value_matches_type v t))) \<and>
     (\<forall>d. map_of s ''default'' = Some d \<longrightarrow> value_matches_type d t)"

definition bounds_ok :: "string \<Rightarrow> json_obj \<Rightarrow> bool" where
  "bounds_ok t s \<longleftrightarrow>
     (\<forall>k \<in> {''minLength'', ''maxLength''}. \<forall>v. map_of s k = Some v \<longrightarrow>
        t = ''string'' \<and> (\<exists>i \<ge> 0. v = JInt i)) \<and>
     (\<forall>a b. map_of s ''minLength'' = Some (JInt a) \<longrightarrow> map_of s ''maxLength'' = Some (JInt b) \<longrightarrow> a \<le> b) \<and>
     (\<forall>k \<in> {''minimum'', ''maximum''}. \<forall>v. map_of s k = Some v \<longrightarrow>
        t \<in> {''integer'', ''number''} \<and> json_number v \<noteq> None) \<and>
     (\<forall>v w a b. map_of s ''minimum'' = Some v \<longrightarrow> map_of s ''maximum'' = Some w \<longrightarrow>
        json_number v = Some a \<longrightarrow> json_number w = Some b \<longrightarrow> a \<le> b)"

inductive portable_schema :: "bool \<Rightarrow> json_obj \<Rightarrow> bool" where
  portable:
  "\<lbrakk> set (map fst s) \<subseteq> set PORTABLE_SCHEMA_KEYS;
     map_of s ''type'' = Some (JStr t); t \<in> set PORTABLE_SCHEMA_TYPES;
     is_root \<Longrightarrow> t = ''object'';
     \<And>d. map_of s ''description'' = Some d \<Longrightarrow> \<exists>txt. d = JStr txt;
     map_of s ''properties'' = None \<and> props = [] \<or>
       map_of s ''properties'' = Some (JObj props) \<and> t = ''object'';
     \<And>n. n \<in> set (map fst props) \<Longrightarrow>
        \<exists>sub. map_of props n = Some (JObj sub) \<and> portable_schema False sub;
     required_ok t (set (map fst props)) s;
     t = ''array'' \<Longrightarrow> \<exists>sub. map_of s ''items'' = Some (JObj sub) \<and> portable_schema False sub;
     t \<noteq> ''array'' \<Longrightarrow> map_of s ''items'' = None;
     \<And>a. map_of s ''additionalProperties'' = Some a \<Longrightarrow>
        t = ''object'' \<and> ((\<exists>b. a = JBool b) \<or> (\<exists>sub. a = JObj sub \<and> portable_schema False sub));
     values_ok t s; bounds_ok t s \<rbrakk> \<Longrightarrow> portable_schema is_root s"

section \<open>The validator decides the profile\<close>

lemma header_Inr_iff:
  "validate_schema_header tool s path is_root = Inr t \<longleftrightarrow>
     set (map fst s) \<subseteq> set PORTABLE_SCHEMA_KEYS \<and> map_of s ''type'' = Some (JStr t) \<and>
     t \<in> set PORTABLE_SCHEMA_TYPES \<and> (is_root \<longrightarrow> t = ''object'') \<and>
     (\<forall>d. map_of s ''description'' = Some d \<longrightarrow> (\<exists>txt. d = JStr txt))"
proof -
  have find: "find (\<lambda>k. k \<notin> set PORTABLE_SCHEMA_KEYS) (sort (map fst s)) = None \<longleftrightarrow>
        set (map fst s) \<subseteq> set PORTABLE_SCHEMA_KEYS"
    by (auto simp: find_None_iff)
  show ?thesis
  proof (cases "find (\<lambda>k. k \<notin> set PORTABLE_SCHEMA_KEYS) (sort (map fst s))")
    case None
    with find show ?thesis
      by (auto simp: validate_schema_header_def Let_def split: option.splits json.splits)
  next
    case (Some k)
    with find have "\<not> set (map fst s) \<subseteq> set PORTABLE_SCHEMA_KEYS" by simp
    with Some show ?thesis by (simp only: validate_schema_header_def option.case) simp
  qed
qed

lemma properties_loop_Inr_iff:
  "properties_loop rec tool ppath props ns = Inr names \<longleftrightarrow>
     names = ns \<and>
     (\<forall>n \<in> set ns. \<exists>sub. map_of props n = Some (JObj sub) \<and> rec sub (pointer ppath n) = None)"
  by (induction ns arbitrary: names) (auto split: option.splits json.splits sum.splits)

lemma properties_Inr_iff:
  "validate_schema_properties rec tool s path t = Inr names \<longleftrightarrow>
     map_of s ''properties'' = None \<and> names = [] \<or>
     (\<exists>props. map_of s ''properties'' = Some (JObj props) \<and> t = ''object'' \<and>
        names = sort (map fst props) \<and>
        (\<forall>n \<in> set (map fst props). \<exists>sub. map_of props n = Some (JObj sub) \<and>
            rec sub (pointer (pointer path ''properties'') n) = None))"
  by (auto simp: validate_schema_properties_def Let_def properties_loop_Inr_iff
      split: option.splits json.splits if_splits)

lemma ex_map_Cons:
  "(\<exists>rs. JStr s # vs = map JStr rs \<and> P rs) \<longleftrightarrow> (\<exists>rs. vs = map JStr rs \<and> P (s # rs))"
  by (auto simp: Cons_eq_map_conv)

lemma required_loop_None_iff:
  "required_loop tool rpath names i seen vs = None \<longleftrightarrow>
     (\<exists>rs. vs = map JStr rs \<and> distinct rs \<and> set rs \<subseteq> set names \<and> set rs \<inter> set seen = {})"
proof (induction vs arbitrary: i seen)
  case Nil
  then show ?case by simp
next
  case (Cons v vs)
  show ?case
  proof (cases v)
    case (JStr s)
    show ?thesis
      unfolding JStr ex_map_Cons using Cons.IH [of "Suc i" "s # seen"] by auto
  qed (auto simp: Cons_eq_map_conv)
qed

lemma required_None_iff:
  "validate_schema_required tool s path t names = None \<longleftrightarrow> required_ok t (set names) s"
  by (auto simp: validate_schema_required_def required_ok_def Let_def required_loop_None_iff
      split: option.splits json.splits)

lemma children_None_iff:
  "validate_schema_children rec tool s path t = None \<longleftrightarrow>
     (t = ''array'' \<longrightarrow> (\<exists>sub. map_of s ''items'' = Some (JObj sub) \<and> rec sub (pointer path ''items'') = None)) \<and>
     (t \<noteq> ''array'' \<longrightarrow> map_of s ''items'' = None) \<and>
     (\<forall>a. map_of s ''additionalProperties'' = Some a \<longrightarrow> t = ''object'' \<and>
        ((\<exists>b. a = JBool b) \<or>
         (\<exists>sub. a = JObj sub \<and> rec sub (pointer path ''additionalProperties'') = None)))"
  by (auto simp: validate_schema_children_def Let_def split: option.splits json.splits)

lemma enum_loop_None_iff:
  "enum_loop tool epath t i vs = None \<longleftrightarrow> (\<forall>v \<in> set vs. value_matches_type v t)"
  by (induction vs arbitrary: i) (auto simp del: value_matches_type.simps)

lemma enum_loop_SomeD:
  "enum_loop tool epath t i vs = Some e \<Longrightarrow> \<exists>v \<in> set vs. \<not> value_matches_type v t"
  using enum_loop_None_iff [of tool epath t i vs] by auto

lemma values_None_iff: "validate_schema_values tool s path t = None \<longleftrightarrow> values_ok t s"
  by (auto simp: validate_schema_values_def values_ok_def Let_def enum_loop_None_iff
      dest: enum_loop_SomeD simp del: value_matches_type.simps split: option.splits json.splits)

lemma length_bound_valid_iff:
  "\<not> length_bound_invalid t v \<longleftrightarrow> (\<forall>x. v = Some x \<longrightarrow> t = ''string'' \<and> (\<exists>i \<ge> 0. x = JInt i))"
  by (auto simp: length_bound_invalid_def split: option.splits json.splits)

lemma number_bound_valid_iff:
  "\<not> number_bound_invalid t v \<longleftrightarrow>
     (\<forall>x. v = Some x \<longrightarrow> t \<in> {''integer'', ''number''} \<and> json_number x \<noteq> None)"
  by (auto simp: number_bound_invalid_def split: option.splits)

lemma length_pair_ok_iff:
  "\<not> (case (x, y) of (Some (JInt a), Some (JInt b)) \<Rightarrow> a > b | _ \<Rightarrow> False) \<longleftrightarrow>
     (\<forall>a b. x = Some (JInt a) \<longrightarrow> y = Some (JInt b) \<longrightarrow> a \<le> b)"
  by (cases x; cases y) (auto split: json.splits)

lemma number_pair_ok_iff:
  "\<not> (case (Option.bind x json_number, Option.bind y json_number) of
         (Some a, Some b) \<Rightarrow> a > b | _ \<Rightarrow> False) \<longleftrightarrow>
     (\<forall>v w a b. x = Some v \<longrightarrow> y = Some w \<longrightarrow> json_number v = Some a \<longrightarrow> json_number w = Some b \<longrightarrow> a \<le> b)"
  by (cases x; cases y) (auto split: option.splits)

lemma bounds_None_iff: "validate_schema_bounds tool s path t = None \<longleftrightarrow> bounds_ok t s"
proof -
  have "validate_schema_bounds tool s path t = None \<longleftrightarrow>
      \<not> length_bound_invalid t (map_of s ''minLength'') \<and> \<not> length_bound_invalid t (map_of s ''maxLength'') \<and>
      \<not> (case (map_of s ''minLength'', map_of s ''maxLength'') of
              (Some (JInt a), Some (JInt b)) \<Rightarrow> a > b | _ \<Rightarrow> False) \<and>
      \<not> number_bound_invalid t (map_of s ''minimum'') \<and> \<not> number_bound_invalid t (map_of s ''maximum'') \<and>
      \<not> (case (Option.bind (map_of s ''minimum'') json_number,
                  Option.bind (map_of s ''maximum'') json_number) of
              (Some a, Some b) \<Rightarrow> a > b | _ \<Rightarrow> False)"
    by (simp add: validate_schema_bounds_def Let_def)
  then show ?thesis
    unfolding length_bound_valid_iff number_bound_valid_iff length_pair_ok_iff number_pair_ok_iff
      bounds_ok_def ball_simps(7) by simp
qed

lemma portable_node_None_iff:
  "validate_portable_schema_node tool s path is_root = None \<longleftrightarrow>
     (\<exists>t names. validate_schema_header tool s path is_root = Inr t \<and>
        validate_schema_properties (\<lambda>sub p. validate_portable_schema_node tool sub p False) tool s path t
          = Inr names \<and>
        validate_schema_required tool s path t names = None \<and>
        validate_schema_children (\<lambda>sub p. validate_portable_schema_node tool sub p False) tool s path t
          = None \<and>
        validate_schema_values tool s path t = None \<and> validate_schema_bounds tool s path t = None)"
  by (subst validate_portable_schema_node.simps) (auto split: sum.splits option.splits)

lemma portable_node_sound:
  "validate_portable_schema_node tool s path is_root = None \<Longrightarrow> portable_schema is_root s"
proof (induction "size (JObj s)" arbitrary: s path is_root rule: less_induct)
  case less
  have IH: "portable_schema False sub"
    if "size (JObj sub) < size (JObj s)" and "validate_portable_schema_node tool sub p False = None"
    for sub p
    using less.hyps that by blast
  from less.prems obtain t names where
    hdr: "validate_schema_header tool s path is_root = Inr t" and
    properties: "validate_schema_properties (\<lambda>sub p. validate_portable_schema_node tool sub p False) tool s path t
          = Inr names" and
    req: "required_ok t (set names) s" and
    children: "validate_schema_children (\<lambda>sub p. validate_portable_schema_node tool sub p False) tool s path t = None" and
    vals: "values_ok t s" and bnds: "bounds_ok t s"
    unfolding portable_node_None_iff required_None_iff values_None_iff bounds_None_iff by blast
  obtain props where props: "map_of s ''properties'' = None \<and> props = [] \<or>
       map_of s ''properties'' = Some (JObj props) \<and> t = ''object''"
    and names: "set names = set (map fst props)"
    and subs: "\<And>n. n \<in> set (map fst props) \<Longrightarrow> \<exists>sub p. map_of props n = Some (JObj sub) \<and>
            validate_portable_schema_node tool sub p False = None"
    using properties unfolding properties_Inr_iff by fastforce
  have sub_ok: "\<exists>sub. map_of props n = Some (JObj sub) \<and> portable_schema False sub"
    if n: "n \<in> set (map fst props)" for n
  proof -
    from subs [OF n] obtain sub p where sub: "map_of props n = Some (JObj sub)"
      and ok: "validate_portable_schema_node tool sub p False = None" by blast
    from props n have "map_of s ''properties'' = Some (JObj props)" by auto
    then have "size (JObj sub) < size (JObj s)"
      using sub map_of_json_size less_trans by blast
    with ok sub IH show ?thesis by blast
  qed
  show ?case
  proof (rule portable_schema.portable [where t = t and props = props])
    show "required_ok t (set (map fst props)) s" using req names by simp
    show "\<exists>sub. map_of s ''items'' = Some (JObj sub) \<and> portable_schema False sub" if "t = ''array''"
      using children that unfolding children_None_iff using IH map_of_json_size by blast
    show "map_of s ''items'' = None" if "t \<noteq> ''array''"
      using children that unfolding children_None_iff by blast
    show "t = ''object'' \<and> ((\<exists>b. a = JBool b) \<or> (\<exists>sub. a = JObj sub \<and> portable_schema False sub))"
      if "map_of s ''additionalProperties'' = Some a" for a
      using children that unfolding children_None_iff using IH map_of_json_size by blast
  qed (use hdr props sub_ok vals bnds in \<open>auto simp: header_Inr_iff\<close>)
qed

lemma portable_node_complete:
  "portable_schema is_root s \<Longrightarrow> validate_portable_schema_node tool s path is_root = None"
proof (induction arbitrary: path rule: portable_schema.induct)
  case (portable s t is_root props)
  let ?rec = "\<lambda>sub p. validate_portable_schema_node tool sub p False"
  have "validate_schema_header tool s path is_root = Inr t"
    using portable.hyps by (simp add: header_Inr_iff)
  moreover have "validate_schema_properties ?rec tool s path t = Inr (sort (map fst props))"
    using portable.hyps(6) portable.IH(1) unfolding properties_Inr_iff by fastforce
  moreover have "validate_schema_required tool s path t (sort (map fst props)) = None"
    using portable.hyps by (simp add: required_None_iff)
  moreover have "validate_schema_children ?rec tool s path t = None"
    unfolding children_None_iff
  proof (intro conjI allI impI)
    show "\<exists>sub. map_of s ''items'' = Some (JObj sub) \<and> ?rec sub (pointer path ''items'') = None" if "t = ''array''"
      using portable.IH(2) [OF that] by blast
    show "map_of s ''items'' = None" if "t \<noteq> ''array''" using that by (rule portable.hyps)
    show "t = ''object''" "(\<exists>b. a = JBool b) \<or> (\<exists>sub. a = JObj sub \<and> ?rec sub (pointer path ''additionalProperties'') = None)"
      if "map_of s ''additionalProperties'' = Some a" for a
      using portable.IH(3) [OF that] by blast+
  qed
  moreover have "validate_schema_values tool s path t = None"
    using portable.hyps by (simp add: values_None_iff)
  moreover have "validate_schema_bounds tool s path t = None"
    using portable.hyps by (simp add: bounds_None_iff)
  ultimately show ?case unfolding portable_node_None_iff by blast
qed

section \<open>Registry invariant\<close>

definition tool_result_wf :: "tool_result \<Rightarrow> bool" where
  "tool_result_wf r \<longleftrightarrow> tr_summary r \<noteq> [] \<and> (tr_error r = None \<or> tr_result r = None)"

lemma post_init_wf: "tool_result_post_init r = Inr r' \<Longrightarrow> r' = r \<and> tool_result_wf r"
  by (auto simp: tool_result_post_init_def tool_result_wf_def split: if_splits)

lemma tool_result_fail_Inr:
  "tool_result_fail code msg retry None = Inr r \<Longrightarrow>
     tool_result_wf r \<and> (\<exists>e. tr_error r = Some e \<and> te_code e = code \<and> te_message e = msg \<and> te_retryable e = retry)"
  unfolding tool_result_fail_def by (drule post_init_wf) auto

lemma tool_result_fail_total: "msg \<noteq> [] \<Longrightarrow> \<exists>r. tool_result_fail code msg retry None = Inr r"
  by (simp add: tool_result_fail_def tool_result_post_init_def)

lemma handler_crash_total: "\<exists>r. handler_crash_result e = Inr r"
  by (simp add: handler_crash_result_def tool_result_fail_total)

lemma handler_crash_Inr:
  "handler_crash_result e = Inr r \<Longrightarrow> tool_result_wf r \<and> (\<exists>x. tr_error r = Some x \<and> te_code x = ''internal_error'')"
  unfolding handler_crash_result_def by (drule tool_result_fail_Inr) auto

text \<open>
  Every \<open>ToolResult\<close> runs \<open>__post_init__\<close>, so a handler can only return well-formed
  results; \<open>spec_wf\<close> records this for the handler of a spec.
\<close>

definition spec_wf :: "'w tool_spec \<Rightarrow> bool" where
  "spec_wf spec \<longleftrightarrow> (\<forall>p w r w'. ts_handler spec p w = (Inr r, w') \<longrightarrow> tool_result_wf r)"

definition registry_wf :: "'w tool_registry \<Rightarrow> bool" where
  "registry_wf reg \<longleftrightarrow>
     map fst (reg_tools reg) = map fst (reg_validators reg) \<and> distinct (map fst (reg_tools reg)) \<and>
     (\<forall>(n, spec) \<in> set (reg_tools reg).
        ts_name spec = n \<and> portable_schema True (ts_input_schema spec) \<and> spec_wf spec)"

lemma registry_wf_init [inv_intros]: "registry_wf registry_init"
  by (simp add: registry_wf_def registry_init_def)

lemma update_fresh: "k \<notin> set (map fst d) \<Longrightarrow> AList.update k v d = d @ [(k, v)]"
  by (induction d) auto

lemma register_Inr_iff:
  "registry_register compile spec reg = Inr reg' \<longleftrightarrow>
     ts_name spec \<notin> set (map fst (reg_tools reg)) \<and> portable_schema True (ts_input_schema spec) \<and>
     (\<exists>c. compile (ts_input_schema spec) = Inr c \<and>
        reg' = reg\<lparr>reg_tools := AList.update (ts_name spec) spec (reg_tools reg),
                   reg_validators := AList.update (ts_name spec) c (reg_validators reg)\<rparr>)"
proof -
  have "validate_tool_schema_portability (ts_name spec) (ts_input_schema spec) = None \<longleftrightarrow>
      portable_schema True (ts_input_schema spec)"
    unfolding validate_tool_schema_portability_def using portable_node_sound portable_node_complete by blast
  then show ?thesis
    by (auto simp: registry_register_def split: sum.splits option.splits)
qed

lemma registry_wf_register [inv_intros]:
  assumes "registry_wf reg" "spec_wf spec" "registry_register compile spec reg = Inr reg'"
  shows "registry_wf reg'"
proof -
  from assms(3) obtain c where fresh: "ts_name spec \<notin> set (map fst (reg_tools reg))"
    and port: "portable_schema True (ts_input_schema spec)"
    and reg': "reg' = reg\<lparr>reg_tools := AList.update (ts_name spec) spec (reg_tools reg),
                   reg_validators := AList.update (ts_name spec) c (reg_validators reg)\<rparr>"
    unfolding register_Inr_iff by blast
  from assms(1) have "ts_name spec \<notin> set (map fst (reg_validators reg))"
    using fresh by (simp add: registry_wf_def)
  then have "reg_tools reg' = reg_tools reg @ [(ts_name spec, spec)]"
    and "reg_validators reg' = reg_validators reg @ [(ts_name spec, c)]"
    using fresh by (simp_all add: reg' update_fresh)
  then show ?thesis using assms(1,2) fresh port by (auto simp: registry_wf_def)
qed

lemma registry_wf_tool:
  "registry_wf reg \<Longrightarrow> map_of (reg_tools reg) n = Some spec \<Longrightarrow> ts_name spec = n \<and> spec_wf spec"
  by (drule map_of_SomeD) (auto simp: registry_wf_def)

lemma registry_wf_validator:
  "registry_wf reg \<Longrightarrow>
     (map_of (reg_validators reg) n = None) = (map_of (reg_tools reg) n = None)"
  by (simp add: registry_wf_def map_of_eq_None_iff image_set del: set_map)

text \<open>What a dispatch can do: reject unknown names, reject bad parameters, or run the handler.\<close>

lemma dispatch_unknown:
  "map_of (reg_validators reg) (tc_name call) = None \<Longrightarrow>
     registry_dispatch reg call w = (Inl (Exn KeyError (py_repr (''tool is not registered: '' @ tc_name call))), w)"
  by (simp add: registry_dispatch_def registry_validate_def)

lemma dispatch_registered:
  assumes "registry_wf reg" "map_of (reg_tools reg) (tc_name call) = Some spec"
    and "map_of (reg_validators reg) (tc_name call) = Some check"
  shows "registry_dispatch reg call w =
    (case check (tc_params call) of
       Some (msg, path) \<Rightarrow>
         (tool_result_fail ''invalid_params''
            (msg @ '' at '' @ (if py_join ''/'' path = [] then ''<root>'' else py_join ''/'' path)) True None, w)
     | None \<Rightarrow> (case ts_handler spec (tc_params call) w of
         (Inr r, w') \<Rightarrow> (Inr r, w')
       | (Inl e, w') \<Rightarrow> (if is_Exception e then handler_crash_result e else Inl e, w')))"
  using assms(2,3)
  by (auto simp: registry_dispatch_def registry_validate_def Let_def split: option.splits sum.splits prod.splits)

lemma registry_names_lookup:
  "n \<in> set (registry_names reg) \<longleftrightarrow> (\<exists>spec. map_of (reg_tools reg) n = Some spec)"
  using map_of_eq_None_iff [of "reg_tools reg" n] by (auto simp: registry_names_def)

lemma registry_validate_cases:
  assumes "registry_wf reg" "tc_name call \<in> set (registry_names reg)"
  obtains (invalid) r where "registry_validate reg call = Inr (Some r)" "tool_result_wf r"
      "\<exists>e. tr_error r = Some e \<and> te_code e = ''invalid_params'' \<and> te_retryable e"
  | (valid) "registry_validate reg call = Inr None"
proof -
  from assms obtain check where check: "map_of (reg_validators reg) (tc_name call) = Some check"
    using registry_wf_validator [OF assms(1), of "tc_name call"] unfolding registry_names_lookup by auto
  show thesis
  proof (cases "check (tc_params call)")
    case None
    with check show thesis by (intro valid) (simp add: registry_validate_def)
  next
    case (Some mp)
    obtain msg path where mp: "mp = (msg, path)" by (cases mp)
    let ?m = "msg @ '' at '' @ (if py_join ''/'' path = [] then ''<root>'' else py_join ''/'' path)"
    obtain r where r: "tool_result_fail ''invalid_params'' ?m True None = Inr r"
      using tool_result_fail_total [of ?m] by auto
    with check Some mp have "registry_validate reg call = Inr (Some r)"
      by (simp add: registry_validate_def Let_def)
    with tool_result_fail_Inr [OF r] show thesis by (intro invalid) auto
  qed
qed

section \<open>Properties\<close>

text \<open>C25: \<open>validate_tool_schema_portability\<close> accepts a schema exactly when it lies in the
  portable profile: only profile keywords at every level, an object at the root, object-only
  \<open>properties\<close>/\<open>required\<close>/\<open>additionalProperties\<close>, array-only \<open>items\<close>, \<open>required\<close> naming
  declared properties without repetition, typed \<open>enum\<close>/\<open>default\<close> values and consistent
  bounds. The recursion over sub-schemas terminates on every input.\<close>

theorem portable_validation_exact:
  "validate_tool_schema_portability tool s = None \<longleftrightarrow> portable_schema True s"
  unfolding validate_tool_schema_portability_def
  using portable_node_sound portable_node_complete by blast


definition echo_spec :: "nat tool_spec" where
  "echo_spec =
     \<lparr>ts_name = ''echo'', ts_description = ''count the calls'',
      ts_input_schema = [(''type'', JStr ''object''),
        (''properties'', JObj [(''n'', JObj [(''type'', JStr ''integer''), (''minimum'', JInt 0)])]),
        (''required'', JList [JStr ''n''])],
      ts_permission = ''read'',
      ts_handler = (\<lambda>params w. (tool_result_ok ''called'' (Some (JInt (int w))) [], Suc w)),
      ts_tags = [], ts_output_schema = None, ts_defer_loading = False,
      ts_max_context_bytes = DEFAULT_TOOL_CONTEXT_BYTES, ts_elide = None\<rparr>"

definition echo_registry :: "nat tool_registry" where
  "echo_registry = \<lparr>reg_tools = [(''echo'', echo_spec)],
     reg_validators = [(''echo'', \<lambda>params. if map_of params ''n'' = None then Some (''missing n'', []) else None)]\<rparr>"

lemma echo_portable: "portable_schema True (ts_input_schema echo_spec)"
proof -
  have "validate_portable_schema_node ''echo'' (ts_input_schema echo_spec) [] True = None"
    by code_simp
  then show ?thesis by (rule portable_node_sound)
qed

lemma echo_registry_wf: "registry_wf echo_registry"
  using echo_portable
  by (auto simp: registry_wf_def echo_registry_def spec_wf_def echo_spec_def tool_result_ok_def
      dest!: post_init_wf)


end
