(* ===== verification/Hooks.thy ===== *)
theory Hooks
  imports Tool_Registry
begin

text \<open>
  The middleware chain of \<open>fa/inner_loop/hooks/base.py\<close>: lifecycle points, payloads,
  decisions, and the \<open>HookRegistry\<close> with \<open>register\<close>, \<open>dispatch\<close> and \<open>_record\<close>.

  All middleware objects of a session live in one world of type \<open>'s\<close>; a guard is a function
  of the lifecycle point, the payload and the world that returns a decision (or raises) and
  the new world. \<open>id(middleware)\<close> is the number \<open>mw_id\<close>. The event sink is given by its
  effect on the world: \<open>_record\<close> swallows whatever it raises.

  The contract a guard promises its registry is the locale \<open>guard_contract\<close>: it keeps its
  own invariant, does not raise, and answers allow or deny with a reason.
\<close>

section \<open>Payloads, decisions and records\<close>

datatype lifecycle_point =
    BETWEEN_ROUNDS | BEFORE_LLM_CALL | AFTER_LLM_CALL | BEFORE_TOOL_EXEC | AFTER_TOOL_EXEC

fun point_value :: "lifecycle_point \<Rightarrow> string" where
  "point_value BETWEEN_ROUNDS = ''BETWEEN_ROUNDS''"
| "point_value BEFORE_LLM_CALL = ''BEFORE_LLM_CALL''"
| "point_value AFTER_LLM_CALL = ''AFTER_LLM_CALL''"
| "point_value BEFORE_TOOL_EXEC = ''BEFORE_TOOL_EXEC''"
| "point_value AFTER_TOOL_EXEC = ''AFTER_TOOL_EXEC''"

record hook_payload =
  hp_tool_call :: "tool_call option"
  hp_tool_result :: "tool_result option"
  hp_role :: string
  hp_acting_family :: string
  hp_context :: json_obj

definition with_tool_call :: "hook_payload \<Rightarrow> tool_call option \<Rightarrow> hook_payload" where
  "with_tool_call p c =
     \<lparr>hp_tool_call = c, hp_tool_result = hp_tool_result p, hp_role = hp_role p,
      hp_acting_family = hp_acting_family p, hp_context = hp_context p\<rparr>"

definition with_tool_result :: "hook_payload \<Rightarrow> tool_result \<Rightarrow> hook_payload" where
  "with_tool_result p r =
     \<lparr>hp_tool_call = hp_tool_call p, hp_tool_result = Some r, hp_role = hp_role p,
      hp_acting_family = hp_acting_family p, hp_context = hp_context p\<rparr>"

record decision =
  dc_action :: string
  dc_reason :: string
  dc_payload :: "hook_payload option"

definition decision_allow :: decision where
  "decision_allow = \<lparr>dc_action = ''allow'', dc_reason = [], dc_payload = None\<rparr>"

definition decision_deny :: "string \<Rightarrow> decision py_result" where
  "decision_deny reason =
     (if reason = [] then Inl (Exn ValueError ''deny reason is required'')
      else Inr \<lparr>dc_action = ''deny'', dc_reason = reason, dc_payload = None\<rparr>)"

definition decision_modify :: "hook_payload \<Rightarrow> decision" where
  "decision_modify p = \<lparr>dc_action = ''modify'', dc_reason = [], dc_payload = Some p\<rparr>"

record dispatch_record =
  dr_middleware :: string
  dr_point :: lifecycle_point
  dr_decision :: string
  dr_reason :: string

section \<open>Middleware and the registry\<close>

type_synonym 's guard_handle = "lifecycle_point \<Rightarrow> hook_payload \<Rightarrow> 's \<Rightarrow> decision py_result \<times> 's"
type_synonym 's observe_handle = "lifecycle_point \<Rightarrow> hook_payload \<Rightarrow> 's \<Rightarrow> py_exc option \<times> 's"

text \<open>\<open>mw_guard\<close>/\<open>mw_observer\<close> are set exactly for instances of the two base classes.\<close>

record 's middleware =
  mw_id :: nat
  mw_class :: string
  mw_name :: string
  mw_attaches_to :: "lifecycle_point list"
  mw_uses_llm :: bool
  mw_attaches_to_role :: string
  mw_family :: string
  mw_revalidates :: bool
  mw_guard :: "'s guard_handle option"
  mw_observer :: "'s observe_handle option"

definition middleware_name :: "'s middleware \<Rightarrow> string" where
  "middleware_name m = (if mw_name m = [] then mw_class m else mw_name m)"

type_synonym 's hook_sink = "dispatch_record \<Rightarrow> hook_payload \<Rightarrow> 's \<Rightarrow> 's"

record 's hook_registry =
  hr_chains :: "lifecycle_point \<Rightarrow> 's middleware list"
  hr_trace :: "dispatch_record list"
  hr_registered :: "nat list"
  hr_sink :: "'s hook_sink option"

definition hooks_init :: "'s hook_sink option \<Rightarrow> 's hook_registry" where
  "hooks_init sink = \<lparr>hr_chains = (\<lambda>_. []), hr_trace = [], hr_registered = [], hr_sink = sink\<rparr>"

definition set_event_sink :: "'s hook_sink option \<Rightarrow> 's hook_registry \<Rightarrow> 's hook_registry" where
  "set_event_sink sink reg = reg\<lparr>hr_sink := sink\<rparr>"

definition validate_middleware :: "'s middleware \<Rightarrow> string \<Rightarrow> unit py_result" where
  "validate_middleware m acting_family =
     (if (mw_guard m \<noteq> None) = (mw_observer m \<noteq> None)
      then Inl (Exn TypeError ''middleware must subclass exactly one middleware base'')
      else if mw_attaches_to m = []
      then Inl (Exn ValueError ''middleware must attach to at least one lifecycle point'')
      else if mw_uses_llm m \<and> mw_family m = []
      then Inl (Exn ValueError ''LLM-using middleware must declare family'')
      else if mw_uses_llm m \<and> acting_family \<noteq> [] \<and> mw_family m = acting_family
      then Inl (Exn ValueError ''LLM-using middleware family must be disjoint'')
      else Inr ())"

definition hooks_register ::
  "'s middleware \<Rightarrow> string \<Rightarrow> 's hook_registry \<Rightarrow> 's hook_registry py_result" where
  "hooks_register m acting_family reg =
     (case validate_middleware m acting_family of
        Inl e \<Rightarrow> Inl e
      | Inr _ \<Rightarrow>
         (if mw_id m \<in> set (hr_registered reg) then Inr reg
          else Inr (reg\<lparr>hr_registered := mw_id m # hr_registered reg,
                        hr_chains := fold (\<lambda>pt ch. ch(pt := ch pt @ [m])) (mw_attaches_to m)
                                       (hr_chains reg)\<rparr>)))"

text \<open>\<open>_record\<close> on the pair of trace and world.\<close>

definition hook_record ::
  "'s hook_sink option \<Rightarrow> dispatch_record \<Rightarrow> hook_payload \<Rightarrow> dispatch_record list \<times> 's
     \<Rightarrow> dispatch_record list \<times> 's" where
  "hook_record sink r p st =
     (fst st @ [r], (case sink of None \<Rightarrow> snd st | Some f \<Rightarrow> f r p (snd st)))"

text \<open>The replay of the already-run guards that revalidate after a mutation.\<close>

fun replay_guards ::
  "'s hook_sink option \<Rightarrow> lifecycle_point \<Rightarrow> hook_payload \<Rightarrow> 's middleware list
     \<Rightarrow> dispatch_record list \<times> 's \<Rightarrow> py_exc option \<times> dispatch_record list \<times> 's" where
  "replay_guards sink point current [] st = (None, st)"
| "replay_guards sink point current (m # ms) st =
     (case mw_guard m of
        None \<Rightarrow> replay_guards sink point current ms st
      | Some h \<Rightarrow>
         (if \<not> mw_revalidates m then replay_guards sink point current ms st
          else case h point current (snd st) of
                 (Inl e, s) \<Rightarrow> (Some e, fst st, s)
               | (Inr d, s) \<Rightarrow>
                  (let st' = hook_record sink
                       \<lparr>dr_middleware = middleware_name m @ ''@replay'', dr_point = point,
                        dr_decision = dc_action d, dr_reason = dc_reason d\<rparr> current (fst st, s)
                   in if dc_action d = ''deny'' then (Some (Exn PermissionError (dc_reason d)), st')
                      else if dc_action d = ''modify''
                      then (Some (Exn RuntimeError ''hook_double_mutation''), st')
                      else replay_guards sink point current ms st')))"

text \<open>
  The dispatch loop: \<open>past\<close> is \<open>chain[:run_index]\<close> and the recursion runs over
  \<open>chain[run_index:]\<close>.
\<close>

fun dispatch_loop ::
  "'s hook_sink option \<Rightarrow> lifecycle_point \<Rightarrow> 's middleware list \<Rightarrow> 's middleware list \<Rightarrow> bool
     \<Rightarrow> hook_payload \<Rightarrow> dispatch_record list \<times> 's
     \<Rightarrow> hook_payload py_result \<times> dispatch_record list \<times> 's" where
  "dispatch_loop sink point past [] mutated current st = (Inr current, st)"
| "dispatch_loop sink point past (m # todo) mutated current st =
     (case mw_guard m of
        Some h \<Rightarrow>
         (case h point current (snd st) of
            (Inl e, s) \<Rightarrow> (Inl e, fst st, s)
          | (Inr d, s) \<Rightarrow>
             (let st' = hook_record sink
                  \<lparr>dr_middleware = middleware_name m, dr_point = point,
                   dr_decision = dc_action d, dr_reason = dc_reason d\<rparr> current (fst st, s)
              in if dc_action d = ''allow''
                 then dispatch_loop sink point (past @ [m]) todo mutated current st'
                 else if dc_action d = ''deny'' then (Inl (Exn PermissionError (dc_reason d)), st')
                 else if dc_action d = ''modify''
                 then (if mutated then (Inl (Exn RuntimeError ''hook_double_mutation''), st')
                       else case dc_payload d of
                              None \<Rightarrow> (Inl (Exn RuntimeError ''hook_modify_without_payload''), st')
                            | Some p \<Rightarrow>
                               (case replay_guards sink point p past st' of
                                  (Some e, st'') \<Rightarrow> (Inl e, st'')
                                | (None, st'') \<Rightarrow> dispatch_loop sink point (past @ [m]) todo True p st''))
                 else (Inl (Exn RuntimeError (''unknown hook decision: '' @ dc_action d)), st')))
      | None \<Rightarrow>
         (case mw_observer m of
            Some ob \<Rightarrow>
             (case ob point current (snd st) of
                (None, s) \<Rightarrow>
                  dispatch_loop sink point (past @ [m]) todo mutated current
                    (hook_record sink \<lparr>dr_middleware = middleware_name m, dr_point = point,
                       dr_decision = ''observed'', dr_reason = []\<rparr> current (fst st, s))
              | (Some e, s) \<Rightarrow>
                  (if is_Exception e
                   then dispatch_loop sink point (past @ [m]) todo mutated current
                     (hook_record sink \<lparr>dr_middleware = middleware_name m, dr_point = point,
                        dr_decision = ''observer_error_swallowed'', dr_reason = exn_msg e\<rparr> current (fst st, s))
                   else (Inl e, fst st, s)))
          | None \<Rightarrow> (Inl (Exn TypeError (''unsupported middleware type: '' @ mw_class m)), st)))"

definition hooks_dispatch ::
  "lifecycle_point \<Rightarrow> hook_payload \<Rightarrow> 's hook_registry \<Rightarrow> 's
     \<Rightarrow> hook_payload py_result \<times> 's hook_registry \<times> 's" where
  "hooks_dispatch point payload reg s =
     (case dispatch_loop (hr_sink reg) point [] (hr_chains reg point) False payload (hr_trace reg, s) of
        (res, tr, s') \<Rightarrow> (res, reg\<lparr>hr_trace := tr\<rparr>, s'))"

section \<open>The chain and its trace\<close>

lemma hook_record_simps [simp]:
  "fst (hook_record sink r p st) = fst st @ [r]"
  "snd (hook_record sink r p st) = (case sink of None \<Rightarrow> snd st | Some f \<Rightarrow> f r p (snd st))"
  by (simp_all add: hook_record_def)

abbreviation denies :: "dispatch_record list \<Rightarrow> nat" where
  "denies recs \<equiv> length (filter (\<lambda>r. dr_decision r = ''deny'') recs)"

abbreviation modifies :: "dispatch_record list \<Rightarrow> nat" where
  "modifies recs \<equiv> length (filter (\<lambda>r. dr_decision r = ''modify'') recs)"

text \<open>
  A run of new records: on success no deny and at most one mutation; a raised
  \<open>PermissionError\<close> is either one a middleware raised itself or the deny that the very
  last record shows.
\<close>

definition recs_ok :: "py_exc option \<Rightarrow> nat \<Rightarrow> dispatch_record list \<Rightarrow> bool" where
  "recs_ok err muts recs \<longleftrightarrow>
     (case err of
        None \<Rightarrow> denies recs = 0 \<and> modifies recs \<le> muts
      | Some e \<Rightarrow> denies recs = 0 \<or>
          (\<exists>init r. recs = init @ [r] \<and> dr_decision r = ''deny'' \<and> denies init = 0 \<and>
             e = Exn PermissionError (dr_reason r)))"

lemma recs_ok_Cons:
  "dr_decision r \<noteq> ''deny'' \<Longrightarrow> recs_ok err (if dr_decision r = ''modify'' then muts - 1 else muts) recs \<Longrightarrow>
     (dr_decision r = ''modify'' \<Longrightarrow> 0 < muts) \<Longrightarrow> recs_ok err muts (r # recs)"
  by (auto simp: recs_ok_def split: option.splits if_splits)

lemma recs_ok_append:
  "denies a = 0 \<Longrightarrow> modifies a = 0 \<Longrightarrow> recs_ok err muts b \<Longrightarrow> recs_ok err muts (a @ b)"
  by (induction a) (auto intro!: recs_ok_Cons split: if_splits)

lemma recs_ok_deny:
  "dr_decision r = ''deny'' \<Longrightarrow> recs_ok (Some (Exn PermissionError (dr_reason r))) muts [r]"
  by (auto simp: recs_ok_def)

lemma recs_ok_no_deny: "denies recs = 0 \<Longrightarrow> recs_ok (Some e) muts recs"
  by (simp add: recs_ok_def)

lemma replay_recs:
  "replay_guards sink point p ms st = (err, st') \<Longrightarrow>
     \<exists>recs. fst st' = fst st @ recs \<and> recs_ok err 0 recs"
proof (induction ms arbitrary: st)
  case Nil
  then show ?case by (auto simp: recs_ok_def)
next
  case (Cons m ms)
  show ?case
  proof (cases "\<exists>h. mw_guard m = Some h \<and> mw_revalidates m")
    case False
    with Cons show ?thesis by (auto split: option.splits if_splits)
  next
    case True
    then obtain h where h: "mw_guard m = Some h" "mw_revalidates m" by blast
    obtain res s where run: "h point p (snd st) = (res, s)" by fastforce
    show ?thesis
    proof (cases res)
      case (Inl e)
      with Cons.prems h run show ?thesis
        by (intro exI [of _ "[]"]) (auto simp: recs_ok_def)
    next
      case (Inr d)
      let ?r = "\<lparr>dr_middleware = middleware_name m @ ''@replay'', dr_point = point,
                 dr_decision = dc_action d, dr_reason = dc_reason d\<rparr>"
      let ?st = "hook_record sink ?r p (fst st, s)"
      consider (deny) "dc_action d = ''deny''" | (modify) "dc_action d = ''modify''"
        | (go) "dc_action d \<noteq> ''deny''" "dc_action d \<noteq> ''modify''" by blast
      then show ?thesis
      proof cases
        case deny
        with Cons.prems h run Inr have "err = Some (Exn PermissionError (dr_reason ?r))" "st' = ?st"
          by auto
        with deny recs_ok_deny [of ?r 0] show ?thesis by auto
      next
        case modify
        with Cons.prems h run Inr show ?thesis
          by (intro exI [of _ "[?r]"]) (auto simp: recs_ok_def)
      next
        case go
        with Cons.prems h run Inr have "replay_guards sink point p ms ?st = (err, st')"
          by (simp add: Let_def)
        from Cons.IH [OF this] obtain recs where "fst st' = fst ?st @ recs" "recs_ok err 0 recs"
          by blast
        with go show ?thesis by (intro exI [of _ "?r # recs"]) (auto intro!: recs_ok_Cons)
      qed
    qed
  qed
qed

abbreviation res_err :: "'a py_result \<Rightarrow> py_exc option" where
  "res_err res \<equiv> (case res of Inl e \<Rightarrow> Some e | Inr _ \<Rightarrow> None)"

text \<open>What the loop adds to the trace, and that the payload only changes by a recorded mutation.\<close>

definition loop_ok :: "bool \<Rightarrow> hook_payload \<Rightarrow> hook_payload py_result \<Rightarrow> dispatch_record list \<Rightarrow> bool" where
  "loop_ok mutated current res recs \<longleftrightarrow>
     recs_ok (res_err res) (if mutated then 0 else 1) recs \<and>
     (\<forall>p'. res = Inr p' \<longrightarrow> modifies recs = 0 \<longrightarrow> p' = current)"

lemma loop_ok_Cons:
  "dr_decision r \<noteq> ''deny'' \<Longrightarrow> dr_decision r \<noteq> ''modify'' \<Longrightarrow> loop_ok mutated p res recs \<Longrightarrow>
     loop_ok mutated p res (r # recs)"
  by (auto simp: loop_ok_def intro!: recs_ok_Cons)

lemma loop_ok_raise: "denies recs = 0 \<Longrightarrow> loop_ok mutated p (Inl e) recs"
  by (simp add: loop_ok_def recs_ok_no_deny)

lemma loop_ok_modify:
  assumes "dr_decision r = ''modify''" "recs_ok None 0 a" "loop_ok True p' res b"
  shows "loop_ok False p res (r # a @ b)"
  using assms by (auto simp: loop_ok_def intro!: recs_ok_Cons recs_ok_append) (auto simp: recs_ok_def)

lemma loop_recs:
  "dispatch_loop sink point past todo mutated current st = (res, st') \<Longrightarrow>
     \<exists>recs. fst st' = fst st @ recs \<and> loop_ok mutated current res recs"
proof (induction todo arbitrary: past mutated current st)
  case Nil
  then show ?case by (auto simp: loop_ok_def recs_ok_def)
next
  case (Cons m todo)
  have step: ?case
    if "dispatch_loop sink point (past @ [m]) todo mutated current (hook_record sink r p (fst st, s)) = (res, st')"
      "dr_decision r \<noteq> ''deny''" "dr_decision r \<noteq> ''modify''" for r p s
  proof -
    from Cons.IH [OF that(1)] obtain recs where "fst st' = fst st @ [r] @ recs" "loop_ok mutated current res recs"
      by auto
    with that(2,3) show ?thesis by (intro exI [of _ "r # recs"]) (auto intro: loop_ok_Cons)
  qed
  show ?case
  proof (cases "mw_guard m")
    case None
    show ?thesis
    proof (cases "mw_observer m")
      case (Some ob)
      obtain x s where run: "ob point current (snd st) = (x, s)" by fastforce
      show ?thesis
      proof (cases "x = None \<or> is_Exception (the x)")
        case True
        with Cons.prems None Some run show ?thesis
          by (auto split: option.splits intro!: step)
      next
        case False
        with Cons.prems None Some run show ?thesis
          by (intro exI [of _ "[]"]) (auto split: option.splits intro!: loop_ok_raise)
      qed
    next
      case none: None
      with Cons.prems None show ?thesis by (intro exI [of _ "[]"]) (auto intro!: loop_ok_raise)
    qed
  next
    case (Some h)
    obtain x s where run: "h point current (snd st) = (x, s)" by fastforce
    show ?thesis
    proof (cases x)
      case (Inl e)
      with Cons.prems Some run show ?thesis by (intro exI [of _ "[]"]) (auto intro!: loop_ok_raise)
    next
      case (Inr d)
      let ?r = "\<lparr>dr_middleware = middleware_name m, dr_point = point,
                 dr_decision = dc_action d, dr_reason = dc_reason d\<rparr>"
      let ?st = "hook_record sink ?r current (fst st, s)"
      note eqs = Cons.prems Some run Inr
      consider (allow) "dc_action d = ''allow''" | (deny) "dc_action d = ''deny''"
        | (replayed) p where "dc_action d = ''modify''" "\<not> mutated" "dc_payload d = Some p"
        | (bad) e where "dc_action d \<noteq> ''deny''" "(res, st') = (Inl e, ?st)"
        using eqs by (auto simp: Let_def split: if_splits option.splits)
      then show ?thesis
      proof cases
        case allow
        with eqs show ?thesis by (intro step) (auto simp: Let_def)
      next
        case deny
        with eqs have "res = Inl (Exn PermissionError (dr_reason ?r))" "st' = ?st" by auto
        with deny recs_ok_deny [of ?r] show ?thesis by (auto simp: loop_ok_def)
      next
        case (replayed p)
        obtain err st2 where rep: "replay_guards sink point p past ?st = (err, st2)" by (metis surj_pair)
        from replay_recs [OF rep] obtain a where a: "fst st2 = fst st @ ?r # a" "recs_ok err 0 a" by auto
        show ?thesis
        proof (cases err)
          case None
          with eqs replayed rep
          have "dispatch_loop sink point (past @ [m]) todo True p st2 = (res, st')" by (simp add: Let_def)
          from Cons.IH [OF this] obtain b where b: "fst st' = fst st2 @ b" "loop_ok True p res b" by blast
          from None replayed a b show ?thesis
            by (intro exI [of _ "?r # a @ b"]) (auto intro: loop_ok_modify)
        next
          case (Some e)
          with eqs replayed rep have "res = Inl e" "st' = st2" by (auto simp: Let_def)
          with Some a replayed show ?thesis
            by (intro exI [of _ "?r # a"]) (auto simp: loop_ok_def intro!: recs_ok_Cons)
        qed
      next
        case (bad e)
        then show ?thesis by (intro exI [of _ "[?r]"]) (auto intro!: loop_ok_raise)
      qed
    qed
  qed
qed

section \<open>Revalidation after a mutation\<close>

text \<open>
  A guard whose answer at \<open>point\<close> is a function \<open>f\<close> of the payload alone and that never
  asks for a mutation, as the sandbox does.
\<close>

definition payload_guard ::
  "lifecycle_point \<Rightarrow> 's middleware \<Rightarrow> (hook_payload \<Rightarrow> decision py_result) \<Rightarrow> bool" where
  "payload_guard point m f \<longleftrightarrow>
     (\<exists>h. mw_guard m = Some h \<and> (\<forall>p s. fst (h point p s) = f p)) \<and>
     (\<forall>p d. f p = Inr d \<longrightarrow> dc_action d = ''allow'' \<or> dc_action d = ''deny'')"

definition guard_allows :: "(hook_payload \<Rightarrow> decision py_result) \<Rightarrow> hook_payload \<Rightarrow> bool" where
  "guard_allows f p \<longleftrightarrow> (\<exists>d. f p = Inr d \<and> dc_action d = ''allow'')"

lemma payload_guard_run:
  "payload_guard point m f \<Longrightarrow> mw_guard m = Some h \<Longrightarrow> h point p s = (res, s') \<Longrightarrow> res = f p"
  unfolding payload_guard_def by (metis fst_conv option.inject)

lemma replay_validates:
  assumes "payload_guard point m f" "mw_revalidates m"
  shows "replay_guards sink point p ms st = (None, st') \<Longrightarrow> m \<in> set ms \<Longrightarrow> guard_allows f p"
proof (induction ms arbitrary: st)
  case Nil
  then show ?case by simp
next
  case (Cons x ms)
  show ?case
  proof (cases "x = m")
    case True
    obtain h where h: "mw_guard m = Some h" using assms(1) by (auto simp: payload_guard_def)
    obtain res s where run: "h point p (snd st) = (res, s)" by fastforce
    with payload_guard_run [OF assms(1) h] have f: "f p = res" by blast
    show ?thesis
    proof (cases res)
      case (Inl e)
      with Cons.prems True h run assms(2) show ?thesis by simp
    next
      case (Inr d)
      with f assms(1) have "dc_action d = ''allow'' \<or> dc_action d = ''deny''" by (auto simp: payload_guard_def)
      with Inr f Cons.prems True h run assms(2) show ?thesis by (auto simp: guard_allows_def Let_def)
    qed
  next
    case False
    with Cons show ?thesis by (auto simp: Let_def split: option.splits if_splits prod.splits sum.splits)
  qed
qed

lemma loop_validates:
  assumes "payload_guard point m f" "mw_revalidates m"
  shows "dispatch_loop sink point past todo mutated current st = (Inr p', st') \<Longrightarrow>
     m \<in> set past \<or> m \<in> set todo \<Longrightarrow> (m \<in> set past \<Longrightarrow> guard_allows f current) \<Longrightarrow>
     guard_allows f p'"
proof (induction todo arbitrary: past mutated current st)
  case Nil
  then show ?case by simp
next
  case (Cons x todo)
  obtain hm where hm: "mw_guard m = Some hm" using assms(1) by (auto simp: payload_guard_def)
  show ?case
  proof (cases "mw_guard x")
    case None
    with hm have "x \<noteq> m" by auto
    with Cons.prems None show ?thesis
      by (auto split: option.splits prod.splits if_splits intro: Cons.IH)
  next
    case (Some h)
    obtain res s where run: "h point current (snd st) = (res, s)" by fastforce
    show ?thesis
    proof (cases res)
      case (Inl e)
      with Cons.prems Some run show ?thesis by simp
    next
      case (Inr d)
      have self: "f current = Inr d" if "x = m"
        using payload_guard_run [OF assms(1), of h current "snd st" res s] that Some run Inr by auto
      consider (allow) "dc_action d = ''allow''"
        | (modify) p st2 st3 where "dc_action d = ''modify''" "replay_guards sink point p past st2 = (None, st3)"
            "dispatch_loop sink point (past @ [x]) todo True p st3 = (Inr p', st')"
        using Cons.prems(1) Some run Inr
        by (auto simp: Let_def split: if_splits option.splits prod.splits)
      then show ?thesis
      proof cases
        case allow
        with Cons.prems Some run Inr self show ?thesis
          by (intro Cons.IH [of "past @ [x]" mutated current]) (auto simp: Let_def guard_allows_def)
      next
        case (modify p st2 st3)
        have "dc_action d = ''allow'' \<or> dc_action d = ''deny''" if "x = m"
          using self [OF that] assms(1) unfolding payload_guard_def by blast
        with modify(1) have "x \<noteq> m" by auto
        with Cons.prems(2) replay_validates [OF assms modify(2)] show ?thesis
          by (intro Cons.IH [OF modify(3)]) auto
      qed
    qed
  qed
qed

section \<open>The guard contract\<close>

definition mw_ok :: "('s \<Rightarrow> bool) \<Rightarrow> 's middleware \<Rightarrow> bool" where
  "mw_ok I m \<longleftrightarrow>
     (case mw_guard m of
        Some h \<Rightarrow> (\<forall>pt p s d s'. I s \<longrightarrow> h pt p s = (d, s') \<longrightarrow>
           I s' \<and> (d = Inr decision_allow \<or> (\<exists>reason. reason \<noteq> [] \<and> d = decision_deny reason)))
      | None \<Rightarrow>
         (case mw_observer m of
            Some ob \<Rightarrow> (\<forall>pt p s x s'. I s \<longrightarrow> ob pt p s = (x, s') \<longrightarrow>
               I s' \<and> (\<forall>e. x = Some e \<longrightarrow> is_Exception e))
          | None \<Rightarrow> False))"

definition sink_ok :: "('s \<Rightarrow> bool) \<Rightarrow> 's hook_sink option \<Rightarrow> bool" where
  "sink_ok I sink \<longleftrightarrow> (\<forall>f r p s. sink = Some f \<longrightarrow> I s \<longrightarrow> I (f r p s))"

lemma sink_ok_record:
  "sink_ok I sink \<Longrightarrow> I s \<Longrightarrow> I (snd (hook_record sink r p (tr, s)))"
  by (auto simp: sink_ok_def split: option.splits)

lemma loop_mw_ok:
  assumes "sink_ok I sink"
  shows "\<forall>m \<in> set todo. mw_ok I m \<Longrightarrow> I (snd st) \<Longrightarrow>
     dispatch_loop sink point past todo mutated current st = (res, st') \<Longrightarrow>
     I (snd st') \<and> (res = Inr current \<or> (\<exists>reason. reason \<noteq> [] \<and> res = Inl (Exn PermissionError reason)))"
proof (induction todo arbitrary: past st)
  case Nil
  then show ?case by auto
next
  case (Cons m todo)
  have IH: ?case
    if "dispatch_loop sink point (past @ [m]) todo mutated current (hook_record sink r p (fst st, s)) = (res, st')"
      "I s" for r p s
    using Cons.IH [OF _ _ that(1)] Cons.prems(1) sink_ok_record [OF assms that(2)] by simp
  have m: "mw_ok I m" using Cons.prems(1) by simp
  show ?case
  proof (cases "mw_guard m")
    case None
    with m obtain ob where ob: "mw_observer m = Some ob" by (auto simp: mw_ok_def split: option.splits)
    obtain x s where run: "ob point current (snd st) = (x, s)" by fastforce
    with m None ob Cons.prems(2) have "I s" "\<forall>e. x = Some e \<longrightarrow> is_Exception e"
      by (auto simp: mw_ok_def)
    with Cons.prems(3) None ob run show ?thesis by (auto split: option.splits intro!: IH)
  next
    case (Some h)
    obtain x s where run: "h point current (snd st) = (x, s)" by fastforce
    with m Some Cons.prems(2)
    have s: "I s" and x: "x = Inr decision_allow \<or> (\<exists>reason. reason \<noteq> [] \<and> x = decision_deny reason)"
      by (auto simp: mw_ok_def)
    from x show ?thesis
    proof
      assume "x = Inr decision_allow"
      with Cons.prems(3) Some run s show ?thesis
        by (intro IH) (auto simp: decision_allow_def Let_def)
    next
      assume "\<exists>reason. reason \<noteq> [] \<and> x = decision_deny reason"
      with Cons.prems(3) Some run sink_ok_record [OF assms s] show ?thesis
        by (auto simp: decision_deny_def Let_def simp del: hook_record_simps)
    qed
  qed
qed

text \<open>A middleware object with state \<open>'g\<close> inside a world \<open>'s\<close>.\<close>

definition lift_guard :: "('s \<Rightarrow> 'g) \<Rightarrow> ('g \<Rightarrow> 's \<Rightarrow> 's) \<Rightarrow> 'g guard_handle \<Rightarrow> 's guard_handle" where
  "lift_guard get put h pt p s = (case h pt p (get s) of (d, g) \<Rightarrow> (d, put g s))"

text \<open>A guard driven through a sequence of dispatches: the decisions and the final state.\<close>

fun guard_run :: "'g guard_handle \<Rightarrow> (lifecycle_point \<times> hook_payload) list \<Rightarrow> 'g
    \<Rightarrow> decision py_result list \<times> 'g" where
  "guard_run h [] g = ([], g)"
| "guard_run h ((pt, p) # evs) g =
     (case h pt p g of (d, g1) \<Rightarrow> (case guard_run h evs g1 of (ds, g2) \<Rightarrow> (d # ds, g2)))"

locale guard_contract =
  fixes handle :: "'g guard_handle"
    and inv :: "'g \<Rightarrow> bool"
  assumes handle_inv: "inv g \<Longrightarrow> handle pt p g = (d, g') \<Longrightarrow> inv g'"
    and handle_answer: "inv g \<Longrightarrow> handle pt p g = (d, g') \<Longrightarrow>
      d = Inr decision_allow \<or> (\<exists>reason. reason \<noteq> [] \<and> d = decision_deny reason)"
begin

lemma run_contract:
  "inv g \<Longrightarrow> guard_run handle evs g = (ds, g') \<Longrightarrow>
     inv g' \<and> length ds = length evs \<and>
     (\<forall>d \<in> set ds. d = Inr decision_allow \<or> (\<exists>reason. reason \<noteq> [] \<and> d = decision_deny reason))"
proof (induction evs arbitrary: g ds g')
  case Nil
  then show ?case by auto
next
  case (Cons ev evs)
  obtain pt p where ev: "ev = (pt, p)" by (cases ev)
  obtain d g1 where h: "handle pt p g = (d, g1)" by fastforce
  obtain ds' g2 where r: "guard_run handle evs g1 = (ds', g2)" by fastforce
  from Cons.prems ev h r have "ds = d # ds'" "g' = g2" by auto
  with Cons.IH [OF handle_inv [OF Cons.prems(1) h] r] handle_answer [OF Cons.prems(1) h]
  show ?case by auto
qed

lemma lifted_mw_ok:
  assumes "mw_guard m = Some (lift_guard get put handle)"
    and "\<And>s. I s \<Longrightarrow> inv (get s)" and "\<And>g s. inv g \<Longrightarrow> I s \<Longrightarrow> I (put g s)"
  shows "mw_ok I m"
proof -
  have "I s' \<and> (d = Inr decision_allow \<or> (\<exists>reason. reason \<noteq> [] \<and> d = decision_deny reason))"
    if I: "I s" and run: "lift_guard get put handle pt p s = (d, s')" for pt p s d s'
  proof -
    obtain g where g: "handle pt p (get s) = (d, g)" "s' = put g s"
      using run by (auto simp: lift_guard_def split: prod.splits)
    from assms(2) I g(1) have "inv g" using handle_inv by blast
    with assms I g handle_answer show ?thesis by blast
  qed
  then show ?thesis using assms(1) by (auto simp: mw_ok_def)
qed

end

text \<open>Guards without state of their own satisfy the contract when they answer allow or deny.\<close>

locale pure_guard =
  fixes decide :: "lifecycle_point \<Rightarrow> hook_payload \<Rightarrow> decision py_result"
  assumes decide_answer: "decide pt p = Inr decision_allow \<or>
    (\<exists>reason. reason \<noteq> [] \<and> decide pt p = decision_deny reason)"

sublocale pure_guard \<subseteq> pg: guard_contract "\<lambda>pt p g. (decide pt p, g :: unit)" "\<lambda>_. True"
  by unfold_locales (use decide_answer in auto)

section \<open>Properties\<close>

text \<open>A sandbox-like guard and a guard that rewrites the call, for the witnesses.\<close>

definition demo_payload :: "string \<Rightarrow> hook_payload" where
  "demo_payload role = \<lparr>hp_tool_call = None, hp_tool_result = None, hp_role = role,
     hp_acting_family = [], hp_context = []\<rparr>"

definition demo_check :: "hook_payload \<Rightarrow> decision" where
  "demo_check p = (if hp_role p = ''root'' then \<lparr>dc_action = ''deny'', dc_reason = ''no'', dc_payload = None\<rparr>
                   else decision_allow)"

definition demo_sandbox :: "unit middleware" where
  "demo_sandbox = \<lparr>mw_id = 1, mw_class = ''Sandbox'', mw_name = [], mw_attaches_to = [BEFORE_TOOL_EXEC],
     mw_uses_llm = False, mw_attaches_to_role = [], mw_family = [], mw_revalidates = True,
     mw_guard = Some (\<lambda>pt p s. (Inr (demo_check p), s)), mw_observer = None\<rparr>"

definition demo_rewriter :: "unit middleware" where
  "demo_rewriter = \<lparr>mw_id = 2, mw_class = ''Rewriter'', mw_name = [], mw_attaches_to = [BEFORE_TOOL_EXEC],
     mw_uses_llm = False, mw_attaches_to_role = [], mw_family = [], mw_revalidates = False,
     mw_guard = Some (\<lambda>pt p s. (Inr (decision_modify (p\<lparr>hp_role := ''planner''\<rparr>)), s)), mw_observer = None\<rparr>"

definition demo_hooks :: "unit hook_registry" where
  "demo_hooks = \<lparr>hr_chains = (\<lambda>pt. if pt = BEFORE_TOOL_EXEC then [demo_sandbox, demo_rewriter] else []),
     hr_trace = [], hr_registered = [2, 1], hr_sink = None\<rparr>"

lemmas demo_defs = demo_payload_def demo_check_def demo_sandbox_def demo_rewriter_def demo_hooks_def
  decision_allow_def decision_modify_def

lemma demo_hooks_run:
  "\<exists>reg'. hooks_dispatch BEFORE_TOOL_EXEC (demo_payload ''coder'') demo_hooks () =
     (Inr (demo_payload ''planner''), reg', ())"
  by (simp add: hooks_dispatch_def demo_defs hook_record_def Let_def)

lemma hooks_dispatch_loop:
  assumes "hooks_dispatch point payload reg s = (res, reg', s')"
  obtains tr where "dispatch_loop (hr_sink reg) point [] (hr_chains reg point) False payload (hr_trace reg, s)
      = (res, tr, s')" "reg' = reg\<lparr>hr_trace := tr\<rparr>"
  using assms by (auto simp: hooks_dispatch_def split: prod.splits)

text \<open>C17: One dispatch appends its steps to the trace and changes nothing else of the registry. When it
  returns a payload, no step was a deny, at most one was a mutation, and without a mutation
  the payload is the one passed in; when it raises, a recorded deny is the very last step and
  is what is raised, as a \<open>PermissionError\<close> with the recorded reason (first-deny short-circuit).\<close>

theorem hooks_dispatch_trace:
  assumes "hooks_dispatch point payload reg s = (res, reg', s')"
  shows "\<exists>recs. reg' = reg\<lparr>hr_trace := hr_trace reg @ recs\<rparr> \<and>
     (\<forall>p'. res = Inr p' \<longrightarrow>
        (\<forall>r \<in> set recs. dr_decision r \<noteq> ''deny'') \<and>
        length (filter (\<lambda>r. dr_decision r = ''modify'') recs) \<le> 1 \<and>
        ((\<forall>r \<in> set recs. dr_decision r \<noteq> ''modify'') \<longrightarrow> p' = payload)) \<and>
     (\<forall>e. res = Inl e \<longrightarrow> (\<exists>r \<in> set recs. dr_decision r = ''deny'') \<longrightarrow>
        (\<exists>init r. recs = init @ [r] \<and> dr_decision r = ''deny'' \<and>
           (\<forall>q \<in> set init. dr_decision q \<noteq> ''deny'') \<and> e = Exn PermissionError (dr_reason r)))"
proof -
  obtain tr where loop: "dispatch_loop (hr_sink reg) point [] (hr_chains reg point) False payload (hr_trace reg, s)
      = (res, tr, s')" and st': "reg' = reg\<lparr>hr_trace := tr\<rparr>"
    using assms by (rule hooks_dispatch_loop)
  from loop_recs [OF loop] obtain recs where "tr = hr_trace reg @ recs" "loop_ok False payload res recs"
    by auto
  with st' show ?thesis
    by (intro exI [of _ recs]) (auto simp: loop_ok_def recs_ok_def filter_empty_conv)
qed

theorem hooks_dispatch_trace_witness:
  "\<exists>reg' recs. hooks_dispatch BEFORE_TOOL_EXEC (demo_payload ''coder'') demo_hooks () =
     (Inr (demo_payload ''planner''), reg', ()) \<and> hr_trace reg' = recs \<and>
     length (filter (\<lambda>r. dr_decision r = ''modify'') recs) \<le> 1"
proof -
  obtain reg' where run: "hooks_dispatch BEFORE_TOOL_EXEC (demo_payload ''coder'') demo_hooks () =
     (Inr (demo_payload ''planner''), reg', ())" using demo_hooks_run by blast
  from hooks_dispatch_trace [OF run] run show ?thesis by (auto simp: demo_hooks_def)
qed

lemma dispatch_validates:
  assumes "hooks_dispatch point payload reg s = (Inr p', reg', s')"
    and "m \<in> set (hr_chains reg point)" and "mw_revalidates m"
    and "mw_guard m = Some h" and "\<forall>p s. fst (h point p s) = f p"
    and "\<forall>p d. f p = Inr d \<longrightarrow> dc_action d = ''allow'' \<or> dc_action d = ''deny''"
  shows "guard_allows f p'"
proof -
  from assms(4-6) have "payload_guard point m f" by (simp add: payload_guard_def)
  from hooks_dispatch_loop [OF assms(1)] loop_validates [OF this assms(3)] assms(2)
  show ?thesis by (metis empty_iff list.set(1))
qed

text \<open>C6: A guard that decides by the payload (or raises) and asks for revalidation, as the sandbox does, cannot be
  bypassed by a later mutation: whatever guards and observers share its chain, a payload that a
  dispatch returns is one it allows.\<close>

theorem hooks_revalidation:
  assumes "hooks_dispatch point payload reg s = (Inr p', reg', s')"
    and "m \<in> set (hr_chains reg point)" and "mw_revalidates m"
    and "mw_guard m = Some h" and "\<forall>p s. fst (h point p s) = f p"
    and "\<forall>p d. f p = Inr d \<longrightarrow> dc_action d = ''allow'' \<or> dc_action d = ''deny''"
  shows "\<exists>d. f p' = Inr d \<and> dc_action d = ''allow''"
proof -
  show ?thesis unfolding guard_allows_def [symmetric] using assms by (intro dispatch_validates)
qed

theorem hooks_revalidation_witness:
  "\<exists>reg'. hooks_dispatch BEFORE_TOOL_EXEC (demo_payload ''coder'') demo_hooks () =
     (Inr (demo_payload ''planner''), reg', ()) \<and> dc_action (demo_check (demo_payload ''planner'')) = ''allow''"
proof -
  obtain reg' where run: "hooks_dispatch BEFORE_TOOL_EXEC (demo_payload ''coder'') demo_hooks () =
     (Inr (demo_payload ''planner''), reg', ())" using demo_hooks_run by blast
  have "dc_action (demo_check (demo_payload ''planner'')) = ''allow''"
    using hooks_revalidation [OF run, where m = demo_sandbox and h = "\<lambda>pt p s. (Inr (demo_check p), s)" and f = "\<lambda>p. Inr (demo_check p)"]
    by (simp add: demo_hooks_def demo_sandbox_def demo_check_def decision_allow_def)
  with run show ?thesis by blast
qed

lemma register_chains:
  "fold (\<lambda>pt ch. ch(pt := ch pt @ [m])) pts ch pt = ch pt @ replicate (count_list pts pt) m"
  by (induction pts arbitrary: ch) (auto simp: replicate_append_same simp flip: replicate_Suc)

definition hooks_wf :: "'s hook_registry \<Rightarrow> bool" where
  "hooks_wf reg \<longleftrightarrow> (\<forall>pt. \<forall>m \<in> set (hr_chains reg pt).
     (mw_guard m \<noteq> None) \<noteq> (mw_observer m \<noteq> None) \<and> pt \<in> set (mw_attaches_to m) \<and>
     mw_id m \<in> set (hr_registered reg))"

text \<open>\<open>register\<close> on every branch: an object with not exactly one middleware base, no lifecycle
  point, or an undeclared or overlapping LLM family is refused; an object already registered
  changes nothing; otherwise it is appended to the chain of each point it attaches to, and the
  registry invariant (only well-typed middleware, only at the points it names, all of it
  marked as registered) is kept.\<close>

theorem hooks_register_contract:
  assumes "hooks_wf reg"
  shows "case hooks_register m fam reg of
     Inl e \<Rightarrow> (mw_guard m = None) = (mw_observer m = None) \<or> mw_attaches_to m = [] \<or>
        mw_uses_llm m \<and> (mw_family m = [] \<or> fam \<noteq> [] \<and> mw_family m = fam)
   | Inr reg' \<Rightarrow> hooks_wf reg' \<and> mw_id m \<in> set (hr_registered reg') \<and>
        (mw_uses_llm m \<longrightarrow> mw_family m \<noteq> [] \<and> (fam = [] \<or> mw_family m \<noteq> fam)) \<and>
        (if mw_id m \<in> set (hr_registered reg) then reg' = reg
         else \<forall>pt. hr_chains reg' pt = hr_chains reg pt @ replicate (count_list (mw_attaches_to m) pt) m) \<and>
        hooks_register m fam reg' = Inr reg'"
proof (cases "hooks_register m fam reg")
  case (Inl e)
  then show ?thesis by (auto simp: hooks_register_def validate_middleware_def split: if_splits)
next
  case (Inr reg')
  have ok: "validate_middleware m fam = Inr ()"
    using Inr by (auto simp: hooks_register_def split: sum.splits)
  then have props: "(mw_guard m \<noteq> None) \<noteq> (mw_observer m \<noteq> None)"
      "mw_uses_llm m \<longrightarrow> mw_family m \<noteq> [] \<and> (fam = [] \<or> mw_family m \<noteq> fam)"
    by (auto simp: validate_middleware_def split: if_splits)
  show ?thesis
  proof (cases "mw_id m \<in> set (hr_registered reg)")
    case True
    with Inr ok have "reg' = reg" by (simp add: hooks_register_def)
    with True Inr props assms show ?thesis by simp
  next
    case False
    with Inr ok have reg': "reg' = reg\<lparr>hr_registered := mw_id m # hr_registered reg,
        hr_chains := fold (\<lambda>pt ch. ch(pt := ch pt @ [m])) (mw_attaches_to m) (hr_chains reg)\<rparr>"
      by (simp add: hooks_register_def)
    have "hooks_wf reg'"
      unfolding hooks_wf_def
    proof (intro allI ballI)
      fix pt x assume "x \<in> set (hr_chains reg' pt)"
      then consider "x \<in> set (hr_chains reg pt)" | "x = m" "pt \<in> set (mw_attaches_to m)"
        by (auto simp: reg' register_chains count_list_0_iff split: if_splits)
      then show "(mw_guard x \<noteq> None) \<noteq> (mw_observer x \<noteq> None) \<and> pt \<in> set (mw_attaches_to x) \<and>
          mw_id x \<in> set (hr_registered reg')"
        using assms props(1) by cases (auto simp: hooks_wf_def reg')
    qed
    moreover have "hooks_register m fam reg' = Inr reg'"
      by (simp add: hooks_register_def ok) (simp add: reg')
    ultimately show ?thesis using Inr props False by (simp add: reg' register_chains)
  qed
qed

theorem hooks_register_contract_witness:
  "hooks_wf (hooks_init None) \<and>
   (\<exists>reg'. hooks_register demo_sandbox [] (hooks_init None) = Inr reg' \<and> hooks_wf reg' \<and>
      hr_chains reg' BEFORE_TOOL_EXEC = [demo_sandbox])"
proof -
  have wf: "hooks_wf (hooks_init None)" by (simp add: hooks_wf_def hooks_init_def)
  obtain reg' where "hooks_register demo_sandbox [] (hooks_init None) = Inr reg'"
    by (simp add: hooks_register_def validate_middleware_def demo_sandbox_def hooks_init_def)
  with hooks_register_contract [OF wf, of demo_sandbox "[]"] wf show ?thesis
    by (auto simp: hooks_init_def demo_sandbox_def)
qed

text \<open>A chain of middleware that keeps the contract (guards answer allow or deny and do not
  raise, observers raise at most ordinary exceptions) cannot fail in any other way: the dispatch
  returns the payload it was given or raises \<open>PermissionError\<close> with a non-empty reason, and the
  world's invariant survives, whatever the sink does within it.\<close>

theorem hooks_dispatch_safe:
  assumes "hooks_dispatch point payload reg s = (res, reg', s')"
    and "\<forall>m \<in> set (hr_chains reg point). mw_ok I m" and "sink_ok I (hr_sink reg)" and "I s"
  shows "I s' \<and> (res = Inr payload \<or> (\<exists>reason. reason \<noteq> [] \<and> res = Inl (Exn PermissionError reason)))"
proof -
  obtain tr where loop: "dispatch_loop (hr_sink reg) point [] (hr_chains reg point) False payload (hr_trace reg, s)
      = (res, tr, s')" using assms(1) by (rule hooks_dispatch_loop)
  from loop_mw_ok [OF assms(3,2) _ loop] assms(4) show ?thesis by simp
qed

theorem hooks_dispatch_safe_witness:
  "\<exists>res reg'. hooks_dispatch BEFORE_TOOL_EXEC (demo_payload ''root'')
      (demo_hooks\<lparr>hr_chains := (\<lambda>_. [demo_sandbox])\<rparr>) () = (res, reg', ()) \<and>
     (res = Inr (demo_payload ''root'') \<or> (\<exists>reason. reason \<noteq> [] \<and> res = Inl (Exn PermissionError reason)))"
proof -
  let ?reg = "demo_hooks\<lparr>hr_chains := (\<lambda>_. [demo_sandbox])\<rparr>"
  obtain res reg' where run:
    "hooks_dispatch BEFORE_TOOL_EXEC (demo_payload ''root'') ?reg () = (res, reg', ())"
    by (cases "hooks_dispatch BEFORE_TOOL_EXEC (demo_payload ''root'') ?reg ()") auto
  have "mw_ok (\<lambda>_. True) demo_sandbox"
    by (auto simp: mw_ok_def demo_sandbox_def demo_check_def decision_deny_def)
  then have "\<forall>m \<in> set (hr_chains ?reg BEFORE_TOOL_EXEC). mw_ok (\<lambda>_. True) m" by simp
  moreover have "sink_ok (\<lambda>_. True) (hr_sink ?reg)" by (simp add: sink_ok_def)
  ultimately have "res = Inr (demo_payload ''root'') \<or>
      (\<exists>reason. reason \<noteq> [] \<and> res = Inl (Exn PermissionError reason))"
    using hooks_dispatch_safe [OF run, of "\<lambda>_. True"] by simp
  with run show ?thesis by blast
qed

end
