(* ===== verification/Recovery.thy ===== *)
theory Recovery
  imports Hooks
begin

text \<open>
  The recovery package: the failure classifier of \<open>fa/inner_loop/recovery/classify.py\<close> and the
  bounded attempt history of \<open>fa/inner_loop/recovery/attempt_history.py\<close>.

  The history file is modelled by the JSON document it holds (or that it is unreadable): the
  writer replaces it atomically, the reader skips rows it cannot convert. \<open>ts\<close> values are
  finite; the spelling of a non-finite float in a \<open>ts\<close> string counts as unreadable. SHA-256
  (as a function from text to the hex digest) and \<open>repr\<close> of floats are arguments.
\<close>

section \<open>Classification\<close>

datatype failure_category =
    INVALID_ARGUMENTS | UNEXPECTED_ENVIRONMENTS | PROVIDER_ERRORS | BROKEN_BUILD
  | VERIFICATION_FAILED | CIRCULAR_FIX | CONTEXT_EXHAUSTED | RATE_LIMITED | AUTH_FAILURE
  | POLICY_DENIED | UNKNOWN

fun category_value :: "failure_category \<Rightarrow> string" where
  "category_value INVALID_ARGUMENTS = ''invalid_arguments''"
| "category_value UNEXPECTED_ENVIRONMENTS = ''unexpected_environments''"
| "category_value PROVIDER_ERRORS = ''provider_errors''"
| "category_value BROKEN_BUILD = ''broken_build''"
| "category_value VERIFICATION_FAILED = ''verification_failed''"
| "category_value CIRCULAR_FIX = ''circular_fix''"
| "category_value CONTEXT_EXHAUSTED = ''context_exhausted''"
| "category_value RATE_LIMITED = ''rate_limited''"
| "category_value AUTH_FAILURE = ''auth_failure''"
| "category_value POLICY_DENIED = ''policy_denied''"
| "category_value UNKNOWN = ''unknown''"

datatype recovery_kind = ROLLBACK | RETRY | SKIP | ESCALATE

fun recovery_kind_value :: "recovery_kind \<Rightarrow> string" where
  "recovery_kind_value ROLLBACK = ''rollback''"
| "recovery_kind_value RETRY = ''retry''"
| "recovery_kind_value SKIP = ''skip''"
| "recovery_kind_value ESCALATE = ''escalate''"

record recovery_action =
  ra_kind :: recovery_kind
  ra_category :: failure_category
  ra_target :: string
  ra_reason :: string
  ra_retryable :: bool

definition CODE_TO_CATEGORY :: "(string, failure_category) pydict" where
  "CODE_TO_CATEGORY =
    [(''invalid_params'', INVALID_ARGUMENTS),
     (''invalid_payload'', INVALID_ARGUMENTS),
     (''hook_deny'', POLICY_DENIED),
     (''read_failed'', UNEXPECTED_ENVIRONMENTS),
     (''write_failed'', UNEXPECTED_ENVIRONMENTS),
     (''command_timeout'', PROVIDER_ERRORS),
     (''command_failed'', BROKEN_BUILD),
     (''audit_failure'', UNEXPECTED_ENVIRONMENTS)]"

definition KEYWORD_TO_CATEGORY :: "(string \<times> failure_category) list" where
  "KEYWORD_TO_CATEGORY =
    [(''rate limit'', RATE_LIMITED),
     (''rate_limited'', RATE_LIMITED),
     (''too many requests'', RATE_LIMITED),
     (''429'', RATE_LIMITED),
     (''unauthorized'', AUTH_FAILURE),
     (''forbidden'', AUTH_FAILURE),
     (''401'', AUTH_FAILURE),
     (''403'', AUTH_FAILURE),
     (''invalid api key'', AUTH_FAILURE),
     (''context length'', CONTEXT_EXHAUSTED),
     (''context_length'', CONTEXT_EXHAUSTED),
     (''maximum context'', CONTEXT_EXHAUSTED),
     (''token limit'', CONTEXT_EXHAUSTED),
     (''verification failed'', VERIFICATION_FAILED),
     (''dsv_violation'', VERIFICATION_FAILED),
     (''build failed'', BROKEN_BUILD),
     (''compile error'', BROKEN_BUILD),
     (''provider'', PROVIDER_ERRORS),
     (''connection'', PROVIDER_ERRORS),
     (''timeout'', PROVIDER_ERRORS)]"

fun CATEGORY_TO_ACTION :: "failure_category \<Rightarrow> recovery_kind" where
  "CATEGORY_TO_ACTION INVALID_ARGUMENTS = RETRY"
| "CATEGORY_TO_ACTION UNEXPECTED_ENVIRONMENTS = RETRY"
| "CATEGORY_TO_ACTION PROVIDER_ERRORS = RETRY"
| "CATEGORY_TO_ACTION BROKEN_BUILD = RETRY"
| "CATEGORY_TO_ACTION VERIFICATION_FAILED = RETRY"
| "CATEGORY_TO_ACTION RATE_LIMITED = RETRY"
| "CATEGORY_TO_ACTION CIRCULAR_FIX = ESCALATE"
| "CATEGORY_TO_ACTION CONTEXT_EXHAUSTED = ESCALATE"
| "CATEGORY_TO_ACTION AUTH_FAILURE = ESCALATE"
| "CATEGORY_TO_ACTION POLICY_DENIED = ESCALATE"
| "CATEGORY_TO_ACTION UNKNOWN = ESCALATE"

fun keyword_scan :: "string \<Rightarrow> (string \<times> failure_category) list \<Rightarrow> failure_category" where
  "keyword_scan msg [] = UNKNOWN"
| "keyword_scan msg ((kw, cat) # rest) = (if py_in kw msg then cat else keyword_scan msg rest)"

definition category_for :: "tool_error \<Rightarrow> failure_category" where
  "category_for err =
     (case dict_get CODE_TO_CATEGORY (te_code err) of
        Some direct \<Rightarrow> direct
      | None \<Rightarrow> keyword_scan (py_lower (te_message err)) KEYWORD_TO_CATEGORY)"

definition classify :: "tool_error \<Rightarrow> string \<Rightarrow> recovery_action" where
  "classify err target =
     (let category = category_for err in
      \<lparr>ra_kind = CATEGORY_TO_ACTION category, ra_category = category, ra_target = target,
       ra_reason = te_message err, ra_retryable = te_retryable err\<rparr>)"

definition classify_result :: "tool_result \<Rightarrow> string \<Rightarrow> recovery_action option" where
  "classify_result r target = map_option (\<lambda>e. classify e target) (tr_error r)"

section \<open>The attempt history\<close>

definition DEFAULT_ATTEMPT_HISTORY_MAX_ENTRIES :: int where
  "DEFAULT_ATTEMPT_HISTORY_MAX_ENTRIES = 50"

definition DEFAULT_ATTEMPT_HISTORY_MAX_AGE_SECONDS :: int where
  "DEFAULT_ATTEMPT_HISTORY_MAX_AGE_SECONDS = 7200"

record attempt_entry =
  ae_ts :: rat
  ae_tool_name :: string
  ae_params_hash :: string
  ae_error_code :: string
  ae_error_message :: string
  ae_recovery_action :: string
  ae_recovery_category :: string

definition entry_to_json :: "attempt_entry \<Rightarrow> json_obj" where
  "entry_to_json e =
     [(''ts'', JFloat (ae_ts e)),
      (''tool_name'', JStr (ae_tool_name e)),
      (''params_hash'', JStr (ae_params_hash e)),
      (''error_code'', JStr (ae_error_code e)),
      (''error_message'', JStr (ae_error_message e)),
      (''recovery_action'', JStr (ae_recovery_action e)),
      (''recovery_category'', JStr (ae_recovery_category e))]"

text \<open>\<open>float(v)\<close> of a JSON value.\<close>

definition json_float :: "json \<Rightarrow> rat py_result" where
  "json_float v = (case v of
     JFloat q \<Rightarrow> Inr q
   | JInt i \<Rightarrow> Inr (of_int i)
   | JBool b \<Rightarrow> Inr (if b then 1 else 0)
   | JStr s \<Rightarrow> (case py_float s of Some (Fin q) \<Rightarrow> Inr q
        | _ \<Rightarrow> Inl (Exn ValueError (''could not convert string to float: '' @ py_repr s)))
   | _ \<Rightarrow> Inl (Exn TypeError ''float() argument must be a string or a real number''))"

definition entry_from_json :: "(rat \<Rightarrow> string) \<Rightarrow> json_obj \<Rightarrow> attempt_entry py_result" where
  "entry_from_json fr raw =
     (let field = (\<lambda>k. case dict_get raw k of None \<Rightarrow> Inl (Exn KeyError (py_repr k)) | Some v \<Rightarrow> Inr v);
          text = (\<lambda>k. case field k of Inl e \<Rightarrow> Inl e | Inr v \<Rightarrow> Inr (json_str fr v))
      in case field ''ts'' of Inl e \<Rightarrow> Inl e | Inr tsv \<Rightarrow>
        (case json_float tsv of Inl e \<Rightarrow> Inl e | Inr ts \<Rightarrow>
        (case text ''tool_name'' of Inl e \<Rightarrow> Inl e | Inr tool_name \<Rightarrow>
        (case text ''params_hash'' of Inl e \<Rightarrow> Inl e | Inr params_hash \<Rightarrow>
        (case text ''error_code'' of Inl e \<Rightarrow> Inl e | Inr error_code \<Rightarrow>
        (case text ''error_message'' of Inl e \<Rightarrow> Inl e | Inr error_message \<Rightarrow>
        (case text ''recovery_action'' of Inl e \<Rightarrow> Inl e | Inr recovery_action \<Rightarrow>
        (case text ''recovery_category'' of Inl e \<Rightarrow> Inl e | Inr recovery_category \<Rightarrow>
          Inr \<lparr>ae_ts = ts, ae_tool_name = tool_name, ae_params_hash = params_hash,
               ae_error_code = error_code, ae_error_message = error_message,
               ae_recovery_action = recovery_action,
               ae_recovery_category = recovery_category\<rparr>))))))))"

definition canonical_params_hash ::
  "(string \<Rightarrow> string) \<Rightarrow> (rat \<Rightarrow> string) \<Rightarrow> string \<Rightarrow> json_obj \<Rightarrow> string" where
  "canonical_params_hash sha256_hex fr tool_name params =
     (let canonical = json_dumps_sorted fr (JObj params);
          blob = tool_name @ ''|'' @ canonical
      in take 12 (sha256_hex blob))"

datatype file_content = Missing | Unreadable | JsonDoc json

record attempt_history =
  ah_max_entries :: int
  ah_max_age_seconds :: int
  ah_entries :: "attempt_entry list"
  ah_file :: file_content

fun load_rows :: "(rat \<Rightarrow> string) \<Rightarrow> json list \<Rightarrow> attempt_entry list" where
  "load_rows fr [] = []"
| "load_rows fr (JObj row # rows) =
     (case entry_from_json fr row of
        Inr e \<Rightarrow> e # load_rows fr rows
      | Inl _ \<Rightarrow> load_rows fr rows)"
| "load_rows fr (_ # rows) = load_rows fr rows"

definition history_open ::
  "(rat \<Rightarrow> string) \<Rightarrow> file_content \<Rightarrow> int \<Rightarrow> int \<Rightarrow> attempt_history" where
  "history_open fr file max_entries max_age =
     \<lparr>ah_max_entries = max_entries, ah_max_age_seconds = max_age,
      ah_entries = (case file of JsonDoc (JList rows) \<Rightarrow> load_rows fr rows | _ \<Rightarrow> []),
      ah_file = file\<rparr>"

definition history_prune :: "rat \<Rightarrow> attempt_history \<Rightarrow> attempt_history" where
  "history_prune now h =
     (let cutoff = now - of_int (ah_max_age_seconds h);
          kept = filter (\<lambda>e. ae_ts e \<ge> cutoff) (ah_entries h)
      in h\<lparr>ah_entries := (if int (length kept) > ah_max_entries h
                          then slice_last (ah_max_entries h) kept else kept)\<rparr>)"

definition history_flush :: "attempt_history \<Rightarrow> attempt_history" where
  "history_flush h = h\<lparr>ah_file := JsonDoc (JList (map (\<lambda>e. JObj (entry_to_json e)) (ah_entries h)))\<rparr>"

definition history_append ::
  "string \<Rightarrow> string \<Rightarrow> string \<Rightarrow> string \<Rightarrow> string \<Rightarrow> string \<Rightarrow> rat option \<Rightarrow> rat
     \<Rightarrow> attempt_history \<Rightarrow> attempt_entry \<times> attempt_history" where
  "history_append tool_name params_hash error_code error_message recovery_action recovery_category
     ts clock h =
     (let now = (case ts of None \<Rightarrow> clock | Some t \<Rightarrow> t);
          room = (if int (length (ah_entries h)) \<ge> ah_max_entries h
                  then slice_last (ah_max_entries h - 1) (ah_entries h) else ah_entries h);
          entry = \<lparr>ae_ts = now, ae_tool_name = tool_name, ae_params_hash = params_hash,
                   ae_error_code = error_code, ae_error_message = error_message,
                   ae_recovery_action = recovery_action,
                   ae_recovery_category = recovery_category\<rparr>
      in (entry, history_flush (history_prune now (h\<lparr>ah_entries := room @ [entry]\<rparr>))))"

definition attempt_count :: "string \<Rightarrow> string \<Rightarrow> attempt_history \<Rightarrow> nat" where
  "attempt_count tool_name params_hash h =
     length (filter (\<lambda>e. ae_tool_name e = tool_name \<and> ae_params_hash e = params_hash) (ah_entries h))"

section \<open>Classifier lemmas\<close>

lemma keyword_scan_first:
  "keyword_scan msg kws = cat \<longleftrightarrow>
     (\<exists>pre kw post. kws = pre @ (kw, cat) # post \<and> py_in kw msg \<and> (\<forall>x \<in> set pre. \<not> py_in (fst x) msg)) \<or>
     (cat = UNKNOWN \<and> (\<forall>x \<in> set kws. \<not> py_in (fst x) msg))"
proof (induction kws)
  case Nil
  then show ?case by auto
next
  case (Cons x kws)
  obtain kw c where x: "x = (kw, c)" by (cases x)
  show ?case
  proof (cases "py_in kw msg")
    case True
    then show ?thesis by (auto simp: x Cons_eq_append_conv) force
  next
    case False
    then have "keyword_scan msg (x # kws) = keyword_scan msg kws" by (simp add: x)
    moreover have "(\<exists>pre k post. x # kws = pre @ (k, cat) # post \<and> py_in k msg \<and>
          (\<forall>y \<in> set pre. \<not> py_in (fst y) msg)) \<longleftrightarrow>
        (\<exists>pre k post. kws = pre @ (k, cat) # post \<and> py_in k msg \<and> (\<forall>y \<in> set pre. \<not> py_in (fst y) msg))"
      (is "?L = ?R")
    proof
      assume ?L
      then obtain pre k post where l: "x # kws = pre @ (k, cat) # post" "py_in k msg"
        "\<forall>y \<in> set pre. \<not> py_in (fst y) msg" by blast
      with False x obtain pre' where "pre = x # pre'" by (cases pre) auto
      with l show ?R by auto
    next
      assume ?R
      then obtain pre k post where "kws = pre @ (k, cat) # post" "py_in k msg"
        "\<forall>y \<in> set pre. \<not> py_in (fst y) msg" by blast
      with False x show ?L by (intro exI [of _ "x # pre"] exI [of _ k] exI [of _ post]) auto
    qed
    ultimately show ?thesis using Cons.IH False x by auto
  qed
qed

section \<open>History lemmas\<close>

lemma entry_json_roundtrip: "entry_from_json fr (entry_to_json e) = Inr e"
  by (simp add: entry_from_json_def entry_to_json_def json_float_def json_str_def Let_def)

lemma load_rows_roundtrip: "load_rows fr (map (\<lambda>e. JObj (entry_to_json e)) es) = es"
  by (induction es) (simp_all add: entry_json_roundtrip)

text \<open>The entries a prune keeps, as a suffix of the recent ones.\<close>

definition recent :: "rat \<Rightarrow> int \<Rightarrow> attempt_entry list \<Rightarrow> attempt_entry list" where
  "recent now age es = filter (\<lambda>e. ae_ts e \<ge> now - of_int age) es"

lemma prune_entries:
  "0 < ah_max_entries h \<Longrightarrow>
     ah_entries (history_prune now h) =
       slice_last (ah_max_entries h) (recent now (ah_max_age_seconds h) (ah_entries h))"
  by (auto simp: history_prune_def recent_def Let_def slice_last_def)

lemma recent_append [simp]: "recent now age (xs @ ys) = recent now age xs @ recent now age ys"
  by (simp add: recent_def)

lemma recent_snoc_now: "0 \<le> age \<Longrightarrow> recent (ae_ts e) age [e] = [e]"
  by (simp add: recent_def)

lemma recent_le: "length (recent now age es) \<le> length es"
  by (simp add: recent_def)

lemma recent_suffix_length:
  assumes "sorted (map ae_ts (pre @ s))"
  shows "length (recent now age s) = min (length s) (length (recent now age (pre @ s)))"
proof (cases "recent now age pre = []")
  case True
  then show ?thesis using recent_le [of now age s] by simp
next
  case False
  then obtain e where e: "e \<in> set pre" "ae_ts e \<ge> now - of_int age"
    by (auto simp: recent_def filter_empty_conv)
  from assms e(1) have "\<forall>x \<in> set s. ae_ts e \<le> ae_ts x" by (auto simp: sorted_append)
  with e(2) have "recent now age s = s" by (force simp: recent_def filter_id_conv)
  then show ?thesis by simp
qed

lemma recent_is_suffix:
  "sorted (map ae_ts es) \<Longrightarrow> suffix (recent now age es) es"
proof (induction es)
  case Nil
  then show ?case by (simp add: recent_def)
next
  case (Cons e es)
  show ?case
  proof (cases "ae_ts e \<ge> now - of_int age")
    case True
    with Cons.prems have "recent now age (e # es) = e # es" by (force simp: recent_def filter_id_conv)
    then show ?thesis by simp
  next
    case False
    then have "recent now age (e # es) = recent now age es" by (simp add: recent_def)
    with Cons show ?thesis by (auto intro: suffix_ConsI)
  qed
qed

lemma suffix_eqI: "suffix a c \<Longrightarrow> suffix b c \<Longrightarrow> length a = length b \<Longrightarrow> a = b"
  by (auto simp: suffix_def append_eq_append_conv)

lemma recent_mono: "now \<le> now' \<Longrightarrow> length (recent now' age es) \<le> length (recent now age es)"
  by (induction es) (auto simp: recent_def)

lemma recent_of_suffix:
  assumes "sorted (map ae_ts all)" "suffix s all"
  shows "suffix (recent now age s) all" "length (recent now age s) = min (length s) (length (recent now age all))"
proof -
  obtain pre where pre: "all = pre @ s" using assms(2) by (auto simp: suffix_def)
  with assms(1) have "sorted (map ae_ts s)" by (simp add: sorted_append)
  from suffix_order.trans [OF recent_is_suffix [OF this] assms(2)] show "suffix (recent now age s) all" .
  from recent_suffix_length [of pre s now age] assms(1) pre
  show "length (recent now age s) = min (length s) (length (recent now age all))" by simp
qed

definition make_room :: "int \<Rightarrow> attempt_entry list \<Rightarrow> attempt_entry list" where
  "make_room M es = (if int (length es) \<ge> M then slice_last (M - 1) es else es)"

text \<open>One append keeps the window exact: the last \<open>max_entries\<close> recent rows of everything
  appended so far.\<close>

lemma append_window:
  fixes M age :: int
  assumes srt: "sorted (map ae_ts (all @ [e]))" and M: "1 \<le> M" and age: "0 \<le> age" and now: "now \<le> ae_ts e"
    and es: "es = slice_last M (recent now age all)"
  defines "room \<equiv> make_room M es"
  shows "slice_last M (recent (ae_ts e) age (room @ [e])) = slice_last M (recent (ae_ts e) age (all @ [e]))"
proof -
  let ?t = "ae_ts e"
  have srt': "sorted (map ae_ts all)" using srt by (simp add: sorted_append)
  have "suffix es all" unfolding es
    by (rule suffix_order.trans [OF slice_last_suffix recent_is_suffix [OF srt']])
  moreover have "suffix room es" by (simp add: room_def make_room_def slice_last_suffix)
  ultimately have sfx: "suffix room all" by (rule suffix_order.trans [rotated])
  let ?n = "length (recent ?t age all)"
  have mono: "?n \<le> length (recent now age all)" by (rule recent_mono [OF now])
  have len_es: "length es = min (nat M) (length (recent now age all))"
    using M by (simp add: es slice_last_length)
  note rs = recent_of_suffix [OF srt' sfx, of ?t age]
  note ra = recent_of_suffix [OF srt' suffix_order.refl, of ?t age]
  have len: "min (nat M) (Suc (length (recent ?t age room))) = min (nat M) (Suc ?n)"
  proof (cases "M = 1")
    case True
    then show ?thesis by simp
  next
    case False
    with M len_es have "length room = min (nat M - 1) (length (recent now age all))"
      by (auto simp: room_def make_room_def slice_last_length nat_diff_distrib)
    then have "length (recent ?t age room) = min (nat M - 1) ?n" using rs(2) mono by linarith
    moreover have "Suc (nat M - 1) = nat M" using M by linarith
    ultimately show ?thesis by linarith
  qed
  have "suffix (slice_last M (recent ?t age room @ [e])) (all @ [e])"
    by (rule suffix_order.trans [OF slice_last_suffix]) (use rs(1) in \<open>simp add: suffix_def\<close>)
  moreover have "suffix (slice_last M (recent ?t age all @ [e])) (all @ [e])"
    by (rule suffix_order.trans [OF slice_last_suffix]) (use ra(1) in \<open>simp add: suffix_def\<close>)
  ultimately have "slice_last M (recent ?t age room @ [e]) = slice_last M (recent ?t age all @ [e])"
    by (rule suffix_eqI) (use M len in \<open>simp add: slice_last_length\<close>)
  then show ?thesis using recent_snoc_now [OF age, of e] by simp
qed

definition append_entry :: "attempt_entry \<Rightarrow> attempt_history \<Rightarrow> attempt_history" where
  "append_entry e h = snd (history_append (ae_tool_name e) (ae_params_hash e) (ae_error_code e)
     (ae_error_message e) (ae_recovery_action e) (ae_recovery_category e) (Some (ae_ts e)) 0 h)"

lemma append_entry_simps:
  fixes h :: attempt_history
  assumes "1 \<le> ah_max_entries h"
  defines "room \<equiv> make_room (ah_max_entries h) (ah_entries h)"
  shows "append_entry e h = history_flush (h\<lparr>ah_entries :=
     slice_last (ah_max_entries h) (recent (ae_ts e) (ah_max_age_seconds h) (room @ [e]))\<rparr>)"
proof -
  have "append_entry e h = history_flush (history_prune (ae_ts e) (h\<lparr>ah_entries := room @ [e]\<rparr>))"
    by (cases e) (simp add: append_entry_def history_append_def room_def make_room_def Let_def)
  moreover have "history_prune (ae_ts e) (h\<lparr>ah_entries := room @ [e]\<rparr>) =
      h\<lparr>ah_entries := slice_last (ah_max_entries h) (recent (ae_ts e) (ah_max_age_seconds h) (room @ [e]))\<rparr>"
    using prune_entries [of "h\<lparr>ah_entries := room @ [e]\<rparr>" "ae_ts e"] assms(1)
    by (simp add: history_prune_def Let_def)
  ultimately show ?thesis by simp
qed

lemma open_flush:
  "history_open fr (ah_file (history_flush h)) (ah_max_entries h) (ah_max_age_seconds h) = history_flush h"
  by (simp add: history_open_def history_flush_def load_rows_roundtrip)

section \<open>Properties\<close>

text \<open>The classifier on every error: a listed code decides alone; otherwise the first keyword of the
  table that occurs in the lower-cased message does, and with none the category is \<open>UNKNOWN\<close>. The
  recommendation is \<open>RETRY\<close> or \<open>ESCALATE\<close> only, never a retry for a policy denial, an
  authentication failure or an exhausted context, and the runtime's own \<open>retryable\<close> flag and
  message are carried through.\<close>

theorem classify_decision:
  "let a = classify err target; c = ra_category a; msg = py_lower (te_message err) in
     (\<forall>direct. dict_get CODE_TO_CATEGORY (te_code err) = Some direct \<longrightarrow> c = direct) \<and>
     (dict_get CODE_TO_CATEGORY (te_code err) = None \<longrightarrow>
        (\<exists>pre kw post. KEYWORD_TO_CATEGORY = pre @ (kw, c) # post \<and>
           (\<exists>l r. msg = l @ kw @ r) \<and> (\<forall>(k, _) \<in> set pre. \<nexists>l r. msg = l @ k @ r)) \<or>
        c = UNKNOWN \<and> (\<forall>(k, _) \<in> set KEYWORD_TO_CATEGORY. \<nexists>l r. msg = l @ k @ r)) \<and>
     (ra_kind a = RETRY \<or> ra_kind a = ESCALATE) \<and>
     (ra_kind a = ESCALATE \<longleftrightarrow> c \<in> {POLICY_DENIED, AUTH_FAILURE, CONTEXT_EXHAUSTED, CIRCULAR_FIX, UNKNOWN}) \<and>
     ra_retryable a = te_retryable err \<and> ra_reason a = te_message err \<and> ra_target a = target"
proof -
  let ?c = "category_for err"
  have kind: "CATEGORY_TO_ACTION ?c = RETRY \<or> CATEGORY_TO_ACTION ?c = ESCALATE"
      "CATEGORY_TO_ACTION ?c = ESCALATE \<longleftrightarrow> ?c \<in> {POLICY_DENIED, AUTH_FAILURE, CONTEXT_EXHAUSTED, CIRCULAR_FIX, UNKNOWN}"
    by (cases ?c; simp)+
  have kws: "(\<exists>pre kw post. KEYWORD_TO_CATEGORY = pre @ (kw, ?c) # post \<and>
       py_in kw (py_lower (te_message err)) \<and> (\<forall>x \<in> set pre. \<not> py_in (fst x) (py_lower (te_message err)))) \<or>
     ?c = UNKNOWN \<and> (\<forall>x \<in> set KEYWORD_TO_CATEGORY. \<not> py_in (fst x) (py_lower (te_message err)))"
    if "dict_get CODE_TO_CATEGORY (te_code err) = None"
    using that keyword_scan_first [of "py_lower (te_message err)" KEYWORD_TO_CATEGORY ?c]
    by (simp add: category_for_def)
  show ?thesis
    unfolding Let_def py_in_sublist [symmetric]
    using kind kws by (simp add: classify_def Let_def case_prod_beta) (simp add: category_for_def)
qed

theorem classify_decision_witness:
  "ra_category (classify \<lparr>te_code = ''hook_deny'', te_message = ''429'', te_retryable = True\<rparr> ''t'') = POLICY_DENIED"
  using classify_decision [of "\<lparr>te_code = ''hook_deny'', te_message = ''429'', te_retryable = True\<rparr>" "''t''"]
  by (simp add: Let_def CODE_TO_CATEGORY_def)

text \<open>C26: With a clock that does not run backwards, after any sequence of appends the history is
  exactly the last \<open>max_entries\<close> of those appended entries that are at most \<open>max_age_seconds\<close>
  old at the last append; in particular it never exceeds the cap, holds no stale row and holds
  the newest one, and opening the file again (after a crash, say) gives back the same history.\<close>

theorem attempt_history_window:
  assumes "1 \<le> M" and "0 \<le> age" and "es \<noteq> []" and "sorted (map ae_ts es)"
    and "h = fold append_entry es (history_open fr Missing M age)"
  shows "ah_entries h = slice_last M (filter (\<lambda>e. ae_ts (last es) - of_int age \<le> ae_ts e) es) \<and>
     int (length (ah_entries h)) \<le> M \<and> last (ah_entries h) = last es \<and>
     history_open fr' (ah_file h) M age = h"
proof -
  have win: "fold append_entry es (history_open fr Missing M age) =
      history_flush \<lparr>ah_max_entries = M, ah_max_age_seconds = age,
        ah_entries = slice_last M (recent (ae_ts (last es)) age es), ah_file = Missing\<rparr>"
    if "es \<noteq> []" "sorted (map ae_ts es)" for es
    using that
  proof (induction es rule: rev_nonempty_induct)
    case (single e)
    have "recent (ae_ts e) age ([] @ [e]) = [e]" using assms(2) by (simp add: recent_def)
    then show ?case
      using assms(1)
      by (simp add: append_entry_simps history_open_def history_flush_def slice_last_def make_room_def recent_def)
  next
    case (snoc e es)
    let ?h = "fold append_entry es (history_open fr Missing M age)"
    have h: "?h = history_flush \<lparr>ah_max_entries = M, ah_max_age_seconds = age,
        ah_entries = slice_last M (recent (ae_ts (last es)) age es), ah_file = Missing\<rparr>"
      using snoc by (simp add: sorted_append)
    have "ae_ts (last es) \<le> ae_ts e" using snoc.prems snoc.hyps by (auto simp: sorted_append)
    from append_window [OF snoc.prems assms(1,2) this refl]
    have "slice_last M (recent (ae_ts e) age (make_room M (ah_entries ?h) @ [e])) =
        slice_last M (recent (ae_ts e) age (es @ [e]))"
      by (simp add: h history_flush_def del: recent_append)
    then show ?case
      using append_entry_simps [of ?h e] assms(1) by (simp add: h history_flush_def del: recent_append)
  qed
  note h = win [OF assms(3,4), folded assms(5)]
  obtain init where init: "es = init @ [last es]" using assms(3) by (metis append_butlast_last_id)
  have "recent (ae_ts (last es)) age es \<noteq> [] \<and> last (recent (ae_ts (last es)) age es) = last es"
    using recent_snoc_now [OF assms(2), of "last es"] by (subst (2 4) init) simp
  then have "last (slice_last M (recent (ae_ts (last es)) age es)) = last es"
    using assms(1) by (simp add: slice_last_def last_drop)
  moreover have "int (length (slice_last M (recent (ae_ts (last es)) age es))) \<le> M"
    using assms(1) by (simp add: slice_last_length)
  moreover have "history_open fr' (ah_file h) M age = h"
    using open_flush [of fr' "\<lparr>ah_max_entries = M, ah_max_age_seconds = age,
        ah_entries = slice_last M (recent (ae_ts (last es)) age es), ah_file = Missing\<rparr>"]
    by (simp add: h)
  ultimately show ?thesis by (simp add: h history_flush_def recent_def)
qed

definition demo_entry :: "rat \<Rightarrow> attempt_entry" where
  "demo_entry t = \<lparr>ae_ts = t, ae_tool_name = ''fs_run_bash'', ae_params_hash = ''0a1b'',
     ae_error_code = ''command_failed'', ae_error_message = ''exit 1'',
     ae_recovery_action = ''retry'', ae_recovery_category = ''broken_build''\<rparr>"

theorem attempt_history_window_witness:
  "ah_entries (fold append_entry [demo_entry 1, demo_entry 90, demo_entry 95, demo_entry 101]
     (history_open (\<lambda>_. []) Missing 2 100)) = [demo_entry 95, demo_entry 101]"
  using attempt_history_window [of 2 100 "[demo_entry 1, demo_entry 90, demo_entry 95, demo_entry 101]", OF _ _ _ _ refl]
  by (simp add: demo_entry_def slice_last_def)

end
