(* ===== verification/Session_State.thy ===== *)
theory Session_State
  imports Hooks
begin

text \<open>
  Session state and its event log: \<open>TraceEvent\<close>, \<open>EventLog\<close> and \<open>SessionState\<close> of
  \<open>fa/inner_loop/state.py\<close>, the event table of \<open>fa/inner_loop/session_db.py\<close> and the
  read/write sets of \<open>fa/inner_loop/transaction.py\<close>.

  SQLite is given by what the code observes of it: the committed rows in insertion order, the
  unique index on \<open>(session_id, event_id)\<close>, and for each write the contention and the error it
  meets, read from \<open>sdb_env\<close> (an exhausted list is fair weather). \<open>BEGIN IMMEDIATE\<close> serialises
  writers, so a history of concurrent writers is a sequence of \<open>append_event_row_allocating\<close>.
  The JSONL mirror is best-effort output and is not kept; the clock string of the next event is
  \<open>el_clock\<close>. Telemetry events are kept as they are handed to the telemetry logger.
\<close>

section \<open>The event table\<close>

definition HARNESS_ID :: string where
  "HARNESS_ID = ''fa-inner-loop@0.1.0''"

record trace_event =
  ev_event_id :: string
  ev_ts :: string
  ev_run_id :: string
  ev_actor :: string
  ev_kind :: string
  ev_content :: json_obj
  ev_harness_id :: string
  ev_tool_name :: string
  ev_tool_call_id :: string
  ev_parent_event_id :: string
  ev_session_id :: string

text \<open>What one write meets: how often \<open>BEGIN IMMEDIATE\<close> fails, and an error of the insert.\<close>

record db_weather =
  bw_busy :: nat
  bw_busy_msg :: string
  bw_insert_error :: "string option"

record session_db =
  sdb_session_id :: string
  sdb_legacy_schema :: bool
  sdb_rows :: "trace_event list"
  sdb_env :: "db_weather list"

definition WRITE_RETRY_ATTEMPTS :: nat where
  "WRITE_RETRY_ATTEMPTS = 5"

text \<open>\<open>f"{n:06d}"\<close>\<close>

definition fmt06 :: "nat \<Rightarrow> string" where
  "fmt06 n = replicate (6 - length (nat_str n)) (CHR ''0'') @ nat_str n"

definition next_event_id :: "string \<Rightarrow> session_db \<Rightarrow> string" where
  "next_event_id session_id db =
     (let count = (if sdb_legacy_schema db \<or> session_id = [] then length (sdb_rows db)
                   else length (filter (\<lambda>r. ev_session_id r = session_id) (sdb_rows db)))
      in ''ev-'' @ fmt06 (count + 1))"

definition insert_event_row :: "trace_event \<Rightarrow> string \<Rightarrow> string \<Rightarrow> session_db \<Rightarrow> session_db py_result" where
  "insert_event_row row session_id event_id db =
     (let stored = row\<lparr>ev_event_id := event_id, ev_session_id := (if sdb_legacy_schema db then [] else session_id)\<rparr>
      in if \<not> sdb_legacy_schema db \<and>
            (\<exists>r \<in> set (sdb_rows db). ev_session_id r = session_id \<and> ev_event_id r = event_id)
         then Inl (Exn (OtherError ''IntegrityError'')
                ''UNIQUE constraint failed: event_log.session_id, event_log.event_id'')
         else Inr (db\<lparr>sdb_rows := sdb_rows db @ [stored]\<rparr>))"

definition identity_mismatch :: "string \<Rightarrow> string \<Rightarrow> py_exc" where
  "identity_mismatch row_sid sid = Exn (OtherError ''SessionDatabaseError'')
     (''session_db_identity_mismatch: event row session '' @ py_repr row_sid @ '' does not match '' @ py_repr sid)"

definition write_failed :: "string \<Rightarrow> py_exc" where
  "write_failed msg = Exn RuntimeError (''event_log_write_failed: '' @ msg)"

definition append_event_row_allocating ::
  "trace_event \<Rightarrow> session_db \<Rightarrow> string py_result \<times> session_db" where
  "append_event_row_allocating row db =
     (let sid = ev_session_id row in
      if sdb_session_id db \<noteq> [] \<and> sid \<noteq> sdb_session_id db
      then (Inl (identity_mismatch sid (sdb_session_id db)), db)
      else
        let weather = (case sdb_env db of [] \<Rightarrow> \<lparr>bw_busy = 0, bw_busy_msg = [], bw_insert_error = None\<rparr> | w # _ \<Rightarrow> w);
            db' = db\<lparr>sdb_env := drop 1 (sdb_env db)\<rparr>
        in if bw_busy weather \<ge> WRITE_RETRY_ATTEMPTS
           then (Inl (write_failed (''event_log_write_busy: '' @ bw_busy_msg weather)), db')
           else let event_id = next_event_id sid db' in
             (case bw_insert_error weather of
                Some msg \<Rightarrow> (Inl (write_failed msg), db')
              | None \<Rightarrow>
                 (case insert_event_row row sid event_id db' of
                    Inl e \<Rightarrow> (Inl (write_failed (exn_msg e)), db')
                  | Inr db'' \<Rightarrow> (Inr event_id, db''))))"

definition event_count :: "session_db \<Rightarrow> nat" where
  "event_count db =
     (if sdb_legacy_schema db \<or> sdb_session_id db = [] then length (sdb_rows db)
      else length (filter (\<lambda>r. ev_session_id r = sdb_session_id db) (sdb_rows db)))"

definition read_event_rows :: "string option \<Rightarrow> session_db \<Rightarrow> trace_event list" where
  "read_event_rows run_id db =
     filter (\<lambda>r. (sdb_legacy_schema db \<or> sdb_session_id db = [] \<or> ev_session_id r = sdb_session_id db) \<and>
                 (case run_id of None \<Rightarrow> True | Some rid \<Rightarrow> ev_run_id r = rid)) (sdb_rows db)"

section \<open>The event log\<close>

record event_log =
  el_run_id :: string
  el_session_id :: string
  el_redactor :: "(string \<Rightarrow> string) option"
  el_db :: session_db
  el_kind_counts :: "(string, nat) pydict"
  el_chain_exhaustion_count :: nat
  el_next_id :: nat
  el_clock :: string

definition event_log_init ::
  "string \<Rightarrow> (string \<Rightarrow> string) option \<Rightarrow> session_db \<Rightarrow> string \<Rightarrow> string \<Rightarrow> event_log py_result" where
  "event_log_init run_id redactor db session_id clock =
     (let sid = (if session_id \<noteq> [] then session_id else sdb_session_id db) in
      if sid \<noteq> [] \<and> sdb_session_id db \<noteq> [] \<and> sid \<noteq> sdb_session_id db
      then Inl (Exn RuntimeError (''session_db_identity_mismatch: EventLog session '' @ py_repr sid @
             '' != DB session '' @ py_repr (sdb_session_id db)))
      else Inr \<lparr>el_run_id = run_id, el_session_id = sid, el_redactor = redactor, el_db = db,
                el_kind_counts = [], el_chain_exhaustion_count = 0, el_next_id = event_count db + 1,
                el_clock = clock\<rparr>)"

fun redact_value :: "(string \<Rightarrow> string) \<Rightarrow> json \<Rightarrow> json" where
  "redact_value f (JStr s) = JStr (f s)"
| "redact_value f (JObj kvs) = JObj (map (\<lambda>(k, v). (k, redact_value f v)) kvs)"
| "redact_value f (JList vs) = JList (map (redact_value f) vs)"
| "redact_value f v = v"

definition redact_content :: "(string \<Rightarrow> string) option \<Rightarrow> json_obj \<Rightarrow> json_obj" where
  "redact_content r content =
     (case r of None \<Rightarrow> content | Some f \<Rightarrow> map (\<lambda>(k, v). (k, redact_value f v)) content)"

definition event_log_append ::
  "string \<Rightarrow> string \<Rightarrow> json_obj \<Rightarrow> string \<Rightarrow> string \<Rightarrow> string \<Rightarrow> event_log
     \<Rightarrow> trace_event py_result \<times> event_log" where
  "event_log_append actor kind content tool_name tool_call_id parent_event_id elog =
     (let pending = \<lparr>ev_event_id = [], ev_ts = el_clock elog, ev_run_id = el_run_id elog, ev_actor = actor,
                     ev_kind = kind, ev_content = redact_content (el_redactor elog) content,
                     ev_harness_id = HARNESS_ID, ev_tool_name = tool_name, ev_tool_call_id = tool_call_id,
                     ev_parent_event_id = parent_event_id, ev_session_id = el_session_id elog\<rparr>
      in case append_event_row_allocating pending (el_db elog) of
           (Inl e, db) \<Rightarrow> (Inl e, elog\<lparr>el_db := db\<rparr>)
         | (Inr event_id, db) \<Rightarrow>
             (Inr (pending\<lparr>ev_event_id := event_id\<rparr>),
              elog\<lparr>el_db := db,
                  el_kind_counts := AList.update kind (dict_get_default (el_kind_counts elog) kind 0 + 1)
                                      (el_kind_counts elog)\<rparr>))"

section \<open>Transactions\<close>

record transaction =
  txn_id :: string
  txn_read_set :: "string set"
  txn_write_set :: "string set"

definition txn_add_read :: "string \<Rightarrow> transaction \<Rightarrow> transaction" where
  "txn_add_read p t = t\<lparr>txn_read_set := insert p (txn_read_set t)\<rparr>"

definition txn_add_write :: "string \<Rightarrow> transaction \<Rightarrow> transaction" where
  "txn_add_write p t = t\<lparr>txn_write_set := insert p (txn_write_set t)\<rparr>"

definition txn_add_reads :: "string list \<Rightarrow> transaction \<Rightarrow> transaction" where
  "txn_add_reads ps t = fold txn_add_read ps t"

definition txn_add_writes :: "string list \<Rightarrow> transaction \<Rightarrow> transaction" where
  "txn_add_writes ps t = fold txn_add_write ps t"

definition txn_snapshot :: "transaction \<Rightarrow> string list \<times> string list" where
  "txn_snapshot t = (sorted_list_of_set (txn_read_set t), sorted_list_of_set (txn_write_set t))"

section \<open>The session state\<close>

text \<open>The fields of \<open>TelemetryEvent\<close> that vary; the others are constants at its one call site.\<close>

record telemetry_event =
  tel_run_id :: string
  tel_turn :: int
  tel_tool_name :: string
  tel_tool_args :: json_obj
  tel_permission_tier :: string
  tel_edited_files :: "string list"
  tel_test_result :: string

record session_state =
  ss_session_id :: string
  ss_run_id :: string
  ss_log :: "event_log option"
  ss_observations :: "string list"
  ss_transaction :: "transaction option"
  ss_telemetry :: "telemetry_event list option"
  ss_tool_batching :: "bool option"
  ss_turn :: int
  ss_batch_turn :: int
  ss_last_search_paths :: "string set"
  ss_pending_search_paths :: "string set"
  ss_gold_files :: "string set"
  ss_subagent_spawns :: int

definition require_log :: "session_state \<Rightarrow> event_log py_result" where
  "require_log s = (case ss_log s of
     None \<Rightarrow> Inl (Exn ValueError ''SessionState.log must be initialized before session execution'')
   | Some elog \<Rightarrow> Inr elog)"

text \<open>\<open>self.log.append(...)\<close> on the session's own log (\<open>assert self.log is not None\<close>).\<close>

definition session_append ::
  "string \<Rightarrow> string \<Rightarrow> json_obj \<Rightarrow> string \<Rightarrow> string \<Rightarrow> session_state \<Rightarrow> trace_event py_result \<times> session_state" where
  "session_append actor kind content tool_name tool_call_id s =
     (case ss_log s of
        None \<Rightarrow> (Inl (Exn (OtherError ''AssertionError'') []), s)
      | Some elog \<Rightarrow>
         (case event_log_append actor kind content tool_name tool_call_id [] elog of
            (r, elog') \<Rightarrow> (r, s\<lparr>ss_log := Some elog'\<rparr>)))"

definition add_read :: "string \<Rightarrow> session_state \<Rightarrow> session_state" where
  "add_read p s = s\<lparr>ss_transaction := map_option (txn_add_read p) (ss_transaction s)\<rparr>"

definition add_write :: "string \<Rightarrow> session_state \<Rightarrow> session_state" where
  "add_write p s = s\<lparr>ss_transaction := map_option (txn_add_write p) (ss_transaction s)\<rparr>"

definition json_opt_int :: "int option \<Rightarrow> json" where
  "json_opt_int i = (case i of None \<Rightarrow> JNull | Some n \<Rightarrow> JInt n)"

definition record_file_read ::
  "string \<Rightarrow> int option \<Rightarrow> int option \<Rightarrow> string \<Rightarrow> int \<Rightarrow> session_state \<Rightarrow> session_state" where
  "record_file_read path start_line end_line surfaced_by bytes_read s =
     (if ss_log s = None then s
      else snd (session_append ''coder'' ''file_read''
             [(''path'', JStr path), (''turn'', JInt (ss_batch_turn s)),
              (''start_line'', json_opt_int start_line), (''end_line'', json_opt_int end_line),
              (''surfaced_by'', JStr surfaced_by), (''bytes_read'', JInt bytes_read)] [] [] s))"

definition declare_gold_files :: "string list \<Rightarrow> session_state \<Rightarrow> session_state" where
  "declare_gold_files paths s = s\<lparr>ss_gold_files := set paths\<rparr>"

definition clear_gold_files :: "session_state \<Rightarrow> session_state" where
  "clear_gold_files s = s\<lparr>ss_gold_files := {}\<rparr>"

definition add_search_result_paths :: "string list \<Rightarrow> session_state \<Rightarrow> session_state" where
  "add_search_result_paths paths s =
     s\<lparr>ss_pending_search_paths := ss_pending_search_paths s \<union> set paths\<rparr>"

definition commit_search_paths :: "session_state \<Rightarrow> session_state" where
  "commit_search_paths s =
     s\<lparr>ss_last_search_paths := ss_last_search_paths s \<union> ss_pending_search_paths s,
       ss_pending_search_paths := {}\<rparr>"

definition write_set :: "session_state \<Rightarrow> string set" where
  "write_set s = (case ss_transaction s of None \<Rightarrow> {} | Some t \<Rightarrow> txn_write_set t)"

definition increment_subagent_spawns :: "session_state \<Rightarrow> int \<times> session_state" where
  "increment_subagent_spawns s =
     (ss_subagent_spawns s + 1, s\<lparr>ss_subagent_spawns := ss_subagent_spawns s + 1\<rparr>)"

definition try_reserve_subagent_spawn :: "int \<Rightarrow> session_state \<Rightarrow> bool \<times> session_state" where
  "try_reserve_subagent_spawn max_spawns s =
     (if ss_subagent_spawns s \<ge> max_spawns then (False, s)
      else (True, s\<lparr>ss_subagent_spawns := ss_subagent_spawns s + 1\<rparr>))"

definition record_tool_call :: "tool_call \<Rightarrow> session_state \<Rightarrow> trace_event py_result \<times> session_state" where
  "record_tool_call call s =
     (case ss_log s of
        None \<Rightarrow> (Inl (Exn (OtherError ''AssertionError'') []), s)
      | Some _ \<Rightarrow>
         (let s1 = s\<lparr>ss_turn := ss_turn s + 1\<rparr>;
              s2 = (if tc_name call = ''fs_read_file''
                    then (case dict_get (tc_params call) ''path'' of Some (JStr p) \<Rightarrow> add_read p s1 | _ \<Rightarrow> s1)
                    else if tc_name call \<in> {''fs_write_file'', ''fs_edit_file''}
                    then (case dict_get (tc_params call) ''path'' of Some (JStr p) \<Rightarrow> add_write p s1 | _ \<Rightarrow> s1)
                    else s1)
          in session_append ''coder'' ''tool_call'' [(''params'', JObj (tc_params call))]
               (tc_name call) (tc_call_id call) s2))"

definition error_json :: "tool_error \<Rightarrow> json" where
  "error_json e = JObj [(''code'', JStr (te_code e)), (''message'', JStr (te_message e)),
                        (''retryable'', JBool (te_retryable e))]"

definition result_content :: "tool_result \<Rightarrow> json_obj" where
  "result_content r =
     [(''summary'', JStr (tr_summary r)), (''artifacts'', JList (map JStr (tr_artifacts r))),
      (''ok'', JBool (tr_error r = None))] @
     (case tr_result r of None \<Rightarrow> [] | Some v \<Rightarrow> [(''result'', v)]) @
     (case tr_error r of None \<Rightarrow> [] | Some e \<Rightarrow> [(''error'', error_json e)])"

definition telemetry_args :: "json_obj \<Rightarrow> json_obj" where
  "telemetry_args params =
     map (\<lambda>(k, v). (k, case v of JStr t \<Rightarrow> if length t > 500 then JStr (take 500 t @ ''...[truncated]'') else v
                        | _ \<Rightarrow> v)) params"

text \<open>The telemetry block; an error of its log row is swallowed.\<close>

definition record_telemetry :: "tool_call \<Rightarrow> tool_result \<Rightarrow> session_state \<Rightarrow> session_state" where
  "record_telemetry call r s =
     (case ss_telemetry s of
        None \<Rightarrow> s
      | Some evs \<Rightarrow>
         (let ev = \<lparr>tel_run_id = ss_run_id s, tel_turn = ss_turn s, tel_tool_name = tc_name call,
                    tel_tool_args = telemetry_args (tc_params call), tel_permission_tier = ''unknown'',
                    tel_edited_files = (case dict_get (tc_params call) ''path'' of Some (JStr p) \<Rightarrow> [p] | _ \<Rightarrow> []),
                    tel_test_result = (if tr_error r = None then ''PASS'' else ''FAIL'')\<rparr>
          in snd (session_append ''telemetry'' ''telemetry''
               [(''tool_name'', JStr (tc_name call)), (''ok'', JBool (tr_error r = None)),
                (''artifact_id'', JStr []), (''turn'', JInt (ss_turn s))]
               (tc_name call) (tc_call_id call) (s\<lparr>ss_telemetry := Some (evs @ [ev])\<rparr>))))"

definition record_tool_result ::
  "tool_call \<Rightarrow> tool_result \<Rightarrow> session_state \<Rightarrow> trace_event py_result \<times> session_state" where
  "record_tool_result call r s =
     (case ss_log s of
        None \<Rightarrow> (Inl (Exn (OtherError ''AssertionError'') []), s)
      | Some _ \<Rightarrow>
         session_append ''tool'' ''tool_result'' (result_content r) (tc_name call) (tc_call_id call)
           (record_telemetry call r s))"

section \<open>Event identifiers\<close>

definition dec_val :: "string \<Rightarrow> nat" where
  "dec_val s = foldl (\<lambda>v c. 10 * v + digit_val c) 0 s"

lemma digit_val_digit: "d < 10 \<Longrightarrow> digit_val (char_of (48 + d)) = d"
  by (simp add: digit_val_def)

lemma dec_val_nat_str: "dec_val (nat_str n) = n"
proof (induction n rule: nat_str.induct)
  case (1 n)
  show ?case
  proof (cases "n < 10")
    case True
    then show ?thesis by (subst nat_str.simps) (simp add: dec_val_def digit_val_digit)
  next
    case False
    have d: "digit_val (char_of (48 + n mod 10)) = n mod 10" by (rule digit_val_digit) simp
    have "dec_val (nat_str n) = 10 * dec_val (nat_str (n div 10)) + n mod 10"
      using False d by (subst nat_str.simps) (simp add: dec_val_def)
    also have "\<dots> = n" using 1 [OF False] by simp
    finally show ?thesis .
  qed
qed

lemma dec_val_zeros: "dec_val (replicate k (CHR ''0'') @ s) = dec_val s"
proof (induction k)
  case (Suc k)
  have "digit_val (CHR ''0'') = 0" by (simp add: digit_val_def)
  with Suc show ?case by (simp add: dec_val_def)
qed simp

lemma fmt06_inject: "fmt06 m = fmt06 n \<longleftrightarrow> m = n"
  by (metis dec_val_nat_str dec_val_zeros fmt06_def)

text \<open>
  The number an event of session \<open>sid\<close> gets after the rows \<open>rows\<close>, and that every row of a
  table carries the number of its position.
\<close>

definition next_number :: "string \<Rightarrow> trace_event list \<Rightarrow> nat" where
  "next_number sid rows =
     Suc (if sid = [] then length rows else length (filter (\<lambda>r. ev_session_id r = sid) rows))"

definition db_seq_ok :: "session_db \<Rightarrow> bool" where
  "db_seq_ok db \<longleftrightarrow>
     (\<forall>i < length (sdb_rows db). let r = sdb_rows db ! i in
        ev_event_id r = ''ev-'' @ fmt06 (next_number (ev_session_id r) (take i (sdb_rows db)))) \<and>
     (sdb_legacy_schema db \<longrightarrow> (\<forall>r \<in> set (sdb_rows db). ev_session_id r = []))"

lemma next_number_mono:
  assumes "i < j" "j \<le> length rows" "ev_session_id (rows ! i) = sid"
  shows "next_number sid (take i rows) < next_number sid (take j rows)"
proof -
  obtain k where k: "j = i + Suc k" using assms(1) less_imp_Suc_add by auto
  have "take j rows = take i rows @ take (Suc k) (drop i rows)" unfolding k by (rule take_add)
  also have "drop i rows = rows ! i # drop (Suc i) rows" using assms k by (simp add: Cons_nth_drop_Suc)
  finally have "take j rows = take i rows @ rows ! i # take k (drop (Suc i) rows)" by simp
  with assms(3) show ?thesis by (simp add: next_number_def)
qed

lemma next_event_id_number:
  "db_seq_ok db \<Longrightarrow> sid \<noteq> [] \<Longrightarrow> \<not> sdb_legacy_schema db \<Longrightarrow>
     next_event_id sid db = ''ev-'' @ fmt06 (next_number sid (sdb_rows db))"
  "sid = [] \<Longrightarrow> next_event_id sid db = ''ev-'' @ fmt06 (next_number sid (sdb_rows db))"
  by (simp_all add: next_event_id_def next_number_def)

lemma next_id_fresh:
  assumes "db_seq_ok db" "\<not> sdb_legacy_schema db" "r \<in> set (sdb_rows db)" "ev_session_id r = sid"
  shows "ev_event_id r \<noteq> next_event_id sid db"
proof -
  from assms(3) obtain i where i: "i < length (sdb_rows db)" "r = sdb_rows db ! i" by (metis in_set_conv_nth)
  have "ev_event_id r = ''ev-'' @ fmt06 (next_number sid (take i (sdb_rows db)))"
    using assms(1,4) i by (auto simp: db_seq_ok_def Let_def)
  moreover have "next_event_id sid db = ''ev-'' @ fmt06 (next_number sid (sdb_rows db))"
    using next_event_id_number assms(1,2) by (cases "sid = []") auto
  moreover have "next_number sid (take i (sdb_rows db)) < next_number sid (sdb_rows db)"
    using next_number_mono [of i "length (sdb_rows db)" "sdb_rows db" sid] i assms(4) by simp
  ultimately show ?thesis by (simp add: fmt06_inject)
qed

definition fair :: "db_weather \<Rightarrow> bool" where
  "fair w \<longleftrightarrow> bw_busy w < WRITE_RETRY_ATTEMPTS \<and> bw_insert_error w = None"

text \<open>One write of the current schema: it succeeds exactly when the row belongs to the session and
  the weather is fair, and then appends the row under a fresh identifier.\<close>

lemma append_row_cases:
  assumes ok: "db_seq_ok db" and cur: "\<not> sdb_legacy_schema db"
    and run: "append_event_row_allocating row db = (res, db')"
  defines "stored \<equiv> row\<lparr>ev_event_id := next_event_id (ev_session_id row) db\<rparr>"
    and "good \<equiv> (sdb_session_id db = [] \<or> ev_session_id row = sdb_session_id db) \<and>
       (sdb_env db = [] \<or> fair (hd (sdb_env db)))"
  shows "db_seq_ok db' \<and> \<not> sdb_legacy_schema db' \<and> sdb_session_id db' = sdb_session_id db \<and>
    (if good then res = Inr (next_event_id (ev_session_id row) db) \<and> sdb_rows db' = sdb_rows db @ [stored]
     else (\<exists>e. res = Inl e) \<and> sdb_rows db' = sdb_rows db)"
proof -
  have env: "next_event_id sid (db\<lparr>sdb_env := e\<rparr>) = next_event_id sid db" for sid e
    by (simp add: next_event_id_def)
  have seq_env: "db_seq_ok (db\<lparr>sdb_env := e\<rparr>)" for e using ok by (simp add: db_seq_ok_def)
  have seq: "db_seq_ok (db\<lparr>sdb_env := e, sdb_rows := sdb_rows db @ [stored]\<rparr>)" for e
  proof -
    have "next_event_id (ev_session_id row) db = ''ev-'' @ fmt06 (next_number (ev_session_id row) (sdb_rows db))"
      using next_event_id_number ok cur by (cases "ev_session_id row = []") auto
    then show ?thesis using ok cur
      by (auto simp: db_seq_ok_def stored_def nth_append less_Suc_eq Let_def)
  qed
  have fresh: "\<not> (\<exists>r \<in> set (sdb_rows db). ev_session_id r = ev_session_id row \<and>
      ev_event_id r = next_event_id (ev_session_id row) db)"
    using next_id_fresh [OF ok cur] by blast
  have ins: "insert_event_row row (ev_session_id row) (next_event_id (ev_session_id row) db) (db\<lparr>sdb_env := e\<rparr>) =
      Inr (db\<lparr>sdb_env := e, sdb_rows := sdb_rows db @ [stored]\<rparr>)" for e
    using fresh cur by (simp add: insert_event_row_def stored_def)
  show ?thesis
  proof (cases good)
    case True
    then have "append_event_row_allocating row db =
        (Inr (next_event_id (ev_session_id row) db), db\<lparr>sdb_env := drop 1 (sdb_env db), sdb_rows := sdb_rows db @ [stored]\<rparr>)"
      by (cases "sdb_env db")
        (auto simp: append_event_row_allocating_def good_def fair_def Let_def env ins WRITE_RETRY_ATTEMPTS_def)
    with run True seq cur show ?thesis by auto
  next
    case False
    then have "\<exists>e w. append_event_row_allocating row db = (Inl e, db\<lparr>sdb_env := w\<rparr>)"
      by (cases "sdb_env db")
        (auto simp: append_event_row_allocating_def good_def fair_def Let_def env ins not_less
           split: option.splits, (metis session_db.surjective session_db.update_convs(4))+)
    with run False seq_env cur show ?thesis by auto
  qed
qed

text \<open>Any number of writers on one database, in the order their transactions commit.\<close>

fun append_rows :: "trace_event list \<Rightarrow> session_db \<Rightarrow> string py_result list \<times> session_db" where
  "append_rows [] db = ([], db)"
| "append_rows (row # rows) db =
     (case append_event_row_allocating row db of (r, db1) \<Rightarrow>
       (case append_rows rows db1 of (rs, db2) \<Rightarrow> (r # rs, db2)))"

definition committed :: "trace_event list \<Rightarrow> string py_result list \<Rightarrow> trace_event list" where
  "committed rows rs = [row\<lparr>ev_event_id := i\<rparr>. (row, Inr i) \<leftarrow> zip rows rs]"

lemma append_rows_spec:
  "db_seq_ok db \<Longrightarrow> \<not> sdb_legacy_schema db \<Longrightarrow> append_rows rows db = (rs, db') \<Longrightarrow>
     db_seq_ok db' \<and> \<not> sdb_legacy_schema db' \<and> sdb_session_id db' = sdb_session_id db \<and> length rs = length rows \<and>
     sdb_rows db' = sdb_rows db @ committed rows rs"
proof (induction rows arbitrary: db rs)
  case Nil
  then show ?case by (auto simp: committed_def)
next
  case (Cons row rows)
  obtain r db1 where one: "append_event_row_allocating row db = (r, db1)" by fastforce
  obtain rs' where rest: "append_rows rows db1 = (rs', db')" "rs = r # rs'"
    using Cons.prems(3) by (auto simp: one split: prod.splits)
  note step = append_row_cases [OF Cons.prems(1,2) one]
  from Cons.IH [OF _ _ rest(1)] step rest(2) show ?case
    by (auto simp: committed_def split: if_splits)
qed

lemma append_rows_all:
  "db_seq_ok db \<Longrightarrow> \<not> sdb_legacy_schema db \<Longrightarrow> append_rows rows db = (rs, db') \<Longrightarrow>
     \<forall>w \<in> set (sdb_env db). fair w \<Longrightarrow>
     \<forall>row \<in> set rows. sdb_session_id db = [] \<or> ev_session_id row = sdb_session_id db \<Longrightarrow>
     \<forall>r \<in> set rs. \<exists>i. r = Inr i"
proof (induction rows arbitrary: db rs)
  case Nil
  then show ?case by auto
next
  case (Cons row rows)
  obtain r db1 where one: "append_event_row_allocating row db = (r, db1)" by fastforce
  obtain rs' where rest: "append_rows rows db1 = (rs', db')" "rs = r # rs'"
    using Cons.prems(3) by (auto simp: one split: prod.splits)
  have env: "set (sdb_env db1) \<subseteq> set (sdb_env db)"
    using one by (auto simp: append_event_row_allocating_def insert_event_row_def Let_def
        split: if_splits option.splits sum.splits dest: in_set_dropD)
  have good: "sdb_env db = [] \<or> fair (hd (sdb_env db))" using Cons.prems(4) by (cases "sdb_env db") auto
  note step = append_row_cases [OF Cons.prems(1,2) one]
  have "\<forall>r \<in> set rs'. \<exists>i. r = Inr i"
    using Cons.IH [OF _ _ rest(1)] step env Cons.prems by (auto split: if_splits)
  with step good Cons.prems(5) rest(2) show ?case by auto
qed

lemma seq_ok_distinct:
  assumes "db_seq_ok db"
  shows "distinct (map (\<lambda>r. (ev_session_id r, ev_event_id r)) (sdb_rows db))"
proof -
  let ?rows = "sdb_rows db"
  have "(ev_session_id (?rows ! i), ev_event_id (?rows ! i)) \<noteq> (ev_session_id (?rows ! j), ev_event_id (?rows ! j))"
    if ij: "i < j" "j < length ?rows" for i j
  proof
    assume eq: "(ev_session_id (?rows ! i), ev_event_id (?rows ! i)) = (ev_session_id (?rows ! j), ev_event_id (?rows ! j))"
    have num: "ev_event_id (?rows ! k) = ''ev-'' @ fmt06 (next_number (ev_session_id (?rows ! k)) (take k ?rows))"
      if "k < length ?rows" for k using assms that by (auto simp: db_seq_ok_def Let_def)
    have "ev_event_id (?rows ! i) = ev_event_id (?rows ! j)" using eq by simp
    note trans [OF trans [OF num [symmetric] this] num]
    then have "next_number (ev_session_id (?rows ! i)) (take i ?rows) = next_number (ev_session_id (?rows ! j)) (take j ?rows)"
      using ij by (simp add: fmt06_inject)
    with next_number_mono [of i j ?rows] ij eq show False by simp
  qed
  then show ?thesis unfolding distinct_conv_nth by (simp, metis linorder_neqE_nat)
qed

section \<open>Appending through a log\<close>

type_synonym log_request = "string \<times> string \<times> json_obj \<times> string \<times> string \<times> string"

definition log_one :: "log_request \<Rightarrow> event_log \<Rightarrow> event_log" where
  "log_one req elog = (case req of (actor, kind, content, tool_name, call_id, parent) \<Rightarrow>
     snd (event_log_append actor kind content tool_name call_id parent elog))"

definition log_db_ok :: "event_log \<Rightarrow> bool" where
  "log_db_ok elog \<longleftrightarrow> db_seq_ok (el_db elog) \<and> \<not> sdb_legacy_schema (el_db elog)"

text \<open>One append: a row with the redacted content and a counted kind, or nothing at all.\<close>

lemma event_log_append_cases:
  assumes "log_db_ok elog"
    and "event_log_append actor kind content tool_name call_id parent elog = (res, elog')"
  shows "log_db_ok elog' \<and>
    (case res of
       Inl e \<Rightarrow> sdb_rows (el_db elog') = sdb_rows (el_db elog) \<and> el_kind_counts elog' = el_kind_counts elog
     | Inr ev \<Rightarrow> sdb_rows (el_db elog') = sdb_rows (el_db elog) @ [ev] \<and> ev_kind ev = kind \<and>
         ev_actor ev = actor \<and> ev_tool_call_id ev = call_id \<and>
         ev_content ev = redact_content (el_redactor elog) content \<and>
         el_kind_counts elog' =
           AList.update kind (dict_get_default (el_kind_counts elog) kind 0 + 1) (el_kind_counts elog)) \<and>
    el_redactor elog' = el_redactor elog \<and> el_session_id elog' = el_session_id elog \<and> el_run_id elog' = el_run_id elog"
proof -
  let ?row = "\<lparr>ev_event_id = [], ev_ts = el_clock elog, ev_run_id = el_run_id elog, ev_actor = actor,
     ev_kind = kind, ev_content = redact_content (el_redactor elog) content, ev_harness_id = HARNESS_ID,
     ev_tool_name = tool_name, ev_tool_call_id = call_id, ev_parent_event_id = parent,
     ev_session_id = el_session_id elog\<rparr>"
  obtain r db where run: "append_event_row_allocating ?row (el_db elog) = (r, db)" by fastforce
  from assms(1) have ok: "db_seq_ok (el_db elog)" "\<not> sdb_legacy_schema (el_db elog)" by (auto simp: log_db_ok_def)
  from append_row_cases [OF ok run] assms(2) run show ?thesis
    by (auto simp: event_log_append_def log_db_ok_def Let_def split: sum.splits if_splits)
qed

lemma log_run_spec:
  "log_db_ok elog \<Longrightarrow> elog' = fold log_one reqs elog \<Longrightarrow>
     log_db_ok elog' \<and> (\<exists>new. sdb_rows (el_db elog') = sdb_rows (el_db elog) @ new \<and>
       (\<forall>k. dict_get_default (el_kind_counts elog') k 0 =
          dict_get_default (el_kind_counts elog) k 0 + length (filter (\<lambda>r. ev_kind r = k) new)))"
proof (induction reqs arbitrary: elog)
  case Nil
  then show ?case by auto
next
  case (Cons req reqs)
  obtain a k c t i p where req: "req = (a, k, c, t, i, p)" by (metis surj_pair)
  obtain res elog1 where one: "event_log_append a k c t i p elog = (res, elog1)" by fastforce
  then have l1: "log_one req elog = elog1" by (simp add: log_one_def req)
  from event_log_append_cases [OF Cons.prems(1) one]
  have "log_db_ok elog1 \<and> (\<exists>new. sdb_rows (el_db elog1) = sdb_rows (el_db elog) @ new \<and>
       (\<forall>k. dict_get_default (el_kind_counts elog1) k 0 =
          dict_get_default (el_kind_counts elog) k 0 + length (filter (\<lambda>r. ev_kind r = k) new)))"
    by (cases res) (auto simp: dict_get_default_def map_of_update_other intro!: exI [of _ "[]"] split: if_splits)
  moreover from Cons.prems(2) l1 have "elog' = fold log_one reqs elog1" by simp
  ultimately show ?case using Cons.IH [of elog1] by (auto simp: add.assoc)
qed

section \<open>Properties\<close>


definition demo_row :: trace_event where
  "demo_row = \<lparr>ev_event_id = [], ev_ts = ''t'', ev_run_id = ''r'', ev_actor = ''coder'', ev_kind = ''tool_call'',
     ev_content = [], ev_harness_id = HARNESS_ID, ev_tool_name = [], ev_tool_call_id = [],
     ev_parent_event_id = [], ev_session_id = ''s''\<rparr>"

definition demo_db :: session_db where
  "demo_db = \<lparr>sdb_session_id = ''s'', sdb_legacy_schema = False, sdb_rows = [],
     sdb_env = [\<lparr>bw_busy = 2, bw_busy_msg = ''locked'', bw_insert_error = None\<rparr>]\<rparr>"


text \<open>Counters follow the commits: whatever is appended through a freshly constructed log, and
  whatever writes fail on the way, \<open>kind_counts\<close> of every kind is the number of rows of that kind
  this log added to the database.\<close>

theorem kind_counts_exact:
  assumes "event_log_init run_id redactor db session_id clock = Inr elog"
    and "sdb_rows db = []" and "\<not> sdb_legacy_schema db"
  shows "dict_get_default (el_kind_counts (fold log_one reqs elog)) k 0 =
     length (filter (\<lambda>r. ev_kind r = k) (sdb_rows (el_db (fold log_one reqs elog))))"
proof -
  have e: "el_db elog = db" "el_kind_counts elog = []"
    using assms(1) by (auto simp: event_log_init_def Let_def split: if_splits)
  with assms(2,3) have "log_db_ok elog" by (simp add: log_db_ok_def db_seq_ok_def)
  from log_run_spec [OF this refl, of reqs] e assms(2) show ?thesis by (auto simp: dict_get_default_def)
qed

theorem kind_counts_exact_witness:
  "\<exists>elog. event_log_init ''r'' None demo_db [] ''t'' = Inr elog \<and>
     dict_get_default (el_kind_counts (fold log_one [(''a'', ''k'', [], [], [], [])] elog)) ''k'' 0 =
       length (filter (\<lambda>r. ev_kind r = ''k'') (sdb_rows (el_db (fold log_one [(''a'', ''k'', [], [], [], [])] elog))))"
proof -
  obtain elog where i: "event_log_init ''r'' None demo_db [] ''t'' = Inr elog"
    by (simp add: event_log_init_def demo_db_def Let_def)
  have "sdb_rows demo_db = []" "\<not> sdb_legacy_schema demo_db" by (simp_all add: demo_db_def)
  with kind_counts_exact [OF i] i show ?thesis by blast
qed

fun reserve_all :: "nat \<Rightarrow> int \<Rightarrow> session_state \<Rightarrow> nat \<times> session_state" where
  "reserve_all 0 limit s = (0, s)"
| "reserve_all (Suc n) limit s =
     (case try_reserve_subagent_spawn limit s of (b, s1) \<Rightarrow>
       (case reserve_all n limit s1 of (k, s2) \<Rightarrow> ((if b then 1 else 0) + k, s2)))"

text \<open>Subagent admission cannot exceed its limit: of any \<open>n\<close> requests, in whatever order the lock
  serialises them, exactly as many are admitted as slots were free (at most \<open>n\<close>), and the counter
  ends at the number of admitted spawns.\<close>

theorem subagent_admission:
  "reserve_all n limit s = (k, s') \<Longrightarrow>
     k = min n (nat (limit - ss_subagent_spawns s)) \<and>
     ss_subagent_spawns s' = ss_subagent_spawns s + int k \<and>
     s' = s\<lparr>ss_subagent_spawns := ss_subagent_spawns s + int k\<rparr>"
proof (induction n arbitrary: s k)
  case 0
  then show ?case by auto
next
  case (Suc n)
  show ?case
  proof (cases "ss_subagent_spawns s \<ge> limit")
    case True
    with Suc.prems have "reserve_all n limit s = (k, s')"
      by (auto simp: try_reserve_subagent_spawn_def split: prod.splits)
    from Suc.IH [OF this] True show ?thesis by simp
  next
    case False
    let ?s = "s\<lparr>ss_subagent_spawns := ss_subagent_spawns s + 1\<rparr>"
    obtain k1 where r: "reserve_all n limit ?s = (k1, s')" "k = Suc k1"
      using Suc.prems False by (auto simp: try_reserve_subagent_spawn_def split: prod.splits)
    from Suc.IH [OF r(1)] r(2) False show ?thesis by (auto simp: min_def nat_diff_distrib' split: if_splits)
  qed
qed

definition demo_session :: session_state where
  "demo_session = \<lparr>ss_session_id = ''s'', ss_run_id = ''r'', ss_log = None, ss_observations = [],
     ss_transaction = None, ss_telemetry = None, ss_tool_batching = None, ss_turn = 0, ss_batch_turn = 0,
     ss_last_search_paths = {}, ss_pending_search_paths = {}, ss_gold_files = {}, ss_subagent_spawns = 1\<rparr>"

theorem subagent_admission_witness:
  "\<exists>s'. reserve_all 12 3 demo_session = (2, s') \<and> ss_subagent_spawns s' = 3"
proof -
  obtain k s' where run: "reserve_all 12 3 demo_session = (k, s')" by fastforce
  from subagent_admission [OF run] run show ?thesis by (simp add: demo_session_def)
qed

end
