(* ===== verification/Cost_Guardian.thy ===== *)
theory Cost_Guardian
  imports Session_State
begin

text \<open>
  The cost guardian of \<open>fa/observability/cost_guardian.py\<close>: cost samples, the rolling total, the
  artifact extractor and the budget gate. Money is an exact rational; a sample is finite because
  its constructor refuses NaN and the infinities.
\<close>

definition COST_ARTIFACT_PREFIX :: string where
  "COST_ARTIFACT_PREFIX = ''cost=''"

record cost_observation =
  co_tokens_in :: int
  co_tokens_out :: int
  co_usd :: rat

definition cost_observation_init :: "int \<Rightarrow> int \<Rightarrow> pyfloat \<Rightarrow> cost_observation py_result" where
  "cost_observation_init tokens_in tokens_out usd =
     (if tokens_in < 0 then Inl (Exn ValueError ''tokens_in must be >= 0'')
      else if tokens_out < 0 then Inl (Exn ValueError ''tokens_out must be >= 0'')
      else case usd of
        Fin q \<Rightarrow> (if q < 0 then Inl (Exn ValueError ''usd must be >= 0'')
                  else Inr \<lparr>co_tokens_in = tokens_in, co_tokens_out = tokens_out, co_usd = q\<rparr>)
      | _ \<Rightarrow> Inl (Exn ValueError ''usd must be a finite number (not NaN/Inf)''))"

record cost_rollup =
  cr_tokens_in :: int
  cr_tokens_out :: int
  cr_usd :: rat
  cr_samples :: nat

definition rollup_empty :: cost_rollup where
  "rollup_empty = \<lparr>cr_tokens_in = 0, cr_tokens_out = 0, cr_usd = 0, cr_samples = 0\<rparr>"

definition rollup_add :: "cost_observation \<Rightarrow> cost_rollup \<Rightarrow> cost_rollup" where
  "rollup_add ob r =
     \<lparr>cr_tokens_in = cr_tokens_in r + co_tokens_in ob, cr_tokens_out = cr_tokens_out r + co_tokens_out ob,
      cr_usd = cr_usd r + co_usd ob, cr_samples = cr_samples r + 1\<rparr>"

section \<open>The extractor\<close>

fun cost_fields :: "string list \<Rightarrow> (string, string) pydict \<Rightarrow> (string, string) pydict" where
  "cost_fields [] fds = fds"
| "cost_fields (pair # pairs) fds =
     (if CHR ''='' \<in> set pair
      then (case py_partition1 (CHR ''='') pair of (key, val) \<Rightarrow>
              cost_fields pairs (AList.update (py_strip key) (py_strip val) fds))
      else cost_fields pairs fds)"

definition parse_cost_artifact :: "string \<Rightarrow> cost_observation option" where
  "parse_cost_artifact raw =
     (let fds = cost_fields (py_split1 (CHR '','') (drop (length COST_ARTIFACT_PREFIX) raw)) []
      in case (py_int (dict_get_default fds ''tokens_in'' ''0''),
               py_int (dict_get_default fds ''tokens_out'' ''0''),
               py_float (dict_get_default fds ''usd'' ''0'')) of
           (Some ti, Some to, Some usd) \<Rightarrow>
             (case cost_observation_init ti to usd of Inr ob \<Rightarrow> Some ob | Inl _ \<Rightarrow> None)
         | _ \<Rightarrow> None)"

fun extract_costs :: "string list \<Rightarrow> cost_observation list" where
  "extract_costs [] = []"
| "extract_costs (raw # rest) =
     (if py_startswith raw COST_ARTIFACT_PREFIX
      then (case parse_cost_artifact raw of
              Some ob \<Rightarrow> ob # extract_costs rest
            | None \<Rightarrow> extract_costs rest)
      else extract_costs rest)"

definition default_cost_extractor :: "tool_result \<Rightarrow> cost_observation list" where
  "default_cost_extractor r = extract_costs (tr_artifacts r)"

section \<open>The guardian\<close>

record cost_guardian =
  cg_budget_usd :: "rat option"
  cg_extractor :: "tool_result \<Rightarrow> cost_observation list"
  cg_event_log :: "event_log option"
  cg_rollup :: cost_rollup

definition cost_guardian_init ::
  "pyfloat option \<Rightarrow> (tool_result \<Rightarrow> cost_observation list) option \<Rightarrow> event_log option \<Rightarrow> cost_guardian py_result" where
  "cost_guardian_init budget extractor elog =
     (let build = (\<lambda>b. Inr \<lparr>cg_budget_usd = b,
            cg_extractor = (case extractor of None \<Rightarrow> default_cost_extractor | Some x \<Rightarrow> x),
            cg_event_log = elog, cg_rollup = rollup_empty\<rparr>)
      in case budget of
           None \<Rightarrow> build None
         | Some (Fin b) \<Rightarrow> (if b < 0 then Inl (Exn ValueError ''budget_usd must be None or >= 0 (0 = observe-only)'')
                            else build (Some b))
         | Some _ \<Rightarrow> Inl (Exn ValueError ''budget_usd must be a finite number (not NaN/Inf)''))"

definition cost_gate :: "hook_payload \<Rightarrow> cost_guardian \<Rightarrow> decision py_result" where
  "cost_gate payload g =
     (case cg_budget_usd g of
        None \<Rightarrow> Inr decision_allow
      | Some budget \<Rightarrow>
         (if budget \<le> 0 then Inr decision_allow
          else if cr_usd (cg_rollup g) > budget
          then (let tool_name = (case hp_tool_call payload of None \<Rightarrow> [] | Some c \<Rightarrow> tc_name c)
                in decision_deny (''CostGuardian: session usd '' @ fmt_fixed 6 (cr_usd (cg_rollup g)) @
                     '' exceeds budget '' @ fmt_fixed 6 budget @ '' (samples='' @
                     nat_str (cr_samples (cg_rollup g)) @ ''; next call to '' @ py_repr tool_name @ '' denied)''))
          else Inr decision_allow))"

text \<open>The loop over the samples; \<open>Some e\<close> is an exception of the event log.\<close>

fun cost_observe_loop ::
  "tool_call option \<Rightarrow> cost_observation list \<Rightarrow> cost_guardian \<Rightarrow> py_exc option \<times> cost_guardian" where
  "cost_observe_loop call [] g = (None, g)"
| "cost_observe_loop call (ob # obs) g =
     (let g1 = g\<lparr>cg_rollup := rollup_add ob (cg_rollup g)\<rparr> in
      case cg_event_log g1 of
        None \<Rightarrow> cost_observe_loop call obs g1
      | Some elog \<Rightarrow>
         (case event_log_append ''hook'' ''cost_observation''
            [(''tokens_in'', JInt (co_tokens_in ob)), (''tokens_out'', JInt (co_tokens_out ob)),
             (''usd'', JFloat (co_usd ob)),
             (''rollup_tokens_in'', JInt (cr_tokens_in (cg_rollup g1))),
             (''rollup_tokens_out'', JInt (cr_tokens_out (cg_rollup g1))),
             (''rollup_usd'', JFloat (cr_usd (cg_rollup g1))),
             (''rollup_samples'', JInt (int (cr_samples (cg_rollup g1))))]
            (case call of None \<Rightarrow> [] | Some c \<Rightarrow> tc_name c)
            (case call of None \<Rightarrow> [] | Some c \<Rightarrow> tc_call_id c) [] elog of
            (Inl e, elog') \<Rightarrow> (Some e, g1\<lparr>cg_event_log := Some elog'\<rparr>)
          | (Inr _, elog') \<Rightarrow> cost_observe_loop call obs (g1\<lparr>cg_event_log := Some elog'\<rparr>)))"

definition cost_observe :: "hook_payload \<Rightarrow> cost_guardian \<Rightarrow> py_exc option \<times> cost_guardian" where
  "cost_observe payload g =
     (case hp_tool_result payload of
        None \<Rightarrow> (None, g)
      | Some r \<Rightarrow> cost_observe_loop (hp_tool_call payload) (cg_extractor g r) g)"

definition cost_guardian_handle :: "cost_guardian guard_handle" where
  "cost_guardian_handle point payload g =
     (if point = BEFORE_TOOL_EXEC then (cost_gate payload g, g)
      else if point = AFTER_TOOL_EXEC
      then (case cost_observe payload g of
              (None, g') \<Rightarrow> (Inr decision_allow, g')
            | (Some e, g') \<Rightarrow> (Inl e, g'))
      else (Inr decision_allow, g))"

section \<open>Invariant\<close>

text \<open>The log accepts the next writes: current format, matching session, fair weather.\<close>

definition log_healthy :: "event_log \<Rightarrow> bool" where
  "log_healthy elog \<longleftrightarrow> log_db_ok elog \<and>
     (sdb_session_id (el_db elog) = [] \<or> el_session_id elog = sdb_session_id (el_db elog)) \<and>
     (\<forall>w \<in> set (sdb_env (el_db elog)). fair w)"

lemma log_healthy_append:
  assumes "log_healthy elog" "event_log_append actor kind content tool_name call_id parent elog = (res, elog')"
  shows "log_healthy elog' \<and> (\<exists>ev. res = Inr ev \<and> sdb_rows (el_db elog') = sdb_rows (el_db elog) @ [ev] \<and> ev_kind ev = kind)"
proof -
  let ?row = "\<lparr>ev_event_id = [], ev_ts = el_clock elog, ev_run_id = el_run_id elog, ev_actor = actor,
     ev_kind = kind, ev_content = redact_content (el_redactor elog) content, ev_harness_id = HARNESS_ID,
     ev_tool_name = tool_name, ev_tool_call_id = call_id, ev_parent_event_id = parent,
     ev_session_id = el_session_id elog\<rparr>"
  obtain r db where run: "append_event_row_allocating ?row (el_db elog) = (r, db)" by fastforce
  from assms(1) have ok: "db_seq_ok (el_db elog)" "\<not> sdb_legacy_schema (el_db elog)"
    by (auto simp: log_healthy_def log_db_ok_def)
  have good: "(sdb_session_id (el_db elog) = [] \<or> ev_session_id ?row = sdb_session_id (el_db elog)) \<and>
      (sdb_env (el_db elog) = [] \<or> fair (hd (sdb_env (el_db elog))))"
    using assms(1) by (cases "sdb_env (el_db elog)") (auto simp: log_healthy_def)
  have env: "set (sdb_env db) \<subseteq> set (sdb_env (el_db elog))"
    using run by (auto simp: append_event_row_allocating_def insert_event_row_def Let_def
        split: if_splits option.splits sum.splits dest: in_set_dropD)
  from append_row_cases [OF ok run] good obtain i where i: "r = Inr i"
      "sdb_rows db = sdb_rows (el_db elog) @ [?row\<lparr>ev_event_id := i\<rparr>]" "db_seq_ok db" "\<not> sdb_legacy_schema db"
      "sdb_session_id db = sdb_session_id (el_db elog)"
    by auto
  from assms(2) run i(1) have "res = Inr (?row\<lparr>ev_event_id := i\<rparr>)" "el_db elog' = db" "el_session_id elog' = el_session_id elog"
    by (auto simp: event_log_append_def Let_def)
  with i env assms(1) show ?thesis by (auto simp: log_healthy_def log_db_ok_def)
qed

definition cg_wf :: "cost_guardian \<Rightarrow> bool" where
  "cg_wf g \<longleftrightarrow> (\<forall>b. cg_budget_usd g = Some b \<longrightarrow> 0 \<le> b) \<and>
     (\<forall>r. \<forall>ob \<in> set (cg_extractor g r). 0 \<le> co_usd ob) \<and>
     (\<forall>elog. cg_event_log g = Some elog \<longrightarrow> log_healthy elog)"

lemma observation_init_ok:
  "cost_observation_init a b u = Inr ob \<Longrightarrow> 0 \<le> co_tokens_in ob \<and> 0 \<le> co_tokens_out ob \<and> 0 \<le> co_usd ob"
  by (auto simp: cost_observation_init_def split: if_splits pyfloat.splits)

lemma extract_costs_ok:
  "ob \<in> set (extract_costs raws) \<Longrightarrow> 0 \<le> co_tokens_in ob \<and> 0 \<le> co_tokens_out ob \<and> 0 \<le> co_usd ob"
  by (induction raws)
    (auto simp: parse_cost_artifact_def Let_def split: if_splits option.splits sum.splits dest: observation_init_ok)

definition cost_rows :: "cost_guardian \<Rightarrow> nat" where
  "cost_rows g = (case cg_event_log g of None \<Rightarrow> 0
     | Some elog \<Rightarrow> length (filter (\<lambda>r. ev_kind r = ''cost_observation'') (sdb_rows (el_db elog))))"

lemma cost_observe_loop_spec:
  "cg_wf g \<Longrightarrow> cost_observe_loop call obs g = (err, g') \<Longrightarrow>
     err = None \<and> cg_wf g' \<and> cg_rollup g' = fold rollup_add obs (cg_rollup g) \<and>
     cg_budget_usd g' = cg_budget_usd g \<and> cg_extractor g' = cg_extractor g \<and>
     cost_rows g' = cost_rows g + (if cg_event_log g = None then 0 else length obs) \<and>
     (cg_event_log g' = None \<longleftrightarrow> cg_event_log g = None)"
proof (induction obs arbitrary: g)
  case Nil
  then show ?case by auto
next
  case (Cons ob obs)
  let ?g1 = "g\<lparr>cg_rollup := rollup_add ob (cg_rollup g)\<rparr>"
  show ?case
  proof (cases "cg_event_log g")
    case None
    have wf: "cg_wf ?g1" using Cons.prems(1) by (simp add: cg_wf_def)
    have "cost_observe_loop call obs ?g1 = (err, g')" using Cons.prems(2) None by (simp add: Let_def)
    from Cons.IH [OF wf this] None show ?thesis by (simp add: cost_rows_def)
  next
    case (Some elog)
    have h: "log_healthy elog" using Cons.prems(1) Some by (simp add: cg_wf_def)
    obtain res elog1 where ap: "event_log_append ''hook'' ''cost_observation''
            [(''tokens_in'', JInt (co_tokens_in ob)), (''tokens_out'', JInt (co_tokens_out ob)),
             (''usd'', JFloat (co_usd ob)),
             (''rollup_tokens_in'', JInt (cr_tokens_in (cg_rollup ?g1))),
             (''rollup_tokens_out'', JInt (cr_tokens_out (cg_rollup ?g1))),
             (''rollup_usd'', JFloat (cr_usd (cg_rollup ?g1))),
             (''rollup_samples'', JInt (int (cr_samples (cg_rollup ?g1))))]
            (case call of None \<Rightarrow> [] | Some c \<Rightarrow> tc_name c)
            (case call of None \<Rightarrow> [] | Some c \<Rightarrow> tc_call_id c) [] elog = (res, elog1)" by fastforce
    from log_healthy_append [OF h ap] obtain ev where ev: "res = Inr ev" "log_healthy elog1"
      "sdb_rows (el_db elog1) = sdb_rows (el_db elog) @ [ev]" "ev_kind ev = ''cost_observation''" by blast
    let ?g2 = "?g1\<lparr>cg_event_log := Some elog1\<rparr>"
    have wf: "cg_wf ?g2" using Cons.prems(1) ev(2) by (simp add: cg_wf_def)
    have "cost_observe_loop call obs ?g2 = (err, g')" using Cons.prems(2) Some ap ev(1) by (simp add: Let_def)
    from Cons.IH [OF wf this] Some ev show ?thesis by (simp add: cost_rows_def)
  qed
qed

lemma cost_handle_inv: "cg_wf g \<Longrightarrow> cost_guardian_handle pt p g = (d, g') \<Longrightarrow> cg_wf g'"
  using cost_observe_loop_spec [of g]
  by (auto simp: cost_guardian_handle_def cost_observe_def split: if_splits option.splits prod.splits)

lemma cost_handle_answer:
  "cg_wf g \<Longrightarrow> cost_guardian_handle pt p g = (d, g') \<Longrightarrow>
     d = Inr decision_allow \<or> (\<exists>reason. reason \<noteq> [] \<and> d = decision_deny reason)"
  using cost_observe_loop_spec [of g]
  by (auto simp: cost_guardian_handle_def cost_observe_def cost_gate_def Let_def
      split: if_splits option.splits prod.splits)

interpretation cg: guard_contract cost_guardian_handle cg_wf
  by unfold_locales (fact cost_handle_inv, fact cost_handle_answer)

section \<open>Totals along a run\<close>

fun run_samples ::
  "(tool_result \<Rightarrow> cost_observation list) \<Rightarrow> (lifecycle_point \<times> hook_payload) list \<Rightarrow> cost_observation list" where
  "run_samples ex [] = []"
| "run_samples ex ((pt, p) # evs) =
     (if pt = AFTER_TOOL_EXEC then (case hp_tool_result p of None \<Rightarrow> [] | Some r \<Rightarrow> ex r) else []) @
     run_samples ex evs"

definition total_usd :: "cost_observation list \<Rightarrow> rat" where
  "total_usd obs = sum_list (map co_usd obs)"

lemma fold_rollup:
  "cr_usd (fold rollup_add obs r) = cr_usd r + total_usd obs \<and>
   cr_samples (fold rollup_add obs r) = cr_samples r + length obs"
  by (induction obs arbitrary: r) (auto simp: rollup_add_def total_usd_def)

lemma handle_rollup:
  assumes "cg_wf g" "cost_guardian_handle pt p g = (d, g')"
  shows "cg_rollup g' = fold rollup_add (run_samples (cg_extractor g) [(pt, p)]) (cg_rollup g) \<and>
    cg_budget_usd g' = cg_budget_usd g \<and> cg_extractor g' = cg_extractor g \<and>
    cost_rows g' = cost_rows g + (if cg_event_log g = None then 0 else length (run_samples (cg_extractor g) [(pt, p)])) \<and>
    (cg_event_log g' = None \<longleftrightarrow> cg_event_log g = None)"
proof (cases "pt = AFTER_TOOL_EXEC \<and> hp_tool_result p \<noteq> None")
  case True
  then obtain r where r: "hp_tool_result p = Some r" "pt = AFTER_TOOL_EXEC" by auto
  obtain err g1 where loop: "cost_observe_loop (hp_tool_call p) (cg_extractor g r) g = (err, g1)" by fastforce
  from cost_observe_loop_spec [OF assms(1) loop] assms(2) r loop show ?thesis
    by (auto simp: cost_guardian_handle_def cost_observe_def)
next
  case False
  with assms(2) show ?thesis
    by (auto simp: cost_guardian_handle_def cost_observe_def split: if_splits option.splits)
qed

lemma run_rollup:
  "cg_wf g \<Longrightarrow> guard_run cost_guardian_handle evs g = (ds, g') \<Longrightarrow>
     cg_rollup g' = fold rollup_add (run_samples (cg_extractor g) evs) (cg_rollup g) \<and>
     cg_budget_usd g' = cg_budget_usd g \<and> cg_extractor g' = cg_extractor g \<and>
     cost_rows g' = cost_rows g + (if cg_event_log g = None then 0 else length (run_samples (cg_extractor g) evs)) \<and>
     (cg_event_log g' = None \<longleftrightarrow> cg_event_log g = None)"
proof (induction evs arbitrary: g ds)
  case Nil
  then show ?case by auto
next
  case (Cons ev evs)
  obtain pt p where ev: "ev = (pt, p)" by (cases ev)
  obtain d g1 where h: "cost_guardian_handle pt p g = (d, g1)" by fastforce
  obtain ds' where r: "guard_run cost_guardian_handle evs g1 = (ds', g')"
    using Cons.prems(2) by (auto simp: ev h split: prod.splits)
  from Cons.IH [OF cost_handle_inv [OF Cons.prems(1) h] r] handle_rollup [OF Cons.prems(1) h]
  show ?case by (simp add: ev)
qed

lemma run_samples_nonneg:
  assumes "\<forall>r. \<forall>ob \<in> set (ex r). 0 \<le> co_usd ob"
  shows "ob \<in> set (run_samples ex es) \<Longrightarrow> 0 \<le> co_usd ob"
proof (induction es)
  case Nil
  then show ?case by simp
next
  case (Cons e es)
  obtain pt p where "e = (pt, p)" by (cases e)
  with Cons.prems have "ob \<in> set (run_samples ex es) \<or> (\<exists>r. ob \<in> set (ex r))"
    by (cases "hp_tool_result p"; cases "pt = AFTER_TOOL_EXEC") auto
  with Cons.IH assms show ?case by blast
qed

section \<open>Properties\<close>


definition demo_result :: "string \<Rightarrow> tool_result" where
  "demo_result a = \<lparr>tr_summary = ''ok'', tr_result = None, tr_error = None, tr_artifacts = [a]\<rparr>"

lemma default_guardian_wf:
  "cost_guardian_init budget None None = Inr g \<Longrightarrow> cg_wf g"
  by (auto simp: cost_guardian_init_def cg_wf_def Let_def default_cost_extractor_def extract_costs_ok
      split: option.splits pyfloat.splits if_splits)

lemma demo_sample:
  "default_cost_extractor (demo_result ''cost=usd=2'') = [\<lparr>co_tokens_in = 0, co_tokens_out = 0, co_usd = 2\<rparr>]"
proof -
  have "float_overflow > 2" by (simp add: float_overflow_def)
  moreover have "py_sign (py_strip ''2'') = (False, ''2'')" "py_lower ''2'' = ''2''" "float_number ''2'' = Some 2"
    by code_simp+
  ultimately have "py_float ''2'' = Some (Fin 2)" by (simp add: py_float_def)
  moreover have "cost_fields (py_split1 (CHR '','') (drop (length COST_ARTIFACT_PREFIX) ''cost=usd=2'')) [] = [(''usd'', ''2'')]"
    "py_int ''0'' = Some 0" "py_startswith ''cost=usd=2'' COST_ARTIFACT_PREFIX" by code_simp+
  ultimately show ?thesis
    by (simp add: default_cost_extractor_def demo_result_def parse_cost_artifact_def cost_observation_init_def
        Let_def dict_get_default_def)
qed


text \<open>The extractor skips what it cannot read and never fails: every sample it returns is non-negative and
  comes from an artifact that starts with the prefix, the samples keep the order of the artifacts,
  and a bad artifact does not drop the good ones around it.\<close>

theorem cost_extractor_local:
  "default_cost_extractor (r\<lparr>tr_artifacts := xs @ ys\<rparr>) =
     default_cost_extractor (r\<lparr>tr_artifacts := xs\<rparr>) @ default_cost_extractor (r\<lparr>tr_artifacts := ys\<rparr>) \<and>
   length (default_cost_extractor r) \<le> length (filter (\<lambda>a. prefix ''cost='' a) (tr_artifacts r)) \<and>
   list_all (\<lambda>ob. 0 \<le> co_tokens_in ob \<and> 0 \<le> co_tokens_out ob \<and> 0 \<le> co_usd ob) (default_cost_extractor r)"
proof -
  have app: "extract_costs (xs @ ys) = extract_costs xs @ extract_costs ys"
    by (induction xs) (auto split: option.splits)
  have len: "length (extract_costs as) \<le> length (filter (\<lambda>a. prefix ''cost='' a) as)" for as
    by (induction as) (auto simp: py_startswith_def COST_ARTIFACT_PREFIX_def split: option.splits)
  show ?thesis
    using app len extract_costs_ok by (auto simp: default_cost_extractor_def list_all_iff)
qed

end
