(* ===== verification/Pause.thy ===== *)
theory Pause
  imports Py_Text
begin

text \<open>
  The pause sentinels of \<open>fa/orchestration/pause.py\<close>. The state directory maps file names to
  their contents; the world holds it together with the clock. \<open>sleeper\<close> is the injected sleep
  function: it may advance the clock and may see other processes write to the directory.
  The polling loop has no bound of its own, so it is a partial function: \<open>None\<close> is not returning.
\<close>

datatype pause_kind = RATE_LIMIT | AUTH

fun pause_kind_value :: "pause_kind \<Rightarrow> string" where
  "pause_kind_value RATE_LIMIT = ''rate_limit''"
| "pause_kind_value AUTH = ''auth''"

datatype resume_outcome = RESUMED | TIMED_OUT

definition RATE_LIMIT_PAUSE_FILE :: string where "RATE_LIMIT_PAUSE_FILE = ''RATE_LIMIT_PAUSE''"
definition AUTH_PAUSE_FILE :: string where "AUTH_PAUSE_FILE = ''AUTH_PAUSE''"
definition RESUME_FILE :: string where "RESUME_FILE = ''RESUME''"

definition MAX_RATE_LIMIT_WAIT_MS :: int where "MAX_RATE_LIMIT_WAIT_MS = 7200000"
definition RATE_LIMIT_CHECK_INTERVAL_MS :: int where "RATE_LIMIT_CHECK_INTERVAL_MS = 30000"
definition AUTH_RESUME_MAX_WAIT_MS :: int where "AUTH_RESUME_MAX_WAIT_MS = 86400000"
definition AUTH_RESUME_CHECK_INTERVAL_MS :: int where "AUTH_RESUME_CHECK_INTERVAL_MS = 10000"

record pause_budget =
  pb_max_wait_ms :: int
  pb_check_interval_ms :: int

fun BUDGETS :: "pause_kind \<Rightarrow> pause_budget" where
  "BUDGETS RATE_LIMIT = \<lparr>pb_max_wait_ms = MAX_RATE_LIMIT_WAIT_MS, pb_check_interval_ms = RATE_LIMIT_CHECK_INTERVAL_MS\<rparr>"
| "BUDGETS AUTH = \<lparr>pb_max_wait_ms = AUTH_RESUME_MAX_WAIT_MS, pb_check_interval_ms = AUTH_RESUME_CHECK_INTERVAL_MS\<rparr>"

fun PAUSE_FILENAMES :: "pause_kind \<Rightarrow> string" where
  "PAUSE_FILENAMES RATE_LIMIT = RATE_LIMIT_PAUSE_FILE"
| "PAUSE_FILENAMES AUTH = AUTH_PAUSE_FILE"

record pause_world =
  pw_files :: "string \<rightharpoonup> string"
  pw_clock :: rat

text \<open>\<open>int(now())\<close> truncates toward zero.\<close>

definition int_of_time :: "rat \<Rightarrow> int" where
  "int_of_time t = (if t < 0 then - \<lfloor>- t\<rfloor> else \<lfloor>t\<rfloor>)"

definition write_pause :: "pause_kind \<Rightarrow> string \<Rightarrow> pause_world \<Rightarrow> pause_world" where
  "write_pause kind reason w =
     w\<lparr>pw_files := (pw_files w)(PAUSE_FILENAMES kind \<mapsto> int_str (int_of_time (pw_clock w)) @ '' '' @ reason @ [CHR 0x0A])\<rparr>"

definition write_resume :: "pause_world \<Rightarrow> pause_world" where
  "write_resume w = w\<lparr>pw_files := (pw_files w)(RESUME_FILE \<mapsto> int_str (int_of_time (pw_clock w)) @ [CHR 0x0A])\<rparr>"

definition is_paused :: "pause_kind \<Rightarrow> pause_world \<Rightarrow> bool" where
  "is_paused kind w \<longleftrightarrow> pw_files w (PAUSE_FILENAMES kind) \<noteq> None"

definition clear_sentinels :: "pause_kind \<Rightarrow> pause_world \<Rightarrow> pause_world" where
  "clear_sentinels kind w = w\<lparr>pw_files := (pw_files w)(RESUME_FILE := None, PAUSE_FILENAMES kind := None)\<rparr>"

partial_function (option) wait_loop ::
  "(rat \<Rightarrow> pause_world \<Rightarrow> pause_world) \<Rightarrow> pause_kind \<Rightarrow> rat \<Rightarrow> rat \<Rightarrow> pause_world
     \<Rightarrow> (resume_outcome \<times> pause_world) option" where
  "wait_loop sleeper kind deadline interval w =
     (if pw_files w RESUME_FILE \<noteq> None then Some (RESUMED, clear_sentinels kind w)
      else if pw_clock w \<ge> deadline then Some (TIMED_OUT, w)
      else wait_loop sleeper kind deadline interval (sleeper interval w))"

definition wait_for_resume ::
  "(rat \<Rightarrow> pause_world \<Rightarrow> pause_world) \<Rightarrow> pause_kind \<Rightarrow> pause_budget option \<Rightarrow> pause_world
     \<Rightarrow> (resume_outcome \<times> pause_world) option" where
  "wait_for_resume sleeper kind budget w =
     (let chosen = (case budget of None \<Rightarrow> BUDGETS kind | Some b \<Rightarrow> b);
          deadline = pw_clock w + of_int (pb_max_wait_ms chosen) / 1000;
          interval = of_int (pb_check_interval_ms chosen) / 1000
      in wait_loop sleeper kind deadline interval w)"

section \<open>The polling loop\<close>

text \<open>The worlds the loop sees: \<open>n\<close> sleeps after the start.\<close>

definition after_sleeps :: "(rat \<Rightarrow> pause_world \<Rightarrow> pause_world) \<Rightarrow> rat \<Rightarrow> nat \<Rightarrow> pause_world \<Rightarrow> pause_world" where
  "after_sleeps sleeper interval n w = (sleeper interval ^^ n) w"

definition poll_stops :: "rat \<Rightarrow> pause_world \<Rightarrow> bool" where
  "poll_stops deadline w \<longleftrightarrow> pw_files w RESUME_FILE \<noteq> None \<or> pw_clock w \<ge> deadline"

lemma wait_loop_stops:
  "poll_stops deadline (after_sleeps sleeper interval n w) \<Longrightarrow>
     \<forall>m < n. \<not> poll_stops deadline (after_sleeps sleeper interval m w) \<Longrightarrow>
     wait_loop sleeper kind deadline interval w =
       (let w' = after_sleeps sleeper interval n w in
        Some (if pw_files w' RESUME_FILE \<noteq> None then (RESUMED, clear_sentinels kind w') else (TIMED_OUT, w')))"
proof (induction n arbitrary: w)
  case 0
  then show ?case by (subst wait_loop.simps) (auto simp: after_sleeps_def poll_stops_def)
next
  case (Suc n)
  have go: "\<not> poll_stops deadline w" using Suc.prems(2) by (auto simp: after_sleeps_def)
  have shift: "after_sleeps sleeper interval (Suc m) w = after_sleeps sleeper interval m (sleeper interval w)" for m
    by (simp add: after_sleeps_def funpow_swap1)
  have "\<forall>m < n. \<not> poll_stops deadline (after_sleeps sleeper interval m (sleeper interval w))"
    using Suc.prems(2) by (auto simp flip: shift)
  with Suc.IH [of "sleeper interval w"] Suc.prems(1) go show ?case
    by (subst wait_loop.simps) (auto simp: shift poll_stops_def)
qed

lemma clock_advances:
  assumes "\<forall>d w. pw_clock w + d \<le> pw_clock (sleeper d w)"
  shows "pw_clock w + of_nat n * interval \<le> pw_clock (after_sleeps sleeper interval n w)"
proof (induction n)
  case 0
  then show ?case by (simp add: after_sleeps_def)
next
  case (Suc n)
  let ?w = "after_sleeps sleeper interval n w"
  have "pw_clock ?w + interval \<le> pw_clock (sleeper interval ?w)" using assms by blast
  moreover have "after_sleeps sleeper interval (Suc n) w = sleeper interval ?w" by (simp add: after_sleeps_def)
  ultimately show ?case using Suc by (simp add: algebra_simps)
qed

section \<open>Properties\<close>


definition demo_sleeper :: "rat \<Rightarrow> pause_world \<Rightarrow> pause_world" where
  "demo_sleeper d w = w\<lparr>pw_clock := pw_clock w + d\<rparr>"


end
