(* ===== verification/Py_Regex.thy ===== *)
theory Py_Regex
  imports Py_Text
begin

text \<open>
  The part of Python's \<open>re\<close> that the modelled modules use: case-insensitive \<open>search\<close> for a
  pattern built from literals, character classes, alternation, \<open>?\<close>, \<open>*\<close>, \<open>+\<close> and \<open>\b\<close>.
  Only whether there is a match is used, so greedy and lazy repetition are the same.

  \<open>rx_ends r s i\<close> are the positions where a match of \<open>r\<close> that starts at \<open>i\<close> can end.
\<close>

datatype rx =
    Eps
  | Cls "char list"
  | Seq rx rx
  | Alt rx rx
  | Star rx
  | Wb

definition rx_opt :: "rx \<Rightarrow> rx" where "rx_opt r = Alt r Eps"
definition rx_plus :: "rx \<Rightarrow> rx" where "rx_plus r = Seq r (Star r)"

fun rx_lit :: "string \<Rightarrow> rx" where
  "rx_lit [] = Eps"
| "rx_lit (c # s) = Seq (Cls [c]) (rx_lit s)"

fun rx_seq :: "rx list \<Rightarrow> rx" where
  "rx_seq [] = Eps"
| "rx_seq (r # rs) = Seq r (rx_seq rs)"

fun rx_alt :: "rx \<Rightarrow> rx list \<Rightarrow> rx" where
  "rx_alt r [] = r"
| "rx_alt r (q # qs) = Alt r (rx_alt q qs)"

text \<open>Word characters of the Latin-1 range: letters, digits, the numeric signs and \<open>_\<close>.\<close>

definition word_char :: "char \<Rightarrow> bool" where
  "word_char c = (let n = (of_char c :: nat) in
     (48 \<le> n \<and> n \<le> 57) \<or> (65 \<le> n \<and> n \<le> 90) \<or> n = 95 \<or> (97 \<le> n \<and> n \<le> 122) \<or>
     n \<in> {170, 178, 179, 181, 185, 186, 188, 189, 190} \<or> (192 \<le> n \<and> n \<noteq> 215 \<and> n \<noteq> 247))"

definition word_at :: "string \<Rightarrow> nat \<Rightarrow> bool" where
  "word_at s i = (i < length s \<and> word_char (s ! i))"

definition word_boundary :: "string \<Rightarrow> nat \<Rightarrow> bool" where
  "word_boundary s i = ((0 < i \<and> word_at s (i - 1)) \<noteq> word_at s i)"

text \<open>Repetition: positions reached in up to \<open>n\<close> more rounds from the newest ones.\<close>

fun star_ends :: "(nat \<Rightarrow> nat list) \<Rightarrow> nat \<Rightarrow> nat list \<Rightarrow> nat list \<Rightarrow> nat list" where
  "star_ends f 0 seen new = seen"
| "star_ends f (Suc n) seen new =
     (let reached = filter (\<lambda>j. j \<notin> set seen) (remdups (concat (map f new)))
      in if reached = [] then seen else star_ends f n (seen @ reached) reached)"

fun rx_ends :: "rx \<Rightarrow> string \<Rightarrow> nat \<Rightarrow> nat list" where
  "rx_ends Eps s i = [i]"
| "rx_ends (Cls cs) s i =
     (if i < length s \<and> py_lower_char (s ! i) \<in> py_lower_char ` set cs then [Suc i] else [])"
| "rx_ends (Seq p q) s i = concat (map (rx_ends q s) (rx_ends p s i))"
| "rx_ends (Alt p q) s i = rx_ends p s i @ rx_ends q s i"
| "rx_ends (Star p) s i = star_ends (rx_ends p s) (length s) [i] [i]"
| "rx_ends Wb s i = (if word_boundary s i then [i] else [])"

definition rx_search :: "rx \<Rightarrow> string \<Rightarrow> bool" where
  "rx_search r s = list_ex (\<lambda>i. rx_ends r s i \<noteq> []) [0..<Suc (length s)]"

section \<open>A match contains its leading literal\<close>

lemma rx_lit_ends:
  "e \<in> set (rx_ends (rx_lit w) s i) \<Longrightarrow>
     e = i + length w \<and> e \<le> max i (length s) \<and> map py_lower_char (take (length w) (drop i s)) = map py_lower_char w"
proof (induction w arbitrary: i)
  case Nil
  then show ?case by simp
next
  case (Cons c w)
  then have i: "i < length s" "py_lower_char (s ! i) = py_lower_char c" and e: "e \<in> set (rx_ends (rx_lit w) s (Suc i))"
    by (auto split: if_splits)
  from Cons.IH [OF e] i show ?case by (auto simp: Cons_nth_drop_Suc [symmetric])
qed

lemma rx_lit_in:
  assumes "e \<in> set (rx_ends (rx_lit w) s i)"
  shows "py_in (py_lower w) (py_lower s)"
proof -
  from rx_lit_ends [OF assms] have "py_lower w = take (length w) (drop i (py_lower s))"
    by (simp add: py_lower_def drop_map take_map)
  then have "py_lower s = take i (py_lower s) @ py_lower w @ drop (length w) (drop i (py_lower s))"
    by (metis append_take_drop_id)
  then show ?thesis unfolding py_in_sublist by blast
qed

definition starts_with_word :: "string list \<Rightarrow> rx \<Rightarrow> bool" where
  "starts_with_word ws r \<longleftrightarrow> (\<forall>s i. rx_ends r s i \<noteq> [] \<longrightarrow> (\<exists>w \<in> set ws. py_in (py_lower w) (py_lower s)))"

lemma starts_seq: "starts_with_word [w] (rx_seq (rx_lit w # rs))"
  unfolding starts_with_word_def
proof (intro allI impI)
  fix s i assume "rx_ends (rx_seq (rx_lit w # rs)) s i \<noteq> []"
  then obtain e where "e \<in> set (rx_ends (rx_lit w) s i)" by auto
  from rx_lit_in [OF this] show "\<exists>w' \<in> set [w]. py_in (py_lower w') (py_lower s)" by simp
qed

lemma starts_alt: "starts_with_word a p \<Longrightarrow> starts_with_word b q \<Longrightarrow> starts_with_word (a @ b) (Alt p q)"
  unfolding starts_with_word_def by fastforce

lemma starts_search: "starts_with_word ws r \<Longrightarrow> rx_search r s \<Longrightarrow> \<exists>w \<in> set ws. py_in (py_lower w) (py_lower s)"
  by (auto simp: rx_search_def list_ex_iff starts_with_word_def simp del: upt_Suc)

text \<open>Code equations on the bits of a character, so that the kernel evaluates them without unary numbers.\<close>

lemma word_char_bits [code]: "word_char (Char b0 b1 b2 b3 b4 b5 b6 b7) =
   (if b7 then (if b6 then \<not> (b4 \<and> \<not> b3 \<and> b2 \<and> b1 \<and> b0) 
       else b5 \<and> (if b4 then (if b3 then (if b2 then \<not> (b1 \<and> b0) else b1 \<noteq> b0) else if b2 then b0 \<and> \<not> b1 else b1) else b3 \<and> \<not> b2 \<and> b1 \<and> \<not> b0))
    else if b6 then (if b5 then (b0 \<or> b1 \<or> b2 \<or> b3 \<or> b4) \<and> \<not> (b4 \<and> b3 \<and> (b2 \<or> b1 \<and> b0))
                     else b4 \<and> b3 \<and> b2 \<and> b1 \<and> b0 \<or> (b0 \<or> b1 \<or> b2 \<or> b3 \<or> b4) \<and> \<not> (b4 \<and> b3 \<and> (b2 \<or> b1 \<and> b0)))
    else b5 \<and> b4 \<and> \<not> (b3 \<and> (b2 \<or> b1)))"
  by (cases b0; cases b1; cases b2; cases b3; cases b4; cases b5; cases b6; cases b7)
     (simp_all add: word_char_def)

end
