(* ===== verification/Py_Match.thy ===== *)
theory Py_Match
  imports Py_Regex
begin

text \<open>
  Python's \<open>re\<close> with capture groups, as the workflow modules use it: \<open>match\<close>, \<open>search\<close>,
  \<open>findall\<close> and \<open>finditer\<close>. The outcomes of a pattern at a position are listed in the order in
  which the backtracking engine tries them, so the first one is the match that \<open>re\<close> reports; greedy
  and lazy repetition differ in that order. A repetition whose body consumes nothing ends, and each
  round of a repetition consumes a character, so \<open>length s\<close> rounds are enough.

  The rest of the theory is the line and word splitting of \<open>str\<close>.
\<close>

datatype pat =
    PEps
  | PChar "char \<Rightarrow> bool"
  | PSeq pat pat
  | PAlt pat pat
  | PStar pat
  | PLazy pat
  | PWb
  | PBol
  | PEol
  | PGroup nat pat

text \<open>A match state: the position reached and the spans of the groups closed so far.\<close>

type_synonym mstate = "nat \<times> (nat \<times> nat \<times> nat) list"

fun star_greedy :: "(mstate \<Rightarrow> mstate list) \<Rightarrow> nat \<Rightarrow> mstate \<Rightarrow> mstate list" where
  "star_greedy f 0 st = [st]"
| "star_greedy f (Suc n) st =
     concat (map (star_greedy f n) (filter (\<lambda>t. fst st < fst t) (f st))) @ [st]"

fun star_lazy :: "(mstate \<Rightarrow> mstate list) \<Rightarrow> nat \<Rightarrow> mstate \<Rightarrow> mstate list" where
  "star_lazy f 0 st = [st]"
| "star_lazy f (Suc n) st =
     st # concat (map (star_lazy f n) (filter (\<lambda>t. fst st < fst t) (f st)))"

text \<open>\<open>PBol\<close> and \<open>PEol\<close> are \<open>^\<close> and \<open>$\<close> under \<open>re.MULTILINE\<close>.\<close>

primrec pat_run :: "pat \<Rightarrow> string \<Rightarrow> mstate \<Rightarrow> mstate list" where
  "pat_run PEps s st = [st]"
| "pat_run (PChar P) s st = (if fst st < length s \<and> P (s ! fst st) then [(Suc (fst st), snd st)] else [])"
| "pat_run (PSeq p q) s st = concat (map (pat_run q s) (pat_run p s st))"
| "pat_run (PAlt p q) s st = pat_run p s st @ pat_run q s st"
| "pat_run (PStar p) s st = star_greedy (pat_run p s) (length s) st"
| "pat_run (PLazy p) s st = star_lazy (pat_run p s) (length s) st"
| "pat_run PWb s st = (if word_boundary s (fst st) then [st] else [])"
| "pat_run PBol s st = (if fst st = 0 \<or> s ! (fst st - 1) = CHR 0x0A then [st] else [])"
| "pat_run PEol s st = (if fst st = length s \<or> s ! fst st = CHR 0x0A then [st] else [])"
| "pat_run (PGroup n p) s st = map (\<lambda>t. (fst t, (n, fst st, fst t) # snd t)) (pat_run p s st)"

text \<open>\<open>pattern.match(s, i)\<close>, \<open>pattern.search(s, i)\<close> with the start of the match, \<open>m.group(n)\<close>.\<close>

definition match_at :: "pat \<Rightarrow> string \<Rightarrow> nat \<Rightarrow> mstate option" where
  "match_at p s i = (case pat_run p s (i, []) of [] \<Rightarrow> None | st # _ \<Rightarrow> Some st)"

fun search_at :: "pat \<Rightarrow> string \<Rightarrow> nat list \<Rightarrow> (nat \<times> mstate) option" where
  "search_at p s [] = None"
| "search_at p s (i # is) = (case match_at p s i of Some st \<Rightarrow> Some (i, st) | None \<Rightarrow> search_at p s is)"

definition search_from :: "pat \<Rightarrow> string \<Rightarrow> nat \<Rightarrow> (nat \<times> mstate) option" where
  "search_from p s i = search_at p s [i..<Suc (length s)]"

definition pat_group :: "string \<Rightarrow> mstate \<Rightarrow> nat \<Rightarrow> string" where
  "pat_group s st n = (case map_of (snd st) n of None \<Rightarrow> [] | Some (a, b) \<Rightarrow> take (b - a) (drop a s))"

text \<open>
  \<open>finditer\<close>: the next search starts where the last match ended. None of the patterns it is used
  with matches the empty string, so \<open>length s + 1\<close> searches are enough.
\<close>

fun find_all :: "pat \<Rightarrow> string \<Rightarrow> nat \<Rightarrow> nat \<Rightarrow> (nat \<times> mstate) list" where
  "find_all p s 0 i = []"
| "find_all p s (Suc n) i =
     (case search_from p s i of
        None \<Rightarrow> []
      | Some (a, st) \<Rightarrow> (a, st) # find_all p s n (max (fst st) (Suc a)))"

definition finditer :: "pat \<Rightarrow> string \<Rightarrow> (nat \<times> mstate) list" where
  "finditer p s = find_all p s (Suc (length s)) 0"

definition findall1 :: "pat \<Rightarrow> string \<Rightarrow> string list" where
  "findall1 p s = map (\<lambda>(a, st). pat_group s st 1) (finditer p s)"

section \<open>Pattern building blocks\<close>

definition p_plus :: "pat \<Rightarrow> pat" where "p_plus p = PSeq p (PStar p)"
definition p_opt :: "pat \<Rightarrow> pat" where "p_opt p = PAlt p PEps"

fun p_seq :: "pat list \<Rightarrow> pat" where
  "p_seq [] = PEps"
| "p_seq (p # ps) = PSeq p (p_seq ps)"

fun p_alt :: "pat \<Rightarrow> pat list \<Rightarrow> pat" where
  "p_alt p [] = p"
| "p_alt p (q # qs) = PAlt p (p_alt q qs)"

definition p_lit :: "string \<Rightarrow> pat" where
  "p_lit w = p_seq (map (\<lambda>c. PChar (\<lambda>d. d = c)) w)"

text \<open>A literal under \<open>re.IGNORECASE\<close>.\<close>

definition p_ilit :: "string \<Rightarrow> pat" where
  "p_ilit w = p_seq (map (\<lambda>c. PChar (\<lambda>d. py_lower_char d = py_lower_char c)) w)"

definition p_in :: "string \<Rightarrow> pat" where "p_in cs = PChar (\<lambda>c. c \<in> set cs)"
definition p_space :: pat where "p_space = PChar py_space"
definition p_digit :: pat where "p_digit = PChar is_digit"
definition p_dot :: pat where "p_dot = PChar (\<lambda>c. c \<noteq> CHR 0x0A)"
definition p_any :: pat where "p_any = PChar (\<lambda>c. True)"

definition ascii_lower_letter :: "char \<Rightarrow> bool" where
  "ascii_lower_letter c = (let n = (of_char c :: nat) in 97 \<le> n \<and> n \<le> 122)"

definition ascii_alnum :: "char \<Rightarrow> bool" where
  "ascii_alnum c = (is_digit c \<or> ascii_lower_letter (py_lower_char c))"

lemma ascii_lower_letter_bits [code]: "ascii_lower_letter (Char b0 b1 b2 b3 b4 b5 b6 b7) =
   (\<not> b7 \<and> b6 \<and> b5 \<and> (b0 \<or> b1 \<or> b2 \<or> b3 \<or> b4) \<and> \<not> (b4 \<and> b3 \<and> (b2 \<or> b1 \<and> b0)))"
  by (cases b0; cases b1; cases b2; cases b3; cases b4; cases b5; cases b6; cases b7)
     (simp_all add: ascii_lower_letter_def)

section \<open>Lines and words\<close>

text \<open>\<open>s.upper()\<close> on the ASCII letters; the model applies it to ASCII tokens only.\<close>

definition py_upper_char :: "char \<Rightarrow> char" where
  "py_upper_char c = (if ascii_lower_letter c then char_of ((of_char c :: nat) - 32) else c)"

definition py_upper :: "string \<Rightarrow> string" where
  "py_upper s = map py_upper_char s"

definition line_break :: "char \<Rightarrow> bool" where
  "line_break c = (let n = (of_char c :: nat) in (10 \<le> n \<and> n \<le> 13) \<or> (28 \<le> n \<and> n \<le> 30) \<or> n = 133)"

text \<open>\<open>s.splitlines()\<close>: \<open>\r\n\<close> is one break and a final break opens no empty line.\<close>

fun lines_go :: "string \<Rightarrow> string \<Rightarrow> string list" where
  "lines_go cur [] = (if cur = [] then [] else [cur])"
| "lines_go cur (c # s) =
     (if c = CHR 0x0D \<and> s \<noteq> [] \<and> hd s = CHR 0x0A then cur # lines_go [] (tl s)
      else if line_break c then cur # lines_go [] s
      else lines_go (cur @ [c]) s)"

definition splitlines :: "string \<Rightarrow> string list" where
  "splitlines s = lines_go [] s"

text \<open>\<open>s.split()\<close>.\<close>

fun words_go :: "string \<Rightarrow> string \<Rightarrow> string list" where
  "words_go cur [] = (if cur = [] then [] else [cur])"
| "words_go cur (c # s) =
     (if py_space c then (if cur = [] then words_go [] s else cur # words_go [] s)
      else words_go (cur @ [c]) s)"

definition py_words :: "string \<Rightarrow> string list" where
  "py_words s = words_go [] s"

text \<open>\<open>s.strip(chars)\<close>.\<close>

definition py_strip_chars :: "string \<Rightarrow> string \<Rightarrow> string" where
  "py_strip_chars cs s = rev (dropWhile (\<lambda>c. c \<in> set cs) (rev (dropWhile (\<lambda>c. c \<in> set cs) s)))"

text \<open>\<open>dict.fromkeys(values)\<close> as a tuple: the first occurrence of every value, in order.\<close>

fun ordered_unique :: "'a list \<Rightarrow> 'a list" where
  "ordered_unique [] = []"
| "ordered_unique (x # xs) = x # filter (\<lambda>y. y \<noteq> x) (ordered_unique xs)"

section \<open>Lemmas\<close>

lemma set_ordered_unique [simp]: "set (ordered_unique xs) = set xs"
  by (induction xs) auto

lemma distinct_ordered_unique [simp]: "distinct (ordered_unique xs)"
  by (induction xs) auto

lemma ordered_unique_id: "distinct xs \<Longrightarrow> ordered_unique xs = xs"
proof (induction xs)
  case (Cons x xs)
  then show ?case by (auto intro: filter_True)
qed simp

lemma pat_group_substring: "\<exists>pre post. s = pre @ pat_group s st n @ post"
proof (cases "map_of (snd st) n")
  case None
  then show ?thesis by (auto simp: pat_group_def)
next
  case (Some ab)
  then obtain a b where ab: "map_of (snd st) n = Some (a, b)" by (cases ab) auto
  have "s = take a s @ take (b - a) (drop a s) @ drop (b - a) (drop a s)" by (metis append_take_drop_id)
  then show ?thesis using ab unfolding pat_group_def by (metis option.simps(5) prod.simps(2))
qed

lemma py_upper_append: "py_upper (a @ b) = py_upper a @ py_upper b"
  by (simp add: py_upper_def)

lemma group_upper_in: "py_in (py_upper (pat_group s st n)) (py_upper s)"
proof -
  obtain pre post where "s = pre @ pat_group s st n @ post" using pat_group_substring by metis
  then have "py_upper s = py_upper pre @ py_upper (pat_group s st n) @ py_upper post"
    by (metis py_upper_append)
  then show ?thesis unfolding py_in_sublist by blast
qed

text \<open>The lines of a text are pieces of it.\<close>

lemma lines_go_pieces: "l \<in> set (lines_go cur s) \<Longrightarrow> \<exists>pre post. cur @ s = pre @ l @ post"
proof (induction cur s rule: lines_go.induct)
  case (1 cur)
  then show ?case by (auto split: if_splits intro: exI [of _ "[]"])
next
  case (2 cur c s)
  consider (crlf) "c = CHR 0x0D \<and> s \<noteq> [] \<and> hd s = CHR 0x0A"
    | (brk) "\<not> (c = CHR 0x0D \<and> s \<noteq> [] \<and> hd s = CHR 0x0A)" "line_break c"
    | (chr) "\<not> (c = CHR 0x0D \<and> s \<noteq> [] \<and> hd s = CHR 0x0A)" "\<not> line_break c"
    by blast
  then show ?case
  proof cases
    case crlf
    with 2 have "l = cur \<or> l \<in> set (lines_go [] (tl s))" by auto
    then show ?thesis
    proof
      assume "l \<in> set (lines_go [] (tl s))"
      from 2(1) [OF crlf this] obtain pre post where "tl s = pre @ l @ post" by auto
      with crlf have "cur @ c # s = (cur @ c # hd s # pre) @ l @ post" by (cases s) auto
      then show ?thesis by blast
    qed (auto intro: exI [of _ "[]"])
  next
    case brk
    with 2 have "l = cur \<or> l \<in> set (lines_go [] s)" by auto
    then show ?thesis
    proof
      assume "l \<in> set (lines_go [] s)"
      from 2(2) [OF brk this] obtain pre post where "s = pre @ l @ post" by auto
      then have "cur @ c # s = (cur @ c # pre) @ l @ post" by simp
      then show ?thesis by blast
    qed (auto intro: exI [of _ "[]"])
  next
    case chr
    with 2(4) have "l \<in> set (lines_go (cur @ [c]) s)" by auto
    from 2(3) [OF chr this] show ?thesis by simp
  qed
qed

lemma splitlines_pieces: "l \<in> set (splitlines s) \<Longrightarrow> \<exists>pre post. s = pre @ l @ post"
  using lines_go_pieces [of l "[]" s] by (simp add: splitlines_def)

section \<open>What a match consumed\<close>

text \<open>\<open>spans s i j w\<close>: the text between the positions \<open>i\<close> and \<open>j\<close> is \<open>w\<close>.\<close>

definition spans :: "string \<Rightarrow> nat \<Rightarrow> nat \<Rightarrow> string \<Rightarrow> bool" where
  "spans s i j w = (i \<le> j \<and> j \<le> length s \<and> take (j - i) (drop i s) = w)"

lemma spans_refl: "i \<le> length s \<Longrightarrow> spans s i i []"
  by (simp add: spans_def)

lemma spans_le: "spans s i j w \<Longrightarrow> i \<le> j \<and> j \<le> length s"
  by (simp add: spans_def)

lemma spans_char: "i < length s \<Longrightarrow> spans s i (Suc i) [s ! i]"
  by (simp add: spans_def Cons_nth_drop_Suc [symmetric])

lemma spans_append:
  assumes "spans s i j u" "spans s j k v"
  shows "spans s i k (u @ v)"
proof -
  from assms have le: "i \<le> j" "j \<le> k" by (auto simp: spans_def)
  then have "take (k - i) (drop i s) = take ((j - i) + (k - j)) (drop i s)" by simp
  also have "\<dots> = take (j - i) (drop i s) @ take (k - j) (drop (j - i) (drop i s))" by (rule take_add)
  also have "drop (j - i) (drop i s) = drop j s" using le by simp
  finally show ?thesis using assms le by (simp add: spans_def)
qed

lemma spans_split: "spans s i j w \<Longrightarrow> s = take i s @ w @ drop j s"
  unfolding spans_def by (metis append_take_drop_id drop_drop le_add_diff_inverse2)

lemma set_run_seq:
  "t \<in> set (pat_run (PSeq p q) s st) \<longleftrightarrow> (\<exists>u \<in> set (pat_run p s st). t \<in> set (pat_run q s u))"
  by auto

lemma run_lit:
  "t \<in> set (pat_run (p_lit w) s st) \<Longrightarrow> fst st \<le> length s \<Longrightarrow> spans s (fst st) (fst t) w \<and> snd t = snd st"
proof (induction w arbitrary: st)
  case Nil
  then show ?case by (simp add: p_lit_def spans_refl)
next
  case (Cons c w)
  from Cons.prems(1) have i: "fst st < length s" "s ! fst st = c"
    and t: "t \<in> set (pat_run (p_lit w) s (Suc (fst st), snd st))"
    by (auto simp: p_lit_def split: if_splits)
  from Cons.IH [OF t] i have "spans s (Suc (fst st)) (fst t) w" "snd t = snd st" by auto
  with spans_append [OF spans_char [OF i(1)]] i(2) show ?case by fastforce
qed

lemma run_char: "t \<in> set (pat_run (PChar P) s st) \<longleftrightarrow> fst st < length s \<and> P (s ! fst st) \<and> t = (Suc (fst st), snd st)"
  by auto

lemma run_star_greedy:
  "t \<in> set (star_greedy (pat_run (PChar P) s) n st) \<Longrightarrow> fst st \<le> length s \<Longrightarrow>
     \<exists>w. spans s (fst st) (fst t) w \<and> list_all P w \<and> snd t = snd st"
proof (induction n arbitrary: st)
  case 0
  then show ?case by (auto intro!: exI [of _ "[]"] simp: spans_refl)
next
  case (Suc n)
  show ?case
  proof (cases "t = st")
    case True
    with Suc.prems show ?thesis by (auto intro!: exI [of _ "[]"] simp: spans_refl)
  next
    case False
    with Suc.prems(1) have i: "fst st < length s" "P (s ! fst st)"
      and t: "t \<in> set (star_greedy (pat_run (PChar P) s) n (Suc (fst st), snd st))"
      by (auto simp: run_char simp del: pat_run.simps)
    from Suc.IH [OF t] i obtain w where "spans s (Suc (fst st)) (fst t) w" "list_all P w" "snd t = snd st" by auto
    with spans_append [OF spans_char [OF i(1)]] i(2) show ?thesis
      by (intro exI [of _ "s ! fst st # w"]) fastforce
  qed
qed

lemmas run_star = run_star_greedy [where n = "length s" and s = s for s, folded pat_run.simps(5)]

lemma run_star_lazy:
  "t \<in> set (star_lazy (pat_run (PChar P) s) n st) \<Longrightarrow> fst st \<le> length s \<Longrightarrow>
     \<exists>w. spans s (fst st) (fst t) w \<and> snd t = snd st"
proof (induction n arbitrary: st)
  case 0
  then show ?case by (auto intro!: exI [of _ "[]"] simp: spans_refl)
next
  case (Suc n)
  show ?case
  proof (cases "t = st")
    case True
    with Suc.prems show ?thesis by (auto intro!: exI [of _ "[]"] simp: spans_refl)
  next
    case False
    with Suc.prems(1) have i: "fst st < length s" "P (s ! fst st)"
      and t: "t \<in> set (star_lazy (pat_run (PChar P) s) n (Suc (fst st), snd st))"
      by (auto simp: run_char simp del: pat_run.simps)
    from Suc.IH [OF t] i obtain w where "spans s (Suc (fst st)) (fst t) w" "snd t = snd st" by auto
    with spans_append [OF spans_char [OF i(1)]] show ?thesis by blast
  qed
qed

lemma match_at_run: "match_at p s i = Some st \<Longrightarrow> st \<in> set (pat_run p s (i, []))"
  by (auto simp: match_at_def split: list.splits)

lemma search_at_match: "search_at p s is = Some (a, st) \<Longrightarrow> a \<in> set is \<and> match_at p s a = Some st"
  by (induction "is") (auto split: option.splits)

lemma search_from_match: "search_from p s i = Some (a, st) \<Longrightarrow> a \<le> length s \<and> match_at p s a = Some st"
  using search_at_match [of p s _ a st] by (fastforce simp: search_from_def simp del: upt_Suc)

lemma find_all_match: "(a, st) \<in> set (find_all p s n i) \<Longrightarrow> a \<le> length s \<and> match_at p s a = Some st"
proof (induction n arbitrary: i)
  case (Suc n)
  show ?case
  proof (cases "search_from p s i")
    case (Some r)
    obtain b u where r: "r = (b, u)" by (cases r)
    with Some have hit: "search_from p s i = Some (b, u)" by simp
    from Suc.prems hit have "(a, st) = (b, u) \<or> (a, st) \<in> set (find_all p s n (max (fst u) (Suc b)))" by simp
    then show ?thesis using search_from_match [OF hit] Suc.IH by blast
  qed (use Suc.prems in simp)
qed simp

lemma finditer_match: "(a, st) \<in> set (finditer p s) \<Longrightarrow> a \<le> length s \<and> match_at p s a = Some st"
  unfolding finditer_def by (rule find_all_match)

text \<open>A pattern moves forward inside the text, and one without groups closes none.\<close>

lemma star_greedy_induct:
  assumes "t \<in> set (star_greedy f n st)" "P st" "\<And>u v. P u \<Longrightarrow> v \<in> set (f u) \<Longrightarrow> P v"
  shows "P t"
  using assms by (induction n arbitrary: st) auto

lemma star_lazy_induct:
  assumes "t \<in> set (star_lazy f n st)" "P st" "\<And>u v. P u \<Longrightarrow> v \<in> set (f u) \<Longrightarrow> P v"
  shows "P t"
  using assms by (induction n arbitrary: st) auto

lemma run_forward:
  "t \<in> set (pat_run p s st) \<Longrightarrow> fst st \<le> length s \<Longrightarrow> fst st \<le> fst t \<and> fst t \<le> length s"
proof (induction p arbitrary: t st)
  case (PSeq p q)
  then show ?case by (simp only: set_run_seq) (meson le_trans)
next
  case (PStar p)
  show ?case
    by (rule star_greedy_induct [OF PStar.prems(1) [unfolded pat_run.simps], where P = "\<lambda>u. fst st \<le> fst u \<and> fst u \<le> length s"])
      (use PStar in \<open>auto intro: le_trans\<close>)
next
  case (PLazy p)
  show ?case
    by (rule star_lazy_induct [OF PLazy.prems(1) [unfolded pat_run.simps], where P = "\<lambda>u. fst st \<le> fst u \<and> fst u \<le> length s"])
      (use PLazy in \<open>auto intro: le_trans\<close>)
next
  case (PGroup n p)
  from PGroup.prems(1) obtain u where "u \<in> set (pat_run p s st)" "fst t = fst u" by auto
  with PGroup.IH PGroup.prems(2) show ?case by auto
qed (auto split: if_splits)

primrec no_group :: "pat \<Rightarrow> bool" where
  "no_group PEps = True"
| "no_group (PChar P) = True"
| "no_group (PSeq p q) = (no_group p \<and> no_group q)"
| "no_group (PAlt p q) = (no_group p \<and> no_group q)"
| "no_group (PStar p) = no_group p"
| "no_group (PLazy p) = no_group p"
| "no_group PWb = True"
| "no_group PBol = True"
| "no_group PEol = True"
| "no_group (PGroup n p) = False"

lemma run_no_group: "t \<in> set (pat_run p s st) \<Longrightarrow> no_group p \<Longrightarrow> snd t = snd st"
proof (induction p arbitrary: t st)
  case (PSeq p q)
  then show ?case by (simp only: set_run_seq no_group.simps) metis
next
  case (PStar p)
  show ?case
    by (rule star_greedy_induct [OF PStar.prems(1) [unfolded pat_run.simps], where P = "\<lambda>u. snd u = snd st"])
      (use PStar in auto)
next
  case (PLazy p)
  show ?case
    by (rule star_lazy_induct [OF PLazy.prems(1) [unfolded pat_run.simps], where P = "\<lambda>u. snd u = snd st"])
      (use PLazy in auto)
qed (auto split: if_splits)

lemma run_group: "t \<in> set (pat_run (PGroup n p) s st) \<Longrightarrow> \<exists>u \<in> set (pat_run p s st). t = (fst u, (n, fst st, fst u) # snd u)"
  by auto

lemma run_ilit:
  "t \<in> set (pat_run (p_ilit w) s st) \<Longrightarrow> fst st \<le> length s \<Longrightarrow>
     \<exists>v. spans s (fst st) (fst t) v \<and> py_lower v = py_lower w"
proof (induction w arbitrary: st)
  case Nil
  then show ?case by (auto simp: p_ilit_def spans_refl py_lower_def)
next
  case (Cons c w)
  from Cons.prems(1) have i: "fst st < length s" "py_lower_char (s ! fst st) = py_lower_char c"
    and t: "t \<in> set (pat_run (p_ilit w) s (Suc (fst st), snd st))"
    by (auto simp: p_ilit_def split: if_splits)
  from Cons.IH [OF t] i obtain v where "spans s (Suc (fst st)) (fst t) v" "py_lower v = py_lower w" by auto
  with spans_append [OF spans_char [OF i(1)]] i(2) show ?case
    by (intro exI [of _ "s ! fst st # v"]) (auto simp: py_lower_def)
qed

lemma upper_of_lower_char:
  assumes "py_lower_char c = py_lower_char d" "65 \<le> (of_char d :: nat)" "(of_char d :: nat) \<le> 90"
  shows "py_upper_char c = d"
proof -
  let ?n = "of_char c :: nat" and ?m = "of_char d :: nat"
  have d: "py_lower_char d = char_of (?m + 32)" using assms by (simp add: py_lower_char_def Let_def)
  have lt: "(?m + 32) mod 256 = ?m + 32" using assms by simp
  consider "65 \<le> ?n \<and> ?n \<le> 90" | "192 \<le> ?n \<and> ?n \<le> 222 \<and> ?n \<noteq> 215" | "py_lower_char c = c"
    unfolding py_lower_char_def Let_def by argo
  then show ?thesis
  proof cases
    case 1
    then have "char_of (?n + 32) = (char_of (?m + 32) :: char)" using assms(1) d by (simp add: py_lower_char_def Let_def)
    then have "(?n + 32) mod 256 = (?m + 32) mod 256" by (metis of_char_of)
    then have "?n = ?m" using 1 assms(2,3) by simp
    then have "c = d" by (metis char_of_char)
    then show ?thesis using assms by (simp add: py_upper_char_def ascii_lower_letter_def Let_def)
  next
    case 2
    then have "char_of (?n + 32) = (char_of (?m + 32) :: char)" using assms(1) d by (simp add: py_lower_char_def Let_def)
    then have "(?n + 32) mod 256 = (?m + 32) mod 256" by (metis of_char_of)
    then show ?thesis using 2 assms(2,3) by simp
  next
    case 3
    then have "c = char_of (?m + 32)" using assms(1) d by simp
    then have "?n = ?m + 32" using lt by (metis of_char_of)
    then show ?thesis using assms(2,3) by (simp add: py_upper_char_def ascii_lower_letter_def Let_def)
  qed
qed

lemma upper_of_lower:
  "py_lower v = py_lower w \<Longrightarrow> \<forall>d \<in> set w. 65 \<le> (of_char d :: nat) \<and> (of_char d :: nat) \<le> 90 \<Longrightarrow> py_upper v = w"
proof (induction w arbitrary: v)
  case (Cons d w)
  then show ?case by (cases v) (auto simp: py_lower_def py_upper_def intro: upper_of_lower_char)
qed (simp add: py_lower_def py_upper_def)

end
