(* ===== verification/Config.thy ===== *)
theory Config
  imports Py_Match
begin

text \<open>
  \<open>~/.fa/config.yaml\<close>: the line reader shared by the configuration parsers
  (\<open>_yaml_line_parser.py\<close>, \<open>_yaml_subset.py\<close>), the capability flags (\<open>config.py\<close>) and the
  feature flags (\<open>feature_flags.py\<close>).
\<close>

section \<open>Lines\<close>

record parsed_line =
  pl_line_no :: nat
  pl_raw :: string
  pl_stripped :: string
  pl_indent :: nat
  pl_is_top_level :: bool

definition parse_line :: "nat \<Rightarrow> string \<Rightarrow> parsed_line option" where
  "parse_line line_no raw =
     (let line = py_rstrip raw; stripped = py_lstrip line; indent = length line - length stripped
      in if py_strip line = [] \<or> prefix ''#'' stripped then None
         else Some \<lparr>pl_line_no = line_no, pl_raw = line, pl_stripped = stripped, pl_indent = indent,
                    pl_is_top_level = (indent = 0)\<rparr>)"

definition iter_yaml_lines :: "string \<Rightarrow> parsed_line list" where
  "iter_yaml_lines text = List.map_filter (\<lambda>(i, raw). parse_line i raw)
     (zip [1..<Suc (length (splitlines text))] (splitlines text))"

text \<open>\<open>value.find(sub)\<close>\<close>

fun find_from :: "string \<Rightarrow> string \<Rightarrow> nat \<Rightarrow> nat option" where
  "find_from sub [] i = (if sub = [] then Some i else None)"
| "find_from sub (c # s) i = (if prefix sub (c # s) then Some i else find_from sub s (Suc i))"

definition strip_inline_comment :: "string \<Rightarrow> string" where
  "strip_inline_comment v =
     (case (find_from '' #'' v 0, find_from [CHR 0x09, CHR ''#''] v 0) of
        (None, None) \<Rightarrow> v
      | (None, Some t) \<Rightarrow> take t v
      | (Some s, None) \<Rightarrow> take s v
      | (Some s, Some t) \<Rightarrow> take (min s t) v)"

text \<open>\<open>stripped.partition(":")\<close> gives the key and the rest when \<open>":" in stripped\<close>.\<close>

abbreviation has_colon :: "string \<Rightarrow> bool" where "has_colon s \<equiv> CHR '':'' \<in> set s"

definition TRUE_LITERALS :: "string list" where "TRUE_LITERALS = [''true'', ''yes'', ''on'', ''1'']"
definition FALSE_LITERALS :: "string list" where "FALSE_LITERALS = [''false'', ''no'', ''off'', ''0'']"

record config_warning =
  cw_line_no :: nat
  cw_key :: string
  cw_detail :: string

section \<open>Capability flags\<close>

record capabilities =
  ENABLE_DYNAMIC_TOOLS :: bool
  REQUIRE_DYNAMIC_TOOL_SANDBOX :: bool
  ENABLE_MCP_GATEWAY_MANAGEMENT :: bool
  ENABLE_DYNAMIC_MCP_SERVERS :: bool
  ENABLE_SERVER_OPS :: bool

definition FLAG_NAMES :: "string list" where
  "FLAG_NAMES = [''ENABLE_DYNAMIC_TOOLS'', ''REQUIRE_DYNAMIC_TOOL_SANDBOX'', ''ENABLE_MCP_GATEWAY_MANAGEMENT'',
     ''ENABLE_DYNAMIC_MCP_SERVERS'', ''ENABLE_SERVER_OPS'']"

text \<open>\<open>Capabilities(**found)\<close>: a flag that was not found has its default \<open>False\<close>.\<close>

definition capabilities_of :: "(string, bool) pydict \<Rightarrow> capabilities" where
  "capabilities_of found =
     \<lparr>ENABLE_DYNAMIC_TOOLS = dict_get_default found ''ENABLE_DYNAMIC_TOOLS'' False,
      REQUIRE_DYNAMIC_TOOL_SANDBOX = dict_get_default found ''REQUIRE_DYNAMIC_TOOL_SANDBOX'' False,
      ENABLE_MCP_GATEWAY_MANAGEMENT = dict_get_default found ''ENABLE_MCP_GATEWAY_MANAGEMENT'' False,
      ENABLE_DYNAMIC_MCP_SERVERS = dict_get_default found ''ENABLE_DYNAMIC_MCP_SERVERS'' False,
      ENABLE_SERVER_OPS = dict_get_default found ''ENABLE_SERVER_OPS'' False\<rparr>"

definition capabilities_as_dict :: "capabilities \<Rightarrow> (string, bool) pydict" where
  "capabilities_as_dict c = zip FLAG_NAMES [ENABLE_DYNAMIC_TOOLS c, REQUIRE_DYNAMIC_TOOL_SANDBOX c,
     ENABLE_MCP_GATEWAY_MANAGEMENT c, ENABLE_DYNAMIC_MCP_SERVERS c, ENABLE_SERVER_OPS c]"

record cap_state =
  cs_found :: "(string, bool) pydict"
  cs_warnings :: "config_warning list"
  cs_in_block :: bool

definition cap_warn :: "nat \<Rightarrow> string \<Rightarrow> string \<Rightarrow> cap_state \<Rightarrow> cap_state" where
  "cap_warn n k d st = st\<lparr>cs_warnings := cs_warnings st @ [\<lparr>cw_line_no = n, cw_key = k, cw_detail = d\<rparr>]\<rparr>"

definition cap_key :: "string \<Rightarrow> string" where
  "cap_key stripped = py_strip (fst (py_partition1 (CHR '':'') stripped))"

definition cap_value :: "string \<Rightarrow> string" where
  "cap_value stripped = py_lower (py_strip (strip_inline_comment (snd (py_partition1 (CHR '':'') stripped))))"

definition cap_line :: "parsed_line \<Rightarrow> cap_state \<Rightarrow> cap_state py_result" where
  "cap_line l st =
     (let stripped = pl_stripped l; n = pl_line_no l; key = cap_key stripped; v = cap_value stripped in
      if pl_is_top_level l then Inr (st\<lparr>cs_in_block := prefix ''capabilities:'' stripped\<rparr>)
      else if \<not> cs_in_block st then Inr st
      else if prefix ''- '' stripped
      then Inl (Exn ValueError (''capability flags must be a key-value map, not a list (line '' @ nat_str n @ ''): '' @
             py_repr (pl_raw l)))
      else if \<not> has_colon stripped then Inr (cap_warn n stripped (''missing '' @ py_repr '':'' @ '' separator'') st)
      else if key \<notin> set FLAG_NAMES then Inr (cap_warn n key ''not a recognised capability flag'' st)
      else if v \<in> set TRUE_LITERALS then Inr (st\<lparr>cs_found := AList.update key True (cs_found st)\<rparr>)
      else if v \<in> set FALSE_LITERALS then Inr (st\<lparr>cs_found := AList.update key False (cs_found st)\<rparr>)
      else Inr (cap_warn n key (''value '' @ py_repr v @
             '' is not boolean; expected true/false/yes/no/on/off/0/1'') st))"

fun cap_lines :: "parsed_line list \<Rightarrow> cap_state \<Rightarrow> cap_state py_result" where
  "cap_lines [] st = Inr st"
| "cap_lines (l # ls) st = rbind (cap_line l st) (cap_lines ls)"

definition load_capabilities :: "string \<Rightarrow> (capabilities \<times> config_warning list) py_result" where
  "load_capabilities text =
     rbind (cap_lines (iter_yaml_lines text) \<lparr>cs_found = [], cs_warnings = [], cs_in_block = False\<rparr>)
       (\<lambda>st. Inr (capabilities_of (cs_found st), cs_warnings st))"

text \<open>The file: \<open>None\<close> when it does not exist, an error of \<open>read_text\<close>, or its text.\<close>

definition load_capabilities_from_path :: "string option py_result \<Rightarrow> (capabilities \<times> config_warning list) py_result" where
  "load_capabilities_from_path file =
     rbind file (\<lambda>content. case content of
        None \<Rightarrow> Inr (capabilities_of [], [])
      | Some text \<Rightarrow> load_capabilities text)"

section \<open>Feature flags\<close>

record feature_flags =
  ff_blackboard_enabled :: bool
  ff_telemetry_enabled :: bool
  ff_tool_batching_enabled :: bool
  ff_subagent_spawning_enabled :: bool
  ff_context_budget_enabled :: bool
  ff_pty_pool_max_size :: int
  ff_worktree_mode :: string
  ff_fts_db_path :: string
  ff_prompt_caching :: bool
  ff_max_subagent_spawns_per_session :: int
  ff_blackboard_filtered_history_include_plans :: bool
  ff_max_chain_retries :: int
  ff_intent_guard_mode :: string
  ff_coder_slice_ceremony_mode :: string

definition default_flags :: feature_flags where
  "default_flags = \<lparr>ff_blackboard_enabled = True, ff_telemetry_enabled = True, ff_tool_batching_enabled = True,
     ff_subagent_spawning_enabled = False, ff_context_budget_enabled = True, ff_pty_pool_max_size = 2,
     ff_worktree_mode = ''shared'', ff_fts_db_path = ''.fa/fts.db'', ff_prompt_caching = True,
     ff_max_subagent_spawns_per_session = 3, ff_blackboard_filtered_history_include_plans = False,
     ff_max_chain_retries = 0, ff_intent_guard_mode = ''enforce'', ff_coder_slice_ceremony_mode = ''observe''\<rparr>"

definition LEGACY_FLAGS :: "string list" where "LEGACY_FLAGS = [''context_compaction_enabled'']"

definition KNOWN_FLAGS :: "(string, string) pydict" where
  "KNOWN_FLAGS = [(''blackboard.enabled'', ''bool''), (''telemetry.enabled'', ''bool''),
     (''tool_batching.enabled'', ''bool''), (''subagent_spawning_enabled'', ''bool''),
     (''context_budget_enabled'', ''bool''), (''pty_pool.max_size'', ''int''), (''pty_pool_max_size'', ''int''),
     (''worktree.mode'', ''str''), (''worktree_mode'', ''str''), (''memory.fts_db_path'', ''str''),
     (''fts_db_path'', ''str''), (''prompt.caching'', ''bool''), (''max_subagent_spawns_per_session'', ''int''),
     (''blackboard.filtered_history_include_plans'', ''bool''), (''max_chain_retries'', ''int''),
     (''intent_guard.mode'', ''str''), (''intent_guard_mode'', ''str''),
     (''injections.coder_slice_ceremony.mode'', ''str''), (''coder_slice_ceremony_mode'', ''str'')]"

datatype flag_value = FBool bool | FInt int | FStr string

definition parse_bool :: "string \<Rightarrow> bool option" where
  "parse_bool v = (let low = py_lower v in
     if low \<in> set TRUE_LITERALS then Some True else if low \<in> set FALSE_LITERALS then Some False else None)"

definition build_dotted :: "(nat \<times> string) list \<Rightarrow> nat \<Rightarrow> string \<Rightarrow> string" where
  "build_dotted stack indent key =
     (let active = map snd (filter (\<lambda>(i, _). i < indent) stack)
      in if active = [] then key else if CHR ''.'' \<in> set key then key else py_join ''.'' (active @ [key]))"

definition normalize_key :: "string \<Rightarrow> string" where
  "normalize_key dotted =
     (let renamed = py_replace1 (CHR ''_'') ''.'' dotted
      in if dotted \<in> fst ` set KNOWN_FLAGS then dotted
         else if renamed \<in> fst ` set KNOWN_FLAGS then renamed else dotted)"

definition flag_truthy :: "flag_value \<Rightarrow> bool" where
  "flag_truthy v = (case v of FBool b \<Rightarrow> b | FInt i \<Rightarrow> i \<noteq> 0 | FStr s \<Rightarrow> s \<noteq> [])"

definition get_bool :: "(string, flag_value) pydict \<Rightarrow> string \<Rightarrow> bool \<Rightarrow> bool" where
  "get_bool found k d = (case map_of found k of Some v \<Rightarrow> flag_truthy v | None \<Rightarrow> d)"

fun get_int :: "(string, flag_value) pydict \<Rightarrow> string list \<Rightarrow> int \<Rightarrow> int" where
  "get_int found [] d = d"
| "get_int found (k # ks) d =
     (case map_of found k of
        None \<Rightarrow> get_int found ks d
      | Some (FInt i) \<Rightarrow> i
      | Some (FBool b) \<Rightarrow> (if b then 1 else 0)
      | Some (FStr s) \<Rightarrow> (case py_int s of Some i \<Rightarrow> i | None \<Rightarrow> get_int found ks d))"

fun get_str :: "(string, flag_value) pydict \<Rightarrow> string list \<Rightarrow> string \<Rightarrow> string" where
  "get_str found [] d = d"
| "get_str found (k # ks) d =
     (case map_of found k of
        None \<Rightarrow> get_str found ks d
      | Some (FStr s) \<Rightarrow> s
      | Some (FInt i) \<Rightarrow> int_str i
      | Some (FBool b) \<Rightarrow> (if b then ''True'' else ''False''))"

record flag_state =
  fg_found :: "(string, flag_value) pydict"
  fg_warnings :: "config_warning list"
  fg_in_block :: bool
  fg_prefix_stack :: "(nat \<times> string) list"

definition flag_warn :: "nat \<Rightarrow> string \<Rightarrow> string \<Rightarrow> flag_state \<Rightarrow> flag_state" where
  "flag_warn n k d st = st\<lparr>fg_warnings := fg_warnings st @ [\<lparr>cw_line_no = n, cw_key = k, cw_detail = d\<rparr>]\<rparr>"

definition flag_store :: "string \<Rightarrow> flag_value \<Rightarrow> flag_state \<Rightarrow> flag_state" where
  "flag_store k v st = st\<lparr>fg_found := AList.update k v (fg_found st)\<rparr>"

text \<open>A known key with its value text: stored by its declared type, or a warning.\<close>

definition flag_value_line :: "nat \<Rightarrow> string \<Rightarrow> string \<Rightarrow> flag_state \<Rightarrow> flag_state" where
  "flag_value_line n dotted v st =
     (let expected = dict_get_default KNOWN_FLAGS dotted ''str'' in
      if expected = ''bool''
      then (case parse_bool v of
              None \<Rightarrow> flag_warn n dotted (''not bool: '' @ py_repr v) st
            | Some b \<Rightarrow> flag_store dotted (FBool b) st)
      else if expected = ''int''
      then (case py_int v of
              None \<Rightarrow> flag_warn n dotted (''parse error: invalid literal for int() with base 10: '' @ py_repr v) st
            | Some i \<Rightarrow> flag_store dotted (FInt i) st)
      else flag_store dotted (FStr v) st)"

definition flag_line :: "parsed_line \<Rightarrow> flag_state \<Rightarrow> flag_state" where
  "flag_line l st =
     (let stripped = pl_stripped l; n = pl_line_no l; indent = pl_indent l;
          key = cap_key stripped;
          rest = py_strip (strip_inline_comment (snd (py_partition1 (CHR '':'') stripped)));
          dotted = normalize_key (build_dotted (fg_prefix_stack st) indent key) in
      if pl_is_top_level l then st\<lparr>fg_in_block := prefix ''feature_flags:'' stripped, fg_prefix_stack := []\<rparr>
      else if \<not> fg_in_block st then st
      else if prefix ''- '' stripped then flag_warn n stripped ''list not expected'' st
      else if \<not> has_colon stripped then st
      else if rest = []
      then st\<lparr>fg_prefix_stack := filter (\<lambda>(i, _). i < indent) (fg_prefix_stack st) @ [(indent, key)]\<rparr>
      else if dotted \<in> set LEGACY_FLAGS
      then flag_warn n dotted
             ''deprecated and ignored; use models.yaml compaction_threshold presence to enable compaction'' st
      else if dotted \<notin> fst ` set KNOWN_FLAGS then flag_warn n dotted ''unknown flag'' st
      else flag_value_line n dotted (py_strip_chars [CHR 0x27] (py_strip_chars [CHR 0x22] (py_strip rest))) st)"

definition flags_of :: "(string, flag_value) pydict \<Rightarrow> feature_flags" where
  "flags_of found = \<lparr>
     ff_blackboard_enabled = get_bool found ''blackboard.enabled'' True,
     ff_telemetry_enabled = get_bool found ''telemetry.enabled'' True,
     ff_tool_batching_enabled = get_bool found ''tool_batching.enabled'' True,
     ff_subagent_spawning_enabled = get_bool found ''subagent_spawning_enabled'' False,
     ff_context_budget_enabled = get_bool found ''context_budget_enabled'' True,
     ff_pty_pool_max_size = get_int found [''pty_pool.max_size'', ''pty_pool_max_size''] 2,
     ff_worktree_mode = get_str found [''worktree.mode'', ''worktree_mode''] ''shared'',
     ff_fts_db_path = get_str found [''memory.fts_db_path'', ''fts_db_path''] ''.fa/fts.db'',
     ff_prompt_caching = get_bool found ''prompt.caching'' True,
     ff_max_subagent_spawns_per_session = get_int found [''max_subagent_spawns_per_session''] 3,
     ff_blackboard_filtered_history_include_plans = get_bool found ''blackboard.filtered_history_include_plans'' False,
     ff_max_chain_retries = get_int found [''max_chain_retries''] 0,
     ff_intent_guard_mode = get_str found [''intent_guard.mode'', ''intent_guard_mode''] ''enforce'',
     ff_coder_slice_ceremony_mode = get_str found
       [''injections.coder_slice_ceremony.mode'', ''coder_slice_ceremony_mode''] ''observe''\<rparr>"

definition load_feature_flags :: "string \<Rightarrow> feature_flags \<times> config_warning list" where
  "load_feature_flags text =
     (let st = fold flag_line (iter_yaml_lines text)
                 \<lparr>fg_found = [], fg_warnings = [], fg_in_block = False, fg_prefix_stack = []\<rparr>
      in (flags_of (fg_found st), fg_warnings st))"

definition load_feature_flags_from_path :: "string option py_result \<Rightarrow> (feature_flags \<times> config_warning list) py_result" where
  "load_feature_flags_from_path file =
     rbind file (\<lambda>content. case content of
        None \<Rightarrow> Inr (default_flags, [])
      | Some text \<Rightarrow> Inr (load_feature_flags text))"

section \<open>Capabilities are opt-in\<close>

text \<open>\<open>in_block_of hd ls\<close>: after the lines \<open>ls\<close> the reader is inside a section whose top-level line
  starts with \<open>hd\<close>; \<open>granted ls name\<close>: a line of a capabilities section sets the flag to a true literal.\<close>

definition in_block_of :: "string \<Rightarrow> parsed_line list \<Rightarrow> bool" where
  "in_block_of start ls \<longleftrightarrow> (\<exists>pre h mid. ls = pre @ h # mid \<and> pl_is_top_level h \<and> prefix start (pl_stripped h) \<and>
     (\<forall>m \<in> set mid. \<not> pl_is_top_level m))"

definition granted :: "parsed_line list \<Rightarrow> string \<Rightarrow> bool" where
  "granted ls name \<longleftrightarrow> (\<exists>pre l post. ls = pre @ l # post \<and> in_block_of ''capabilities:'' pre \<and>
     \<not> pl_is_top_level l \<and> cap_key (pl_stripped l) = name \<and> cap_value (pl_stripped l) \<in> set TRUE_LITERALS)"

lemma granted_snoc: "granted ls name \<Longrightarrow> granted (ls @ [l]) name"
  unfolding granted_def by (metis append.assoc append_Cons)

lemma granted_here:
  "in_block_of ''capabilities:'' ls \<Longrightarrow> \<not> pl_is_top_level l \<Longrightarrow> cap_value (pl_stripped l) \<in> set TRUE_LITERALS \<Longrightarrow>
     granted (ls @ [l]) (cap_key (pl_stripped l))"
  unfolding granted_def by blast

lemma in_block_top: "pl_is_top_level l \<Longrightarrow> prefix start (pl_stripped l) \<Longrightarrow> in_block_of start (ls @ [l])"
  unfolding in_block_of_def by (intro exI [of _ ls] exI [of _ l] exI [of _ "[]"]) simp

lemma in_block_snoc: "in_block_of start ls \<Longrightarrow> \<not> pl_is_top_level l \<Longrightarrow> in_block_of start (ls @ [l])"
proof -
  assume "in_block_of start ls" and l: "\<not> pl_is_top_level l"
  then obtain pre h mid where "ls = pre @ h # mid" "pl_is_top_level h" "prefix start (pl_stripped h)"
    "\<forall>m \<in> set mid. \<not> pl_is_top_level m" by (auto simp: in_block_of_def)
  with l show ?thesis unfolding in_block_of_def by (intro exI [of _ pre] exI [of _ h] exI [of _ "mid @ [l]"]) auto
qed

lemma cap_lines_snoc: "cap_lines (ls @ [l]) st = rbind (cap_lines ls st) (cap_line l)"
  by (induction ls arbitrary: st) (auto simp: rbind_def split: sum.splits)

definition cap_inv :: "parsed_line list \<Rightarrow> cap_state \<Rightarrow> bool" where
  "cap_inv ls st \<longleftrightarrow> (cs_in_block st \<longrightarrow> in_block_of ''capabilities:'' ls) \<and>
     (\<forall>k. map_of (cs_found st) k = Some True \<longrightarrow> granted ls k)"

lemma cap_line_inv: "cap_inv ls st \<Longrightarrow> cap_line l st = Inr st' \<Longrightarrow> cap_inv (ls @ [l]) st'"
  unfolding cap_inv_def cap_line_def Let_def
  by (auto split: if_splits simp: cap_warn_def update_conv' intro: granted_snoc in_block_top in_block_snoc
      intro!: granted_here)

lemma cap_lines_inv:
  "cap_lines ls \<lparr>cs_found = [], cs_warnings = [], cs_in_block = False\<rparr> = Inr st \<Longrightarrow> cap_inv ls st"
proof (induction ls arbitrary: st rule: rev_induct)
  case Nil
  then show ?case by (auto simp: cap_inv_def)
next
  case (snoc l ls)
  then show ?case by (auto simp: cap_lines_snoc intro: cap_line_inv)
qed

text \<open>Capabilities are denied unless the operator grants them: if loading the configuration file
  yields a record with a flag set, then the file exists and a line inside a section that starts with
  \<open>capabilities:\<close> names exactly that flag with one of the true literals. A missing file grants nothing.\<close>

theorem capabilities_opt_in:
  assumes "load_capabilities_from_path file = Inr (caps, ws)" and "(name, True) \<in> set (capabilities_as_dict caps)"
  shows "\<exists>text. file = Inr (Some text) \<and> granted (iter_yaml_lines text) name"
proof -
  have dict: "map_of found name = Some True" if "(name, True) \<in> set (capabilities_as_dict (capabilities_of found))" for found
    using that by (auto simp: capabilities_as_dict_def capabilities_of_def FLAG_NAMES_def dict_get_default_def
        split: option.splits)
  obtain content where f: "file = Inr content" using assms(1) by (auto simp: load_capabilities_from_path_def)
  show ?thesis
  proof (cases content)
    case None
    with assms f dict [of "[]"] show ?thesis by (auto simp: load_capabilities_from_path_def)
  next
    case (Some doc)
    with assms(1) f obtain st
      where st: "cap_lines (iter_yaml_lines doc) \<lparr>cs_found = [], cs_warnings = [], cs_in_block = False\<rparr> = Inr st"
        and caps: "caps = capabilities_of (cs_found st)"
      by (auto simp: load_capabilities_from_path_def load_capabilities_def)
    from dict assms(2) caps have "map_of (cs_found st) name = Some True" by blast
    with cap_lines_inv [OF st] show ?thesis using f Some by (auto simp: cap_inv_def)
  qed
qed

definition demo_config :: string where
  "demo_config = ''capabilities:'' @ [CHR 0x0A] @ ''  ENABLE_SERVER_OPS: yes # ok'' @ [CHR 0x0A]"

lemma demo_capabilities:
  "load_capabilities_from_path (Inr (Some demo_config)) =
     Inr (\<lparr>ENABLE_DYNAMIC_TOOLS = False, REQUIRE_DYNAMIC_TOOL_SANDBOX = False, ENABLE_MCP_GATEWAY_MANAGEMENT = False,
           ENABLE_DYNAMIC_MCP_SERVERS = False, ENABLE_SERVER_OPS = True\<rparr>, [])"
  by code_simp

theorem capabilities_opt_in_witness: "granted (iter_yaml_lines demo_config) ''ENABLE_SERVER_OPS''"
  using capabilities_opt_in [OF demo_capabilities, of "''ENABLE_SERVER_OPS''"]
  by (simp add: capabilities_as_dict_def FLAG_NAMES_def)

lemma flags_of_empty: "flags_of [] = default_flags"
  by (simp add: flags_of_def default_flags_def get_bool_def)

text \<open>A text without a \<open>feature_flags:\<close> section gives the defaults.\<close>

definition flags_untouched :: "flag_state \<Rightarrow> bool" where
  "flags_untouched st \<longleftrightarrow> fg_found st = [] \<and> fg_warnings st = [] \<and> \<not> fg_in_block st"

lemma flag_line_untouched:
  "flags_untouched st \<Longrightarrow> pl_is_top_level l \<longrightarrow> \<not> prefix ''feature_flags:'' (pl_stripped l) \<Longrightarrow> flags_untouched (flag_line l st)"
  by (auto simp: flags_untouched_def flag_line_def Let_def)

lemma flag_lines_untouched:
  "\<forall>l \<in> set ls. pl_is_top_level l \<longrightarrow> \<not> prefix ''feature_flags:'' (pl_stripped l) \<Longrightarrow> flags_untouched st \<Longrightarrow>
     flags_untouched (fold flag_line ls st)"
  by (induction ls arbitrary: st) (auto intro: flag_line_untouched)

lemma no_flag_section:
  assumes "\<forall>l \<in> set (iter_yaml_lines text). pl_is_top_level l \<longrightarrow> \<not> prefix ''feature_flags:'' (pl_stripped l)"
  shows "load_feature_flags text = (default_flags, [])"
  using flag_lines_untouched [OF assms, of "\<lparr>fg_found = [], fg_warnings = [], fg_in_block = False, fg_prefix_stack = []\<rparr>"]
  by (simp add: flags_untouched_def load_feature_flags_def Let_def flags_of_empty)

end
