(* ===== verification/Builtin_Hooks.thy ===== *)
theory Builtin_Hooks
  imports Recovery Cost_Guardian Pause Config
begin

text \<open>
  Middleware of \<open>fa/inner_loop/hooks/builtin.py\<close> (pause, capability and approval guards, the audit
  observer, the result of a denial) and the two observers of
  \<open>fa/inner_loop/hooks/recovery_observers.py\<close>.

  The pause guard reads the sentinel directory of theory \<open>Pause\<close>; the capability guard gets the
  flags that \<open>load_capabilities_from_path\<close> returned for the dispatch.
\<close>

definition default_tool_result_for_denial :: "string \<Rightarrow> tool_result py_result" where
  "default_tool_result_for_denial reason = tool_result_fail ''hook_deny'' reason False None"

section \<open>Guards\<close>

definition pause_guard_handle :: "pause_world guard_handle" where
  "pause_guard_handle point payload w =
     (if is_paused RATE_LIMIT w
      then (decision_deny (''pause sentinel active: '' @ pause_kind_value RATE_LIMIT), w)
      else if is_paused AUTH w
      then (decision_deny (''pause sentinel active: '' @ pause_kind_value AUTH), w)
      else (Inr decision_allow, w))"

text \<open>\<open>command.split(maxsplit=1)[0]\<close>, if there is a token.\<close>

definition head_token :: "string \<Rightarrow> string option" where
  "head_token s = (let t = py_lstrip s in if t = [] then None else Some (takeWhile (\<lambda>c. \<not> py_space c) t))"

definition capability_guard :: "capabilities \<Rightarrow> lifecycle_point \<Rightarrow> hook_payload \<Rightarrow> decision py_result" where
  "capability_guard caps point payload =
     (case hp_tool_call payload of
        None \<Rightarrow> Inr decision_allow
      | Some call \<Rightarrow>
         (if py_startswith (tc_name call) ''dynamic.'' \<and> \<not> ENABLE_DYNAMIC_TOOLS caps
          then decision_deny ''ENABLE_DYNAMIC_TOOLS is false''
          else if py_startswith (tc_name call) ''mcp.gateway.'' \<and> \<not> ENABLE_MCP_GATEWAY_MANAGEMENT caps
          then decision_deny ''ENABLE_MCP_GATEWAY_MANAGEMENT is false''
          else if py_startswith (tc_name call) ''mcp.server.'' \<and> \<not> ENABLE_DYNAMIC_MCP_SERVERS caps
          then decision_deny ''ENABLE_DYNAMIC_MCP_SERVERS is false''
          else if tc_name call \<in> {''fs_run_bash'', ''fs_spawn_subagent''}
          then (case dict_get (tc_params call) ''command'' of
                  Some (JStr command) \<Rightarrow>
                    (case head_token command of
                       Some h \<Rightarrow> (if h \<in> {''deploy'', ''restart'', ''scale''} \<and> \<not> ENABLE_SERVER_OPS caps
                                  then decision_deny ''ENABLE_SERVER_OPS is false'' else Inr decision_allow)
                     | None \<Rightarrow> Inr decision_allow)
                | _ \<Rightarrow> Inr decision_allow)
          else Inr decision_allow))"

definition approval_hook :: "bool \<Rightarrow> lifecycle_point \<Rightarrow> hook_payload \<Rightarrow> decision py_result" where
  "approval_hook require_write_approval point payload =
     (case hp_tool_call payload of
        None \<Rightarrow> Inr decision_allow
      | Some call \<Rightarrow>
         (if \<not> require_write_approval then Inr decision_allow
          else if tc_name call \<in> {''fs_write_file'', ''fs_run_bash'', ''fs_spawn_subagent''}
          then decision_deny ''write approval required''
          else Inr decision_allow))"

section \<open>Observers\<close>

record audit_hook =
  au_events :: "json_obj list"
  au_event_log :: "event_log option"

definition opt_append ::
  "event_log option \<Rightarrow> string \<Rightarrow> json_obj \<Rightarrow> tool_call option \<Rightarrow> py_exc option \<times> event_log option" where
  "opt_append elog kind content call =
     (case elog of
        None \<Rightarrow> (None, None)
      | Some l \<Rightarrow>
         (case event_log_append ''hook'' kind content (case call of None \<Rightarrow> [] | Some c \<Rightarrow> tc_name c)
                 (case call of None \<Rightarrow> [] | Some c \<Rightarrow> tc_call_id c) [] l of
            (Inl e, l') \<Rightarrow> (Some e, Some l')
          | (Inr _, l') \<Rightarrow> (None, Some l')))"

definition audit_observe :: "audit_hook observe_handle" where
  "audit_observe point payload a =
     (let row = [(''point'', JStr (point_value point)),
                 (''tool'', JStr (case hp_tool_call payload of None \<Rightarrow> [] | Some c \<Rightarrow> tc_name c)),
                 (''ok'', JBool (case hp_tool_result payload of None \<Rightarrow> False | Some r \<Rightarrow> tr_error r = None)),
                 (''summary'', JStr (case hp_tool_result payload of None \<Rightarrow> [] | Some r \<Rightarrow> tr_summary r))];
          a1 = a\<lparr>au_events := au_events a @ [row]\<rparr>
      in case opt_append (au_event_log a1) ''audit'' row (hp_tool_call payload) of
           (err, l) \<Rightarrow> (err, a1\<lparr>au_event_log := l\<rparr>))"

record failure_classifier =
  fc_event_log :: "event_log option"
  fc_recent_actions :: "recovery_action list"

definition failure_classifier_observe :: "failure_classifier observe_handle" where
  "failure_classifier_observe point payload s =
     (if point \<noteq> AFTER_TOOL_EXEC then (None, s)
      else case hp_tool_result payload of
        None \<Rightarrow> (None, s)
      | Some r \<Rightarrow>
         (case tr_error r of
            None \<Rightarrow> (None, s)
          | Some err \<Rightarrow>
             (let target = (case hp_tool_call payload of None \<Rightarrow> [] | Some c \<Rightarrow> tc_name c) in
              case classify_result r target of
                None \<Rightarrow> (None, s)
              | Some action \<Rightarrow>
                 (let s1 = s\<lparr>fc_recent_actions := fc_recent_actions s @ [action]\<rparr> in
                  case opt_append (fc_event_log s1) ''recovery_action''
                    [(''category'', JStr (category_value (ra_category action))),
                     (''action'', JStr (recovery_kind_value (ra_kind action))),
                     (''target'', JStr (ra_target action)), (''reason'', JStr (ra_reason action)),
                     (''retryable'', JBool (ra_retryable action)), (''error_code'', JStr (te_code err))]
                    (hp_tool_call payload) of
                    (e, l) \<Rightarrow> (e, s1\<lparr>fc_event_log := l\<rparr>)))))"

text \<open>\<open>ao_time\<close> is what the injected time source returns (\<open>None\<close>: absent or unusable), \<open>ao_clock\<close> is
  \<open>time.time()\<close>.\<close>

record attempt_observer =
  ao_history :: attempt_history
  ao_time :: "rat option"
  ao_clock :: rat

definition attempt_history_observe ::
  "(string \<Rightarrow> string) \<Rightarrow> (rat \<Rightarrow> string) \<Rightarrow> attempt_observer observe_handle" where
  "attempt_history_observe sha fr point payload s =
     (if point \<noteq> AFTER_TOOL_EXEC then (None, s)
      else case (hp_tool_call payload, hp_tool_result payload) of
        (Some call, Some r) \<Rightarrow>
          (case tr_error r of
             None \<Rightarrow> (None, s)
           | Some err \<Rightarrow>
              (case classify_result r (tc_name call) of
                 None \<Rightarrow> (None, s)
               | Some action \<Rightarrow>
                  (None, s\<lparr>ao_history := snd (history_append (tc_name call)
                     (canonical_params_hash sha fr (tc_name call) (tc_params call))
                     (te_code err) (te_message err) (recovery_kind_value (ra_kind action))
                     (category_value (ra_category action)) (ao_time s) (ao_clock s) (ao_history s))\<rparr>)))
      | _ \<Rightarrow> (None, s))"

section \<open>Contracts\<close>

interpretation pg: guard_contract pause_guard_handle "\<lambda>_. True"
  by unfold_locales (auto simp: pause_guard_handle_def split: if_splits)

definition answers :: "decision py_result \<Rightarrow> bool" where
  "answers d \<longleftrightarrow> d = Inr decision_allow \<or> (\<exists>reason. reason \<noteq> [] \<and> d = decision_deny reason)"

lemma answers_intros:
  "answers (Inr decision_allow)" "reason \<noteq> [] \<Longrightarrow> answers (decision_deny reason)"
  "answers a \<Longrightarrow> answers b \<Longrightarrow> answers (if c then a else b)"
  by (auto simp: answers_def)

lemma answers_option: "answers a \<Longrightarrow> (\<And>y. answers (f y)) \<Longrightarrow> answers (case x of None \<Rightarrow> a | Some y \<Rightarrow> f y)"
  by (cases x) auto

lemma answers_str:
  "(\<And>s. answers (f s)) \<Longrightarrow> answers (case v of JStr s \<Rightarrow> f s | _ \<Rightarrow> Inr decision_allow)"
  by (cases v) (auto intro: answers_intros)

lemma capability_answer: "answers (capability_guard caps pt p)"
  unfolding capability_guard_def by (intro answers_option answers_str answers_intros) simp_all

interpretation caps: pure_guard "capability_guard c"
  by unfold_locales (rule capability_answer [unfolded answers_def])

interpretation appr: pure_guard "approval_hook b"
  by unfold_locales (auto simp: approval_hook_def split: option.splits)

section \<open>Properties\<close>

text \<open>A resumed rate-limit wait does not reopen the loop while an authentication pause stands: after
  \<open>wait_for_resume\<close> consumed the resume signal for one kind, the pause guard still denies every
  further round, naming the other pause.\<close>

theorem pause_guard_after_resume:
  assumes "is_paused RATE_LIMIT w" and "is_paused AUTH w" and "pw_files w RESUME_FILE \<noteq> None"
  shows "\<exists>w'. wait_for_resume sleeper RATE_LIMIT budget w = Some (RESUMED, w') \<and>
     pause_guard_handle pt p w' = (decision_deny ''pause sentinel active: auth'', w')"
proof -
  let ?w' = "clear_sentinels RATE_LIMIT w"
  have "wait_for_resume sleeper RATE_LIMIT budget w = Some (RESUMED, ?w')"
    unfolding wait_for_resume_def Let_def using assms(3) by (subst wait_loop.simps) simp
  moreover have "\<not> is_paused RATE_LIMIT ?w'" "is_paused AUTH ?w'"
    using assms(2) by (auto simp: is_paused_def clear_sentinels_def RESUME_FILE_def
        RATE_LIMIT_PAUSE_FILE_def AUTH_PAUSE_FILE_def)
  ultimately show ?thesis by (auto simp: pause_guard_handle_def)
qed

definition demo_paused :: pause_world where
  "demo_paused = write_resume (write_pause AUTH ''401'' (write_pause RATE_LIMIT ''429'' \<lparr>pw_files = Map.empty, pw_clock = 0\<rparr>))"

theorem pause_guard_after_resume_witness:
  "\<exists>w'. wait_for_resume demo_sleeper RATE_LIMIT None demo_paused = Some (RESUMED, w') \<and>
     pause_guard_handle BETWEEN_ROUNDS (demo_payload ''coder'') w' = (decision_deny ''pause sentinel active: auth'', w')"
proof -
  have "is_paused RATE_LIMIT demo_paused" "is_paused AUTH demo_paused" "pw_files demo_paused RESUME_FILE \<noteq> None"
    by (simp_all add: demo_paused_def is_paused_def write_resume_def write_pause_def RESUME_FILE_def
        RATE_LIMIT_PAUSE_FILE_def AUTH_PAUSE_FILE_def)
  from pause_guard_after_resume [OF this] show ?thesis .
qed

text \<open>Capability flags deny by default: with every flag off, a call is allowed only if its name is
  outside the dynamic, gateway and server namespaces and, for a shell-like tool, its command does
  not start with a server operation; a flag that is on lifts only its own restriction.\<close>

theorem capability_deny_by_default:
  "(capability_guard \<lparr>ENABLE_DYNAMIC_TOOLS = False, REQUIRE_DYNAMIC_TOOL_SANDBOX = b,
      ENABLE_MCP_GATEWAY_MANAGEMENT = False, ENABLE_DYNAMIC_MCP_SERVERS = False, ENABLE_SERVER_OPS = False\<rparr>
      pt (p\<lparr>hp_tool_call := Some call\<rparr>) = Inr decision_allow) \<longleftrightarrow>
     \<not> prefix ''dynamic.'' (tc_name call) \<and> \<not> prefix ''mcp.gateway.'' (tc_name call) \<and>
     \<not> prefix ''mcp.server.'' (tc_name call) \<and>
     \<not> (tc_name call \<in> {''fs_run_bash'', ''fs_spawn_subagent''} \<and>
        (\<exists>command h. map_of (tc_params call) ''command'' = Some (JStr command) \<and>
           head_token command = Some h \<and> h \<in> {''deploy'', ''restart'', ''scale''}))"
proof -
  have differ: "r \<noteq> [] \<Longrightarrow> decision_deny r \<noteq> Inr decision_allow" for r
    by (simp add: decision_deny_def decision_allow_def)
  show ?thesis
    by (auto simp: capability_guard_def py_startswith_def differ split: option.splits json.splits)
qed

end
