(* ===== verification/Loop_Guard.thy ===== *)
theory Loop_Guard
  imports Recovery "HOL-Library.Product_Lexorder"
begin

text \<open>
  The non-progress circuit breaker of \<open>fa/inner_loop/hooks/loop_guard.py\<close>: the trailing window
  of tool-call signatures, the identical-repeat detector and the ping-pong detector.

  The warn sink is best-effort; its calls are kept in \<open>lg_emitted\<close>. The window \<open>deque(maxlen=n)\<close>
  is a list cut to its last \<open>n\<close> elements by every append.
\<close>

definition LOOP_GUARD_REASON_PREFIX :: string where
  "LOOP_GUARD_REASON_PREFIX = ''LoopGuard: ''"

record lg_observation =
  ob_tool_name :: string
  ob_params_hash :: string

type_synonym signature = "string \<times> string"

record loop_guard =
  lg_repeat_warn :: int
  lg_circuit_breaker :: int
  lg_window :: int
  lg_pingpong_warn_cycles :: int
  lg_pingpong_break_cycles :: int
  lg_has_sink :: bool
  lg_observations :: "lg_observation list"
  lg_warned :: "signature list"
  lg_emitted :: "(string \<times> string) list"

definition loop_guard_init :: "int \<Rightarrow> int \<Rightarrow> int \<Rightarrow> int \<Rightarrow> int \<Rightarrow> bool \<Rightarrow> loop_guard py_result" where
  "loop_guard_init repeat_warn circuit_breaker window pingpong_warn_cycles pingpong_break_cycles sink =
     (if repeat_warn < 1 then Inl (Exn ValueError ''repeat_warn must be >= 1'')
      else if circuit_breaker < repeat_warn then Inl (Exn ValueError ''circuit_breaker must be >= repeat_warn'')
      else if window < circuit_breaker then Inl (Exn ValueError ''window must be >= circuit_breaker'')
      else if pingpong_warn_cycles < 1 then Inl (Exn ValueError ''pingpong_warn_cycles must be >= 1'')
      else if pingpong_break_cycles < pingpong_warn_cycles
      then Inl (Exn ValueError ''pingpong_break_cycles must be >= pingpong_warn_cycles'')
      else if 2 * pingpong_break_cycles > window
      then Inl (Exn ValueError ''window must be >= 2 * pingpong_break_cycles (a full alternation must fit)'')
      else Inr \<lparr>lg_repeat_warn = repeat_warn, lg_circuit_breaker = circuit_breaker, lg_window = window,
                lg_pingpong_warn_cycles = pingpong_warn_cycles,
                lg_pingpong_break_cycles = pingpong_break_cycles, lg_has_sink = sink,
                lg_observations = [], lg_warned = [], lg_emitted = []\<rparr>)"

definition observation_of ::
  "(string \<Rightarrow> string) \<Rightarrow> (rat \<Rightarrow> string) \<Rightarrow> tool_call \<Rightarrow> lg_observation" where
  "observation_of sha fr c =
     \<lparr>ob_tool_name = tc_name c, ob_params_hash = canonical_params_hash sha fr (tc_name c) (tc_params c)\<rparr>"

definition loop_guard_record ::
  "(string \<Rightarrow> string) \<Rightarrow> (rat \<Rightarrow> string) \<Rightarrow> hook_payload \<Rightarrow> loop_guard \<Rightarrow> loop_guard" where
  "loop_guard_record sha fr payload g =
     (case hp_tool_call payload of
        None \<Rightarrow> g
      | Some c \<Rightarrow> g\<lparr>lg_observations :=
          slice_last (lg_window g) (lg_observations g @ [observation_of sha fr c])\<rparr>)"

definition emit_warn :: "string \<Rightarrow> string \<Rightarrow> loop_guard \<Rightarrow> loop_guard" where
  "emit_warn detector message g =
     (if lg_has_sink g then g\<lparr>lg_emitted := lg_emitted g @ [(detector, message)]\<rparr> else g)"

definition obs_sig :: "lg_observation \<Rightarrow> signature" where
  "obs_sig obs = (ob_tool_name obs, ob_params_hash obs)"

definition sig_counts :: "lg_observation list \<Rightarrow> (signature, nat) pydict" where
  "sig_counts obs = fold (\<lambda>o' d. AList.update (obs_sig o') (dict_get_default d (obs_sig o') 0 + 1) d) obs []"

text \<open>Detector 1: the loop over \<open>sig_counts.items()\<close>; \<open>Some\<close> is the early return.\<close>

fun identical_loop :: "(signature \<times> nat) list \<Rightarrow> loop_guard \<Rightarrow> decision py_result option \<times> loop_guard" where
  "identical_loop [] g = (None, g)"
| "identical_loop (((tool_name, params_hash), count) # rest) g =
     (let warn_key = (''identical'', tool_name @ ''|'' @ params_hash) in
      if int count \<ge> lg_circuit_breaker g
      then (Some (decision_deny (LOOP_GUARD_REASON_PREFIX @ ''identical call '' @ tool_name @ '' ('' @
              params_hash @ '') repeated '' @ nat_str count @ '' times (threshold '' @
              int_str (lg_circuit_breaker g) @ '')'')), g)
      else if int count \<ge> lg_repeat_warn g \<and> warn_key \<notin> set (lg_warned g)
      then identical_loop rest
             (emit_warn ''identical_call_repeat''
                (tool_name @ '' repeated '' @ nat_str count @ '' times (warn threshold '' @
                 int_str (lg_repeat_warn g) @ '')'')
                (g\<lparr>lg_warned := lg_warned g @ [warn_key]\<rparr>))
      else identical_loop rest g)"

text \<open>Detector 3: the loop \<open>for k in range(1, len(sigs) // 2 + 1)\<close>.\<close>

definition tail_breaks :: "signature list \<Rightarrow> nat \<Rightarrow> bool" where
  "tail_breaks sigs k =
     (let tail = slice_last (2 * int k) sigs in
      length (remdups tail) \<noteq> 2 \<or> list_ex (\<lambda>j. tail ! j \<noteq> tail ! (j - 2)) [2..<2 * k])"

fun pingpong_cycles :: "signature list \<Rightarrow> nat list \<Rightarrow> nat \<Rightarrow> nat" where
  "pingpong_cycles sigs [] cycles = cycles"
| "pingpong_cycles sigs (k # ks) cycles =
     (if tail_breaks sigs k then cycles else pingpong_cycles sigs ks k)"

text \<open>\<open>repr\<close> of a pair of strings.\<close>

definition repr_pair :: "signature \<Rightarrow> string" where
  "repr_pair p = ''('' @ py_repr (fst p) @ '', '' @ py_repr (snd p) @ '')''"

definition sorted_pair :: "signature list \<Rightarrow> signature list" where
  "sorted_pair tail = sort (remdups tail)"

definition loop_guard_scan :: "loop_guard \<Rightarrow> decision py_result \<times> loop_guard" where
  "loop_guard_scan g =
     (if lg_observations g = [] then (Inr decision_allow, g)
      else case identical_loop (sig_counts (lg_observations g)) g of
        (Some d, g1) \<Rightarrow> (d, g1)
      | (None, g1) \<Rightarrow>
         (let sigs = map obs_sig (lg_observations g1);
              cycles = pingpong_cycles sigs [1..<length sigs div 2 + 1] 0
          in if int cycles \<ge> lg_pingpong_break_cycles g1
             then (let pair = sorted_pair (slice_last (2 * lg_pingpong_break_cycles g1) sigs)
                   in (decision_deny (LOOP_GUARD_REASON_PREFIX @ ''ping-pong oscillation between '' @
                         fst (pair ! 0) @ '' and '' @ fst (pair ! 1) @ '' ('' @ nat_str cycles @
                         '' cycles, threshold '' @ int_str (lg_pingpong_break_cycles g1) @ '')''), g1))
             else if int cycles \<ge> lg_pingpong_warn_cycles g1
             then (let pair = sorted_pair (slice_last (2 * int cycles) sigs);
                       warn_key = (''pingpong'', repr_pair (pair ! 0) @ ''|'' @ repr_pair (pair ! 1))
                   in if warn_key \<notin> set (lg_warned g1)
                      then (Inr decision_allow,
                            emit_warn ''pingpong_oscillation''
                              (''alternation between '' @ fst (pair ! 0) @ '' and '' @ fst (pair ! 1) @
                               '' reached '' @ nat_str cycles @ '' cycles (warn threshold '' @
                               int_str (lg_pingpong_warn_cycles g1) @ '')'')
                              (g1\<lparr>lg_warned := lg_warned g1 @ [warn_key]\<rparr>))
                      else (Inr decision_allow, g1))
             else (Inr decision_allow, g1)))"

definition loop_guard_handle ::
  "(string \<Rightarrow> string) \<Rightarrow> (rat \<Rightarrow> string) \<Rightarrow> loop_guard guard_handle" where
  "loop_guard_handle sha fr point payload g =
     (if point = BEFORE_TOOL_EXEC then (Inr decision_allow, loop_guard_record sha fr payload g)
      else if point = BETWEEN_ROUNDS then loop_guard_scan g
      else (Inr decision_allow, g))"

section \<open>Invariant\<close>

text \<open>
  The thresholds the constructor checked, the bounded window, and the bookkeeping of
  warnings: each key at most once, one sink call per key.
\<close>

definition lg_wf :: "loop_guard \<Rightarrow> bool" where
  "lg_wf g \<longleftrightarrow>
     1 \<le> lg_repeat_warn g \<and> lg_repeat_warn g \<le> lg_circuit_breaker g \<and> lg_circuit_breaker g \<le> lg_window g \<and>
     1 \<le> lg_pingpong_warn_cycles g \<and> lg_pingpong_warn_cycles g \<le> lg_pingpong_break_cycles g \<and>
     2 * lg_pingpong_break_cycles g \<le> lg_window g \<and>
     int (length (lg_observations g)) \<le> lg_window g \<and> distinct (lg_warned g) \<and>
     length (lg_emitted g) = (if lg_has_sink g then length (lg_warned g) else 0)"

lemma loop_guard_init_wf: "loop_guard_init a b c d e f = Inr g \<Longrightarrow> lg_wf g"
  by (auto simp: loop_guard_init_def lg_wf_def split: if_splits)

lemma loop_guard_record_wf: "lg_wf g \<Longrightarrow> lg_wf (loop_guard_record sha fr p g)"
  by (auto simp: loop_guard_record_def lg_wf_def slice_last_length split: option.splits)

lemma warn_wf:
  "lg_wf g \<Longrightarrow> k \<notin> set (lg_warned g) \<Longrightarrow> lg_wf (emit_warn a b (g\<lparr>lg_warned := lg_warned g @ [k]\<rparr>))"
  by (auto simp: lg_wf_def emit_warn_def)

text \<open>The scan only touches the warning bookkeeping.\<close>

definition same_setup :: "loop_guard \<Rightarrow> loop_guard \<Rightarrow> bool" where
  "same_setup g g' \<longleftrightarrow>
     (\<exists>w e. g' = g\<lparr>lg_warned := w, lg_emitted := e\<rparr>)"

lemma same_setup_refl: "same_setup g g"
  unfolding same_setup_def by (metis (full_types) loop_guard.surjective loop_guard.update_convs(8,9))

lemma same_setup_warn:
  "same_setup (emit_warn a b (g\<lparr>lg_warned := k\<rparr>)) g' \<Longrightarrow> same_setup g g'"
  by (auto simp: same_setup_def emit_warn_def split: if_splits)

lemma identical_loop_wf:
  "lg_wf g \<Longrightarrow> identical_loop cs g = (d, g') \<Longrightarrow> lg_wf g' \<and> same_setup g g'"
proof (induction cs arbitrary: g)
  case Nil
  then show ?case by (simp add: same_setup_refl)
next
  case (Cons c cs)
  obtain t h n where c: "c = ((t, h), n)" by (metis surj_pair)
  show ?case
  proof (cases "int n \<ge> lg_circuit_breaker g")
    case True
    with Cons.prems c show ?thesis by (auto simp: same_setup_refl)
  next
    case False
    with Cons c show ?thesis
      by (auto simp: Let_def warn_wf dest!: same_setup_warn split: if_splits) (metis warn_wf same_setup_warn)+
  qed
qed

section \<open>The repeat detector\<close>

lemma sig_counts_snoc:
  "sig_counts (obs @ [x]) = AList.update (obs_sig x) (dict_get_default (sig_counts obs) (obs_sig x) 0 + 1) (sig_counts obs)"
  by (simp add: sig_counts_def)

lemma count_list_snoc: "count_list (xs @ [x]) y = count_list xs y + (if x = y then 1 else 0)"
  by simp

lemma sig_counts_spec:
  "dict_wf (sig_counts obs) \<and>
   map_of (sig_counts obs) s =
     (if count_list (map obs_sig obs) s = 0 then None else Some (count_list (map obs_sig obs) s))"
proof (induction obs rule: rev_induct)
  case Nil
  then show ?case by (simp add: sig_counts_def)
next
  case (snoc x obs)
  then show ?case
    by (cases "s = obs_sig x") (auto simp: sig_counts_snoc map_of_update_other dict_get_default_def count_list_snoc)
qed

lemma sig_counts_set:
  "(s, n) \<in> set (sig_counts obs) \<longleftrightarrow> 0 < n \<and> n = count_list (map obs_sig obs) s"
  using sig_counts_spec [of obs s] by (auto simp flip: map_of_eq_Some_iff split: if_splits)

definition deny_reason :: "string \<Rightarrow> decision py_result \<Rightarrow> bool" where
  "deny_reason pre d \<longleftrightarrow> (\<exists>rest. d = decision_deny (pre @ rest) \<and> pre \<noteq> [])"

lemma identical_loop_result:
  "identical_loop cs g = (d, g') \<Longrightarrow>
     (if \<exists>(s, n) \<in> set cs. int n \<ge> lg_circuit_breaker g
      then \<exists>d'. d = Some d' \<and> deny_reason LOOP_GUARD_REASON_PREFIX d' else d = None)"
proof (induction cs arbitrary: g)
  case Nil
  then show ?case by simp
next
  case (Cons c cs)
  obtain t h n where c: "c = ((t, h), n)" by (metis surj_pair)
  have keep: "lg_circuit_breaker (emit_warn a b (g\<lparr>lg_warned := k\<rparr>)) = lg_circuit_breaker g" for a b k
    by (simp add: emit_warn_def)
  show ?case
  proof (cases "int n \<ge> lg_circuit_breaker g")
    case True
    with Cons.prems c show ?thesis
      by (auto simp: deny_reason_def LOOP_GUARD_REASON_PREFIX_def)
  next
    case False
    then obtain g1 where "identical_loop cs g1 = (d, g')" "lg_circuit_breaker g1 = lg_circuit_breaker g"
      using Cons.prems by (auto simp: c Let_def keep split: if_splits)
    from Cons.IH [OF this(1)] this(2) False show ?thesis by (simp add: c)
  qed
qed

section \<open>The ping-pong detector\<close>

text \<open>The last \<open>2 * k\<close> calls alternate between two different signatures.\<close>

definition alternates :: "nat \<Rightarrow> 'a list \<Rightarrow> bool" where
  "alternates k sigs \<longleftrightarrow>
     2 * k \<le> length sigs \<and> (\<exists>a b. a \<noteq> b \<and> slice_last (2 * int k) sigs = concat (replicate k [a, b]))"

lemma alt_nth: "j < 2 * k \<Longrightarrow> concat (replicate k [a, b]) ! j = (if even j then a else b)"
proof (induction k arbitrary: j)
  case 0
  then show ?case by simp
next
  case (Suc k)
  show ?case
  proof (cases "j < 2")
    case True
    then show ?thesis by (cases j) auto
  next
    case False
    then have "concat (replicate (Suc k) [a, b]) ! j = concat (replicate k [a, b]) ! (j - 2)"
      by (simp add: nth_Cons' numeral_2_eq_2)
    with Suc.IH [of "j - 2"] Suc.prems False show ?thesis by simp
  qed
qed

lemma length_alt [simp]: "length (concat (replicate k [a, b])) = 2 * k"
  by (induction k) auto

lemma set_alt: "0 < k \<Longrightarrow> set (concat (replicate k [a, b])) = {a, b}"
  by (induction k) auto

lemma period2_nth:
  assumes "\<forall>j \<in> {2..<n}. t ! j = t ! (j - 2)"
  shows "j < n \<Longrightarrow> t ! j = t ! (j mod 2)"
proof (induction j rule: less_induct)
  case (less j)
  show ?case
  proof (cases "j < 2")
    case True
    then show ?thesis by simp
  next
    case False
    have "t ! j = t ! (j - 2)" using assms less.prems False by simp
    also have "\<dots> = t ! ((j - 2) mod 2)" using less.IH [of "j - 2"] less.prems False by simp
    also have "(j - 2) mod 2 = j mod 2" using False by presburger
    finally show ?thesis .
  qed
qed

lemma tail_period_iff:
  fixes t :: "'a list"
  assumes "0 < k" "length t = 2 * k"
  shows "length (remdups t) = 2 \<and> (\<forall>j \<in> {2..<2 * k}. t ! j = t ! (j - 2)) \<longleftrightarrow>
    (\<exists>a b. a \<noteq> b \<and> t = concat (replicate k [a, b]))"
proof
  assume L: "length (remdups t) = 2 \<and> (\<forall>j \<in> {2..<2 * k}. t ! j = t ! (j - 2))"
  let ?alt = "concat (replicate k [t ! 0, t ! 1])"
  have eq: "t ! j = ?alt ! j" if j: "j < 2 * k" for j
  proof -
    have "t ! j = t ! (j mod 2)" by (rule period2_nth [OF conjunct2 [OF L] j])
    also have "\<dots> = (if even j then t ! 0 else t ! 1)" 
      using mod2_eq_if [of j] by simp
    also have "\<dots> = ?alt ! j" by (rule alt_nth [OF j, symmetric])
    finally show ?thesis .
  qed
  have t: "t = ?alt"
  proof (rule nth_equalityI)
    show "length t = length ?alt" by (simp only: length_alt assms(2))
    show "t ! i = ?alt ! i" if "i < length t" for i by (rule eq) (use that assms(2) in simp)
  qed
  have "card (set t) = 2" using L by (simp add: length_remdups_card_conv)
  moreover have "set t = {t ! 0, t ! 1}" using t set_alt [OF assms(1)] by metis
  ultimately have "t ! 0 \<noteq> t ! 1" by auto
  with t show "\<exists>a b. a \<noteq> b \<and> t = concat (replicate k [a, b])" by blast
next
  assume "\<exists>a b. a \<noteq> b \<and> t = concat (replicate k [a, b])"
  then obtain a b where ab: "a \<noteq> b" and t: "t = concat (replicate k [a, b])" by blast
  from set_alt [OF assms(1), of a b] t ab have "card (set t) = 2" by simp
  moreover have "t ! j = t ! (j - 2)" if "j \<in> {2..<2 * k}" for j
  proof -
    have "j - 2 < 2 * k" "2 \<le> j" "j < 2 * k" using that by auto
    with alt_nth [of j k a b] alt_nth [of "j - 2" k a b] show ?thesis by (simp add: t)
  qed
  ultimately show "length (remdups t) = 2 \<and> (\<forall>j \<in> {2..<2 * k}. t ! j = t ! (j - 2))"
    by (simp add: length_remdups_card_conv)
qed

lemma tail_breaks_iff:
  assumes "0 < k" "2 * k \<le> length sigs"
  shows "\<not> tail_breaks sigs k \<longleftrightarrow> alternates k sigs"
proof -
  have "length (slice_last (2 * int k) sigs) = 2 * k" using assms by (simp add: slice_last_length)
  from tail_period_iff [OF assms(1) this] show ?thesis
    using assms by (auto simp: tail_breaks_def alternates_def list_ex_iff Let_def)
qed

lemma slice_last_even: "0 < k \<Longrightarrow> slice_last (2 * int k) xs = drop (length xs - 2 * k) xs"
  by (simp add: slice_last_def nat_mult_distrib)

lemma alternates_down: "alternates (Suc k) sigs \<Longrightarrow> 0 < k \<Longrightarrow> alternates k sigs"
proof -
  assume "alternates (Suc k) sigs" and k: "0 < k"
  then obtain a b where l: "2 * Suc k \<le> length sigs" "a \<noteq> b"
    and t: "drop (length sigs - 2 * Suc k) sigs = a # b # concat (replicate k [a, b])"
    unfolding alternates_def using slice_last_even [of "Suc k" sigs] by auto
  have "length sigs - 2 * k = 2 + (length sigs - 2 * Suc k)" using l(1) by simp
  then have "drop (length sigs - 2 * k) sigs = drop 2 (drop (length sigs - 2 * Suc k) sigs)"
    by (simp only: drop_drop)
  with t have "drop (length sigs - 2 * k) sigs = concat (replicate k [a, b])" by simp
  with l k show "alternates k sigs" by (auto simp: alternates_def slice_last_even)
qed

lemma alternates_mono: "alternates m sigs \<Longrightarrow> 0 < k \<Longrightarrow> k \<le> m \<Longrightarrow> alternates k sigs"
proof (induction m)
  case 0
  then show ?case by simp
next
  case (Suc m)
  show ?case
  proof (cases "k = Suc m")
    case True
    with Suc.prems show ?thesis by simp
  next
    case False
    with Suc.prems alternates_down [OF Suc.prems(1)] Suc.IH show ?thesis by simp
  qed
qed

lemma pingpong_cycles_spec:
  assumes n: "n \<le> length sigs div 2 + 1" and m: "0 < m"
  shows "0 < k \<Longrightarrow> k \<le> n \<Longrightarrow> k = 1 \<or> alternates (k - 1) sigs \<Longrightarrow>
     m \<le> pingpong_cycles sigs [k..<n] (k - 1) \<longleftrightarrow> m < n \<and> alternates m sigs"
proof (induction "n - k" arbitrary: k)
  case 0
  then have "k = n" by simp
  with 0 show ?case using m alternates_mono [of "n - 1" sigs m] by auto
next
  case (Suc d)
  then have kn: "k < n" by simp
  then have up: "[k..<n] = k # [Suc k..<n]" by (simp add: upt_conv_Cons)
  have k2: "2 * k \<le> length sigs" using kn n by linarith
  show ?case
  proof (cases "alternates k sigs")
    case True
    with tail_breaks_iff [OF Suc.prems(1) k2]
    have "pingpong_cycles sigs [k..<n] (k - 1) = pingpong_cycles sigs [Suc k..<n] (Suc k - 1)"
      by (simp add: up)
    with Suc.hyps(1) [of "Suc k"] Suc.hyps(2) True kn show ?thesis by simp
  next
    case False
    with tail_breaks_iff [OF Suc.prems(1) k2] have r: "pingpong_cycles sigs [k..<n] (k - 1) = k - 1"
      by (simp add: up)
    have "m < k" if "alternates m sigs" using False alternates_mono [OF that, of k] Suc.prems(1) by (meson not_less)
    moreover have "alternates m sigs" if "m < k"
      using that m Suc.prems(3) alternates_mono [of "k - 1" sigs m] by (cases "k = 1") auto
    ultimately show ?thesis using r kn Suc.prems(1) by auto
  qed
qed

lemma pingpong_cycles_ge:
  assumes "0 < m"
  shows "m \<le> pingpong_cycles sigs [1..<length sigs div 2 + 1] 0 \<longleftrightarrow> alternates m sigs"
proof -
  have "alternates m sigs \<Longrightarrow> m < length sigs div 2 + 1" by (auto simp: alternates_def)
  with pingpong_cycles_spec [OF order.refl assms, of 1 sigs] show ?thesis
    by (simp del: upt_Suc) blast
qed

section \<open>The scan and the guard contract\<close>

lemma loop_guard_scan_answer:
  assumes wf: "lg_wf g" and run: "loop_guard_scan g = (d, g')"
  shows "lg_wf g' \<and> same_setup g g' \<and>
    (if (\<exists>s. int (count_list (map obs_sig (lg_observations g)) s) \<ge> lg_circuit_breaker g) \<or>
        alternates (nat (lg_pingpong_break_cycles g)) (map obs_sig (lg_observations g))
     then deny_reason LOOP_GUARD_REASON_PREFIX d else d = Inr decision_allow)"
proof -
  let ?sigs = "map obs_sig (lg_observations g)"
  let ?rep = "\<exists>s. int (count_list ?sigs s) \<ge> lg_circuit_breaker g"
  have pos: "1 \<le> lg_circuit_breaker g" "1 \<le> lg_pingpong_break_cycles g" using wf by (auto simp: lg_wf_def)
  show ?thesis
  proof (cases "lg_observations g = []")
    case True
    with run pos wf show ?thesis by (auto simp: loop_guard_scan_def same_setup_refl alternates_def)
  next
    case False
    obtain r g1 where il: "identical_loop (sig_counts (lg_observations g)) g = (r, g1)" by fastforce
    from identical_loop_wf [OF wf il] have g1: "lg_wf g1" "same_setup g g1" by auto
    then have same: "lg_observations g1 = lg_observations g" "lg_pingpong_break_cycles g1 = lg_pingpong_break_cycles g"
      by (auto simp: same_setup_def)
    have "(\<exists>(s, n) \<in> set (sig_counts (lg_observations g)). int n \<ge> lg_circuit_breaker g) \<longleftrightarrow> ?rep"
      using pos(1) by (auto simp: sig_counts_set) force
    with identical_loop_result [OF il]
    have r: "if ?rep then \<exists>d'. r = Some d' \<and> deny_reason LOOP_GUARD_REASON_PREFIX d' else r = None" by simp
    let ?c = "pingpong_cycles ?sigs [1..<length ?sigs div 2 + 1] 0"
    have c: "int ?c \<ge> lg_pingpong_break_cycles g \<longleftrightarrow> alternates (nat (lg_pingpong_break_cycles g)) ?sigs"
      using pingpong_cycles_ge [of "nat (lg_pingpong_break_cycles g)" ?sigs] pos(2) by linarith
    show ?thesis
    proof (cases ?rep)
      case True
      with r il run False g1 show ?thesis by (auto simp: loop_guard_scan_def)
    next
      case no_rep: False
      with r have "r = None" by simp
      note run' = run [unfolded loop_guard_scan_def il this prod.case option.case same Let_def, simplified False if_False]
      show ?thesis
      proof (cases "alternates (nat (lg_pingpong_break_cycles g)) ?sigs")
        case True
        with c run' show ?thesis
          using g1 by (auto simp: deny_reason_def LOOP_GUARD_REASON_PREFIX_def)
      next
        case no_alt: False
        have warn: "same_setup g (emit_warn a b (g1\<lparr>lg_warned := w\<rparr>))" for a b w
          using g1(2) by (cases g) (auto simp: same_setup_def emit_warn_def)
        from no_alt c no_rep run' show ?thesis
          using g1 warn warn_wf [OF g1(1)] by (auto split: if_splits)
      qed
    qed
  qed
qed

lemma lg_handle_inv: "lg_wf g \<Longrightarrow> loop_guard_handle sha fr pt p g = (d, g') \<Longrightarrow> lg_wf g'"
  using loop_guard_scan_answer [of g d g'] loop_guard_record_wf [of g sha fr p]
  by (auto simp: loop_guard_handle_def split: if_splits)

lemma lg_handle_answer:
  "lg_wf g \<Longrightarrow> loop_guard_handle sha fr pt p g = (d, g') \<Longrightarrow>
     d = Inr decision_allow \<or> (\<exists>reason. reason \<noteq> [] \<and> d = decision_deny reason)"
  using loop_guard_scan_answer [of g d g']
  by (auto simp: loop_guard_handle_def deny_reason_def split: if_splits)

interpretation lg: guard_contract "loop_guard_handle sha fr" lg_wf
  by unfold_locales (fact lg_handle_inv, fact lg_handle_answer)

section \<open>The window along a run\<close>

text \<open>The signatures of the tool calls that a sequence of dispatches shows the guard.\<close>

fun seen_calls :: "(string \<Rightarrow> string) \<Rightarrow> (rat \<Rightarrow> string) \<Rightarrow> (lifecycle_point \<times> hook_payload) list \<Rightarrow> lg_observation list" where
  "seen_calls sha fr [] = []"
| "seen_calls sha fr ((pt, p) # evs) =
     (if pt = BEFORE_TOOL_EXEC then (case hp_tool_call p of Some c \<Rightarrow> [observation_of sha fr c] | None \<Rightarrow> [])
      else []) @ seen_calls sha fr evs"

lemma slice_last_slice_last: "0 < k \<Longrightarrow> slice_last k (slice_last k xs @ ys) = slice_last k (xs @ ys)"
  by (cases "nat k \<le> length xs") (auto simp: slice_last_def drop_append add.commute)

lemma handle_setup:
  assumes "lg_wf g" "loop_guard_handle sha fr pt p g = (d, g')"
  shows "lg_window g' = lg_window g \<and> lg_circuit_breaker g' = lg_circuit_breaker g \<and>
    lg_pingpong_break_cycles g' = lg_pingpong_break_cycles g \<and>
    lg_observations g' = slice_last (lg_window g) (lg_observations g @ seen_calls sha fr [(pt, p)])"
proof -
  have idle: "slice_last (lg_window g) (lg_observations g) = lg_observations g"
    using assms(1) by (intro slice_last_all) (simp add: lg_wf_def)
  show ?thesis
  proof (cases "pt = BETWEEN_ROUNDS")
    case True
    with assms loop_guard_scan_answer [OF assms(1), of d g'] idle show ?thesis
      by (auto simp: loop_guard_handle_def same_setup_def)
  next
    case False
    with assms(2) idle show ?thesis
      by (auto simp: loop_guard_handle_def loop_guard_record_def split: if_splits option.splits)
  qed
qed

lemma run_window:
  "lg_wf g \<Longrightarrow> guard_run (loop_guard_handle sha fr) evs g = (ds, g') \<Longrightarrow>
     lg_window g' = lg_window g \<and> lg_circuit_breaker g' = lg_circuit_breaker g \<and>
     lg_pingpong_break_cycles g' = lg_pingpong_break_cycles g \<and>
     lg_observations g' = slice_last (lg_window g) (lg_observations g @ seen_calls sha fr evs)"
proof (induction evs arbitrary: g ds)
  case Nil
  then show ?case by (auto simp: lg_wf_def slice_last_all)
next
  case (Cons ev evs)
  obtain pt p where ev: "ev = (pt, p)" by (cases ev)
  obtain d g1 where h: "loop_guard_handle sha fr pt p g = (d, g1)" by fastforce
  obtain ds' where r: "guard_run (loop_guard_handle sha fr) evs g1 = (ds', g')"
    using Cons.prems(2) by (auto simp: ev h split: prod.splits)
  have "0 < lg_window g" using Cons.prems(1) by (simp add: lg_wf_def)
  with Cons.IH [OF lg_handle_inv [OF Cons.prems(1) h] r] handle_setup [OF Cons.prems(1) h]
  show ?case by (simp add: ev slice_last_slice_last del: append_assoc flip: append_assoc)
qed

section \<open>Properties\<close>

text \<open>C27: What the circuit breaker stops, over a whole run. After any sequence of dispatches to a freshly
  constructed guard, a \<open>BETWEEN_ROUNDS\<close> check denies exactly when, among the last \<open>window\<close> tool
  calls, one signature occurs at least \<open>circuit_breaker\<close> times, or the latest
  \<open>2 * pingpong_break_cycles\<close> calls alternate between two different signatures. Every denial
  carries the reason prefix the loop driver keys on; advancing work is never vetoed.\<close>

theorem loop_guard_denies_iff:
  assumes "loop_guard_init rw cb w pw pb sink = Inr g0"
    and "guard_run (loop_guard_handle sha fr) evs g0 = (ds, g)"
    and "loop_guard_handle sha fr BETWEEN_ROUNDS p g = (d, g')"
  defines "sigs \<equiv> map obs_sig (slice_last w (seen_calls sha fr evs))"
  shows "((\<exists>rest. d = decision_deny (LOOP_GUARD_REASON_PREFIX @ rest)) \<longleftrightarrow>
       (\<exists>s. int (count_list sigs s) \<ge> cb) \<or> alternates (nat pb) sigs) \<and>
     (d = Inr decision_allow \<longleftrightarrow> \<not> ((\<exists>s. int (count_list sigs s) \<ge> cb) \<or> alternates (nat pb) sigs))"
proof -
  have g0: "lg_wf g0" using loop_guard_init_wf [OF assms(1)] .
  have cfg: "lg_window g0 = w" "lg_circuit_breaker g0 = cb" "lg_pingpong_break_cycles g0 = pb" "lg_observations g0 = []"
    using assms(1) by (auto simp: loop_guard_init_def split: if_splits)
  from lg.run_contract [OF g0 assms(2)] have g: "lg_wf g" by blast
  from run_window [OF g0 assms(2)] cfg
  have obs: "map obs_sig (lg_observations g) = sigs" "lg_circuit_breaker g = cb" "lg_pingpong_break_cycles g = pb"
    by (auto simp: sigs_def)
  have scan: "loop_guard_scan g = (d, g')" using assms(3) by (simp add: loop_guard_handle_def)
  have differ: "decision_deny (LOOP_GUARD_REASON_PREFIX @ rest) \<noteq> Inr decision_allow" for rest
    by (simp add: decision_deny_def decision_allow_def LOOP_GUARD_REASON_PREFIX_def)
  let ?stop = "(\<exists>s. int (count_list sigs s) \<ge> cb) \<or> alternates (nat pb) sigs"
  have "if ?stop then \<exists>rest. d = decision_deny (LOOP_GUARD_REASON_PREFIX @ rest) else d = Inr decision_allow"
    using loop_guard_scan_answer [OF g scan] unfolding obs deny_reason_def by metis
  with differ show ?thesis by (metis (full_types))
qed

definition demo_call :: "string \<Rightarrow> hook_payload" where
  "demo_call path = (demo_payload ''coder'')\<lparr>hp_tool_call :=
     Some \<lparr>tc_name = ''fs_read_file'', tc_params = [(''path'', JStr path)], tc_call_id = []\<rparr>\<rparr>"

theorem loop_guard_denies_iff_witness:
  "\<exists>g0 ds g d g'. loop_guard_init 1 2 2 1 1 True = Inr g0 \<and>
     guard_run (loop_guard_handle (\<lambda>s. s) (\<lambda>_. []))
       [(BEFORE_TOOL_EXEC, demo_call ''a''), (BEFORE_TOOL_EXEC, demo_call ''a'')] g0 = (ds, g) \<and>
     loop_guard_handle (\<lambda>s. s) (\<lambda>_. []) BETWEEN_ROUNDS (demo_payload ''coder'') g = (d, g') \<and>
     (\<exists>rest. d = decision_deny (LOOP_GUARD_REASON_PREFIX @ rest))"
proof -
  let ?h = "loop_guard_handle (\<lambda>s. s) (\<lambda>_. [])"
  let ?evs = "[(BEFORE_TOOL_EXEC, demo_call ''a''), (BEFORE_TOOL_EXEC, demo_call ''a'')]"
  obtain g0 where g0: "loop_guard_init 1 2 2 1 1 True = Inr g0" by (simp add: loop_guard_init_def)
  obtain ds g where run: "guard_run ?h ?evs g0 = (ds, g)" by fastforce
  obtain d g' where last: "?h BETWEEN_ROUNDS (demo_payload ''coder'') g = (d, g')" by fastforce
  let ?o = "observation_of (\<lambda>s. s) (\<lambda>_. []) (the (hp_tool_call (demo_call ''a'')))"
  have seen: "seen_calls (\<lambda>s. s) (\<lambda>_. []) ?evs = [?o, ?o]" by (simp add: demo_call_def)
  have "int (count_list (map obs_sig (slice_last 2 [?o, ?o])) (obs_sig ?o)) \<ge> 2" by (simp add: slice_last_def)
  with loop_guard_denies_iff [OF g0 run last] seen have "\<exists>rest. d = decision_deny (LOOP_GUARD_REASON_PREFIX @ rest)"
    by metis
  with g0 run last show ?thesis by blast
qed

text \<open>Warnings are not spam: along any run from a fresh guard every detector key is reported at most
  once, with one sink call per reported key (none without a sink), the window never exceeds its
  size, and no dispatch raises or asks for a mutation.\<close>

theorem loop_guard_warns_once:
  assumes "loop_guard_init rw cb w pw pb sink = Inr g0"
    and "guard_run (loop_guard_handle sha fr) evs g0 = (ds, g)"
  shows "distinct (lg_warned g) \<and> length (lg_emitted g) = (if sink then length (lg_warned g) else 0) \<and>
     int (length (lg_observations g)) \<le> w \<and>
     (\<forall>d \<in> set ds. d = Inr decision_allow \<or> (\<exists>reason. reason \<noteq> [] \<and> d = decision_deny reason))"
proof -
  have g0: "lg_wf g0" using loop_guard_init_wf [OF assms(1)] .
  have sink: "lg_has_sink g0 = sink" "lg_window g0 = w"
    using assms(1) by (auto simp: loop_guard_init_def split: if_splits)
  have keep: "lg_wf g \<Longrightarrow> guard_run (loop_guard_handle sha fr) evs g = (ds, g') \<Longrightarrow> lg_has_sink g' = lg_has_sink g"
    for g ds g' evs
  proof (induction evs arbitrary: g ds)
    case (Cons ev evs)
    obtain pt p where ev: "ev = (pt, p)" by (cases ev)
    obtain d g1 where h: "loop_guard_handle sha fr pt p g = (d, g1)" by fastforce
    have "lg_has_sink g1 = lg_has_sink g"
      using h loop_guard_scan_answer [OF Cons.prems(1), of d g1]
      by (auto simp: loop_guard_handle_def loop_guard_record_def same_setup_def split: if_splits option.splits)
    with Cons.IH [OF lg_handle_inv [OF Cons.prems(1) h]] Cons.prems(2) show ?case
      by (auto simp: ev h split: prod.splits)
  qed simp
  from lg.run_contract [OF g0 assms(2)] keep [OF g0 assms(2)] sink run_window [OF g0 assms(2)] show ?thesis
    by (auto simp: lg_wf_def)
qed

theorem loop_guard_warns_once_witness:
  "\<exists>g0 ds g. loop_guard_init 1 3 3 1 1 True = Inr g0 \<and>
     guard_run (loop_guard_handle (\<lambda>s. s) (\<lambda>_. []))
       [(BEFORE_TOOL_EXEC, demo_call ''a''), (BETWEEN_ROUNDS, demo_payload ''coder''),
        (BETWEEN_ROUNDS, demo_payload ''coder'')] g0 = (ds, g) \<and>
     distinct (lg_warned g) \<and> length (lg_emitted g) = length (lg_warned g)"
proof -
  let ?evs = "[(BEFORE_TOOL_EXEC, demo_call ''a''), (BETWEEN_ROUNDS, demo_payload ''coder''),
        (BETWEEN_ROUNDS, demo_payload ''coder'')]"
  obtain g0 where g0: "loop_guard_init 1 3 3 1 1 True = Inr g0" by (simp add: loop_guard_init_def)
  obtain ds g where run: "guard_run (loop_guard_handle (\<lambda>s. s) (\<lambda>_. [])) ?evs g0 = (ds, g)" by fastforce
  from loop_guard_warns_once [OF g0 run] g0 run show ?thesis by (auto simp del: guard_run.simps)
qed

end
