(* ===== verification/Blockers.thy ===== *)
theory Blockers
  imports Hooks Py_Regex
begin

text \<open>
  The deterministic pre-tool blockers of \<open>fa/inner_loop/hooks/blockers.py\<close>: the shared
  observe/gate base class and the rate-limit, lockfile and expired-authentication detectors.
  A blocker is its category (which selects the overridden \<open>_detect\<close>), its suppression window and
  the last observation per tool; \<open>bl_clock\<close> is what its time source reads next.
\<close>

datatype blocker_category = RATE_LIMIT | LOCKFILE | AUTH_EXPIRED

fun blocker_category_value :: "blocker_category \<Rightarrow> string" where
  "blocker_category_value RATE_LIMIT = ''rate_limit''"
| "blocker_category_value LOCKFILE = ''lockfile''"
| "blocker_category_value AUTH_EXPIRED = ''auth_expired''"

section \<open>Detectors\<close>

definition RATE_LIMIT_CODES :: "string list" where
  "RATE_LIMIT_CODES = [''rate_limited'', ''rate_limit'', ''http_429'', ''too_many_requests'']"

definition AUTH_EXPIRED_CODES :: "string list" where
  "AUTH_EXPIRED_CODES = [''auth_expired'', ''unauthorized'', ''http_401'', ''token_expired'']"

text \<open>\<open>[ _-]?\<close>\<close>

definition sep_opt :: rx where
  "sep_opt = rx_opt (Cls '' _-'')"

definition RATE_LIMIT_MESSAGE :: rx where
  "RATE_LIMIT_MESSAGE =
     rx_seq [Wb,
       rx_alt (rx_seq [rx_lit ''rate'', sep_opt, rx_lit ''limit'', rx_opt (rx_lit ''ed'')])
         [rx_seq [rx_lit ''too'', sep_opt, rx_lit ''many'', sep_opt, rx_lit ''requests''],
          rx_lit ''429''],
       Wb]"

definition ascii_alnum :: string where
  "ascii_alnum = ''ABCDEFGHIJKLMNOPQRSTUVWXYZabcdefghijklmnopqrstuvwxyz0123456789''"

definition LOCKFILE_MESSAGE :: rx where
  "LOCKFILE_MESSAGE =
     rx_alt (rx_seq [rx_lit ''could'', sep_opt, rx_lit ''not'', sep_opt,
               rx_alt (rx_lit ''get'') [rx_lit ''acquire''], sep_opt, rx_lit ''lock''])
       [rx_seq [rx_lit ''unable'', sep_opt, rx_lit ''to'', sep_opt, rx_lit ''create'',
          Star (Cls ('' _-'' @ [CHR 0x27, CHR 0x22] @ ''/.'' @ ascii_alnum)), rx_lit ''.lock''],
        rx_seq [rx_lit ''blocking'', sep_opt, rx_lit ''waiting'', sep_opt, rx_lit ''for'', sep_opt,
          rx_lit ''file'', sep_opt, rx_lit ''lock''],
        rx_seq [rx_lit ''resource'', sep_opt, rx_lit ''temporarily'', sep_opt, rx_lit ''unavailable''],
        rx_seq [rx_lit ''another'', sep_opt, rx_alt (rx_lit ''instance'') [rx_lit ''process''],
          rx_plus (Cls ('' -_.'' @ [CHR 0x27, CHR 0x22] @ ascii_alnum)),
          rx_alt (rx_lit ''lock'') [rx_lit ''running'']]]"

definition AUTH_EXPIRED_MESSAGE :: rx where
  "AUTH_EXPIRED_MESSAGE =
     rx_seq [Wb,
       rx_alt (rx_lit ''401'')
         [rx_lit ''unauthorized'',
          rx_seq [rx_lit ''authentication'', sep_opt, rx_alt (rx_lit ''required'') [rx_lit ''expired'']],
          rx_seq [rx_lit ''token'', sep_opt, rx_alt (rx_lit ''expired'') [rx_lit ''invalid'']],
          rx_seq [rx_lit ''invalid'', sep_opt, rx_lit ''credentials'']],
       Wb]"

definition rate_limit_detect :: "tool_result \<Rightarrow> bool" where
  "rate_limit_detect r =
     (case tr_error r of
        None \<Rightarrow> False
      | Some e \<Rightarrow> te_code e \<in> set RATE_LIMIT_CODES \<or> rx_search RATE_LIMIT_MESSAGE (te_message e))"

definition lockfile_detect :: "tool_result \<Rightarrow> bool" where
  "lockfile_detect r =
     (case tr_error r of None \<Rightarrow> False | Some e \<Rightarrow> rx_search LOCKFILE_MESSAGE (te_message e))"

definition auth_expired_detect :: "tool_result \<Rightarrow> bool" where
  "auth_expired_detect r =
     (case tr_error r of
        None \<Rightarrow> False
      | Some e \<Rightarrow> te_code e \<in> set AUTH_EXPIRED_CODES \<or> rx_search AUTH_EXPIRED_MESSAGE (te_message e))"

fun blocker_detect :: "blocker_category \<Rightarrow> tool_result \<Rightarrow> bool" where
  "blocker_detect RATE_LIMIT r = rate_limit_detect r"
| "blocker_detect LOCKFILE r = lockfile_detect r"
| "blocker_detect AUTH_EXPIRED r = auth_expired_detect r"

section \<open>The base class\<close>

fun default_suppression :: "blocker_category \<Rightarrow> rat" where
  "default_suppression RATE_LIMIT = 30"
| "default_suppression LOCKFILE = 5"
| "default_suppression AUTH_EXPIRED = 0"

record blocker =
  bl_category :: blocker_category
  bl_suppression_seconds :: rat
  bl_observed_at :: "(string, rat) pydict"
  bl_clock :: rat

definition blocker_init :: "blocker_category \<Rightarrow> rat option \<Rightarrow> blocker py_result" where
  "blocker_init cat suppression =
     (case suppression of
        Some s \<Rightarrow>
          (if s < 0 then Inl (Exn ValueError ''suppression_seconds must be >= 0'')
           else Inr \<lparr>bl_category = cat, bl_suppression_seconds = s, bl_observed_at = [], bl_clock = 0\<rparr>)
      | None \<Rightarrow>
          Inr \<lparr>bl_category = cat, bl_suppression_seconds = default_suppression cat,
               bl_observed_at = [], bl_clock = 0\<rparr>)"

definition blocker_observe :: "hook_payload \<Rightarrow> blocker \<Rightarrow> blocker" where
  "blocker_observe payload b =
     (case (hp_tool_call payload, hp_tool_result payload) of
        (Some call, Some r) \<Rightarrow>
          (if tr_error r = None then b
           else if \<not> blocker_detect (bl_category b) r then b
           else b\<lparr>bl_observed_at := AList.update (tc_name call) (bl_clock b) (bl_observed_at b)\<rparr>)
      | _ \<Rightarrow> b)"

definition blocker_gate :: "hook_payload \<Rightarrow> blocker \<Rightarrow> decision py_result" where
  "blocker_gate payload b =
     (case hp_tool_call payload of
        None \<Rightarrow> Inr decision_allow
      | Some call \<Rightarrow>
         (if bl_suppression_seconds b \<le> 0 then Inr decision_allow
          else case dict_get (bl_observed_at b) (tc_name call) of
             None \<Rightarrow> Inr decision_allow
           | Some observed \<Rightarrow>
              (let elapsed = bl_clock b - observed in
               if elapsed \<ge> bl_suppression_seconds b then Inr decision_allow
               else (let remaining = bl_suppression_seconds b - elapsed
                     in decision_deny (blocker_category_value (bl_category b) @ '' blocker active for '' @
                          tc_name call @ '': '' @ fmt_fixed 1 remaining @ ''s remaining in suppression window'')))))"

definition blocker_handle :: "blocker guard_handle" where
  "blocker_handle point payload b =
     (if point = BEFORE_TOOL_EXEC then (blocker_gate payload b, b)
      else if point = AFTER_TOOL_EXEC then (Inr decision_allow, blocker_observe payload b)
      else (Inr decision_allow, b))"

section \<open>The guard contract\<close>

lemma category_value_ne [simp]: "blocker_category_value c \<noteq> []"
  by (cases c) auto

lemma blocker_answer:
  "blocker_handle pt p b = (d, b') \<Longrightarrow>
     d = Inr decision_allow \<or> (\<exists>reason. reason \<noteq> [] \<and> d = decision_deny reason)"
  by (auto simp: blocker_handle_def blocker_gate_def Let_def split: if_splits option.splits)

interpretation bl: guard_contract blocker_handle "\<lambda>b. 0 \<le> bl_suppression_seconds b"
proof
  show "0 \<le> bl_suppression_seconds g'" if "0 \<le> bl_suppression_seconds g" "blocker_handle pt p g = (d, g')" for g pt p d g'
    using that by (auto simp: blocker_handle_def blocker_observe_def split: if_splits option.splits)
qed (rule blocker_answer)

section \<open>Timed runs\<close>

text \<open>Dispatches at given times, and the last matching failure of a tool before the present.\<close>

type_synonym timed_event = "rat \<times> lifecycle_point \<times> hook_payload"

fun blocker_run :: "timed_event list \<Rightarrow> blocker \<Rightarrow> blocker" where
  "blocker_run [] b = b"
| "blocker_run ((t, pt, p) # evs) b = blocker_run evs (snd (blocker_handle pt p (b\<lparr>bl_clock := t\<rparr>)))"

definition failure_at :: "blocker_category \<Rightarrow> string \<Rightarrow> timed_event \<Rightarrow> bool" where
  "failure_at cat tool ev = (case ev of (t, pt, p) \<Rightarrow>
     pt = AFTER_TOOL_EXEC \<and> (\<exists>c r. hp_tool_call p = Some c \<and> tc_name c = tool \<and>
       hp_tool_result p = Some r \<and> blocker_detect cat r))"

fun last_failure :: "blocker_category \<Rightarrow> string \<Rightarrow> timed_event list \<Rightarrow> rat option \<Rightarrow> rat option" where
  "last_failure cat tool [] acc = acc"
| "last_failure cat tool (ev # evs) acc =
     last_failure cat tool evs (if failure_at cat tool ev then Some (fst ev) else acc)"

lemma detect_error: "blocker_detect cat r \<Longrightarrow> tr_error r \<noteq> None"
  by (cases cat) (auto simp: rate_limit_detect_def lockfile_detect_def auth_expired_detect_def split: option.splits)

lemma handle_observed:
  "blocker_handle pt p (b\<lparr>bl_clock := t\<rparr>) = (d, b') \<Longrightarrow>
     bl_category b' = bl_category b \<and> bl_suppression_seconds b' = bl_suppression_seconds b \<and>
     map_of (bl_observed_at b') tool =
       (if failure_at (bl_category b) tool (t, pt, p) then Some t else map_of (bl_observed_at b) tool)"
  by (auto simp: blocker_handle_def blocker_observe_def failure_at_def map_of_update_other
      dest: detect_error split: if_splits option.splits)

lemma run_observed:
  "bl_category (blocker_run evs b) = bl_category b \<and>
   bl_suppression_seconds (blocker_run evs b) = bl_suppression_seconds b \<and>
   map_of (bl_observed_at (blocker_run evs b)) tool =
     last_failure (bl_category b) tool evs (map_of (bl_observed_at b) tool)"
proof (induction evs arbitrary: b)
  case Nil
  then show ?case by simp
next
  case (Cons ev evs)
  obtain t pt p where ev: "ev = (t, pt, p)" by (metis surj_pair)
  obtain d b1 where h: "blocker_handle pt p (b\<lparr>bl_clock := t\<rparr>) = (d, b1)" by fastforce
  from Cons.IH [of b1] handle_observed [OF h, of tool] show ?case by (simp add: ev h)
qed

section \<open>Properties\<close>

text \<open>The suppression window, over any timed history: a call to a tool at time \<open>t\<close> is denied exactly when
  the window is positive and the tool's latest matching failure is less than the window ago.
  Other tools, other failures and successes do not matter, and a zero window (the default of the
  authentication blocker) never denies.\<close>

theorem blocker_suppresses_iff:
  fixes evs :: "timed_event list" and t :: rat
  assumes "blocker_init cat suppression = Inr b0" and "hp_tool_call p = Some call"
  defines "b \<equiv> (blocker_run evs b0)\<lparr>bl_clock := t\<rparr>"
  shows "fst (blocker_handle BEFORE_TOOL_EXEC p b) \<noteq> Inr decision_allow \<longleftrightarrow>
     0 < bl_suppression_seconds b0 \<and>
     (\<exists>t0. last_failure cat (tc_name call) evs None = Some t0 \<and> t - t0 < bl_suppression_seconds b0)"
proof -
  have "bl_category b0 = cat" "bl_observed_at b0 = []"
    using assms(1) by (auto simp: blocker_init_def split: option.splits if_splits)
  with run_observed [of evs b0 "tc_name call"]
  have b: "map_of (bl_observed_at b) (tc_name call) = last_failure cat (tc_name call) evs None"
      "bl_suppression_seconds b = bl_suppression_seconds b0" "bl_clock b = t"
    by (simp_all add: b_def)
  show ?thesis
    using b assms(2) by (auto simp: blocker_handle_def blocker_gate_def decision_deny_def decision_allow_def Let_def
        split: option.splits)
qed

definition demo_failure :: hook_payload where
  "demo_failure = (demo_payload ''coder'')\<lparr>
     hp_tool_call := Some \<lparr>tc_name = ''api'', tc_params = [], tc_call_id = []\<rparr>,
     hp_tool_result := Some \<lparr>tr_summary = ''x'', tr_result = None,
       tr_error = Some \<lparr>te_code = ''e'', te_message = ''HTTP 429: Rate-Limited'', te_retryable = True\<rparr>,
       tr_artifacts = []\<rparr>\<rparr>"

theorem blocker_suppresses_iff_witness:
  "\<exists>b0. blocker_init RATE_LIMIT None = Inr b0 \<and>
     fst (blocker_handle BEFORE_TOOL_EXEC demo_failure
       ((blocker_run [(100, AFTER_TOOL_EXEC, demo_failure)] b0)\<lparr>bl_clock := 129\<rparr>)) \<noteq> Inr decision_allow"
proof -
  obtain b0 where b0: "blocker_init RATE_LIMIT None = Inr b0" "bl_suppression_seconds b0 = 30"
    by (simp add: blocker_init_def)
  have "blocker_detect RATE_LIMIT (the (hp_tool_result demo_failure))" by code_simp
  then have "last_failure RATE_LIMIT ''api'' [(100, AFTER_TOOL_EXEC, demo_failure)] None = Some 100"
    by (simp add: failure_at_def demo_failure_def)
  moreover have "hp_tool_call demo_failure = Some \<lparr>tc_name = ''api'', tc_params = [], tc_call_id = []\<rparr>"
    by (simp add: demo_failure_def)
  ultimately show ?thesis
    using blocker_suppresses_iff [OF b0(1), where p = demo_failure and t = 129
        and evs = "[(100, AFTER_TOOL_EXEC, demo_failure)]"] b0
    by (intro exI [of _ b0]) simp
qed

text \<open>The lockfile detector is contention-tight: a message it matches contains one of the five
  contention phrases' leading words, so naming a lock file alone (a missing \<open>Cargo.lock\<close>, say)
  never trips it, while each documented contention message does.\<close>

theorem lockfile_contention_only:
  "(\<forall>r e. tr_error r = Some e \<longrightarrow> lockfile_detect r \<longrightarrow>
      (\<exists>w \<in> {''could'', ''unable'', ''blocking'', ''resource'', ''another''}. \<exists>pre post. py_lower (te_message e) = pre @ w @ post)) \<and>
   rx_search LOCKFILE_MESSAGE ''E: Could not get lock'' \<and>
   rx_search LOCKFILE_MESSAGE ''Blocking waiting for file lock on package cache'' \<and>
   rx_search LOCKFILE_MESSAGE ''Resource temporarily unavailable'' \<and>
   \<not> rx_search LOCKFILE_MESSAGE ''No such file or directory: Cargo.lock''"
proof -
  have words: "starts_with_word ([''could''] @ [''unable''] @ [''blocking''] @ [''resource''] @ [''another'']) LOCKFILE_MESSAGE"
    unfolding LOCKFILE_MESSAGE_def rx_alt.simps(1) [of "rx_seq (rx_lit ''another'' # _)"]
    by (simp only: rx_alt.simps) (intro starts_alt starts_seq)
  have words_of: "\<exists>w \<in> {''could'', ''unable'', ''blocking'', ''resource'', ''another''}. \<exists>pre post. py_lower m = pre @ w @ post"
    if "rx_search LOCKFILE_MESSAGE m" for m
  proof -
    have low: "py_lower w = w" if "w \<in> {''could'', ''unable'', ''blocking'', ''resource'', ''another''}" for w
      using that by (auto simp: py_lower_def py_lower_char_def Let_def)
    from starts_search [OF words that] low show ?thesis
      unfolding py_in_sublist [symmetric] by auto
  qed
  moreover note words_of
  moreover have "rx_search LOCKFILE_MESSAGE ''E: Could not get lock''" by code_simp
  moreover have "rx_search LOCKFILE_MESSAGE ''Blocking waiting for file lock on package cache''" by code_simp
  moreover have "rx_search LOCKFILE_MESSAGE ''Resource temporarily unavailable''" by code_simp
  moreover have "\<not> rx_search LOCKFILE_MESSAGE ''No such file or directory: Cargo.lock''"
  proof
    assume "rx_search LOCKFILE_MESSAGE ''No such file or directory: Cargo.lock''"
    from words_of [OF this] show False
      unfolding py_in_sublist [symmetric] by code_simp
  qed
  ultimately show ?thesis by (auto simp: lockfile_detect_def)
qed

theorem lockfile_contention_only_witness:
  "lockfile_detect \<lparr>tr_summary = ''x'', tr_result = None,
       tr_error = Some \<lparr>te_code = ''e'', te_message = ''Could not get lock'', te_retryable = True\<rparr>, tr_artifacts = []\<rparr> \<and>
   (\<exists>w \<in> {''could'', ''unable'', ''blocking'', ''resource'', ''another''}. \<exists>pre post.
       py_lower ''Could not get lock'' = pre @ w @ post)"
proof -
  let ?e = "\<lparr>te_code = ''e'', te_message = ''Could not get lock'', te_retryable = True\<rparr>"
  let ?r = "\<lparr>tr_summary = ''x'', tr_result = None, tr_error = Some ?e, tr_artifacts = []\<rparr>"
  have "lockfile_detect ?r" by code_simp
  moreover from conjunct1 [OF lockfile_contention_only, rule_format, of ?r ?e] calculation
  have "\<exists>w \<in> {''could'', ''unable'', ''blocking'', ''resource'', ''another''}. \<exists>pre post. py_lower ''Could not get lock'' = pre @ w @ post"
    by simp
  ultimately show ?thesis by simp
qed

end
