(* ===== verification/Py_Path.thy ===== *)
theory Py_Path
  imports Py_Text
begin

text \<open>
  POSIX paths and shell text as the modelled modules use them: \<open>pathlib\<close> components, \<open>expanduser\<close>,
  \<open>os.path.expandvars\<close> and \<open>shlex.split(command, posix=True)\<close>.

  A \<open>Path\<close> is its tuple of \<open>parts\<close>; the first part of an absolute path is its root. What only the
  operating system knows is a record \<open>os_env\<close>: the environment variables, the home directories, the
  result of \<open>Path.resolve(strict=False)\<close>, whether a path is a symbolic link, and the state directory.
\<close>

section \<open>Paths\<close>

text \<open>\<open>Path(s).parts\<close> of a POSIX path.\<close>

definition path_parts :: "string \<Rightarrow> string list" where
  "path_parts s =
     (if prefix ''//'' s \<and> \<not> prefix ''///'' s then [''//''] else if prefix ''/'' s then [''/''] else []) @
     filter (\<lambda>c. c \<noteq> [] \<and> c \<noteq> ''.'') (py_split1 (CHR ''/'') s)"

definition is_absolute :: "string list \<Rightarrow> bool" where
  "is_absolute parts = (parts \<noteq> [] \<and> hd parts \<in> {''/'', ''//''})"

text \<open>\<open>str(path)\<close>\<close>

definition path_str :: "string list \<Rightarrow> string" where
  "path_str parts =
     (if parts = [] then ''.''
      else if is_absolute parts then hd parts @ py_join ''/'' (tl parts)
      else py_join ''/'' parts)"

text \<open>\<open>base / target\<close>\<close>

definition path_join :: "string list \<Rightarrow> string list \<Rightarrow> string list" where
  "path_join base target = (if is_absolute target then target else base @ target)"

record os_env =
  os_environ :: "(string, string) pydict"
  os_home :: "string \<Rightarrow> string option"
  os_resolve :: "string list \<Rightarrow> string list py_result"
  os_is_symlink :: "string list \<Rightarrow> bool"
  os_state_root :: string

definition path_expanduser :: "os_env \<Rightarrow> string list \<Rightarrow> string list py_result" where
  "path_expanduser os parts =
     (if parts \<noteq> [] \<and> prefix ''~'' (hd parts)
      then (case os_home os (hd parts) of
              None \<Rightarrow> Inl (Exn RuntimeError ''Could not determine home directory.'')
            | Some h \<Rightarrow> Inr (path_parts h @ tl parts))
      else Inr parts)"

section \<open>Variables\<close>

definition ascii_word :: "char \<Rightarrow> bool" where
  "ascii_word c = (let n = (of_char c :: nat) in
     (48 \<le> n \<and> n \<le> 57) \<or> (65 \<le> n \<and> n \<le> 90) \<or> n = 95 \<or> (97 \<le> n \<and> n \<le> 122))"

text \<open>The name after a \<open>$\<close>, with the length of what it takes up: \<open>\w+\<close> or \<open>\{[^}]*\}\<close>.\<close>

definition var_name :: "string \<Rightarrow> (string \<times> nat) option" where
  "var_name s =
     (let w = takeWhile ascii_word s in
      if w \<noteq> [] then Some (w, length w)
      else if prefix ''{'' s \<and> CHR ''}'' \<in> set (tl s)
      then (let b = takeWhile (\<lambda>c. c \<noteq> CHR ''}'') (tl s) in Some (b, length b + 2))
      else None)"

lemma var_name_pos: "var_name s = Some (n, k) \<Longrightarrow> 0 < k"
  by (auto simp: var_name_def Let_def split: if_splits)

function expandvars :: "(string, string) pydict \<Rightarrow> string \<Rightarrow> string" where
  "expandvars env [] = []"
| "expandvars env (c # s) =
     (if c = CHR ''$''
      then (case var_name s of
              None \<Rightarrow> c # expandvars env s
            | Some (name, k) \<Rightarrow>
               (case dict_get env name of
                  Some v \<Rightarrow> v @ expandvars env (drop k s)
                | None \<Rightarrow> c # take k s @ expandvars env (drop k s)))
      else c # expandvars env s)"
  by pat_completeness auto
termination by (relation "measure (\<lambda>(env, s). length s)") auto

section \<open>Shell words\<close>

datatype shlex_state = Blank | InWord | Quoted char | Escaped shlex_state

definition shlex_blank :: "char \<Rightarrow> bool" where
  "shlex_blank c = (c \<in> {CHR '' '', CHR 0x09, CHR 0x0D, CHR 0x0A})"

text \<open>The tokens of the rest, given the state, the token read so far and whether it had quotes; \<open>None\<close> is
  the \<open>ValueError\<close> for a missing quote or a trailing backslash.\<close>

fun shlex_go :: "shlex_state \<Rightarrow> string \<Rightarrow> bool \<Rightarrow> string \<Rightarrow> string list option" where
  "shlex_go Blank tok q [] = Some []"
| "shlex_go InWord tok q [] = Some (if tok \<noteq> [] \<or> q then [tok] else [])"
| "shlex_go (Quoted d) tok q [] = None"
| "shlex_go (Escaped st) tok q [] = None"
| "shlex_go Blank tok q (c # s) =
     (if shlex_blank c then shlex_go Blank [] False s
      else if c = CHR 0x5C then shlex_go (Escaped InWord) [] False s
      else if c \<in> {CHR 0x27, CHR 0x22} then shlex_go (Quoted c) [] False s
      else shlex_go InWord [c] False s)"
| "shlex_go InWord tok q (c # s) =
     (if shlex_blank c
      then (if tok \<noteq> [] \<or> q then map_option ((#) tok) (shlex_go Blank [] False s) else shlex_go Blank [] False s)
      else if c \<in> {CHR 0x27, CHR 0x22} then shlex_go (Quoted c) tok q s
      else if c = CHR 0x5C then shlex_go (Escaped InWord) tok q s
      else shlex_go InWord (tok @ [c]) q s)"
| "shlex_go (Quoted d) tok q (c # s) =
     (if c = d then shlex_go InWord tok True s
      else if c = CHR 0x5C \<and> d = CHR 0x22 then shlex_go (Escaped (Quoted d)) tok True s
      else shlex_go (Quoted d) (tok @ [c]) True s)"
| "shlex_go (Escaped st) tok q (c # s) =
     (let keep = (case st of Quoted d \<Rightarrow> c \<noteq> CHR 0x5C \<and> c \<noteq> d | _ \<Rightarrow> False)
      in shlex_go st (tok @ (if keep then [CHR 0x5C] else []) @ [c]) q s)"

definition shlex_split :: "string \<Rightarrow> string list option" where
  "shlex_split s = shlex_go Blank [] False s"

text \<open>Words without quotes, backslashes and blanks come back as they are.\<close>

definition plain_char :: "char \<Rightarrow> bool" where
  "plain_char c = (\<not> shlex_blank c \<and> c \<noteq> CHR 0x27 \<and> c \<noteq> CHR 0x22 \<and> c \<noteq> CHR 0x5C)"

lemma shlex_word: "list_all plain_char w \<Longrightarrow> shlex_go InWord tok q (w @ s) = shlex_go InWord (tok @ w) q s"
  by (induction w arbitrary: tok) (auto simp: plain_char_def)

lemma shlex_plain_words:
  "ws \<noteq> [] \<Longrightarrow> \<forall>w \<in> set ws. w \<noteq> [] \<and> list_all plain_char w \<Longrightarrow> shlex_split (py_join '' '' ws) = Some ws"
proof (induction "'' '' :: string" ws rule: py_join.induct)
  case (2 x)
  then obtain c w where x: "x = c # w" by (cases x) auto
  with 2 have "shlex_split x = shlex_go InWord [c] False (w @ [])" by (auto simp: shlex_split_def plain_char_def)
  with 2 x show ?case by (subst (asm) shlex_word) auto
next
  case (3 x y xs)
  then obtain c w where x: "x = c # w" by (cases x) auto
  let ?rest = "py_join '' '' (y # xs)"
  from 3 x have "shlex_split (x @ '' '' @ ?rest) = shlex_go InWord [c] False (w @ '' '' @ ?rest)"
    by (auto simp: shlex_split_def plain_char_def)
  also have "\<dots> = map_option ((#) x) (shlex_go Blank [] False ?rest)"
    using 3 x by (subst shlex_word) (auto simp: shlex_blank_def)
  finally show ?case using 3 by (simp add: shlex_split_def)
qed simp

end
