(* ===== verification/Inner_Loop.thy ===== *)
theory Inner_Loop
  imports Builtin_Hooks Loop_Guard Blockers Py_Path
begin

text \<open>
  The deterministic driver of \<open>fa/inner_loop/loop.py\<close>: batching of tool calls, the sequential
  and the parallel execution of a batch with its hooks and log rows, and \<open>run_session\<close> with
  its iteration cap.

  The world of a run is the session state together with an environment \<open>'w\<close> that tools and
  middleware act on. A thread pool is given by what the driver can observe of it (\<open>pool_run\<close>):
  the order in which the submitted calls took effect, which futures completed in time and in
  which order they were collected, which were late, or that the pool itself failed after some calls
  ran. Each tool call takes effect at one point of that order. The context variable that
  exposes the session to tools is not modelled: tools act on the world directly.
\<close>

section \<open>Batching\<close>

definition NEVER_PARALLEL_TOOLS :: "string list" where
  "NEVER_PARALLEL_TOOLS = [''fs_checkpoint'', ''fs_undo'', ''fs_send_ctrl_c'', ''fs_write_file'',
     ''fs_edit_file'', ''fs_run_bash'', ''invoke_workflow'']"

definition PARALLEL_SAFE_TOOLS :: "string list" where
  "PARALLEL_SAFE_TOOLS = [''fs_search'', ''fs_read_file'', ''fs_chronicle_search'', ''fs_usage'',
     ''fs_list_tasks'', ''fs_diff'', ''fs_reach'']"

definition PATH_SCOPED_TOOLS :: "string list" where
  "PATH_SCOPED_TOOLS = [''fs_read_file'', ''fs_write_file'', ''fs_edit_file'']"

definition MAX_TOOL_WORKERS :: nat where
  "MAX_TOOL_WORKERS = 5"

definition extract_parallel_scope_path :: "tool_call \<Rightarrow> string list option" where
  "extract_parallel_scope_path call =
     (case dict_get (tc_params call) ''path'' of
        Some (JStr p) \<Rightarrow> if p \<noteq> [] then Some (path_parts p) else None
      | _ \<Rightarrow> None)"

definition paths_overlap :: "string list \<Rightarrow> string list \<Rightarrow> bool" where
  "paths_overlap left right =
     (let common_len = min (length left) (length right) in
      if common_len = 0 then False else take common_len left = take common_len right)"

definition read_permission :: "'w tool_registry \<Rightarrow> string \<Rightarrow> bool" where
  "read_permission reg name =
     (case registry_lookup reg name of Inr spec \<Rightarrow> ts_permission spec = ''read'' | Inl _ \<Rightarrow> False)"

fun parallel_scan :: "'w tool_registry \<Rightarrow> tool_call list \<Rightarrow> string list list \<Rightarrow> bool" where
  "parallel_scan reg [] reserved = True"
| "parallel_scan reg (call # calls) reserved =
     (if tc_name call \<in> set PATH_SCOPED_TOOLS
      then (case extract_parallel_scope_path call of
              None \<Rightarrow> False
            | Some scoped \<Rightarrow>
               (if list_ex (\<lambda>existing. paths_overlap scoped existing) reserved then False
                else parallel_scan reg calls (reserved @ [scoped])))
      else if tc_name call \<notin> set PARALLEL_SAFE_TOOLS
      then (if read_permission reg (tc_name call) then parallel_scan reg calls reserved else False)
      else parallel_scan reg calls reserved)"

definition should_parallelize_tool_batch :: "tool_call list \<Rightarrow> 'w tool_registry \<Rightarrow> bool" where
  "should_parallelize_tool_batch calls reg =
     (if length calls \<le> 1 then False
      else if list_ex (\<lambda>c. tc_name c \<in> set NEVER_PARALLEL_TOOLS) calls then False
      else parallel_scan reg calls [])"

definition is_parallelizable :: "tool_call \<Rightarrow> 'w tool_registry \<Rightarrow> bool" where
  "is_parallelizable call reg =
     (if tc_name call \<in> set NEVER_PARALLEL_TOOLS then False
      else if read_permission reg (tc_name call) then True
      else tc_name call \<in> set PARALLEL_SAFE_TOOLS)"

definition scope_of :: "tool_call \<Rightarrow> string list option" where
  "scope_of call =
     (if tc_name call \<in> set PATH_SCOPED_TOOLS then extract_parallel_scope_path call else None)"

definition opt_list :: "'a option \<Rightarrow> 'a list" where
  "opt_list x = (case x of None \<Rightarrow> [] | Some a \<Rightarrow> [a])"

definition scope_conflict :: "string list option \<Rightarrow> string list list \<Rightarrow> bool" where
  "scope_conflict scoped reserved =
     (case scoped of None \<Rightarrow> False | Some p \<Rightarrow> list_ex (\<lambda>q. paths_overlap p q) reserved)"

text \<open>The loop of \<open>classify_batches\<close>: finished batches, the open batch and its reserved paths.\<close>

fun classify_loop ::
  "'w tool_registry \<Rightarrow> tool_call list \<Rightarrow> tool_call list list \<Rightarrow> tool_call list \<Rightarrow> string list list
     \<Rightarrow> tool_call list list" where
  "classify_loop reg [] batches current reserved =
     (if current \<noteq> [] then batches @ [current] else batches)"
| "classify_loop reg (call # calls) batches current reserved =
     (if current = []
      then (if is_parallelizable call reg
            then (let scoped = scope_of call in
                  if scope_conflict scoped reserved
                  then classify_loop reg calls (batches @ [current]) [call] (opt_list scoped)
                  else classify_loop reg calls batches (current @ [call]) (reserved @ opt_list scoped))
            else classify_loop reg calls (batches @ [[call]]) current reserved)
      else if \<not> is_parallelizable call reg
      then classify_loop reg calls (batches @ [current] @ [[call]]) [] []
      else (let scoped = scope_of call in
            if scope_conflict scoped reserved
            then classify_loop reg calls (batches @ [current]) [call] (opt_list scoped)
            else if should_parallelize_tool_batch (current @ [call]) reg
            then classify_loop reg calls batches (current @ [call]) (reserved @ opt_list scoped)
            else classify_loop reg calls (batches @ [current]) [call] (opt_list scoped)))"

definition classify_batches :: "tool_call list \<Rightarrow> 'w tool_registry \<Rightarrow> tool_call list list" where
  "classify_batches calls reg = classify_loop reg calls [] [] []"

section \<open>The world of a run\<close>

record 'w loop_world =
  lw_state :: session_state
  lw_env :: 'w

type_synonym 'w lstate = "'w loop_world hook_registry \<times> 'w loop_world"

record stop_info =
  si_point :: string
  si_reason :: string

record session_run =
  sr_results :: "tool_result list"
  sr_stop :: "stop_info option"

definition make_hook_decision_sink :: "'w loop_world hook_sink" where
  "make_hook_decision_sink r payload w =
     w\<lparr>lw_state := snd (session_append ''hook'' ''hook_decision''
        [(''middleware'', JStr (dr_middleware r)), (''point'', JStr (point_value (dr_point r))),
         (''decision'', JStr (dr_decision r)), (''reason'', JStr (dr_reason r))]
        (case hp_tool_call payload of None \<Rightarrow> [] | Some c \<Rightarrow> tc_name c)
        (case hp_tool_call payload of None \<Rightarrow> [] | Some c \<Rightarrow> tc_call_id c) (lw_state w))\<rparr>"

definition ls_dispatch :: "lifecycle_point \<Rightarrow> hook_payload \<Rightarrow> 'w lstate \<Rightarrow> hook_payload py_result \<times> 'w lstate" where
  "ls_dispatch point payload st =
     (case hooks_dispatch point payload (fst st) (snd st) of (r, hr, w) \<Rightarrow> (r, (hr, w)))"

definition ls_session ::
  "(session_state \<Rightarrow> 'a py_result \<times> session_state) \<Rightarrow> 'w lstate \<Rightarrow> 'a py_result \<times> 'w lstate" where
  "ls_session f st =
     (case f (lw_state (snd st)) of (r, s) \<Rightarrow> (r, (fst st, (snd st)\<lparr>lw_state := s\<rparr>)))"

definition ls_tool :: "'w loop_world tool_registry \<Rightarrow> tool_call \<Rightarrow> 'w lstate \<Rightarrow> tool_result py_result \<times> 'w lstate" where
  "ls_tool reg call st = (case registry_dispatch reg call (snd st) of (r, w) \<Rightarrow> (r, (fst st, w)))"

definition ls_update :: "(session_state \<Rightarrow> session_state) \<Rightarrow> 'w lstate \<Rightarrow> 'w lstate" where
  "ls_update f st = (fst st, (snd st)\<lparr>lw_state := f (lw_state (snd st))\<rparr>)"

text \<open>\<open>state.record_tool_result(call, result); state.observations.append(result.summary)\<close>\<close>

definition record_and_observe :: "tool_call \<Rightarrow> tool_result \<Rightarrow> 'w lstate \<Rightarrow> unit py_result \<times> 'w lstate" where
  "record_and_observe call result st =
     sbind (ls_session (record_tool_result call result) st) (\<lambda>_ st.
       (Inr (), ls_update (\<lambda>s. s\<lparr>ss_observations := ss_observations s @ [tr_summary result]\<rparr>) st))"

definition log_stop :: "json_obj \<Rightarrow> 'w lstate \<Rightarrow> trace_event py_result \<times> 'w lstate" where
  "log_stop content = ls_session (session_append ''runtime'' ''run_stopped'' content [] [])"

definition call_payload :: "tool_call option \<Rightarrow> string \<Rightarrow> string \<Rightarrow> hook_payload" where
  "call_payload call role fam =
     \<lparr>hp_tool_call = call, hp_tool_result = None, hp_role = role, hp_acting_family = fam, hp_context = []\<rparr>"

section \<open>Sequential execution\<close>

definition execute_one_sequential ::
  "'w loop_world tool_registry \<Rightarrow> string \<Rightarrow> string \<Rightarrow> tool_call \<Rightarrow> 'w lstate
     \<Rightarrow> (tool_result \<times> stop_info option) py_result \<times> 'w lstate" where
  "execute_one_sequential reg role fam call st =
     sbind (ls_session (record_tool_call call) st) (\<lambda>_ st.
     try_permission (ls_dispatch BEFORE_TOOL_EXEC (call_payload (Some call) role fam) st)
       (\<lambda>reason st.
          sbind (default_tool_result_for_denial reason, st) (\<lambda>result st.
          sbind (record_and_observe call result st) (\<lambda>_ st. (Inr (result, None), st))))
       (\<lambda>payload st.
          case hp_tool_call payload of
            None \<Rightarrow>
              sbind (tool_result_fail ''invalid_payload'' ''hook payload lost tool call'' False None, st) (\<lambda>result st.
              sbind (try_permission (ls_dispatch AFTER_TOOL_EXEC (with_tool_result payload result) st)
                       (\<lambda>_ st. (Inr (), st)) (\<lambda>_ st. (Inr (), st))) (\<lambda>_ st.
              sbind (record_and_observe call result st) (\<lambda>_ st. (Inr (result, None), st))))
          | Some effective_call \<Rightarrow>
              sbind (ls_tool reg effective_call st) (\<lambda>result st.
              try_permission (ls_dispatch AFTER_TOOL_EXEC (with_tool_result payload result) st)
                (\<lambda>reason st.
                   sbind (log_stop [(''point'', JStr (point_value AFTER_TOOL_EXEC)), (''reason'', JStr reason)] st) (\<lambda>_ st.
                   sbind (record_and_observe effective_call result st) (\<lambda>_ st.
                     (Inr (result, Some \<lparr>si_point = point_value AFTER_TOOL_EXEC, si_reason = reason\<rparr>), st))))
                (\<lambda>_ st. sbind (record_and_observe effective_call result st) (\<lambda>_ st. (Inr (result, None), st))))))"

section \<open>Parallel execution\<close>

datatype pool_run =
    Pool (pool_order: "nat list") (pool_done: "nat list") (pool_late: "nat list")
  | PoolFailed (pool_ran: "nat list")

text \<open>The BEFORE phase: per call the payload that may run, or the denial already recorded.\<close>

fun before_phase ::
  "string \<Rightarrow> string \<Rightarrow> tool_call list \<Rightarrow> 'w lstate
     \<Rightarrow> (hook_payload option \<times> tool_result option) list py_result \<times> 'w lstate" where
  "before_phase role fam [] st = (Inr [], st)"
| "before_phase role fam (call # calls) st =
     sbind (ls_session (record_tool_call call) st) (\<lambda>_ st.
     sbind (try_permission (ls_dispatch BEFORE_TOOL_EXEC (call_payload (Some call) role fam) st)
              (\<lambda>reason st.
                 sbind (default_tool_result_for_denial reason, st) (\<lambda>result st.
                 sbind (record_and_observe call result st) (\<lambda>_ st. (Inr (None, Some result), st))))
              (\<lambda>payload st. (Inr (Some payload, None), st))) (\<lambda>slot st.
     sbind (before_phase role fam calls st) (\<lambda>slots st. (Inr (slot # slots), st))))"

definition exec_calls :: "(hook_payload option \<times> tool_result option) list \<Rightarrow> tool_call list" where
  "exec_calls slots = List.map_filter (\<lambda>(p, _). case p of None \<Rightarrow> None | Some p \<Rightarrow> hp_tool_call p) slots"

text \<open>The calls of a pool take effect in the given order; outcome per index.\<close>

fun run_pool ::
  "'w loop_world tool_registry \<Rightarrow> tool_call list \<Rightarrow> nat list \<Rightarrow> 'w lstate
     \<Rightarrow> (nat \<times> tool_result py_result) list \<times> 'w lstate" where
  "run_pool reg calls [] st = ([], st)"
| "run_pool reg calls (i # is) st =
     (case ls_tool reg (calls ! i) st of (r, st1) \<Rightarrow>
       (case run_pool reg calls is st1 of (rs, st2) \<Rightarrow> ((i, r) # rs, st2)))"

definition exec_failed :: "string \<Rightarrow> tool_result py_result" where
  "exec_failed msg = tool_result_fail ''exec_failed'' msg False None"

text \<open>\<open>fut.result(timeout=5)\<close> with its handler.\<close>

definition future_result :: "tool_result py_result \<Rightarrow> tool_result py_result" where
  "future_result r =
     (case r of
        Inr x \<Rightarrow> Inr x
      | Inl e \<Rightarrow> if is_Exception e then exec_failed (''Parallel exec failed: '' @ exn_msg e) else Inl e)"

fun collect_done ::
  "tool_call list \<Rightarrow> (nat \<times> tool_result py_result) list \<Rightarrow> nat list \<Rightarrow> (string, tool_result) pydict
     \<Rightarrow> (string, tool_result) pydict py_result" where
  "collect_done calls outs [] m = Inr m"
| "collect_done calls outs (i # is) m =
     (case map_of outs i of
        None \<Rightarrow> collect_done calls outs is m
      | Some out \<Rightarrow>
         (case future_result out of
            Inl e \<Rightarrow> Inl e
          | Inr r \<Rightarrow> collect_done calls outs is (AList.update (tc_call_id (calls ! i)) r m)))"

fun collect_late :: "tool_call list \<Rightarrow> nat list \<Rightarrow> (string, tool_result) pydict \<Rightarrow> (string, tool_result) pydict py_result" where
  "collect_late calls [] m = Inr m"
| "collect_late calls (i # is) m =
     (case tool_result_fail ''exec_timeout'' ''Parallel exec timeout after 30s'' False None of
        Inl e \<Rightarrow> Inl e
      | Inr r \<Rightarrow> collect_late calls is (AList.update (tc_call_id (calls ! i)) r m))"

text \<open>The sequential fallback after a pool failure.\<close>

fun fallback_exec ::
  "'w loop_world tool_registry \<Rightarrow> tool_call list \<Rightarrow> (string, tool_result) pydict \<Rightarrow> 'w lstate
     \<Rightarrow> (string, tool_result) pydict py_result \<times> 'w lstate" where
  "fallback_exec reg [] m st = (Inr m, st)"
| "fallback_exec reg (call # calls) m st =
     (case ls_tool reg call st of
        (Inr r, st1) \<Rightarrow> fallback_exec reg calls (AList.update (tc_call_id call) r m) st1
      | (Inl e, st1) \<Rightarrow>
         (if is_Exception e
          then (case exec_failed (exn_msg e) of
                  Inr r \<Rightarrow> fallback_exec reg calls (AList.update (tc_call_id call) r m) st1
                | Inl e' \<Rightarrow> (Inl e', st1))
          else (Inl e, st1)))"

definition exec_phase ::
  "'w loop_world tool_registry \<Rightarrow> tool_call list \<Rightarrow> pool_run \<Rightarrow> 'w lstate
     \<Rightarrow> (string, tool_result) pydict py_result \<times> 'w lstate" where
  "exec_phase reg calls pool st =
     (if calls = [] then (Inr [], st)
      else case pool of
        Pool order completed late \<Rightarrow>
          (case run_pool reg calls order st of (outs, st1) \<Rightarrow>
             ((case collect_done calls outs completed [] of
                 Inl e \<Rightarrow> Inl e | Inr m \<Rightarrow> collect_late calls late m), st1))
      | PoolFailed already \<Rightarrow>
          (case run_pool reg calls already st of (_, st1) \<Rightarrow> fallback_exec reg calls [] st1))"

definition interrupted :: "string \<Rightarrow> tool_result py_result" where
  "interrupted msg = tool_result_fail ''interrupted'' msg False None"

text \<open>The AFTER phase in the original order; the last denial wins.\<close>

fun after_phase ::
  "(string, tool_result) pydict \<Rightarrow> (hook_payload option \<times> tool_result option) list \<Rightarrow> string option
     \<Rightarrow> tool_result list \<Rightarrow> 'w lstate \<Rightarrow> (tool_result list \<times> string option) py_result \<times> 'w lstate" where
  "after_phase m [] denied acc st = (Inr (acc, denied), st)"
| "after_phase m ((None, d) # slots) denied acc st =
     sbind ((case d of Some r \<Rightarrow> Inr r
               | None \<Rightarrow> interrupted ''Interrupted before execution, missing tool_result''), st) (\<lambda>r st.
     after_phase m slots denied (acc @ [r]) st)"
| "after_phase m ((Some payload, d) # slots) denied acc st =
     (case hp_tool_call payload of
        None \<Rightarrow>
          sbind (interrupted ''Interrupted before execution, missing tool_result'', st) (\<lambda>r st.
          after_phase m slots denied (acc @ [r]) st)
      | Some call \<Rightarrow>
          sbind ((case dict_get m (tc_call_id call) of
                    Some r \<Rightarrow> Inr r
                  | None \<Rightarrow> interrupted ''Interrupted, missing tool_result - synthetic''), st) (\<lambda>result st.
          sbind (try_permission (ls_dispatch AFTER_TOOL_EXEC (with_tool_result payload result) st)
                   (\<lambda>reason st. (Inr (Some reason), st)) (\<lambda>_ st. (Inr denied, st))) (\<lambda>denied st.
          sbind (record_and_observe call result st) (\<lambda>_ st.
          after_phase m slots denied (acc @ [result]) st))))"

definition execute_batch_parallel ::
  "'w loop_world tool_registry \<Rightarrow> string \<Rightarrow> string \<Rightarrow> pool_run \<Rightarrow> tool_call list \<Rightarrow> 'w lstate
     \<Rightarrow> (tool_result list \<times> stop_info option) py_result \<times> 'w lstate" where
  "execute_batch_parallel reg role fam pool batch st =
     sbind (before_phase role fam batch st) (\<lambda>slots st.
     sbind (exec_phase reg (exec_calls slots) pool st) (\<lambda>m st.
     sbind (after_phase m slots None [] st) (\<lambda>(results, denied) st.
       case denied of
         None \<Rightarrow> (Inr (results, None), st)
       | Some reason \<Rightarrow>
           sbind (log_stop [(''point'', JStr (point_value AFTER_TOOL_EXEC)), (''reason'', JStr reason)] st) (\<lambda>_ st.
             (Inr (results, Some \<lparr>si_point = point_value AFTER_TOOL_EXEC, si_reason = reason\<rparr>), st)))))"

section \<open>The session\<close>

fun run_sequential ::
  "'w loop_world tool_registry \<Rightarrow> string \<Rightarrow> string \<Rightarrow> tool_call list \<Rightarrow> tool_result list \<Rightarrow> 'w lstate
     \<Rightarrow> (tool_result list \<times> stop_info option) py_result \<times> 'w lstate" where
  "run_sequential reg role fam [] results st = (Inr (results, None), st)"
| "run_sequential reg role fam (call # calls) results st =
     sbind (execute_one_sequential reg role fam call st) (\<lambda>(result, call_stop) st.
       case call_stop of
         Some s \<Rightarrow> (Inr (results @ [result], Some s), st)
       | None \<Rightarrow> run_sequential reg role fam calls (results @ [result]) st)"

definition run_batch ::
  "'w loop_world tool_registry \<Rightarrow> string \<Rightarrow> string \<Rightarrow> pool_run \<Rightarrow> tool_call list \<Rightarrow> tool_result list \<Rightarrow> 'w lstate
     \<Rightarrow> (tool_result list \<times> stop_info option) py_result \<times> 'w lstate" where
  "run_batch reg role fam pool batch results st =
     (if length batch = 1 \<or> \<not> should_parallelize_tool_batch batch reg
      then run_sequential reg role fam batch results st
      else sbind (execute_batch_parallel reg role fam pool batch st) (\<lambda>(rs, stop) st.
             (Inr (results @ rs, stop), st)))"

text \<open>The loop over the batches; \<open>pools k\<close> is the thread pool of batch \<open>k\<close>.\<close>

fun session_loop ::
  "'w loop_world tool_registry \<Rightarrow> string \<Rightarrow> string \<Rightarrow> int \<Rightarrow> (nat \<Rightarrow> pool_run) \<Rightarrow> nat \<Rightarrow> tool_call list list
     \<Rightarrow> tool_result list \<Rightarrow> 'w lstate \<Rightarrow> (tool_result list \<times> stop_info option) py_result \<times> 'w lstate" where
  "session_loop reg role fam cap pools k [] results st = (Inr (results, None), st)"
| "session_loop reg role fam cap pools k (batch # batches) results st =
     (if int (length results) \<ge> cap then (Inr (results, None), st)
      else
        let remaining = nat (cap - int (length results));
            truncated = length batch > remaining;
            batch = (if truncated then take remaining batch else batch) in
        if truncated \<and> batch = [] then (Inr (results, None), st)
        else
          let st = ls_update (\<lambda>s. s\<lparr>ss_batch_turn := ss_batch_turn s + 1\<rparr>) st in
          try_permission (ls_dispatch BETWEEN_ROUNDS (call_payload None role fam) st)
            (\<lambda>reason st.
               sbind (log_stop [(''point'', JStr (point_value BETWEEN_ROUNDS)), (''reason'', JStr reason)] st) (\<lambda>_ st.
                 (Inr (results, Some \<lparr>si_point = point_value BETWEEN_ROUNDS, si_reason = reason\<rparr>), st)))
            (\<lambda>_ st.
               sbind (run_batch reg role fam (pools k) batch results st) (\<lambda>(results, stop) st.
                 case stop of
                   Some s \<Rightarrow> (Inr (results, Some s), st)
                 | None \<Rightarrow> session_loop reg role fam cap pools (Suc k) batches results
                             (ls_update commit_search_paths st))))"

definition iteration_cap_reason :: "int \<Rightarrow> nat \<Rightarrow> string" where
  "iteration_cap_reason limit used =
     ''iteration_cap: per-turn iteration limit ('' @ int_str limit @ '') exceeded - used '' @ nat_str used @
     '' of '' @ int_str limit"

definition run_session ::
  "'w loop_world tool_registry \<Rightarrow> string \<Rightarrow> string \<Rightarrow> int \<Rightarrow> (nat \<Rightarrow> pool_run) \<Rightarrow> tool_call list \<Rightarrow> 'w lstate
     \<Rightarrow> session_run py_result \<times> 'w lstate" where
  "run_session reg role fam max_iterations pools calls st =
     (case require_log (lw_state (snd st)) of
        Inl e \<Rightarrow> (Inl e, st)
      | Inr _ \<Rightarrow>
         (let batching = (case ss_tool_batching (lw_state (snd st)) of None \<Rightarrow> True | Some b \<Rightarrow> b);
              st1 = (set_event_sink (Some make_hook_decision_sink) (fst st), snd st);
              batches = (if batching then classify_batches calls reg else map (\<lambda>c. [c]) calls)
          in case session_loop reg role fam max_iterations pools 0 batches [] st1 of
               (outcome, st2) \<Rightarrow>
                 sbind (outcome, (set_event_sink None (fst st2), snd st2)) (\<lambda>(results, stop) st.
                   if stop = None \<and> int (length results) \<ge> max_iterations \<and> length calls > length results
                   then (let used = length results; reason = iteration_cap_reason max_iterations used in
                         sbind (log_stop [(''point'', JStr ''iteration_cap''), (''reason'', JStr reason),
                             (''used'', JInt (int used)), (''limit'', JInt max_iterations), (''profile'', JStr role)] st) (\<lambda>_ st.
                           (Inr \<lparr>sr_results = results,
                                 sr_stop = Some \<lparr>si_point = ''iteration_cap'', si_reason = reason\<rparr>\<rparr>, st)))
                   else (Inr \<lparr>sr_results = results, sr_stop = stop\<rparr>, st))))"

section \<open>Batches\<close>

definition call_scoped :: "tool_call \<Rightarrow> bool" where
  "call_scoped c \<longleftrightarrow> tc_name c \<in> set PATH_SCOPED_TOOLS"

definition scopes :: "tool_call list \<Rightarrow> string list list" where
  "scopes calls = map (\<lambda>c. the (extract_parallel_scope_path c)) (filter call_scoped calls)"

lemma scopes_simps [simp]:
  "scopes [] = []"
  "scopes (c # cs) = (if call_scoped c then the (extract_parallel_scope_path c) # scopes cs else scopes cs)"
  by (simp_all add: scopes_def)

definition batch_member_ok :: "'w tool_registry \<Rightarrow> tool_call \<Rightarrow> bool" where
  "batch_member_ok reg c \<longleftrightarrow>
     (if call_scoped c then extract_parallel_scope_path c \<noteq> None
      else tc_name c \<in> set PARALLEL_SAFE_TOOLS \<or> read_permission reg (tc_name c))"

lemma parallel_scan_iff:
  "parallel_scan reg calls reserved \<longleftrightarrow>
     (\<forall>c \<in> set calls. batch_member_ok reg c) \<and>
     (\<forall>p \<in> set (scopes calls). \<forall>q \<in> set reserved. \<not> paths_overlap p q) \<and>
     sorted_wrt (\<lambda>a b. \<not> paths_overlap b a) (scopes calls)"
proof (induction calls arbitrary: reserved)
  case Nil
  then show ?case by simp
next
  case (Cons c calls)
  show ?case
  proof (cases "call_scoped c")
    case True
    show ?thesis
    proof (cases "extract_parallel_scope_path c")
      case None
      with True show ?thesis by (simp add: call_scoped_def batch_member_ok_def)
    next
      case (Some p)
      with True have "parallel_scan reg (c # calls) reserved \<longleftrightarrow>
          (\<forall>q \<in> set reserved. \<not> paths_overlap p q) \<and> parallel_scan reg calls (reserved @ [p])"
        by (simp add: call_scoped_def list_ex_iff)
      with Cons.IH [of "reserved @ [p]"] True Some show ?thesis by (auto simp: batch_member_ok_def)
    qed
  next
    case False
    with Cons.IH [of reserved] show ?thesis by (auto simp: call_scoped_def batch_member_ok_def)
  qed
qed

lemma should_parallelize_iff:
  "should_parallelize_tool_batch calls reg \<longleftrightarrow>
     2 \<le> length calls \<and>
     (\<forall>c \<in> set calls. tc_name c \<notin> set NEVER_PARALLEL_TOOLS \<and> batch_member_ok reg c) \<and>
     sorted_wrt (\<lambda>a b. \<not> paths_overlap b a) (scopes calls)"
  by (auto simp: should_parallelize_tool_batch_def parallel_scan_iff list_ex_iff)

lemma classify_loop_concat:
  "concat (classify_loop reg calls batches current reserved) = concat batches @ current @ calls"
  by (induction calls arbitrary: batches current reserved) (simp_all add: Let_def)

definition batch_ok :: "'w tool_registry \<Rightarrow> tool_call list \<Rightarrow> bool" where
  "batch_ok reg b \<longleftrightarrow> b \<noteq> [] \<and> (2 \<le> length b \<longrightarrow> should_parallelize_tool_batch b reg)"

lemma batch_ok_single [simp]: "batch_ok reg [c]"
  by (simp add: batch_ok_def)

lemma classify_loop_ok:
  "\<forall>b \<in> set batches. batch_ok reg b \<Longrightarrow> (if current = [] then reserved = [] else batch_ok reg current) \<Longrightarrow>
     \<forall>b \<in> set (classify_loop reg calls batches current reserved). batch_ok reg b"
proof (induction calls arbitrary: batches current reserved)
  case Nil
  then show ?case by (auto split: if_splits)
next
  case (Cons c calls)
  show ?case
  proof (cases "current = []")
    case True
    then have "\<not> scope_conflict (scope_of c) reserved"
      using Cons.prems(2) by (auto simp: scope_conflict_def split: option.splits)
    moreover have "\<forall>b \<in> set (classify_loop reg calls batches [c] (opt_list (scope_of c))). batch_ok reg b"
      "\<forall>b \<in> set (classify_loop reg calls (batches @ [[c]]) [] []). batch_ok reg b"
      by (rule Cons.IH; use Cons.prems(1) in simp)+
    ultimately show ?thesis using True Cons.prems(2) by (simp add: Let_def)
  next
    case False
    with Cons.prems have cur: "batch_ok reg current" by simp
    have grown: "batch_ok reg (current @ [c])" if "should_parallelize_tool_batch (current @ [c]) reg"
      using that by (simp add: batch_ok_def)
    have go: "\<forall>b \<in> set (classify_loop reg calls bs cur' res). batch_ok reg b"
      if "\<forall>b \<in> set bs. batch_ok reg b" "cur' \<noteq> []" "batch_ok reg cur'" for bs cur' res
      using that by (intro Cons.IH) auto
    have single: "\<forall>b \<in> set (classify_loop reg calls (batches @ [current] @ [[c]]) [] []). batch_ok reg b"
      using Cons.prems cur by (intro Cons.IH) auto
    have flush: "\<forall>b \<in> set (classify_loop reg calls (batches @ [current]) [c] res). batch_ok reg b" for res
      using Cons.prems cur by (intro go) auto
    have extend: "\<forall>b \<in> set (classify_loop reg calls batches (current @ [c]) res). batch_ok reg b"
      if "should_parallelize_tool_batch (current @ [c]) reg" for res
      using Cons.prems grown that by (intro go) auto
    show ?thesis using False single flush extend by (simp add: Let_def)
  qed
qed

section \<open>Results of a run\<close>

lemma run_sequential_results:
  "run_sequential reg role fam calls results st = (Inr (results', stop), st') \<Longrightarrow>
     \<exists>rs. results' = results @ rs \<and> length rs \<le> length calls \<and> (stop = None \<longrightarrow> length rs = length calls)"
proof (induction calls arbitrary: results st)
  case Nil
  then show ?case by auto
next
  case (Cons c calls)
  then obtain r s st1 where one: "execute_one_sequential reg role fam c st = (Inr (r, s), st1)"
    and rest: "(case s of Some x \<Rightarrow> (Inr (results @ [r], Some x), st1)
       | None \<Rightarrow> run_sequential reg role fam calls (results @ [r]) st1) = (Inr (results', stop), st')"
    by (auto simp: sbind_Inr)
  show ?case
  proof (cases s)
    case None
    with rest Cons.IH [of "results @ [r]" st1] show ?thesis by auto
  next
    case (Some x)
    with rest show ?thesis by auto
  qed
qed

lemma before_phase_length:
  "before_phase role fam calls st = (Inr slots, st') \<Longrightarrow> length slots = length calls"
proof (induction calls arbitrary: st slots)
  case Nil
  then show ?case by simp
next
  case (Cons c calls)
  then obtain slot st1 rest where "before_phase role fam calls st1 = (Inr rest, st')" "slots = slot # rest"
    unfolding before_phase.simps sbind_Inr by auto
  with Cons.IH show ?case by auto
qed

lemma after_phase_length:
  "after_phase m slots denied acc st = (Inr (results, d), st') \<Longrightarrow> length results = length acc + length slots"
proof (induction slots arbitrary: denied acc st)
  case Nil
  then show ?case by auto
next
  case (Cons slot slots)
  obtain p dr where slot: "slot = (p, dr)" by (cases slot)
  have "\<exists>denied' r st1. after_phase m slots denied' (acc @ [r]) st1 = (Inr (results, d), st')"
  proof (cases p)
    case None
    with Cons.prems show ?thesis unfolding slot None after_phase.simps sbind_Inr by blast
  next
    case (Some payload)
    show ?thesis
    proof (cases "hp_tool_call payload")
      case None
      with Cons.prems show ?thesis unfolding slot Some after_phase.simps None option.case sbind_Inr by blast
    next
      case call: (Some c)
      with Cons.prems show ?thesis unfolding slot Some after_phase.simps call option.case sbind_Inr by blast
    qed
  qed
  then obtain denied' r st1 where "after_phase m slots denied' (acc @ [r]) st1 = (Inr (results, d), st')" by blast
  from Cons.IH [OF this] show ?case by simp
qed

lemma parallel_outcome:
  assumes "execute_batch_parallel reg role fam pool batch st = (Inr (results, stop), st')"
  shows "length results = length batch \<and> (\<forall>x. stop = Some x \<longrightarrow> si_point x = point_value AFTER_TOOL_EXEC)"
proof -
  from assms [unfolded execute_batch_parallel_def, THEN iffD1 [OF sbind_Inr]] obtain slots st1 where
    b: "before_phase role fam batch st = (Inr slots, st1)"
    and r1: "sbind (exec_phase reg (exec_calls slots) pool st1) (\<lambda>m st.
       sbind (after_phase m slots None [] st) (\<lambda>(results, denied) st.
         case denied of
           None \<Rightarrow> (Inr (results, None), st)
         | Some reason \<Rightarrow>
             sbind (log_stop [(''point'', JStr (point_value AFTER_TOOL_EXEC)), (''reason'', JStr reason)] st) (\<lambda>_ st.
               (Inr (results, Some \<lparr>si_point = point_value AFTER_TOOL_EXEC, si_reason = reason\<rparr>), st))))
       = (Inr (results, stop), st')"
    by blast
  from iffD1 [OF sbind_Inr r1] obtain m st2 where
    r2: "sbind (after_phase m slots None [] st2) (\<lambda>(results, denied) st.
         case denied of
           None \<Rightarrow> (Inr (results, None), st)
         | Some reason \<Rightarrow>
             sbind (log_stop [(''point'', JStr (point_value AFTER_TOOL_EXEC)), (''reason'', JStr reason)] st) (\<lambda>_ st.
               (Inr (results, Some \<lparr>si_point = point_value AFTER_TOOL_EXEC, si_reason = reason\<rparr>), st)))
       = (Inr (results, stop), st')"
    by blast
  from iffD1 [OF sbind_Inr r2] obtain rs d st3 where
    a: "after_phase m slots None [] st2 = (Inr (rs, d), st3)"
    and r3: "(case d of
           None \<Rightarrow> (Inr (rs, None), st3)
         | Some reason \<Rightarrow>
             sbind (log_stop [(''point'', JStr (point_value AFTER_TOOL_EXEC)), (''reason'', JStr reason)] st3) (\<lambda>_ st.
               (Inr (rs, Some \<lparr>si_point = point_value AFTER_TOOL_EXEC, si_reason = reason\<rparr>), st)))
       = (Inr (results, stop), st')"
    by auto
  from r3 have "results = rs" "\<forall>x. stop = Some x \<longrightarrow> si_point x = point_value AFTER_TOOL_EXEC"
    by (cases d; auto simp: sbind_Inr)+
  with before_phase_length [OF b] after_phase_length [OF a] show ?thesis by simp
qed

lemma run_batch_results:
  assumes "run_batch reg role fam pool batch results st = (Inr (results', stop), st')"
  shows "\<exists>rs. results' = results @ rs \<and> length rs \<le> length batch \<and> (stop = None \<longrightarrow> length rs = length batch)"
proof (cases "length batch = 1 \<or> \<not> should_parallelize_tool_batch batch reg")
  case True
  with assms show ?thesis by (intro run_sequential_results) (simp add: run_batch_def)
next
  case False
  with assms obtain rs where "execute_batch_parallel reg role fam pool batch st = (Inr (rs, stop), st')"
      "results' = results @ rs"
    by (auto simp: run_batch_def sbind_Inr)
  with parallel_outcome [of reg role fam pool batch st rs stop st'] show ?thesis by (intro exI [of _ rs]) auto
qed

text \<open>The stop points of the loop itself, before the cap signal is added.\<close>

definition loop_points :: "string set" where
  "loop_points = {point_value BETWEEN_ROUNDS, point_value AFTER_TOOL_EXEC}"

lemma execute_one_stop:
  "execute_one_sequential reg role fam c st = (Inr (r, Some x), st') \<Longrightarrow> si_point x \<in> loop_points"
  unfolding execute_one_sequential_def
  by (auto simp: sbind_Inr try_permission_Inr loop_points_def split: option.splits)

lemma run_sequential_stop:
  "run_sequential reg role fam calls results st = (Inr (results', Some x), st') \<Longrightarrow> si_point x \<in> loop_points"
proof (induction calls arbitrary: results st)
  case Nil
  then show ?case by simp
next
  case (Cons c calls)
  then obtain r s st1 where one: "execute_one_sequential reg role fam c st = (Inr (r, s), st1)"
    and rest: "(case s of Some x \<Rightarrow> (Inr (results @ [r], Some x), st1)
       | None \<Rightarrow> run_sequential reg role fam calls (results @ [r]) st1) = (Inr (results', Some x), st')"
    by (auto simp: sbind_Inr)
  with Cons.IH execute_one_stop [of reg role fam c st r x st1] show ?case by (cases s) auto
qed

lemma run_batch_stop:
  assumes "run_batch reg role fam pool batch results st = (Inr (results', Some x), st')"
  shows "si_point x \<in> loop_points"
proof (cases "length batch = 1 \<or> \<not> should_parallelize_tool_batch batch reg")
  case True
  with assms show ?thesis by (intro run_sequential_stop) (simp add: run_batch_def)
next
  case False
  with assms obtain rs where "execute_batch_parallel reg role fam pool batch st = (Inr (rs, Some x), st')"
    by (auto simp: run_batch_def sbind_Inr)
  from parallel_outcome [OF this] show ?thesis by (simp add: loop_points_def)
qed

lemma session_loop_results:
  "session_loop reg role fam cap pools k batches results st = (Inr (results', stop), st') \<Longrightarrow>
     \<exists>rs. results' = results @ rs \<and> length rs \<le> length (concat batches) \<and>
       int (length results') \<le> max (int (length results)) cap \<and>
       (stop = None \<longrightarrow> length rs = length (concat batches) \<or> cap \<le> int (length results')) \<and>
       (\<forall>x. stop = Some x \<longrightarrow> si_point x \<in> loop_points)"
proof (induction batches arbitrary: k results st)
  case Nil
  then show ?case by auto
next
  case (Cons batch batches)
  let ?n = "length results"
  let ?rem = "nat (cap - int ?n)"
  let ?b = "if length batch > ?rem then take ?rem batch else batch"
  let ?st = "ls_update (\<lambda>s. s\<lparr>ss_batch_turn := ss_batch_turn s + 1\<rparr>) st"
  show ?case
  proof (cases "int ?n \<ge> cap")
    case True
    with Cons.prems show ?thesis by auto
  next
    case room: False
    then have ne: "\<not> (length batch > ?rem \<and> ?b = [])" by auto
    show ?thesis
    proof -
      from Cons.prems room ne consider
        (denied) reason where "results' = results" "stop = Some \<lparr>si_point = point_value BETWEEN_ROUNDS, si_reason = reason\<rparr>"
      | (ran) r1 stop1 st1 st2 where
          "run_batch reg role fam (pools k) ?b results st1 = (Inr (r1, stop1), st2)"
          "(case stop1 of Some s \<Rightarrow> (Inr (r1, Some s), st2)
            | None \<Rightarrow> session_loop reg role fam cap pools (Suc k) batches r1 (ls_update commit_search_paths st2))
           = (Inr (results', stop), st')"
        by (auto simp: Let_def sbind_Inr try_permission_Inr)
      then show ?thesis
      proof cases
        case denied
        with room show ?thesis by (auto simp: loop_points_def)
      next
        case ran
        from run_batch_results [OF ran(1)] obtain rs1 where rs1: "r1 = results @ rs1" "length rs1 \<le> length ?b"
          "stop1 = None \<longrightarrow> length rs1 = length ?b" by blast
        have lb: "length ?b \<le> length batch" "int (length ?b) \<le> cap - int ?n" using room by auto
        show ?thesis
        proof (cases stop1)
          case (Some s)
          with ran(2) have "results' = r1" "stop = Some s" by auto
          with run_batch_stop [of reg role fam "pools k" ?b results st1 r1 s st2] ran(1) Some rs1 lb room
          show ?thesis by (intro exI [of _ rs1]) auto
        next
          case None
          with ran(2) have loop: "session_loop reg role fam cap pools (Suc k) batches r1 (ls_update commit_search_paths st2) = (Inr (results', stop), st')"
            by simp
          from Cons.IH [OF loop] obtain rs2 where rs2: "results' = r1 @ rs2" "length rs2 \<le> length (concat batches)"
              "int (length results') \<le> max (int (length r1)) cap"
              "stop = None \<longrightarrow> length rs2 = length (concat batches) \<or> cap \<le> int (length results')"
              "\<forall>x. stop = Some x \<longrightarrow> si_point x \<in> loop_points"
            by blast
          have l1: "length rs1 = length ?b" using rs1(3) None by simp
          have "length ?b = length batch \<or> cap \<le> int (length results')"
            using l1 rs1(1) rs2(1) room by auto
          then have "stop = None \<longrightarrow> length (rs1 @ rs2) = length (concat (batch # batches)) \<or> cap \<le> int (length results')"
            using rs2(4) l1 by auto
          moreover have "length (rs1 @ rs2) \<le> length (concat (batch # batches))"
            using rs2(2) l1 lb(1) by simp
          moreover have "int (length results') \<le> max (int (length results)) cap"
            using rs2(3) rs1(1) l1 lb(2) by simp
          moreover have "results' = results @ (rs1 @ rs2)" using rs1(1) rs2(1) by simp
          ultimately show ?thesis using rs2(5) by blast
        qed
      qed
    qed
  qed
qed

section \<open>The thread pool\<close>

text \<open>A run of the pool over \<open>n\<close> submitted calls: every future is collected once, as completed or as
  late, and a completed one has run.\<close>

definition pool_ok :: "nat \<Rightarrow> nat list \<Rightarrow> nat list \<Rightarrow> nat list \<Rightarrow> bool" where
  "pool_ok n order completed late \<longleftrightarrow>
     distinct (completed @ late) \<and> set (completed @ late) = {..<n} \<and> set completed \<subseteq> set order \<and>
     distinct order \<and> set order \<subseteq> {..<n}"

lemma run_pool_dom: "run_pool reg calls order st = (outs, st') \<Longrightarrow> map fst outs = order"
  by (induction order arbitrary: st outs) (auto split: prod.splits)

lemma collect_done_map:
  assumes ids: "distinct (map tc_call_id calls)"
  shows "collect_done calls outs is m = Inr m' \<Longrightarrow> distinct is \<Longrightarrow> set is \<subseteq> {..<length calls} \<Longrightarrow> i < length calls \<Longrightarrow>
     map_of m' (tc_call_id (calls ! i)) =
       (if i \<in> set is \<and> map_of outs i \<noteq> None
        then (case future_result (the (map_of outs i)) of Inr r \<Rightarrow> Some r | Inl _ \<Rightarrow> None)
        else map_of m (tc_call_id (calls ! i))) \<and>
     (i \<in> set is \<longrightarrow> map_of outs i \<noteq> None \<longrightarrow> (\<exists>r. future_result (the (map_of outs i)) = Inr r))"
proof (induction "is" arbitrary: m)
  case Nil
  then show ?case by simp
next
  case (Cons j js)
  have eq: "tc_call_id (calls ! i) = tc_call_id (calls ! j) \<longleftrightarrow> i = j"
    using ids Cons.prems(3,4) by (auto simp: distinct_conv_nth)
  show ?case
  proof (cases "map_of outs j")
    case None
    with Cons show ?thesis by (cases "i = j") auto
  next
    case (Some out)
    with Cons.prems(1) obtain r where r: "future_result out = Inr r"
        "collect_done calls outs js (AList.update (tc_call_id (calls ! j)) r m) = Inr m'"
      by (auto split: sum.splits)
    from Cons.IH [OF r(2)] Cons.prems Some r(1) show ?thesis
      by (cases "i = j") (auto simp: map_of_update_other eq)
  qed
qed

lemma timeout_result:
  "tool_result_fail ''exec_timeout'' ''Parallel exec timeout after 30s'' False None =
     Inr \<lparr>tr_summary = ''Parallel exec timeout after 30s'', tr_result = None,
          tr_error = Some \<lparr>te_code = ''exec_timeout'', te_message = ''Parallel exec timeout after 30s'', te_retryable = False\<rparr>,
          tr_artifacts = []\<rparr>"
  by (simp add: tool_result_fail_def tool_result_post_init_def)

lemma collect_late_map:
  assumes ids: "distinct (map tc_call_id calls)"
  shows "collect_late calls is m = Inr m' \<Longrightarrow> set is \<subseteq> {..<length calls} \<Longrightarrow> i < length calls \<Longrightarrow>
     (if i \<in> set is then \<exists>r e. map_of m' (tc_call_id (calls ! i)) = Some r \<and> tr_error r = Some e \<and> te_code e = ''exec_timeout''
      else map_of m' (tc_call_id (calls ! i)) = map_of m (tc_call_id (calls ! i)))"
proof (induction "is" arbitrary: m)
  case Nil
  then show ?case by simp
next
  case (Cons j js)
  have eq: "tc_call_id (calls ! i) = tc_call_id (calls ! j) \<longleftrightarrow> i = j"
    using ids Cons.prems(2,3) by (auto simp: distinct_conv_nth)
  from Cons.prems(1) obtain r where r: "collect_late calls js (AList.update (tc_call_id (calls ! j)) r m) = Inr m'"
      "\<exists>e. tr_error r = Some e \<and> te_code e = ''exec_timeout''"
    by (auto simp: timeout_result)
  from Cons.IH [OF r(1)] Cons.prems r(2) show ?case
    by (cases "i = j") (auto simp: map_of_update_other eq split: if_splits)
qed

section \<open>Properties\<close>

definition demo_read_spec :: "string \<Rightarrow> nat loop_world tool_spec" where
  "demo_read_spec name =
     \<lparr>ts_name = name, ts_description = ''read a file'', ts_input_schema = [(''type'', JStr ''object'')],
      ts_permission = ''read'',
      ts_handler = (\<lambda>params w. (case map_of params ''path'' of
          Some (JStr p) \<Rightarrow> tool_result_ok (''read '' @ p) (Some (JStr p)) []
        | _ \<Rightarrow> tool_result_fail ''invalid_params'' ''no path'' True None, w\<lparr>lw_env := Suc (lw_env w)\<rparr>)),
      ts_tags = [], ts_output_schema = None, ts_defer_loading = False,
      ts_max_context_bytes = DEFAULT_TOOL_CONTEXT_BYTES, ts_elide = None\<rparr>"

definition demo_tools :: "nat loop_world tool_registry" where
  "demo_tools = \<lparr>reg_tools = [(''fs_read_file'', demo_read_spec ''fs_read_file'')],
     reg_validators = [(''fs_read_file'', \<lambda>_. None)]\<rparr>"

definition demo_log :: event_log where
  "demo_log = \<lparr>el_run_id = ''r'', el_session_id = ''s'', el_redactor = None, el_db = demo_db\<lparr>sdb_env := []\<rparr>,
     el_kind_counts = [], el_chain_exhaustion_count = 0, el_next_id = 1, el_clock = ''t''\<rparr>"

definition demo_world :: "nat loop_world" where
  "demo_world = \<lparr>lw_state = demo_session\<lparr>ss_log := Some demo_log\<rparr>, lw_env = 0\<rparr>"

definition read_call :: "string \<Rightarrow> string \<Rightarrow> tool_call" where
  "read_call p i = \<lparr>tc_name = ''fs_read_file'', tc_params = [(''path'', JStr p)], tc_call_id = i\<rparr>"

text \<open>C24: Batching keeps the program order and is safe: the batches concatenate to the calls, none is
  empty, and in a batch of two or more every call is read-only by name or registered permission,
  none is on the never-parallel list, and two file reads never have overlapping paths.\<close>

theorem classify_batches_sound:
  "concat (classify_batches calls reg) = calls \<and>
   (\<forall>b \<in> set (classify_batches calls reg). b \<noteq> [] \<and> (2 \<le> length b \<longrightarrow>
      (\<forall>c \<in> set b. tc_name c \<notin> set NEVER_PARALLEL_TOOLS \<and>
         (tc_name c \<in> set PARALLEL_SAFE_TOOLS \<or> read_permission reg (tc_name c))) \<and>
      (\<forall>pre c mid d post. b = pre @ c # mid @ d # post \<longrightarrow> tc_name c = ''fs_read_file'' \<longrightarrow> tc_name d = ''fs_read_file'' \<longrightarrow>
         (\<exists>p q. extract_parallel_scope_path c = Some p \<and> extract_parallel_scope_path d = Some q \<and>
            \<not> paths_overlap q p))))"
proof -
  have scoped: "tc_name c = ''fs_read_file'' \<or> tc_name c \<in> set NEVER_PARALLEL_TOOLS" if "call_scoped c" for c
    using that by (auto simp: call_scoped_def PATH_SCOPED_TOOLS_def NEVER_PARALLEL_TOOLS_def)
  have safe: "''fs_read_file'' \<in> set PARALLEL_SAFE_TOOLS" by (simp add: PARALLEL_SAFE_TOOLS_def)
  have ok: "\<forall>b \<in> set (classify_batches calls reg). batch_ok reg b"
    unfolding classify_batches_def by (rule classify_loop_ok) auto
  have safe_batch: "(\<forall>c \<in> set b. tc_name c \<notin> set NEVER_PARALLEL_TOOLS \<and>
         (tc_name c \<in> set PARALLEL_SAFE_TOOLS \<or> read_permission reg (tc_name c))) \<and>
      (\<forall>pre c mid d post. b = pre @ c # mid @ d # post \<longrightarrow> tc_name c = ''fs_read_file'' \<longrightarrow> tc_name d = ''fs_read_file'' \<longrightarrow>
         (\<exists>p q. extract_parallel_scope_path c = Some p \<and> extract_parallel_scope_path d = Some q \<and> \<not> paths_overlap q p))"
    if par: "should_parallelize_tool_batch b reg" for b
  proof (intro conjI ballI allI impI)
    fix c assume c: "c \<in> set b"
    with par show "tc_name c \<notin> set NEVER_PARALLEL_TOOLS" by (simp add: should_parallelize_iff)
    from par c scoped [of c] safe show "tc_name c \<in> set PARALLEL_SAFE_TOOLS \<or> read_permission reg (tc_name c)"
      by (auto simp: should_parallelize_iff batch_member_ok_def split: if_splits)
  next
    fix pre c mid d post
    assume b: "b = pre @ c # mid @ d # post" and names: "tc_name c = ''fs_read_file''" "tc_name d = ''fs_read_file''"
    then have sc: "call_scoped c" "call_scoped d" by (auto simp: call_scoped_def PATH_SCOPED_TOOLS_def)
    from par have "batch_member_ok reg c" "batch_member_ok reg d" by (auto simp: should_parallelize_iff b)
    with sc obtain p q where pq: "extract_parallel_scope_path c = Some p" "extract_parallel_scope_path d = Some q"
      by (auto simp: batch_member_ok_def)
    have "scopes b = scopes pre @ p # scopes mid @ q # scopes post"
      using sc pq by (simp add: scopes_def b)
    with par have "\<not> paths_overlap q p" by (auto simp: should_parallelize_iff sorted_wrt_append)
    with pq show "\<exists>p q. extract_parallel_scope_path c = Some p \<and> extract_parallel_scope_path d = Some q \<and> \<not> paths_overlap q p"
      by blast
  qed
  show ?thesis
  proof (intro conjI ballI impI)
    show "concat (classify_batches calls reg) = calls"
      by (simp add: classify_batches_def classify_loop_concat)
    fix b assume b: "b \<in> set (classify_batches calls reg)"
    then show "b \<noteq> []" using ok by (simp add: batch_ok_def)
    assume "2 \<le> length b"
    with b ok have par: "should_parallelize_tool_batch b reg" by (simp add: batch_ok_def)
    show "tc_name c \<notin> set NEVER_PARALLEL_TOOLS"
        "tc_name c \<in> set PARALLEL_SAFE_TOOLS \<or> read_permission reg (tc_name c)" if "c \<in> set b" for c
      using conjunct1 [OF safe_batch [OF par]] that by simp_all
    show "\<forall>pre c mid d post. b = pre @ c # mid @ d # post \<longrightarrow> tc_name c = ''fs_read_file'' \<longrightarrow> tc_name d = ''fs_read_file'' \<longrightarrow>
         (\<exists>p q. extract_parallel_scope_path c = Some p \<and> extract_parallel_scope_path d = Some q \<and> \<not> paths_overlap q p)"
      by (rule conjunct2 [OF safe_batch [OF par]])
  qed
qed

theorem classify_batches_sound_witness:
  "classify_batches [read_call ''a'' ''1'', read_call ''b/c'' ''2'', read_call ''./b'' ''3''] demo_tools =
     [[read_call ''a'' ''1'', read_call ''b/c'' ''2''], [read_call ''./b'' ''3'']] \<and>
   \<not> paths_overlap (path_parts ''b/c'') (path_parts ''a'')"
proof -
  let ?calls = "[read_call ''a'' ''1'', read_call ''b/c'' ''2'', read_call ''./b'' ''3'']"
  let ?b = "[read_call ''a'' ''1'', read_call ''b/c'' ''2'']"
  have bs: "classify_batches ?calls demo_tools = [?b, [read_call ''./b'' ''3'']]" by code_simp
  have "\<exists>p q. extract_parallel_scope_path (read_call ''a'' ''1'') = Some p \<and>
      extract_parallel_scope_path (read_call ''b/c'' ''2'') = Some q \<and> \<not> paths_overlap q p"
  proof -
    have mem: "?b \<in> set (classify_batches ?calls demo_tools)" by (simp add: bs)
    have parts: "2 \<le> length ?b" "?b = [] @ read_call ''a'' ''1'' # [] @ read_call ''b/c'' ''2'' # []"
        "tc_name (read_call ''a'' ''1'') = ''fs_read_file''" "tc_name (read_call ''b/c'' ''2'') = ''fs_read_file''"
      by (simp_all add: read_call_def)
    from bspec [OF conjunct2 [OF classify_batches_sound] mem] parts show ?thesis by blast
  qed
  with bs show ?thesis by (auto simp: extract_parallel_scope_path_def read_call_def)
qed

text \<open>C31: The iteration cap of a session that returns: it never yields more results than the cap or than
  there were calls; a run that does not report a stop executed every call; the cap is reported
  exactly when it cut calls off (results at the cap and calls left over) and nothing else stopped the
  run first, with the reason prefix its consumers match. The event sink is detached on every
  exit, also when the run raises.\<close>

theorem run_session_cap:
  assumes "run_session reg role fam cap pools calls st = (outcome, st')" and "ss_log (lw_state (snd st)) \<noteq> None"
  shows "hr_sink (fst st') = None \<and>
    (\<forall>run. outcome = Inr run \<longrightarrow>
       int (length (sr_results run)) \<le> max 0 cap \<and> length (sr_results run) \<le> length calls \<and>
       (sr_stop run = None \<longrightarrow> length (sr_results run) = length calls) \<and>
       (\<forall>s. sr_stop run = Some s \<longrightarrow>
          (if si_point s = ''iteration_cap''
           then int (length (sr_results run)) = max 0 cap \<and> length (sr_results run) < length calls \<and>
                prefix ''iteration_cap'' (si_reason s)
           else si_point s \<in> {''BETWEEN_ROUNDS'', ''AFTER_TOOL_EXEC''})))"
proof -
  let ?batches = "if (case ss_tool_batching (lw_state (snd st)) of None \<Rightarrow> True | Some b \<Rightarrow> b)
    then classify_batches calls reg else map (\<lambda>c. [c]) calls"
  let ?st1 = "(set_event_sink (Some make_hook_decision_sink) (fst st), snd st)"
  obtain o1 st2 where loop: "session_loop reg role fam cap pools 0 ?batches [] ?st1 = (o1, st2)" by (metis surj_pair)
  have sink: "hr_sink (fst (snd (log_stop c x))) = hr_sink (fst x)" for c and x :: "'a lstate"
    by (simp add: log_stop_def ls_session_def split: prod.splits)
  have total: "length (concat ?batches) = length calls"
    by (simp add: classify_batches_def classify_loop_concat comp_def)
  let ?st2 = "(set_event_sink None (fst st2), snd st2)"
  have sink0: "hr_sink (fst ?st2) = None" by (simp add: set_event_sink_def)
  obtain elog where log: "require_log (lw_state (snd st)) = Inr elog" using assms(2) by (auto simp: require_log_def)
  show ?thesis
  proof (cases o1)
    case (Inl e)
    with assms(1) loop log sink0 show ?thesis by (auto simp: run_session_def Let_def)
  next
    case (Inr p)
    obtain results stop where p: "p = (results, stop)" by (cases p)
    from session_loop_results [OF loop [unfolded Inr p]] total
    have res: "length results \<le> length calls" "int (length results) \<le> max 0 cap"
      "stop = None \<longrightarrow> length results = length calls \<or> cap \<le> int (length results)"
      "\<forall>x. stop = Some x \<longrightarrow> si_point x \<in> loop_points"
      by auto
    show ?thesis
    proof (cases "stop = None \<and> int (length results) \<ge> cap \<and> length calls > length results")
      case True
      let ?reason = "iteration_cap_reason cap (length results)"
      let ?ls = "log_stop [(''point'', JStr ''iteration_cap''), (''reason'', JStr ?reason),
         (''used'', JInt (int (length results))), (''limit'', JInt cap), (''profile'', JStr role)] ?st2"
      have run: "(outcome, st') = sbind ?ls (\<lambda>_ st. (Inr \<lparr>sr_results = results,
          sr_stop = Some \<lparr>si_point = ''iteration_cap'', si_reason = ?reason\<rparr>\<rparr>, st))"
        using assms(1) loop log Inr p True by (simp add: run_session_def Let_def)
      obtain r st3 where ls: "?ls = (r, st3)" by (metis surj_pair)
      have "hr_sink (fst st3) = None" using sink [of _ ?st2] ls sink0 by (metis snd_conv)
      moreover have "prefix ''iteration_cap'' ?reason" by (simp add: iteration_cap_reason_def)
      ultimately show ?thesis using run ls res True by (cases r) auto
    next
      case False
      with assms(1) loop log Inr p have "outcome = Inr \<lparr>sr_results = results, sr_stop = stop\<rparr>" "st' = ?st2"
        by (auto simp: run_session_def Let_def)
      with res False sink0 show ?thesis by (auto simp: loop_points_def)
    qed
  qed
qed

definition demo_lstate :: "nat lstate" where
  "demo_lstate = (hooks_init None, demo_world)"

theorem run_session_cap_witness:
  "\<exists>run st'. run_session demo_tools ''coder'' [] 1 (\<lambda>_. PoolFailed []) [read_call ''a'' ''1'', read_call ''a'' ''2''] demo_lstate
     = (Inr run, st') \<and> int (length (sr_results run)) \<le> 1 \<and> hr_sink (fst st') = None"
proof -
  let ?go = "run_session demo_tools ''coder'' [] 1 (\<lambda>_. PoolFailed []) [read_call ''a'' ''1'', read_call ''a'' ''2''] demo_lstate"
  have "case fst ?go of Inr run \<Rightarrow> True | Inl e \<Rightarrow> False" by code_simp
  then obtain run st' where go: "?go = (Inr run, st')" by (cases ?go) (auto split: sum.splits)
  have "ss_log (lw_state (snd demo_lstate)) \<noteq> None" by (simp add: demo_lstate_def demo_world_def)
  from run_session_cap [OF go this] go show ?thesis by auto
qed

end
