(* ===== verification/Sandbox.thy ===== *)
theory Sandbox
  imports Py_Path
begin

text \<open>
  The sandbox (\<open>sandbox/\<close>): path containment, the command classifier, the secret-path
  tripwire, the per-command validators and the bash gate that composes them.

  The operating system is the \<open>os_env\<close> of \<open>Py_Path\<close>. Exceptions that the code does not catch
  (an unknown home directory, a digit that is not decimal) are results of the model.
\<close>

section \<open>Path containment\<close>

record containment_result =
  cr_contained :: bool
  cr_canonical_target :: "string list option"
  cr_reason :: string

definition contains_traversal :: "string \<Rightarrow> bool" where
  "contains_traversal s = (''..'' \<in> set (path_parts s))"

definition contains_unresolved_variable :: "os_env \<Rightarrow> string \<Rightarrow> bool" where
  "contains_unresolved_variable os s = (CHR ''$'' \<in> set (expandvars (os_environ os) s))"

text \<open>\<open>except (OSError, RuntimeError): return None\<close>\<close>

fun catches_os_error :: "py_exc \<Rightarrow> bool" where
  "catches_os_error (Exn OSError _) = True"
| "catches_os_error (Exn PermissionError _) = True"
| "catches_os_error (Exn RuntimeError _) = True"
| "catches_os_error _ = False"

definition resolve_against :: "os_env \<Rightarrow> string \<Rightarrow> string list \<Rightarrow> string list option py_result" where
  "resolve_against os target base =
     (case (case path_expanduser os (path_parts (expandvars (os_environ os) target)) of
              Inl e \<Rightarrow> Inl e
            | Inr target_path \<Rightarrow> os_resolve os (path_join base target_path)) of
        Inl e \<Rightarrow> if catches_os_error e then Inr None else Inl e
      | Inr resolved \<Rightarrow> Inr (if os_is_symlink os resolved then None else Some resolved))"

definition is_contained :: "os_env \<Rightarrow> string \<Rightarrow> string list \<Rightarrow> containment_result py_result" where
  "is_contained os target base =
     (if contains_traversal target
      then Inr \<lparr>cr_contained = False, cr_canonical_target = None,
             cr_reason = ''path contains `..` traversal component: '' @ py_repr target\<rparr>
      else if contains_unresolved_variable os target
      then Inr \<lparr>cr_contained = False, cr_canonical_target = None,
             cr_reason = ''path contains unresolved shell variable: '' @ py_repr target @
               '' (bash will expand `$VAR` at execution time, which can escape the workspace if the variable is undefined)''\<rparr>
      else case resolve_against os target base of
        Inl e \<Rightarrow> Inl e
      | Inr None \<Rightarrow> Inr \<lparr>cr_contained = False, cr_canonical_target = None,
             cr_reason = ''could not resolve path: '' @ py_repr target\<rparr>
      | Inr (Some canonical) \<Rightarrow>
         (case os_resolve os base of
            Inl e \<Rightarrow> Inl e
          | Inr canonical_base \<Rightarrow>
             (if prefix canonical_base canonical
              then Inr \<lparr>cr_contained = True, cr_canonical_target = Some canonical, cr_reason = ''ok''\<rparr>
              else Inr \<lparr>cr_contained = False, cr_canonical_target = Some canonical,
                     cr_reason = ''resolved path '' @ path_str canonical @ '' is outside base '' @ path_str canonical_base\<rparr>)))"

section \<open>Classifier\<close>

datatype bash_category = READ_ONLY | GIT_WRITE | PACKAGE_INSTALL | DANGEROUS | GENERAL_WRITE

definition READ_ONLY_TOKENS :: "string list" where
  "READ_ONLY_TOKENS = [''ls'', ''cat'', ''grep'', ''egrep'', ''fgrep'', ''rg'', ''find'', ''head'', ''tail'', ''wc'', ''stat'',
     ''file'', ''du'', ''df'', ''which'', ''whereis'', ''whoami'', ''id'', ''pwd'', ''echo'', ''printf'', ''date'', ''uname'',
     ''hostname'', ''tree'', ''less'', ''more'', ''diff'', ''cmp'', ''env'', ''type'']"

definition GIT_WRITE_SUBCOMMANDS :: "string list" where
  "GIT_WRITE_SUBCOMMANDS = [''add'', ''commit'', ''remote'', ''push'', ''checkout'', ''switch'', ''merge'', ''rebase'', ''reset'',
     ''stash'', ''cherry-pick'', ''revert'', ''tag'', ''fetch'', ''pull'', ''config'', ''init'', ''clean'', ''restore'']"

definition PACKAGE_INSTALL_PROGRAMS :: "string list" where
  "PACKAGE_INSTALL_PROGRAMS = [''pip'', ''pip3'', ''npm'', ''yarn'', ''pnpm'', ''apt'', ''apt-get'', ''brew'', ''cargo'', ''gem'',
     ''go'', ''uv'']"

definition DANGEROUS_TOKENS :: "string list" where
  "DANGEROUS_TOKENS = [''dd'', ''mkfs'', ''fdisk'', ''parted'', ''shred'', ''sudo'', ''su'', ''pkill'', ''killall'', ''shutdown'',
     ''reboot'', ''halt'', ''poweroff'', ''psql'', ''mysql'', ''mongo'', ''redis-cli'', ''docker'', ''systemctl'', ''iptables'',
     ''ifconfig'', ''ip'', ''mount'', ''umount'', ''crontab'', ''nohup'', ''nc'', ''netcat'', ''ncat'']"

definition INSTALL_SUBCOMMANDS :: "string list" where
  "INSTALL_SUBCOMMANDS = [''install'', ''add'', ''i'', ''get'', ''upgrade'', ''update'']"

definition SHELL_OPERATOR_TOKENS :: "string list" where
  "SHELL_OPERATOR_TOKENS = ['';'', ''&&'', ''||'', ''|'', ''>'', ''>>'', ''<'', ''<<'', ''&'']"

definition tokenize :: "string \<Rightarrow> string list" where
  "tokenize command = (case shlex_split command of None \<Rightarrow> [] | Some ts \<Rightarrow> ts)"

definition has_dangerous_shell_pattern :: "string \<Rightarrow> bool" where
  "has_dangerous_shell_pattern command =
     (let lower = py_lower command in
      (py_in ''curl '' lower \<or> py_in ''wget '' lower) \<and>
      (py_in ''| sh'' lower \<or> py_in ''|sh'' lower \<or> py_in ''| bash'' lower \<or> py_in ''|bash'' lower))"

definition not_flag :: "string \<Rightarrow> bool" where
  "not_flag t = (\<not> py_startswith t ''-'')"

definition git_subcommand :: "string list \<Rightarrow> string" where
  "git_subcommand tokens =
     (if length tokens < 2 \<or> hd tokens \<noteq> ''git'' then []
      else case find not_flag (tl tokens) of None \<Rightarrow> [] | Some t \<Rightarrow> t)"

definition package_install_subcommand :: "string list \<Rightarrow> string" where
  "package_install_subcommand tokens =
     (if length tokens < 2 then []
      else let non_flag = filter not_flag (tl tokens) in
        if non_flag = [] then []
        else case find (\<lambda>t. t \<in> set INSTALL_SUBCOMMANDS) non_flag of Some t \<Rightarrow> t | None \<Rightarrow> hd non_flag)"

definition has_shell_operator :: "string list \<Rightarrow> bool" where
  "has_shell_operator tokens = list_ex (\<lambda>t. t \<in> set SHELL_OPERATOR_TOKENS) tokens"

definition RECURSIVE_RM :: "string list" where "RECURSIVE_RM = [''-rf'', ''-fr'', ''-r'', ''-R'', ''--recursive'']"
definition RECURSIVE_CHMOD :: "string list" where "RECURSIVE_CHMOD = [''-R'', ''--recursive'']"

definition has_any :: "string list \<Rightarrow> string list \<Rightarrow> bool" where
  "has_any flags tokens = list_ex (\<lambda>f. f \<in> set tokens) flags"

definition scan_tokens_for_danger :: "string list \<Rightarrow> bool" where
  "scan_tokens_for_danger tokens =
     (list_ex (\<lambda>t. t \<in> set DANGEROUS_TOKENS \<or> py_startswith t ''mkfs.'') tokens \<or>
      (''rm'' \<in> set tokens \<and> has_any RECURSIVE_RM tokens) \<or>
      (''chmod'' \<in> set tokens \<and> has_any RECURSIVE_CHMOD tokens) \<or>
      (''kill'' \<in> set tokens \<and> ''-9'' \<in> set tokens))"

definition classify_command :: "string \<Rightarrow> bash_category" where
  "classify_command command =
     (if has_dangerous_shell_pattern command then DANGEROUS
      else let tokens = tokenize command in
        if tokens = [] then GENERAL_WRITE
        else if list_ex (\<lambda>t. py_startswith t ''/proc'' \<or> py_startswith t ''/sys'') tokens then DANGEROUS
        else if has_shell_operator tokens
        then (if scan_tokens_for_danger tokens then DANGEROUS else GENERAL_WRITE)
        else let head = hd tokens in
          if head \<in> set DANGEROUS_TOKENS then DANGEROUS
          else if py_startswith head ''mkfs.'' then DANGEROUS
          else if head = ''kill'' \<and> ''-9'' \<in> set tokens then DANGEROUS
          else if head = ''rm'' \<and> has_any RECURSIVE_RM tokens then DANGEROUS
          else if head = ''chmod'' \<and> has_any RECURSIVE_CHMOD tokens then DANGEROUS
          else if head = ''git''
          then (if git_subcommand tokens \<in> set GIT_WRITE_SUBCOMMANDS then GIT_WRITE else READ_ONLY)
          else if head \<in> set PACKAGE_INSTALL_PROGRAMS
          then (if package_install_subcommand tokens \<in> set INSTALL_SUBCOMMANDS then PACKAGE_INSTALL
                else if head = ''go'' then GENERAL_WRITE else READ_ONLY)
          else if head \<in> set READ_ONLY_TOKENS then READ_ONLY
          else GENERAL_WRITE)"

section \<open>Secret paths\<close>

definition default_secret_prefixes :: "os_env \<Rightarrow> string list" where
  "default_secret_prefixes os = [''/run/secrets'', ''/srv/first-agent/secrets'', os_state_root os]"

text \<open>Collapses \<open>.\<close> and \<open>..\<close>; \<open>acc\<close> is the reversed result.\<close>

fun lexical_parts :: "string list \<Rightarrow> string list \<Rightarrow> string list" where
  "lexical_parts [] acc = rev acc"
| "lexical_parts (p # ps) acc =
     (if p \<in> {''/'', [], ''.''} then lexical_parts ps acc
      else if p = ''..'' then lexical_parts ps (tl acc)
      else lexical_parts ps (p # acc))"

definition lexical_abs :: "string list \<Rightarrow> string" where
  "lexical_abs parts = ''/'' @ py_join ''/'' (lexical_parts parts [])"

definition strip_proc_root :: "string \<Rightarrow> string \<Rightarrow> string" where
  "strip_proc_root marker t =
     (if py_startswith t marker then (let r = drop (length marker) t in if r = [] then ''/'' else r) else t)"

definition normalize_token :: "os_env \<Rightarrow> string \<Rightarrow> string py_result" where
  "normalize_token os token =
     (let t = py_strip token in
      if t = [] then Inr []
      else
        let t = strip_proc_root ''/proc/1/root'' (strip_proc_root ''/proc/self/root'' t) in
        case (if py_startswith t ''~'' then map_sum id path_str (path_expanduser os (path_parts t)) else Inr t) of
          Inl e \<Rightarrow> Inl e
        | Inr t \<Rightarrow> Inr (if is_absolute (path_parts t) then lexical_abs (path_parts t) else t))"

definition rstrip_slash :: "string \<Rightarrow> string" where
  "rstrip_slash s = rev (dropWhile (\<lambda>c. c = CHR ''/'') (rev s))"

definition within_prefix :: "string \<Rightarrow> string \<Rightarrow> bool" where
  "within_prefix path_s pref =
     (path_s \<noteq> [] \<and> (let a = rstrip_slash path_s; b = rstrip_slash pref in a = b \<or> py_startswith a (b @ ''/'')))"

definition path_candidates :: "string \<Rightarrow> string list" where
  "path_candidates token =
     [token] @ (if CHR ''='' \<in> set token then [snd (py_partition1 (CHR ''='') token)] else [])"

fun scan_candidates :: "os_env \<Rightarrow> string list \<Rightarrow> string list \<Rightarrow> bool py_result" where
  "scan_candidates os secrets [] = Inr False"
| "scan_candidates os secrets (c # cs) =
     (case normalize_token os c of
        Inl e \<Rightarrow> Inl e
      | Inr nrm \<Rightarrow>
         (if py_startswith nrm ''/'' \<and>
             (list_ex (within_prefix nrm) secrets \<or> list_ex (\<lambda>p. rstrip_slash nrm = rstrip_slash p) secrets)
          then Inr True else scan_candidates os secrets cs))"

definition command_reads_secret_path :: "os_env \<Rightarrow> string \<Rightarrow> string list \<Rightarrow> bool py_result" where
  "command_reads_secret_path os command extra_prefixes =
     (let secrets = default_secret_prefixes os @ extra_prefixes in
      case shlex_split command of
        None \<Rightarrow> Inr (list_ex (\<lambda>p. py_in p command) secrets)
      | Some tokens \<Rightarrow>
         (if list_ex (\<lambda>p. py_in p command) secrets then Inr True
          else scan_candidates os secrets (concat (map path_candidates tokens))))"

section \<open>Validators\<close>

record validation_result =
  vr_allow :: bool
  vr_reason :: string

definition vr_deny :: "string \<Rightarrow> validation_result" where
  "vr_deny reason = \<lparr>vr_allow = False, vr_reason = reason\<rparr>"

definition RM_DENIED_TARGETS :: "string list" where
  "RM_DENIED_TARGETS = [''/'', ''/bin'', ''/boot'', ''/dev'', ''/etc'', ''/home'', ''/lib'', ''/lib64'', ''/opt'', ''/proc'', ''/root'',
     ''/run'', ''/sbin'', ''/srv'', ''/sys'', ''/tmp'', ''/usr'', ''/var'']"

fun rm_targets :: "os_env \<Rightarrow> string \<Rightarrow> string list \<Rightarrow> string list \<Rightarrow> validation_result py_result" where
  "rm_targets os home ws [] = Inr \<lparr>vr_allow = True, vr_reason = ''validator_rm: ok''\<rparr>"
| "rm_targets os home ws (target # targets) =
     (if target \<in> set RM_DENIED_TARGETS
      then Inr (vr_deny (''validator_rm: target '' @ py_repr target @ '' is a system directory (always denied)''))
      else if target \<in> {''~'', home}
      then Inr (vr_deny (''validator_rm: target '' @ py_repr target @ '' is the user home directory''))
      else case is_contained os target ws of
        Inl e \<Rightarrow> Inl e
      | Inr c \<Rightarrow>
         (if \<not> cr_contained c
          then Inr (vr_deny (''validator_rm: target '' @ py_repr target @ '' not contained in workspace ('' @ cr_reason c @ '')''))
          else rm_targets os home ws targets))"

definition validate_rm :: "os_env \<Rightarrow> string list \<Rightarrow> string \<Rightarrow> validation_result py_result" where
  "validate_rm os workspace_root command =
     (let tokens = tokenize command in
      if tokens = [] \<or> hd tokens \<noteq> ''rm''
      then Inr (vr_deny (''validator_rm: expected `rm`, got '' @ string_list_repr (take 1 tokens)))
      else let targets = filter not_flag (tl tokens) in
        if targets = [] then Inr (vr_deny ''validator_rm: no target argument'')
        else case path_expanduser os [''~''] of
          Inl e \<Rightarrow> Inl e
        | Inr home \<Rightarrow> rm_targets os (path_str home) workspace_root targets)"

text \<open>\<open>str.isdigit\<close> on Latin-1: the decimal digits and the superscripts, which \<open>int\<close> does not accept.\<close>

definition char_isdigit :: "char \<Rightarrow> bool" where
  "char_isdigit c = (is_digit c \<or> c \<in> {CHR 0xB2, CHR 0xB3, CHR 0xB9})"

definition lstrip_zeros :: "string \<Rightarrow> string" where
  "lstrip_zeros s = dropWhile (\<lambda>c. c = CHR ''0'') s"

text \<open>\<open>None\<close>: the clause is fine; otherwise the verdict.\<close>

definition clause_grants :: "string \<Rightarrow> bool option" where
  "clause_grants raw =
     (let clause = py_strip raw;
          scope0 = takeWhile (\<lambda>c. c \<notin> {CHR ''+'', CHR ''-'', CHR ''=''}) clause;
          rest = drop (length scope0) clause
      in if clause = [] \<or> rest = [] then Some True
         else let scope = (if scope0 = [] then ''a'' else scope0); op = hd rest; perms = tl rest in
           if op = CHR ''-'' then None
           else if CHR ''w'' \<notin> set perms then None
           else if CHR ''o'' \<in> set scope \<or> CHR ''a'' \<in> set scope then Some True
           else if list_ex (\<lambda>c. c \<notin> {CHR ''u'', CHR ''g'', CHR ''o'', CHR ''a''}) scope then Some True
           else None)"

fun clauses_grant :: "string list \<Rightarrow> bool" where
  "clauses_grant [] = False"
| "clauses_grant (c # cs) = (case clause_grants c of Some b \<Rightarrow> b | None \<Rightarrow> clauses_grant cs)"

definition grants_world_write :: "string \<Rightarrow> bool py_result" where
  "grants_world_write mode =
     (if mode = [] then Inr True
      else
        let lowered = py_lower mode;
            digits = (let d = lstrip_zeros lowered in if d = [] then ''0'' else d)
        in if list_all char_isdigit digits
           then (case py_int [last digits] of
                   Some other_bit \<Rightarrow> Inr (other_bit div 2 mod 2 = 1)
                 | None \<Rightarrow> Inl (Exn ValueError (''invalid literal for int() with base 10: '' @ py_repr [last digits])))
           else Inr (clauses_grant (py_split1 (CHR '','') lowered)))"

fun chmod_targets :: "os_env \<Rightarrow> string list \<Rightarrow> string list \<Rightarrow> validation_result py_result" where
  "chmod_targets os ws [] = Inr \<lparr>vr_allow = True, vr_reason = ''validator_chmod: ok''\<rparr>"
| "chmod_targets os ws (target # targets) =
     (case is_contained os target ws of
        Inl e \<Rightarrow> Inl e
      | Inr c \<Rightarrow>
         (if \<not> cr_contained c
          then Inr (vr_deny (''validator_chmod: target '' @ py_repr target @ '' not contained in workspace ('' @ cr_reason c @ '')''))
          else chmod_targets os ws targets))"

definition validate_chmod :: "os_env \<Rightarrow> string list \<Rightarrow> string \<Rightarrow> validation_result py_result" where
  "validate_chmod os workspace_root command =
     (let tokens = tokenize command in
      if tokens = [] \<or> hd tokens \<noteq> ''chmod''
      then Inr (vr_deny (''validator_chmod: expected `chmod`, got '' @ string_list_repr (take 1 tokens)))
      else let positional = filter not_flag (tl tokens) in
        if length positional < 2 then Inr (vr_deny ''validator_chmod: missing mode or target argument'')
        else case grants_world_write (hd positional) of
          Inl e \<Rightarrow> Inl e
        | Inr True \<Rightarrow> Inr (vr_deny (''validator_chmod: mode '' @ py_repr (hd positional) @ '' grants world-write (denied)''))
        | Inr False \<Rightarrow> chmod_targets os workspace_root (tl positional))"

definition validate_git :: "string \<Rightarrow> validation_result" where
  "validate_git command =
     (let tokens = tokenize command in
      if tokens = [] \<or> hd tokens \<noteq> ''git''
      then vr_deny (''validator_git: expected `git`, got '' @ string_list_repr (take 1 tokens))
      else
        let non_flag = filter not_flag (tl tokens);
            subcommand = (if non_flag = [] then [] else hd non_flag);
            identity = find (\<lambda>t. py_lower t \<in> {''user.email'', ''user.name''}) (tl non_flag)
        in if subcommand = ''config'' \<and> (''--global'' \<in> set tokens \<or> ''--system'' \<in> set tokens)
           then vr_deny ''validator_git: `git config --global/--system` writes outside the workspace''
           else if subcommand = ''config'' \<and> identity \<noteq> None
           then vr_deny (''validator_git: writing `git config '' @ the identity @ ''` rewrites git identity (denied)'')
           else if subcommand = ''push'' \<and> (''--force'' \<in> set tokens \<or> ''--force-with-lease'' \<in> set tokens) \<and>
                   list_ex (\<lambda>t. t \<in> {''main'', ''master''}) (tl non_flag)
           then vr_deny ''validator_git: force-push to `main`/`master` is denied''
           else \<lparr>vr_allow = True, vr_reason = ''validator_git: ok''\<rparr>)"

definition validate_command :: "os_env \<Rightarrow> string list \<Rightarrow> string \<Rightarrow> validation_result option py_result" where
  "validate_command os workspace_root command =
     (let tokens = tokenize command in
      if tokens = [] then Inr (Some (vr_deny ''validator: command is empty or unparseable''))
      else if hd tokens = ''rm'' then map_sum id Some (validate_rm os workspace_root command)
      else if hd tokens = ''chmod'' then map_sum id Some (validate_chmod os workspace_root command)
      else if hd tokens = ''git'' then Inr (Some (validate_git command))
      else Inr None)"

section \<open>The gate\<close>

record bash_gate_decision =
  bg_allow :: bool
  bg_category :: bash_category
  bg_reason :: string
  bg_validator_result :: "validation_result option"

definition gate_result :: "bool \<Rightarrow> bash_category \<Rightarrow> string \<Rightarrow> bash_gate_decision" where
  "gate_result allow cat reason = \<lparr>bg_allow = allow, bg_category = cat, bg_reason = reason, bg_validator_result = None\<rparr>"

definition gate_validated :: "bash_category \<Rightarrow> validation_result \<Rightarrow> bash_gate_decision" where
  "gate_validated cat v = \<lparr>bg_allow = vr_allow v, bg_category = cat, bg_reason = vr_reason v, bg_validator_result = Some v\<rparr>"

definition evaluate_bash :: "os_env \<Rightarrow> string list \<Rightarrow> bool \<Rightarrow> bool \<Rightarrow> string list \<Rightarrow> string \<Rightarrow> bash_gate_decision py_result" where
  "evaluate_bash os workspace_root allow_package_install allow_general_write secret_path_extra command =
     (let cat = classify_command command in
      case command_reads_secret_path os command secret_path_extra of
        Inl e \<Rightarrow> Inl e
      | Inr True \<Rightarrow> Inr (gate_result False cat ''read of secret path blocked (ADR-12 secret isolation)'')
      | Inr False \<Rightarrow>
         (if cat = READ_ONLY then Inr (gate_result True cat ''read-only command'')
          else case validate_command os workspace_root command of
            Inl e \<Rightarrow> Inl e
          | Inr v \<Rightarrow>
             Inr (case cat of
                DANGEROUS \<Rightarrow>
                  (case v of Some r \<Rightarrow> gate_validated cat r
                   | None \<Rightarrow> gate_result False cat ''dangerous command with no per-command validator'')
              | PACKAGE_INSTALL \<Rightarrow>
                  (if \<not> allow_package_install
                   then gate_result False cat ''package-install denied: caller did not pass allow_package_install=True''
                   else gate_result True cat ''package-install explicitly allowed by caller'')
              | GIT_WRITE \<Rightarrow>
                  (case v of None \<Rightarrow> gate_result False cat ''git-write command but no git validator output''
                   | Some r \<Rightarrow> gate_validated cat r)
              | _ \<Rightarrow>
                  (case v of
                     Some r \<Rightarrow> gate_validated cat r
                   | None \<Rightarrow>
                      (if \<not> allow_general_write
                       then gate_result False cat ''general-write denied: caller did not pass allow_general_write=True''
                       else gate_result True cat ''general-write allowed by caller'')))))"

section \<open>What the gate lets through\<close>

text \<open>A target that stays inside the workspace after symbolic links are resolved.\<close>

definition inside :: "os_env \<Rightarrow> string list \<Rightarrow> string \<Rightarrow> bool" where
  "inside os ws t \<longleftrightarrow> \<not> contains_traversal t \<and> \<not> contains_unresolved_variable os t \<and>
     (\<exists>canonical base. resolve_against os t ws = Inr (Some canonical) \<and> os_resolve os ws = Inr base \<and> prefix base canonical)"

lemma is_contained_iff: "(\<exists>c. is_contained os t ws = Inr c \<and> cr_contained c) \<longleftrightarrow> inside os ws t"
  by (auto simp: is_contained_def inside_def split: sum.splits option.splits if_splits)

lemma rm_targets_inside:
  "rm_targets os home ws ts = Inr r \<Longrightarrow> vr_allow r \<Longrightarrow>
     \<forall>t \<in> set ts. inside os ws t \<and> t \<notin> set RM_DENIED_TARGETS"
proof (induction ts)
  case Nil
  then show ?case by simp
next
  case (Cons t ts)
  from Cons.prems obtain c where "is_contained os t ws = Inr c" "cr_contained c" "rm_targets os home ws ts = Inr r"
      "t \<notin> set RM_DENIED_TARGETS"
    by (auto simp: vr_deny_def split: if_splits sum.splits)
  with Cons is_contained_iff [of os t ws] show ?case by auto
qed

lemma chmod_targets_inside:
  "chmod_targets os ws ts = Inr r \<Longrightarrow> vr_allow r \<Longrightarrow> \<forall>t \<in> set ts. inside os ws t"
proof (induction ts)
  case Nil
  then show ?case by simp
next
  case (Cons t ts)
  from Cons.prems obtain c where "is_contained os t ws = Inr c" "cr_contained c" "chmod_targets os ws ts = Inr r"
    by (auto simp: vr_deny_def split: if_splits sum.splits)
  with Cons is_contained_iff [of os t ws] show ?case by auto
qed

lemma map_sum_Some_Inr: "map_sum id Some r = Inr v \<longleftrightarrow> (\<exists>x. r = Inr x \<and> v = Some x)"
  by (cases r) auto

lemma head_not_read_only:
  assumes "tokenize command = h # args" "h \<in> {''rm'', ''chmod''}"
  shows "classify_command command \<in> {DANGEROUS, GENERAL_WRITE}"
proof -
  from assms(2) have "h \<notin> set READ_ONLY_TOKENS" "h \<notin> set PACKAGE_INSTALL_PROGRAMS" "h \<noteq> ''git''"
    by (auto simp: READ_ONLY_TOKENS_def PACKAGE_INSTALL_PROGRAMS_def)
  then show ?thesis by (simp add: classify_command_def assms(1) Let_def)
qed

lemma allowed_validated:
  assumes "evaluate_bash os ws pk gw extra command = Inr d" "bg_allow d"
    and "tokenize command = h # args" "h \<in> {''rm'', ''chmod''}"
  shows "\<exists>r. validate_command os ws command = Inr (Some r) \<and> vr_allow r"
proof -
  have cat: "classify_command command \<in> {DANGEROUS, GENERAL_WRITE}" using assms(3,4) by (rule head_not_read_only)
  from assms(1,2) cat obtain v where v: "validate_command os ws command = Inr v"
    by (auto simp: evaluate_bash_def Let_def gate_result_def split: sum.splits bool.splits if_splits)
  have "v \<noteq> None" using v assms(3,4) by (auto simp: validate_command_def map_sum_Some_Inr)
  then obtain r where r: "v = Some r" by blast
  have "vr_allow r"
    using assms(1,2) cat v r
    by (auto simp: evaluate_bash_def Let_def gate_result_def gate_validated_def split: sum.splits bool.splits)
  with v r show ?thesis by blast
qed

text \<open>C18: What the gate promises for deletion and permission changes holds for every way of writing the
  command: if a command whose first word is \<open>rm\<close> is allowed, each of its targets resolves inside
  the workspace and is no system directory; if one whose first word is \<open>chmod\<close> is allowed, its
  targets are inside and the mode is not recognised as world-writable. A command that mentions a secret directory
  anywhere in its text is never allowed.\<close>

theorem bash_gate_targets:
  assumes "evaluate_bash os ws pk gw extra command = Inr d" "bg_allow d"
  shows "(\<forall>args. tokenize command = ''rm'' # args \<longrightarrow>
      (\<forall>t \<in> set (filter not_flag args). inside os ws t \<and> t \<notin> set RM_DENIED_TARGETS)) \<and>
    (\<forall>args. tokenize command = ''chmod'' # args \<longrightarrow>
      (\<exists>mode ts. filter not_flag args = mode # ts \<and> grants_world_write mode = Inr False \<and> (\<forall>t \<in> set ts. inside os ws t))) \<and>
    (\<forall>p \<in> set (default_secret_prefixes os @ extra). \<not> py_in p command)"
proof (intro conjI allI impI)
  fix args
  assume rm: "tokenize command = ''rm'' # args"
  from allowed_validated [OF assms rm] obtain r where "validate_rm os ws command = Inr r" "vr_allow r"
    by (auto simp: validate_command_def rm map_sum_Some_Inr)
  then obtain home where "rm_targets os home ws (filter not_flag args) = Inr r"
    by (auto simp: validate_rm_def rm vr_deny_def Let_def split: if_splits sum.splits)
  from rm_targets_inside [OF this \<open>vr_allow r\<close>]
  show "\<forall>t \<in> set (filter not_flag args). inside os ws t \<and> t \<notin> set RM_DENIED_TARGETS" .
next
  fix args
  assume ch: "tokenize command = ''chmod'' # args"
  from allowed_validated [OF assms ch] obtain r where r: "validate_chmod os ws command = Inr r" "vr_allow r"
    by (auto simp: validate_command_def ch map_sum_Some_Inr)
  let ?pos = "filter not_flag args"
  from r ch have len: "2 \<le> length ?pos" by (auto simp: validate_chmod_def vr_deny_def Let_def split: if_splits)
  then obtain mode ts where pos: "?pos = mode # ts" by (cases ?pos) auto
  from r ch len pos have "grants_world_write mode = Inr False \<and> chmod_targets os ws ts = Inr r"
    by (auto simp: validate_chmod_def vr_deny_def Let_def split: if_splits sum.splits bool.splits)
  with chmod_targets_inside [of os ws ts r] r(2) pos
  show "\<exists>mode ts. ?pos = mode # ts \<and> grants_world_write mode = Inr False \<and> (\<forall>t \<in> set ts. inside os ws t)" by blast
next
  have "command_reads_secret_path os command extra = Inr False"
    using assms by (auto simp: evaluate_bash_def Let_def gate_result_def split: sum.splits bool.splits)
  then show "\<forall>p \<in> set (default_secret_prefixes os @ extra). \<not> py_in p command"
    by (auto simp: command_reads_secret_path_def Let_def list_ex_iff split: option.splits if_splits)
qed

text \<open>A system without links, with the workspace \<open>/w\<close>.\<close>

definition demo_os :: os_env where
  "demo_os = \<lparr>os_environ = [(''HOME'', ''/home/fa'')], os_home = (\<lambda>u. if u = ''~'' then Some ''/home/fa'' else None),
     os_resolve = Inr, os_is_symlink = (\<lambda>_. False), os_state_root = ''/home/fa/.fa''\<rparr>"

abbreviation demo_gate :: "string \<Rightarrow> bash_gate_decision py_result" where
  "demo_gate \<equiv> evaluate_bash demo_os [''/'', ''w''] False False []"

theorem bash_gate_targets_witness:
  "\<exists>d. demo_gate ''rm a/b'' = Inr d \<and> bg_allow d \<and> inside demo_os [''/'', ''w''] ''a/b''"
proof -
  have "case demo_gate ''rm a/b'' of Inr d \<Rightarrow> bg_allow d | Inl e \<Rightarrow> False" by code_simp
  then obtain d where d: "demo_gate ''rm a/b'' = Inr d" "bg_allow d" by (auto split: sum.splits)
  have "tokenize ''rm a/b'' = ''rm'' # [''a/b'']" "filter not_flag [''a/b''] = [''a/b'']" by code_simp+
  with conjunct1 [OF bash_gate_targets [OF d]] d show ?thesis by auto
qed



end
