(* ===== verification/Sandbox_Hook.thy ===== *)
theory Sandbox_Hook
  imports Sandbox Hooks
begin

text \<open>
  \<open>SandboxHook\<close> of \<open>inner_loop/hooks/builtin.py\<close>: the guard that sends shell commands through the
  bash gate and file reads and writes through path containment, and what it guarantees inside a
  hook chain.
\<close>

definition FS_PATH_TOOLS :: "string list" where
  "FS_PATH_TOOLS = [''fs_read_file'', ''fs_write_file'']"

record sandbox_hook =
  sh_workspace_root :: "string list"
  sh_allow_package_install :: bool
  sh_allow_general_write :: bool

definition sandbox_handle_bash :: "os_env \<Rightarrow> sandbox_hook \<Rightarrow> json \<Rightarrow> decision py_result" where
  "sandbox_handle_bash os hook command =
     (case command of
        JStr c \<Rightarrow>
          (case evaluate_bash os (sh_workspace_root hook) (sh_allow_package_install hook) (sh_allow_general_write hook) [] c of
             Inl e \<Rightarrow> Inl e
           | Inr d \<Rightarrow> if bg_allow d then Inr decision_allow else decision_deny (bg_reason d))
      | _ \<Rightarrow> decision_deny ''bash command must be a string'')"

definition sandbox_handle_path :: "os_env \<Rightarrow> sandbox_hook \<Rightarrow> json \<Rightarrow> decision py_result" where
  "sandbox_handle_path os hook path =
     (case path of
        JStr p \<Rightarrow>
          (if p = [] then decision_deny ''path must be a non-empty string''
           else case is_contained os p (sh_workspace_root hook) of
             Inl e \<Rightarrow> Inl e
           | Inr c \<Rightarrow> if cr_contained c then Inr decision_allow else decision_deny (''path escapes workspace: '' @ cr_reason c))
      | _ \<Rightarrow> decision_deny ''path must be a non-empty string'')"

definition blank_or_absent :: "json \<Rightarrow> bool" where
  "blank_or_absent v = (case v of JStr s \<Rightarrow> py_strip s = [] | _ \<Rightarrow> True)"

definition param :: "tool_call \<Rightarrow> string \<Rightarrow> json" where
  "param call k = (case dict_get (tc_params call) k of None \<Rightarrow> JNull | Some v \<Rightarrow> v)"

definition sandbox_handle :: "os_env \<Rightarrow> sandbox_hook \<Rightarrow> hook_payload \<Rightarrow> decision py_result" where
  "sandbox_handle os hook payload =
     (case hp_tool_call payload of
        None \<Rightarrow> Inr decision_allow
      | Some call \<Rightarrow>
         (if tc_name call \<in> {''fs_run_bash'', ''fs_spawn_subagent''}
          then sandbox_handle_bash os hook (param call ''command'')
          else if tc_name call \<in> set FS_PATH_TOOLS
          then (if tc_name call = ''fs_read_file'' \<and> \<not> blank_or_absent (param call ''artifact_id'') \<and>
                   blank_or_absent (param call ''path'')
                then Inr decision_allow
                else sandbox_handle_path os hook (param call ''path''))
          else Inr decision_allow))"

text \<open>The middleware object: it attaches before a tool's execution and asks to be replayed after a mutation.\<close>

definition sandbox_middleware :: "nat \<Rightarrow> os_env \<Rightarrow> sandbox_hook \<Rightarrow> 's middleware" where
  "sandbox_middleware i os hook =
     \<lparr>mw_id = i, mw_class = ''SandboxHook'', mw_name = ''sandbox'', mw_attaches_to = [BEFORE_TOOL_EXEC], mw_uses_llm = False,
      mw_attaches_to_role = [], mw_family = [], mw_revalidates = True,
      mw_guard = Some (\<lambda>_ p s. (sandbox_handle os hook p, s)), mw_observer = None\<rparr>"

section \<open>Its guarantee\<close>

lemma deny_not_allow: "decision_deny r = Inr d \<Longrightarrow> dc_action d = ''deny''"
  by (auto simp: decision_deny_def split: if_splits)

lemma sandbox_answers: "sandbox_handle os hook p = Inr d \<Longrightarrow> dc_action d = ''allow'' \<or> dc_action d = ''deny''"
  by (auto simp: sandbox_handle_def sandbox_handle_bash_def sandbox_handle_path_def decision_allow_def
      split: option.splits if_splits json.splits sum.splits dest!: deny_not_allow)

text \<open>What a call may do once the sandbox allows it.\<close>

definition call_confined :: "os_env \<Rightarrow> sandbox_hook \<Rightarrow> tool_call \<Rightarrow> bool" where
  "call_confined os hook call \<longleftrightarrow>
     (tc_name call = ''fs_write_file'' \<longrightarrow>
        (\<exists>p. param call ''path'' = JStr p \<and> inside os (sh_workspace_root hook) p)) \<and>
     (tc_name call = ''fs_read_file'' \<longrightarrow> blank_or_absent (param call ''path'') \<and> \<not> blank_or_absent (param call ''artifact_id'') \<or>
        (\<exists>p. param call ''path'' = JStr p \<and> inside os (sh_workspace_root hook) p)) \<and>
     (tc_name call \<in> {''fs_run_bash'', ''fs_spawn_subagent''} \<longrightarrow>
        (\<exists>c d. param call ''command'' = JStr c \<and> bg_allow d \<and>
           evaluate_bash os (sh_workspace_root hook) (sh_allow_package_install hook) (sh_allow_general_write hook) [] c = Inr d))"

lemma path_allowed:
  assumes "guard_allows (\<lambda>_. sandbox_handle_path os hook v) p"
  shows "\<exists>s. v = JStr s \<and> inside os (sh_workspace_root hook) s"
proof -
  from assms obtain d where d: "sandbox_handle_path os hook v = Inr d" "dc_action d = ''allow''" by (auto simp: guard_allows_def)
  then obtain s c where s: "v = JStr s" "is_contained os s (sh_workspace_root hook) = Inr c" "cr_contained c"
    by (auto simp: sandbox_handle_path_def split: json.splits if_splits sum.splits dest!: deny_not_allow)
  with is_contained_iff [of os s "sh_workspace_root hook"] show ?thesis by auto
qed

lemma bash_allowed:
  assumes "guard_allows (\<lambda>_. sandbox_handle_bash os hook v) p"
  shows "\<exists>c d. v = JStr c \<and> bg_allow d \<and>
    evaluate_bash os (sh_workspace_root hook) (sh_allow_package_install hook) (sh_allow_general_write hook) [] c = Inr d"
  using assms
  by (auto simp: guard_allows_def sandbox_handle_bash_def split: json.splits if_splits sum.splits dest!: deny_not_allow)

lemma sandbox_allows_confined:
  assumes "guard_allows (sandbox_handle os hook) p" "hp_tool_call p = Some call"
  shows "call_confined os hook call"
proof -
  from assms have h: "guard_allows (\<lambda>_. sandbox_handle os hook p) p" by (simp add: guard_allows_def)
  consider (bash) "tc_name call \<in> {''fs_run_bash'', ''fs_spawn_subagent''}"
    | (path) "tc_name call \<in> set FS_PATH_TOOLS" "tc_name call \<notin> {''fs_run_bash'', ''fs_spawn_subagent''}"
    | (other) "tc_name call \<notin> set FS_PATH_TOOLS" "tc_name call \<notin> {''fs_run_bash'', ''fs_spawn_subagent''}" by blast
  then show ?thesis
  proof cases
    case bash
    with h assms(2) have "guard_allows (\<lambda>_. sandbox_handle_bash os hook (param call ''command'')) p"
      by (simp add: sandbox_handle_def)
    from bash_allowed [OF this] bash show ?thesis by (auto simp: call_confined_def)
  next
    case path
    show ?thesis
    proof (cases "tc_name call = ''fs_read_file'' \<and> \<not> blank_or_absent (param call ''artifact_id'') \<and> blank_or_absent (param call ''path'')")
      case True
      then show ?thesis by (simp add: call_confined_def)
    next
      case False
      with h path assms(2) have "guard_allows (\<lambda>_. sandbox_handle_path os hook (param call ''path'')) p"
        by (auto simp: sandbox_handle_def)
      from path_allowed [OF this] path show ?thesis by (auto simp: call_confined_def)
    qed
  next
    case other
    then show ?thesis by (auto simp: call_confined_def FS_PATH_TOOLS_def)
  qed
qed


definition demo_sandbox_hook :: sandbox_hook where
  "demo_sandbox_hook = \<lparr>sh_workspace_root = [''/'', ''w''], sh_allow_package_install = False, sh_allow_general_write = True\<rparr>"

text \<open>A guard that redirects every call to another file.\<close>

definition demo_redirect :: "string \<Rightarrow> unit middleware" where
  "demo_redirect target = \<lparr>mw_id = 2, mw_class = ''Redirect'', mw_name = [], mw_attaches_to = [BEFORE_TOOL_EXEC],
     mw_uses_llm = False, mw_attaches_to_role = [], mw_family = [], mw_revalidates = False,
     mw_guard = Some (\<lambda>_ p s. (Inr (decision_modify (p\<lparr>hp_tool_call :=
       Some \<lparr>tc_name = ''fs_write_file'', tc_params = [(''path'', JStr target)], tc_call_id = ''1''\<rparr>\<rparr>)), s)), mw_observer = None\<rparr>"

definition demo_sandboxed :: "string \<Rightarrow> unit hook_registry" where
  "demo_sandboxed target = \<lparr>hr_chains = (\<lambda>pt. if pt = BEFORE_TOOL_EXEC
       then [sandbox_middleware 1 demo_os demo_sandbox_hook, demo_redirect target] else []),
     hr_trace = [], hr_registered = [2, 1], hr_sink = None\<rparr>"

lemma demo_sandbox_runs:
  "sandbox_handle demo_os demo_sandbox_hook p =
     (case hp_tool_call p of
        Some call \<Rightarrow> if tc_name call = ''fs_write_file'' then sandbox_handle_path demo_os demo_sandbox_hook (param call ''path'')
                     else sandbox_handle demo_os demo_sandbox_hook p
      | None \<Rightarrow> Inr decision_allow)"
  by (simp add: sandbox_handle_def FS_PATH_TOOLS_def split: option.splits)

lemma demo_paths:
  "sandbox_handle_path demo_os demo_sandbox_hook (JStr ''a'') = Inr decision_allow"
  "\<exists>reason. reason \<noteq> [] \<and> sandbox_handle_path demo_os demo_sandbox_hook (JStr ''/etc/passwd'') = decision_deny reason"
proof -
  have "case is_contained demo_os ''a'' [''/'', ''w''] of Inr c \<Rightarrow> cr_contained c | Inl e \<Rightarrow> False" by code_simp
  then show "sandbox_handle_path demo_os demo_sandbox_hook (JStr ''a'') = Inr decision_allow"
    by (auto simp: sandbox_handle_path_def demo_sandbox_hook_def split: sum.splits)
  have "case is_contained demo_os ''/etc/passwd'' [''/'', ''w''] of Inr c \<Rightarrow> \<not> cr_contained c | Inl e \<Rightarrow> False" by code_simp
  then show "\<exists>reason. reason \<noteq> [] \<and> sandbox_handle_path demo_os demo_sandbox_hook (JStr ''/etc/passwd'') = decision_deny reason"
    by (auto simp: sandbox_handle_path_def demo_sandbox_hook_def split: sum.splits)
qed

lemmas demo_dispatch = hooks_dispatch_def demo_sandboxed_def sandbox_middleware_def demo_redirect_def demo_payload_def
  demo_sandbox_runs decision_allow_def decision_modify_def decision_deny_def param_def hook_record_def


end
