(* ===== verification/Roles.thy ===== *)
theory Roles
  imports Py_Text
begin

text \<open>
  Model families (\<open>roles.py\<close>): the ordered slug patterns, the extractor with its override, and the
  check that the evaluating model's family differs from those of planner and coder.

  Every pattern has the shape \<open>^(?:vendor)?stem(?:-|$)\<close> or \<open>^stem\<close>; a \<open>family_pattern\<close> is that
  shape as data. The slug is stripped before matching, so \<open>$\<close> is the end of the string. The em
  dash of the messages is written \<open>-\<close>, it is outside the Latin-1 strings of the model.
\<close>

definition KNOWN_FAMILIES :: "string list" where
  "KNOWN_FAMILIES = [''anthropic'', ''openai'', ''google'', ''qwen'', ''deepseek'', ''glm'', ''kimi'',
     ''mimo'', ''nemotron'', ''llama'', ''mistral'']"

record family_pattern =
  fp_vendor :: string
  fp_stems :: "string list"
  fp_bounded :: bool

definition vendor_stem :: "string \<Rightarrow> string \<Rightarrow> family_pattern" where
  "vendor_stem v s = \<lparr>fp_vendor = v, fp_stems = [s], fp_bounded = True\<rparr>"

definition bare_prefix :: "string \<Rightarrow> family_pattern" where
  "bare_prefix s = \<lparr>fp_vendor = [], fp_stems = [s], fp_bounded = False\<rparr>"

definition FAMILY_PATTERNS :: "(family_pattern \<times> string) list" where
  "FAMILY_PATTERNS =
    [(vendor_stem ''anthropic/'' ''claude'', ''anthropic''),
     (bare_prefix ''anthropic/'', ''anthropic''),
     (vendor_stem ''openai/'' ''gpt'', ''openai''),
     (\<lparr>fp_vendor = ''openai/'',
       fp_stems = [''o1'', ''o2'', ''o3'', ''o4'', ''o5'', ''o6'', ''o7'', ''o8'', ''o9''],
       fp_bounded = True\<rparr>, ''openai''),
     (bare_prefix ''openai/'', ''openai''),
     (vendor_stem ''google/'' ''gemini'', ''google''),
     (bare_prefix ''google/'', ''google''),
     (\<lparr>fp_vendor = ''qwen/'', fp_stems = [''qwen''], fp_bounded = False\<rparr>, ''qwen''),
     (bare_prefix ''qwen/'', ''qwen''),
     (vendor_stem ''deepseek/'' ''deepseek'', ''deepseek''),
     (bare_prefix ''deepseek/'', ''deepseek''),
     (vendor_stem ''z-ai/'' ''glm'', ''glm''),
     (bare_prefix ''z-ai/'', ''glm''),
     (vendor_stem ''moonshotai/'' ''kimi'', ''kimi''),
     (bare_prefix ''moonshotai/'', ''kimi''),
     (vendor_stem ''xiaomi/'' ''mimo'', ''mimo''),
     (bare_prefix ''xiaomi/'', ''mimo''),
     (vendor_stem ''nvidia/'' ''nemotron'', ''nemotron''),
     (bare_prefix ''nvidia/'', ''nemotron''),
     (vendor_stem ''meta-llama/'' ''llama'', ''llama''),
     (bare_prefix ''meta-llama/'', ''llama''),
     (vendor_stem ''mistralai/'' ''mistral'', ''mistral''),
     (vendor_stem ''mistralai/'' ''codestral'', ''mistral''),
     (vendor_stem ''mistralai/'' ''ministral'', ''mistral''),
     (vendor_stem ''mistralai/'' ''magistral'', ''mistral''),
     (bare_prefix ''mistralai/'', ''mistral'')]"

text \<open>\<open>stem(?:-|$)\<close> or \<open>stem\<close> at the start of \<open>s\<close>.\<close>

definition stem_match :: "bool \<Rightarrow> string \<Rightarrow> string \<Rightarrow> bool" where
  "stem_match bounded s stem =
     (prefix stem s \<and> (bounded \<longrightarrow> s = stem \<or> prefix (stem @ ''-'') s))"

definition pattern_match :: "family_pattern \<Rightarrow> string \<Rightarrow> bool" where
  "pattern_match p s =
     (list_ex (stem_match (fp_bounded p) s) (fp_stems p) \<or>
      fp_vendor p \<noteq> [] \<and> prefix (fp_vendor p) s \<and>
        list_ex (stem_match (fp_bounded p) (drop (length (fp_vendor p)) s)) (fp_stems p))"

definition family_error :: "string \<Rightarrow> py_exc" where
  "family_error msg = Exn (OtherError ''FamilyExtractionError'') msg"

definition extract_family :: "string \<Rightarrow> string option \<Rightarrow> string py_result" where
  "extract_family slug override =
     (case override of
        Some ov \<Rightarrow>
          (let normalised = py_lower (py_strip ov) in
           if normalised \<notin> set KNOWN_FAMILIES
           then Inl (family_error (''family override '' @ py_repr ov @ '' is not a known family (known: '' @
                  string_list_repr (sort KNOWN_FAMILIES) @ '')''))
           else Inr normalised)
      | None \<Rightarrow>
          (if slug = [] then Inl (family_error ''cannot infer family from empty slug'')
           else case find (\<lambda>(p, _). pattern_match p (py_lower (py_strip slug))) FAMILY_PATTERNS of
                  Some (_, family) \<Rightarrow> Inr family
                | None \<Rightarrow> Inl (family_error (''cannot infer family from slug '' @ py_repr slug @
                       ''; tag it with an explicit '' @ [CHR 0x27] @ ''family:'' @ [CHR 0x27] @
                       '' field in ~/.fa/models.yaml''))))"

section \<open>Independence of the evaluator\<close>

datatype eval_stance = Neutral | Adversarial

record eval_independence =
  ei_disjoint :: bool
  ei_reason :: string
  ei_stance :: eval_stance

definition same_family_reason :: "string \<Rightarrow> string \<Rightarrow> string \<Rightarrow> string" where
  "same_family_reason which eval_family other =
     ''eval-role family '' @ py_repr eval_family @ '' matches '' @ which @ ''-role family '' @ py_repr other @
     '' - ADR-2 '' @ [CHR 0xA7] @ ''Amendment 2026-05-20 rule 1 measures '' @
     ''~+0.6 correlated ensemble errors for same-family eval; the eval '' @
     ''role will load with an ADVERSARIAL stance to counter that.''"

definition assess_eval_independence :: "string \<Rightarrow> string \<Rightarrow> string \<Rightarrow> eval_independence" where
  "assess_eval_independence planner_family coder_family eval_family =
     (if eval_family = planner_family
      then \<lparr>ei_disjoint = False, ei_reason = same_family_reason ''planner'' eval_family planner_family,
            ei_stance = Adversarial\<rparr>
      else if eval_family = coder_family
      then \<lparr>ei_disjoint = False, ei_reason = same_family_reason ''coder'' eval_family coder_family,
            ei_stance = Adversarial\<rparr>
      else \<lparr>ei_disjoint = True,
            ei_reason = ''eval-role family '' @ py_repr eval_family @ '' is disjoint from planner ('' @
              py_repr planner_family @ '') and coder ('' @ py_repr coder_family @ '') - neutral eval stance.'',
            ei_stance = Neutral\<rparr>)"

definition check_eval_disjoint :: "string \<Rightarrow> string \<Rightarrow> string \<Rightarrow> unit py_result" where
  "check_eval_disjoint planner_family coder_family eval_family =
     (let indep = assess_eval_independence planner_family coder_family eval_family
      in if \<not> ei_disjoint indep then Inl (Exn (OtherError ''EvalFamilyConflictError'') (ei_reason indep)) else Inr ())"

section \<open>Properties\<close>

lemma pattern_families: "(p, f) \<in> set FAMILY_PATTERNS \<Longrightarrow> f \<in> set KNOWN_FAMILIES"
  by (auto simp: FAMILY_PATTERNS_def KNOWN_FAMILIES_def)

lemma extract_family_known: "extract_family slug override = Inr f \<Longrightarrow> f \<in> set KNOWN_FAMILIES"
  by (auto simp: extract_family_def Let_def find_Some_iff split: option.splits if_splits
      dest!: nth_mem intro: pattern_families)

text \<open>The extractor is closed: it returns only known families, whether from the slug or from an
  override; an override is never guessed around (it is accepted exactly when its normal form is a known
  family, whatever the slug), and without one the result depends on the slug only through its stripped,
  lower-case form.\<close>

theorem extract_family_closed:
  "(\<forall>slug override f. extract_family slug override = Inr f \<longrightarrow> f \<in> set KNOWN_FAMILIES) \<and>
   (\<forall>slug ov. (\<exists>f. extract_family slug (Some ov) = Inr f) \<longleftrightarrow> py_lower (py_strip ov) \<in> set KNOWN_FAMILIES) \<and>
   (\<forall>slug slug' f. slug' \<noteq> [] \<longrightarrow> py_lower (py_strip slug) = py_lower (py_strip slug') \<longrightarrow>
      extract_family slug None = Inr f \<longrightarrow> extract_family slug' None = Inr f)"
proof (intro conjI allI impI)
  show "f \<in> set KNOWN_FAMILIES" if "extract_family slug override = Inr f" for slug override f
    using that by (rule extract_family_known)
  show "(\<exists>f. extract_family slug (Some ov) = Inr f) \<longleftrightarrow> py_lower (py_strip ov) \<in> set KNOWN_FAMILIES" for slug ov
    by (simp add: extract_family_def Let_def)
  show "extract_family slug' None = Inr f"
    if "slug' \<noteq> []" "py_lower (py_strip slug) = py_lower (py_strip slug')" "extract_family slug None = Inr f" for slug slug' f
    using that by (auto simp: extract_family_def split: if_splits option.splits prod.splits)
qed

theorem extract_family_closed_witness:
  "extract_family ''Z-AI/GLM-5.1'' None = Inr ''glm'' \<and> ''glm'' \<in> set KNOWN_FAMILIES \<and>
   extract_family '' z-ai/glm-5.1'' None = Inr ''glm''"
proof -
  have glm: "extract_family ''Z-AI/GLM-5.1'' None = Inr ''glm''" by code_simp
  moreover have "py_lower (py_strip ''Z-AI/GLM-5.1'') = py_lower (py_strip '' z-ai/glm-5.1'')" by code_simp
  moreover have "'' z-ai/glm-5.1'' \<noteq> []" by simp
  ultimately show ?thesis
    using conjunct1 [OF extract_family_closed, rule_format, OF glm]
      conjunct2 [OF conjunct2 [OF extract_family_closed], rule_format] by metis
qed

text \<open>The evaluator's stance: it is neutral exactly when its family differs from both the planner's
  and the coder's, and the deprecated check raises in exactly the other cases.\<close>

theorem eval_independence_exact:
  "ei_disjoint (assess_eval_independence p c e) = (e \<noteq> p \<and> e \<noteq> c) \<and>
   (ei_stance (assess_eval_independence p c e) = Adversarial) = (e = p \<or> e = c) \<and>
   (check_eval_disjoint p c e = Inr ()) = (e \<noteq> p \<and> e \<noteq> c)"
  by (auto simp: assess_eval_independence_def check_eval_disjoint_def)

end
