(* ===== verification/Provider_Api.thy ===== *)
theory Provider_Api
  imports Roles
begin

text \<open>
  The provider surface: \<open>providers/base.py\<close> (request, response, transport response and the mapping
  of HTTP statuses to errors), \<open>providers/errors.py\<close>, \<open>providers/types.py\<close>,
  \<open>providers/message_rules.py\<close> (the finalizer every request passes), the capability table of
  \<open>providers/registry.py\<close> and the retry loop of \<open>providers/transport.py\<close>.

  Sampling values come from YAML unchecked, so they are \<open>json\<close> with \<open>JNull\<close> for \<open>None\<close>.
  \<open>fr\<close> is \<open>repr\<close> on floats. An HTTP exchange is one call of \<open>urlopen\<close>, which is a parameter, as
  are \<open>json.loads\<close> on the body bytes and the random number of the back-off.
\<close>

section \<open>Data types\<close>

record request_info =
  rq_model_slug :: string
  rq_messages :: "json_obj list"
  rq_temperature :: json
  rq_max_tokens :: json
  rq_top_p :: json
  rq_tools :: "json_obj list"
  rq_extras :: json_obj
  rq_thinking_mode :: string

record response_info =
  rs_text :: string
  rs_in_tokens :: int
  rs_out_tokens :: int
  rs_finish_reason :: string
  rs_tool_calls :: "json list"
  rs_cache_read_input_tokens :: int
  rs_cache_creation_input_tokens :: int
  rs_extras :: json_obj

record transport_response =
  tp_status :: int
  tp_body :: json_obj
  tp_retry_after_seconds :: "pyfloat option"
  tp_network_error :: "string option"

record chain_attempt =
  ca_provider :: string
  ca_slug :: string
  ca_status :: int
  ca_ms :: int
  ca_error :: "string option"

text \<open>The errors of \<open>errors.py\<close>; \<open>pe_local\<close> marks the subclass \<open>MessageRulesError\<close>, \<open>Raised\<close> is any
  other exception.\<close>

datatype provider_error =
    ProviderTransientError string int string pyfloat
  | ProviderAuthError string int
  | ProviderRequestShapeError (pe_msg: string) (pe_status: int) (pe_call: string) (pe_provider: "string option") (pe_local: bool)
  | ProviderChainExhaustedError string "chain_attempt list" string
  | Raised py_exc

section \<open>Statuses\<close>

definition pyfloat_or_zero :: "pyfloat option \<Rightarrow> pyfloat" where
  "pyfloat_or_zero x = (case x of None \<Rightarrow> Fin 0 | Some v \<Rightarrow> v)"

definition parse_transport_response ::
  "(rat \<Rightarrow> string) \<Rightarrow> transport_response \<Rightarrow> (json_obj \<Rightarrow> provider_error + response_info) \<Rightarrow> provider_error + response_info" where
  "parse_transport_response fr response normalize_success =
     (case tp_network_error response of
        Some err \<Rightarrow> Inl (ProviderTransientError (''network_error: '' @ err) 0 ''timeout'' (Fin 0))
      | None \<Rightarrow>
         (let status = tp_status response in
          if status = 200 then normalize_success (tp_body response)
          else if status \<in> {400, 422}
          then Inl (ProviderRequestShapeError (''request_shape_error: status='' @ int_str status @ '' body='' @
                 json_repr fr (JObj (tp_body response))) status [] None False)
          else if status \<in> {401, 403}
          then Inl (ProviderAuthError (''auth_error: status='' @ int_str status) status)
          else if status = 429 \<or> (500 \<le> status \<and> status \<le> 504)
          then (let kind = (if status = 429 then ''rate_limited'' else ''service_unavailable'') in
                Inl (ProviderTransientError (kind @ '': status='' @ int_str status) status kind
                      (pyfloat_or_zero (tp_retry_after_seconds response))))
          else Inl (ProviderTransientError (''unexpected_status: status='' @ int_str status) status
                      ''service_unavailable'' (pyfloat_or_zero (tp_retry_after_seconds response)))))"

section \<open>The transport\<close>

text \<open>\<open>max(x, 0.0)\<close>: the first argument unless the second is greater.\<close>

fun pyfloat_max0 :: "pyfloat \<Rightarrow> pyfloat" where
  "pyfloat_max0 (Fin q) = (if 0 > q then Fin 0 else Fin q)"
| "pyfloat_max0 NInf = Fin 0"
| "pyfloat_max0 PInf = PInf"
| "pyfloat_max0 NaN = NaN"

definition parse_retry_after :: "string option \<Rightarrow> pyfloat option" where
  "parse_retry_after value =
     (case value of
        None \<Rightarrow> None
      | Some v \<Rightarrow> (if py_strip v = [] then None else map_option pyfloat_max0 (py_float (py_strip v))))"

definition transport_retry_delay_s :: "nat \<Rightarrow> rat \<Rightarrow> rat" where
  "transport_retry_delay_s attempt_index rnd = max 0 (rnd * min 2 ((1 / 4) * 2 ^ attempt_index))"

text \<open>Outcome of \<open>urlopen\<close>: a response (a status outside 2xx arrives as \<open>HTTPError\<close>, which carries
  the same fields), a network error, or another exception.\<close>

datatype http_outcome =
    HttpAnswer int string "string option"
  | NetworkError string
  | HttpRaise py_exc

text \<open>\<open>_decode_body\<close>; \<open>loads raw\<close> is \<open>None\<close> when the bytes are not UTF-8 or not JSON.\<close>

definition decode_body :: "(string \<Rightarrow> json option) \<Rightarrow> string \<Rightarrow> json_obj" where
  "decode_body loads raw =
     (if raw = [] then [] else case loads raw of Some (JObj kvs) \<Rightarrow> kvs | _ \<Rightarrow> [])"

record 'w transport_world =
  tw_urlopen :: "'w \<Rightarrow> http_outcome \<times> 'w"
  tw_random :: "'w \<Rightarrow> rat \<times> 'w"
  tw_loads :: "string \<Rightarrow> json option"
  tw_env :: 'w
  tw_opened :: nat
  tw_slept :: "rat list"

text \<open>The attempts that are left; \<open>attempt\<close> is the index of the first of them.\<close>

fun post_loop :: "nat \<Rightarrow> nat \<Rightarrow> 'w transport_world \<Rightarrow> transport_response py_result \<times> 'w transport_world" where
  "post_loop 0 attempt w =
     (Inr \<lparr>tp_status = 0, tp_body = [], tp_retry_after_seconds = None, tp_network_error = Some ''unreachable''\<rparr>, w)"
| "post_loop (Suc left) attempt w =
     (case tw_urlopen w (tw_env w) of (out, env) \<Rightarrow>
       (let w1 = w\<lparr>tw_env := env, tw_opened := tw_opened w + 1\<rparr> in
        case out of
          HttpAnswer status raw hdr \<Rightarrow>
            (Inr \<lparr>tp_status = status, tp_body = decode_body (tw_loads w) raw,
                  tp_retry_after_seconds = parse_retry_after hdr, tp_network_error = None\<rparr>, w1)
        | NetworkError msg \<Rightarrow>
            (if left = 0
             then (Inr \<lparr>tp_status = 0, tp_body = [], tp_retry_after_seconds = None, tp_network_error = Some msg\<rparr>, w1)
             else (case tw_random w (tw_env w1) of (rnd, env) \<Rightarrow>
                    post_loop left (Suc attempt)
                      (w1\<lparr>tw_env := env, tw_slept := tw_slept w1 @ [transport_retry_delay_s attempt rnd]\<rparr>)))
        | HttpRaise e \<Rightarrow> (Inl e, w1)))"

definition transport_post :: "int \<Rightarrow> 'w transport_world \<Rightarrow> transport_response py_result \<times> 'w transport_world" where
  "transport_post transport_retries w = post_loop (nat (1 + max transport_retries 0)) 0 w"

section \<open>Message rules\<close>

record message_rules =
  mr_allows_trailing_assistant :: bool
  mr_requires_user_after_tool :: bool
  mr_requires_top_p_one_when_greedy :: bool
  mr_supports_prompt_cache :: bool

definition default_rules :: message_rules where
  "default_rules = \<lparr>mr_allows_trailing_assistant = False, mr_requires_user_after_tool = False,
     mr_requires_top_p_one_when_greedy = False, mr_supports_prompt_cache = True\<rparr>"

definition msg_get :: "json_obj \<Rightarrow> string \<Rightarrow> json" where
  "msg_get m k = (case map_of m k of None \<Rightarrow> JNull | Some v \<Rightarrow> v)"

text \<open>\<open>str(v or "")\<close>\<close>

definition str_or_empty :: "(rat \<Rightarrow> string) \<Rightarrow> json \<Rightarrow> string" where
  "str_or_empty fr v = (if json_truthy v then json_str fr v else [])"

definition no_attribute :: "string \<Rightarrow> string \<Rightarrow> py_exc" where
  "no_attribute ty a = Exn (OtherError ''AttributeError'')
     ([CHR 0x27] @ ty @ [CHR 0x27] @ '' object has no attribute '' @ [CHR 0x27] @ a @ [CHR 0x27])"

text \<open>\<open>for x in v\<close>: the elements, the characters of a string, the keys of a mapping.\<close>

definition json_iter :: "json \<Rightarrow> json list py_result" where
  "json_iter v = (case v of
     JList vs \<Rightarrow> Inr vs
   | JStr s \<Rightarrow> Inr (map (\<lambda>c. JStr [c]) s)
   | JObj kvs \<Rightarrow> Inr (map (\<lambda>(k, _). JStr k) kvs)
   | _ \<Rightarrow> Inl (Exn TypeError ([CHR 0x27] @ json_type_name v @ [CHR 0x27] @ '' object is not iterable'')))"

text \<open>The ids declared by one assistant message.\<close>

fun declared_ids :: "(rat \<Rightarrow> string) \<Rightarrow> json list \<Rightarrow> string list py_result" where
  "declared_ids fr [] = Inr []"
| "declared_ids fr (JObj call # calls) =
     (case declared_ids fr calls of Inl e \<Rightarrow> Inl e | Inr ids \<Rightarrow> Inr (str_or_empty fr (msg_get call ''id'') # ids))"
| "declared_ids fr (v # calls) = Inl (no_attribute (json_type_name v) ''get'')"

fun pair_scan :: "(rat \<Rightarrow> string) \<Rightarrow> json_obj list \<Rightarrow> string list \<Rightarrow> string list \<Rightarrow> (string list \<times> string list) py_result" where
  "pair_scan fr [] declared resolved = Inr (declared, resolved)"
| "pair_scan fr (msg # msgs) declared resolved =
     (if msg_get msg ''role'' = JStr ''assistant''
      then (let tc = msg_get msg ''tool_calls'' in
            case (if json_truthy tc then json_iter tc else Inr []) of
              Inl e \<Rightarrow> Inl e
            | Inr calls \<Rightarrow>
               (case declared_ids fr calls of
                  Inl e \<Rightarrow> Inl e
                | Inr ids \<Rightarrow> pair_scan fr msgs (declared @ ids) resolved))
      else if msg_get msg ''role'' = JStr ''tool''
      then pair_scan fr msgs declared (resolved @ [str_or_empty fr (msg_get msg ''tool_call_id'')])
      else pair_scan fr msgs declared resolved)"

fun user_after_tool :: "nat \<Rightarrow> json_obj list \<Rightarrow> string list" where
  "user_after_tool i (a # b # msgs) =
     (if msg_get b ''role'' = JStr ''user'' \<and> msg_get a ''role'' = JStr ''tool''
      then [''user at index '' @ nat_str i @ '' directly follows a tool message (user-after-tool)''] else []) @
     user_after_tool (Suc i) (b # msgs)"
| "user_after_tool i _ = []"

text \<open>\<open>sorted(a - b)\<close> on the sets of ids.\<close>

definition sorted_diff :: "string list \<Rightarrow> string list \<Rightarrow> string list" where
  "sorted_diff a b = sort (remdups (filter (\<lambda>x. x \<notin> set b) a))"

definition last_role_violation :: "(rat \<Rightarrow> string) \<Rightarrow> bool \<Rightarrow> json \<Rightarrow> string list" where
  "last_role_violation fr allows_trailing_assistant last_role =
     (if last_role = JStr ''assistant'' \<and> \<not> allows_trailing_assistant
      then [''last role must be user or tool for serving, got '' @ json_repr fr last_role]
      else if last_role \<notin> {JStr ''user'', JStr ''tool'', JStr ''assistant''}
      then [''unknown final role '' @ json_repr fr last_role] else [])"

definition validate_message_order ::
  "(rat \<Rightarrow> string) \<Rightarrow> json_obj list \<Rightarrow> bool \<Rightarrow> bool \<Rightarrow> string list py_result" where
  "validate_message_order fr messages allows_trailing_assistant requires_user_after_tool =
     (if messages = [] then Inr []
      else
        let order = last_role_violation fr allows_trailing_assistant (msg_get (last messages) ''role'') @
                    (if \<not> requires_user_after_tool then user_after_tool 1 messages else [])
        in case pair_scan fr messages [] [] of
             Inl e \<Rightarrow> Inl e
           | Inr (declared, resolved) \<Rightarrow>
              (let missing_result = sorted_diff declared resolved;
                   orphan_result = sorted_diff resolved declared
               in Inr (order @
                    (if missing_result \<noteq> []
                     then [''dangling tool_calls with no tool result: '' @ string_list_repr missing_result] else []) @
                    (if orphan_result \<noteq> []
                     then [''orphaned tool results with no declaring assistant tool_call: '' @
                           string_list_repr orphan_result] else []))))"

definition message_rules_error :: "string \<Rightarrow> provider_error" where
  "message_rules_error message =
     ProviderRequestShapeError (''message_rules_violation: '' @ message) 400 [] None True"

text \<open>\<open>v == 0\<close>\<close>

fun json_is_zero :: "json \<Rightarrow> bool" where
  "json_is_zero (JInt i) = (i = 0)"
| "json_is_zero (JFloat q) = (q = 0)"
| "json_is_zero (JBool b) = (\<not> b)"
| "json_is_zero _ = False"

definition CACHE_KEYS :: "string list" where
  "CACHE_KEYS = [''prompt_cache_key'', ''prompt_cache_retention'']"

definition validate_and_normalize ::
  "(rat \<Rightarrow> string) \<Rightarrow> request_info \<Rightarrow> message_rules \<Rightarrow> json \<Rightarrow> json \<Rightarrow> provider_error + request_info" where
  "validate_and_normalize fr request rules effective_temperature effective_top_p =
     (case validate_message_order fr (rq_messages request) (mr_allows_trailing_assistant rules)
             (mr_requires_user_after_tool rules) of
        Inl e \<Rightarrow> Inl (Raised e)
      | Inr violations \<Rightarrow>
         (if violations \<noteq> [] then Inl (message_rules_error (py_join ''; '' violations))
          else
            let temp = (if effective_temperature \<noteq> JNull then effective_temperature else rq_temperature request);
                top_p = (if effective_top_p \<noteq> JNull then effective_top_p else rq_top_p request);
                greedy = (if mr_requires_top_p_one_when_greedy rules \<and> json_is_zero temp \<and> top_p = JNull
                          then request\<lparr>rq_top_p := JFloat 1\<rparr> else request)
            in Inr (if \<not> mr_supports_prompt_cache rules \<and> (\<exists>k \<in> set CACHE_KEYS. k \<in> fst ` set (rq_extras greedy))
                    then greedy\<lparr>rq_extras := filter (\<lambda>(k, _). k \<notin> set CACHE_KEYS) (rq_extras greedy)\<rparr>
                    else greedy)))"

section \<open>The registry\<close>

record provider_spec =
  ps_adapter :: string
  ps_rules :: message_rules

definition OPENAI_COMPAT :: provider_spec where
  "OPENAI_COMPAT = \<lparr>ps_adapter = ''openai_compat'', ps_rules = default_rules\<lparr>mr_allows_trailing_assistant := True\<rparr>\<rparr>"

definition NVIDIA_BUILD :: provider_spec where
  "NVIDIA_BUILD = \<lparr>ps_adapter = ''openai_compat'',
     ps_rules = default_rules\<lparr>mr_allows_trailing_assistant := True, mr_supports_prompt_cache := False\<rparr>\<rparr>"

definition ANYMODEL :: provider_spec where
  "ANYMODEL = \<lparr>ps_adapter = ''openai_compat'',
     ps_rules = default_rules\<lparr>mr_allows_trailing_assistant := True, mr_supports_prompt_cache := False\<rparr>\<rparr>"

definition ANTHROPIC :: provider_spec where
  "ANTHROPIC = \<lparr>ps_adapter = ''anthropic'', ps_rules = default_rules\<rparr>"

definition MISTRAL :: provider_spec where
  "MISTRAL = \<lparr>ps_adapter = ''mistral'', ps_rules = default_rules\<lparr>mr_requires_top_p_one_when_greedy := True\<rparr>\<rparr>"

definition MISTRAL_AGENTS :: provider_spec where
  "MISTRAL_AGENTS = \<lparr>ps_adapter = ''mistral_agents'', ps_rules = default_rules\<rparr>"

definition PROVIDERS :: "(string, provider_spec) pydict" where
  "PROVIDERS =
    [(''openrouter'', OPENAI_COMPAT), (''fireworks'', OPENAI_COMPAT), (''nvidia_build'', NVIDIA_BUILD),
     (''groq'', OPENAI_COMPAT), (''github_models'', OPENAI_COMPAT), (''modal'', OPENAI_COMPAT),
     (''together_ai'', OPENAI_COMPAT), (''lambda_labs'', OPENAI_COMPAT), (''cerebras'', OPENAI_COMPAT),
     (''perplexity'', OPENAI_COMPAT), (''xai'', OPENAI_COMPAT), (''alistaitsacle'', OPENAI_COMPAT),
     (''apertis'', OPENAI_COMPAT), (''llm7'', OPENAI_COMPAT), (''aigate'', OPENAI_COMPAT),
     (''anymodel'', ANYMODEL), (''openmodel'', ANTHROPIC), (''anthropic'', ANTHROPIC),
     (''mistral'', MISTRAL), (''mistral_agents'', MISTRAL_AGENTS)]"

section \<open>Conformant messages\<close>

abbreviation msg_role :: "json_obj \<Rightarrow> json" where
  "msg_role m \<equiv> msg_get m ''role''"

text \<open>What a provider with these rules accepts, without reference to the checker.\<close>

definition is_obj :: "json \<Rightarrow> bool" where
  "is_obj v = (case v of JObj _ \<Rightarrow> True | _ \<Rightarrow> False)"

definition calls_ok :: "json_obj \<Rightarrow> bool" where
  "calls_ok m = (msg_role m = JStr ''assistant'' \<longrightarrow> json_truthy (msg_get m ''tool_calls'') \<longrightarrow>
     (\<exists>vs. msg_get m ''tool_calls'' = JList vs \<and> list_all is_obj vs))"

definition call_ids :: "(rat \<Rightarrow> string) \<Rightarrow> json_obj \<Rightarrow> string list" where
  "call_ids fr m = (if msg_role m = JStr ''assistant'' then
     (case msg_get m ''tool_calls'' of
        JList vs \<Rightarrow> map (\<lambda>v. case v of JObj c \<Rightarrow> str_or_empty fr (msg_get c ''id'') | _ \<Rightarrow> []) vs | _ \<Rightarrow> []) else [])"

definition answer_ids :: "(rat \<Rightarrow> string) \<Rightarrow> json_obj \<Rightarrow> string list" where
  "answer_ids fr m =
     (if msg_role m = JStr ''tool'' then [str_or_empty fr (msg_get m ''tool_call_id'')] else [])"

definition conformant :: "(rat \<Rightarrow> string) \<Rightarrow> bool \<Rightarrow> bool \<Rightarrow> json_obj list \<Rightarrow> bool" where
  "conformant fr trailing after_tool ms =
     (ms = [] \<or>
      (msg_role (last ms) \<in> {JStr ''user'', JStr ''tool''} \<or> trailing \<and> msg_role (last ms) = JStr ''assistant'') \<and>
      (after_tool \<or> (\<forall>i. Suc i < length ms \<longrightarrow>
          \<not> (msg_role (ms ! i) = JStr ''tool'' \<and> msg_role (ms ! Suc i) = JStr ''user''))) \<and>
      list_all calls_ok ms \<and>
      set (concat (map (call_ids fr) ms)) = set (concat (map (answer_ids fr) ms)))"

lemma declared_ids_ok:
  "declared_ids fr vs = (if list_all is_obj vs
     then Inr (map (\<lambda>v. case v of JObj c \<Rightarrow> str_or_empty fr (msg_get c ''id'') | _ \<Rightarrow> []) vs)
     else declared_ids fr vs) \<and>
   ((\<exists>ids. declared_ids fr vs = Inr ids) \<longleftrightarrow> list_all is_obj vs)"
  by (induction fr vs rule: declared_ids.induct) (auto simp: is_obj_def split: sum.splits if_splits)

lemma json_iter_objs:
  "json_truthy v \<Longrightarrow> (\<exists>vs. json_iter v = Inr vs \<and> list_all is_obj vs) \<longleftrightarrow> (\<exists>vs. v = JList vs \<and> list_all is_obj vs)"
  by (cases v) (auto simp: json_iter_def is_obj_def neq_Nil_conv)

lemma pair_scan_spec:
  "pair_scan fr ms d r = Inr (d', r') \<longleftrightarrow>
     list_all calls_ok ms \<and> d' = d @ concat (map (call_ids fr) ms) \<and> r' = r @ concat (map (answer_ids fr) ms)"
proof (induction ms arbitrary: d r)
  case Nil
  then show ?case by auto
next
  case (Cons m ms)
  consider (asst) "msg_role m = JStr ''assistant''" | (tool) "msg_role m = JStr ''tool''"
    | (other) "msg_role m \<noteq> JStr ''assistant''" "msg_role m \<noteq> JStr ''tool''" by blast
  then show ?case
  proof cases
    case asst
    show ?thesis
    proof (cases "json_truthy (msg_get m ''tool_calls'')")
      case True
      show ?thesis
      proof (cases "calls_ok m")
        case ok: True
        with True asst obtain vs where "msg_get m ''tool_calls'' = JList vs" "list_all is_obj vs"
          by (auto simp: calls_ok_def)
        with asst True ok declared_ids_ok [of fr vs] Cons.IH show ?thesis
          by (simp add: json_iter_def call_ids_def answer_ids_def)
      next
        case bad: False
        with True asst have no: "\<not> (\<exists>vs. json_iter (msg_get m ''tool_calls'') = Inr vs \<and> list_all is_obj vs)"
          using json_iter_objs by (auto simp: calls_ok_def)
        have "declared_ids fr vs \<noteq> Inr ids" if "json_iter (msg_get m ''tool_calls'') = Inr vs" for vs ids
          using no that declared_ids_ok [of fr vs] by blast
        then show ?thesis using asst True bad by (auto split: sum.splits)
      qed
    next
      case False
      then have "call_ids fr m = []" by (auto simp: call_ids_def split: json.splits)
      with False asst Cons.IH show ?thesis by (simp add: calls_ok_def answer_ids_def)
    qed
  next
    case tool
    with Cons.IH show ?thesis by (simp add: calls_ok_def call_ids_def answer_ids_def)
  next
    case other
    with Cons.IH show ?thesis by (simp add: calls_ok_def call_ids_def answer_ids_def)
  qed
qed

lemma pair_scan_ok:
  "(case pair_scan fr ms [] [] of Inl _ \<Rightarrow> False | Inr (d, r) \<Rightarrow> set d \<subseteq> set r \<and> set r \<subseteq> set d) \<longleftrightarrow>
     list_all calls_ok ms \<and> set (concat (map (call_ids fr) ms)) = set (concat (map (answer_ids fr) ms))"
proof (cases "pair_scan fr ms [] []")
  case (Inl e)
  then have "\<not> list_all calls_ok ms" using pair_scan_spec [of fr ms "[]" "[]"] by auto
  with Inl show ?thesis by simp
next
  case (Inr x)
  obtain d r where x: "x = (d, r)" by (cases x)
  from pair_scan_spec [of fr ms "[]" "[]" d r] Inr x show ?thesis by (auto split: prod.splits)
qed

lemma sorted_diff_empty: "sorted_diff a b = [] \<longleftrightarrow> set a \<subseteq> set b"
  unfolding set_empty [of "sorted_diff a b", symmetric] by (auto simp: sorted_diff_def)

lemma user_after_tool_empty:
  "user_after_tool i ms = [] \<longleftrightarrow>
     (\<forall>j. Suc j < length ms \<longrightarrow> \<not> (msg_role (ms ! j) = JStr ''tool'' \<and> msg_role (ms ! Suc j) = JStr ''user''))"
proof (induction i ms rule: user_after_tool.induct)
  case (1 i a b msgs)
  have "(\<forall>j. Suc j < length (a # b # msgs) \<longrightarrow> P j) \<longleftrightarrow> P 0 \<and> (\<forall>j. Suc j < length (b # msgs) \<longrightarrow> P (Suc j))" for P :: "nat \<Rightarrow> bool"
    by (auto simp: less_Suc_eq_0_disj)
  with 1 show ?case by auto
qed auto

lemma order_empty:
  "last_role_violation fr trailing role = [] \<longleftrightarrow>
     role \<in> {JStr ''user'', JStr ''tool''} \<or> trailing \<and> role = JStr ''assistant''"
  by (auto simp: last_role_violation_def)

lemma validate_message_order_exact:
  "validate_message_order fr ms trailing after_tool = Inr [] \<longleftrightarrow> conformant fr trailing after_tool ms"
proof (cases "ms = []")
  case False
  have "validate_message_order fr ms trailing after_tool = Inr [] \<longleftrightarrow>
      last_role_violation fr trailing (msg_role (last ms)) = [] \<and>
      (after_tool \<or> user_after_tool 1 ms = []) \<and>
      (case pair_scan fr ms [] [] of Inl _ \<Rightarrow> False | Inr (d, r) \<Rightarrow> set d \<subseteq> set r \<and> set r \<subseteq> set d)"
    using False by (auto simp: validate_message_order_def Let_def sorted_diff_empty split: sum.splits prod.splits if_splits)
  also have "\<dots> \<longleftrightarrow> conformant fr trailing after_tool ms"
    unfolding pair_scan_ok order_empty user_after_tool_empty conformant_def using False by blast
  finally show ?thesis .
qed (simp add: validate_message_order_def conformant_def)

text \<open>C34: The finalizer before the wire decides conformance exactly: it lets a request through
  if and only if its messages are acceptable to a provider with these rules (final role, no user turn right after a
  tool result, every declared tool call answered and every answer declared), and then it changes
  nothing but \<open>top_p\<close> (set to 1 only when greedy sampling requires it) and the prompt-cache keys
  (dropped only where unsupported); every rejection by the rules is a local \<open>MessageRulesError\<close> with status 400.\<close>

theorem conformance_exact:
  fixes fr rq rules t p
  defines "v \<equiv> validate_and_normalize fr rq rules t p"
  shows "((\<exists>rq'. v = Inr rq') \<longleftrightarrow>
      conformant fr (mr_allows_trailing_assistant rules) (mr_requires_user_after_tool rules) (rq_messages rq)) \<and>
    (\<forall>rq'. v = Inr rq' \<longrightarrow>
       (\<exists>tp ex. rq' = rq\<lparr>rq_top_p := tp, rq_extras := ex\<rparr> \<and>
          (tp \<noteq> rq_top_p rq \<longrightarrow> tp = JFloat 1 \<and> rq_top_p rq = JNull \<and> p = JNull \<and> mr_requires_top_p_one_when_greedy rules) \<and>
          (\<forall>k. k \<notin> set CACHE_KEYS \<longrightarrow> map_of ex k = map_of (rq_extras rq) k) \<and>
          (mr_supports_prompt_cache rules \<longrightarrow> ex = rq_extras rq) \<and>
          (\<not> mr_supports_prompt_cache rules \<longrightarrow> (\<forall>k \<in> set CACHE_KEYS. map_of ex k = None)))) \<and>
    (\<forall>e. v = Inl e \<longrightarrow> (\<exists>x. e = Raised x) \<or> (\<exists>msg. e = message_rules_error msg))"
proof -
  note ex = validate_message_order_exact [of fr "rq_messages rq" "mr_allows_trailing_assistant rules" "mr_requires_user_after_tool rules"]
  let ?drop = "filter (\<lambda>(k, _). k \<notin> set CACHE_KEYS) (rq_extras rq)"
  let ?tp = "if mr_requires_top_p_one_when_greedy rules \<and> json_is_zero (if t \<noteq> JNull then t else rq_temperature rq) \<and>
               (if p \<noteq> JNull then p else rq_top_p rq) = JNull then JFloat 1 else rq_top_p rq"
  let ?ex = "if mr_supports_prompt_cache rules \<or> (\<forall>k \<in> set CACHE_KEYS. k \<notin> fst ` set (rq_extras rq)) then rq_extras rq else ?drop"
  have ok: "v = Inr (rq\<lparr>rq_top_p := ?tp, rq_extras := ?ex\<rparr>)"
    if "conformant fr (mr_allows_trailing_assistant rules) (mr_requires_user_after_tool rules) (rq_messages rq)"
    using that unfolding ex [symmetric] v_def validate_and_normalize_def by (auto simp: Let_def)
  have bad: "(\<exists>x. v = Inl (Raised x)) \<or> (\<exists>msg. v = Inl (message_rules_error msg))"
    if "\<not> conformant fr (mr_allows_trailing_assistant rules) (mr_requires_user_after_tool rules) (rq_messages rq)"
    using that unfolding ex [symmetric] v_def validate_and_normalize_def by (auto split: sum.splits)
  have tp: "?tp \<noteq> rq_top_p rq \<longrightarrow> ?tp = JFloat 1 \<and> rq_top_p rq = JNull \<and> p = JNull \<and> mr_requires_top_p_one_when_greedy rules"
    by auto
  have keep: "\<forall>k. k \<notin> set CACHE_KEYS \<longrightarrow> map_of ?ex k = map_of (rq_extras rq) k"
    by (simp add: map_of_filter_key)
  have dropped: "\<not> mr_supports_prompt_cache rules \<longrightarrow> (\<forall>k \<in> set CACHE_KEYS. map_of ?ex k = None)"
    by (simp add: map_of_eq_None_iff) auto
  have same: "mr_supports_prompt_cache rules \<longrightarrow> ?ex = rq_extras rq" by simp
  show ?thesis
  proof (cases "conformant fr (mr_allows_trailing_assistant rules) (mr_requires_user_after_tool rules) (rq_messages rq)")
    case True
    note v = ok [OF True]
    have "rq' = rq\<lparr>rq_top_p := ?tp, rq_extras := ?ex\<rparr>" if "v = Inr rq'" for rq' using that v by simp
    with tp keep dropped same have "\<forall>rq'. v = Inr rq' \<longrightarrow>
       (\<exists>tp ex. rq' = rq\<lparr>rq_top_p := tp, rq_extras := ex\<rparr> \<and>
          (tp \<noteq> rq_top_p rq \<longrightarrow> tp = JFloat 1 \<and> rq_top_p rq = JNull \<and> p = JNull \<and> mr_requires_top_p_one_when_greedy rules) \<and>
          (\<forall>k. k \<notin> set CACHE_KEYS \<longrightarrow> map_of ex k = map_of (rq_extras rq) k) \<and>
          (mr_supports_prompt_cache rules \<longrightarrow> ex = rq_extras rq) \<and>
          (\<not> mr_supports_prompt_cache rules \<longrightarrow> (\<forall>k \<in> set CACHE_KEYS. map_of ex k = None)))"
      by (intro allI impI, intro exI [of _ ?tp] exI [of _ ?ex]) (intro conjI; assumption | blast)
    then show ?thesis using True v by simp
  next
    case False
    from bad [OF False] False show ?thesis by auto
  qed
qed

definition demo_request :: "json_obj list \<Rightarrow> request_info" where
  "demo_request ms = \<lparr>rq_model_slug = ''m'', rq_messages = ms, rq_temperature = JInt 0, rq_max_tokens = JNull,
     rq_top_p = JNull, rq_tools = [], rq_extras = [(''prompt_cache_key'', JStr ''k'')], rq_thinking_mode = ''no-thinking''\<rparr>"

definition demo_messages :: "json_obj list" where
  "demo_messages =
    [[(''role'', JStr ''user'')],
     [(''role'', JStr ''assistant''), (''tool_calls'', JList [JObj [(''id'', JStr ''c1'')]])],
     [(''role'', JStr ''tool''), (''tool_call_id'', JStr ''c1'')]]"

lemma demo_conformant: "conformant (\<lambda>_. []) False False demo_messages"
  unfolding validate_message_order_exact [symmetric] by code_simp

theorem conformance_exact_witness:
  "\<exists>rq'. validate_and_normalize (\<lambda>_. []) (demo_request demo_messages)
      (default_rules\<lparr>mr_supports_prompt_cache := False\<rparr>) JNull JNull = Inr rq' \<and>
     map_of (rq_extras rq') ''prompt_cache_key'' = None"
proof -
  let ?r = "default_rules\<lparr>mr_supports_prompt_cache := False\<rparr>"
  note th = conformance_exact [of "\<lambda>_. []" "demo_request demo_messages" ?r JNull JNull]
  from conjunct1 [OF th] demo_conformant obtain rq' where v:
    "validate_and_normalize (\<lambda>_. []) (demo_request demo_messages) ?r JNull JNull = Inr rq'"
    by (auto simp: default_rules_def demo_request_def)
  from conjunct1 [OF conjunct2 [OF th], rule_format, OF v] obtain ex where
    "rq_extras rq' = ex" "\<forall>k \<in> set CACHE_KEYS. map_of ex k = None"
    by (auto simp: default_rules_def)
  with v show ?thesis by (simp add: CACHE_KEYS_def)
qed

section \<open>Statuses and retries\<close>

text \<open>Every HTTP outcome has exactly one meaning: a body is decoded only for status 200 without a
  network error; 400 and 422 are the fail-fast request-shape error, 401 and 403 the auth error, and
  everything else, network errors included, is transient.\<close>

theorem status_mapping:
  fixes fr resp norm
  defines "r \<equiv> parse_transport_response fr resp norm"
  assumes "\<And>b e. norm b = Inl e \<Longrightarrow> \<exists>x. e = Raised x"
  shows "((\<exists>ri. r = Inr ri) \<longleftrightarrow> tp_network_error resp = None \<and> tp_status resp = 200 \<and> (\<exists>ri. norm (tp_body resp) = Inr ri)) \<and>
    ((\<exists>m s c q l. r = Inl (ProviderRequestShapeError m s c q l)) \<longleftrightarrow> tp_network_error resp = None \<and> tp_status resp \<in> {400, 422}) \<and>
    ((\<exists>m s. r = Inl (ProviderAuthError m s)) \<longleftrightarrow> tp_network_error resp = None \<and> tp_status resp \<in> {401, 403}) \<and>
    ((\<exists>m s k ra. r = Inl (ProviderTransientError m s k ra)) \<longleftrightarrow>
       tp_network_error resp \<noteq> None \<or> tp_status resp \<notin> {200, 400, 401, 403, 422})"
proof (cases "tp_network_error resp")
  case None
  consider "tp_status resp = 200" | "tp_status resp \<in> {400, 422}" | "tp_status resp \<in> {401, 403}"
    | "tp_status resp \<notin> {200, 400, 401, 403, 422}" by blast
  then show ?thesis
  proof cases
    case 1
    with None have r: "r = norm (tp_body resp)" by (simp add: r_def parse_transport_response_def)
    show ?thesis
    proof (cases "norm (tp_body resp)")
      case (Inl e)
      with assms(2) obtain x where "e = Raised x" by blast
      with Inl r None 1 show ?thesis by simp
    next
      case (Inr ri)
      with r None 1 show ?thesis by simp
    qed
  next
    case 2
    with None show ?thesis by (auto simp: r_def parse_transport_response_def Let_def)
  next
    case 3
    with None show ?thesis by (auto simp: r_def parse_transport_response_def Let_def)
  next
    case 4
    with None show ?thesis by (auto simp: r_def parse_transport_response_def Let_def)
  qed
qed (simp add: r_def parse_transport_response_def)

theorem status_mapping_witness:
  "\<exists>m s. parse_transport_response (\<lambda>_. []) \<lparr>tp_status = 403, tp_body = [], tp_retry_after_seconds = None, tp_network_error = None\<rparr>
     (\<lambda>_. Inl (Raised (Exn KeyError ''x''))) = Inl (ProviderAuthError m s)"
  using status_mapping [of "\<lambda>_. Inl (Raised (Exn KeyError ''x''))" "\<lambda>_. []"
      "\<lparr>tp_status = 403, tp_body = [], tp_retry_after_seconds = None, tp_network_error = None\<rparr>"] by simp

lemma delay_bounds: "0 \<le> rnd \<Longrightarrow> rnd \<le> 1 \<Longrightarrow> 0 \<le> transport_retry_delay_s n rnd \<and> transport_retry_delay_s n rnd \<le> 2"
proof -
  assume "0 \<le> rnd" "rnd \<le> 1"
  then have "rnd * min 2 ((1 / 4) * 2 ^ n) \<le> 1 * min 2 ((1 / 4) * 2 ^ n)" by (intro mult_right_mono) auto
  then show ?thesis by (auto simp: transport_retry_delay_s_def)
qed

lemma post_loop_spec:
  assumes "\<And>e. 0 \<le> fst (tw_random w e) \<and> fst (tw_random w e) \<le> 1" "post_loop n a w = (r, w')"
  shows "tw_opened w' = tw_opened w + (length (tw_slept w') - length (tw_slept w)) + (if n = 0 then 0 else 1) \<and>
    tw_opened w' \<le> tw_opened w + n \<and>
    (\<exists>ds. tw_slept w' = tw_slept w @ ds \<and> list_all (\<lambda>d. 0 \<le> d \<and> d \<le> 2) ds) \<and>
    (\<forall>resp. r = Inr resp \<longrightarrow> 0 < n \<longrightarrow> tp_network_error resp \<noteq> None \<longrightarrow> tw_opened w' = tw_opened w + n)"
  using assms
proof (induction n arbitrary: a w)
  case 0
  then show ?case by auto
next
  case (Suc left)
  obtain out env where o: "tw_urlopen w (tw_env w) = (out, env)" by fastforce
  show ?case
  proof (cases out)
    case (NetworkError msg)
    show ?thesis
    proof (cases "left = 0")
      case True
      with Suc.prems o NetworkError show ?thesis by (auto simp: Let_def)
    next
      case False
      obtain rnd env2 where rn: "tw_random w env = (rnd, env2)" by fastforce
      let ?w = "w\<lparr>tw_opened := tw_opened w + 1, tw_env := env2, tw_slept := tw_slept w @ [transport_retry_delay_s a rnd]\<rparr>"
      have run: "post_loop left (Suc a) ?w = (r, w')"
        using Suc.prems(2) o NetworkError False rn by (simp add: Let_def)
      have d: "0 \<le> transport_retry_delay_s a rnd \<and> transport_retry_delay_s a rnd \<le> 2"
        using Suc.prems(1) [of env] rn by (intro delay_bounds) auto
      have rnd: "0 \<le> fst (tw_random ?w e) \<and> fst (tw_random ?w e) \<le> 1" for e
        using Suc.prems(1) [of e] by simp
      note Suc.IH [OF rnd run]
      then show ?thesis using d False by auto
    qed
  qed (use Suc.prems o in \<open>auto simp: Let_def\<close>)
qed

text \<open>The transport makes at most \<open>1 + max(transport_retries, 0)\<close> connection attempts, always
  returns or raises, sleeps once between two attempts and never longer than two seconds, and reports a
  network error only after every attempt was used up.\<close>

theorem transport_post_bounded:
  assumes "\<And>e. 0 \<le> fst (tw_random w e) \<and> fst (tw_random w e) \<le> 1"
    and "transport_post retries w = (r, w')" "tw_opened w = 0" "tw_slept w = []"
  shows "int (tw_opened w') \<le> 1 + max retries 0 \<and> tw_opened w' = length (tw_slept w') + 1 \<and>
    list_all (\<lambda>d. 0 \<le> d \<and> d \<le> 2) (tw_slept w') \<and>
    (\<forall>resp. r = Inr resp \<longrightarrow> tp_network_error resp \<noteq> None \<longrightarrow> int (tw_opened w') = 1 + max retries 0)"
proof -
  from post_loop_spec [OF assms(1) assms(2) [unfolded transport_post_def]] assms(3,4) show ?thesis
    by auto
qed

definition demo_transport :: "http_outcome list transport_world" where
  "demo_transport = \<lparr>tw_urlopen = (\<lambda>os. case os of [] \<Rightarrow> (NetworkError ''down'', []) | x # xs \<Rightarrow> (x, xs)),
     tw_random = (\<lambda>e. (1, e)), tw_loads = (\<lambda>_. None),
     tw_env = [NetworkError ''reset'', HttpAnswer 200 [] None], tw_opened = 0, tw_slept = []\<rparr>"

theorem transport_post_bounded_witness:
  "tw_opened (snd (transport_post 2 demo_transport)) = 2 \<and>
   list_all (\<lambda>d. 0 \<le> d \<and> d \<le> 2) (tw_slept (snd (transport_post 2 demo_transport)))"
proof -
  have "tw_opened (snd (transport_post 2 demo_transport)) = 2" by code_simp
  with transport_post_bounded [of demo_transport 2 "fst (transport_post 2 demo_transport)" "snd (transport_post 2 demo_transport)"]
  show ?thesis by (simp add: demo_transport_def)
qed

end
