(* ===== verification/Chain_Config.thy ===== *)
theory Chain_Config
  imports Provider_Api
begin

text \<open>
  The configuration half of \<open>providers/chain.py\<close>: chain entries and role configs, the loader
  \<open>chain_from_mapping\<close> for a YAML mapping, and \<open>ChainConfig.validate\<close>; with the part of
  \<open>urllib.parse\<close> the validator uses (\<open>urlparse(..).scheme\<close> and \<open>.hostname\<close>).

  A YAML mapping is a JSON object. \<open>ip6\<close> is the standard library's test that a bracketed host is an
  IP address. Dashes and section signs of messages outside Latin-1 are written \<open>-\<close>.
\<close>

section \<open>URLs\<close>

definition url_clean :: "string \<Rightarrow> string" where
  "url_clean url = filter (\<lambda>c. c \<notin> {CHR 0x09, CHR 0x0A, CHR 0x0D}) (dropWhile (\<lambda>c. (of_char c :: nat) \<le> 32) url)"

definition ascii_alpha :: "char \<Rightarrow> bool" where
  "ascii_alpha c = (let n = (of_char c :: nat) in (65 \<le> n \<and> n \<le> 90) \<or> (97 \<le> n \<and> n \<le> 122))"

definition scheme_char :: "char \<Rightarrow> bool" where
  "scheme_char c = (ascii_alpha c \<or> is_digit c \<or> c \<in> {CHR ''+'', CHR ''-'', CHR ''.''})"

text \<open>Scheme and remainder of a cleaned URL.\<close>

definition split_scheme :: "string \<Rightarrow> string \<times> string" where
  "split_scheme url =
     (let s = takeWhile (\<lambda>c. c \<noteq> CHR '':'') url in
      if length s < length url \<and> s \<noteq> [] \<and> ascii_alpha (hd s) \<and> list_all scheme_char s
      then (py_lower s, drop (length s + 1) url) else ([], url))"

definition url_netloc :: "string \<Rightarrow> string" where
  "url_netloc rest =
     (if take 2 rest = ''//'' then takeWhile (\<lambda>c. c \<notin> {CHR ''/'', CHR ''?'', CHR ''#''}) (drop 2 rest) else [])"

definition url_hostname :: "string \<Rightarrow> string option" where
  "url_hostname netloc =
     (let hostinfo = rev (takeWhile (\<lambda>c. c \<noteq> CHR ''@'') (rev netloc));
          host = (if CHR ''['' \<in> set hostinfo
                  then takeWhile (\<lambda>c. c \<noteq> CHR '']'') (snd (py_partition1 (CHR ''['') hostinfo))
                  else takeWhile (\<lambda>c. c \<noteq> CHR '':'') hostinfo);
          name = takeWhile (\<lambda>c. c \<noteq> CHR ''%'') host
      in if host = [] then None else Some (py_lower name @ drop (length name) host))"

definition urlparse :: "(string \<Rightarrow> bool) \<Rightarrow> string \<Rightarrow> (string \<times> string option) py_result" where
  "urlparse ip6 url =
     (case split_scheme (url_clean url) of (scheme, rest) \<Rightarrow>
       (let netloc = url_netloc rest;
            opn = (CHR ''['' \<in> set netloc); cls = (CHR '']'' \<in> set netloc);
            bracketed = takeWhile (\<lambda>c. c \<noteq> CHR '']'') (snd (py_partition1 (CHR ''['') netloc))
        in if opn \<noteq> cls then Inl (Exn ValueError ''Invalid IPv6 URL'')
           else if opn \<and> \<not> ip6 bracketed
           then Inl (Exn ValueError (py_repr bracketed @ '' does not appear to be an IPv4 or IPv6 address''))
           else Inr (scheme, url_hostname netloc)))"

section \<open>Data\<close>

definition DEFAULT_COOLDOWN_SECONDS :: int where "DEFAULT_COOLDOWN_SECONDS = 15"
definition DEFAULT_TRANSPORT_RETRIES :: int where "DEFAULT_TRANSPORT_RETRIES = 2"
definition DEFAULT_TIMEOUT_SECONDS :: int where "DEFAULT_TIMEOUT_SECONDS = 300"
definition LOCALHOST_HOSTS :: "string list" where "LOCALHOST_HOSTS = [''localhost'', ''127.0.0.1'', ''0.0.0.0'']"
definition RESERVED_PROVIDER_NAMES :: "string list" where
  "RESERVED_PROVIDER_NAMES = [''__internal__'', ''__metadata__'', ''__fallback_marker__'']"

record chain_entry =
  ce_provider :: string
  ce_model :: string
  ce_base_url :: string
  ce_api_key_env :: string
  ce_cooldown_seconds :: int
  ce_transport_retries :: int
  ce_timeout_seconds :: int
  ce_extra_headers :: json_obj
  ce_provider_params :: json_obj
  ce_provider_params_no_thinking :: json_obj

record chain_config =
  cc_role :: string
  cc_name :: string
  cc_family :: string
  cc_chain :: "chain_entry list"
  cc_context_limit :: int
  cc_compaction_threshold :: "int option"
  cc_sampling :: json_obj

definition config_error :: "string \<Rightarrow> py_exc" where
  "config_error msg = Exn (OtherError ''ConfigurationError'') msg"

definition squote :: "string \<Rightarrow> string" where
  "squote s = [CHR 0x27] @ s @ [CHR 0x27]"

section \<open>Validation\<close>

definition validate_context_budget_settings :: "chain_config \<Rightarrow> unit py_result" where
  "validate_context_budget_settings c =
     (if cc_context_limit c \<le> 0
      then Inl (config_error (''role '' @ py_repr (cc_role c) @ '': context_limit must be a positive integer, got '' @
             int_str (cc_context_limit c) @ ''. Fix: set a positive context_limit under the '' @ squote (cc_role c) @
             '' role in ~/.fa/models.yaml.''))
      else case cc_compaction_threshold c of
        None \<Rightarrow> Inr ()
      | Some t \<Rightarrow>
         (if t \<le> 0
          then Inl (config_error (''role '' @ py_repr (cc_role c) @ '': compaction_threshold must be a positive integer, got '' @
                 int_str t @ ''. Fix: set a positive compaction_threshold or remove it (null = disabled) under the '' @
                 squote (cc_role c) @ '' role in ~/.fa/models.yaml.''))
          else if t > cc_context_limit c
          then Inl (config_error (''role '' @ py_repr (cc_role c) @ '': compaction_threshold ('' @ int_str t @
                 '') cannot exceed context_limit ('' @ int_str (cc_context_limit c) @
                 ''). Fix: reduce compaction_threshold or increase context_limit in ~/.fa/models.yaml.''))
          else Inr ()))"

definition entry_label :: "string \<Rightarrow> nat \<Rightarrow> string" where
  "entry_label role index = ''role '' @ py_repr role @ '' chain['' @ nat_str index @ '']''"

text \<open>The checks of one entry: its warnings, or the error it raises.\<close>

definition validate_provider_name :: "string \<Rightarrow> string \<Rightarrow> chain_entry \<Rightarrow> unit py_result" where
  "validate_provider_name label role entry =
     (if ce_provider entry \<in> set RESERVED_PROVIDER_NAMES
      then Inl (Exn (OtherError ''ReservedProviderError'') (label @ '': reserved provider name '' @
             py_repr (ce_provider entry) @ ''; reserved: '' @ string_list_repr (sort RESERVED_PROVIDER_NAMES)))
      else if ce_provider entry \<notin> fst ` set PROVIDERS
      then Inl (config_error (label @ '': unknown provider '' @ py_repr (ce_provider entry) @ ''; known: '' @
             string_list_repr (sort (map fst PROVIDERS)) @ ''. Fix: check the '' @ squote ''provider'' @
             '' field in ~/.fa/models.yaml for role '' @ squote role @ ''.''))
      else Inr ())"

definition validate_base_url :: "(string \<Rightarrow> bool) \<Rightarrow> string \<Rightarrow> chain_entry \<Rightarrow> string list py_result" where
  "validate_base_url ip6 label entry =
     (case urlparse ip6 (ce_base_url entry) of
        Inl e \<Rightarrow> Inl e
      | Inr (scheme, host) \<Rightarrow>
         (if scheme = ''http''
          then (if \<not> (\<exists>h \<in> set LOCALHOST_HOSTS. host = Some h)
                then Inl (config_error (label @ '': base_url '' @ py_repr (ce_base_url entry) @
                       '' must be https:// for non-localhost. Fix: change the base_url scheme to https:// in '' @
                       ''~/.fa/models.yaml, or use an http://localhost gateway.''))
                else Inr [label @ '': http:// base_url permitted only for localhost gateway''])
          else if scheme \<noteq> ''https''
          then Inl (config_error (label @ '': base_url '' @ py_repr (ce_base_url entry) @
                 '' must be https:// or http://localhost. Fix: set a valid base_url under the '' @ squote ''chain:'' @
                 '' entry in ~/.fa/models.yaml.''))
          else Inr []))"

definition validate_api_key :: "(string, string) pydict \<Rightarrow> bool \<Rightarrow> string \<Rightarrow> chain_entry \<Rightarrow> unit py_result" where
  "validate_api_key environ require_api_keys label entry =
     (if ce_api_key_env entry = []
      then Inl (config_error (label @ '': api_key_env must be non-empty. Fix: set the '' @ squote ''api_key_env'' @
             '' field to an environment variable name containing your API key in ~/.fa/models.yaml.''))
      else if require_api_keys \<and> py_strip (dict_get_default environ (ce_api_key_env entry) []) = []
      then Inl (config_error (label @ '': api_key_env='' @ py_repr (ce_api_key_env entry) @
             '' not set or empty in the configured secret store. Fix: set the '' @ py_repr (ce_api_key_env entry) @
             '' environment variable to your API key, or update '' @ squote ''api_key_env'' @
             '' in ~/.fa/models.yaml to reference a different variable.''))
      else Inr ())"

definition family_warning :: "string \<Rightarrow> string \<Rightarrow> chain_entry \<Rightarrow> string list" where
  "family_warning label family entry =
     (case extract_family (ce_model entry) None of
        Inl _ \<Rightarrow> [label @ '': cannot infer family from model '' @ py_repr (ce_model entry) @ ''; verify chain entry'']
      | Inr inferred \<Rightarrow>
         (if family \<noteq> [] \<and> inferred \<noteq> family
          then [label @ '': entry family '' @ py_repr inferred @ '' != role family '' @ py_repr family] else []))"

definition validate_entry ::
  "(string \<Rightarrow> bool) \<Rightarrow> (string, string) pydict \<Rightarrow> bool \<Rightarrow> string \<Rightarrow> string \<Rightarrow> nat \<Rightarrow> chain_entry \<Rightarrow> string list py_result" where
  "validate_entry ip6 environ require_api_keys role family index entry =
     (let label = entry_label role index in
      case validate_provider_name label role entry of
        Inl e \<Rightarrow> Inl e
      | Inr _ \<Rightarrow>
         (case validate_base_url ip6 label entry of
            Inl e \<Rightarrow> Inl e
          | Inr ws \<Rightarrow>
             (case validate_api_key environ require_api_keys label entry of
                Inl e \<Rightarrow> Inl e
              | Inr _ \<Rightarrow> Inr (ws @ family_warning label family entry))))"

fun validate_entries ::
  "(string \<Rightarrow> bool) \<Rightarrow> (string, string) pydict \<Rightarrow> bool \<Rightarrow> string \<Rightarrow> string \<Rightarrow> nat \<Rightarrow> chain_entry list \<Rightarrow> string list
     \<Rightarrow> string list py_result" where
  "validate_entries ip6 environ req role family i [] ws = Inr ws"
| "validate_entries ip6 environ req role family i (entry # entries) ws =
     (case validate_entry ip6 environ req role family i entry of
        Inl e \<Rightarrow> Inl e
      | Inr new_ws \<Rightarrow> validate_entries ip6 environ req role family (Suc i) entries (ws @ new_ws))"

definition adapter_names :: "chain_entry list \<Rightarrow> string list" where
  "adapter_names entries =
     sort (remdups (List.map_filter (\<lambda>e. map_option ps_adapter (dict_get PROVIDERS (ce_provider e))) entries))"

definition config_validate ::
  "(string \<Rightarrow> bool) \<Rightarrow> (string, string) pydict \<Rightarrow> bool \<Rightarrow> chain_config \<Rightarrow> string list py_result" where
  "config_validate ip6 environ require_api_keys c =
     (if cc_chain c = []
      then Inl (config_error (''role '' @ py_repr (cc_role c) @ '': empty chain - no providers configured for this role. '' @
             ''Fix: add at least one chain entry under the '' @ squote ''chain:'' @ '' key for role '' @
             squote (cc_role c) @ '' in ~/.fa/models.yaml.''))
      else case validate_context_budget_settings c of
        Inl e \<Rightarrow> Inl e
      | Inr _ \<Rightarrow>
         (case validate_entries ip6 environ require_api_keys (cc_role c) (cc_family c) 0 (cc_chain c) [] of
            Inl e \<Rightarrow> Inl e
          | Inr ws \<Rightarrow>
             (let names = adapter_names (cc_chain c) in
              Inr (if length names > 1
                   then ws @ [''role '' @ py_repr (cc_role c) @ '': chain mixes adapter categories '' @
                              string_list_repr names @ '' - fail-fast on 400/422 assumes a single adapter shape'']
                   else ws))))"

section \<open>Loading\<close>

text \<open>\<open>int(v)\<close> of a YAML value.\<close>

definition py_trunc :: "rat \<Rightarrow> int" where
  "py_trunc x = (if x \<ge> 0 then \<lfloor>x\<rfloor> else \<lceil>x\<rceil>)"

definition json_int :: "json \<Rightarrow> int py_result" where
  "json_int v = (case v of
     JInt i \<Rightarrow> Inr i
   | JBool b \<Rightarrow> Inr (if b then 1 else 0)
   | JFloat q \<Rightarrow> Inr (py_trunc q)
   | JStr s \<Rightarrow> (case py_int s of Some i \<Rightarrow> Inr i
              | None \<Rightarrow> Inl (Exn ValueError (''invalid literal for int() with base 10: '' @ py_repr s)))
   | _ \<Rightarrow> Inl (Exn TypeError (''int() argument must be a string, a bytes-like object or a real number, not '' @
            squote (json_type_name v))))"

text \<open>\<open>dict(v or {})\<close>; keys that are not strings are outside the model.\<close>

fun dict_pairs :: "json list \<Rightarrow> json_obj \<Rightarrow> json_obj py_result" where
  "dict_pairs [] d = Inr d"
| "dict_pairs (JList [JStr k, v] # vs) d = dict_pairs vs (AList.update k v d)"
| "dict_pairs (JStr [k, v] # vs) d = dict_pairs vs (AList.update [k] (JStr [v]) d)"
| "dict_pairs (v # vs) d = Inl (Exn TypeError ''cannot convert dictionary update sequence element to a sequence'')"

definition json_dict :: "json \<Rightarrow> json_obj py_result" where
  "json_dict v =
     (if \<not> json_truthy v then Inr []
      else case v of
        JObj kvs \<Rightarrow> Inr kvs
      | JList vs \<Rightarrow> dict_pairs vs []
      | JStr s \<Rightarrow> Inl (Exn ValueError ''dictionary update sequence element #0 has length 1; 2 is required'')
      | _ \<Rightarrow> Inl (Exn TypeError (squote (json_type_name v) @ '' object is not iterable'')))"

text \<open>\<open>key in row\<close>\<close>

definition json_contains :: "json \<Rightarrow> string \<Rightarrow> bool py_result" where
  "json_contains v k = (case v of
     JObj kvs \<Rightarrow> Inr (k \<in> fst ` set kvs)
   | JStr s \<Rightarrow> Inr (py_in k s)
   | JList vs \<Rightarrow> Inr (JStr k \<in> set vs)
   | _ \<Rightarrow> Inl (Exn TypeError (''argument of type '' @ squote (json_type_name v) @ '' is not iterable'')))"

definition REQUIRED_FIELDS :: "string list" where
  "REQUIRED_FIELDS = [''provider'', ''model'', ''base_url'', ''api_key_env'']"

definition check_row :: "string \<Rightarrow> nat \<Rightarrow> json \<Rightarrow> json_obj py_result" where
  "check_row role index row =
     (let label = entry_label role index in
      case json_contains row ''slug'' of
        Inl e \<Rightarrow> Inl e
      | Inr True \<Rightarrow> Inl (config_error (label @ '': '' @ squote ''slug:'' @ '' is the OLD field name (ADR-9 '' @ [CHR 0xA7] @
            ''Amendment 2026-07-23). Fix: rename it to '' @ squote ''model:'' @ '' in ~/.fa/models.yaml - this is the '' @
            ''literal string sent as \"model\" in this entry'' @ [CHR 0x27] @ ''s request body (every real '' @
            ''provider API calls this field '' @ squote ''model'' @ ''; the historical '' @ squote ''slug'' @
            '' name was never actually wired to the request).''))
      | Inr False \<Rightarrow>
         (case json_contains row ''extras'' of
            Inl e \<Rightarrow> Inl e
          | Inr True \<Rightarrow> Inl (config_error (label @ '': '' @ squote ''extras:'' @
                '' is not a valid chain-entry field (ADR-9 '' @ [CHR 0xA7] @ ''Amendment 2026-07-23). Fix: use '' @
                squote ''provider_params:'' @ '' instead in ~/.fa/models.yaml.''))
          | Inr False \<Rightarrow>
             (case row of
                JObj kvs \<Rightarrow>
                  (case find (\<lambda>f. msg_get kvs f = JNull) REQUIRED_FIELDS of
                     Some f \<Rightarrow> Inl (config_error (label @ '': required field '' @ py_repr f @
                         '' is null or missing. Fix: set the '' @ squote f @ '' field in the chain['' @ nat_str index @
                         ''] entry under role '' @ squote role @ '' in ~/.fa/models.yaml.''))
                   | None \<Rightarrow> Inr kvs)
              | _ \<Rightarrow> Inl (no_attribute (json_type_name row) ''get''))))"

fun check_rows :: "string \<Rightarrow> nat \<Rightarrow> json list \<Rightarrow> json_obj list py_result" where
  "check_rows role i [] = Inr []"
| "check_rows role i (row # rows) =
     (case check_row role i row of
        Inl e \<Rightarrow> Inl e
      | Inr kvs \<Rightarrow> (case check_rows role (Suc i) rows of Inl e \<Rightarrow> Inl e | Inr kvss \<Rightarrow> Inr (kvs # kvss)))"

definition int_field :: "json_obj \<Rightarrow> string \<Rightarrow> int \<Rightarrow> int py_result" where
  "int_field row k d = (if msg_get row k \<noteq> JNull then json_int (msg_get row k) else Inr d)"

definition build_entry :: "(rat \<Rightarrow> string) \<Rightarrow> json_obj \<Rightarrow> chain_entry py_result" where
  "build_entry fr row =
     rbind (int_field row ''cooldown_seconds'' DEFAULT_COOLDOWN_SECONDS) (\<lambda>cooldown.
     rbind (int_field row ''transport_retries'' DEFAULT_TRANSPORT_RETRIES) (\<lambda>retries.
     rbind (int_field row ''timeout_seconds'' DEFAULT_TIMEOUT_SECONDS) (\<lambda>timeout.
     rbind (json_dict (msg_get row ''extra_headers'')) (\<lambda>headers.
     rbind (json_dict (msg_get row ''provider_params'')) (\<lambda>params.
     rbind (json_dict (msg_get row ''provider_params_no_thinking'')) (\<lambda>params_off.
       Inr \<lparr>ce_provider = json_str fr (msg_get row ''provider''), ce_model = json_str fr (msg_get row ''model''),
            ce_base_url = json_str fr (msg_get row ''base_url''), ce_api_key_env = json_str fr (msg_get row ''api_key_env''),
            ce_cooldown_seconds = cooldown, ce_transport_retries = retries, ce_timeout_seconds = timeout,
            ce_extra_headers = headers, ce_provider_params = params, ce_provider_params_no_thinking = params_off\<rparr>))))))"

fun build_entries :: "(rat \<Rightarrow> string) \<Rightarrow> json_obj list \<Rightarrow> chain_entry list py_result" where
  "build_entries fr [] = Inr []"
| "build_entries fr (row # rows) =
     rbind (build_entry fr row) (\<lambda>e. rbind (build_entries fr rows) (\<lambda>es. Inr (e # es)))"

definition old_role_field :: "string \<Rightarrow> json_obj \<Rightarrow> py_exc option" where
  "old_role_field role raw =
     (if ''model'' \<in> fst ` set raw
      then Some (config_error (''role '' @ py_repr role @ '': '' @ squote ''model:'' @
             '' at role level is the OLD field name (ADR-9 '' @ [CHR 0xA7] @ ''Amendment 2026-07-23). Fix: rename it to '' @
             squote ''name:'' @ '' in ~/.fa/models.yaml - the role-level field is a display/logging label only and is NEVER '' @
             ''sent to any provider; the string actually sent as \"model\" in each HTTP request now comes from each '' @
             ''chain entry'' @ [CHR 0x27] @ ''s own '' @ squote ''model:'' @ '' field (was '' @ squote ''slug:'' @ '').''))
      else if ''extras'' \<in> fst ` set raw
      then Some (config_error (''role '' @ py_repr role @ '': '' @ squote ''extras:'' @
             '' at role level is the OLD field name (ADR-9 '' @ [CHR 0xA7] @ ''Amendment 2026-07-23). Fix: move these fields into a '' @
             squote ''provider_params:'' @ '' block under EACH chain entry that should receive them in ~/.fa/models.yaml - '' @
             ''role-level '' @ squote ''extras:'' @ '' used to be broadcast to every chain entry regardless of whether that '' @
             ''provider understood the field; '' @ squote ''provider_params:'' @ '' is scoped to a single entry.''))
      else None)"

definition budget_field_error :: "(rat \<Rightarrow> string) \<Rightarrow> string \<Rightarrow> json \<Rightarrow> json \<Rightarrow> py_exc" where
  "budget_field_error fr role limit threshold = config_error (''role '' @ py_repr role @
     '': context_limit and compaction_threshold must be integers (got context_limit='' @ json_repr fr limit @
     '', compaction_threshold='' @ json_repr fr threshold @ ''). Fix: use integer values in ~/.fa/models.yaml.'')"

text \<open>The \<open>try\<close> block that reads both token budgets.\<close>

definition budget_fields :: "(rat \<Rightarrow> string) \<Rightarrow> string \<Rightarrow> json_obj \<Rightarrow> (int \<times> int option) py_result" where
  "budget_fields fr role raw =
     (let limit_raw = msg_get raw ''context_limit''; threshold_raw = msg_get raw ''compaction_threshold'' in
      case (if limit_raw \<noteq> JNull then json_int limit_raw else Inr 150000) of
        Inl _ \<Rightarrow> Inl (budget_field_error fr role limit_raw threshold_raw)
      | Inr limit \<Rightarrow>
         (case (if threshold_raw \<noteq> JNull then map_sum id Some (json_int threshold_raw) else Inr None) of
            Inl _ \<Rightarrow> Inl (budget_field_error fr role limit_raw threshold_raw)
          | Inr threshold \<Rightarrow> Inr (limit, threshold)))"

definition chain_from_mapping :: "(rat \<Rightarrow> string) \<Rightarrow> string \<Rightarrow> json_obj \<Rightarrow> chain_config py_result" where
  "chain_from_mapping fr role raw =
     (case old_role_field role raw of
        Some e \<Rightarrow> Inl e
      | None \<Rightarrow>
         rbind (if json_truthy (msg_get raw ''chain'') then json_iter (msg_get raw ''chain'') else Inr []) (\<lambda>rows.
         rbind (check_rows role 0 rows) (\<lambda>kvss.
         rbind (build_entries fr kvss) (\<lambda>entries.
         rbind (budget_fields fr role raw) (\<lambda>(limit, threshold).
           Inr \<lparr>cc_role = role, cc_name = str_or_empty fr (msg_get raw ''name''),
                cc_family = py_lower (py_strip (str_or_empty fr (msg_get raw ''family''))),
                cc_chain = entries, cc_context_limit = limit, cc_compaction_threshold = threshold,
                cc_sampling = (case msg_get raw ''sampling'' of JObj kvs \<Rightarrow> kvs | _ \<Rightarrow> [])\<rparr>)))))"

section \<open>What validation accepts\<close>

text \<open>The safe entries: a registered, non-reserved provider, a TLS endpoint or a local gateway, and a
  key that is there when keys are required.\<close>

definition safe_url :: "(string \<Rightarrow> bool) \<Rightarrow> string \<Rightarrow> bool" where
  "safe_url ip6 url \<longleftrightarrow> (\<exists>host. urlparse ip6 url = Inr (''https'', host)) \<or>
     (\<exists>h \<in> set LOCALHOST_HOSTS. urlparse ip6 url = Inr (''http'', Some h))"

definition safe_entry :: "(string \<Rightarrow> bool) \<Rightarrow> (string, string) pydict \<Rightarrow> bool \<Rightarrow> chain_entry \<Rightarrow> bool" where
  "safe_entry ip6 environ req e \<longleftrightarrow>
     ce_provider e \<in> fst ` set PROVIDERS \<and> safe_url ip6 (ce_base_url e) \<and> ce_api_key_env e \<noteq> [] \<and>
     (req \<longrightarrow> (\<exists>k. map_of environ (ce_api_key_env e) = Some k \<and> py_strip k \<noteq> []))"

definition budget_ok :: "chain_config \<Rightarrow> bool" where
  "budget_ok c \<longleftrightarrow> 0 < cc_context_limit c \<and>
     (\<forall>t. cc_compaction_threshold c = Some t \<longrightarrow> 0 < t \<and> t \<le> cc_context_limit c)"

lemma reserved_not_registered: "n \<in> fst ` set PROVIDERS \<Longrightarrow> n \<notin> set RESERVED_PROVIDER_NAMES"
  by (auto simp: PROVIDERS_def RESERVED_PROVIDER_NAMES_def)

lemma provider_name_ok: "(validate_provider_name l r e = Inr u) \<longleftrightarrow> ce_provider e \<in> fst ` set PROVIDERS"
  using reserved_not_registered by (auto simp: validate_provider_name_def)

lemma base_url_ok: "(\<exists>ws. validate_base_url ip6 l e = Inr ws) \<longleftrightarrow> safe_url ip6 (ce_base_url e)"
proof (cases "urlparse ip6 (ce_base_url e)")
  case (Inl x)
  then show ?thesis by (simp add: validate_base_url_def safe_url_def)
next
  case (Inr a)
  obtain sch host where "a = (sch, host)" by (cases a)
  with Inr show ?thesis by (auto simp: validate_base_url_def safe_url_def)
qed

lemma api_key_ok:
  "(validate_api_key environ req l e = Inr u) \<longleftrightarrow> ce_api_key_env e \<noteq> [] \<and>
     (req \<longrightarrow> (\<exists>k. map_of environ (ce_api_key_env e) = Some k \<and> py_strip k \<noteq> []))"
  by (auto simp: validate_api_key_def dict_get_default_def py_strip_def py_rstrip_def py_lstrip_def split: option.splits)

lemma entry_ok: "(\<exists>ws. validate_entry ip6 environ req role fam i e = Inr ws) \<longleftrightarrow> safe_entry ip6 environ req e"
  unfolding safe_entry_def base_url_ok [of ip6 "entry_label role i", symmetric]
    provider_name_ok [of "entry_label role i" role e "()", symmetric] api_key_ok [of environ req "entry_label role i" e "()", symmetric]
  by (auto simp: validate_entry_def Let_def split: sum.splits)

lemma entries_ok:
  "(\<exists>ws'. validate_entries ip6 environ req role fam i es ws = Inr ws') \<longleftrightarrow> list_all (safe_entry ip6 environ req) es"
proof (induction es arbitrary: i ws)
  case Nil
  then show ?case by simp
next
  case (Cons e es)
  show ?case
  proof (cases "validate_entry ip6 environ req role fam i e")
    case (Inl x)
    then have "\<not> safe_entry ip6 environ req e" using entry_ok [of ip6 environ req role fam i e] by auto
    with Inl show ?thesis by simp
  next
    case (Inr x)
    then have "safe_entry ip6 environ req e" using entry_ok [of ip6 environ req role fam i e] by auto
    with Inr Cons.IH show ?thesis by simp
  qed
qed

text \<open>C29: Validation accepts a role's chain if and only if the chain is non-empty, the token budgets are positive
  and ordered, and every entry is safe: a registered provider (never a reserved name), an https
  endpoint or an http endpoint on the local host, a named key variable and, when keys are required, a key that is not
  blank. Family and adapter mismatches only warn.\<close>

theorem config_validate_exact:
  "(\<exists>ws. config_validate ip6 environ req c = Inr ws) \<longleftrightarrow>
     cc_chain c \<noteq> [] \<and> budget_ok c \<and> list_all (safe_entry ip6 environ req) (cc_chain c)"
proof -
  have "(validate_context_budget_settings c = Inr u) \<longleftrightarrow> budget_ok c" for u
    by (auto simp: validate_context_budget_settings_def budget_ok_def split: option.splits)
  then show ?thesis
    unfolding entries_ok [of ip6 environ req "cc_role c" "cc_family c" 0 _ "[]", symmetric]
    by (auto simp: config_validate_def Let_def split: sum.splits)
qed

section \<open>What loading gives\<close>

lemma check_rows_fields:
  "check_rows role i rows = Inr kvss \<Longrightarrow>
     rows = map JObj kvss \<and> list_all (\<lambda>kvs. list_all (\<lambda>f. msg_get kvs f \<noteq> JNull) REQUIRED_FIELDS \<and>
       ''slug'' \<notin> fst ` set kvs \<and> ''extras'' \<notin> fst ` set kvs) kvss"
proof (induction rows arbitrary: i kvss)
  case Nil
  then show ?case by simp
next
  case (Cons row rows)
  from Cons.prems obtain kvs rest where r: "check_row role i row = Inr kvs" "check_rows role (Suc i) rows = Inr rest" "kvss = kvs # rest"
    by (auto split: sum.splits)
  from r(1) have "row = JObj kvs \<and> list_all (\<lambda>f. msg_get kvs f \<noteq> JNull) REQUIRED_FIELDS \<and>
       ''slug'' \<notin> fst ` set kvs \<and> ''extras'' \<notin> fst ` set kvs"
    by (cases row) (auto simp: check_row_def Let_def json_contains_def find_None_iff list_all_iff split: sum.splits bool.splits option.splits)
  with Cons.IH [OF r(2)] r(3) show ?case by simp
qed

definition entry_of_row :: "(rat \<Rightarrow> string) \<Rightarrow> json_obj \<Rightarrow> chain_entry \<Rightarrow> bool" where
  "entry_of_row fr kvs e \<longleftrightarrow>
     ce_provider e = json_str fr (msg_get kvs ''provider'') \<and> ce_model e = json_str fr (msg_get kvs ''model'') \<and>
     (msg_get kvs ''cooldown_seconds'' = JNull \<longrightarrow> ce_cooldown_seconds e = DEFAULT_COOLDOWN_SECONDS) \<and>
     (\<forall>n. msg_get kvs ''cooldown_seconds'' = JInt n \<longrightarrow> ce_cooldown_seconds e = n) \<and>
     (\<forall>n. msg_get kvs ''timeout_seconds'' = JInt n \<longrightarrow> ce_timeout_seconds e = n) \<and>
     (\<forall>n. msg_get kvs ''transport_retries'' = JInt n \<longrightarrow> ce_transport_retries e = n)"

lemma build_entries_rows: "build_entries fr kvss = Inr es \<Longrightarrow> list_all2 (entry_of_row fr) kvss es"
proof (induction kvss arbitrary: es)
  case Nil
  then show ?case by simp
next
  case (Cons kvs kvss)
  then obtain e es' where e: "build_entry fr kvs = Inr e" "build_entries fr kvss = Inr es'" "es = e # es'" by auto
  from e(1) have "entry_of_row fr kvs e"
    by (auto simp: build_entry_def int_field_def json_int_def entry_of_row_def)
  with Cons.IH [OF e(2)] e(3) show ?case by simp
qed

text \<open>A loaded role keeps its rows: one entry per row in order, no row with a retired or missing field, explicit
  zeros are kept and only null falls back to the default, and the family is stored stripped and in lower case, so that
  the independence check cannot be bypassed by its spelling.\<close>

theorem chain_from_mapping_faithful:
  assumes "chain_from_mapping fr role raw = Inr c"
  shows "cc_role c = role \<and>
    (\<exists>kvss. (msg_get raw ''chain'' = JList (map JObj kvss) \<or> \<not> json_truthy (msg_get raw ''chain'') \<and> kvss = []) \<and>
       list_all2 (entry_of_row fr) kvss (cc_chain c) \<and>
       list_all (\<lambda>kvs. list_all (\<lambda>f. msg_get kvs f \<noteq> JNull) REQUIRED_FIELDS) kvss) \<and>
    cc_family c = py_lower (py_strip (str_or_empty fr (msg_get raw ''family''))) \<and>
    ''model'' \<notin> fst ` set raw \<and> ''extras'' \<notin> fst ` set raw"
proof -
  from assms have old: "old_role_field role raw = None" by (auto simp: chain_from_mapping_def split: option.splits)
  obtain rows kvss entries where rows: "(if json_truthy (msg_get raw ''chain'') then json_iter (msg_get raw ''chain'') else Inr []) = Inr rows"
    and check: "check_rows role 0 rows = Inr kvss" and build: "build_entries fr kvss = Inr entries" and
    c: "cc_role c = role" "cc_chain c = entries" "cc_family c = py_lower (py_strip (str_or_empty fr (msg_get raw ''family'')))"
    using assms old by (auto simp: chain_from_mapping_def simp del: check_rows.simps build_entries.simps)
  note ok = check_rows_fields [OF check]
  have "msg_get raw ''chain'' = JList (map JObj kvss) \<or> \<not> json_truthy (msg_get raw ''chain'') \<and> kvss = []"
  proof (cases "json_truthy (msg_get raw ''chain'')")
    case True
    with rows ok have "json_iter (msg_get raw ''chain'') = Inr (map JObj kvss)" by simp
    with True show ?thesis
      by (cases "msg_get raw ''chain''") (auto simp: json_iter_def neq_Nil_conv Cons_eq_map_conv)
  next
    case False
    with rows ok show ?thesis by simp
  qed
  with build_entries_rows [OF build] ok c old show ?thesis
    by (auto simp: old_role_field_def list_all_iff split: if_splits)
qed

definition demo_chain_row :: json_obj where
  "demo_chain_row = [(''provider'', JStr ''groq''), (''model'', JStr ''qwen3''), (''base_url'', JStr ''https://api.x''),
     (''api_key_env'', JStr ''K''), (''cooldown_seconds'', JInt 0)]"

definition demo_role_map :: json_obj where
  "demo_role_map = [(''family'', JStr '' Qwen''), (''chain'', JList [JObj demo_chain_row])]"

theorem chain_from_mapping_faithful_witness:
  "\<exists>c. chain_from_mapping (\<lambda>_. []) ''coder'' demo_role_map = Inr c \<and> cc_role c = ''coder'' \<and> length (cc_chain c) = 1"
proof -
  have "case chain_from_mapping (\<lambda>_. []) ''coder'' demo_role_map of Inl _ \<Rightarrow> False | Inr c \<Rightarrow> True" by code_simp
  then obtain c where c: "chain_from_mapping (\<lambda>_. []) ''coder'' demo_role_map = Inr c" by (auto split: sum.splits)
  have "msg_get demo_role_map ''chain'' = JList [JObj demo_chain_row]" by (simp add: demo_role_map_def msg_get_def)
  with chain_from_mapping_faithful [OF c] c show ?thesis by (auto dest: list_all2_lengthD)
qed

end
