(* ===== verification/Provider_Chain.thy ===== *)
theory Provider_Chain
  imports Chain_Config
begin

text \<open>
  The dispatcher of \<open>providers/chain.py\<close>: the ordered walk over the chain entries with the shared
  cooldown ledger.

  The world \<open>'w\<close> holds everything outside: \<open>pc_clock\<close> reads the time, \<open>pc_new_id\<close> makes a call id,
  \<open>pc_factory\<close> builds the adapter of an entry and the adapter performs the request. Each may
  change the world. The ledger is passed along with the world because chains share it.
\<close>

section \<open>State\<close>

record cooldown_row =
  cd_provider :: string
  cd_slug :: string
  cd_started_at :: rat
  cd_expires_at :: pyfloat
  cd_trigger_status :: int
  cd_trigger_error :: string
  cd_retry_after_hint_ms :: int

type_synonym ledger = "(string \<times> string, cooldown_row) pydict"

text \<open>\<open>provider.request(request, base_url, api_key, timeout_seconds, transport_retries, extra_headers)\<close>\<close>

type_synonym 'w adapter =
  "request_info \<Rightarrow> string \<Rightarrow> string \<Rightarrow> int \<Rightarrow> int \<Rightarrow> json_obj \<Rightarrow> 'w \<Rightarrow> (provider_error + response_info) \<times> 'w"

record 'w provider_chain =
  pc_config :: chain_config
  pc_factory :: "chain_entry \<Rightarrow> 'w \<Rightarrow> (provider_error + 'w adapter) \<times> 'w"
  pc_env :: "(string, string) pydict"
  pc_clock :: "'w \<Rightarrow> rat \<times> 'w"
  pc_new_id :: "'w \<Rightarrow> string \<times> 'w"
  pc_frepr :: "rat \<Rightarrow> string"

type_synonym chain_outcome = "provider_error + (response_info \<times> string \<times> chain_attempt list)"

section \<open>Floats\<close>

definition pyfloat_times1000 :: "pyfloat \<Rightarrow> pyfloat" where
  "pyfloat_times1000 x = (case x of
     Fin q \<Rightarrow> (if q * 1000 \<ge> float_overflow then PInf else if q * 1000 \<le> - float_overflow then NInf else Fin (q * 1000))
   | _ \<Rightarrow> x)"

definition pyfloat_int :: "pyfloat \<Rightarrow> int py_result" where
  "pyfloat_int x = (case x of
     Fin q \<Rightarrow> Inr (py_trunc q)
   | NaN \<Rightarrow> Inl (Exn ValueError ''cannot convert float NaN to integer'')
   | _ \<Rightarrow> Inl (Exn (OtherError ''OverflowError'') ''cannot convert float infinity to integer''))"

fun pyfloat_gt :: "pyfloat \<Rightarrow> rat \<Rightarrow> bool" where
  "pyfloat_gt (Fin x) q = (x > q)"
| "pyfloat_gt PInf q = True"
| "pyfloat_gt _ q = False"

text \<open>\<open>max(now + cooldown, now + retry_after)\<close>: the first argument unless the second is greater.\<close>

definition cooldown_until :: "rat \<Rightarrow> int \<Rightarrow> pyfloat \<Rightarrow> pyfloat" where
  "cooldown_until now secs retry_after = (case retry_after of
     Fin q \<Rightarrow> Fin (max (now + of_int secs) (now + q))
   | PInf \<Rightarrow> PInf
   | _ \<Rightarrow> Fin (now + of_int secs))"

section \<open>One entry\<close>

definition entry_key :: "chain_entry \<Rightarrow> string \<times> string" where
  "entry_key e = (ce_provider e, ce_model e)"

definition elapsed_ms :: "rat \<Rightarrow> rat \<Rightarrow> int" where
  "elapsed_ms start now = py_trunc ((now - start) * 1000)"

definition attempt :: "chain_entry \<Rightarrow> int \<Rightarrow> int \<Rightarrow> string option \<Rightarrow> chain_attempt" where
  "attempt e status ms err = \<lparr>ca_provider = ce_provider e, ca_slug = ce_model e, ca_status = status, ca_ms = ms, ca_error = err\<rparr>"

text \<open>The sampling values of a call: explicit values win over the role's defaults, and the thinking mode drops
  temperature and \<open>top_p\<close>.\<close>

definition sampling_default :: "json \<Rightarrow> json_obj \<Rightarrow> string \<Rightarrow> json" where
  "sampling_default v sampling k = (if v \<noteq> JNull then v else msg_get sampling k)"

definition effective_sampling :: "chain_config \<Rightarrow> request_info \<Rightarrow> json \<times> json \<times> json" where
  "effective_sampling c rq =
     (let t = sampling_default (rq_temperature rq) (cc_sampling c) ''temperature'';
          m = sampling_default (rq_max_tokens rq) (cc_sampling c) ''max_tokens'';
          p = sampling_default (rq_top_p rq) (cc_sampling c) ''top_p''
      in if rq_thinking_mode rq = ''thinking'' then (JNull, m, JNull) else (t, m, p))"

definition entry_extras :: "request_info \<Rightarrow> chain_entry \<Rightarrow> json_obj" where
  "entry_extras rq e =
     (let base = dict_update (rq_extras rq) (ce_provider_params e) in
      if rq_thinking_mode rq = ''no-thinking'' then dict_update base (ce_provider_params_no_thinking e) else base)"

definition entry_request :: "chain_config \<Rightarrow> request_info \<Rightarrow> chain_entry \<Rightarrow> request_info" where
  "entry_request c rq e =
     (case effective_sampling c rq of (t, m, p) \<Rightarrow>
       rq\<lparr>rq_model_slug := ce_model e, rq_temperature := t, rq_max_tokens := m, rq_top_p := p,
          rq_extras := entry_extras rq e\<rparr>)"

definition stamp :: "string \<Rightarrow> string \<Rightarrow> provider_error \<Rightarrow> provider_error" where
  "stamp call_id provider e = (case e of
     ProviderRequestShapeError msg status _ _ loc \<Rightarrow> ProviderRequestShapeError msg status call_id (Some provider) loc
   | _ \<Rightarrow> e)"

text \<open>What the walk does after an entry: return, raise, or go on with one more attempt record.\<close>

datatype entry_result =
    Answered response_info chain_attempt
  | Failed provider_error
  | Next "chain_attempt option"

text \<open>The finalizer for the entry's provider.\<close>

definition finalize :: "'w provider_chain \<Rightarrow> request_info \<Rightarrow> chain_entry \<Rightarrow> provider_error + request_info" where
  "finalize pc rq e =
     (case dict_get PROVIDERS (ce_provider e) of
        None \<Rightarrow> Inl (Raised (Exn KeyError (py_repr (ce_provider e))))
      | Some spec \<Rightarrow>
         (case effective_sampling (pc_config pc) rq of (t, _, p) \<Rightarrow>
           validate_and_normalize (pc_frepr pc) (entry_request (pc_config pc) rq e) (ps_rules spec) t p))"

text \<open>The error handlers around \<open>provider.request\<close>, entered with the ledger and the world.\<close>

definition handle_error ::
  "'w provider_chain \<Rightarrow> string \<Rightarrow> chain_entry \<Rightarrow> rat \<Rightarrow> provider_error \<Rightarrow> ledger \<times> 'w \<Rightarrow> entry_result \<times> (ledger \<times> 'w)" where
  "handle_error pc call_id e start err st =
     (case st of (cds, w) \<Rightarrow>
       case err of
         ProviderRequestShapeError _ _ _ _ _ \<Rightarrow>
           (case pc_clock pc w of (_, w1) \<Rightarrow> (Failed (stamp call_id (ce_provider e) err), (cds, w1)))
       | ProviderAuthError _ status \<Rightarrow>
           (case pc_clock pc w of (t, w1) \<Rightarrow>
             (Next (Some (attempt e status (elapsed_ms start t) (Some ''auth_failed''))), (cds, w1)))
       | ProviderTransientError _ status kind retry_after \<Rightarrow>
           (case pc_clock pc w of (t, w1) \<Rightarrow>
             (case pc_clock pc w1 of (now_after, w2) \<Rightarrow>
               (case pyfloat_int (pyfloat_times1000 retry_after) of
                  Inl x \<Rightarrow> (Failed (Raised x), (cds, w2))
                | Inr hint \<Rightarrow>
                    (Next (Some (attempt e status (elapsed_ms start t) (Some kind))),
                     (AList.update (entry_key e)
                        \<lparr>cd_provider = ce_provider e, cd_slug = ce_model e, cd_started_at = start,
                         cd_expires_at = cooldown_until now_after (ce_cooldown_seconds e) retry_after,
                         cd_trigger_status = status, cd_trigger_error = kind, cd_retry_after_hint_ms = hint\<rparr> cds, w2)))))
       | _ \<Rightarrow> (Failed err, (cds, w)))"

definition try_entry ::
  "'w provider_chain \<Rightarrow> request_info \<Rightarrow> string \<Rightarrow> chain_entry \<Rightarrow> ledger \<times> 'w \<Rightarrow> entry_result \<times> (ledger \<times> 'w)" where
  "try_entry pc rq call_id e st =
     (case st of (cds, w) \<Rightarrow>
      case pc_clock pc w of (now, w1) \<Rightarrow>
      if (case dict_get cds (entry_key e) of None \<Rightarrow> False | Some row \<Rightarrow> pyfloat_gt (cd_expires_at row) now)
      then (Next None, (cds, w1))
      else
        let api_key = dict_get_default (pc_env pc) (ce_api_key_env e) [] in
        case pc_factory pc e w1 of
          (Inl err, w2) \<Rightarrow> (Failed err, (cds, w2))
        | (Inr adapter, w2) \<Rightarrow>
           (case pc_clock pc w2 of (start, w3) \<Rightarrow>
             (case finalize pc rq e of
                Inl (ProviderRequestShapeError m s c p l) \<Rightarrow>
                  handle_error pc call_id e start (ProviderRequestShapeError m s c p l) (cds, w3)
              | Inl err \<Rightarrow> (Failed err, (cds, w3))
              | Inr rq' \<Rightarrow>
                 (case adapter rq' (ce_base_url e) api_key (ce_timeout_seconds e) (ce_transport_retries e) (ce_extra_headers e) w3 of
                    (Inl err, w4) \<Rightarrow> handle_error pc call_id e start err (cds, w4)
                  | (Inr resp, w4) \<Rightarrow>
                     (case pc_clock pc w4 of (t, w5) \<Rightarrow>
                       (Answered resp (attempt e 200 (elapsed_ms start t) None), (AList.delete (entry_key e) cds, w5)))))))"

section \<open>The walk\<close>

definition attempts_of :: "'a option \<Rightarrow> 'a list" where
  "attempts_of x = (case x of None \<Rightarrow> [] | Some a \<Rightarrow> [a])"

definition exhausted_error :: "chain_config \<Rightarrow> chain_attempt list \<Rightarrow> string \<Rightarrow> provider_error" where
  "exhausted_error c attempts call_id =
     ProviderChainExhaustedError (''role '' @ py_repr (cc_role c) @ '': all '' @ nat_str (length (cc_chain c)) @
       '' chain entries failed'') attempts call_id"

fun chain_loop ::
  "'w provider_chain \<Rightarrow> request_info \<Rightarrow> string \<Rightarrow> chain_entry list \<Rightarrow> chain_attempt list \<Rightarrow> ledger \<times> 'w
     \<Rightarrow> chain_outcome \<times> (ledger \<times> 'w)" where
  "chain_loop pc rq call_id [] attempts st = (Inl (exhausted_error (pc_config pc) attempts call_id), st)"
| "chain_loop pc rq call_id (e # es) attempts st =
     (case try_entry pc rq call_id e st of
        (Answered resp a, st1) \<Rightarrow> (Inr (resp, call_id, attempts @ [a]), st1)
      | (Failed err, st1) \<Rightarrow> (Inl err, st1)
      | (Next a, st1) \<Rightarrow> chain_loop pc rq call_id es (attempts @ attempts_of a) st1)"

definition chain_request ::
  "'w provider_chain \<Rightarrow> request_info \<Rightarrow> string option \<Rightarrow> ledger \<times> 'w \<Rightarrow> chain_outcome \<times> (ledger \<times> 'w)" where
  "chain_request pc rq logical_call_id st =
     (case (case logical_call_id of
              Some i \<Rightarrow> (i, snd st)
            | None \<Rightarrow> pc_new_id pc (snd st)) of
        (call_id, w) \<Rightarrow> chain_loop pc rq call_id (cc_chain (pc_config pc)) [] (fst st, w))"

section \<open>What one entry can do\<close>

text \<open>The contract of the adapters: they answer, or fail with one of the three provider errors or a plain
  exception; building one fails only with a plain exception.\<close>

definition adapter_error :: "provider_error \<Rightarrow> bool" where
  "adapter_error e = (case e of ProviderChainExhaustedError _ _ _ \<Rightarrow> False | _ \<Rightarrow> True)"

fun answer_ok :: "provider_error + response_info \<Rightarrow> bool" where
  "answer_ok (Inl err) = adapter_error err"
| "answer_ok (Inr _) = True"

fun factory_ok :: "provider_error + 'w adapter \<Rightarrow> bool" where
  "factory_ok (Inl err) = (\<exists>x. err = Raised x)"
| "factory_ok (Inr ad) = (\<forall>rq url key tmo rt hd w. answer_ok (fst (ad rq url key tmo rt hd w)))"

definition adapters_ok :: "'w provider_chain \<Rightarrow> bool" where
  "adapters_ok pc \<longleftrightarrow> (\<forall>e w. factory_ok (fst (pc_factory pc e w)))"

definition attempt_key :: "chain_attempt \<Rightarrow> string \<times> string" where
  "attempt_key a = (ca_provider a, ca_slug a)"

lemma attempt_simps [simp]:
  "attempt_key (attempt e s ms err) = entry_key e" "ca_error (attempt e s ms err) = err" "ca_status (attempt e s ms err) = s"
  by (simp_all add: attempt_def attempt_key_def entry_key_def)

text \<open>The outcomes an entry may have, with its effect on the ledger.\<close>

fun entry_post :: "string \<Rightarrow> chain_entry \<Rightarrow> ledger \<Rightarrow> entry_result \<Rightarrow> ledger \<Rightarrow> bool" where
  "entry_post i e cds (Answered resp a) cds' =
     (attempt_key a = entry_key e \<and> ca_error a = None \<and> ca_status a = 200 \<and> cds' = AList.delete (entry_key e) cds)"
| "entry_post i e cds (Next None) cds' = (cds' = cds)"
| "entry_post i e cds (Next (Some a)) cds' =
     (attempt_key a = entry_key e \<and> ca_error a \<noteq> None \<and> (cds' = cds \<or> (\<exists>row. cds' = AList.update (entry_key e) row cds)))"
| "entry_post i e cds (Failed (ProviderRequestShapeError m s c p l)) cds' = (c = i \<and> p = Some (ce_provider e) \<and> cds' = cds)"
| "entry_post i e cds (Failed (Raised x)) cds' = (cds' = cds)"
| "entry_post i e cds (Failed _) cds' = False"

lemma handle_error_post:
  assumes "adapter_error err" "handle_error pc i e start err (cds, w) = (r, (cds', w'))"
  shows "entry_post i e cds r cds'"
  using assms
  by (cases err) (auto simp: handle_error_def stamp_def adapter_error_def split: prod.splits sum.splits)

lemma finalize_error:
  "finalize pc rq e = Inl err \<Longrightarrow> (\<exists>x. err = Raised x) \<or> (\<exists>m s c p l. err = ProviderRequestShapeError m s c p l)"
  by (auto simp: finalize_def validate_and_normalize_def message_rules_error_def Let_def
      split: option.splits prod.splits sum.splits if_splits)

lemma try_entry_post:
  assumes "adapters_ok pc" "try_entry pc rq i e (cds, w) = (r, (cds', w'))"
  shows "entry_post i e cds r cds'"
proof -
  obtain now w1 where now: "pc_clock pc w = (now, w1)" by fastforce
  show ?thesis
  proof (cases "case dict_get cds (entry_key e) of None \<Rightarrow> False | Some row \<Rightarrow> pyfloat_gt (cd_expires_at row) now")
    case True
    with assms(2) now show ?thesis by (auto simp: try_entry_def)
  next
    case False
    obtain fres w2 where f: "pc_factory pc e w1 = (fres, w2)" by fastforce
    have ok: "factory_ok fres" using assms(1) f by (metis adapters_ok_def fst_conv)
    show ?thesis
    proof (cases fres)
      case (Inl err)
      with ok obtain x where "err = Raised x" by auto
      with Inl False now f assms(2) show ?thesis by (auto simp: try_entry_def)
    next
      case (Inr ad)
      obtain start w3 where start: "pc_clock pc w2 = (start, w3)" by fastforce
      note step = False now f Inr start
      show ?thesis
      proof (cases "finalize pc rq e")
        case fin: (Inl err)
        show ?thesis
        proof (cases err)
          case (ProviderRequestShapeError m s c p l)
          with step fin assms(2) have "handle_error pc i e start err (cds, w3) = (r, (cds', w'))"
            by (simp add: try_entry_def)
          then show ?thesis by (rule handle_error_post [rotated]) (simp add: ProviderRequestShapeError adapter_error_def)
        qed (use step fin assms(2) finalize_error [OF fin] in \<open>auto simp: try_entry_def\<close>)
      next
        case fin: (Inr rq')
        let ?call = "ad rq' (ce_base_url e) (dict_get_default (pc_env pc) (ce_api_key_env e) []) (ce_timeout_seconds e)
          (ce_transport_retries e) (ce_extra_headers e) w3"
        obtain ares w4 where a: "?call = (ares, w4)" by fastforce
        show ?thesis
        proof (cases ares)
          case Inl2: (Inl err)
          from ok Inr have "answer_ok (fst ?call)" by simp
          with a Inl2 have "adapter_error err" by simp
          moreover have "handle_error pc i e start err (cds, w4) = (r, (cds', w'))"
            using step fin a Inl2 assms(2) by (simp add: try_entry_def)
          ultimately show ?thesis by (rule handle_error_post)
        next
          case (Inr resp)
          with step fin a assms(2) show ?thesis by (auto simp: try_entry_def split: prod.splits)
        qed
      qed
    qed
  qed
qed

section \<open>The walk\<close>

text \<open>The contract of a whole request.\<close>

fun request_post :: "string \<Rightarrow> chain_entry list \<Rightarrow> chain_outcome \<Rightarrow> ledger \<Rightarrow> bool" where
  "request_post i es (Inr (resp, i', atts)) cds' =
     (i' = i \<and> (\<exists>pre e post failed a. es = pre @ e # post \<and> atts = failed @ [a] \<and>
        attempt_key a = entry_key e \<and> ca_status a = 200 \<and> ca_error a = None \<and>
        subseq (map attempt_key failed) (map entry_key pre) \<and> (\<forall>b \<in> set failed. ca_error b \<noteq> None) \<and>
        map_of cds' (entry_key e) = None))"
| "request_post i es (Inl (ProviderChainExhaustedError m atts i')) cds' =
     (i' = i \<and> subseq (map attempt_key atts) (map entry_key es) \<and> (\<forall>b \<in> set atts. ca_error b \<noteq> None))"
| "request_post i es (Inl (ProviderRequestShapeError m s c p l)) cds' = (c = i \<and> p \<in> (Some \<circ> ce_provider) ` set es)"
| "request_post i es (Inl (Raised x)) cds' = True"
| "request_post i es (Inl _) cds' = False"

lemma chain_loop_post:
  assumes "adapters_ok pc" "chain_loop pc rq i es atts st = (r, st')"
    and "subseq (map attempt_key atts) (map entry_key before)" "\<forall>b \<in> set atts. ca_error b \<noteq> None"
  shows "request_post i (before @ es) r (fst st')"
  using assms(2-)
proof (induction es arbitrary: atts st before)
  case Nil
  then show ?case by (auto simp: exhausted_error_def)
next
  case (Cons e es)
  obtain cds w where st: "st = (cds, w)" by fastforce
  obtain er cds1 w1 where tr: "try_entry pc rq i e (cds, w) = (er, (cds1, w1))" by (metis prod_cases3)
  note post = try_entry_post [OF assms(1) tr]
  show ?case
  proof (cases er)
    case (Answered resp a)
    with Cons.prems st tr have "r = Inr (resp, i, atts @ [a])" "st' = (cds1, w1)" by auto
    with post Answered Cons.prems show ?thesis
      by auto (rule exI [of _ before], rule exI [of _ e], auto simp: delete_conv')
  next
    case (Failed err)
    with Cons.prems st tr have "r = Inl err" by auto
    with post Failed show ?thesis by (cases err) auto
  next
    case (Next a)
    with Cons.prems(1) st tr have run: "chain_loop pc rq i es (atts @ attempts_of a) (cds1, w1) = (r, st')" by simp
    have "subseq (map attempt_key (atts @ attempts_of a)) (map entry_key (before @ [e]))"
      using Cons.prems(2) post Next
      by (cases a) (auto simp: attempts_of_def intro: list_emb_append_mono subseq_rev_drop_many)
    moreover have "\<forall>b \<in> set (atts @ attempts_of a). ca_error b \<noteq> None"
      using Cons.prems(3) post Next by (cases a) (auto simp: attempts_of_def)
    ultimately show ?thesis using Cons.IH [OF run, of "before @ [e]"] by simp
  qed
qed


definition demo_entry :: "string \<Rightarrow> chain_entry" where
  "demo_entry name = \<lparr>ce_provider = name, ce_model = ''m'', ce_base_url = ''https://x'', ce_api_key_env = ''K'',
     ce_cooldown_seconds = 15, ce_transport_retries = 2, ce_timeout_seconds = 300, ce_extra_headers = [],
     ce_provider_params = [], ce_provider_params_no_thinking = []\<rparr>"

definition demo_response :: response_info where
  "demo_response = \<lparr>rs_text = ''hi'', rs_in_tokens = 1, rs_out_tokens = 1, rs_finish_reason = ''stop'', rs_tool_calls = [],
     rs_cache_read_input_tokens = 0, rs_cache_creation_input_tokens = 0, rs_extras = []\<rparr>"

text \<open>A world that is only a clock: the first provider of the chain is busy and sends this \<open>Retry-After\<close>
  header, the second one answers.\<close>

definition demo_adapter :: "string option \<Rightarrow> chain_entry \<Rightarrow> rat adapter" where
  "demo_adapter retry_after e rq url key tmo rt hdrs w =
     (parse_transport_response (\<lambda>_. [])
        (if entry_key e = (''groq'', ''m'')
         then \<lparr>tp_status = 503, tp_body = [], tp_retry_after_seconds = parse_retry_after retry_after, tp_network_error = None\<rparr>
         else \<lparr>tp_status = 200, tp_body = [], tp_retry_after_seconds = None, tp_network_error = None\<rparr>)
        (\<lambda>_. Inr demo_response), w + 1)"

definition demo_chain :: "string option \<Rightarrow> rat provider_chain" where
  "demo_chain retry_after =
     \<lparr>pc_config = \<lparr>cc_role = ''coder'', cc_name = [], cc_family = [], cc_chain = [demo_entry ''groq'', demo_entry ''xai''],
        cc_context_limit = 150000, cc_compaction_threshold = None, cc_sampling = []\<rparr>,
      pc_factory = (\<lambda>e w. (Inr (demo_adapter retry_after e), w)), pc_env = [], pc_clock = (\<lambda>w. (w, w)),
      pc_new_id = (\<lambda>w. (''id'', w)), pc_frepr = (\<lambda>_. [])\<rparr>"

lemma demo_adapters_ok: "adapters_ok (demo_chain retry_after)"
  by (auto simp: adapters_ok_def demo_chain_def demo_adapter_def parse_transport_response_def adapter_error_def)

definition demo_call :: request_info where
  "demo_call = \<lparr>rq_model_slug = [], rq_messages = [[(''role'', JStr ''user'')]], rq_temperature = JNull, rq_max_tokens = JNull,
     rq_top_p = JNull, rq_tools = [], rq_extras = [], rq_thinking_mode = ''thinking''\<rparr>"

lemma demo_finalize:
  "finalize (demo_chain h) demo_call (demo_entry ''groq'') = Inr (demo_call\<lparr>rq_model_slug := ''m''\<rparr>)"
  "finalize (demo_chain h) demo_call (demo_entry ''xai'') = Inr (demo_call\<lparr>rq_model_slug := ''m''\<rparr>)"
  by (simp_all add: finalize_def demo_chain_def demo_entry_def demo_call_def PROVIDERS_def OPENAI_COMPAT_def default_rules_def
      effective_sampling_def entry_request_def entry_extras_def sampling_default_def dict_update_def Let_def
      validate_and_normalize_def validate_message_order_def last_role_violation_def sorted_diff_def msg_get_def CACHE_KEYS_def)

lemmas demo_run =
  chain_request_def chain_loop.simps try_entry_def handle_error_def demo_chain_def demo_adapter_def demo_entry_def
  parse_transport_response_def attempts_of_def entry_key_def pyfloat_int_def pyfloat_times1000_def cooldown_until_def
  attempt_def elapsed_ms_def py_trunc_def pyfloat_or_zero_def

text \<open>A non-finite \<open>Retry-After\<close> header breaks the fallback. For an ordinary header the busy first provider is
  cooled and the second one answers; for the header \<open>inf\<close>, which the transport parses as a number, the same
  request ends in an \<open>OverflowError\<close>: the second provider is not asked and no cooldown is recorded.\<close>

theorem retry_after_inf_aborts:
  "(\<exists>atts st'. chain_request (demo_chain None) demo_call (Some ''id'') ([], 100) = (Inr (demo_response, ''id'', atts), st') \<and>
      map_of (fst st') (''groq'', ''m'') \<noteq> None) \<and>
   (\<exists>st'. chain_request (demo_chain (Some ''inf'')) demo_call (Some ''id'') ([], 100) =
      (Inl (Raised (Exn (OtherError ''OverflowError'') ''cannot convert float infinity to integer'')), st') \<and> fst st' = [])"
proof
  have big: "float_overflow > 0" by (simp add: float_overflow_def)
  note fin = demo_finalize [unfolded demo_chain_def demo_entry_def]
  show "\<exists>atts st'. chain_request (demo_chain None) demo_call (Some ''id'') ([], 100) = (Inr (demo_response, ''id'', atts), st') \<and>
      map_of (fst st') (''groq'', ''m'') \<noteq> None"
    using big by (simp add: demo_run fin parse_retry_after_def)
  have "parse_retry_after (Some ''inf'') = Some PInf" by code_simp
  then show "\<exists>st'. chain_request (demo_chain (Some ''inf'')) demo_call (Some ''id'') ([], 100) =
      (Inl (Raised (Exn (OtherError ''OverflowError'') ''cannot convert float infinity to integer'')), st') \<and> fst st' = []"
    by (simp add: demo_run fin)
qed


section \<open>The ledger\<close>

definition row_ok :: "string \<times> string \<Rightarrow> cooldown_row \<Rightarrow> bool" where
  "row_ok k row \<longleftrightarrow> k = (cd_provider row, cd_slug row) \<and> (\<exists>u. cd_expires_at row = Fin u)"

text \<open>A row of the ledger after a step: an old one, or one that a failing entry wrote, with the cooldown and the
  server's hint as lower bounds on how long it lasts after a reading of the clock.\<close>

definition fresh_row :: "'w provider_chain \<Rightarrow> string \<times> string \<Rightarrow> cooldown_row \<Rightarrow> bool" where
  "fresh_row pc k row \<longleftrightarrow> row_ok k row \<and>
     (\<exists>e \<in> set (cc_chain (pc_config pc)). \<exists>w u. k = entry_key e \<and> cd_expires_at row = Fin u \<and>
        fst (pc_clock pc w) + of_int (ce_cooldown_seconds e) \<le> u)"

definition ledger_step :: "'w provider_chain \<Rightarrow> ledger \<Rightarrow> ledger \<Rightarrow> bool" where
  "ledger_step pc cds cds' \<longleftrightarrow> (dict_wf cds \<longrightarrow> dict_wf cds') \<and>
     (\<forall>k row. map_of cds' k = Some row \<longrightarrow> map_of cds k = Some row \<or> fresh_row pc k row)"

lemma ledger_step_refl [simp]: "ledger_step pc cds cds"
  by (simp add: ledger_step_def)

lemma ledger_step_trans: "ledger_step pc a b \<Longrightarrow> ledger_step pc b c \<Longrightarrow> ledger_step pc a c"
  unfolding ledger_step_def by blast

lemma ledger_step_delete: "ledger_step pc cds (AList.delete k cds)"
  unfolding ledger_step_def by (simp add: delete_conv')

lemma ledger_step_update: "fresh_row pc k row \<Longrightarrow> ledger_step pc cds (AList.update k row cds)"
  unfolding ledger_step_def by (simp add: update_conv')

lemma handle_error_ledger:
  assumes "e \<in> set (cc_chain (pc_config pc))" "handle_error pc i e start err (cds, w) = (r, (cds', w'))"
  shows "ledger_step pc cds cds'"
proof (cases err)
  case (ProviderTransientError m s k ra)
  obtain t w1 where t: "pc_clock pc w = (t, w1)" by fastforce
  obtain now w2 where now: "pc_clock pc w1 = (now, w2)" by fastforce
  show ?thesis
  proof (cases "pyfloat_int (pyfloat_times1000 ra)")
    case (Inl x)
    with assms(2) ProviderTransientError t now show ?thesis by (auto simp: handle_error_def)
  next
    case (Inr hint)
    then obtain q where q: "ra = Fin q" by (cases ra) (auto simp: pyfloat_int_def pyfloat_times1000_def)
    let ?row = "\<lparr>cd_provider = ce_provider e, cd_slug = ce_model e, cd_started_at = start,
      cd_expires_at = cooldown_until now (ce_cooldown_seconds e) ra, cd_trigger_status = s, cd_trigger_error = k,
      cd_retry_after_hint_ms = hint\<rparr>"
    have "fst (pc_clock pc w1) + of_int (ce_cooldown_seconds e) \<le> max (now + of_int (ce_cooldown_seconds e)) (now + q)"
      by (simp add: now)
    then have "fresh_row pc (entry_key e) ?row"
      unfolding fresh_row_def row_ok_def using assms(1) by (auto simp: entry_key_def q cooldown_until_def)
    moreover have "cds' = AList.update (entry_key e) ?row cds"
      using assms(2) ProviderTransientError t now Inr by (auto simp: handle_error_def)
    ultimately show ?thesis by (simp add: ledger_step_update)
  qed
qed (use assms(2) in \<open>auto simp: handle_error_def split: prod.splits\<close>)

lemma try_entry_ledger:
  assumes "e \<in> set (cc_chain (pc_config pc))" "try_entry pc rq i e (cds, w) = (r, (cds', w'))"
  shows "ledger_step pc cds cds'"
  using assms(2) unfolding try_entry_def
  by (auto simp: Let_def ledger_step_delete split: prod.splits if_splits sum.splits provider_error.splits
      dest: handle_error_ledger [OF assms(1)])

lemma chain_loop_ledger:
  assumes "set es \<subseteq> set (cc_chain (pc_config pc))" "chain_loop pc rq i es atts st = (r, st')"
  shows "ledger_step pc (fst st) (fst st')"
  using assms
proof (induction es arbitrary: atts st)
  case Nil
  then show ?case by simp
next
  case (Cons e es)
  obtain cds w where st: "st = (cds, w)" by fastforce
  obtain er cds1 w1 where tr: "try_entry pc rq i e (cds, w) = (er, (cds1, w1))" by (metis prod_cases3)
  have step: "ledger_step pc cds cds1" using Cons.prems(1) by (intro try_entry_ledger [OF _ tr]) simp
  show ?case
  proof (cases er)
    case (Next a)
    with Cons.prems(2) st tr have run: "chain_loop pc rq i es (atts @ attempts_of a) (cds1, w1) = (r, st')" by simp
    from Cons.IH [OF _ run] Cons.prems(1) step st show ?thesis by (auto intro: ledger_step_trans)
  qed (use Cons.prems(2) st tr step in auto)
qed

text \<open>The cooldown floor: whatever a request does, the ledger stays a dictionary, no row appears except for an
  entry of this chain that failed, and a new row keeps its entry cooled for at least the configured cooldown after a
  reading of the clock, however small the server's hint; rows of the ledger keep their keys and stay finite.\<close>

theorem cooldown_floor:
  assumes "chain_request pc rq i st = (r, st')" "dict_wf (fst st)" "\<forall>(k, row) \<in> set (fst st). row_ok k row"
  shows "dict_wf (fst st') \<and> (\<forall>(k, row) \<in> set (fst st'). row_ok k row) \<and>
    (\<forall>k row. map_of (fst st') k = Some row \<longrightarrow> map_of (fst st) k = Some row \<or> fresh_row pc k row)"
proof -
  obtain j w where "chain_loop pc rq j (cc_chain (pc_config pc)) [] (fst st, w) = (r, st')"
    using assms(1) by (auto simp: chain_request_def split: prod.splits)
  from chain_loop_ledger [OF order_refl this] have step: "ledger_step pc (fst st) (fst st')" by simp
  with assms(2) have wf: "dict_wf (fst st')" by (simp add: ledger_step_def)
  have "row_ok k row" if "(k, row) \<in> set (fst st')" for k row
  proof -
    from that wf have "map_of (fst st') k = Some row" by simp
    with step have "map_of (fst st) k = Some row \<or> fresh_row pc k row" unfolding ledger_step_def by blast
    then show ?thesis using assms(3) by (auto simp: fresh_row_def dest: map_of_SomeD)
  qed
  with step wf show ?thesis by (auto simp: ledger_step_def)
qed

theorem cooldown_floor_witness:
  "\<exists>r st'. chain_request (demo_chain None) demo_call (Some ''id'') ([], 100) = (r, st') \<and> dict_wf (fst st')"
proof -
  obtain r st' where "chain_request (demo_chain None) demo_call (Some ''id'') ([], 100) = (r, st')" by (metis surj_pair)
  with cooldown_floor [OF this] show ?thesis by auto
qed

section \<open>Cooled entries\<close>

text \<open>An entry that stays cooled is never built or called: the request does not depend on its adapter.\<close>

lemma try_entry_keeps:
  assumes "try_entry pc rq i e (cds, w) = (r, (cds', w'))" "entry_key e \<noteq> k"
  shows "map_of cds' k = map_of cds k"
  using assms unfolding try_entry_def handle_error_def
  by (auto simp: Let_def delete_conv' update_conv' split: prod.splits if_splits sum.splits provider_error.splits)

lemma try_entry_cooled:
  assumes "map_of cds (entry_key e) = Some row" "\<And>w. pyfloat_gt (cd_expires_at row) (fst (pc_clock pc w))"
  shows "try_entry pc rq i e (cds, w) = (Next None, (cds, snd (pc_clock pc w)))"
  using assms by (simp add: try_entry_def split: prod.splits) (metis fst_conv)

lemma factory_fields:
  "pc_clock (pc\<lparr>pc_factory := f\<rparr>) = pc_clock pc" "pc_config (pc\<lparr>pc_factory := f\<rparr>) = pc_config pc"
  "pc_env (pc\<lparr>pc_factory := f\<rparr>) = pc_env pc" "pc_frepr (pc\<lparr>pc_factory := f\<rparr>) = pc_frepr pc"
  "pc_factory (pc\<lparr>pc_factory := f\<rparr>) = f"
  by simp_all

lemma factory_irrelevant:
  "handle_error (pc\<lparr>pc_factory := f\<rparr>) i e start err st = handle_error pc i e start err st"
  "finalize (pc\<lparr>pc_factory := f\<rparr>) rq e = finalize pc rq e"
  unfolding handle_error_def finalize_def factory_fields by (rule refl)+

lemma try_entry_factory:
  assumes "f e = pc_factory pc e"
  shows "try_entry (pc\<lparr>pc_factory := f\<rparr>) rq i e st = try_entry pc rq i e st"
  unfolding try_entry_def factory_fields factory_irrelevant assms by (rule refl)

lemma chain_loop_cooled:
  assumes "\<And>e. entry_key e \<noteq> k \<Longrightarrow> f e = pc_factory pc e" "map_of (fst st) k = Some row"
    and "\<And>w. pyfloat_gt (cd_expires_at row) (fst (pc_clock pc w))"
  shows "chain_loop (pc\<lparr>pc_factory := f\<rparr>) rq i es atts st = chain_loop pc rq i es atts st"
  using assms(2)
proof (induction es arbitrary: atts st)
  case Nil
  then show ?case by simp
next
  case (Cons e es)
  obtain cds w where st: "st = (cds, w)" by fastforce
  have same: "try_entry (pc\<lparr>pc_factory := f\<rparr>) rq i e (cds, w) = try_entry pc rq i e (cds, w)"
  proof (cases "entry_key e = k")
    case True
    with Cons.prems st try_entry_cooled [of cds e row _ rq i w] assms(3) show ?thesis by simp
  next
    case False
    then show ?thesis by (intro try_entry_factory assms(1))
  qed
  obtain er cds1 w1 where tr: "try_entry pc rq i e (cds, w) = (er, (cds1, w1))" by (metis prod_cases3)
  have "map_of cds1 k = Some row"
  proof (cases "entry_key e = k")
    case True
    with Cons.prems st try_entry_cooled [of cds e row pc rq i w] assms(3) tr show ?thesis by auto
  next
    case False
    with try_entry_keeps [OF tr] Cons.prems st show ?thesis by simp
  qed
  with Cons.IH [of "(cds1, w1)"] same tr st show ?case by (auto split: entry_result.splits)
qed

text \<open>An entry under cooldown is left alone: while the ledger's row for a provider and model outlasts
  every reading of the clock, a request neither builds nor calls that provider's adapter, so replacing the adapter by any other
  changes neither the answer nor the state.\<close>

theorem cooled_entry_untouched:
  assumes "map_of (fst st) k = Some row" "\<And>w. pyfloat_gt (cd_expires_at row) (fst (pc_clock pc w))"
    and "\<And>e. entry_key e \<noteq> k \<Longrightarrow> f e = pc_factory pc e"
  shows "chain_request (pc\<lparr>pc_factory := f\<rparr>) rq i st = chain_request pc rq i st"
proof (cases i)
  case None
  obtain j w where id: "pc_new_id pc (snd st) = (j, w)" by fastforce
  from chain_loop_cooled [of k f pc "(fst st, w)" row rq j "cc_chain (pc_config pc)" "[]"] assms id None show ?thesis
    by (simp add: chain_request_def)
next
  case (Some j)
  from chain_loop_cooled [of k f pc "(fst st, snd st)" row rq j "cc_chain (pc_config pc)" "[]"] assms Some show ?thesis
    by (simp add: chain_request_def)
qed

definition demo_cooled :: ledger where
  "demo_cooled = [((''groq'', ''m''), \<lparr>cd_provider = ''groq'', cd_slug = ''m'', cd_started_at = 0, cd_expires_at = Fin 200,
     cd_trigger_status = 429, cd_trigger_error = ''rate_limited'', cd_retry_after_hint_ms = 0\<rparr>)]"

definition demo_frozen :: "string option \<Rightarrow> rat provider_chain" where
  "demo_frozen h = (demo_chain h)\<lparr>pc_clock := (\<lambda>w. (100, w))\<rparr>"

theorem cooled_entry_untouched_witness:
  "chain_request (demo_frozen (Some ''inf'')) demo_call (Some ''id'') (demo_cooled, 100) =
   chain_request (demo_frozen None) demo_call (Some ''id'') (demo_cooled, 100)"
proof -
  let ?f = "\<lambda>e w. (Inr (demo_adapter (Some ''inf'') e), w)"
  have "demo_adapter (Some ''inf'') e = demo_adapter None e" if "entry_key e \<noteq> (''groq'', ''m'')" for e
    using that by (intro ext) (simp add: demo_adapter_def)
  then have "?f e = pc_factory (demo_frozen None) e" if "entry_key e \<noteq> (''groq'', ''m'')" for e
    using that by (simp add: demo_frozen_def demo_chain_def)
  moreover have "demo_frozen (Some ''inf'') = (demo_frozen None)\<lparr>pc_factory := ?f\<rparr>"
    by (simp add: demo_frozen_def demo_chain_def)
  moreover have "map_of (fst (demo_cooled, 100 :: rat)) (''groq'', ''m'') = Some (snd (hd demo_cooled))"
    by (simp add: demo_cooled_def)
  ultimately show ?thesis
    using cooled_entry_untouched [of "(demo_cooled, 100)" "(''groq'', ''m'')" _ "demo_frozen None" ?f demo_call "Some ''id''"]
    by (simp add: demo_cooled_def demo_frozen_def)
qed

end
