(* ===== verification/Workflow_Artifacts.thy ===== *)
theory Workflow_Artifacts
  imports Py_Match
begin

text \<open>
  The artifacts of a workflow run (\<open>inner_loop/workflow_artifacts.py\<close>): evaluation report and flow
  state with their JSON forms and validating readers, the parser of the evaluator's final message,
  and the atomic writer.

  A \<open>Literal\<close> type is a string with the list of its allowed values: the dataclasses do not check
  them, only the readers do. A text file is either the JSON document it holds or some other text.
\<close>

section \<open>Literals and field readers\<close>

definition FINDING_SEVERITIES :: "string list" where
  "FINDING_SEVERITIES = [''critical'', ''major'', ''minor'', ''info'']"
definition FINDING_CLASSES :: "string list" where
  "FINDING_CLASSES = [''implementation'', ''plan'', ''environment'', ''scope'', ''regression'']"
definition FINDING_ROUTES :: "string list" where
  "FINDING_ROUTES = [''coder'', ''planner'', ''human'']"
definition EVAL_VERDICTS :: "string list" where
  "EVAL_VERDICTS = [''PASS'', ''REPAIR_REQUIRED'', ''REPLAN_REQUIRED'', ''BLOCKED'']"
definition ROUTE_DECISIONS :: "string list" where
  "ROUTE_DECISIONS = [''complete'', ''return_to_coder'', ''return_to_planner'', ''blocked'']"
definition STEP_VERDICTS :: "string list" where
  "STEP_VERDICTS = [''pass'', ''fail'', ''partial'', ''not_evaluated'']"
definition FLOW_STATUSES :: "string list" where
  "FLOW_STATUSES = [''INIT'', ''PLANNING'', ''PLAN_READY'', ''CODING'', ''CODER_BLOCKED'', ''EVALUATING'',
     ''REPAIR_REQUIRED'', ''REPLAN_REQUIRED'', ''DELTA_PLANNING'', ''DONE'', ''FAILED'']"

definition as_str :: "json \<Rightarrow> string py_result" where
  "as_str v = (case v of JStr s \<Rightarrow> Inr s
     | _ \<Rightarrow> Inl (Exn ValueError (''expected a string, got '' @ json_type_name v)))"

definition as_int :: "json \<Rightarrow> int py_result" where
  "as_int v = (case v of JInt i \<Rightarrow> Inr i
     | _ \<Rightarrow> Inl (Exn ValueError (''expected an integer, got '' @ json_type_name v)))"

definition as_literal :: "json \<Rightarrow> string list \<Rightarrow> string \<Rightarrow> string py_result" where
  "as_literal v allowed field_name =
     rbind (as_str v) (\<lambda>text.
       if text \<notin> set allowed
       then Inl (Exn ValueError (field_name @ ''='' @ py_repr text @ '' is not one of '' @ string_list_repr (sort allowed)))
       else Inr text)"

definition as_str_tuple :: "json \<Rightarrow> string list py_result" where
  "as_str_tuple v = (case v of JList vs \<Rightarrow> rmap as_str vs
     | _ \<Rightarrow> Inl (Exn ValueError (''expected a list of strings, got '' @ json_type_name v)))"

definition as_dict :: "json \<Rightarrow> json_obj py_result" where
  "as_dict v = (case v of JObj kvs \<Rightarrow> Inr kvs
     | _ \<Rightarrow> Inl (Exn ValueError (''expected an object, got '' @ json_type_name v)))"

definition as_dict_list :: "json \<Rightarrow> json_obj list py_result" where
  "as_dict_list v = (case v of JList vs \<Rightarrow> rmap as_dict vs
     | _ \<Rightarrow> Inl (Exn ValueError (''expected a list of objects, got '' @ json_type_name v)))"

text \<open>\<open>data[k]\<close>\<close>

definition item :: "json_obj \<Rightarrow> string \<Rightarrow> json py_result" where
  "item d k = (case map_of d k of None \<Rightarrow> Inl (Exn KeyError (py_repr k)) | Some v \<Rightarrow> Inr v)"

section \<open>Records\<close>

record step_result =
  st_step_id :: string
  st_verdict :: string
  st_claimed_pass :: bool
  st_evidence :: string
  st_notes :: string

definition step_asdict :: "step_result \<Rightarrow> json_obj" where
  "step_asdict s = [(''step_id'', JStr (st_step_id s)), (''verdict'', JStr (st_verdict s)),
     (''claimed_pass'', JBool (st_claimed_pass s)), (''evidence'', JStr (st_evidence s)), (''notes'', JStr (st_notes s))]"

definition step_from_json :: "json_obj \<Rightarrow> step_result py_result" where
  "step_from_json d =
     rbind (rbind (item d ''step_id'') as_str) (\<lambda>step_id.
     rbind (rbind (item d ''verdict'') (\<lambda>v. as_literal v STEP_VERDICTS ''verdict'')) (\<lambda>verdict.
     rbind (item d ''claimed_pass'') (\<lambda>claimed.
     rbind (rbind (item d ''evidence'') as_str) (\<lambda>evidence.
     rbind (as_str (dict_get_default d ''notes'' (JStr []))) (\<lambda>notes.
       Inr \<lparr>st_step_id = step_id, st_verdict = verdict, st_claimed_pass = json_truthy claimed,
            st_evidence = evidence, st_notes = notes\<rparr>)))))"

record eval_finding =
  ef_finding_id :: string
  ef_severity :: string
  ef_finding_class :: string
  ef_blocking :: bool
  ef_route :: string
  ef_claim :: string
  ef_evidence :: string
  ef_expected :: string
  ef_actual :: string
  ef_required_action :: string
  ef_step_id :: "string option"
  ef_location :: string
  ef_suggested_check :: string

definition json_opt_str :: "string option \<Rightarrow> json" where
  "json_opt_str x = (case x of None \<Rightarrow> JNull | Some s \<Rightarrow> JStr s)"

definition finding_asdict :: "eval_finding \<Rightarrow> json_obj" where
  "finding_asdict f = [(''finding_id'', JStr (ef_finding_id f)), (''severity'', JStr (ef_severity f)),
     (''finding_class'', JStr (ef_finding_class f)), (''blocking'', JBool (ef_blocking f)),
     (''route'', JStr (ef_route f)), (''claim'', JStr (ef_claim f)), (''evidence'', JStr (ef_evidence f)),
     (''expected'', JStr (ef_expected f)), (''actual'', JStr (ef_actual f)),
     (''required_action'', JStr (ef_required_action f)), (''step_id'', json_opt_str (ef_step_id f)),
     (''location'', JStr (ef_location f)), (''suggested_check'', JStr (ef_suggested_check f))]"

definition finding_to_json :: "eval_finding \<Rightarrow> json_obj" where
  "finding_to_json f =
     AList.update ''class'' (JStr (ef_finding_class f)) (AList.delete ''finding_class'' (finding_asdict f))"

definition finding_from_json :: "json_obj \<Rightarrow> eval_finding py_result" where
  "finding_from_json d =
     (let raw_step = dict_get_default d ''step_id'' JNull in
     rbind (rbind (item d ''finding_id'') as_str) (\<lambda>finding_id.
     rbind (rbind (item d ''severity'') (\<lambda>v. as_literal v FINDING_SEVERITIES ''severity'')) (\<lambda>severity.
     rbind (rbind (item d ''class'') (\<lambda>v. as_literal v FINDING_CLASSES ''class'')) (\<lambda>cls.
     rbind (item d ''blocking'') (\<lambda>blocking.
     rbind (rbind (item d ''route'') (\<lambda>v. as_literal v FINDING_ROUTES ''route'')) (\<lambda>route.
     rbind (rbind (item d ''claim'') as_str) (\<lambda>claim.
     rbind (rbind (item d ''evidence'') as_str) (\<lambda>evidence.
     rbind (rbind (item d ''expected'') as_str) (\<lambda>expected.
     rbind (rbind (item d ''actual'') as_str) (\<lambda>actual.
     rbind (rbind (item d ''required_action'') as_str) (\<lambda>required.
     rbind (if raw_step = JNull then Inr None else rbind (as_str raw_step) (\<lambda>s. Inr (Some s))) (\<lambda>step_id.
     rbind (as_str (dict_get_default d ''location'' (JStr []))) (\<lambda>location.
     rbind (as_str (dict_get_default d ''suggested_check'' (JStr []))) (\<lambda>check.
       Inr \<lparr>ef_finding_id = finding_id, ef_severity = severity, ef_finding_class = cls,
            ef_blocking = json_truthy blocking, ef_route = route, ef_claim = claim, ef_evidence = evidence,
            ef_expected = expected, ef_actual = actual, ef_required_action = required, ef_step_id = step_id,
            ef_location = location, ef_suggested_check = check\<rparr>))))))))))))))"

record eval_report =
  er_run_id :: string
  er_plan_id :: string
  er_plan_version :: int
  er_evaluation_id :: string
  er_verdict :: string
  er_route_decision :: string
  er_summary :: string
  er_step_results :: "step_result list"
  er_findings :: "eval_finding list"
  er_integration_checks :: "string list"
  er_regression_checks :: "string list"
  er_confidence :: string
  er_eval_independence :: "json_obj option"
  er_unreported_slices :: "string list"

abbreviation jstrs :: "string list \<Rightarrow> json" where "jstrs xs \<equiv> JList (map JStr xs)"

definition report_to_json :: "eval_report \<Rightarrow> json_obj" where
  "report_to_json r =
     [(''run_id'', JStr (er_run_id r)), (''plan_id'', JStr (er_plan_id r)),
      (''plan_version'', JInt (er_plan_version r)), (''evaluation_id'', JStr (er_evaluation_id r)),
      (''verdict'', JStr (er_verdict r)), (''route_decision'', JStr (er_route_decision r)),
      (''summary'', JStr (er_summary r)),
      (''step_results'', JList (map (\<lambda>s. JObj (step_asdict s)) (er_step_results r))),
      (''unreported_slices'', jstrs (er_unreported_slices r)),
      (''findings'', JList (map (\<lambda>f. JObj (finding_to_json f)) (er_findings r))),
      (''integration_checks'', jstrs (er_integration_checks r)),
      (''regression_checks'', jstrs (er_regression_checks r)),
      (''confidence'', JStr (er_confidence r))] @
     (case er_eval_independence r of None \<Rightarrow> [] | Some m \<Rightarrow> [(''eval_independence'', JObj m)])"

definition report_from_json :: "json_obj \<Rightarrow> eval_report py_result" where
  "report_from_json d =
     rbind (rbind (item d ''run_id'') as_str) (\<lambda>run_id.
     rbind (rbind (item d ''plan_id'') as_str) (\<lambda>plan_id.
     rbind (rbind (item d ''plan_version'') as_int) (\<lambda>plan_version.
     rbind (rbind (item d ''evaluation_id'') as_str) (\<lambda>evaluation_id.
     rbind (rbind (item d ''verdict'') (\<lambda>v. as_literal v EVAL_VERDICTS ''verdict'')) (\<lambda>verdict.
     rbind (rbind (item d ''route_decision'') (\<lambda>v. as_literal v ROUTE_DECISIONS ''route_decision'')) (\<lambda>route.
     rbind (rbind (item d ''summary'') as_str) (\<lambda>summary.
     rbind (rbind (as_dict_list (dict_get_default d ''step_results'' (JList []))) (rmap step_from_json)) (\<lambda>steps.
     rbind (as_str_tuple (dict_get_default d ''unreported_slices'' (JList []))) (\<lambda>unreported.
     rbind (rbind (as_dict_list (dict_get_default d ''findings'' (JList []))) (rmap finding_from_json)) (\<lambda>findings.
     rbind (as_str_tuple (dict_get_default d ''integration_checks'' (JList []))) (\<lambda>integration.
     rbind (as_str_tuple (dict_get_default d ''regression_checks'' (JList []))) (\<lambda>regression.
     rbind (as_str (dict_get_default d ''confidence'' (JStr []))) (\<lambda>confidence.
       Inr \<lparr>er_run_id = run_id, er_plan_id = plan_id, er_plan_version = plan_version,
            er_evaluation_id = evaluation_id, er_verdict = verdict, er_route_decision = route,
            er_summary = summary, er_step_results = steps, er_findings = findings,
            er_integration_checks = integration, er_regression_checks = regression, er_confidence = confidence,
            er_eval_independence = (case map_of d ''eval_independence'' of Some (JObj m) \<Rightarrow> Some m | _ \<Rightarrow> None),
            er_unreported_slices = unreported\<rparr>)))))))))))))"

record flow_state =
  fl_run_id :: string
  fl_task :: string
  fl_status :: string
  fl_active_role :: string
  fl_active_plan_id :: string
  fl_active_plan_version :: int
  fl_repair_round :: int
  fl_replan_round :: int
  fl_last_actor :: string
  fl_last_transition_reason :: string
  fl_last_route_decision :: string
  fl_blocked_reason :: string
  fl_completed_steps :: "string list"
  fl_invalidated_steps :: "string list"
  fl_judged :: bool
  fl_plan_path :: string

definition flow_to_json :: "flow_state \<Rightarrow> json_obj" where
  "flow_to_json f =
     [(''run_id'', JStr (fl_run_id f)), (''task'', JStr (fl_task f)), (''status'', JStr (fl_status f)),
      (''active_role'', JStr (fl_active_role f)), (''active_plan_id'', JStr (fl_active_plan_id f)),
      (''active_plan_version'', JInt (fl_active_plan_version f)), (''repair_round'', JInt (fl_repair_round f)),
      (''replan_round'', JInt (fl_replan_round f)), (''last_actor'', JStr (fl_last_actor f)),
      (''last_transition_reason'', JStr (fl_last_transition_reason f)),
      (''last_route_decision'', JStr (fl_last_route_decision f)), (''blocked_reason'', JStr (fl_blocked_reason f)),
      (''judged'', JBool (fl_judged f)), (''plan_path'', JStr (fl_plan_path f)),
      (''completed_steps'', jstrs (fl_completed_steps f)), (''invalidated_steps'', jstrs (fl_invalidated_steps f))]"

definition flow_from_json :: "json_obj \<Rightarrow> flow_state py_result" where
  "flow_from_json d =
     rbind (rbind (item d ''run_id'') as_str) (\<lambda>run_id.
     rbind (rbind (item d ''task'') as_str) (\<lambda>task.
     rbind (rbind (item d ''status'') (\<lambda>v. as_literal v FLOW_STATUSES ''status'')) (\<lambda>status.
     rbind (rbind (item d ''active_role'') as_str) (\<lambda>active_role.
     rbind (rbind (item d ''active_plan_id'') as_str) (\<lambda>plan_id.
     rbind (rbind (item d ''active_plan_version'') as_int) (\<lambda>plan_version.
     rbind (as_int (dict_get_default d ''repair_round'' (JInt 0))) (\<lambda>repair.
     rbind (as_int (dict_get_default d ''replan_round'' (JInt 0))) (\<lambda>replan.
     rbind (as_str (dict_get_default d ''last_actor'' (JStr []))) (\<lambda>actor.
     rbind (as_str (dict_get_default d ''last_transition_reason'' (JStr []))) (\<lambda>reason.
     rbind (as_str (dict_get_default d ''last_route_decision'' (JStr []))) (\<lambda>route.
     rbind (as_str (dict_get_default d ''blocked_reason'' (JStr []))) (\<lambda>blocked.
     rbind (as_str_tuple (dict_get_default d ''completed_steps'' (JList []))) (\<lambda>completed.
     rbind (as_str_tuple (dict_get_default d ''invalidated_steps'' (JList []))) (\<lambda>invalidated.
     rbind (as_str (dict_get_default d ''plan_path'' (JStr []))) (\<lambda>plan_path.
       Inr \<lparr>fl_run_id = run_id, fl_task = task, fl_status = status, fl_active_role = active_role,
            fl_active_plan_id = plan_id, fl_active_plan_version = plan_version, fl_repair_round = repair,
            fl_replan_round = replan, fl_last_actor = actor, fl_last_transition_reason = reason,
            fl_last_route_decision = route, fl_blocked_reason = blocked, fl_completed_steps = completed,
            fl_invalidated_steps = invalidated,
            fl_judged = json_truthy (dict_get_default d ''judged'' (JBool True)), fl_plan_path = plan_path\<rparr>)))))))))))))))"

section \<open>Parsing the evaluator's message\<close>

definition VERDICT_TO_ROUTE :: "(string, string) pydict" where
  "VERDICT_TO_ROUTE = [(''PASS'', ''complete''), (''REPAIR_REQUIRED'', ''return_to_coder''),
     (''REPLAN_REQUIRED'', ''return_to_planner''), (''BLOCKED'', ''blocked'')]"

definition VALID_VERDICTS :: "string list" where "VALID_VERDICTS = map fst VERDICT_TO_ROUTE"
definition VALID_ROUTES :: "string list" where "VALID_ROUTES = map snd VERDICT_TO_ROUTE"

definition STEP_VERDICT_TOKENS :: "(string, string) pydict" where
  "STEP_VERDICT_TOKENS = [(''PASS'', ''pass''), (''FAIL'', ''fail''), (''PARTIAL'', ''partial'')]"

text \<open>
  All patterns are case-insensitive and matched at the start of a line without line breaks, so \<open>^\<close> is
  always true. The em dash of the step pattern is outside the Latin-1 strings of the model.
\<close>

definition verdict_header :: pat where
  "verdict_header = p_seq [p_lit ''###'', PStar p_space, p_ilit ''Verdict'', PWb]"

definition VERDICT_LINE_RE :: pat where
  "VERDICT_LINE_RE = p_seq [PStar p_space,
     p_opt (PAlt (PSeq verdict_header (PStar p_dot)) (p_seq [p_ilit ''verdict'', PStar p_space, p_in '':='' ])),
     PStar p_space,
     PGroup 1 (p_alt (p_ilit ''PASS'') [p_ilit ''REPAIR_REQUIRED'', p_ilit ''REPLAN_REQUIRED'', p_ilit ''BLOCKED'']),
     PWb]"

definition route_header :: pat where
  "route_header = p_seq [p_lit ''###'', PStar p_space, p_ilit ''Route'', PStar p_space, p_ilit ''decision'', PWb]"

definition ROUTE_LINE_RE :: pat where
  "ROUTE_LINE_RE = p_seq [PStar p_space,
     p_opt (PAlt (PSeq route_header (PStar p_dot))
       (p_seq [p_ilit ''route'', p_opt (p_ilit ''_decision''), PStar p_space, p_in '':='' ])),
     PStar p_space,
     PGroup 1 (p_alt (p_ilit ''complete'') [p_ilit ''return_to_coder'', p_ilit ''return_to_planner'', p_ilit ''blocked'']),
     PWb]"

definition step_id_tail :: pat where
  "step_id_tail = PSeq (p_plus p_digit) (PStar (PChar (\<lambda>c. ascii_alnum c \<or> c \<in> set ''_.-'')))"

definition STEP_LINE_RE :: pat where
  "STEP_LINE_RE = p_seq [PStar p_space, p_in ''-*'', PStar p_space,
     PGroup 1 (PAlt (PSeq (p_ilit ''SLICE'') step_id_tail) (PSeq (p_ilit ''S'') step_id_tail)),
     PStar p_space, p_in '':-'', PStar p_space,
     PGroup 2 (p_alt (p_ilit ''PASS'') [p_ilit ''FAIL'', p_ilit ''PARTIAL'']), PWb,
     PStar p_space, p_opt (p_in ''-:''), PStar p_space, PGroup 3 (PStar p_dot), PEol]"

definition SUMMARY_RE :: pat where
  "SUMMARY_RE = p_seq [p_ilit ''summary'', PStar p_space, p_in '':='', PStar p_space, PGroup 1 (p_plus p_dot), PEol]"

definition default_route_for_verdict :: "string \<Rightarrow> string py_result" where
  "default_route_for_verdict v = (case map_of VERDICT_TO_ROUTE v of None \<Rightarrow> Inl (Exn KeyError (py_repr v)) | Some r \<Rightarrow> Inr r)"

definition match_verdict_token :: "string \<Rightarrow> string option" where
  "match_verdict_token line =
     (case match_at VERDICT_LINE_RE line 0 of
        None \<Rightarrow> None
      | Some st \<Rightarrow> (let upper = py_upper (pat_group line st 1) in if upper \<in> set VALID_VERDICTS then Some upper else None))"

definition match_route_token :: "string \<Rightarrow> string option" where
  "match_route_token line =
     (case match_at ROUTE_LINE_RE line 0 of
        None \<Rightarrow> None
      | Some st \<Rightarrow> (let lower = py_lower (pat_group line st 1) in if lower \<in> set VALID_ROUTES then Some lower else None))"

fun first_token :: "(string \<Rightarrow> string option) \<Rightarrow> string list \<Rightarrow> string option" where
  "first_token tok [] = None"
| "first_token tok (l # ls) = (case tok l of Some t \<Rightarrow> Some t | None \<Rightarrow> first_token tok ls)"

text \<open>
  The two passes: the header line and the three lines after it, for every header in turn; else the
  last token of any line.
\<close>

fun scan_headers :: "pat \<Rightarrow> (string \<Rightarrow> string option) \<Rightarrow> string list \<Rightarrow> string option" where
  "scan_headers header tok [] = None"
| "scan_headers header tok (line # rest) =
     (if match_at (PSeq (PStar p_space) header) line 0 \<noteq> None
      then (case first_token tok (line # take 3 rest) of
              Some t \<Rightarrow> Some t
            | None \<Rightarrow> scan_headers header tok rest)
      else scan_headers header tok rest)"

definition last_token :: "(string \<Rightarrow> string option) \<Rightarrow> string list \<Rightarrow> string option" where
  "last_token tok lines = fold (\<lambda>line found. case tok line of Some t \<Rightarrow> Some t | None \<Rightarrow> found) lines None"

definition scan_tokens :: "pat \<Rightarrow> (string \<Rightarrow> string option) \<Rightarrow> string \<Rightarrow> string option" where
  "scan_tokens header tok text =
     (let lines = splitlines text
      in case scan_headers header tok lines of Some t \<Rightarrow> Some t | None \<Rightarrow> last_token tok lines)"

definition scan_verdict :: "string \<Rightarrow> string option" where
  "scan_verdict text = scan_tokens verdict_header match_verdict_token text"

definition scan_route :: "string \<Rightarrow> string option" where
  "scan_route text = scan_tokens route_header match_route_token text"

fun scan_steps :: "string list \<Rightarrow> step_result list \<Rightarrow> step_result list py_result" where
  "scan_steps [] results = Inr results"
| "scan_steps (line # rest) results =
     (case match_at STEP_LINE_RE line 0 of
        None \<Rightarrow> scan_steps rest results
      | Some st \<Rightarrow>
         (let step_id = pat_group line st 1; token = py_upper (pat_group line st 2)
          in if step_id \<in> st_step_id ` set results then scan_steps rest results
             else case map_of STEP_VERDICT_TOKENS token of
               None \<Rightarrow> Inl (Exn KeyError (py_repr token))
             | Some verdict \<Rightarrow>
                 scan_steps rest (results @
                   [\<lparr>st_step_id = step_id, st_verdict = verdict, st_claimed_pass = (verdict = ''pass''),
                     st_evidence = py_strip (pat_group line st 3), st_notes = []\<rparr>])))"

definition scan_step_results :: "string \<Rightarrow> step_result list py_result" where
  "scan_step_results text = scan_steps (splitlines text) []"

fun summary_line :: "string list \<Rightarrow> string option" where
  "summary_line [] = None"
| "summary_line (line # rest) =
     (let stripped = py_strip line
      in case match_at SUMMARY_RE stripped 0 of
           Some st \<Rightarrow> Some (take 280 (py_strip (pat_group stripped st 1)))
         | None \<Rightarrow> summary_line rest)"

definition first_summary_line :: "string \<Rightarrow> string \<Rightarrow> string" where
  "first_summary_line text verdict =
     (case summary_line (splitlines text) of Some s \<Rightarrow> s | None \<Rightarrow> ''verdict '' @ verdict)"

definition parse_eval_report ::
  "string option \<Rightarrow> string \<Rightarrow> string \<Rightarrow> string \<Rightarrow> int \<Rightarrow> json_obj option \<Rightarrow> eval_report py_result" where
  "parse_eval_report final_text run_id plan_id evaluation_id plan_version independence =
     (let text = (case final_text of None \<Rightarrow> [] | Some t \<Rightarrow> t);
          verdict = scan_verdict text;
          report = (\<lambda>v route summary steps confidence.
            \<lparr>er_run_id = run_id, er_plan_id = plan_id, er_plan_version = plan_version,
             er_evaluation_id = evaluation_id, er_verdict = v, er_route_decision = route, er_summary = summary,
             er_step_results = steps, er_findings = [], er_integration_checks = [], er_regression_checks = [],
             er_confidence = confidence, er_eval_independence = independence, er_unreported_slices = []\<rparr>)
      in rbind (scan_step_results text) (\<lambda>steps.
         case verdict of
           None \<Rightarrow> Inr (report ''BLOCKED'' ''blocked''
                      ''eval output did not contain a recognizable verdict token'' steps ''parsed:none'')
         | Some v \<Rightarrow>
             rbind (default_route_for_verdict v) (\<lambda>default_route.
               let parsed = scan_route text;
                   route = (if parsed \<noteq> None \<and> the parsed = default_route then the parsed else default_route)
               in Inr (report v route (first_summary_line text v) steps
                    (if parsed \<noteq> None then ''parsed:contract'' else ''parsed:verdict'')))))"

section \<open>Files\<close>

text \<open>
  The artifact directory: complete files by path, and the temporary files left behind. \<open>tempfile\<close>
  creates a file under a new name, so temporary files are kept apart from the named ones. A write
  may fail at each of its system calls.
\<close>

datatype file_text = Doc json | OtherText

record art_fs =
  fs_files :: "(string, file_text) pydict"
  fs_temps :: "file_text list"

datatype io_fault = IoOk | MkdirFails | OpenFails | WriteFails | ReplaceFails | ReplaceAndUnlinkFail

definition write_json_atomic :: "io_fault \<Rightarrow> string \<Rightarrow> json \<Rightarrow> art_fs \<Rightarrow> unit py_result \<times> art_fs" where
  "write_json_atomic fault path payload fs =
     (let failed = Inl (Exn OSError (''write of '' @ path @ '' failed'')) in
      case fault of
        MkdirFails \<Rightarrow> (failed, fs)
      | OpenFails \<Rightarrow> (failed, fs)
      | WriteFails \<Rightarrow> (failed, fs\<lparr>fs_temps := OtherText # fs_temps fs\<rparr>)
      | ReplaceFails \<Rightarrow> (failed, fs)
      | ReplaceAndUnlinkFail \<Rightarrow> (failed, fs\<lparr>fs_temps := Doc payload # fs_temps fs\<rparr>)
      | IoOk \<Rightarrow> (Inr (), fs\<lparr>fs_files := AList.update path (Doc payload) (fs_files fs)\<rparr>))"

text \<open>\<open>json.dump(..., sort_keys=True)\<close> writes every object with its keys in order.\<close>

fun json_sort :: "json \<Rightarrow> json" where
  "json_sort (JObj kvs) = JObj (sort_key fst (map (\<lambda>(k, v). (k, json_sort v)) kvs))"
| "json_sort (JList vs) = JList (map json_sort vs)"
| "json_sort v = v"

definition write_eval_report :: "io_fault \<Rightarrow> string \<Rightarrow> eval_report \<Rightarrow> art_fs \<Rightarrow> unit py_result \<times> art_fs" where
  "write_eval_report fault path r = write_json_atomic fault path (json_sort (JObj (report_to_json r)))"

definition write_flow_state :: "io_fault \<Rightarrow> string \<Rightarrow> flow_state \<Rightarrow> art_fs \<Rightarrow> unit py_result \<times> art_fs" where
  "write_flow_state fault path f = write_json_atomic fault path (json_sort (JObj (flow_to_json f)))"

text \<open>\<open>cls.from_json_dict(json.loads(path.read_text()))\<close>; a document that is not an object has no string keys.\<close>

definition not_subscriptable :: "json \<Rightarrow> py_exc" where
  "not_subscriptable v = Exn TypeError (case v of
       JList _ \<Rightarrow> ''list indices must be integers or slices, not str''
     | JStr _ \<Rightarrow> ''string indices must be integers, not '' @ py_repr ''str''
     | _ \<Rightarrow> py_repr (json_type_name v) @ '' object is not subscriptable'')"

definition load_json :: "string \<Rightarrow> art_fs \<Rightarrow> json_obj py_result" where
  "load_json path fs =
     (case map_of (fs_files fs) path of
        None \<Rightarrow> Inl (Exn OSError (''No such file or directory: '' @ py_repr path))
      | Some OtherText \<Rightarrow> Inl (Exn ValueError ''not a JSON document'')
      | Some (Doc v) \<Rightarrow> (case v of JObj kvs \<Rightarrow> Inr kvs | _ \<Rightarrow> Inl (not_subscriptable v)))"

definition load_eval_report :: "string \<Rightarrow> art_fs \<Rightarrow> eval_report py_result" where
  "load_eval_report path fs = rbind (load_json path fs) report_from_json"

definition load_flow_state :: "string \<Rightarrow> art_fs \<Rightarrow> flow_state py_result" where
  "load_flow_state path fs = rbind (load_json path fs) flow_from_json"

section \<open>Round trips\<close>

definition step_wf :: "step_result \<Rightarrow> bool" where
  "step_wf s = (st_verdict s \<in> set STEP_VERDICTS)"

definition finding_wf :: "eval_finding \<Rightarrow> bool" where
  "finding_wf f = (ef_severity f \<in> set FINDING_SEVERITIES \<and> ef_finding_class f \<in> set FINDING_CLASSES \<and>
     ef_route f \<in> set FINDING_ROUTES)"

definition report_wf :: "eval_report \<Rightarrow> bool" where
  "report_wf r = (er_verdict r \<in> set EVAL_VERDICTS \<and> er_route_decision r \<in> set ROUTE_DECISIONS \<and>
     list_all step_wf (er_step_results r) \<and> list_all finding_wf (er_findings r))"

definition flow_wf :: "flow_state \<Rightarrow> bool" where
  "flow_wf f = (fl_status f \<in> set FLOW_STATUSES)"

text \<open>The entries of an object as \<open>sort_keys\<close> writes them.\<close>

definition sorted_obj :: "json_obj \<Rightarrow> json_obj" where
  "sorted_obj kvs = sort_key fst (map (\<lambda>(k, v). (k, json_sort v)) kvs)"

lemma json_sort_obj: "json_sort (JObj kvs) = JObj (sorted_obj kvs)"
  by (simp add: sorted_obj_def)

lemma map_of_sorted_obj:
  assumes "dict_wf kvs"
  shows "map_of (sorted_obj kvs) k = map_option json_sort (map_of kvs k)"
proof -
  let ?m = "map (\<lambda>(k, v). (k, json_sort v)) kvs"
  have fst: "map fst ?m = map fst kvs" by (simp add: case_prod_beta comp_def)
  have d: "distinct (map fst (sort_key fst ?m))"
    by (rule distinct_map [THEN iffD2])
      (use assms [folded fst, unfolded distinct_map [of fst ?m]] in \<open>simp only: distinct_sort set_sort\<close>)
  have "map_of (sort_key fst ?m) = map_of ?m"
    by (rule map_of_inject_set [THEN iffD2], rule d, simp only: fst assms, simp only: set_sort)
  moreover have "map_of ?m k = map_option json_sort (map_of kvs k)"
    by (induction kvs) auto
  ultimately show ?thesis by (simp add: sorted_obj_def)
qed

text \<open>Reading back what the writer wrote, field by field.\<close>

lemma read_simps [simp]:
  "as_str (JStr s) = Inr s" "as_int (JInt i) = Inr i" "as_dict (JObj kvs) = Inr kvs"
  "as_str_tuple (jstrs xs) = Inr xs" "as_literal (JStr s) allowed name = (if s \<in> set allowed then Inr s else
     Inl (Exn ValueError (name @ ''='' @ py_repr s @ '' is not one of '' @ string_list_repr (sort allowed))))"
proof -
  have "rmap as_str (map JStr xs) = Inr xs" by (induction xs) (simp_all add: as_str_def)
  then show "as_str_tuple (jstrs xs) = Inr xs" by (simp add: as_str_tuple_def)
qed (simp_all add: as_str_def as_int_def as_dict_def as_literal_def)

lemma json_sort_jstrs [simp]: "json_sort (jstrs xs) = jstrs xs"
  by (simp add: comp_def)

lemma item_sorted: "dict_wf d \<Longrightarrow> map_of d k = Some v \<Longrightarrow> item (sorted_obj d) k = Inr (json_sort v)"
  by (simp add: item_def map_of_sorted_obj)

lemma default_sorted:
  "dict_wf d \<Longrightarrow> map_of d k = Some v \<Longrightarrow> dict_get_default (sorted_obj d) k w = json_sort v"
  by (simp add: dict_get_default_def map_of_sorted_obj)

lemma step_roundtrip: "step_wf s \<Longrightarrow> step_from_json (sorted_obj (step_asdict s)) = Inr s"
  unfolding step_from_json_def
  by (simp add: item_sorted default_sorted step_asdict_def step_wf_def)

lemma finding_to_json_eq:
  "finding_to_json f = [(''finding_id'', JStr (ef_finding_id f)), (''severity'', JStr (ef_severity f)),
     (''blocking'', JBool (ef_blocking f)),
     (''route'', JStr (ef_route f)), (''claim'', JStr (ef_claim f)), (''evidence'', JStr (ef_evidence f)),
     (''expected'', JStr (ef_expected f)), (''actual'', JStr (ef_actual f)),
     (''required_action'', JStr (ef_required_action f)), (''step_id'', json_opt_str (ef_step_id f)),
     (''location'', JStr (ef_location f)), (''suggested_check'', JStr (ef_suggested_check f)),
     (''class'', JStr (ef_finding_class f))]"
  by (simp add: finding_to_json_def finding_asdict_def AList.delete_eq)

lemma json_sort_opt_str [simp]: "json_sort (json_opt_str x) = json_opt_str x"
  by (simp add: json_opt_str_def split: option.splits)

lemma finding_roundtrip: "finding_wf f \<Longrightarrow> finding_from_json (sorted_obj (finding_to_json f)) = Inr f"
  unfolding finding_from_json_def Let_def
  by (simp add: item_sorted default_sorted finding_to_json_eq finding_wf_def)
     (simp add: json_opt_str_def split: option.splits)

lemma dict_list_roundtrip:
  assumes "\<And>x. x \<in> set xs \<Longrightarrow> rd (sorted_obj (enc x)) = Inr x"
  shows "rbind (as_dict_list (json_sort (JList (map (\<lambda>x. JObj (enc x)) xs)))) (rmap rd) = Inr xs"
proof -
  have "rmap as_dict (map (\<lambda>x. JObj (sorted_obj (enc x))) xs) = Inr (map (\<lambda>x. sorted_obj (enc x)) xs)"
    by (induction xs) simp_all
  moreover have "rmap rd (map (\<lambda>x. sorted_obj (enc x)) xs) = Inr xs"
    using assms by (induction xs) simp_all
  ultimately show ?thesis by (simp add: as_dict_list_def json_sort_obj comp_def del: json_sort.simps(1))
qed

lemmas steps_roundtrip = dict_list_roundtrip [where rd = step_from_json and enc = step_asdict]
lemmas findings_roundtrip = dict_list_roundtrip [where rd = finding_from_json and enc = finding_to_json]

lemma dict_wf_report: "dict_wf (report_to_json r)"
  by (simp add: report_to_json_def split: option.splits)

lemma report_fields:
  "map_of (report_to_json r) ''run_id'' = Some (JStr (er_run_id r))"
  "map_of (report_to_json r) ''plan_id'' = Some (JStr (er_plan_id r))"
  "map_of (report_to_json r) ''plan_version'' = Some (JInt (er_plan_version r))"
  "map_of (report_to_json r) ''evaluation_id'' = Some (JStr (er_evaluation_id r))"
  "map_of (report_to_json r) ''verdict'' = Some (JStr (er_verdict r))"
  "map_of (report_to_json r) ''route_decision'' = Some (JStr (er_route_decision r))"
  "map_of (report_to_json r) ''summary'' = Some (JStr (er_summary r))"
  "map_of (report_to_json r) ''step_results'' = Some (JList (map (\<lambda>s. JObj (step_asdict s)) (er_step_results r)))"
  "map_of (report_to_json r) ''unreported_slices'' = Some (jstrs (er_unreported_slices r))"
  "map_of (report_to_json r) ''findings'' = Some (JList (map (\<lambda>f. JObj (finding_to_json f)) (er_findings r)))"
  "map_of (report_to_json r) ''integration_checks'' = Some (jstrs (er_integration_checks r))"
  "map_of (report_to_json r) ''regression_checks'' = Some (jstrs (er_regression_checks r))"
  "map_of (report_to_json r) ''confidence'' = Some (JStr (er_confidence r))"
  "map_of (report_to_json r) ''eval_independence'' = map_option JObj (er_eval_independence r)"
  by (simp_all add: report_to_json_def split: option.splits)

lemma report_roundtrip:
  assumes "report_wf r"
  shows "report_from_json (sorted_obj (report_to_json r)) =
    Inr (r\<lparr>er_eval_independence := map_option sorted_obj (er_eval_independence r)\<rparr>)"
proof -
  have steps: "rbind (as_dict_list (json_sort (JList (map (\<lambda>s. JObj (step_asdict s)) (er_step_results r))))) (rmap step_from_json)
      = Inr (er_step_results r)"
    using assms by (intro steps_roundtrip) (auto simp: report_wf_def list_all_iff intro: step_roundtrip)
  have finds: "rbind (as_dict_list (json_sort (JList (map (\<lambda>f. JObj (finding_to_json f)) (er_findings r))))) (rmap finding_from_json)
      = Inr (er_findings r)"
    using assms by (intro findings_roundtrip) (auto simp: report_wf_def list_all_iff intro: finding_roundtrip)
  have indep: "(case map_of (sorted_obj (report_to_json r)) ''eval_independence'' of Some (JObj m) \<Rightarrow> Some m | _ \<Rightarrow> None)
      = map_option sorted_obj (er_eval_independence r)"
    unfolding map_of_sorted_obj [OF dict_wf_report] report_fields
    by (cases "er_eval_independence r") (simp_all add: json_sort_obj del: json_sort.simps(1))
  show ?thesis
    unfolding report_from_json_def
      item_sorted [OF dict_wf_report report_fields(1)] item_sorted [OF dict_wf_report report_fields(2)]
      item_sorted [OF dict_wf_report report_fields(3)] item_sorted [OF dict_wf_report report_fields(4)]
      item_sorted [OF dict_wf_report report_fields(5)] item_sorted [OF dict_wf_report report_fields(6)]
      item_sorted [OF dict_wf_report report_fields(7)] default_sorted [OF dict_wf_report report_fields(8)]
      default_sorted [OF dict_wf_report report_fields(9)] default_sorted [OF dict_wf_report report_fields(10)]
      default_sorted [OF dict_wf_report report_fields(11)] default_sorted [OF dict_wf_report report_fields(12)]
      default_sorted [OF dict_wf_report report_fields(13)] steps finds indep
    using assms by (simp add: report_wf_def comp_def)
qed

lemma flow_roundtrip: "flow_wf f \<Longrightarrow> flow_from_json (sorted_obj (flow_to_json f)) = Inr f"
  unfolding flow_from_json_def
  by (simp add: item_sorted default_sorted flow_to_json_def flow_wf_def comp_def)

text \<open>C20: What a workflow run writes it reads back: after a write that returned, loading the path gives
  the flow state that was written, and the evaluation report that was written with the keys of its
  independence record in sorted order, for every state and report whose literals are allowed ones.\<close>

theorem artifacts_roundtrip:
  "(flow_wf f \<longrightarrow> write_flow_state fault path f fs = (Inr (), fs') \<longrightarrow> load_flow_state path fs' = Inr f) \<and>
   (report_wf r \<longrightarrow> write_eval_report fault path r fs = (Inr (), fs') \<longrightarrow>
      load_eval_report path fs' = Inr (r\<lparr>er_eval_independence := map_option sorted_obj (er_eval_independence r)\<rparr>))"
proof (intro conjI impI)
  assume "flow_wf f" "write_flow_state fault path f fs = (Inr (), fs')"
  then show "load_flow_state path fs' = Inr f"
    by (auto simp: write_flow_state_def write_json_atomic_def load_flow_state_def load_json_def json_sort_obj
        flow_roundtrip Let_def simp del: json_sort.simps split: io_fault.splits)
next
  assume "report_wf r" "write_eval_report fault path r fs = (Inr (), fs')"
  then show "load_eval_report path fs' = Inr (r\<lparr>er_eval_independence := map_option sorted_obj (er_eval_independence r)\<rparr>)"
    by (auto simp: write_eval_report_def write_json_atomic_def load_eval_report_def load_json_def json_sort_obj
        report_roundtrip Let_def simp del: json_sort.simps split: io_fault.splits)
qed

definition demo_fs :: art_fs where "demo_fs = \<lparr>fs_files = [], fs_temps = []\<rparr>"

definition demo_flow :: flow_state where
  "demo_flow = \<lparr>fl_run_id = ''r1'', fl_task = ''t'', fl_status = ''DONE'', fl_active_role = ''eval'',
     fl_active_plan_id = ''r1'', fl_active_plan_version = 2, fl_repair_round = 1, fl_replan_round = 1,
     fl_last_actor = ''eval'', fl_last_transition_reason = ''ok'', fl_last_route_decision = ''complete'',
     fl_blocked_reason = [], fl_completed_steps = [''S1''], fl_invalidated_steps = [], fl_judged = True,
     fl_plan_path = ''plan.md''\<rparr>"

definition demo_report :: eval_report where
  "demo_report = \<lparr>er_run_id = ''r1'', er_plan_id = ''P'', er_plan_version = 1, er_evaluation_id = ''r1-eval'',
     er_verdict = ''REPAIR_REQUIRED'', er_route_decision = ''return_to_coder'', er_summary = ''s'',
     er_step_results = [\<lparr>st_step_id = ''S1'', st_verdict = ''fail'', st_claimed_pass = False, st_evidence = ''e'',
       st_notes = []\<rparr>],
     er_findings = [\<lparr>ef_finding_id = ''F1'', ef_severity = ''major'', ef_finding_class = ''plan'', ef_blocking = True,
       ef_route = ''planner'', ef_claim = ''c'', ef_evidence = ''e'', ef_expected = ''x'', ef_actual = ''y'',
       ef_required_action = ''z'', ef_step_id = Some ''S1'', ef_location = [], ef_suggested_check = []\<rparr>],
     er_integration_checks = [], er_regression_checks = [''r''], er_confidence = ''parsed:verdict'',
     er_eval_independence = Some [(''disjoint'', JBool False), (''stance'', JStr ''adversarial'')],
     er_unreported_slices = [''SLICE2'']\<rparr>"

lemma demo_wf: "flow_wf demo_flow" "report_wf demo_report"
  by (simp_all add: flow_wf_def demo_flow_def FLOW_STATUSES_def report_wf_def demo_report_def EVAL_VERDICTS_def
      ROUTE_DECISIONS_def step_wf_def STEP_VERDICTS_def finding_wf_def FINDING_SEVERITIES_def FINDING_CLASSES_def
      FINDING_ROUTES_def)

lemma demo_writes:
  "fst (write_flow_state IoOk ''flow.json'' demo_flow demo_fs) = Inr ()"
  "fst (write_eval_report IoOk ''eval.json'' demo_report demo_fs) = Inr ()"
  by (simp_all add: write_flow_state_def write_eval_report_def write_json_atomic_def)

theorem artifacts_roundtrip_witness:
  "load_flow_state ''flow.json'' (snd (write_flow_state IoOk ''flow.json'' demo_flow demo_fs)) = Inr demo_flow \<and>
   (\<exists>r'. load_eval_report ''eval.json'' (snd (write_eval_report IoOk ''eval.json'' demo_report demo_fs)) = Inr r' \<and>
      er_step_results r' = er_step_results demo_report \<and> er_findings r' = er_findings demo_report)"
proof
  have "write_flow_state IoOk ''flow.json'' demo_flow demo_fs =
      (Inr (), snd (write_flow_state IoOk ''flow.json'' demo_flow demo_fs))"
    using demo_writes(1) by (metis prod.collapse)
  then show "load_flow_state ''flow.json'' (snd (write_flow_state IoOk ''flow.json'' demo_flow demo_fs)) = Inr demo_flow"
    using artifacts_roundtrip demo_wf(1) by metis
  have "write_eval_report IoOk ''eval.json'' demo_report demo_fs =
      (Inr (), snd (write_eval_report IoOk ''eval.json'' demo_report demo_fs))"
    using demo_writes(2) by (metis prod.collapse)
  then have "load_eval_report ''eval.json'' (snd (write_eval_report IoOk ''eval.json'' demo_report demo_fs)) =
      Inr (demo_report\<lparr>er_eval_independence := map_option sorted_obj (er_eval_independence demo_report)\<rparr>)"
    using artifacts_roundtrip demo_wf(2) by metis
  then show "\<exists>r'. load_eval_report ''eval.json'' (snd (write_eval_report IoOk ''eval.json'' demo_report demo_fs)) = Inr r' \<and>
      er_step_results r' = er_step_results demo_report \<and> er_findings r' = er_findings demo_report"
    by (intro exI conjI, assumption) simp_all
qed

section \<open>The readers accept only well-formed artifacts\<close>

definition reader_exc :: "py_exc \<Rightarrow> bool" where
  "reader_exc e \<longleftrightarrow> exn_class e \<in> {ValueError, KeyError}"

lemma rbind_Inl: "rbind m k = Inl e \<longleftrightarrow> m = Inl e \<or> (\<exists>x. m = Inr x \<and> k x = Inl e)"
  by (auto simp: rbind_def split: sum.splits)

lemma reader_errors:
  "as_str v = Inl e \<Longrightarrow> reader_exc e" "as_int v = Inl e \<Longrightarrow> reader_exc e" "as_dict v = Inl e \<Longrightarrow> reader_exc e"
  "item d k = Inl e \<Longrightarrow> reader_exc e"
  by (auto simp: as_str_def as_int_def as_dict_def item_def reader_exc_def split: json.splits option.splits)

lemma rmap_errors: "rmap f xs = Inl e \<Longrightarrow> (\<And>x. f x = Inl e \<Longrightarrow> reader_exc e) \<Longrightarrow> reader_exc e"
  by (induction xs) (auto simp: rbind_Inl)

lemma rbind_reader:
  "rbind m k = Inl e \<Longrightarrow> (m = Inl e \<Longrightarrow> reader_exc e) \<Longrightarrow> (\<And>x. k x = Inl e \<Longrightarrow> reader_exc e) \<Longrightarrow> reader_exc e"
  by (auto simp: rbind_Inl)

lemma reader_list_errors:
  "as_str_tuple v = Inl e \<Longrightarrow> reader_exc e" "as_dict_list v = Inl e \<Longrightarrow> reader_exc e"
  by (cases v; auto simp: as_str_tuple_def reader_exc_def [of "Exn _ _"] intro: rmap_errors reader_errors)
     (cases v; auto simp: as_dict_list_def reader_exc_def [of "Exn _ _"] intro: rmap_errors reader_errors)

lemma reader_literal_error: "as_literal v allowed name = Inl e \<Longrightarrow> reader_exc e"
  unfolding as_literal_def
  by (elim rbind_reader) (auto simp: reader_exc_def [of "Exn _ _"] split: if_splits intro: reader_errors)

lemmas reader_intros = reader_errors reader_list_errors reader_literal_error

lemma step_from_json_error: "step_from_json d = Inl e \<Longrightarrow> reader_exc e"
  unfolding step_from_json_def by (elim rbind_reader reader_intros) simp_all

lemma optional_str_error: "(if v = JNull then Inr None else rbind (as_str v) (\<lambda>s. Inr (Some s))) = Inl e \<Longrightarrow> reader_exc e"
  by (auto simp: rbind_Inl split: if_splits intro: reader_errors)

lemma finding_from_json_error: "finding_from_json d = Inl e \<Longrightarrow> reader_exc e"
  unfolding finding_from_json_def Let_def by (elim rbind_reader reader_intros optional_str_error) simp_all

lemma report_from_json_error: "report_from_json d = Inl e \<Longrightarrow> reader_exc e"
  unfolding report_from_json_def
  by (elim rbind_reader reader_intros rmap_errors step_from_json_error finding_from_json_error) simp_all

lemma flow_from_json_error: "flow_from_json d = Inl e \<Longrightarrow> reader_exc e"
  unfolding flow_from_json_def by (elim rbind_reader reader_intros) simp_all

lemma as_literal_allowed: "as_literal v allowed name = Inr s \<Longrightarrow> s \<in> set allowed"
  by (auto simp: as_literal_def split: if_splits)

lemma step_from_json_wf: "step_from_json d = Inr s \<Longrightarrow> step_wf s"
  by (auto simp: step_from_json_def step_wf_def dest: as_literal_allowed)

lemma finding_from_json_wf: "finding_from_json d = Inr f \<Longrightarrow> finding_wf f"
  unfolding finding_from_json_def Let_def rbind_Inr finding_wf_def
  by (elim exE conjE) (drule as_literal_allowed, drule as_literal_allowed, drule as_literal_allowed, auto)

lemma rmap_all: "rmap f xs = Inr ys \<Longrightarrow> (\<And>x y. f x = Inr y \<Longrightarrow> P y) \<Longrightarrow> list_all P ys"
  by (induction xs arbitrary: ys) auto

lemma report_from_json_wf: "report_from_json d = Inr r \<Longrightarrow> report_wf r"
  unfolding report_from_json_def rbind_Inr report_wf_def
  by (elim exE conjE) (drule as_literal_allowed, drule as_literal_allowed,
      drule rmap_all [OF _ step_from_json_wf], assumption, drule rmap_all [OF _ finding_from_json_wf], assumption, auto)

lemma flow_from_json_wf: "flow_from_json d = Inr f \<Longrightarrow> flow_wf f"
  unfolding flow_from_json_def rbind_Inr flow_wf_def
  by (elim exE conjE) (drule as_literal_allowed, auto)

text \<open>C38: Whatever is on disk, loading an artifact gives one whose every literal is an allowed one, or
  raises \<open>OSError\<close>, \<open>ValueError\<close>, \<open>KeyError\<close> or \<open>TypeError\<close>: exactly the classes the
  read-back of the terminal state handles. A document that is not an object is never accepted.\<close>

theorem artifact_load_checked:
  "(case load_flow_state path fs of
      Inr f \<Rightarrow> flow_wf f \<and> (\<exists>kvs. map_of (fs_files fs) path = Some (Doc (JObj kvs)))
    | Inl e \<Rightarrow> exn_class e \<in> {OSError, ValueError, KeyError, TypeError}) \<and>
   (case load_eval_report path fs of
      Inr r \<Rightarrow> report_wf r \<and> (\<exists>kvs. map_of (fs_files fs) path = Some (Doc (JObj kvs)))
    | Inl e \<Rightarrow> exn_class e \<in> {OSError, ValueError, KeyError, TypeError})"
proof -
  have load: "case load_json path fs of Inr kvs \<Rightarrow> map_of (fs_files fs) path = Some (Doc (JObj kvs))
      | Inl e \<Rightarrow> exn_class e \<in> {OSError, ValueError, KeyError, TypeError}"
    by (auto simp: load_json_def not_subscriptable_def split: option.splits file_text.splits json.splits)
  show ?thesis
  proof (cases "load_json path fs")
    case (Inl e)
    with load show ?thesis by (simp add: load_flow_state_def load_eval_report_def)
  next
    case (Inr kvs)
    with load have doc: "map_of (fs_files fs) path = Some (Doc (JObj kvs))" by simp
    show ?thesis using Inr doc
      by (auto simp: load_flow_state_def load_eval_report_def split: sum.splits
          dest: flow_from_json_wf report_from_json_wf flow_from_json_error report_from_json_error simp: reader_exc_def)
  qed
qed

text \<open>The artifact writer is atomic: whichever system call fails, the file at the path is either the
  complete new document (the write returned) or what it was (it raised), and no other path changes. A
  temporary file is left behind exactly when the data could not be written, or when both the rename and
  the removal failed.\<close>

theorem write_atomic:
  "case write_json_atomic fault path payload fs of (res, fs') \<Rightarrow>
     (\<forall>p. p \<noteq> path \<longrightarrow> map_of (fs_files fs') p = map_of (fs_files fs) p) \<and>
     (if fault = IoOk then res = Inr () \<and> map_of (fs_files fs') path = Some (Doc payload)
      else (\<exists>msg. res = Inl (Exn OSError msg)) \<and> map_of (fs_files fs') path = map_of (fs_files fs) path) \<and>
     (fs_temps fs' \<noteq> fs_temps fs \<longleftrightarrow> fault = WriteFails \<or> fault = ReplaceAndUnlinkFail)"
  by (cases fault) (simp_all add: write_json_atomic_def map_of_update_other)

theorem write_atomic_witness:
  "map_of (fs_files (snd (write_json_atomic WriteFails ''a'' JNull demo_fs))) ''a'' = None \<and>
   fs_temps (snd (write_json_atomic WriteFails ''a'' JNull demo_fs)) \<noteq> []"
  using write_atomic [where fault = WriteFails and path = "''a''" and payload = JNull and fs = demo_fs] by (auto simp: demo_fs_def split: prod.splits)

section \<open>The parser fails closed\<close>

lemma run_p_alt: "t \<in> set (pat_run (p_alt p qs) s st) \<Longrightarrow> \<exists>q \<in> set (p # qs). t \<in> set (pat_run q s st)"
  by (induction p qs rule: p_alt.induct) auto

lemma no_group_seq: "no_group (p_seq ps) \<longleftrightarrow> list_all no_group ps"
  by (induction ps) auto

lemma step_tokens_upper:
  assumes "w \<in> fst ` set STEP_VERDICT_TOKENS" "py_lower v = py_lower w"
  shows "py_upper v \<in> fst ` set STEP_VERDICT_TOKENS"
proof -
  have "\<forall>w \<in> fst ` set STEP_VERDICT_TOKENS. \<forall>d \<in> set w. 65 \<le> (of_char d :: nat) \<and> (of_char d :: nat) \<le> 90"
    by (simp add: STEP_VERDICT_TOKENS_def)
  then have "py_upper v = w" using upper_of_lower [OF assms(2)] assms(1) by blast
  with assms(1) show ?thesis by simp
qed

lemma step_match_token:
  assumes "match_at STEP_LINE_RE s 0 = Some st"
  shows "\<exists>v. map_of STEP_VERDICT_TOKENS (py_upper (pat_group s st 2)) = Some v"
proof -
  let ?run = "\<lambda>p u. set (pat_run p s u)"
  let ?head = "PSeq (PStar p_space) (PSeq (p_in ''-*'') (PStar p_space))"
  let ?mid = "PSeq (PStar p_space) (PSeq (p_in '':-'') (PStar p_space))"
  let ?tail = "PSeq PWb (PSeq (PStar p_space) (PSeq (p_opt (p_in ''-:'')) (PStar p_space)))"
  let ?id = "PAlt (PSeq (p_ilit ''SLICE'') step_id_tail) (PSeq (p_ilit ''S'') step_id_tail)"
  let ?tok = "p_alt (p_ilit ''PASS'') [p_ilit ''FAIL'', p_ilit ''PARTIAL'']"
  from match_at_run [OF assms] obtain u1 u2 u3 u4 u5 u6
    where r: "u1 \<in> ?run ?head (0, [])" "u2 \<in> ?run (PGroup 1 ?id) u1" "u3 \<in> ?run ?mid u2"
      "u4 \<in> ?run (PGroup 2 ?tok) u3" "u5 \<in> ?run ?tail u4" "u6 \<in> ?run (PGroup 3 (PStar p_dot)) u5" "st \<in> ?run PEol u6"
    unfolding STEP_LINE_RE_def p_seq.simps set_run_seq by (simp only: pat_run.simps(1) list.set set_run_seq) blast
  have le: "fst u3 \<le> length s"
    using run_forward [OF r(1)] run_forward [OF r(2)] run_forward [OF r(3)] by simp
  from run_group [OF r(4)] obtain v where v: "v \<in> ?run ?tok u3" "u4 = (fst v, (2, fst u3, fst v) # snd v)" by blast
  from run_p_alt [OF v(1)] obtain w where w: "w \<in> fst ` set STEP_VERDICT_TOKENS" "v \<in> ?run (p_ilit w) u3"
    by (auto simp: STEP_VERDICT_TOKENS_def simp del: pat_run.simps)
  from run_ilit [OF w(2) le] obtain x where x: "spans s (fst u3) (fst v) x" "py_lower x = py_lower w" by blast
  have "snd u5 = snd u4" by (rule run_no_group [OF r(5)]) (simp add: p_opt_def p_in_def p_space_def)
  moreover from run_group [OF r(6)] obtain y where y: "y \<in> ?run (PStar p_dot) u5" "u6 = (fst y, (3, fst u5, fst y) # snd y)" by blast
  moreover have "snd y = snd u5" by (rule run_no_group [OF y(1)]) (simp add: p_dot_def)
  moreover have "st = u6" using r(7) by (simp split: if_splits)
  ultimately have "pat_group s st 2 = x" using v(2) x(1) by (simp add: pat_group_def spans_def)
  with step_tokens_upper [OF w(1) x(2)] show ?thesis by (metis image_iff map_of_eq_None_iff not_None_eq)
qed

lemma step_tokens_wf: "map_of STEP_VERDICT_TOKENS t = Some v \<Longrightarrow> v \<in> set STEP_VERDICTS \<and> v \<noteq> ''not_evaluated''"
  by (auto simp: STEP_VERDICT_TOKENS_def STEP_VERDICTS_def split: if_splits)

definition claims_ok :: "step_result list \<Rightarrow> bool" where
  "claims_ok rs \<longleftrightarrow> distinct (map st_step_id rs) \<and> list_all (\<lambda>r. step_wf r \<and> (st_claimed_pass r \<longleftrightarrow> st_verdict r = ''pass'')) rs"

lemma scan_steps_ok: "claims_ok rs \<Longrightarrow> \<exists>rs'. scan_steps lines rs = Inr rs' \<and> claims_ok rs'"
proof (induction lines arbitrary: rs)
  case (Cons line lines)
  show ?case
  proof (cases "match_at STEP_LINE_RE line 0")
    case (Some st)
    from step_match_token [OF this] obtain v where v: "map_of STEP_VERDICT_TOKENS (py_upper (pat_group line st 2)) = Some v" by blast
    show ?thesis
    proof (cases "pat_group line st 1 \<in> st_step_id ` set rs")
      case False
      have "claims_ok (rs @ [\<lparr>st_step_id = pat_group line st 1, st_verdict = v, st_claimed_pass = (v = ''pass''),
          st_evidence = py_strip (pat_group line st 3), st_notes = []\<rparr>])"
        using Cons.prems False step_tokens_wf [OF v] by (auto simp: claims_ok_def step_wf_def)
      from Cons.IH [OF this] show ?thesis using Some v False by (simp add: Let_def)
    qed (use Some Cons in \<open>simp add: Let_def\<close>)
  qed (use Cons in simp)
qed simp

lemma first_token_in: "first_token tok ls = Some t \<Longrightarrow> \<exists>l \<in> set ls. tok l = Some t"
  by (induction ls) (auto split: option.splits)

lemma scan_headers_in: "scan_headers h tok ls = Some t \<Longrightarrow> \<exists>l \<in> set ls. tok l = Some t"
proof (induction ls)
  case (Cons l ls)
  from Cons.prems consider "first_token tok (l # take 3 ls) = Some t" | "scan_headers h tok ls = Some t"
    by (auto split: if_splits option.splits)
  then show ?case
  proof cases
    case 1
    from first_token_in [OF this] show ?thesis using set_take_subset by fastforce
  qed (use Cons.IH in auto)
qed simp

lemma last_token_iff: "last_token tok ls = None \<longleftrightarrow> (\<forall>l \<in> set ls. tok l = None)"
  by (induction ls rule: rev_induct) (auto simp: last_token_def split: option.splits)

lemma last_token_in: "last_token tok ls = Some t \<Longrightarrow> \<exists>l \<in> set ls. tok l = Some t"
proof (induction ls rule: rev_induct)
  case (snoc l ls)
  have "last_token tok (ls @ [l]) = (case tok l of Some t \<Rightarrow> Some t | None \<Rightarrow> last_token tok ls)"
    unfolding last_token_def by simp
  with snoc show ?case by (auto split: option.splits)
qed (simp add: last_token_def)

lemma scan_tokens_in: "scan_tokens h tok text = Some t \<Longrightarrow> \<exists>l \<in> set (splitlines text). tok l = Some t"
  by (auto simp: scan_tokens_def Let_def split: option.splits dest: scan_headers_in last_token_in)

lemma scan_tokens_None: "scan_tokens h tok text = None \<longleftrightarrow> (\<forall>l \<in> set (splitlines text). tok l = None)"
proof -
  have "scan_headers h tok ls = Some t \<Longrightarrow> \<not> (\<forall>l \<in> set ls. tok l = None)" for ls t
    using scan_headers_in by fastforce
  then show ?thesis by (auto simp: scan_tokens_def Let_def last_token_iff split: option.splits)
qed

lemma verdict_token: "match_verdict_token l = Some v \<Longrightarrow> v \<in> set EVAL_VERDICTS \<and> py_in v (py_upper l)"
  using group_upper_in by (auto simp: match_verdict_token_def Let_def VALID_VERDICTS_def VERDICT_TO_ROUTE_def EVAL_VERDICTS_def
      split: option.splits if_splits)

lemma default_route: "v \<in> set EVAL_VERDICTS \<Longrightarrow> \<exists>r \<in> set ROUTE_DECISIONS. default_route_for_verdict v = Inr r"
  by (auto simp: EVAL_VERDICTS_def default_route_for_verdict_def VERDICT_TO_ROUTE_def ROUTE_DECISIONS_def)

text \<open>C19: The parser of the evaluator's message never raises and fails closed. It always returns a
  well-formed report whose route is the one its verdict implies, whatever route the message names; a
  message in which no line carries a verdict token is \<open>BLOCKED\<close>, and a verdict other than that appears
  literally (in any case) on some line of the message. Step ids are listed once, and a step is claimed as
  passed only when its verdict is \<open>pass\<close>.\<close>

theorem parse_eval_report_fails_closed:
  "\<exists>r. parse_eval_report (Some text) run_id plan_id evaluation_id version independence = Inr r \<and>
     report_wf r \<and> default_route_for_verdict (er_verdict r) = Inr (er_route_decision r) \<and>
     ((\<forall>l \<in> set (splitlines text). match_verdict_token l = None) \<longleftrightarrow> er_confidence r = ''parsed:none'') \<and>
     (er_confidence r = ''parsed:none'' \<longrightarrow> er_verdict r = ''BLOCKED'') \<and>
     (er_verdict r \<noteq> ''BLOCKED'' \<longrightarrow> (\<exists>l \<in> set (splitlines text). py_in (er_verdict r) (py_upper l))) \<and>
     claims_ok (er_step_results r)"
proof -
  obtain rs where rs: "scan_step_results text = Inr rs" and ok: "claims_ok rs"
    using scan_steps_ok [of "[]" "splitlines text"] by (auto simp: scan_step_results_def claims_ok_def)
  then have wf: "list_all step_wf rs" by (auto simp: claims_ok_def list_all_iff)
  show ?thesis
  proof (cases "scan_verdict text")
    case None
    then have none: "\<forall>l \<in> set (splitlines text). match_verdict_token l = None"
      by (simp add: scan_verdict_def scan_tokens_None)
    show ?thesis
      using None rs ok wf none
      by (simp add: parse_eval_report_def report_wf_def EVAL_VERDICTS_def ROUTE_DECISIONS_def
          default_route_for_verdict_def VERDICT_TO_ROUTE_def)
  next
    case (Some v)
    from scan_tokens_in [OF Some [unfolded scan_verdict_def]] obtain l
      where l: "l \<in> set (splitlines text)" "match_verdict_token l = Some v" by blast
    from verdict_token [OF l(2)] have v: "v \<in> set EVAL_VERDICTS" "py_in v (py_upper l)" by auto
    from default_route [OF v(1)] obtain d where d: "d \<in> set ROUTE_DECISIONS" "default_route_for_verdict v = Inr d" by blast
    have conf: "(if c then ''parsed:contract'' else ''parsed:verdict'') \<noteq> ''parsed:none''" for c by simp
    show ?thesis
      using Some rs ok wf v l d
      by (auto simp: parse_eval_report_def report_wf_def Let_def conf intro!: bexI [of _ l])
  qed
qed

theorem parse_eval_report_fails_closed_witness:
  "\<exists>r. parse_eval_report (Some []) ''r1'' ''p'' ''r1-eval'' 1 None = Inr r \<and> er_verdict r = ''BLOCKED'' \<and>
     default_route_for_verdict ''BLOCKED'' = Inr (er_route_decision r)"
proof -
  from parse_eval_report_fails_closed [of "[]" "''r1''" "''p''" "''r1-eval''" 1 None]
  obtain r where r: "parse_eval_report (Some []) ''r1'' ''p'' ''r1-eval'' 1 None = Inr r"
      "default_route_for_verdict (er_verdict r) = Inr (er_route_decision r)"
      "er_confidence r = ''parsed:none''" "er_confidence r = ''parsed:none'' \<longrightarrow> er_verdict r = ''BLOCKED''"
    by (auto simp: splitlines_def)
  then show ?thesis by (intro exI [of _ r]) auto
qed

text \<open>The verdict of a header line is its last token, so a sentence about the tests decides it; and
  a line of prose that starts with a verdict word overrides an earlier verdict line. Both messages say
  \<open>BLOCKED\<close> and are read as \<open>PASS\<close>.\<close>

theorem verdict_misread:
  "scan_verdict ''### Verdict: BLOCKED, not a pass'' = Some ''PASS'' \<and>
   scan_verdict (''verdict: BLOCKED'' @ [CHR 0x0A] @ ''Pass it on'') = Some ''PASS''"
  by code_simp

end
