(* ===== verification/Plan_Ids.thy ===== *)
theory Plan_Ids
  imports Py_Match
begin

text \<open>
  Plan artifacts (\<open>inner_loop/plan_ids.py\<close>): slice, gap, contract and test ids, the verification
  commands of fenced \<open>verify\<close> blocks, one record per slice section, and the declared plan id.
  Patterns are written in the order of the source's regular expressions.
\<close>

section \<open>Patterns\<close>

definition p_blank :: pat where "p_blank = p_in [CHR 0x20, CHR 0x09]"

text \<open>\<open>\d+[a-z]?\<close> as group 1.\<close>

definition id_number :: pat where
  "id_number = PGroup 1 (PSeq (p_plus p_digit) (p_opt (PChar ascii_lower_letter)))"

definition SLICE_RE :: pat where
  "SLICE_RE = p_seq [PBol, p_lit ''##'', p_opt (PSeq (p_lit ''#'') (p_opt (p_lit ''#''))),
     p_plus p_space, p_lit ''SLICE'', id_number, PStar p_space, p_lit '':'']"

definition CONTRACT_CLASS_RE :: pat where
  "CONTRACT_CLASS_RE = p_seq [PWb, p_lit ''CT'', id_number, PStar p_space, p_lit ''['',
     PGroup 2 (p_alt (p_lit ''FUNCTIONAL'') [p_lit ''CONSTRAINT'', p_lit ''PRESERVATION'']), p_lit '']'']"

definition STEPS_MODE_RE :: pat where
  "STEPS_MODE_RE = p_seq [PBol, p_lit ''STEPS:'', PStar p_space,
     PGroup 1 (PAlt (p_lit ''prescriptive'') (p_lit ''outcome'')), PWb]"

definition field_line_re :: "string \<Rightarrow> pat" where
  "field_line_re name = p_seq [PBol, p_lit name, PStar p_space, PGroup 1 (p_plus p_dot), PEol]"

definition TESTS_LINE_RE :: pat where "TESTS_LINE_RE = field_line_re ''TESTS:''"
definition INTENT_LINE_RE :: pat where "INTENT_LINE_RE = field_line_re ''INTENT:''"

definition bare_id_re :: "string \<Rightarrow> pat" where
  "bare_id_re name = p_seq [PWb, p_lit name, id_number, PWb]"

definition GAP_RE :: pat where "GAP_RE = bare_id_re ''GAP''"
definition CONTRACT_RE :: pat where "CONTRACT_RE = bare_id_re ''CT''"
definition TEST_RE :: pat where "TEST_RE = bare_id_re ''T''"

definition PLAN_ID_RE :: pat where
  "PLAN_ID_RE = p_seq [PBol, PLazy p_dot, p_lit ''Plan-ID:'', PStar p_space, PStar (p_lit ''*''), PStar p_space,
     p_opt (p_lit ''`''),
     PGroup 1 (PSeq (PChar ascii_alnum) (PStar (PChar (\<lambda>c. ascii_alnum c \<or> c \<in> set ''._-'')))),
     p_opt (p_lit ''`'')]"

definition VERIFY_BLOCK_RE :: pat where
  "VERIFY_BLOCK_RE = p_seq [PBol, PStar p_blank, p_lit ''```'', PStar p_blank, p_lit ''verify'', PStar p_blank,
     p_lit [CHR 0x0A], PGroup 1 (PLazy p_any), PBol, PStar p_blank, p_lit ''```'']"

section \<open>Extraction\<close>

record slice_record =
  sl_slice_id :: string
  sl_intent :: string
  sl_contracts :: "(string \<times> string \<times> string) list"
  sl_test_paths :: "string list"
  sl_steps_mode :: string
  sl_commands :: "string list"
  sl_section :: string

record plan_ids =
  pi_slices :: "string list"
  pi_gaps :: "string list"
  pi_contracts :: "string list"
  pi_tests :: "string list"
  pi_commands :: "string list"
  pi_slice_records :: "slice_record list"

definition plan_ids_empty :: plan_ids where
  "plan_ids_empty = \<lparr>pi_slices = [], pi_gaps = [], pi_contracts = [], pi_tests = [], pi_commands = [],
     pi_slice_records = []\<rparr>"

definition is_empty :: "plan_ids \<Rightarrow> bool" where
  "is_empty p = (pi_slices p = [] \<and> pi_gaps p = [] \<and> pi_contracts p = [] \<and> pi_tests p = [] \<and> pi_commands p = [])"

text \<open>\<open>str.isdigit\<close> of one Latin-1 character also holds of the superscripts 1, 2 and 3.\<close>

definition py_isdigit :: "char \<Rightarrow> bool" where
  "py_isdigit c = (is_digit c \<or> (of_char c :: nat) \<in> {178, 179, 185})"

definition canonical_slice_id :: "string \<Rightarrow> string" where
  "canonical_slice_id raw =
     (let text = py_strip raw; low = py_lower text
      in if prefix ''slice'' low then ''SLICE'' @ drop 5 text
         else if prefix ''s'' low \<and> length text > 1 \<and> py_isdigit (text ! 1) then ''SLICE'' @ drop 1 text
         else text)"

definition command_lines :: "string \<Rightarrow> string list" where
  "command_lines block = filter (\<lambda>line. line \<noteq> [] \<and> \<not> prefix ''#'' line) (map py_strip (splitlines block))"

definition extract_commands :: "string \<Rightarrow> string list" where
  "extract_commands text = ordered_unique (concat (map command_lines (findall1 VERIFY_BLOCK_RE text)))"

fun section_texts :: "string \<Rightarrow> (nat \<times> mstate) list \<Rightarrow> (string \<times> string) list" where
  "section_texts text [] = []"
| "section_texts text ((a, st) # ms) =
     (''SLICE'' @ pat_group text st 1,
      take ((case ms of [] \<Rightarrow> length text | (b, _) # _ \<Rightarrow> b) - a) (drop a text)) # section_texts text ms"

definition slice_sections :: "string \<Rightarrow> (string \<times> string) list" where
  "slice_sections text = section_texts text (finditer SLICE_RE text)"

definition test_paths :: "string \<Rightarrow> string list" where
  "test_paths line = ordered_unique (map (py_strip_chars '',;'')
     (takeWhile (\<lambda>t. \<not> (prefix ''('' t \<or> prefix ''#'' t)) (py_words line)))"

text \<open>\<open>line.split("]:", 1)[1]\<close> when \<open>"]:" in line\<close>: what follows the first occurrence.\<close>

fun after_first :: "string \<Rightarrow> string \<Rightarrow> string option" where
  "after_first pat [] = (if pat = [] then Some [] else None)"
| "after_first pat (c # s) = (if prefix pat (c # s) then Some (drop (length pat) (c # s)) else after_first pat s)"

definition contract_text :: "string \<Rightarrow> string" where
  "contract_text line = (case after_first '']:'' line of Some rest \<Rightarrow> py_strip rest | None \<Rightarrow> [])"

fun contracts_of_line ::
  "(string \<Rightarrow> string option) \<Rightarrow> string \<Rightarrow> string list \<Rightarrow> (string \<times> string \<times> string) list
     \<Rightarrow> (string \<times> string \<times> string) list" where
  "contracts_of_line classes line [] out = out"
| "contracts_of_line classes line (n # ns) out =
     (let cid = ''CT'' @ n in
      contracts_of_line classes line ns
        (if cid \<in> fst ` set out then out
         else out @ [(cid, (case classes n of Some c \<Rightarrow> c | None \<Rightarrow> ''FUNCTIONAL''), contract_text line)]))"

definition section_contracts :: "string \<Rightarrow> (string \<times> string \<times> string) list" where
  "section_contracts sec =
     (let classes = map_of (rev (map (\<lambda>(a, st). (pat_group sec st 1, pat_group sec st 2))
                                   (finditer CONTRACT_CLASS_RE sec)))
      in fold (\<lambda>line out. contracts_of_line classes line (findall1 CONTRACT_RE line) out) (splitlines sec) [])"

definition build_record :: "string \<Rightarrow> string \<Rightarrow> slice_record" where
  "build_record slice_id sec =
     \<lparr>sl_slice_id = slice_id,
      sl_intent = (case search_from INTENT_LINE_RE sec 0 of
          Some (_, st) \<Rightarrow> py_strip (pat_group sec st 1) | None \<Rightarrow> []),
      sl_contracts = section_contracts sec,
      sl_test_paths = (case search_from TESTS_LINE_RE sec 0 of
          Some (_, st) \<Rightarrow> test_paths (pat_group sec st 1) | None \<Rightarrow> []),
      sl_steps_mode = (case search_from STEPS_MODE_RE sec 0 of
          Some (_, st) \<Rightarrow> pat_group sec st 1 | None \<Rightarrow> ''prescriptive''),
      sl_commands = extract_commands sec,
      sl_section = sec\<rparr>"

text \<open>A text that is not a \<open>str\<close> is \<open>None\<close>.\<close>

definition extract_plan_ids :: "string option \<Rightarrow> plan_ids" where
  "extract_plan_ids t =
     (case t of
        None \<Rightarrow> plan_ids_empty
      | Some text \<Rightarrow>
          (if text = [] then plan_ids_empty
           else let records = map (\<lambda>(sid, sec). build_record sid sec) (slice_sections text)
                in \<lparr>pi_slices = ordered_unique (map sl_slice_id records),
                    pi_gaps = ordered_unique (map (\<lambda>n. ''GAP'' @ n) (findall1 GAP_RE text)),
                    pi_contracts = ordered_unique (map (\<lambda>n. ''CT'' @ n) (findall1 CONTRACT_RE text)),
                    pi_tests = ordered_unique (map (\<lambda>n. ''T'' @ n) (findall1 TEST_RE text)),
                    pi_commands = extract_commands text,
                    pi_slice_records = records\<rparr>))"

definition extract_plan_id :: "string option \<Rightarrow> string option" where
  "extract_plan_id t =
     (let text = (case t of None \<Rightarrow> [] | Some s \<Rightarrow> s)
      in case search_from PLAN_ID_RE text 0 of
           None \<Rightarrow> None
         | Some (_, st) \<Rightarrow> (let pid = py_strip (pat_group text st 1) in if pid = [] then None else Some pid))"

section \<open>Commands come from fenced blocks only\<close>

abbreviation blank_char :: "char \<Rightarrow> bool" where "blank_char c \<equiv> c \<in> set [CHR 0x20, CHR 0x09]"

definition verify_fence :: "string \<Rightarrow> string \<Rightarrow> bool" where
  "verify_fence text body \<longleftrightarrow>
     (\<exists>pre b1 b2 b3 b4 post.
        text = pre @ b1 @ ''```'' @ b2 @ ''verify'' @ b3 @ [CHR 0x0A] @ body @ b4 @ ''```'' @ post \<and>
        (pre = [] \<or> last pre = CHR 0x0A) \<and> list_all blank_char (b1 @ b2 @ b3 @ b4))"

lemma run_bol: "t \<in> set (pat_run PBol s st) \<Longrightarrow> t = st \<and> (fst st = 0 \<or> s ! (fst st - 1) = CHR 0x0A)"
  by (auto split: if_splits)

lemma bol_last: "i \<le> length s \<Longrightarrow> i = 0 \<or> s ! (i - 1) = c \<Longrightarrow> take i s = [] \<or> last (take i s) = c"
  by (cases i) (auto simp: take_Suc_conv_app_nth)

lemma run_blanks:
  "t \<in> set (pat_run (PStar p_blank) s st) \<Longrightarrow> fst st \<le> length s \<Longrightarrow>
     \<exists>w. spans s (fst st) (fst t) w \<and> list_all blank_char w \<and> snd t = snd st"
  unfolding p_blank_def p_in_def by (rule run_star)

lemma verify_match:
  assumes a: "a \<le> length s" and m: "match_at VERIFY_BLOCK_RE s a = Some st"
  shows "verify_fence s (pat_group s st 1)"
proof -
  let ?run = "\<lambda>p u. set (pat_run p s u)"
  from match_at_run [OF m] obtain u1 u2 u3 u4 u5 u6 u7 u8 u9
    where r: "u1 \<in> ?run PBol (a, [])" "u2 \<in> ?run (PStar p_blank) u1" "u3 \<in> ?run (p_lit ''```'') u2"
      "u4 \<in> ?run (PStar p_blank) u3" "u5 \<in> ?run (p_lit ''verify'') u4" "u6 \<in> ?run (PStar p_blank) u5"
      "u7 \<in> ?run (p_lit [CHR 0x0A]) u6" "u8 \<in> ?run (PGroup 1 (PLazy p_any)) u7" "u9 \<in> ?run PBol u8"
      "\<exists>u10 \<in> ?run (PStar p_blank) u9. st \<in> ?run (p_lit ''```'') u10"
    unfolding VERIFY_BLOCK_RE_def p_seq.simps set_run_seq by (simp only: pat_run.simps(1) list.set) blast
  from r(10) obtain u10 where r10: "u10 \<in> ?run (PStar p_blank) u9" "st \<in> ?run (p_lit ''```'') u10" by blast
  from run_bol [OF r(1)] have u1: "u1 = (a, [])" and bol: "a = 0 \<or> s ! (a - 1) = CHR 0x0A" by auto
  from run_blanks [OF r(2)] a u1 obtain b1 where b1: "spans s a (fst u2) b1" "list_all blank_char b1" "snd u2 = []" by auto
  note l2 = conjunct2 [OF spans_le [OF b1(1)]]
  from run_lit [OF r(3) l2] b1 have f1: "spans s (fst u2) (fst u3) ''```''" "snd u3 = []" by simp_all
  note l3 = conjunct2 [OF spans_le [OF f1(1)]]
  from run_blanks [OF r(4) l3] f1 obtain b2 where b2: "spans s (fst u3) (fst u4) b2" "list_all blank_char b2" "snd u4 = []" by auto
  note l4 = conjunct2 [OF spans_le [OF b2(1)]]
  from run_lit [OF r(5) l4] b2 have f2: "spans s (fst u4) (fst u5) ''verify''" "snd u5 = []" by simp_all
  note l5 = conjunct2 [OF spans_le [OF f2(1)]]
  from run_blanks [OF r(6) l5] f2 obtain b3 where b3: "spans s (fst u5) (fst u6) b3" "list_all blank_char b3" "snd u6 = []" by auto
  note l6 = conjunct2 [OF spans_le [OF b3(1)]]
  from run_lit [OF r(7) l6] b3 have f3: "spans s (fst u6) (fst u7) [CHR 0x0A]" "snd u7 = []" by simp_all
  note l7 = conjunct2 [OF spans_le [OF f3(1)]]
  from run_group [OF r(8)] obtain v where v: "v \<in> ?run (PLazy p_any) u7" "u8 = (fst v, (1, fst u7, fst v) # snd v)" by blast
  from run_star_lazy [OF v(1) [unfolded p_any_def pat_run.simps(6)] l7]
  obtain body where body: "spans s (fst u7) (fst v) body" by blast
  from run_bol [OF r(9)] have u9: "u9 = u8" by simp
  note l8 = conjunct2 [OF spans_le [OF body]]
  from run_blanks [OF r10(1)] l8 u9 v obtain b4
    where b4: "spans s (fst v) (fst u10) b4" "list_all blank_char b4" "snd u10 = snd u8" by auto
  note l10 = conjunct2 [OF spans_le [OF b4(1)]]
  from run_lit [OF r10(2) l10] have f4: "spans s (fst u10) (fst st) ''```''" "snd st = snd u10" by simp_all
  have g: "pat_group s st 1 = body"
    using f4(2) b4(3) v(2) body by (simp add: pat_group_def spans_def)
  have "spans s a (fst st) (b1 @ ''```'' @ b2 @ ''verify'' @ b3 @ [CHR 0x0A] @ body @ b4 @ ''```'')"
    by (rule spans_append [OF b1(1) spans_append [OF f1(1) spans_append [OF b2(1) spans_append [OF f2(1)
          spans_append [OF b3(1) spans_append [OF f3(1) spans_append [OF body spans_append [OF b4(1) f4(1)]]]]]]]])
  note eq = spans_split [OF this, unfolded append_assoc]
  have blanks: "list_all blank_char (b1 @ b2 @ b3 @ b4)" using b1(2) b2(2) b3(2) b4(2) by (simp only: list_all_append)
  show ?thesis unfolding verify_fence_def g
    by (intro exI conjI, rule eq, rule bol_last [OF a bol], rule blanks)
qed


definition demo_verify_plan :: string where
  "demo_verify_plan = ''run rm -rf'' @ [CHR 0x0A] @ ''```verify'' @ [CHR 0x0A] @ '' ls'' @ [CHR 0x0A] @ ''```''"

lemma demo_verify_commands: "extract_commands demo_verify_plan = [''ls'']"
  by code_simp


section \<open>Slice ids\<close>

lemma strip_idem_suffix:
  assumes "u \<noteq> []" "\<not> py_space (hd u)" "w = [] \<or> \<not> py_space (last w)" "\<not> py_space (last u)"
  shows "py_strip (u @ w) = u @ w"
proof -
  have l: "py_lstrip (u @ w) = u @ w" using assms by (cases u) (auto simp: py_lstrip_def)
  have "dropWhile py_space (rev (u @ w)) = rev (u @ w)"
    using assms by (cases w rule: rev_cases; cases u rule: rev_cases) auto
  then show ?thesis by (simp add: py_strip_def py_rstrip_def l)
qed

lemma strip_last: "py_strip s = [] \<or> \<not> py_space (last (py_strip s))"
proof (cases "dropWhile py_space (rev (py_lstrip s))")
  case (Cons c r)
  then have "\<not> py_space c" by (simp add: dropWhile_eq_Cons_conv)
  with Cons show ?thesis by (simp add: py_strip_def py_rstrip_def)
qed (simp add: py_strip_def py_rstrip_def)

lemma strip_idem: "py_strip (py_strip s) = py_strip s"
proof (cases "py_strip s")
  case (Cons c r)
  have "\<not> py_space c"
  proof -
    obtain z where z: "py_lstrip s = py_strip s @ z"
      unfolding py_strip_def py_rstrip_def
      by (metis append_Nil2 rev_append rev_rev_ident takeWhile_dropWhile_id)
    with Cons have "py_lstrip s = c # r @ z" by simp
    then show ?thesis by (simp add: py_lstrip_def dropWhile_eq_Cons_conv)
  qed
  with Cons strip_last [of s] strip_idem_suffix [of "[c]" r] show ?thesis
    by (cases "r = []") (auto simp: py_strip_def py_rstrip_def py_lstrip_def)
qed (simp only: py_strip_def py_rstrip_def py_lstrip_def, simp)

lemma SLICE_prefix_canonical: "w = [] \<or> \<not> py_space (last w) \<Longrightarrow> canonical_slice_id (''SLICE'' @ w) = ''SLICE'' @ w"
proof -
  assume "w = [] \<or> \<not> py_space (last w)"
  moreover have "\<not> py_space (hd ''SLICE'')" "\<not> py_space (last ''SLICE'')" by (simp_all add: py_space_def)
  ultimately have "py_strip (''SLICE'' @ w) = ''SLICE'' @ w" by (intro strip_idem_suffix) simp_all
  moreover have "prefix ''slice'' (py_lower (''SLICE'' @ w))"
  proof -
    have "py_lower ''SLICE'' = ''slice''" by code_simp
    then have "py_lower (''SLICE'' @ w) = ''slice'' @ py_lower w" unfolding py_lower_def map_append by simp
    then show ?thesis by (simp only: prefix_def) blast
  qed
  ultimately show ?thesis by (simp add: canonical_slice_id_def Let_def)
qed

lemma last_drop_strip: "drop n (py_strip s) = [] \<or> \<not> py_space (last (drop n (py_strip s)))"
  using strip_last [of s] by (cases "drop n (py_strip s) = []") (auto simp: last_drop)

lemma canonical_slice_id_idem: "canonical_slice_id (canonical_slice_id s) = canonical_slice_id s"
proof (cases "\<exists>n. canonical_slice_id s = ''SLICE'' @ drop n (py_strip s)")
  case True
  then obtain n where "canonical_slice_id s = ''SLICE'' @ drop n (py_strip s)" by blast
  then show ?thesis using SLICE_prefix_canonical [OF last_drop_strip [of n s]] by simp
next
  case False
  then have n: "\<not> prefix ''slice'' (py_lower (py_strip s))"
    "\<not> (prefix ''s'' (py_lower (py_strip s)) \<and> length (py_strip s) > 1 \<and> py_isdigit (py_strip s ! 1))"
    unfolding canonical_slice_id_def Let_def by (metis, metis)
  then have "canonical_slice_id s = py_strip s" unfolding canonical_slice_id_def Let_def by (metis (full_types))
  moreover have "canonical_slice_id (py_strip s) = py_strip s"
    using n unfolding canonical_slice_id_def Let_def strip_idem by (metis (full_types))
  ultimately show ?thesis by simp
qed

text \<open>A blank field line reads the next line: \<open>\s*\<close> in the field patterns also consumes line breaks.\<close>

lemma blank_tests_field_reads_next_line:
  "sl_test_paths (build_record ''SLICE1'' (''TESTS:'' @ [CHR 0x0A] @ ''INTENT: x'')) = [''INTENT:'', ''x'']"
  by code_simp

end
