(* ===== verification/Injections.thy ===== *)
theory Injections
  imports Config
begin

text \<open>
  Prompt-injection modes (\<open>inner_loop/injections.py\<close>): the registry, the resolution of a mode from
  \<open>--inject\<close>, the configuration file and the default, and the parser of the \<open>--inject\<close> arguments.

  A \<open>config_source\<close> is the configuration path given by the caller, if any, with what reading that
  file yields. \<open>read_flag\<close> is a field selector, so its \<open>AttributeError\<close> branch cannot occur.
\<close>

definition MODE_OFF :: string where "MODE_OFF = ''off''"
definition MODE_OBSERVE :: string where "MODE_OBSERVE = ''observe''"
definition MODE_ENFORCE :: string where "MODE_ENFORCE = ''enforce''"
definition INJECTION_MODES :: "string list" where "INJECTION_MODES = [MODE_OFF, MODE_OBSERVE, MODE_ENFORCE]"
definition FALLBACK_MODE :: string where "FALLBACK_MODE = MODE_OBSERVE"

record injection_spec =
  is_name :: string
  is_roles :: "string list"
  is_read_flag :: "feature_flags \<Rightarrow> string"
  is_summary :: string

definition CODER_SLICE_CEREMONY :: injection_spec where
  "CODER_SLICE_CEREMONY = \<lparr>is_name = ''coder_slice_ceremony'', is_roles = [''coder''],
     is_read_flag = ff_coder_slice_ceremony_mode,
     is_summary = ''Per-slice implementation ceremony (before-gate, edit packet, after-gate).''\<rparr>"

definition INJECTION_SPECS :: "(string, injection_spec) pydict" where
  "INJECTION_SPECS = [(is_name CODER_SLICE_CEREMONY, CODER_SLICE_CEREMONY)]"

type_synonym config_source = "string option \<times> string option py_result"

definition normalize_mode :: "string \<Rightarrow> string" where
  "normalize_mode v = (let candidate = py_lower (py_strip v)
     in if candidate \<notin> set INJECTION_MODES then FALLBACK_MODE else candidate)"

definition load_flags :: "config_source \<Rightarrow> feature_flags option" where
  "load_flags cfg = (case load_feature_flags_from_path (snd cfg) of Inr (flags, _) \<Rightarrow> Some flags | Inl _ \<Rightarrow> None)"

definition resolve_mode :: "injection_spec \<Rightarrow> string \<Rightarrow> config_source \<Rightarrow> string" where
  "resolve_mode spec role cfg =
     (if role \<notin> set (is_roles spec) then MODE_OFF
      else case load_flags cfg of
        None \<Rightarrow> FALLBACK_MODE
      | Some flags \<Rightarrow> normalize_mode (is_read_flag spec flags))"

definition inject_error :: "string \<Rightarrow> py_exc" where
  "inject_error msg = Exn (OtherError ''InjectionFlagError'') msg"

definition known_injections :: string where
  "known_injections = string_list_repr (sort (map fst INJECTION_SPECS))"

fun parse_overrides :: "string list \<Rightarrow> (string, string) pydict \<Rightarrow> (string, string) pydict py_result" where
  "parse_overrides [] overrides = Inr overrides"
| "parse_overrides (raw # rest) overrides =
     (let text = py_strip raw;
          name = py_strip (fst (py_partition1 (CHR ''='') text));
          mode_text = snd (py_partition1 (CHR ''='') text);
          mode = py_lower (py_strip mode_text)
      in if CHR ''='' \<notin> set text
         then Inl (inject_error (''--inject expects <name>=<mode>, got '' @ py_repr raw @ ''. Known injections: '' @
                known_injections @ ''.''))
         else if name \<notin> fst ` set INJECTION_SPECS
         then Inl (inject_error (''--inject: unknown injection '' @ py_repr name @ ''. Known: '' @ known_injections @ ''.''))
         else if mode \<notin> set INJECTION_MODES
         then Inl (inject_error (''--inject '' @ name @ '': unknown mode '' @ py_repr (py_strip mode_text) @
                ''. Valid modes: '' @ string_list_repr (sort INJECTION_MODES) @ ''.''))
         else if name \<in> fst ` set overrides
         then Inl (inject_error (''--inject: '' @ py_repr name @ '' given more than once.''))
         else parse_overrides rest (AList.update name mode overrides))"

definition parse_inject_overrides :: "string list \<Rightarrow> (string, string) pydict py_result" where
  "parse_inject_overrides values = parse_overrides values []"

definition SOURCE_FLAG :: string where "SOURCE_FLAG = ''--inject flag''"
definition SOURCE_DEFAULT :: string where "SOURCE_DEFAULT = ''default ('' @ FALLBACK_MODE @ '')''"
definition SOURCE_ROLE_GATED :: string where "SOURCE_ROLE_GATED = ''role-gated (off)''"

definition source_config :: "config_source \<Rightarrow> string" where
  "source_config cfg = ''config ('' @ (case fst cfg of Some p \<Rightarrow> p | None \<Rightarrow> ''~/.fa/config.yaml'') @ '')''"

definition config_declares :: "injection_spec \<Rightarrow> config_source \<Rightarrow> bool" where
  "config_declares spec cfg = (case load_flags cfg of
     None \<Rightarrow> False | Some flags \<Rightarrow> is_read_flag spec flags \<noteq> is_read_flag spec default_flags)"

record injection_status =
  ij_name :: string
  ij_role :: string
  ij_mode :: string
  ij_source :: string
  ij_summary :: string

definition explain_one :: "string \<Rightarrow> (string, string) pydict \<Rightarrow> config_source \<Rightarrow> string \<times> injection_spec \<Rightarrow> string \<times> injection_status" where
  "explain_one role supplied cfg entry =
     (case entry of (name, spec) \<Rightarrow>
       (let (mode, source) =
          (if role \<notin> set (is_roles spec) then (MODE_OFF, SOURCE_ROLE_GATED)
           else case map_of supplied name of
             Some override \<Rightarrow> (normalize_mode override, SOURCE_FLAG)
           | None \<Rightarrow> (resolve_mode spec role cfg,
                      if config_declares spec cfg then source_config cfg else SOURCE_DEFAULT))
        in (name, \<lparr>ij_name = name, ij_role = role, ij_mode = mode, ij_source = source, ij_summary = is_summary spec\<rparr>)))"

definition explain_injection_modes ::
  "string \<Rightarrow> (string, string) pydict \<Rightarrow> config_source \<Rightarrow> (string, injection_status) pydict" where
  "explain_injection_modes role supplied cfg = map (explain_one role supplied cfg) INJECTION_SPECS"

definition resolve_injection_modes ::
  "string \<Rightarrow> (string, string) pydict \<Rightarrow> config_source \<Rightarrow> (string, string) pydict" where
  "resolve_injection_modes role supplied cfg =
     map (\<lambda>(name, status). (name, ij_mode status)) (explain_injection_modes role supplied cfg)"

definition mode_for :: "(string, string) pydict option \<Rightarrow> string \<Rightarrow> string" where
  "mode_for modes name = (case modes of
     None \<Rightarrow> MODE_OFF
   | Some m \<Rightarrow> (case map_of m name of None \<Rightarrow> MODE_OFF | Some v \<Rightarrow> normalize_mode v))"

definition is_active :: "(string, string) pydict option \<Rightarrow> string \<Rightarrow> bool" where
  "is_active modes name = (mode_for modes name = MODE_ENFORCE)"

definition is_observed :: "(string, string) pydict option \<Rightarrow> string \<Rightarrow> bool" where
  "is_observed modes name = (mode_for modes name \<in> {MODE_OBSERVE, MODE_ENFORCE})"

section \<open>Properties\<close>

lemmas mode_defs = MODE_OFF_def MODE_OBSERVE_def MODE_ENFORCE_def INJECTION_MODES_def FALLBACK_MODE_def

lemma normalize_mode_range: "normalize_mode v \<in> set INJECTION_MODES"
  by (simp add: normalize_mode_def Let_def FALLBACK_MODE_def INJECTION_MODES_def)

lemma normalize_mode_enforce: "normalize_mode v = MODE_ENFORCE \<longleftrightarrow> py_lower (py_strip v) = ''enforce''"
  by (auto simp: normalize_mode_def Let_def mode_defs)

lemma normalize_valid: "m \<in> set INJECTION_MODES \<Longrightarrow> normalize_mode m = m"
proof -
  assume "m \<in> set INJECTION_MODES"
  then have "m = ''off'' \<or> m = ''observe'' \<or> m = ''enforce''" by (simp add: mode_defs)
  moreover have "normalize_mode ''off'' = ''off''" "normalize_mode ''observe'' = ''observe''"
    "normalize_mode ''enforce'' = ''enforce''" by code_simp+
  ultimately show ?thesis by blast
qed

lemma parse_overrides_ok:
  "parse_overrides values acc = Inr ov \<Longrightarrow>
     dict_wf acc \<and> (\<forall>(n, m) \<in> set acc. n \<in> fst ` set INJECTION_SPECS \<and> m \<in> set INJECTION_MODES) \<Longrightarrow>
     dict_wf ov \<and> (\<forall>(n, m) \<in> set ov. n \<in> fst ` set INJECTION_SPECS \<and> m \<in> set INJECTION_MODES)"
proof (induction "values" acc rule: parse_overrides.induct)
  case (2 raw rest acc)
  let ?text = "py_strip raw"
  let ?name = "py_strip (fst (py_partition1 (CHR ''='') ?text))"
  let ?mode = "py_lower (py_strip (snd (py_partition1 (CHR ''='') ?text)))"
  from 2(2) have c: "CHR ''='' \<in> set ?text" "?name \<in> fst ` set INJECTION_SPECS" "?mode \<in> set INJECTION_MODES"
      "?name \<notin> fst ` set acc" and rec: "parse_overrides rest (AList.update ?name ?mode acc) = Inr ov"
    by (auto simp: Let_def split: if_splits)
  have "set (AList.update ?name ?mode acc) \<subseteq> insert (?name, ?mode) (set acc)"
    by (induction acc) auto
  with 2(3) c have "dict_wf (AList.update ?name ?mode acc) \<and>
      (\<forall>(n, m) \<in> set (AList.update ?name ?mode acc). n \<in> fst ` set INJECTION_SPECS \<and> m \<in> set INJECTION_MODES)"
    by (intro conjI dict_wf_update) auto
  from 2(1) [OF refl refl refl refl, simplified, OF c rec this] show ?case .
qed simp

lemma injection_modes_facts:
  assumes "parse_inject_overrides values = Inr ov" and "(name, spec) \<in> set INJECTION_SPECS"
  shows "\<exists>mode \<in> set INJECTION_MODES.
      map_of (resolve_injection_modes role ov cfg) name = Some mode \<and>
      (role \<notin> set (is_roles spec) \<longrightarrow> mode = ''off'') \<and>
      (is_active (Some (resolve_injection_modes role ov cfg)) name \<longleftrightarrow> mode = ''enforce'') \<and>
      (mode = ''enforce'' \<longrightarrow> role \<in> set (is_roles spec) \<and>
         (map_of ov name = Some ''enforce'' \<or>
          map_of ov name = None \<and> (\<exists>flags. load_flags cfg = Some flags \<and> py_lower (py_strip (is_read_flag spec flags)) = ''enforce'')))"
    and "dict_wf ov \<and> (\<forall>(n, m) \<in> set ov. n \<in> fst ` set INJECTION_SPECS \<and> m \<in> set INJECTION_MODES)"
proof -
  show wf: "dict_wf ov \<and> (\<forall>(n, m) \<in> set ov. n \<in> fst ` set INJECTION_SPECS \<and> m \<in> set INJECTION_MODES)"
    using parse_overrides_ok [of "values" "[]" ov] assms(1) by (simp add: parse_inject_overrides_def)
  have spec: "name = is_name CODER_SLICE_CEREMONY" "spec = CODER_SLICE_CEREMONY"
    using assms(2) by (simp_all add: INJECTION_SPECS_def)
  let ?mode = "ij_mode (snd (explain_one role ov cfg (name, spec)))"
  have look: "map_of (resolve_injection_modes role ov cfg) name = Some ?mode"
    by (simp add: spec resolve_injection_modes_def explain_injection_modes_def INJECTION_SPECS_def explain_one_def
        split: prod.splits)
  have ov_mode: "m \<in> set INJECTION_MODES" if "map_of ov name = Some m" for m
    using wf map_of_SomeD [OF that] by auto
  have range: "?mode \<in> set INJECTION_MODES"
    using normalize_mode_range by (auto simp: explain_one_def resolve_mode_def mode_defs(1,2,4,5) split: option.splits)
  have gated: "role \<notin> set (is_roles spec) \<longrightarrow> ?mode = ''off''" by (simp add: explain_one_def mode_defs)
  have enf: "?mode = ''enforce'' \<longrightarrow> role \<in> set (is_roles spec) \<and>
     (map_of ov name = Some ''enforce'' \<or>
      map_of ov name = None \<and> (\<exists>flags. load_flags cfg = Some flags \<and> py_lower (py_strip (is_read_flag spec flags)) = ''enforce''))"
    using normalize_mode_enforce [unfolded MODE_ENFORCE_def] ov_mode normalize_valid
    by (auto simp: explain_one_def resolve_mode_def MODE_OFF_def FALLBACK_MODE_def MODE_OBSERVE_def
        split: if_splits option.splits)
  have act: "is_active (Some (resolve_injection_modes role ov cfg)) name \<longleftrightarrow> ?mode = ''enforce''"
    by (simp add: is_active_def mode_for_def look normalize_valid [OF range] MODE_ENFORCE_def)
  from range look gated enf act show "\<exists>mode \<in> set INJECTION_MODES.
      map_of (resolve_injection_modes role ov cfg) name = Some mode \<and>
      (role \<notin> set (is_roles spec) \<longrightarrow> mode = ''off'') \<and>
      (is_active (Some (resolve_injection_modes role ov cfg)) name \<longleftrightarrow> mode = ''enforce'') \<and>
      (mode = ''enforce'' \<longrightarrow> role \<in> set (is_roles spec) \<and>
         (map_of ov name = Some ''enforce'' \<or>
          map_of ov name = None \<and> (\<exists>flags. load_flags cfg = Some flags \<and> py_lower (py_strip (is_read_flag spec flags)) = ''enforce'')))"
    by blast
qed

text \<open>No injection fires by accident. For every known injection the resolved mode is one of the three
  modes; it is \<open>off\<close> for a role outside the injection's roles, whatever the flags say; and it is
  \<open>enforce\<close>, the only mode that changes a request, only if the override, or without one the readable
  configuration, says \<open>enforce\<close> itself. Accepted \<open>--inject\<close> arguments name known injections, each once,
  with a valid mode.\<close>

theorem injection_never_by_accident:
  assumes "parse_inject_overrides values = Inr ov" and "(name, spec) \<in> set INJECTION_SPECS"
  shows "dict_wf ov \<and> (\<forall>(n, m) \<in> set ov. n \<in> fst ` set INJECTION_SPECS \<and> m \<in> set INJECTION_MODES) \<and>
    (\<exists>mode \<in> set INJECTION_MODES.
      map_of (resolve_injection_modes role ov cfg) name = Some mode \<and>
      (role \<notin> set (is_roles spec) \<longrightarrow> mode = ''off'') \<and>
      (is_active (Some (resolve_injection_modes role ov cfg)) name \<longleftrightarrow> mode = ''enforce'') \<and>
      (mode = ''enforce'' \<longrightarrow> role \<in> set (is_roles spec) \<and>
         (map_of ov name = Some ''enforce'' \<or>
          map_of ov name = None \<and> (\<exists>flags. load_flags cfg = Some flags \<and> py_lower (py_strip (is_read_flag spec flags)) = ''enforce''))))"
  using injection_modes_facts [OF assms] by simp

lemma demo_overrides: "parse_inject_overrides [''coder_slice_ceremony=enforce''] = Inr [(''coder_slice_ceremony'', ''enforce'')]"
  by code_simp

theorem injection_never_by_accident_witness:
  "map_of (resolve_injection_modes ''planner'' [(''coder_slice_ceremony'', ''enforce'')] (None, Inr None)) ''coder_slice_ceremony''
     = Some ''off''"
  using injection_never_by_accident [OF demo_overrides, of "''coder_slice_ceremony''" CODER_SLICE_CEREMONY "''planner''" "(None, Inr None)"]
  by (auto simp: INJECTION_SPECS_def CODER_SLICE_CEREMONY_def)

text \<open>Without any configuration the mode is \<open>observe\<close>, not \<open>off\<close>.\<close>

lemma unconfigured_observes:
  "resolve_injection_modes ''coder'' [] (None, Inr None) = [(''coder_slice_ceremony'', ''observe'')]"
  by code_simp

end
