(* ===== verification/Workflow.thy ===== *)
theory Workflow
  imports Workflow_Artifacts Plan_Ids Injections Roles
begin

text \<open>
  The workflow controller (\<open>inner_loop/workflow_controller.py\<close>): stage dispatch with the deadline
  check, the evaluation report (build, adjust, write), the linear and the adaptive pipeline, the
  terminal state and its read-back, and the exit code.

  Everything outside the module is a parameter in \<open>wf_ports\<close>: the clock, the stage runner
  \<open>run_stage_fn\<close> with the final messages it leaves in its sink, git, reading files, loading the model
  configuration. Stages act on the environment \<open>'e\<close>; the artifact directory belongs to the
  controller. Messages to stderr and log records are left out, as is the best-effort export to the
  global history at the end of a run.
\<close>

section \<open>Data\<close>

definition EVAL_VERDICT_TO_TERMINAL_STATUS :: "(string, string) pydict" where
  "EVAL_VERDICT_TO_TERMINAL_STATUS = [(''PASS'', ''DONE''), (''REPAIR_REQUIRED'', ''REPAIR_REQUIRED''),
     (''REPLAN_REQUIRED'', ''REPLAN_REQUIRED''), (''BLOCKED'', ''FAILED'')]"

definition DEFAULT_MAX_REPAIRS :: int where "DEFAULT_MAX_REPAIRS = 2"
definition MAX_REPAIRS_CEILING :: int where "MAX_REPAIRS_CEILING = 3"
definition DEFAULT_MAX_REPLANS :: int where "DEFAULT_MAX_REPLANS = 1"
definition MAX_REPLANS_CEILING :: int where "MAX_REPLANS_CEILING = 2"
definition WORKFLOW_DEADLINE_EXIT_CODE :: int where "WORKFLOW_DEADLINE_EXIT_CODE = 124"
definition DEADLINE_REASON_MARKER :: string where "DEADLINE_REASON_MARKER = ''workflow deadline exceeded''"

record wf_context =
  cx_run_id :: string
  cx_base_task :: "string option"
  cx_per_role_task :: "(string, string option) pydict"
  cx_base_dir :: string
  cx_config :: string
  cx_workspace :: string
  cx_max_turns :: int
  cx_output_mode :: string
  cx_session_id :: "string option"
  cx_deadline_mono :: "rat option"
  cx_inject_overrides :: "(string, string) pydict"
  cx_plan_path :: "string option"

text \<open>\<open>workflow_artifact_paths\<close>: both artifacts are in the run's directory.\<close>

definition cx_eval_report :: "wf_context \<Rightarrow> string" where
  "cx_eval_report ctx = cx_base_dir ctx @ ''/eval_report.json''"

definition cx_flow_state :: "wf_context \<Rightarrow> string" where
  "cx_flow_state ctx = cx_base_dir ctx @ ''/flow_state.json''"

record wf_progress =
  pg_plan_version :: int
  pg_repair_round :: int
  pg_replan_round :: int

definition progress_init :: wf_progress where
  "progress_init = \<lparr>pg_plan_version = 1, pg_repair_round = 0, pg_replan_round = 0\<rparr>"

record stage_result =
  sg_role :: string
  sg_exit_code :: int
  sg_eval_report :: "eval_report option"

record stage_args =
  sa_task :: "string option"
  sa_role :: string
  sa_config :: string
  sa_workspace :: string
  sa_max_turns :: int
  sa_run_id :: string
  sa_resume :: bool
  sa_output_mode :: string
  sa_injection_modes :: "(string, string) pydict"
  sa_session_id :: "string option"

datatype git_result = GitRaised py_exc | GitDone int string

record 'e wf_ports =
  wp_clock :: "nat \<Rightarrow> rat"
  wp_run_stage :: "stage_args \<Rightarrow> 'e \<Rightarrow> (int \<times> string list) py_result \<times> 'e"
  wp_read_text :: "'e \<Rightarrow> string \<Rightarrow> string py_result"
  wp_git :: "'e \<Rightarrow> string list \<Rightarrow> git_result"
  wp_is_file :: "'e \<Rightarrow> string \<Rightarrow> bool"
  wp_load_models :: "'e \<Rightarrow> eval_independence option py_result"
  wp_user_config :: "'e \<Rightarrow> config_source"

text \<open>
  The world of a run: the artifact files, the outcomes of the writes to come, the number of clock
  readings so far, the dispatched stages (each with the number of readings before it), the rest.
\<close>

record 'e wf_world =
  ww_fs :: art_fs
  ww_faults :: "io_fault list"
  ww_ticks :: nat
  ww_stages :: "(stage_args \<times> nat) list"
  ww_env :: 'e

section \<open>Helpers\<close>

definition monotonic :: "'e wf_ports \<Rightarrow> 'e wf_world \<Rightarrow> rat \<times> 'e wf_world" where
  "monotonic P w = (wp_clock P (ww_ticks w), w\<lparr>ww_ticks := Suc (ww_ticks w)\<rparr>)"

definition next_fault :: "'e wf_world \<Rightarrow> io_fault" where
  "next_fault w = (case ww_faults w of [] \<Rightarrow> IoOk | f # _ \<Rightarrow> f)"

definition put_flow_state :: "wf_context \<Rightarrow> flow_state \<Rightarrow> 'e wf_world \<Rightarrow> unit py_result \<times> 'e wf_world" where
  "put_flow_state ctx f w =
     (case write_flow_state (next_fault w) (cx_flow_state ctx) f (ww_fs w) of
        (res, fs) \<Rightarrow> (res, w\<lparr>ww_fs := fs, ww_faults := tl (ww_faults w)\<rparr>))"

definition put_eval_report :: "wf_context \<Rightarrow> eval_report \<Rightarrow> 'e wf_world \<Rightarrow> unit py_result \<times> 'e wf_world" where
  "put_eval_report ctx r w =
     (case write_eval_report (next_fault w) (cx_eval_report ctx) r (ww_fs w) of
        (res, fs) \<Rightarrow> (res, w\<lparr>ww_fs := fs, ww_faults := tl (ww_faults w)\<rparr>))"

definition opt_str :: "string option \<Rightarrow> string" where
  "opt_str x = (case x of None \<Rightarrow> [] | Some s \<Rightarrow> s)"

text \<open>\<open>plan_text\<close> catches \<open>OSError\<close> only.\<close>

definition plan_text :: "'e wf_ports \<Rightarrow> wf_context \<Rightarrow> 'e wf_world \<Rightarrow> string option py_result" where
  "plan_text P ctx w =
     (case cx_plan_path ctx of
        None \<Rightarrow> Inr None
      | Some p \<Rightarrow> (case wp_read_text P (ww_env w) p of
            Inr t \<Rightarrow> Inr (Some t)
          | Inl e \<Rightarrow> (if exn_class e = OSError then Inr None else Inl e)))"

definition plan_identity :: "'e wf_ports \<Rightarrow> wf_context \<Rightarrow> 'e wf_world \<Rightarrow> string py_result" where
  "plan_identity P ctx w =
     rbind (plan_text P ctx w) (\<lambda>t. case t of
        None \<Rightarrow> Inr (cx_run_id ctx)
      | Some text \<Rightarrow> Inr (case extract_plan_id (Some text) of Some pid \<Rightarrow> pid | None \<Rightarrow> cx_run_id ctx))"

text \<open>\<open>self.per_role_task.get(role) or self.base_task\<close>: an empty task counts as absent.\<close>

definition task_for :: "wf_context \<Rightarrow> string \<Rightarrow> string option" where
  "task_for ctx role = (case map_of (cx_per_role_task ctx) role of
      Some (Some (c # cs)) \<Rightarrow> Some (c # cs) | _ \<Rightarrow> cx_base_task ctx)"

text \<open>\<open>re.sub(r"[^A-Za-z0-9]+", "-", s)\<close>: a run of other characters becomes one dash.\<close>

fun dash_runs :: "bool \<Rightarrow> string \<Rightarrow> string" where
  "dash_runs in_run [] = []"
| "dash_runs in_run (c # s) =
     (if ascii_alnum c then c # dash_runs False s
      else if in_run then dash_runs True s else CHR ''-'' # dash_runs True s)"

definition slugify_task :: "string \<Rightarrow> nat \<Rightarrow> string" where
  "slugify_task task limit =
     (let slug = take limit (py_strip_chars ''-'' (dash_runs False (py_lower (py_strip task))))
      in if slug = [] then ''task'' else slug)"

definition build_eval_report ::
  "string \<Rightarrow> string \<Rightarrow> string \<Rightarrow> int \<Rightarrow> json_obj option \<Rightarrow> eval_report py_result" where
  "build_eval_report final_text run_id plan_id plan_version indep =
     parse_eval_report (Some final_text) run_id plan_id (run_id @ ''-eval'') plan_version indep"

definition force_repair :: "eval_report \<Rightarrow> string list \<Rightarrow> eval_report py_result" where
  "force_repair r failed =
     rbind (default_route_for_verdict ''REPAIR_REQUIRED'') (\<lambda>route.
       Inr (r\<lparr>er_verdict := ''REPAIR_REQUIRED'', er_route_decision := route,
              er_summary := ''per-slice failure reported for '' @ py_join '', '' failed @ '': '' @ er_summary r\<rparr>))"

definition validate_slice_ids :: "eval_report \<Rightarrow> string option \<Rightarrow> (eval_report \<times> string list) py_result" where
  "validate_slice_ids r0 pt =
     (let failed = map st_step_id (filter (\<lambda>s. st_verdict s = ''fail'') (er_step_results r0));
          q16 = (failed \<noteq> [] \<and> er_verdict r0 = ''PASS'');
          warn1 = (if q16 then [''eval returned PASS while reporting per-slice failure(s): '' @ py_join '', '' failed @
                     ''; routing to REPAIR_REQUIRED (Q16)''] else [])
      in rbind (if q16 then force_repair r0 failed else Inr r0) (\<lambda>r.
           case pt of
             None \<Rightarrow> Inr (r, warn1)
           | Some text \<Rightarrow>
               (let declared = pi_slices (extract_plan_ids (Some text)) in
                if declared = [] then Inr (r, warn1)
                else let known = canonical_slice_id ` set declared;
                         kept = filter (\<lambda>s. canonical_slice_id (st_step_id s) \<in> known) (er_step_results r);
                         invented = map st_step_id (filter (\<lambda>s. canonical_slice_id (st_step_id s) \<notin> known) (er_step_results r));
                         reported = (\<lambda>s. canonical_slice_id (st_step_id s)) ` set kept;
                         unreported = filter (\<lambda>d. canonical_slice_id d \<notin> reported) declared;
                         warn2 = (if invented = [] then [] else
                           [''eval reported slice id(s) absent from the plan, dropped: '' @ py_join '', '' invented]);
                         warn3 = (if unreported = [] then [] else
                           [''plan slice(s) with no eval verdict: '' @ py_join '', '' unreported])
                     in Inr (r\<lparr>er_step_results := kept, er_unreported_slices := unreported\<rparr>, warn1 @ warn2 @ warn3))))"

definition status_for_role :: "string \<Rightarrow> string" where
  "status_for_role role = (if role = ''planner'' then ''PLANNING'' else if role = ''coder'' then ''CODING''
     else if role = ''eval'' then ''EVALUATING'' else ''CODING'')"

definition stance_value :: "eval_stance \<Rightarrow> string" where
  "stance_value s = (case s of Neutral \<Rightarrow> ''neutral'' | Adversarial \<Rightarrow> ''adversarial'')"

definition eval_system_prompt_extra :: "string \<Rightarrow> string \<Rightarrow> eval_independence option \<Rightarrow> string" where
  "eval_system_prompt_extra preamble role indep =
     (if role \<noteq> ''eval'' then [] else case indep of
        None \<Rightarrow> [] | Some i \<Rightarrow> (if ei_stance i \<noteq> Adversarial then [] else preamble))"

definition eval_independence_mapping :: "eval_independence option \<Rightarrow> json_obj option" where
  "eval_independence_mapping indep = map_option (\<lambda>i.
     [(''disjoint'', JBool (ei_disjoint i)), (''stance'', JStr (stance_value (ei_stance i)))]) indep"

section \<open>Evidence for the evaluator\<close>

definition EVAL_DIFF_MAX_CHARS :: nat where "EVAL_DIFF_MAX_CHARS = 60000"
definition EVAL_DOC_PATHS :: "string list" where
  "EVAL_DOC_PATHS = [''knowledge/adr/DIGEST.md'', ''knowledge/adr/README.md'']"

text \<open>\<open>subprocess.SubprocessError\<close> covers \<open>TimeoutExpired\<close>.\<close>

definition git_output :: "'e wf_ports \<Rightarrow> 'e \<Rightarrow> string list \<Rightarrow> string option py_result" where
  "git_output P env args =
     (case wp_git P env args of
        GitRaised e \<Rightarrow> (if exn_class e \<in> {OSError, ValueError, OtherError ''SubprocessError''} then Inr None else Inl e)
      | GitDone code out \<Rightarrow> Inr (if code \<noteq> 0 then None else Some out))"

definition plan_evidence :: "wf_context \<Rightarrow> string option \<Rightarrow> string list" where
  "plan_evidence ctx pt =
     (case cx_plan_path ctx of
        None \<Rightarrow> []
      | Some p \<Rightarrow> [''Plan: '' @ p] @
          (case pt of
             None \<Rightarrow> []
           | Some text \<Rightarrow> (let slices = pi_slices (extract_plan_ids (Some text)) in
               if slices = [] then [] else
                 [''Plan slices to judge ('' @ nat_str (length slices) @ ''): '' @ py_join '', '' slices])) @
          [''Read the plan for the execution contract; do not infer it from the transcript.''])"

definition diff_body :: "string \<Rightarrow> string" where
  "diff_body diff = (if length diff > EVAL_DIFF_MAX_CHARS
     then take EVAL_DIFF_MAX_CHARS diff @ [CHR 0x0A] @ ''[diff truncated at '' @ nat_str EVAL_DIFF_MAX_CHARS @ '' chars of '' @
       nat_str (length diff) @ '' -- read the remaining files with fs_read_file]''
     else diff)"

definition change_evidence :: "string option \<Rightarrow> string option \<Rightarrow> string option \<Rightarrow> string list" where
  "change_evidence stat diff status =
     (if stat = None \<and> diff = None \<and> status = None
      then [''Changed files: unavailable (not a git repository, or git could not be run).'']
      else let untracked = map (drop 3) (filter (prefix ''??'') (splitlines (opt_str status)))
           in (if untracked = [] then [] else
                 [''New untracked files ('' @ nat_str (length untracked) @ ''): '' @ py_join '', '' untracked,
                  ''These are NOT in the diff below; read them with fs_read_file before judging.'']) @
              (if opt_str stat = [] then [] else [''Diff stat (git diff HEAD):'' @ [CHR 0x0A] @ py_rstrip (opt_str stat)]) @
              (if opt_str diff \<noteq> [] then [''Diff (git diff HEAD):'' @ [CHR 0x0A] @ diff_body (opt_str diff)]
               else if untracked = []
               then [''Changed files: NONE. `git diff HEAD` is empty and there are no untracked files.''] else []))"

definition eval_evidence_block :: "'e wf_ports \<Rightarrow> wf_context \<Rightarrow> 'e wf_world \<Rightarrow> string py_result" where
  "eval_evidence_block P ctx w =
     rbind (plan_text P ctx w) (\<lambda>pt.
     rbind (git_output P (ww_env w) [''diff'', ''HEAD'', ''--stat'']) (\<lambda>stat.
     rbind (git_output P (ww_env w) [''diff'', ''HEAD'']) (\<lambda>diff.
     rbind (git_output P (ww_env w) [''status'', ''--porcelain'']) (\<lambda>status.
       let docs = filter (wp_is_file P (ww_env w)) EVAL_DOC_PATHS;
           lines = plan_evidence ctx pt @ change_evidence stat diff status @
             (if docs = [] then [] else [''Reference docs (read as needed): '' @ py_join '', '' docs])
       in Inr (if lines = [] then [] else
            ''## Evidence supplied by the harness'' @ [CHR 0x0A, CHR 0x0A] @ py_join [CHR 0x0A] lines)))))"

section \<open>Stage dispatch\<close>

text \<open>Lifting a computation that only reads the world.\<close>

abbreviation ask :: "'a py_result \<Rightarrow> 'w \<Rightarrow> 'a py_result \<times> 'w" where "ask r w \<equiv> (r, w)"

definition deadline_exceeded :: "'e wf_ports \<Rightarrow> wf_context \<Rightarrow> 'e wf_world \<Rightarrow> bool \<times> 'e wf_world" where
  "deadline_exceeded P ctx w =
     (case cx_deadline_mono ctx of
        None \<Rightarrow> (False, w)
      | Some d \<Rightarrow> (case monotonic P w of (now, w') \<Rightarrow> (now \<ge> d, w')))"

definition flow_base :: "wf_context \<Rightarrow> wf_progress \<Rightarrow> flow_state" where
  "flow_base ctx progress =
     \<lparr>fl_run_id = cx_run_id ctx, fl_task = opt_str (cx_base_task ctx), fl_status = [], fl_active_role = [],
      fl_active_plan_id = cx_run_id ctx, fl_active_plan_version = pg_plan_version progress,
      fl_repair_round = pg_repair_round progress, fl_replan_round = pg_replan_round progress,
      fl_last_actor = [], fl_last_transition_reason = [], fl_last_route_decision = [], fl_blocked_reason = [],
      fl_completed_steps = [], fl_invalidated_steps = [], fl_judged = True, fl_plan_path = []\<rparr>"

definition deadline_state :: "wf_context \<Rightarrow> string \<Rightarrow> wf_progress \<Rightarrow> string \<Rightarrow> flow_state" where
  "deadline_state ctx role progress elapsed = (flow_base ctx progress)\<lparr>fl_status := ''FAILED'', fl_active_role := role,
     fl_last_actor := ''workflow'', fl_last_transition_reason := DEADLINE_REASON_MARKER @ elapsed,
     fl_blocked_reason := DEADLINE_REASON_MARKER @ ''; stage '' @ py_repr role @ '' was not dispatched''\<rparr>"

definition write_deadline_state ::
  "'e wf_ports \<Rightarrow> wf_context \<Rightarrow> string \<Rightarrow> wf_progress \<Rightarrow> 'e wf_world \<Rightarrow> unit py_result \<times> 'e wf_world" where
  "write_deadline_state P ctx role progress w =
     (case cx_deadline_mono ctx of
        None \<Rightarrow> put_flow_state ctx (deadline_state ctx role progress []) w
      | Some d \<Rightarrow>
          (case monotonic P w of (now, w') \<Rightarrow>
             put_flow_state ctx (deadline_state ctx role progress
               ('' after '' @ fmt_fixed 0 (max 0 (now - d)) @ ''s past deadline'')) w'))"

definition dispatch_state :: "wf_context \<Rightarrow> string \<Rightarrow> wf_progress \<Rightarrow> string \<Rightarrow> flow_state" where
  "dispatch_state ctx role progress reason = (flow_base ctx progress)\<lparr>fl_status := status_for_role role,
     fl_active_role := role, fl_last_actor := ''workflow'', fl_last_transition_reason := reason\<rparr>"

definition stage_task :: "'e wf_ports \<Rightarrow> wf_context \<Rightarrow> string \<Rightarrow> 'e wf_world \<Rightarrow> string option py_result" where
  "stage_task P ctx role w =
     (let task = task_for ctx role in
      if role \<noteq> ''eval'' then Inr task
      else rbind (eval_evidence_block P ctx w) (\<lambda>evidence.
        Inr (if evidence = [] then task
             else if opt_str task \<noteq> [] then Some (opt_str task @ [CHR 0x0A, CHR 0x0A] @ evidence) else Some evidence)))"

definition make_stage_args :: "'e wf_ports \<Rightarrow> wf_context \<Rightarrow> string \<Rightarrow> bool \<Rightarrow> string option \<Rightarrow> 'e wf_world \<Rightarrow> stage_args" where
  "make_stage_args P ctx role fresh task w =
     \<lparr>sa_task = task, sa_role = role, sa_config = cx_config ctx, sa_workspace = cx_workspace ctx,
      sa_max_turns = cx_max_turns ctx, sa_run_id = cx_run_id ctx, sa_resume = (\<not> fresh),
      sa_output_mode = cx_output_mode ctx,
      sa_injection_modes = resolve_injection_modes role (cx_inject_overrides ctx) (wp_user_config P (ww_env w)),
      sa_session_id = cx_session_id ctx\<rparr>"

definition call_stage :: "'e wf_ports \<Rightarrow> stage_args \<Rightarrow> 'e wf_world \<Rightarrow> (int \<times> string list) py_result \<times> 'e wf_world" where
  "call_stage P args w =
     (case wp_run_stage P args (ww_env w) of
        (res, env) \<Rightarrow> (res, w\<lparr>ww_stages := ww_stages w @ [(args, ww_ticks w)], ww_env := env\<rparr>))"

definition load_independence :: "'e wf_ports \<Rightarrow> 'e wf_world \<Rightarrow> json_obj option py_result" where
  "load_independence P w =
     (case wp_load_models P (ww_env w) of
        Inr indep \<Rightarrow> Inr (eval_independence_mapping indep)
      | Inl e \<Rightarrow> (if exn_class e \<in> {OSError, OtherError ''ConfigurationError''} then Inr None else Inl e))"

text \<open>The report of an evaluation stage: build, adjust, then one write.\<close>

definition stage_report ::
  "'e wf_ports \<Rightarrow> wf_context \<Rightarrow> wf_progress \<Rightarrow> string \<Rightarrow> 'e wf_world \<Rightarrow> eval_report py_result \<times> 'e wf_world" where
  "stage_report P ctx progress final_text w =
     sbind (ask (rbind (load_independence P w) (\<lambda>indep.
              rbind (plan_identity P ctx w) (\<lambda>plan_id.
              rbind (build_eval_report final_text (cx_run_id ctx) plan_id (pg_plan_version progress) indep) (\<lambda>report.
              rbind (plan_text P ctx w) (validate_slice_ids report))))) w)
       (\<lambda>(report, warnings) w. sbind (put_eval_report ctx report w) (\<lambda>_. ask (Inr report)))"

text \<open>The result of a stage that returned \<open>code\<close> and left the messages \<open>sink\<close>.\<close>

definition stage_outcome ::
  "'e wf_ports \<Rightarrow> wf_context \<Rightarrow> string \<Rightarrow> wf_progress \<Rightarrow> int \<times> string list \<Rightarrow> 'e wf_world
     \<Rightarrow> stage_result py_result \<times> 'e wf_world" where
  "stage_outcome P ctx role progress out w =
     (case out of (code, sink) \<Rightarrow>
       if role = ''eval'' \<and> code = 0 \<and> sink \<noteq> []
       then sbind (stage_report P ctx progress (last sink) w) (\<lambda>report.
              ask (Inr \<lparr>sg_role = role, sg_exit_code = code, sg_eval_report = Some report\<rparr>))
       else ask (Inr \<lparr>sg_role = role, sg_exit_code = code, sg_eval_report = None\<rparr>) w)"

definition run_stage ::
  "'e wf_ports \<Rightarrow> wf_context \<Rightarrow> string \<Rightarrow> bool \<Rightarrow> wf_progress \<Rightarrow> string \<Rightarrow> 'e wf_world
     \<Rightarrow> stage_result py_result \<times> 'e wf_world" where
  "run_stage P ctx role fresh progress reason w0 =
     (case deadline_exceeded P ctx w0 of
        (True, w) \<Rightarrow>
          sbind (write_deadline_state P ctx role progress w) (\<lambda>_.
            ask (Inr \<lparr>sg_role = role, sg_exit_code = WORKFLOW_DEADLINE_EXIT_CODE, sg_eval_report = None\<rparr>))
      | (False, w) \<Rightarrow>
          sbind (put_flow_state ctx (dispatch_state ctx role progress reason) w) (\<lambda>_ w.
          sbind (ask (stage_task P ctx role w) w) (\<lambda>task w.
          sbind (call_stage P (make_stage_args P ctx role fresh task w) w) (stage_outcome P ctx role progress))))"

definition write_stage_failure_state ::
  "wf_context \<Rightarrow> string \<Rightarrow> int \<Rightarrow> wf_progress \<Rightarrow> 'e wf_world \<Rightarrow> unit py_result \<times> 'e wf_world" where
  "write_stage_failure_state ctx role code progress w =
     (if code = WORKFLOW_DEADLINE_EXIT_CODE then (Inr (), w)
      else put_flow_state ctx ((flow_base ctx progress)\<lparr>fl_status := ''FAILED'', fl_active_role := role,
             fl_last_actor := role, fl_last_transition_reason := ''stage exited '' @ int_str code,
             fl_blocked_reason := ''stage '' @ py_repr role @ '' exited '' @ int_str code\<rparr>) w)"

definition terminal_status_without_eval :: "bool \<Rightarrow> string \<times> string" where
  "terminal_status_without_eval eval_requested =
     (if eval_requested then (''FAILED'', ''eval stage produced no verdict'') else (''DONE'', []))"

definition terminal_state ::
  "wf_context \<Rightarrow> string \<Rightarrow> eval_report option \<Rightarrow> wf_progress \<Rightarrow> string \<Rightarrow> bool \<Rightarrow> flow_state" where
  "terminal_state ctx last_role report progress reason eval_requested =
     (let (status, route, blocked) =
        (case report of
           Some r \<Rightarrow> (dict_get_default EVAL_VERDICT_TO_TERMINAL_STATUS (er_verdict r) ''FAILED'', er_route_decision r,
                      if er_verdict r = ''BLOCKED'' then er_summary r else [])
         | None \<Rightarrow> (fst (terminal_status_without_eval eval_requested), [], snd (terminal_status_without_eval eval_requested)))
      in (flow_base ctx progress)\<lparr>fl_status := status, fl_active_role := last_role, fl_last_actor := last_role,
           fl_last_transition_reason := reason, fl_last_route_decision := route, fl_blocked_reason := blocked,
           fl_judged := (report \<noteq> None), fl_plan_path := opt_str (cx_plan_path ctx)\<rparr>)"

definition write_terminal_state ::
  "wf_context \<Rightarrow> string \<Rightarrow> eval_report option \<Rightarrow> wf_progress \<Rightarrow> string \<Rightarrow> bool \<Rightarrow> 'e wf_world
     \<Rightarrow> unit py_result \<times> 'e wf_world" where
  "write_terminal_state ctx last_role report progress reason eval_requested =
     put_flow_state ctx (terminal_state ctx last_role report progress reason eval_requested)"

definition read_back_terminal_state :: "wf_context \<Rightarrow> 'e wf_world \<Rightarrow> flow_state option py_result" where
  "read_back_terminal_state ctx w =
     (case load_flow_state (cx_flow_state ctx) (ww_fs w) of
        Inl e \<Rightarrow> (if exn_class e \<in> {OSError, ValueError, KeyError, TypeError} then Inr None else Inl e)
      | Inr f \<Rightarrow> Inr (if fl_run_id f \<noteq> cx_run_id ctx then None else Some f))"

definition resolve_max :: "int \<Rightarrow> int \<Rightarrow> int option \<Rightarrow> int" where
  "resolve_max default_max top_max v = (let n = (case v of None \<Rightarrow> default_max | Some i \<Rightarrow> i)
     in min (if n < 0 then 0 else n) top_max)"

definition resolve_max_repairs :: "int option \<Rightarrow> int" where
  "resolve_max_repairs = resolve_max DEFAULT_MAX_REPAIRS MAX_REPAIRS_CEILING"

definition resolve_max_replans :: "int option \<Rightarrow> int" where
  "resolve_max_replans = resolve_max DEFAULT_MAX_REPLANS MAX_REPLANS_CEILING"

definition canonical_loop_roles :: "string list \<Rightarrow> bool \<Rightarrow> string list" where
  "canonical_loop_roles roles include_planner =
     filter (\<lambda>r. r \<in> set roles) (if include_planner then [''planner'', ''coder'', ''eval''] else [''coder'', ''eval''])"

section \<open>Pipelines\<close>

text \<open>
  One pass over a list of roles: \<open>Inl code\<close> is the early return with a stage's exit code, \<open>Inr\<close> the
  last report. \<open>fresh\<close> and \<open>reason\<close> give the arguments of the stage at an index.
\<close>

fun run_roles ::
  "'e wf_ports \<Rightarrow> wf_context \<Rightarrow> wf_progress \<Rightarrow> (nat \<Rightarrow> bool) \<Rightarrow> (nat \<Rightarrow> string \<Rightarrow> string) \<Rightarrow> nat \<Rightarrow> string list
     \<Rightarrow> eval_report option \<Rightarrow> 'e wf_world \<Rightarrow> (int + eval_report option) py_result \<times> 'e wf_world" where
  "run_roles P ctx progress fresh reason index [] report w = (Inr (Inr report), w)"
| "run_roles P ctx progress fresh reason index (role # roles) report w =
     sbind (run_stage P ctx role (fresh index) progress (reason index role) w) (\<lambda>result w.
       if sg_exit_code result \<noteq> 0
       then sbind (write_stage_failure_state ctx role (sg_exit_code result) progress w) (\<lambda>_.
              ask (Inr (Inl (sg_exit_code result))))
       else run_roles P ctx progress fresh reason (Suc index) roles
              (case sg_eval_report result of Some r \<Rightarrow> Some r | None \<Rightarrow> report) w)"

definition stage_reason :: "nat \<Rightarrow> nat \<Rightarrow> string \<Rightarrow> string" where
  "stage_reason n_roles index role = ''dispatching stage '' @ nat_str (index + 1) @ ''/'' @ nat_str n_roles"

definition run_initial_roles ::
  "'e wf_ports \<Rightarrow> wf_context \<Rightarrow> string list \<Rightarrow> 'e wf_world \<Rightarrow> (int + eval_report option) py_result \<times> 'e wf_world" where
  "run_initial_roles P ctx roles w =
     run_roles P ctx progress_init (\<lambda>i. i = 0) (stage_reason (length roles)) 0 roles None w"

definition loop_reason :: "string \<Rightarrow> int \<Rightarrow> string \<Rightarrow> nat \<Rightarrow> string \<Rightarrow> string" where
  "loop_reason kind rnd route index role =
     kind @ '' round '' @ int_str rnd @ '': canonical '' @ role @ '' after '' @ route"

text \<open>The budgets strictly decrease, so the \<open>while True\<close> loop of the adaptive mode ends.\<close>

lemma sbind_cong [fundef_cong]:
  assumes "m = m'" "\<And>x s. m' = (Inr x, s) \<Longrightarrow> k x s = k' x s"
  shows "sbind m k = sbind m' k'"
  using assms by (auto simp: sbind_def split: prod.splits sum.splits)

function adaptive_loop ::
  "'e wf_ports \<Rightarrow> wf_context \<Rightarrow> string list \<Rightarrow> int \<Rightarrow> int \<Rightarrow> wf_progress \<Rightarrow> eval_report \<Rightarrow> 'e wf_world
     \<Rightarrow> int py_result \<times> 'e wf_world" where
  "adaptive_loop P ctx roles max_repairs max_replans progress report w =
     (let finish = (\<lambda>reason. sbind (write_terminal_state ctx ''eval'' (Some report) progress reason False w) (\<lambda>_. ask (Inr 0)))
      in
      if er_route_decision report = ''return_to_coder'' then
        (if pg_repair_round progress \<ge> max_repairs
         then finish (''repair budget exhausted ('' @ int_str (pg_repair_round progress) @ ''/'' @ int_str max_repairs @
                ''); last route return_to_coder'')
         else let progress' = progress\<lparr>pg_repair_round := pg_repair_round progress + 1\<rparr> in
           sbind (run_roles P ctx progress' (\<lambda>_. False)
                    (loop_reason ''repair'' (pg_repair_round progress') ''return_to_coder'') 0
                    (canonical_loop_roles roles False) (Some report) w) (\<lambda>out w'.
             case out of Inl code \<Rightarrow> (Inr code, w')
             | Inr latest \<Rightarrow> adaptive_loop P ctx roles max_repairs max_replans progress'
                 (case latest of Some r \<Rightarrow> r | None \<Rightarrow> report) w'))
      else if er_route_decision report = ''return_to_planner'' then
        (if ''planner'' \<notin> set roles
         then finish (''eval routed return_to_planner but no planner role is configured (roles='' @
                py_join '','' roles @ ''); cannot replan'')
         else if pg_replan_round progress \<ge> max_replans
         then finish (''replan budget exhausted ('' @ int_str (pg_replan_round progress) @ ''/'' @ int_str max_replans @
                ''); last route return_to_planner'')
         else let progress' = progress\<lparr>pg_plan_version := pg_plan_version progress + 1,
                                        pg_replan_round := pg_replan_round progress + 1\<rparr> in
           sbind (run_roles P ctx progress' (\<lambda>_. False)
                    (loop_reason ''replan'' (pg_replan_round progress') ''return_to_planner'') 0
                    (canonical_loop_roles roles True) (Some report) w) (\<lambda>out w'.
             case out of Inl code \<Rightarrow> (Inr code, w')
             | Inr latest \<Rightarrow> adaptive_loop P ctx roles max_repairs max_replans progress'
                 (case latest of Some r \<Rightarrow> r | None \<Rightarrow> report) w'))
      else finish (''eval verdict '' @ er_verdict report @ '' after '' @ int_str (pg_repair_round progress) @
             '' repair round(s) and '' @ int_str (pg_replan_round progress) @ '' replan round(s)''))"
  by pat_completeness auto

termination
  by (relation "measure (\<lambda>(P, ctx, roles, max_repairs, max_replans, progress, report, w).
        nat (max_repairs - pg_repair_round progress) + nat (max_replans - pg_replan_round progress))") auto

declare adaptive_loop.simps [simp del]

definition run_adaptive ::
  "'e wf_ports \<Rightarrow> wf_context \<Rightarrow> string list \<Rightarrow> int \<Rightarrow> int \<Rightarrow> 'e wf_world \<Rightarrow> int py_result \<times> 'e wf_world" where
  "run_adaptive P ctx roles max_repairs max_replans w =
     sbind (run_initial_roles P ctx roles w) (\<lambda>out w.
       case out of
         Inl code \<Rightarrow> (Inr code, w)
       | Inr None \<Rightarrow>
           sbind (write_terminal_state ctx (last roles) None progress_init
                    (if ''eval'' \<in> set roles then ''eval stage ran but produced no verdict''
                     else ''adaptive workflow completed without eval stage'')
                    (''eval'' \<in> set roles) w) (\<lambda>_. ask (Inr 0))
       | Inr (Some report) \<Rightarrow> adaptive_loop P ctx roles max_repairs max_replans progress_init report w)"

definition run_linear ::
  "'e wf_ports \<Rightarrow> wf_context \<Rightarrow> string list \<Rightarrow> 'e wf_world \<Rightarrow> int py_result \<times> 'e wf_world" where
  "run_linear P ctx roles w =
     sbind (run_initial_roles P ctx roles w) (\<lambda>out w.
       case out of
         Inl code \<Rightarrow> (Inr code, w)
       | Inr report \<Rightarrow>
           sbind (write_terminal_state ctx (last roles) report progress_init
                    (case report of
                       Some r \<Rightarrow> ''eval verdict '' @ er_verdict r @ '' (linear; no repair loop)''
                     | None \<Rightarrow> (if ''eval'' \<in> set roles then ''eval stage ran but produced no verdict''
                                else ''linear workflow completed''))
                    (''eval'' \<in> set roles) w) (\<lambda>_. ask (Inr 0)))"

definition workflow_exit_code :: "int \<Rightarrow> flow_state option \<Rightarrow> int" where
  "workflow_exit_code result_code t =
     (case t of None \<Rightarrow> result_code
      | Some f \<Rightarrow> (if result_code \<noteq> 0 then result_code else if fl_status f = ''DONE'' then 0 else 1))"

definition initial_state :: "wf_context \<Rightarrow> string \<Rightarrow> string \<Rightarrow> flow_state" where
  "initial_state ctx mode first_role = (flow_base ctx progress_init)\<lparr>
     fl_status := (if first_role = ''planner'' then ''PLANNING'' else ''PLAN_READY''), fl_active_role := first_role,
     fl_last_actor := ''workflow'', fl_last_transition_reason := ''workflow initialized (mode='' @ mode @ '')''\<rparr>"

definition run_workflow ::
  "'e wf_ports \<Rightarrow> wf_context \<Rightarrow> string list \<Rightarrow> string \<Rightarrow> int \<Rightarrow> int \<Rightarrow> 'e wf_world
     \<Rightarrow> (int \<times> flow_state option) py_result \<times> 'e wf_world" where
  "run_workflow P ctx roles mode max_repairs max_replans w =
     (if roles = [] then (Inl (Exn (OtherError ''IndexError'') ''list index out of range''), w)
      else sbind (put_flow_state ctx (initial_state ctx mode (hd roles)) w) (\<lambda>_ w.
           sbind (if mode = ''adaptive'' then run_adaptive P ctx roles max_repairs max_replans w
                  else run_linear P ctx roles w) (\<lambda>code w.
           sbind (ask (read_back_terminal_state ctx w) w) (\<lambda>t.
             ask (Inr (workflow_exit_code code t, t))))))"

end
