(* ===== verification/Workflow_Safety.thy ===== *)
theory Workflow_Safety
  imports Workflow
begin

text \<open>
  What a workflow run guarantees: the evaluation report after its adjustment, the number of stages a
  run can dispatch and that none is dispatched after the deadline, and what exit code 0 and the
  deadline code mean. \<open>post\<close> states a postcondition of stateful code that may raise; its rules follow
  the structure of the controller.
\<close>

section \<open>Postconditions\<close>

definition post :: "('a py_result \<Rightarrow> 's \<Rightarrow> bool) \<Rightarrow> 'a py_result \<times> 's \<Rightarrow> bool" where
  "post Q m = Q (fst m) (snd m)"

lemma post_ask [simp]: "post Q (r, s) = Q r s"
  by (simp add: post_def)

lemma post_sbind:
  assumes "post R m" "\<And>e s. R (Inl e) s \<Longrightarrow> Q (Inl e) s" "\<And>x s. R (Inr x) s \<Longrightarrow> post Q (k x s)"
  shows "post Q (sbind m k)"
  using assms by (cases m) (auto simp: post_def sbind_def split: sum.splits)

lemma post_weaken: "post R m \<Longrightarrow> (\<And>r s. R r s \<Longrightarrow> Q r s) \<Longrightarrow> post Q m"
  by (simp add: post_def)

lemma postD: "post Q m \<Longrightarrow> m = (r, s) \<Longrightarrow> Q r s"
  by (simp add: post_def)

lemma post_if: "(c \<Longrightarrow> post Q a) \<Longrightarrow> (\<not> c \<Longrightarrow> post Q b) \<Longrightarrow> post Q (if c then a else b)"
  by simp

section \<open>The adjusted report\<close>

text \<open>\<open>consistent r\<close>: allowed literals and the route of the verdict; \<open>accepted r\<close>: also no \<open>PASS\<close> over a
  step reported as failed.\<close>

definition consistent :: "eval_report \<Rightarrow> bool" where
  "consistent r \<longleftrightarrow> report_wf r \<and> default_route_for_verdict (er_verdict r) = Inr (er_route_decision r)"

definition accepted :: "eval_report \<Rightarrow> bool" where
  "accepted r \<longleftrightarrow> consistent r \<and> (er_verdict r = ''PASS'' \<longrightarrow> (\<forall>s \<in> set (er_step_results r). st_verdict s \<noteq> ''fail''))"

lemma repair_route: "default_route_for_verdict ''REPAIR_REQUIRED'' = Inr ''return_to_coder''"
  by (simp add: default_route_for_verdict_def VERDICT_TO_ROUTE_def)

text \<open>The report after the first adjustment, which looks at failed steps only.\<close>

definition q16 :: "eval_report \<Rightarrow> eval_report" where
  "q16 r = (let failed = map st_step_id (filter (\<lambda>s. st_verdict s = ''fail'') (er_step_results r)) in
     if failed \<noteq> [] \<and> er_verdict r = ''PASS''
     then r\<lparr>er_verdict := ''REPAIR_REQUIRED'', er_route_decision := ''return_to_coder'',
            er_summary := ''per-slice failure reported for '' @ py_join '', '' failed @ '': '' @ er_summary r\<rparr>
     else r)"

lemma q16_steps [simp]: "er_step_results (q16 r) = er_step_results r"
  by (simp add: q16_def Let_def)

lemma q16_accepted: "consistent r \<Longrightarrow> accepted (q16 r)"
  by (auto simp: accepted_def consistent_def q16_def Let_def report_wf_def repair_route EVAL_VERDICTS_def ROUTE_DECISIONS_def
      filter_empty_conv)

definition declared_slices :: "string option \<Rightarrow> string list" where
  "declared_slices pt = (case pt of None \<Rightarrow> [] | Some t \<Rightarrow> pi_slices (extract_plan_ids (Some t)))"

abbreviation known_step :: "string list \<Rightarrow> step_result \<Rightarrow> bool" where
  "known_step declared s \<equiv> canonical_slice_id (st_step_id s) \<in> canonical_slice_id ` set declared"

text \<open>The adjusted report in closed form.\<close>

definition adjusted :: "eval_report \<Rightarrow> string list \<Rightarrow> eval_report" where
  "adjusted r declared = (if declared = [] then q16 r else
     (q16 r)\<lparr>er_step_results := filter (known_step declared) (er_step_results r),
       er_unreported_slices := filter (\<lambda>d. canonical_slice_id d \<notin>
         (\<lambda>s. canonical_slice_id (st_step_id s)) ` set (filter (known_step declared) (er_step_results r))) declared\<rparr>)"

lemma validate_slice_ids_adjusted:
  "\<exists>ws. validate_slice_ids r pt = Inr (adjusted r (declared_slices pt), ws)"
proof -
  have q: "(if map st_step_id (filter (\<lambda>s. st_verdict s = ''fail'') (er_step_results r)) \<noteq> [] \<and> er_verdict r = ''PASS''
       then force_repair r (map st_step_id (filter (\<lambda>s. st_verdict s = ''fail'') (er_step_results r))) else Inr r) = Inr (q16 r)"
    by (simp add: q16_def force_repair_def repair_route Let_def)
  show ?thesis
    unfolding validate_slice_ids_def Let_def q
    by (cases pt) (simp_all add: adjusted_def declared_slices_def)
qed

lemma adjusted_accepted: "consistent r \<Longrightarrow> accepted (adjusted r declared)"
  using q16_accepted [of r]
  by (auto simp: adjusted_def accepted_def consistent_def report_wf_def list_all_iff)


definition demo_plan :: string where
  "demo_plan = ''## SLICE1: a'' @ [CHR 0x0A] @ ''## SLICE2: b''"

lemma demo_plan_slices: "declared_slices (Some demo_plan) = [''SLICE1'', ''SLICE2'']"
  by code_simp

definition demo_pass :: eval_report where
  "demo_pass = demo_report\<lparr>er_verdict := ''PASS'', er_route_decision := ''complete''\<rparr>"

lemma demo_pass_consistent: "consistent demo_pass"
  using demo_wf(2)
  by (simp add: consistent_def demo_pass_def report_wf_def EVAL_VERDICTS_def ROUTE_DECISIONS_def
      default_route_for_verdict_def VERDICT_TO_ROUTE_def)


section \<open>One stage\<close>

lemma paths_distinct: "cx_eval_report ctx \<noteq> cx_flow_state ctx"
  by (simp add: cx_eval_report_def cx_flow_state_def)

definition flow_on_disk :: "wf_context \<Rightarrow> flow_state \<Rightarrow> 'e wf_world \<Rightarrow> bool" where
  "flow_on_disk ctx f w \<longleftrightarrow> load_flow_state (cx_flow_state ctx) (ww_fs w) = Inr f"

definition same_report :: "wf_context \<Rightarrow> 'e wf_world \<Rightarrow> 'e wf_world \<Rightarrow> bool" where
  "same_report ctx w w' \<longleftrightarrow> load_eval_report (cx_eval_report ctx) (ww_fs w') = load_eval_report (cx_eval_report ctx) (ww_fs w)"

text \<open>The report on disk is an accepted one with the verdict and the steps of \<open>r\<close>.\<close>

definition report_on_disk :: "wf_context \<Rightarrow> eval_report \<Rightarrow> 'e wf_world \<Rightarrow> bool" where
  "report_on_disk ctx r w \<longleftrightarrow> accepted r \<and>
     load_eval_report (cx_eval_report ctx) (ww_fs w) =
       Inr (r\<lparr>er_eval_independence := map_option sorted_obj (er_eval_independence r)\<rparr>)"

definition on_time :: "'e wf_ports \<Rightarrow> wf_context \<Rightarrow> stage_args \<times> nat \<Rightarrow> bool" where
  "on_time P ctx d0 \<longleftrightarrow> (\<forall>d. cx_deadline_mono ctx = Some d \<longrightarrow> 0 < snd d0 \<and> wp_clock P (snd d0 - 1) < d)"

definition dispatched :: "'e wf_ports \<Rightarrow> wf_context \<Rightarrow> nat \<Rightarrow> 'e wf_world \<Rightarrow> 'e wf_world \<Rightarrow> bool" where
  "dispatched P ctx n w w' \<longleftrightarrow> (\<exists>new. ww_stages w' = ww_stages w @ new \<and> length new \<le> n \<and> list_all (on_time P ctx) new)"

lemma dispatched_same: "ww_stages w' = ww_stages w \<Longrightarrow> dispatched P ctx n w w'"
  by (auto simp: dispatched_def)

lemma dispatched_trans: "dispatched P ctx n w w' \<Longrightarrow> dispatched P ctx m w' w'' \<Longrightarrow> dispatched P ctx (n + m) w w''"
proof -
  assume "dispatched P ctx n w w'" "dispatched P ctx m w' w''"
  then obtain a b where "ww_stages w' = ww_stages w @ a" "length a \<le> n" "list_all (on_time P ctx) a"
    "ww_stages w'' = ww_stages w' @ b" "length b \<le> m" "list_all (on_time P ctx) b" by (auto simp: dispatched_def)
  then show ?thesis unfolding dispatched_def by (intro exI [of _ "a @ b"]) auto
qed

lemma dispatched_mono: "dispatched P ctx n w w' \<Longrightarrow> n \<le> m \<Longrightarrow> dispatched P ctx m w w'"
  by (auto simp: dispatched_def)

text \<open>The effect of a write: the other artifact and the stages are kept, and on return the file reads back.\<close>

lemma write_json_files:
  "write_json_atomic fault path payload fs = (res, fs') \<Longrightarrow>
     (\<forall>p. p \<noteq> path \<longrightarrow> map_of (fs_files fs') p = map_of (fs_files fs) p) \<and>
     (res = Inr () \<longrightarrow> map_of (fs_files fs') path = Some (Doc payload))"
  by (cases fault) (auto simp: write_json_atomic_def map_of_update_other)

definition quiet :: "'e wf_world \<Rightarrow> 'e wf_world \<Rightarrow> bool" where
  "quiet w w' \<longleftrightarrow> ww_stages w' = ww_stages w \<and> ww_ticks w' = ww_ticks w \<and> ww_env w' = ww_env w"

lemma put_flow_post:
  assumes "flow_wf f"
  shows "post (\<lambda>res w'. quiet w w' \<and> same_report ctx w w' \<and> (res = Inr () \<longrightarrow> flow_on_disk ctx f w')) (put_flow_state ctx f w)"
proof (cases "write_flow_state (next_fault w) (cx_flow_state ctx) f (ww_fs w)")
  case (Pair res fs')
  note eff = write_json_files [OF Pair [unfolded write_flow_state_def]]
  have "load_eval_report (cx_eval_report ctx) fs' = load_eval_report (cx_eval_report ctx) (ww_fs w)"
    using eff paths_distinct by (simp add: load_eval_report_def load_json_def)
  moreover have "res = Inr () \<Longrightarrow> load_flow_state (cx_flow_state ctx) fs' = Inr f"
    using eff assms by (simp add: load_flow_state_def load_json_def json_sort_obj flow_roundtrip del: json_sort.simps)
  ultimately show ?thesis
    by (simp add: put_flow_state_def Pair post_def quiet_def same_report_def flow_on_disk_def)
qed

lemma put_report_post:
  assumes "accepted r"
  shows "post (\<lambda>res w'. quiet w w' \<and> (res = Inr () \<longrightarrow> report_on_disk ctx r w')) (put_eval_report ctx r w)"
proof (cases "write_eval_report (next_fault w) (cx_eval_report ctx) r (ww_fs w)")
  case (Pair res fs')
  note eff = write_json_files [OF Pair [unfolded write_eval_report_def]]
  have "report_wf r" using assms by (simp add: accepted_def consistent_def)
  then have "res = Inr () \<Longrightarrow> load_eval_report (cx_eval_report ctx) fs' =
      Inr (r\<lparr>er_eval_independence := map_option sorted_obj (er_eval_independence r)\<rparr>)"
    using eff by (simp add: load_eval_report_def load_json_def json_sort_obj report_roundtrip del: json_sort.simps)
  then show ?thesis
    using assms by (simp add: put_eval_report_def Pair post_def quiet_def report_on_disk_def)
qed

lemma parse_report_consistent:
  "parse_eval_report (Some t) run_id plan_id eid v indep = Inr r \<Longrightarrow> consistent r"
proof -
  assume p: "parse_eval_report (Some t) run_id plan_id eid v indep = Inr r"
  obtain rs where rs: "scan_step_results t = Inr rs" and ok: "claims_ok rs"
    using scan_steps_ok [of "[]" "splitlines t"] by (auto simp: scan_step_results_def claims_ok_def)
  then have wf: "list_all step_wf rs" by (auto simp: claims_ok_def list_all_iff)
  show ?thesis
  proof (cases "scan_verdict t")
    case None
    with p rs wf show ?thesis
      by (auto simp: parse_eval_report_def consistent_def report_wf_def EVAL_VERDICTS_def ROUTE_DECISIONS_def
          default_route_for_verdict_def VERDICT_TO_ROUTE_def)
  next
    case (Some verdict)
    from scan_tokens_in [OF Some [unfolded scan_verdict_def]] verdict_token
    have v: "verdict \<in> set EVAL_VERDICTS" by blast
    from default_route [OF v] obtain d where "d \<in> set ROUTE_DECISIONS" "default_route_for_verdict verdict = Inr d" by blast
    with p rs wf Some v show ?thesis by (auto simp: parse_eval_report_def consistent_def report_wf_def Let_def)
  qed
qed

lemma stage_report_post:
  "post (\<lambda>res w'. quiet w w' \<and> (\<forall>r. res = Inr r \<longrightarrow> report_on_disk ctx r w')) (stage_report P ctx progress t w)"
proof -
  let ?made = "rbind (load_independence P w) (\<lambda>indep.
              rbind (plan_identity P ctx w) (\<lambda>plan_id.
              rbind (build_eval_report t (cx_run_id ctx) plan_id (pg_plan_version progress) indep) (\<lambda>report.
              rbind (plan_text P ctx w) (validate_slice_ids report))))"
  have made: "?made = Inr (r, ws) \<Longrightarrow> accepted r" for r ws
  proof -
    assume "?made = Inr (r, ws)"
    then obtain indep pid r0 pt where "build_eval_report t (cx_run_id ctx) pid (pg_plan_version progress) indep = Inr r0"
      and v: "validate_slice_ids r0 pt = Inr (r, ws)" by auto
    then have "consistent r0" unfolding build_eval_report_def by (blast intro: parse_report_consistent)
    moreover obtain ws' where "validate_slice_ids r0 pt = Inr (adjusted r0 (declared_slices pt), ws')"
      using validate_slice_ids_adjusted by blast
    ultimately show "accepted r" using v adjusted_accepted by simp
  qed
  show ?thesis
    unfolding stage_report_def
  proof (rule post_sbind [where R = "\<lambda>res w'. w' = w \<and> res = ?made"])
    show "post (\<lambda>res w'. w' = w \<and> res = ?made) (?made, w)" by simp
  next
    fix rw w' assume rw: "w' = w \<and> Inr rw = ?made"
    obtain r ws where "rw = (r, ws)" by (cases rw)
    from conjunct2 [OF rw] have "?made = Inr (r, ws)" unfolding \<open>rw = (r, ws)\<close> by (rule sym)
    then have acc: "accepted r" by (rule made)
    show "post (\<lambda>res w'. quiet w w' \<and> (\<forall>r. res = Inr r \<longrightarrow> report_on_disk ctx r w'))
       ((case rw of (report, warnings) \<Rightarrow> \<lambda>w. sbind (put_eval_report ctx report w) (\<lambda>_. ask (Inr report))) w')"
      using rw \<open>rw = (r, ws)\<close>
      by (auto intro!: post_sbind [OF put_report_post [OF acc]])
  qed (simp add: quiet_def)
qed

definition deadline_marked :: "wf_context \<Rightarrow> 'e wf_world \<Rightarrow> bool" where
  "deadline_marked ctx w \<longleftrightarrow> (\<exists>f. flow_on_disk ctx f w \<and> fl_run_id f = cx_run_id ctx \<and> fl_status f = ''FAILED'' \<and>
     prefix DEADLINE_REASON_MARKER (fl_last_transition_reason f))"

text \<open>No stage returns the deadline's exit code.\<close>

definition stage_codes :: "'e wf_ports \<Rightarrow> bool" where
  "stage_codes P \<longleftrightarrow> (\<forall>args env code sink env'. wp_run_stage P args env = (Inr (code, sink), env') \<longrightarrow>
     code \<noteq> WORKFLOW_DEADLINE_EXIT_CODE)"

lemma flow_wf_states:
  "flow_wf (deadline_state ctx role progress el)" "flow_wf (dispatch_state ctx role progress reason)"
  "flow_wf (initial_state ctx mode role)" "flow_wf (terminal_state ctx role rep progress reason b)"
proof -
  show "flow_wf (terminal_state ctx role rep progress reason b)"
    by (cases rep) (auto simp: flow_wf_def terminal_state_def FLOW_STATUSES_def terminal_status_without_eval_def
        EVAL_VERDICT_TO_TERMINAL_STATUS_def dict_get_default_def)
qed (simp_all add: flow_wf_def deadline_state_def dispatch_state_def initial_state_def status_for_role_def FLOW_STATUSES_def)

lemma deadline_state_fields:
  "fl_run_id (deadline_state ctx role progress el) = cx_run_id ctx"
  "fl_status (deadline_state ctx role progress el) = ''FAILED''"
  "prefix DEADLINE_REASON_MARKER (fl_last_transition_reason (deadline_state ctx role progress el))"
  by (simp_all add: deadline_state_def flow_base_def)

lemma write_deadline_post:
  "post (\<lambda>res w'. ww_stages w' = ww_stages w \<and> same_report ctx w w' \<and> (res = Inr () \<longrightarrow> deadline_marked ctx w'))
     (write_deadline_state P ctx role progress w)"
proof -
  have *: "post (\<lambda>res w'. ww_stages w' = ww_stages w \<and> same_report ctx w w' \<and> (res = Inr () \<longrightarrow> deadline_marked ctx w'))
      (put_flow_state ctx (deadline_state ctx role progress el) v)"
    if "ww_stages v = ww_stages w" "ww_fs v = ww_fs w" for el v
    using that by (intro post_weaken [OF put_flow_post [OF flow_wf_states(1)]])
      (auto simp: quiet_def same_report_def deadline_marked_def intro!: exI [of _ "deadline_state ctx role progress el"] simp: deadline_state_fields)
  show ?thesis
    unfolding write_deadline_state_def monotonic_def by (auto split: option.splits intro!: *)
qed

text \<open>What one stage does.\<close>

definition stage_post :: "'e wf_ports \<Rightarrow> wf_context \<Rightarrow> 'e wf_world \<Rightarrow> stage_result py_result \<Rightarrow> 'e wf_world \<Rightarrow> bool" where
  "stage_post P ctx w res w' \<longleftrightarrow> dispatched P ctx 1 w w' \<and>
     (\<forall>g. res = Inr g \<longrightarrow>
        (case sg_eval_report g of Some r \<Rightarrow> report_on_disk ctx r w' | None \<Rightarrow> same_report ctx w w') \<and>
        (stage_codes P \<longrightarrow> sg_exit_code g = WORKFLOW_DEADLINE_EXIT_CODE \<longrightarrow> deadline_marked ctx w'))"

lemma call_stage_post:
  assumes "on_time P ctx (args, ww_ticks w)"
  shows "post (\<lambda>res w'. dispatched P ctx 1 w w' \<and> ww_fs w' = ww_fs w \<and>
      (\<forall>code sink. res = Inr (code, sink) \<longrightarrow> stage_codes P \<longrightarrow> code \<noteq> WORKFLOW_DEADLINE_EXIT_CODE)) (call_stage P args w)"
  using assms by (cases "wp_run_stage P args (ww_env w)")
    (simp add: call_stage_def dispatched_def stage_codes_def post_def, metis)

lemma run_stage_late:
  "post (stage_post P ctx w0) (sbind (write_deadline_state P ctx role progress w) (\<lambda>_.
      ask (Inr \<lparr>sg_role = role, sg_exit_code = WORKFLOW_DEADLINE_EXIT_CODE, sg_eval_report = None\<rparr>)))"
  if "ww_stages w = ww_stages w0" "ww_fs w = ww_fs w0"
  by (rule post_sbind [OF write_deadline_post])
    (use that in \<open>auto simp: stage_post_def same_report_def intro: dispatched_same\<close>)

lemma on_time_reading:
  "deadline_exceeded P ctx w0 = (False, w) \<Longrightarrow> on_time P ctx (args, ww_ticks w) \<and> ww_stages w = ww_stages w0 \<and> ww_fs w = ww_fs w0"
  by (auto simp: deadline_exceeded_def monotonic_def on_time_def split: option.splits)

lemma stage_outcome_post:
  assumes "dispatched P ctx 1 w0 w" "same_report ctx w0 w" "stage_codes P \<longrightarrow> fst out \<noteq> WORKFLOW_DEADLINE_EXIT_CODE"
  shows "post (stage_post P ctx w0) (stage_outcome P ctx role progress out w)"
proof -
  have disp: "quiet w w' \<Longrightarrow> dispatched P ctx 1 w0 w'" for w' using assms(1) by (simp add: dispatched_def quiet_def)
  have "post (stage_post P ctx w0) (sbind (stage_report P ctx progress (last (snd out)) w) (\<lambda>report.
            ask (Inr \<lparr>sg_role = role, sg_exit_code = fst out, sg_eval_report = Some report\<rparr>)))"
    by (rule post_sbind [OF stage_report_post]) (use assms(3) disp in \<open>auto simp: stage_post_def\<close>)
  then show ?thesis using assms by (cases out) (auto simp: stage_post_def stage_outcome_def)
qed

lemma stage_call_post:
  assumes "on_time P ctx (args, ww_ticks w)" "ww_stages w = ww_stages w0" "same_report ctx w0 w"
  shows "post (stage_post P ctx w0) (sbind (call_stage P args w) (stage_outcome P ctx role progress))"
proof (rule post_sbind [OF call_stage_post [OF assms(1)]])
  fix e s
  assume "dispatched P ctx 1 w s \<and> ww_fs s = ww_fs w \<and> (\<forall>code sink.
      (Inl e :: (int \<times> string list) py_result) = Inr (code, sink) \<longrightarrow> stage_codes P \<longrightarrow> code \<noteq> WORKFLOW_DEADLINE_EXIT_CODE)"
  then show "stage_post P ctx w0 (Inl e) s" using assms by (simp add: stage_post_def dispatched_def)
next
  fix x s
  assume "dispatched P ctx 1 w s \<and> ww_fs s = ww_fs w \<and> (\<forall>code sink.
      (Inr x :: (int \<times> string list) py_result) = Inr (code, sink) \<longrightarrow> stage_codes P \<longrightarrow> code \<noteq> WORKFLOW_DEADLINE_EXIT_CODE)"
  with assms show "post (stage_post P ctx w0) (stage_outcome P ctx role progress x s)"
    by (intro stage_outcome_post) (auto simp: dispatched_def same_report_def prod_eq_iff)
qed

lemma run_stage_post: "post (stage_post P ctx w0) (run_stage P ctx role fresh progress reason w0)"
proof (cases "deadline_exceeded P ctx w0")
  case (Pair late w)
  show ?thesis
  proof (cases late)
    case True
    have "ww_stages w = ww_stages w0" "ww_fs w = ww_fs w0"
      using Pair by (auto simp: deadline_exceeded_def monotonic_def split: option.splits)
    from run_stage_late [OF this] show ?thesis by (simp add: run_stage_def Pair True)
  next
    case False
    with Pair have dl: "deadline_exceeded P ctx w0 = (False, w)" by simp
    note early = on_time_reading [OF dl]
    have step: "post (stage_post P ctx w0) (sbind (ask (stage_task P ctx role w1) w1) (\<lambda>task w.
          sbind (call_stage P (make_stage_args P ctx role fresh task w) w) (stage_outcome P ctx role progress)))"
      if w1: "quiet w w1" "same_report ctx w w1" for w1
    proof (rule post_sbind [where R = "\<lambda>_ w2. w2 = w1"])
      have same: "ww_stages w1 = ww_stages w0" "same_report ctx w0 w1" "on_time P ctx (args, ww_ticks w1)" for args
        using w1 early by (auto simp: quiet_def same_report_def)
      show "\<And>e s. s = w1 \<Longrightarrow> stage_post P ctx w0 (Inl e) s" using same by (simp add: stage_post_def dispatched_same)
      show "\<And>task s. s = w1 \<Longrightarrow> post (stage_post P ctx w0)
          (sbind (call_stage P (make_stage_args P ctx role fresh task s) s) (stage_outcome P ctx role progress))"
        using same by (simp add: stage_call_post)
    qed simp
    show ?thesis
      unfolding run_stage_def dl prod.case bool.case
      by (rule post_sbind [OF put_flow_post [OF flow_wf_states(2)]])
        (use early in \<open>auto simp: stage_post_def quiet_def intro: dispatched_same intro!: step\<close>)
  qed
qed

section \<open>The pipelines\<close>

definition held_report :: "wf_context \<Rightarrow> eval_report option \<Rightarrow> 'e wf_world \<Rightarrow> bool" where
  "held_report ctx rep w \<longleftrightarrow> (\<forall>r. rep = Some r \<longrightarrow> report_on_disk ctx r w)"

lemma held_same: "held_report ctx rep w \<Longrightarrow> same_report ctx w w' \<Longrightarrow> held_report ctx rep w'"
  by (simp add: held_report_def report_on_disk_def same_report_def)

definition roles_post ::
  "'e wf_ports \<Rightarrow> wf_context \<Rightarrow> bool \<Rightarrow> nat \<Rightarrow> 'e wf_world \<Rightarrow> (int + eval_report option) py_result \<Rightarrow> 'e wf_world \<Rightarrow> bool" where
  "roles_post P ctx judged n w res w' \<longleftrightarrow> dispatched P ctx n w w' \<and>
     (\<forall>out. res = Inr out \<longrightarrow> (case out of
        Inl code \<Rightarrow> code \<noteq> 0 \<and> (stage_codes P \<longrightarrow> code = WORKFLOW_DEADLINE_EXIT_CODE \<longrightarrow> deadline_marked ctx w')
      | Inr rep \<Rightarrow> held_report ctx rep w' \<and> (judged \<longrightarrow> rep \<noteq> None)))"

lemma failure_state_post:
  "post (\<lambda>res w'. quiet w w' \<and> (code = WORKFLOW_DEADLINE_EXIT_CODE \<longrightarrow> w' = w)) (write_stage_failure_state ctx role code progress w)"
proof -
  let ?f = "(flow_base ctx progress)\<lparr>fl_status := ''FAILED'', fl_active_role := role,
             fl_last_actor := role, fl_last_transition_reason := ''stage exited '' @ int_str code,
             fl_blocked_reason := ''stage '' @ py_repr role @ '' exited '' @ int_str code\<rparr>"
  have "flow_wf ?f" by (simp add: flow_wf_def FLOW_STATUSES_def)
  from put_flow_post [OF this, of w ctx] show ?thesis
    by (auto simp: write_stage_failure_state_def post_def quiet_def)
qed

lemma run_roles_post:
  "held_report ctx rep w \<Longrightarrow> post (roles_post P ctx (rep \<noteq> None) (length roles) w) (run_roles P ctx progress fresh reason i roles rep w)"
proof (induction roles arbitrary: i rep w)
  case Nil
  then show ?case by (simp add: roles_post_def dispatched_same)
next
  case (Cons role roles)
  have grow: "dispatched P ctx (Suc 0) w w1 \<Longrightarrow> quiet w1 w2 \<Longrightarrow> dispatched P ctx (Suc (length roles)) w w2" for w1 w2
    by (auto simp: dispatched_def quiet_def)
  show ?case
    unfolding run_roles.simps
  proof (rule post_sbind [OF run_stage_post])
    fix e w1 assume "stage_post P ctx w (Inl e) w1"
    then show "roles_post P ctx (rep \<noteq> None) (length (role # roles)) w (Inl e) w1"
      by (auto simp: stage_post_def roles_post_def intro: dispatched_mono)
  next
    fix g w1 assume g: "stage_post P ctx w (Inr g) w1"
    show "post (roles_post P ctx (rep \<noteq> None) (length (role # roles)) w)
       (if sg_exit_code g \<noteq> 0
        then sbind (write_stage_failure_state ctx role (sg_exit_code g) progress w1) (\<lambda>_. ask (Inr (Inl (sg_exit_code g))))
        else run_roles P ctx progress fresh reason (Suc i) roles
              (case sg_eval_report g of Some r \<Rightarrow> Some r | None \<Rightarrow> rep) w1)"
    proof (cases "sg_exit_code g = 0")
      case True
      have "held_report ctx (case sg_eval_report g of Some r \<Rightarrow> Some r | None \<Rightarrow> rep) w1"
      proof (cases "sg_eval_report g")
        case None
        with g have "same_report ctx w w1" by (simp add: stage_post_def)
        with None show ?thesis by (simp add: held_same [OF Cons.prems])
      qed (use g in \<open>simp add: stage_post_def held_report_def\<close>)
      from Cons.IH [OF this, of "Suc i"] have "post (roles_post P ctx (rep \<noteq> None) (length (role # roles)) w)
          (run_roles P ctx progress fresh reason (Suc i) roles (case sg_eval_report g of Some r \<Rightarrow> Some r | None \<Rightarrow> rep) w1)"
        by (rule post_weaken) (use g in \<open>auto simp: roles_post_def stage_post_def dest: dispatched_trans split: sum.splits option.splits\<close>)
      then show ?thesis using True by simp
    next
      case False
      have "post (roles_post P ctx (rep \<noteq> None) (length (role # roles)) w)
         (sbind (write_stage_failure_state ctx role (sg_exit_code g) progress w1) (\<lambda>_. ask (Inr (Inl (sg_exit_code g)))))"
        by (rule post_sbind [OF failure_state_post])
          (use g False in \<open>auto simp: roles_post_def stage_post_def intro: grow\<close>)
      then show ?thesis using False by simp
    qed
  qed
qed

text \<open>The terminal state: \<open>DONE\<close> means a \<open>PASS\<close> on disk, or that no evaluation was asked for.\<close>

definition terminal_ok :: "wf_context \<Rightarrow> string list \<Rightarrow> 'e wf_world \<Rightarrow> bool" where
  "terminal_ok ctx roles w \<longleftrightarrow> (\<exists>f. flow_on_disk ctx f w \<and> fl_run_id f = cx_run_id ctx \<and>
     (fl_status f = ''DONE'' \<longrightarrow>
        (if fl_judged f then \<exists>r. report_on_disk ctx r w \<and> er_verdict r = ''PASS'' else ''eval'' \<notin> set roles)))"

lemma done_is_pass: "dict_get_default EVAL_VERDICT_TO_TERMINAL_STATUS v ''FAILED'' = ''DONE'' \<Longrightarrow> v = ''PASS''"
  by (auto simp: EVAL_VERDICT_TO_TERMINAL_STATUS_def dict_get_default_def split: if_splits)

lemma write_terminal_post:
  assumes "held_report ctx rep w" "rep = None \<longrightarrow> requested = (''eval'' \<in> set roles)"
  shows "post (\<lambda>res w'. quiet w w' \<and> (res = Inr () \<longrightarrow> terminal_ok ctx roles w'))
     (write_terminal_state ctx role rep progress reason requested w)"
proof -
  let ?f = "terminal_state ctx role rep progress reason requested"
  have id: "fl_run_id ?f = cx_run_id ctx" "fl_judged ?f = (rep \<noteq> None)"
    by (auto simp: terminal_state_def flow_base_def split: prod.splits)
  have ok: "fl_status ?f = ''DONE'' \<Longrightarrow> (case rep of Some r \<Rightarrow> er_verdict r = ''PASS'' | None \<Rightarrow> ''eval'' \<notin> set roles)"
    using assms(2) by (cases rep) (auto simp: terminal_state_def terminal_status_without_eval_def dest: done_is_pass split: if_splits)
  show ?thesis
    unfolding write_terminal_state_def
  proof (rule post_weaken [OF put_flow_post [OF flow_wf_states(4)]])
    fix res w'
    assume w': "quiet w w' \<and> same_report ctx w w' \<and> (res = Inr () \<longrightarrow> flow_on_disk ctx ?f w')"
    then have "held_report ctx rep w'" using held_same [OF assms(1)] by blast
    with w' id ok show "quiet w w' \<and> (res = Inr () \<longrightarrow> terminal_ok ctx roles w')"
      by (cases rep) (auto simp: terminal_ok_def held_report_def intro!: exI [of _ ?f])
  qed
qed

definition flow_post ::
  "'e wf_ports \<Rightarrow> wf_context \<Rightarrow> string list \<Rightarrow> nat \<Rightarrow> 'e wf_world \<Rightarrow> int py_result \<Rightarrow> 'e wf_world \<Rightarrow> bool" where
  "flow_post P ctx roles n w res w' \<longleftrightarrow> dispatched P ctx n w w' \<and>
     (\<forall>code. res = Inr code \<longrightarrow> (code = 0 \<longrightarrow> terminal_ok ctx roles w') \<and>
        (stage_codes P \<longrightarrow> code = WORKFLOW_DEADLINE_EXIT_CODE \<longrightarrow> deadline_marked ctx w'))"

lemma flow_post_mono: "flow_post P ctx roles n w res w' \<Longrightarrow> n \<le> m \<Longrightarrow> flow_post P ctx roles m w res w'"
  by (auto simp: flow_post_def intro: dispatched_mono)

lemma deadline_nonzero: "WORKFLOW_DEADLINE_EXIT_CODE \<noteq> 0"
  by (simp add: WORKFLOW_DEADLINE_EXIT_CODE_def)

lemma finish_post:
  assumes "held_report ctx rep w" "rep = None \<longrightarrow> requested = (''eval'' \<in> set roles)"
  shows "post (flow_post P ctx roles n w)
     (sbind (write_terminal_state ctx role rep progress reason requested w) (\<lambda>_. ask (Inr 0)))"
  by (rule post_sbind [OF write_terminal_post [OF assms]])
    (use deadline_nonzero in \<open>auto simp: flow_post_def quiet_def intro: dispatched_same\<close>)

text \<open>A pass over roles, followed by code that needs at most \<open>m\<close> more stages.\<close>

lemma roles_then_post:
  assumes "held_report ctx rep w" "length roles1 + m \<le> n"
    and "\<And>latest w'. held_report ctx latest w' \<Longrightarrow> rep \<noteq> None \<longrightarrow> latest \<noteq> None \<Longrightarrow> post (flow_post P ctx roles m w') (k (Inr latest) w')"
    and "\<And>code w'. k (Inl code) w' = (Inr code, w')"
  shows "post (flow_post P ctx roles n w) (sbind (run_roles P ctx progress fresh reason i roles1 rep w) k)"
proof (rule post_sbind [OF run_roles_post [OF assms(1)]])
  fix e w1 assume "roles_post P ctx (rep \<noteq> None) (length roles1) w (Inl e) w1"
  then show "flow_post P ctx roles n w (Inl e) w1"
    using assms(2) by (auto simp: roles_post_def flow_post_def intro: dispatched_mono)
next
  fix out w1 assume out: "roles_post P ctx (rep \<noteq> None) (length roles1) w (Inr out) w1"
  show "post (flow_post P ctx roles n w) (k out w1)"
  proof (cases out)
    case (Inl code)
    with out assms(2,4) show ?thesis by (auto simp: roles_post_def flow_post_def intro: dispatched_mono)
  next
    case (Inr latest)
    with out have "held_report ctx latest w1" "rep \<noteq> None \<longrightarrow> latest \<noteq> None" by (simp_all add: roles_post_def)
    from assms(3) [OF this] have "post (flow_post P ctx roles n w) (k (Inr latest) w1)"
      by (rule post_weaken)
        (use out assms(2) in \<open>auto simp: roles_post_def flow_post_def dest: dispatched_trans intro: dispatched_mono\<close>)
    then show ?thesis using Inr by simp
  qed
qed

lemma canonical_length: "length (canonical_loop_roles roles True) \<le> 3" "length (canonical_loop_roles roles False) \<le> 2"
  unfolding canonical_loop_roles_def by (rule order_trans [OF length_filter_le], simp)+

definition loop_budget :: "int \<Rightarrow> int \<Rightarrow> wf_progress \<Rightarrow> nat" where
  "loop_budget max_repairs max_replans progress =
     2 * nat (max_repairs - pg_repair_round progress) + 3 * nat (max_replans - pg_replan_round progress)"

lemma adaptive_loop_post:
  "held_report ctx (Some report) w \<Longrightarrow>
     post (flow_post P ctx roles (loop_budget max_repairs max_replans progress) w)
       (adaptive_loop P ctx roles max_repairs max_replans progress report w)"
proof (induction "loop_budget max_repairs max_replans progress" arbitrary: progress report w rule: less_induct)
  case less
  have fin: "post (flow_post P ctx roles (loop_budget max_repairs max_replans progress) w)
      (sbind (write_terminal_state ctx ''eval'' (Some report) progress reason False w) (\<lambda>_. ask (Inr 0)))" for reason
    by (rule finish_post [OF less.prems]) simp
  have again: "post (flow_post P ctx roles (loop_budget max_repairs max_replans progress) w)
      (sbind (run_roles P ctx progress' fresh reason i roles1 (Some report) w) (\<lambda>out w'.
             case out of Inl code \<Rightarrow> (Inr code, w')
             | Inr latest \<Rightarrow> adaptive_loop P ctx roles max_repairs max_replans progress'
                 (case latest of Some r \<Rightarrow> r | None \<Rightarrow> report) w'))"
    if "length roles1 + loop_budget max_repairs max_replans progress' \<le> loop_budget max_repairs max_replans progress"
      "loop_budget max_repairs max_replans progress' < loop_budget max_repairs max_replans progress"
    for progress' fresh reason i roles1
  proof (rule roles_then_post [OF less.prems that(1)])
    fix latest and w' :: "'a wf_world" assume latest: "held_report ctx latest w'" "Some report \<noteq> None \<longrightarrow> latest \<noteq> None"
    then obtain r where "latest = Some r" by auto
    with latest less.hyps [OF that(2), of r w'] show "post (flow_post P ctx roles (loop_budget max_repairs max_replans progress') w')
        (case Inr latest of Inl code \<Rightarrow> (Inr code, w')
         | Inr latest \<Rightarrow> adaptive_loop P ctx roles max_repairs max_replans progress'
             (case latest of Some r \<Rightarrow> r | None \<Rightarrow> report) w')" by simp
  qed simp
  show ?case
    unfolding adaptive_loop.simps [of P ctx roles max_repairs max_replans progress report w] Let_def
    apply (intro post_if fin again)
    using canonical_length [of roles] by (simp_all add: loop_budget_def)
qed

abbreviation stage_budget :: "string list \<Rightarrow> int \<Rightarrow> int \<Rightarrow> nat" where
  "stage_budget roles max_repairs max_replans \<equiv> length roles + (2 * nat max_repairs + 3 * nat max_replans)"

lemma run_adaptive_post:
  "post (flow_post P ctx roles (stage_budget roles max_repairs max_replans) w) (run_adaptive P ctx roles max_repairs max_replans w)"
  unfolding run_adaptive_def run_initial_roles_def
proof (rule roles_then_post [where m = "2 * nat max_repairs + 3 * nat max_replans"])
  fix latest and w' :: "'a wf_world" assume held: "held_report ctx latest w'"
  show "post (flow_post P ctx roles (2 * nat max_repairs + 3 * nat max_replans) w')
     (case Inr latest of Inl code \<Rightarrow> (Inr code, w')
      | Inr None \<Rightarrow>
           sbind (write_terminal_state ctx (last roles) None progress_init
                    (if ''eval'' \<in> set roles then ''eval stage ran but produced no verdict''
                     else ''adaptive workflow completed without eval stage'')
                    (''eval'' \<in> set roles) w') (\<lambda>_. ask (Inr 0))
      | Inr (Some report) \<Rightarrow> adaptive_loop P ctx roles max_repairs max_replans progress_init report w')"
  proof (cases latest)
    case None
    show ?thesis unfolding None sum.case option.case
      by (rule finish_post [OF held [unfolded None]]) simp
  next
    case (Some r)
    with held adaptive_loop_post [of ctx r w' P roles max_repairs max_replans progress_init] show ?thesis
      by (simp add: loop_budget_def progress_init_def)
  qed
qed (simp_all add: held_report_def)

lemma run_linear_post: "post (flow_post P ctx roles (length roles) w) (run_linear P ctx roles w)"
  unfolding run_linear_def run_initial_roles_def
  by (rule roles_then_post [where m = 0]) (auto simp: held_report_def intro: finish_post)

lemma run_body_post:
  "post (flow_post P ctx roles (stage_budget roles max_repairs max_replans) w)
     (if mode = ''adaptive'' then run_adaptive P ctx roles max_repairs max_replans w else run_linear P ctx roles w)"
  by (intro post_if run_adaptive_post post_weaken [OF run_linear_post]) (erule flow_post_mono, simp)

definition workflow_post ::
  "'e wf_ports \<Rightarrow> wf_context \<Rightarrow> string list \<Rightarrow> nat \<Rightarrow> 'e wf_world \<Rightarrow> (int \<times> flow_state option) py_result \<Rightarrow> 'e wf_world \<Rightarrow> bool" where
  "workflow_post P ctx roles n w res w' \<longleftrightarrow> dispatched P ctx n w w' \<and>
     (\<forall>code t. res = Inr (code, t) \<longrightarrow> read_back_terminal_state ctx w' = Inr t \<and>
        (code = 0 \<longrightarrow> terminal_ok ctx roles w' \<and> (\<forall>f. t = Some f \<longrightarrow> fl_status f = ''DONE'')) \<and>
        (stage_codes P \<longrightarrow> code = WORKFLOW_DEADLINE_EXIT_CODE \<longrightarrow> deadline_marked ctx w'))"

lemma read_back_post:
  assumes "flow_post P ctx roles n w (Inr code) w'"
  shows "post (workflow_post P ctx roles n w)
     (sbind (ask (read_back_terminal_state ctx w') w') (\<lambda>t. ask (Inr (workflow_exit_code code t, t))))"
proof (cases "read_back_terminal_state ctx w'")
  case (Inr t)
  have "workflow_exit_code code t = 0 \<Longrightarrow> code = 0 \<and> (\<forall>f. t = Some f \<longrightarrow> fl_status f = ''DONE'')"
    by (auto simp: workflow_exit_code_def split: option.splits if_splits)
  moreover have "workflow_exit_code code t = WORKFLOW_DEADLINE_EXIT_CODE \<Longrightarrow> code = WORKFLOW_DEADLINE_EXIT_CODE"
    by (auto simp: workflow_exit_code_def WORKFLOW_DEADLINE_EXIT_CODE_def split: option.splits if_splits)
  ultimately show ?thesis using assms Inr by (auto simp: workflow_post_def flow_post_def)
qed (use assms in \<open>simp add: workflow_post_def flow_post_def\<close>)

lemma run_workflow_post:
  "post (workflow_post P ctx roles (stage_budget roles max_repairs max_replans) w)
     (run_workflow P ctx roles mode max_repairs max_replans w)"
proof -
  let ?n = "stage_budget roles max_repairs max_replans"
  let ?rest = "\<lambda>code w'. sbind (ask (read_back_terminal_state ctx w') w') (\<lambda>t. ask (Inr (workflow_exit_code code t, t)))"
  have body: "post (workflow_post P ctx roles ?n w1)
      (sbind (if mode = ''adaptive'' then run_adaptive P ctx roles max_repairs max_replans w1 else run_linear P ctx roles w1) ?rest)" for w1
    by (rule post_sbind [OF run_body_post])
      (auto simp: flow_post_def [of P ctx roles ?n w1 "Inl _"] workflow_post_def [of P ctx roles ?n w1 "Inl _"] intro: read_back_post)
  have shift: "workflow_post P ctx roles ?n w res w'" if "workflow_post P ctx roles ?n w1 res w'" "ww_stages w1 = ww_stages w" for res w' w1
    using that by (simp add: workflow_post_def dispatched_def)
  show ?thesis
    unfolding run_workflow_def
  proof (intro post_if)
    assume "roles = []"
    show "post (workflow_post P ctx roles ?n w) (Inl (Exn (OtherError ''IndexError'') ''list index out of range''), w)"
      by (simp add: workflow_post_def dispatched_same)
  next
    show "post (workflow_post P ctx roles ?n w) (sbind (put_flow_state ctx (initial_state ctx mode (hd roles)) w) (\<lambda>_ w.
        sbind (if mode = ''adaptive'' then run_adaptive P ctx roles max_repairs max_replans w else run_linear P ctx roles w) ?rest))"
    proof (rule post_sbind [OF put_flow_post [OF flow_wf_states(3)]])
      fix e w1 assume "quiet w w1 \<and> same_report ctx w w1 \<and> ((Inl e :: unit py_result) = Inr () \<longrightarrow> flow_on_disk ctx (initial_state ctx mode (hd roles)) w1)"
      then show "workflow_post P ctx roles ?n w (Inl e) w1" by (simp add: workflow_post_def quiet_def dispatched_same)
    next
      fix x w1 assume "quiet w w1 \<and> same_report ctx w w1 \<and> ((Inr x :: unit py_result) = Inr () \<longrightarrow> flow_on_disk ctx (initial_state ctx mode (hd roles)) w1)"
      then have "ww_stages w1 = ww_stages w" by (simp add: quiet_def)
      then show "post (workflow_post P ctx roles ?n w)
          (sbind (if mode = ''adaptive'' then run_adaptive P ctx roles max_repairs max_replans w1 else run_linear P ctx roles w1) ?rest)"
        by (intro post_weaken [OF body]) (rule shift)
    qed
  qed
qed

text \<open>C13: A workflow run ends and dispatches boundedly many stages, whatever the stages do and whatever
  writes fail: at most one per requested role, two per repair round and three per replan round; with
  budgets resolved from the command line that is at most twelve more than the roles. With a deadline,
  every stage was dispatched right after a clock reading before the deadline.\<close>

theorem workflow_bounded_on_time:
  assumes "run_workflow P ctx roles mode max_repairs max_replans w = (res, w')"
  shows "\<exists>new. ww_stages w' = ww_stages w @ new \<and>
      length new \<le> length roles + 2 * nat max_repairs + 3 * nat max_replans \<and>
      (max_repairs = resolve_max_repairs a \<longrightarrow> max_replans = resolve_max_replans b \<longrightarrow> length new \<le> length roles + 12) \<and>
      (\<forall>(args, t) \<in> set new. \<forall>d. cx_deadline_mono ctx = Some d \<longrightarrow> 0 < t \<and> wp_clock P (t - 1) < d)"
proof -
  from postD [OF run_workflow_post assms] obtain new where new: "ww_stages w' = ww_stages w @ new"
      "length new \<le> stage_budget roles max_repairs max_replans" "list_all (on_time P ctx) new"
    by (auto simp: workflow_post_def dispatched_def)
  have "nat (resolve_max_repairs a) \<le> 3" "nat (resolve_max_replans b) \<le> 2"
    by (simp_all add: resolve_max_repairs_def resolve_max_replans_def resolve_max_def Let_def
        MAX_REPAIRS_CEILING_def MAX_REPLANS_CEILING_def)
  then show ?thesis using new by (intro exI [of _ new]) (auto simp: list_all_iff on_time_def)
qed


text \<open>A run stopped by its deadline says so: if no stage itself returns the deadline's exit code, a
  run that returns it left, and returns, a terminal state \<open>FAILED\<close> of this run whose transition reason
  starts with the marker the workflow tool looks for.\<close>

theorem workflow_deadline_marked:
  assumes "run_workflow P ctx roles mode max_repairs max_replans w = (Inr (WORKFLOW_DEADLINE_EXIT_CODE, t), w')"
    and "stage_codes P"
  shows "\<exists>f. t = Some f \<and> fl_status f = ''FAILED'' \<and> fl_run_id f = cx_run_id ctx \<and>
     prefix DEADLINE_REASON_MARKER (fl_last_transition_reason f)"
proof -
  from postD [OF run_workflow_post assms(1)] assms(2) have "read_back_terminal_state ctx w' = Inr t" "deadline_marked ctx w'"
    by (auto simp: workflow_post_def)
  then show ?thesis by (auto simp: deadline_marked_def flow_on_disk_def read_back_terminal_state_def)
qed

section \<open>Concrete runs\<close>

text \<open>A coder that succeeds silently and an evaluator that answers \<open>PASS\<close>, with and without a deadline
  that has passed.\<close>

definition demo_ports :: "unit wf_ports" where
  "demo_ports = \<lparr>wp_clock = (\<lambda>n. 1), wp_run_stage = (\<lambda>args env. (Inr (0, if sa_role args = ''eval'' then [''PASS''] else []), ())),
     wp_read_text = (\<lambda>env p. Inl (Exn OSError [])), wp_git = (\<lambda>env args. GitRaised (Exn OSError [])),
     wp_is_file = (\<lambda>env p. False), wp_load_models = (\<lambda>env. Inr None), wp_user_config = (\<lambda>env. (None, Inr None))\<rparr>"

definition demo_context :: "rat option \<Rightarrow> wf_context" where
  "demo_context deadline = \<lparr>cx_run_id = ''r'', cx_base_task = Some ''t'', cx_per_role_task = [], cx_base_dir = ''d'',
     cx_config = ''c'', cx_workspace = ''w'', cx_max_turns = 1, cx_output_mode = ''o'', cx_session_id = None,
     cx_deadline_mono = deadline, cx_inject_overrides = [], cx_plan_path = None\<rparr>"

definition demo_world :: "unit wf_world" where
  "demo_world = \<lparr>ww_fs = demo_fs, ww_faults = [], ww_ticks = 0, ww_stages = [], ww_env = ()\<rparr>"

definition demo_run :: "rat option \<Rightarrow> (int \<times> flow_state option) py_result \<times> unit wf_world" where
  "demo_run deadline = run_workflow demo_ports (demo_context deadline) [''eval''] ''adaptive'' 2 1 demo_world"

lemma demo_run_zero: "map_sum id fst (fst (demo_run None)) = Inr 0"
  by code_simp

lemma demo_run_late: "map_sum id fst (fst (demo_run (Some 0))) = Inr WORKFLOW_DEADLINE_EXIT_CODE"
  by code_simp

lemma demo_run_pair:
  assumes "map_sum id fst (fst (demo_run dl)) = Inr c"
  obtains t w' where "demo_run dl = (Inr (c, t), w')"
  using assms that by (cases "demo_run dl"; cases "fst (demo_run dl)") auto

theorem workflow_bounded_on_time_witness:
  "\<exists>new. ww_stages (snd (demo_run None)) = new \<and> length new \<le> 8"
proof -
  obtain t w' where run: "demo_run None = (Inr (0, t), w')" by (rule demo_run_pair [OF demo_run_zero])
  from workflow_bounded_on_time [OF run [unfolded demo_run_def], of None None] show ?thesis
    by (auto simp: run demo_world_def)
qed


theorem workflow_deadline_marked_witness:
  "\<exists>f w'. demo_run (Some 0) = (Inr (WORKFLOW_DEADLINE_EXIT_CODE, Some f), w') \<and>
     prefix DEADLINE_REASON_MARKER (fl_last_transition_reason f)"
proof -
  obtain t w' where run: "demo_run (Some 0) = (Inr (WORKFLOW_DEADLINE_EXIT_CODE, t), w')"
    by (rule demo_run_pair [OF demo_run_late])
  have "stage_codes demo_ports" by (simp add: stage_codes_def demo_ports_def WORKFLOW_DEADLINE_EXIT_CODE_def)
  from workflow_deadline_marked [OF run [unfolded demo_run_def] this] run show ?thesis by auto
qed

section \<open>Small facts\<close>

lemma dash_runs_chars: "list_all (\<lambda>c. ascii_alnum c \<or> c = CHR ''-'') (dash_runs b s)"
  by (induction b s rule: dash_runs.induct) auto

lemma slugify_task_safe:
  "slugify_task task limit \<noteq> [] \<and> length (slugify_task task limit) \<le> max limit 4 \<and>
   list_all (\<lambda>c. ascii_alnum c \<or> c = CHR ''-'') (slugify_task task limit)"
proof -
  let ?d = "dash_runs False (py_lower (py_strip task))"
  have "set (py_strip_chars ''-'' ?d) \<subseteq> set ?d"
    by (auto simp: py_strip_chars_def dest!: set_dropWhileD)
  then have "list_all (\<lambda>c. ascii_alnum c \<or> c = CHR ''-'') (take limit (py_strip_chars ''-'' ?d))"
    using dash_runs_chars [of False "py_lower (py_strip task)"] by (auto simp: list_all_iff dest!: in_set_takeD)
  moreover have "list_all (\<lambda>c. ascii_alnum c \<or> c = CHR ''-'') ''task''" by code_simp
  ultimately show ?thesis by (auto simp: slugify_task_def Let_def)
qed

text \<open>A plan that is not valid UTF-8 is not covered by the \<open>except OSError\<close> of \<open>plan_text\<close>.\<close>

lemma undecodable_plan_raises:
  "cx_plan_path ctx = Some p \<Longrightarrow> wp_read_text P (ww_env w) p = Inl (Exn ValueError msg) \<Longrightarrow>
     plan_text P ctx w = Inl (Exn ValueError msg)"
  by (simp add: plan_text_def)

end
