(* ===== verification/Py_Codec.thy ===== *)
theory Py_Codec
  imports Py_Text
begin

text \<open>
  Text as Unicode code points, and the encodings of Python's standard library that the secret
  handling uses: UTF-8 with \<open>errors="replace"\<close>, \<open>bytes.hex\<close> and \<open>bytes.fromhex\<close>, \<open>base64.b64encode\<close>
  and \<open>b64decode(validate=True)\<close>, \<open>urllib.parse.quote\<close> and \<open>unquote\<close>, \<open>str.replace\<close>.

  A text is a list of code points without surrogates, bytes are numbers below 256; \<open>cps\<close> reads the
  8-bit strings of the other theories. The decoding lemmas say that UTF-8, base64 and hex read back
  what they write.
\<close>

type_synonym ustr = "nat list"

definition cps :: "string \<Rightarrow> ustr" where
  "cps s = map of_char s"

section \<open>UTF-8\<close>

definition utf8_char :: "nat \<Rightarrow> nat list" where
  "utf8_char c =
     (if c < 128 then [c]
      else if c < 2048 then [192 + c div 64, 128 + c mod 64]
      else if c < 65536 then [224 + c div 4096, 128 + c div 64 mod 64, 128 + c mod 64]
      else [240 + c div 262144, 128 + c div 4096 mod 64, 128 + c div 64 mod 64, 128 + c mod 64])"

definition utf8_encode :: "ustr \<Rightarrow> nat list" where
  "utf8_encode s = concat (map utf8_char s)"

text \<open>The range of the second byte after a leading byte, and the number of bytes it announces.\<close>

definition utf8_lead :: "nat \<Rightarrow> (nat \<times> nat \<times> nat) option" where
  "utf8_lead b =
     (if 194 \<le> b \<and> b \<le> 223 then Some (2, 128, 191)
      else if b = 224 then Some (3, 160, 191)
      else if b = 237 then Some (3, 128, 159)
      else if 225 \<le> b \<and> b \<le> 239 then Some (3, 128, 191)
      else if b = 240 then Some (4, 144, 191)
      else if 241 \<le> b \<and> b \<le> 243 then Some (4, 128, 191)
      else if b = 244 then Some (4, 128, 143)
      else None)"

definition utf8_cont :: "nat \<Rightarrow> bool" where
  "utf8_cont b = (128 \<le> b \<and> b \<le> 191)"

definition REPLACEMENT :: nat where "REPLACEMENT = 65533"

text \<open>
  One decoding step: the code point and the number of bytes after the first that it uses. \<open>None\<close> is
  the longest well-formed beginning of an ill-formed sequence, which \<open>errors="replace"\<close> turns into the
  replacement character and \<open>errors="ignore"\<close> drops.
\<close>

definition utf8_step :: "nat \<Rightarrow> nat list \<Rightarrow> nat option \<times> nat" where
  "utf8_step b bs =
     (if b < 128 then (Some b, 0)
      else case utf8_lead b of
        None \<Rightarrow> (None, 0)
      | Some (n, lo, hi) \<Rightarrow>
         (case bs of
            [] \<Rightarrow> (None, 0)
          | c1 # bs1 \<Rightarrow>
             (if \<not> (lo \<le> c1 \<and> c1 \<le> hi) then (None, 0)
              else if n = 2 then (Some ((b - 192) * 64 + (c1 - 128)), 1)
              else case bs1 of
                [] \<Rightarrow> (None, 1)
              | c2 # bs2 \<Rightarrow>
                 (if \<not> utf8_cont c2 then (None, 1)
                  else if n = 3 then (Some ((b - 224) * 4096 + (c1 - 128) * 64 + (c2 - 128)), 2)
                  else case bs2 of
                    [] \<Rightarrow> (None, 2)
                  | c3 # _ \<Rightarrow>
                     (if \<not> utf8_cont c3 then (None, 2)
                      else (Some ((b - 240) * 262144 + (c1 - 128) * 4096 + (c2 - 128) * 64 + (c3 - 128)), 3))))))"

fun utf8_decode :: "nat list \<Rightarrow> ustr" where
  "utf8_decode [] = []"
| "utf8_decode (b # bs) = (case fst (utf8_step b bs) of None \<Rightarrow> REPLACEMENT | Some c \<Rightarrow> c) # utf8_decode (drop (snd (utf8_step b bs)) bs)"

fun utf8_decode_ignore :: "nat list \<Rightarrow> ustr" where
  "utf8_decode_ignore [] = []"
| "utf8_decode_ignore (b # bs) =
     (case fst (utf8_step b bs) of None \<Rightarrow> [] | Some c \<Rightarrow> [c]) @ utf8_decode_ignore (drop (snd (utf8_step b bs)) bs)"

section \<open>Hexadecimal\<close>

definition hex_nibble :: "nat \<Rightarrow> nat" where
  "hex_nibble n = (if n < 10 then 48 + n else 87 + n)"

definition bytes_hex :: "nat list \<Rightarrow> ustr" where
  "bytes_hex bs = concat (map (\<lambda>b. [hex_nibble (b div 16), hex_nibble (b mod 16)]) bs)"

definition hex_val :: "nat \<Rightarrow> nat option" where
  "hex_val c =
     (if 48 \<le> c \<and> c \<le> 57 then Some (c - 48)
      else if 97 \<le> c \<and> c \<le> 102 then Some (c - 87)
      else if 65 \<le> c \<and> c \<le> 70 then Some (c - 55) else None)"

text \<open>\<open>bytes.fromhex\<close> on text of an even number of hexadecimal digits; \<open>None\<close> is \<open>ValueError\<close>.\<close>

fun bytes_fromhex :: "ustr \<Rightarrow> nat list option" where
  "bytes_fromhex [] = Some []"
| "bytes_fromhex [c] = None"
| "bytes_fromhex (c # d # cs) =
     (case (hex_val c, hex_val d, bytes_fromhex cs) of
        (Some x, Some y, Some bs) \<Rightarrow> Some ((16 * x + y) # bs)
      | _ \<Rightarrow> None)"

section \<open>Base 64\<close>

definition b64_char :: "nat \<Rightarrow> nat" where
  "b64_char v =
     (if v < 26 then 65 + v else if v < 52 then 71 + v else if v < 62 then v - 4
      else if v = 62 then 43 else 47)"

definition b64_val :: "nat \<Rightarrow> nat option" where
  "b64_val c =
     (if 65 \<le> c \<and> c \<le> 90 then Some (c - 65) else if 97 \<le> c \<and> c \<le> 122 then Some (c - 71)
      else if 48 \<le> c \<and> c \<le> 57 then Some (c + 4) else if c = 43 then Some 62
      else if c = 47 then Some 63 else None)"

fun b64encode :: "nat list \<Rightarrow> ustr" where
  "b64encode [] = []"
| "b64encode [a] = [b64_char (a div 4), b64_char (a mod 4 * 16), 61, 61]"
| "b64encode [a, b] = [b64_char (a div 4), b64_char (a mod 4 * 16 + b div 16), b64_char (b mod 16 * 4), 61]"
| "b64encode (a # b # c # bs) =
     [b64_char (a div 4), b64_char (a mod 4 * 16 + b div 16), b64_char (b mod 16 * 4 + c div 64), b64_char (c mod 64)]
       @ b64encode bs"

text \<open>
  \<open>binascii.a2b_base64(strict_mode=True)\<close>: the position in the quadruple, the bits left over, the
  pads seen in it and whether padding has started. \<open>None\<close> is \<open>binascii.Error\<close>.
\<close>

fun a2b_base64 :: "nat \<Rightarrow> nat \<Rightarrow> nat \<Rightarrow> bool \<Rightarrow> ustr \<Rightarrow> nat list option" where
  "a2b_base64 quad left pads started [] = (if quad = 0 then Some [] else None)"
| "a2b_base64 quad left pads started (c # cs) =
     (if c = 61
      then (if 2 \<le> quad \<and> 4 \<le> quad + (pads + 1) then (if cs = [] then Some [] else None)
            else a2b_base64 quad left (if 2 \<le> quad then pads + 1 else pads) True cs)
      else case b64_val c of
        None \<Rightarrow> None
      | Some v \<Rightarrow>
         (if started then None
          else if quad = 0 then a2b_base64 1 v 0 started cs
          else if quad = 1 then map_option (\<lambda>bs. (left * 4 + v div 16) # bs) (a2b_base64 2 (v mod 16) 0 started cs)
          else if quad = 2 then map_option (\<lambda>bs. (left * 16 + v div 4) # bs) (a2b_base64 3 (v mod 4) 0 started cs)
          else map_option (\<lambda>bs. (left * 64 + v) # bs) (a2b_base64 0 0 0 started cs)))"

definition b64decode :: "ustr \<Rightarrow> nat list option" where
  "b64decode s = (if s \<noteq> [] \<and> hd s = 61 then None else a2b_base64 0 0 0 False s)"

section \<open>URL quoting\<close>

definition quote_safe :: "nat \<Rightarrow> bool" where
  "quote_safe b = ((65 \<le> b \<and> b \<le> 90) \<or> (97 \<le> b \<and> b \<le> 122) \<or> (45 \<le> b \<and> b \<le> 57) \<or> b = 95 \<or> b = 126)"

definition quote_byte :: "nat \<Rightarrow> ustr" where
  "quote_byte b =
     (if quote_safe b then [b]
      else let up = (\<lambda>n. if n < 10 then 48 + n else 55 + n) in [37, up (b div 16), up (b mod 16)])"

definition url_quote :: "ustr \<Rightarrow> ustr" where
  "url_quote s = concat (map quote_byte (utf8_encode s))"

text \<open>\<open>unquote_to_bytes\<close> of an ASCII run.\<close>

fun unquote_bytes :: "ustr \<Rightarrow> nat list" where
  "unquote_bytes [] = []"
| "unquote_bytes [c] = [c]"
| "unquote_bytes [c, d] = [c, d]"
| "unquote_bytes (c # d # e # cs) =
     (case (c = 37, hex_val d, hex_val e) of
        (True, Some x, Some y) \<Rightarrow> (16 * x + y) # unquote_bytes cs
      | _ \<Rightarrow> c # unquote_bytes (d # e # cs))"

text \<open>Each maximal ASCII run is decoded by itself; other characters are kept.\<close>

fun unquote_runs :: "ustr \<Rightarrow> ustr \<Rightarrow> ustr" where
  "unquote_runs run [] = utf8_decode (unquote_bytes run)"
| "unquote_runs run (c # cs) =
     (if c < 128 then unquote_runs (run @ [c]) cs
      else utf8_decode (unquote_bytes run) @ c # unquote_runs [] cs)"

definition url_unquote :: "ustr \<Rightarrow> ustr" where
  "url_unquote s = (if 37 \<in> set s then unquote_runs [] s else s)"

section \<open>Searching and replacing\<close>

text \<open>\<open>s.replace(old, new)\<close> for a non-empty \<open>old\<close>, and the empty one, which matches everywhere.\<close>

fun replace_nonempty :: "'a list \<Rightarrow> 'a list \<Rightarrow> 'a list \<Rightarrow> 'a list" where
  "replace_nonempty old new [] = []"
| "replace_nonempty old new (c # s) =
     (if prefix old (c # s) then new @ replace_nonempty old new (drop (length old - 1) s)
      else c # replace_nonempty old new s)"

definition py_replace :: "'a list \<Rightarrow> 'a list \<Rightarrow> 'a list \<Rightarrow> 'a list" where
  "py_replace old new s =
     (if old = [] then new @ concat (map (\<lambda>c. c # new) s) else replace_nonempty old new s)"

text \<open>\<open>pat in s\<close>\<close>

fun occurs :: "'a list \<Rightarrow> 'a list \<Rightarrow> bool" where
  "occurs pat [] = (pat = [])"
| "occurs pat (c # s) = (prefix pat (c # s) \<or> occurs pat s)"

lemma occurs_sublist: "occurs pat s \<longleftrightarrow> sublist pat s"
  by (induction s) (auto simp: sublist_Cons_right)

section \<open>Reading back\<close>

definition scalar :: "nat \<Rightarrow> bool" where
  "scalar c = (c < 55296 \<or> (57344 \<le> c \<and> c < 1114112))"

lemma digits64_2: "(c div 4096) * 4096 + (c div 64 mod 64) * 64 + c mod 64 = (c :: nat)"
proof -
  have "c div 4096 = c div 64 div 64" by (simp add: div_mult2_eq[symmetric])
  moreover have "c div 64 div 64 * 64 + c div 64 mod 64 = c div 64" "c div 64 * 64 + c mod 64 = c" by simp_all
  ultimately show ?thesis by linarith
qed

lemma digits64_3: "(c div 262144) * 262144 + (c div 4096 mod 64) * 4096 + (c div 64 mod 64) * 64 + c mod 64 = (c :: nat)"
proof -
  have "c div 262144 = c div 4096 div 64" by (simp add: div_mult2_eq[symmetric])
  moreover have "c div 4096 div 64 * 64 + c div 4096 mod 64 = c div 4096" by simp
  ultimately show ?thesis using digits64_2[of c] by linarith
qed

lemma utf8_step_char:
  assumes "scalar c"
  shows "\<exists>b bs. utf8_char c = b # bs \<and> utf8_step b (bs @ rest) = (Some c, length bs)"
proof -
  consider "c < 128" | "128 \<le> c" "c < 2048" | "2048 \<le> c" "c < 65536" | "65536 \<le> c" "c < 1114112"
    using assms by (force simp: scalar_def)
  then show ?thesis
  proof cases
    case 1
    then show ?thesis by (simp add: utf8_char_def utf8_step_def)
  next
    case 2
    define x y where "x = c div 64" and "y = c mod 64"
    have xy: "x < 32" "2 \<le> x" "y < 64" "x * 64 + y = c"
      using 2 div_le_mono[of 128 c 64] unfolding x_def y_def by (simp_all add: less_mult_imp_div_less)
    have enc: "utf8_char c = [192 + x, 128 + y]"
      using 2 by (simp add: utf8_char_def x_def y_def)
    from xy show ?thesis by (simp add: enc utf8_step_def utf8_lead_def)
  next
    case 3
    define x y z where "x = c div 4096" and "y = c div 64 mod 64" and "z = c mod 64"
    have xyz: "x < 16" "y < 64" "z < 64" "x * 4096 + y * 64 + z = c"
      using 3 digits64_2[of c] unfolding x_def y_def z_def by (simp_all add: less_mult_imp_div_less)
    have enc: "utf8_char c = [224 + x, 128 + y, 128 + z]"
      using 3 by (simp add: utf8_char_def x_def y_def z_def)
    have "x = 0 \<Longrightarrow> 32 \<le> y" "x = 13 \<Longrightarrow> y < 32"
      using 3 xyz assms by (auto simp: scalar_def)
    with xyz show ?thesis by (auto simp: enc utf8_step_def utf8_lead_def utf8_cont_def)
  next
    case 4
    define w x y z where "w = c div 262144" and "x = c div 4096 mod 64" and "y = c div 64 mod 64" and "z = c mod 64"
    have wxyz: "w < 5" "x < 64" "y < 64" "z < 64" "w * 262144 + x * 4096 + y * 64 + z = c"
      using 4 digits64_3[of c] unfolding w_def x_def y_def z_def by (simp_all add: less_mult_imp_div_less)
    have enc: "utf8_char c = [240 + w, 128 + x, 128 + y, 128 + z]"
      using 4 by (simp add: utf8_char_def w_def x_def y_def z_def)
    have "w \<noteq> 0 \<or> 16 \<le> x" "w \<le> 3 \<or> w = 4 \<and> x < 16"
      using 4 wxyz by auto
    with wxyz show ?thesis by (auto simp: enc utf8_step_def utf8_lead_def utf8_cont_def)
  qed
qed

lemma utf8_roundtrip: "list_all scalar s \<Longrightarrow> utf8_decode (utf8_encode s @ rest) = s @ utf8_decode rest"
proof (induction s)
  case Nil
  then show ?case by (simp add: utf8_encode_def)
next
  case (Cons c s)
  let ?t = "utf8_encode s @ rest"
  obtain b bs where u: "utf8_char c = b # bs" "utf8_step b (bs @ ?t) = (Some c, length bs)"
    using utf8_step_char[of c ?t] Cons.prems by auto
  have "utf8_encode (c # s) @ rest = b # bs @ ?t" by (simp add: utf8_encode_def u(1))
  with u(2) Cons show ?case by simp
qed

lemma b64_val_char: "v < 64 \<Longrightarrow> b64_val (b64_char v) = Some v"
  by (auto simp: b64_val_def b64_char_def)

lemma b64_char_pad [simp]: "b64_char v \<noteq> 61"
  by (auto simp: b64_char_def)

lemma split_digit: "y < k \<Longrightarrow> (x * k + y) div k = x" "y < k \<Longrightarrow> (x * k + y) mod k = (y :: nat)"
  by simp_all

lemma byte_parts:
  assumes "a < (256 :: nat)"
  shows "a div 4 < 64" "a div 16 < 16" "a div 64 < 4"
  using assms by (simp_all add: less_mult_imp_div_less)

lemma two_digits: "x < m \<Longrightarrow> y < k \<Longrightarrow> x * k + y < m * (k :: nat)"
proof -
  assume "x < m" "y < k"
  then have "x * k + y < Suc x * k" "Suc x * k \<le> m * k" by (simp, intro mult_le_mono1 Suc_leI)
  then show ?thesis by (rule less_le_trans)
qed

lemma b64_bits:
  assumes "a < 256" "b < (256 :: nat)"
  shows "a div 4 < 64" "a mod 4 * 16 + b div 16 < 64" "b mod 16 * 4 + a div 64 < 64" "a mod 64 < 64"
    "a mod 4 * 16 < 64" "b mod 16 * 4 < 64"
proof -
  show "a div 4 < 64" by (rule byte_parts(1)[OF assms(1)])
  show "a mod 4 * 16 + b div 16 < 64" using two_digits[of "a mod 4" 4 "b div 16" 16] byte_parts(2)[OF assms(2)] by simp
  show "b mod 16 * 4 + a div 64 < 64" using two_digits[of "b mod 16" 16 "a div 64" 4] byte_parts(3)[OF assms(1)] by simp
  show "a mod 64 < 64" by simp
  show "a mod 4 * 16 < 64" using two_digits[of "a mod 4" 4 0 16] by simp
  show "b mod 16 * 4 < 64" using two_digits[of "b mod 16" 16 0 4] by simp
qed

lemma b64_join:
  assumes "a < 256" "b < (256 :: nat)" "c < 256"
  shows "a div 4 * 4 + (a mod 4 * 16 + b div 16) div 16 = a"
    "(a mod 4 * 16 + b div 16) mod 16 * 16 + (b mod 16 * 4 + c div 64) div 4 = b"
    "(b mod 16 * 4 + c div 64) mod 4 * 64 + c mod 64 = c"
    "a div 4 * 4 + (a mod 4 * 16) div 16 = a"
    "(a mod 4 * 16 + b div 16) mod 16 * 16 + (b mod 16 * 4) div 4 = b"
proof -
  note b = split_digit[OF byte_parts(2)[OF assms(2)], of "a mod 4"]
  note c = split_digit[OF byte_parts(3)[OF assms(3)], of "b mod 16"]
  show "a div 4 * 4 + (a mod 4 * 16 + b div 16) div 16 = a" unfolding b by simp
  show "(a mod 4 * 16 + b div 16) mod 16 * 16 + (b mod 16 * 4 + c div 64) div 4 = b" unfolding b c by simp
  show "(b mod 16 * 4 + c div 64) mod 4 * 64 + c mod 64 = c" unfolding c by simp
  show "a div 4 * 4 + (a mod 4 * 16) div 16 = a" by simp
  show "(a mod 4 * 16 + b div 16) mod 16 * 16 + (b mod 16 * 4) div 4 = b" unfolding b by simp
qed

lemma a2b_quad:
  assumes "v1 < 64" "v2 < 64" "v3 < 64" "v4 < 64"
  shows "a2b_base64 0 0 0 False (b64_char v1 # b64_char v2 # b64_char v3 # b64_char v4 # cs) =
    map_option (\<lambda>bs. (v1 * 4 + v2 div 16) # (v2 mod 16 * 16 + v3 div 4) # (v3 mod 4 * 64 + v4) # bs) (a2b_base64 0 0 0 False cs)"
  using assms by (simp add: b64_val_char option.map_comp comp_def)

lemma a2b_triple:
  assumes "v1 < 64" "v2 < 64" "v3 < 64"
  shows "a2b_base64 0 0 0 False [b64_char v1, b64_char v2, b64_char v3, 61] =
    Some [v1 * 4 + v2 div 16, v2 mod 16 * 16 + v3 div 4]"
  using assms by (simp add: b64_val_char)

lemma a2b_b64encode: "list_all (\<lambda>b. b < 256) bs \<Longrightarrow> a2b_base64 0 0 0 False (b64encode bs) = Some bs"
proof (induction bs rule: b64encode.induct)
  case (2 a)
  then show ?case using b64_bits[of a 0] b64_join[of a 0 0] by (simp add: b64_val_char)
next
  case (3 a b)
  then have "a < 256" "b < 256" by simp_all
  note t = a2b_triple[OF b64_bits(1)[of a b] b64_bits(2)[of a b] b64_bits(6)[of b b]]
  show ?case unfolding b64encode.simps
    by (subst t) (simp_all only: \<open>a < 256\<close> \<open>b < 256\<close> b64_join[OF \<open>a < 256\<close> \<open>b < 256\<close> \<open>b < 256\<close>])
next
  case (4 a b c bs)
  then have "a < 256" "b < 256" "c < 256" and IH: "a2b_base64 0 0 0 False (b64encode bs) = Some bs" by simp_all
  note q = a2b_quad[OF b64_bits(1)[of a b] b64_bits(2)[of a b] b64_bits(3)[of c b] b64_bits(4)[of c b], of "b64encode bs"]
  show ?case unfolding b64encode.simps append.simps
    by (subst q) (simp_all only: \<open>a < 256\<close> \<open>b < 256\<close> \<open>c < 256\<close> IH option.map
        b64_join[OF \<open>a < 256\<close> \<open>b < 256\<close> \<open>c < 256\<close>])
qed simp

lemma b64_roundtrip: "list_all (\<lambda>b. b < 256) bs \<Longrightarrow> b64decode (b64encode bs) = Some bs"
  using a2b_b64encode[of bs] by (cases bs rule: b64encode.cases) (simp_all add: b64decode_def)

lemma hex_val_nibble: "n < 16 \<Longrightarrow> hex_val (hex_nibble n) = Some n"
  by (auto simp: hex_val_def hex_nibble_def)

lemma hex_roundtrip: "list_all (\<lambda>b. b < 256) bs \<Longrightarrow> bytes_fromhex (bytes_hex bs) = Some bs"
proof (induction bs)
  case Nil
  then show ?case by (simp add: bytes_hex_def)
next
  case (Cons b bs)
  have "bytes_hex (b # bs) = hex_nibble (b div 16) # hex_nibble (b mod 16) # bytes_hex bs" by (simp add: bytes_hex_def)
  moreover have "b div 16 < 16" "b mod 16 < 16" using Cons.prems by auto
  ultimately show ?case using Cons by (simp add: hex_val_nibble)
qed

lemma utf8_bytes: "list_all scalar s \<Longrightarrow> list_all (\<lambda>b. b < 256) (utf8_encode s)"
proof (induction s)
  case (Cons c s)
  have "c < 1114112" using Cons.prems by (auto simp: scalar_def)
  then have "c div 262144 < 5" by (simp add: less_mult_imp_div_less)
  moreover have "c < 2048 \<Longrightarrow> c div 64 < 32" "c < 65536 \<Longrightarrow> c div 4096 < 16" by (simp_all add: less_mult_imp_div_less)
  moreover have "n mod 64 < 64" for n :: nat by simp
  ultimately have "list_all (\<lambda>b. b < 256) (utf8_char c)" by (auto simp: utf8_char_def intro: less_trans)
  with Cons show ?case by (simp add: utf8_encode_def)
qed (simp add: utf8_encode_def)

end
