(* ===== verification/Secrets.thy ===== *)
theory Secrets
  imports Py_Codec Py_Match Hooks
begin

text \<open>
  Secret handling: the \<open>SecretRedactor\<close> of \<open>observability/redaction.py\<close> and the \<open>SecretGuard\<close> of
  \<open>inner_loop/hooks/builtin.py\<close>, over Unicode text (theory \<open>Py_Codec\<close>). The set of secrets is a list
  without repetitions, in the order the set is iterated; the theorems hold for every order.
\<close>

section \<open>Redactor\<close>

definition MASK :: ustr where "MASK = cps ''***REDACTED***''"
definition MIN_LEN :: nat where "MIN_LEN = 8"

record secret_redactor =
  rd_secrets :: "ustr list"

text \<open>Constructor state: the variables that were missing, empty or too short, and the secrets.\<close>

definition load_var ::
  "(string, ustr) pydict \<Rightarrow> string \<Rightarrow> string list \<times> string list \<times> string list \<times> ustr list
     \<Rightarrow> string list \<times> string list \<times> string list \<times> ustr list" where
  "load_var env var st =
     (case st of (missing, blank, short, secrets) \<Rightarrow>
      case dict_get env var of
        None \<Rightarrow> (missing @ [var], blank, short, secrets)
      | Some value \<Rightarrow>
         (if value = [] then (missing, blank @ [var], short, secrets)
          else if length value < MIN_LEN then (missing, blank, short @ [var], secrets)
          else (missing, blank, short, List.insert value secrets)))"

definition load_extra :: "ustr \<Rightarrow> ustr list \<Rightarrow> ustr list" where
  "load_extra value secrets =
     (if value \<noteq> [] \<and> length value \<ge> MIN_LEN then List.insert value secrets else secrets)"

definition redactor_init ::
  "(string, ustr) pydict \<Rightarrow> string list \<Rightarrow> ustr list \<Rightarrow> bool \<Rightarrow> secret_redactor py_result" where
  "redactor_init env api_key_env_vars extra_values allow_empty =
     (case fold (load_var env) api_key_env_vars ([], [], [], []) of (missing, blank, short, found) \<Rightarrow>
      let secrets = fold load_extra extra_values found in
      if api_key_env_vars \<noteq> [] \<and> secrets = [] \<and> \<not> allow_empty
      then let parts = (if missing = [] then [] else [''missing: '' @ py_join '', '' missing]) @
                       (if blank = [] then [] else [''empty: '' @ py_join '', '' blank]) @
                       (if short = [] then [] else [''too short (<'' @ nat_str MIN_LEN @ ''): '' @ py_join '', '' short])
           in Inl (Exn (OtherError ''SecretRedactorError'') (''No valid secrets loaded. '' @ py_join ''; '' parts))
      else Inr \<lparr>rd_secrets = secrets\<rparr>)"

definition normalize_and_check :: "secret_redactor \<Rightarrow> ustr \<Rightarrow> bool" where
  "normalize_and_check r text =
     list_ex (\<lambda>secret. occurs (b64encode (utf8_encode secret)) text \<or> occurs (url_quote secret) text \<or>
                       occurs secret (url_unquote text) \<or> occurs (rev secret) text) (rd_secrets r)"

text \<open>The five written forms of a secret, in the order they are replaced.\<close>

definition secret_forms :: "ustr \<Rightarrow> ustr list" where
  "secret_forms secret =
     [secret, b64encode (utf8_encode secret), bytes_hex (utf8_encode secret), url_quote secret, rev secret]"

definition redact_forms :: "ustr \<Rightarrow> ustr \<Rightarrow> ustr" where
  "redact_forms secret text = fold (\<lambda>f t. py_replace f MASK t) (secret_forms secret) text"

definition by_length :: "ustr list \<Rightarrow> ustr list" where
  "by_length secrets = sort_key (\<lambda>s. - int (length s)) secrets"

definition holds_secret :: "ustr list \<Rightarrow> ustr \<Rightarrow> bool" where
  "holds_secret secrets decoded = list_ex (\<lambda>s. occurs s decoded) secrets"

definition mask_b64 :: "ustr list \<Rightarrow> ustr \<Rightarrow> ustr" where
  "mask_b64 secrets token =
     (case b64decode token of
        None \<Rightarrow> token
      | Some bs \<Rightarrow> if holds_secret secrets (utf8_decode bs) then MASK else token)"

definition mask_hex :: "ustr list \<Rightarrow> ustr \<Rightarrow> ustr" where
  "mask_hex secrets token =
     (case bytes_fromhex token of
        None \<Rightarrow> token
      | Some bs \<Rightarrow> if holds_secret secrets (utf8_decode bs) then MASK else token)"

text \<open>
  \<open>_B64_WINDOW_RE.sub\<close> and \<open>_HEX_WINDOW_RE.sub\<close>: a window is the longest run of its characters, at
  least 16 of them; a base64 window takes up to two pads along, a hex window an even number of digits.
\<close>

definition b64_digit :: "nat \<Rightarrow> bool" where "b64_digit c = (b64_val c \<noteq> None)"
definition hex_char :: "nat \<Rightarrow> bool" where "hex_char c = (hex_val c \<noteq> None)"

function sub_b64 :: "(ustr \<Rightarrow> ustr) \<Rightarrow> ustr \<Rightarrow> ustr" where
  "sub_b64 f [] = []"
| "sub_b64 f (c # s) =
     (if b64_digit c
      then (let run = takeWhile b64_digit (c # s); rest = dropWhile b64_digit (c # s);
                pads = take 2 (takeWhile (\<lambda>d. d = 61) rest)
            in if 16 \<le> length run then f (run @ pads) @ sub_b64 f (drop (length pads) rest)
               else run @ sub_b64 f rest)
      else c # sub_b64 f s)"
  by pat_completeness auto
termination
  by (relation "measure (\<lambda>(f, s). length s)") (auto simp: le_imp_less_Suc length_dropWhile_le intro: le_less_trans[OF diff_le_self])

function sub_hex :: "(ustr \<Rightarrow> ustr) \<Rightarrow> ustr \<Rightarrow> ustr" where
  "sub_hex f [] = []"
| "sub_hex f (c # s) =
     (if hex_char c
      then (let run = takeWhile hex_char (c # s); rest = dropWhile hex_char (c # s);
                n = 2 * (length run div 2)
            in if 16 \<le> length run then f (take n run) @ drop n run @ sub_hex f rest
               else run @ sub_hex f rest)
      else c # sub_hex f s)"
  by pat_completeness auto
termination
  by (relation "measure (\<lambda>(f, s). length s)") (auto simp: le_imp_less_Suc length_dropWhile_le)

definition redact_encoded_windows :: "secret_redactor \<Rightarrow> ustr \<Rightarrow> ustr" where
  "redact_encoded_windows r text =
     (if rd_secrets r = [] then text
      else sub_hex (mask_hex (rd_secrets r)) (sub_b64 (mask_b64 (rd_secrets r)) text))"

definition redact :: "secret_redactor \<Rightarrow> ustr \<Rightarrow> ustr" where
  "redact r text =
     (let order = by_length (rd_secrets r);
          t1 = fold redact_forms order text;
          t2 = (if normalize_and_check r t1
                then fold (\<lambda>secret t. py_replace secret MASK t) order (url_unquote t1) else t1)
      in redact_encoded_windows r t2)"

section \<open>Guard\<close>

record secret_guard =
  sg_secrets :: "ustr list"

definition b64_candidate_char :: "nat \<Rightarrow> bool" where "b64_candidate_char c = (b64_digit c \<or> c = 61)"

text \<open>\<open>_B64_RE.findall\<close>: the runs of at least ten such characters.\<close>

function b64_candidates :: "ustr \<Rightarrow> ustr list" where
  "b64_candidates [] = []"
| "b64_candidates (c # s) =
     (if b64_candidate_char c
      then (let run = takeWhile b64_candidate_char (c # s); rest = dropWhile b64_candidate_char (c # s)
            in if 10 \<le> length run then run # b64_candidates rest else b64_candidates rest)
      else b64_candidates s)"
  by pat_completeness auto
termination
  by (relation "measure length") (auto simp: le_imp_less_Suc length_dropWhile_le)

definition name_start :: "nat \<Rightarrow> bool" where
  "name_start c = ((65 \<le> c \<and> c \<le> 90) \<or> c = 95 \<or> (97 \<le> c \<and> c \<le> 122))"

definition name_char :: "nat \<Rightarrow> bool" where
  "name_char c = (name_start c \<or> (48 \<le> c \<and> c \<le> 57))"

definition name_len :: "ustr \<Rightarrow> nat" where
  "name_len s = (case s of [] \<Rightarrow> 0 | c # _ \<Rightarrow> if name_start c then length (takeWhile name_char s) else 0)"

text \<open>\<open>_INTERP_RE\<close> at the start of a text: the length of \<open>$NAME\<close>, \<open>${NAME}\<close> or \<open>{{NAME}}\<close>.\<close>

definition INTERP_RE :: "ustr \<Rightarrow> nat option" where
  "INTERP_RE s =
     (let after = (\<lambda>k. drop k s); n1 = name_len (after 1); n2 = name_len (after 2) in
      if prefix (cps ''$'') s \<and> 0 < n1 then Some (1 + n1)
      else if prefix (cps ''${'') s \<and> 0 < n2 \<and> prefix (cps ''}'') (after (2 + n2)) then Some (3 + n2)
      else if prefix (cps ''{{'') s \<and> 0 < n2 \<and> prefix (cps ''}}'') (after (2 + n2)) then Some (4 + n2)
      else None)"

fun interp_matches :: "ustr \<Rightarrow> ustr list" where
  "interp_matches [] = []"
| "interp_matches (c # s) =
     (case INTERP_RE (c # s) of
        None \<Rightarrow> interp_matches s
      | Some n \<Rightarrow> take n (c # s) # interp_matches (drop (n - 1) s))"

text \<open>\<open>raw.strip("${}")\<close>\<close>

definition strip_interp :: "ustr \<Rightarrow> ustr" where
  "strip_interp raw =
     (let P = (\<lambda>c. c \<in> set (cps ''${}'')) in rev (dropWhile P (rev (dropWhile P raw))))"

definition check_text :: "(ustr, ustr) pydict \<Rightarrow> secret_guard \<Rightarrow> ustr \<Rightarrow> bool" where
  "check_text environ g text =
     (list_ex (\<lambda>secret. occurs secret text \<or> occurs (b64encode (utf8_encode secret)) text \<or>
                        occurs (url_quote secret) text \<or> occurs secret (url_unquote text)) (sg_secrets g) \<or>
      list_ex (\<lambda>candidate. case b64decode candidate of
                 None \<Rightarrow> False
               | Some bs \<Rightarrow> list_ex (\<lambda>secret. occurs secret (utf8_decode bs)) (sg_secrets g)) (b64_candidates text) \<or>
      list_ex (\<lambda>raw. let resolved = dict_get_default environ (strip_interp raw) []
                     in resolved \<noteq> [] \<and> resolved \<in> set (sg_secrets g)) (interp_matches text))"

definition dangerous_substrings :: "string list" where
  "dangerous_substrings = [''printenv'', ''echo $'', ''/proc/self/environ'', ''/proc/1/environ'', ''python -c'',
     ''python3 -c'', ''node -e'', ''perl -e'', ''ruby -e'']"

definition ENV_WORD_RE :: pat where
  "ENV_WORD_RE = p_seq [PWb, PGroup 1 (p_alt (p_lit ''env'') [p_lit ''set'', p_lit ''declare'', p_lit ''export'']), PWb]"

definition matches_env_inspection :: "string \<Rightarrow> string list \<Rightarrow> bool" where
  "matches_env_inspection command substrings =
     (list_ex (\<lambda>s. py_in s command) substrings \<or> search_from ENV_WORD_RE command 0 \<noteq> None)"

definition str_param :: "tool_call \<Rightarrow> string \<Rightarrow> string option" where
  "str_param call k =
     (case dict_get (tc_params call) k of None \<Rightarrow> Some [] | Some (JStr s) \<Rightarrow> Some s | Some _ \<Rightarrow> None)"

definition secret_guard_handle ::
  "(ustr, ustr) pydict \<Rightarrow> secret_guard \<Rightarrow> lifecycle_point \<Rightarrow> hook_payload \<Rightarrow> decision py_result" where
  "secret_guard_handle environ g point payload =
     (case hp_tool_call payload of
        None \<Rightarrow> Inr decision_allow
      | Some call \<Rightarrow>
         (if tc_name call = ''fs_write_file'' \<and>
             (case str_param call ''content'' of None \<Rightarrow> False | Some s \<Rightarrow> check_text environ g (cps s))
          then decision_deny ''secret leak detected in fs_write_file content''
          else if tc_name call \<in> {''fs_run_bash'', ''fs_spawn_subagent''}
          then (case str_param call ''command'' of
                  None \<Rightarrow> Inr decision_allow
                | Some command \<Rightarrow>
                   (if check_text environ g (cps command) then decision_deny ''secret leak detected in shell-like command''
                    else if matches_env_inspection command dangerous_substrings \<and>
                            list_ex (\<lambda>secret. occurs secret (cps command)) (sg_secrets g)
                    then decision_deny ''secret leak detected in shell-like command''
                    else Inr decision_allow))
          else Inr decision_allow))"

section \<open>Masking leaves no trace\<close>

text \<open>
  Every step of the redactor turns a text into one where some stretches became the mask. What
  contains no star in the result was there before, or is part of the word in the mask.
\<close>

inductive masked :: "ustr \<Rightarrow> ustr \<Rightarrow> bool" where
  masked_Nil: "masked [] []"
| masked_keep: "masked t t' \<Longrightarrow> masked (c # t) (c # t')"
| masked_mask: "masked t t' \<Longrightarrow> masked (u @ t) (MASK @ t')"

definition star_free :: "ustr \<Rightarrow> bool" where "star_free w = (42 \<notin> set w)"

text \<open>A form that masking cannot bring back.\<close>

definition maskable :: "ustr \<Rightarrow> bool" where
  "maskable w = (w \<noteq> [] \<and> star_free w \<and> \<not> sublist w (cps ''REDACTED''))"

lemma masked_append: "masked t t' \<Longrightarrow> masked (u @ t) (u @ t')"
  by (induction u) (auto intro: masked_keep)

lemma masked_refl: "masked t t"
  using masked_append[OF masked_Nil, of t] by simp

lemma MASK_parts: "MASK = [42, 42, 42] @ cps ''REDACTED'' @ [42, 42, 42]"
  by (simp add: MASK_def cps_def)

lemma sublist_around: "c \<notin> set w \<Longrightarrow> sublist w (x @ c # y) \<Longrightarrow> sublist w x \<or> sublist w y"
proof (induction x)
  case Nil
  then show ?case by (cases w) (auto simp: sublist_Cons_right)
next
  case (Cons a x)
  show ?case
  proof (cases "prefix w (a # x @ c # y)")
    case True
    then have "prefix w (a # x) \<or> (\<exists>us. w = (a # x) @ us \<and> prefix us (c # y))"
      using prefix_append[of w "a # x" "c # y"] by simp
    with Cons.prems(1) have "prefix w (a # x)" by (auto simp: prefix_Cons)
    then show ?thesis by (simp add: sublist_Cons_right)
  next
    case False
    with Cons show ?thesis by (auto simp: sublist_Cons_right)
  qed
qed

lemma sublist_mask: "star_free w \<Longrightarrow> sublist w (MASK @ t) \<Longrightarrow> sublist w (cps ''REDACTED'') \<or> sublist w t"
proof -
  assume w: "star_free w" and in_mask: "sublist w (MASK @ t)"
  have skip: "sublist w u" if "sublist w (42 # u)" for u
    using sublist_around[of 42 w "[]" u] w that by (auto simp: star_free_def)
  have "sublist w (42 # 42 # 42 # cps ''REDACTED'' @ 42 # 42 # 42 # t)" using in_mask by (simp add: MASK_parts)
  then have "sublist w (cps ''REDACTED'' @ 42 # 42 # 42 # t)" by (rule skip[OF skip[OF skip]])
  then have "sublist w (cps ''REDACTED'') \<or> sublist w (42 # 42 # t)"
    using sublist_around[of 42 w "cps ''REDACTED''"] w by (simp add: star_free_def)
  then show ?thesis using skip by blast
qed

lemma masked_prefix: "masked t t' \<Longrightarrow> star_free w \<Longrightarrow> prefix w t' \<Longrightarrow> prefix w t"
proof (induction arbitrary: w rule: masked.induct)
  case (masked_keep t t' c)
  then show ?case by (cases w) (auto simp: star_free_def)
next
  case (masked_mask t t' u)
  then show ?case by (cases w) (auto simp: star_free_def MASK_parts)
qed simp

lemma masked_absent: "masked t t' \<Longrightarrow> maskable w \<Longrightarrow> \<not> sublist w t \<Longrightarrow> \<not> sublist w t'"
proof (induction rule: masked.induct)
  case (masked_keep t t' c)
  then have "\<not> prefix w (c # t')"
    using masked_prefix[OF masked.masked_keep[OF masked_keep.hyps], of w c] by (auto simp: maskable_def sublist_Cons_right)
  with masked_keep show ?case by (auto simp: sublist_Cons_right)
next
  case (masked_mask t t' u)
  then show ?case using sublist_mask[of w t'] by (auto simp: maskable_def sublist_append)
qed simp

lemma masked_replace: "old \<noteq> [] \<Longrightarrow> masked s (replace_nonempty old MASK s)"
proof (induction old MASK s rule: replace_nonempty.induct)
  case (2 old c s)
  show ?case
  proof (cases "prefix old (c # s)")
    case True
    then obtain r where r: "c # s = old @ r" by (auto simp: prefix_def)
    with 2(3) have d: "drop (length old - 1) s = r" by (cases old) auto
    with 2(1)[OF True 2(3)] have "masked (old @ r) (MASK @ replace_nonempty old MASK r)" by (simp add: masked_mask)
    with True r[symmetric] d show ?thesis by simp
  next
    case False
    with 2(2)[OF False 2(3)] show ?thesis by (simp add: masked_keep)
  qed
qed (simp add: masked_Nil)

lemma replace_absent: "maskable old \<Longrightarrow> \<not> sublist old (replace_nonempty old MASK s)"
proof (induction old MASK s rule: replace_nonempty.induct)
  case (1 old)
  then show ?case by (simp add: maskable_def)
next
  case (2 old c s)
  show ?case
  proof (cases "prefix old (c # s)")
    case True
    from 2(1)[OF True 2(3)] 2(3) True show ?thesis using sublist_mask[of old] by (auto simp: maskable_def)
  next
    case False
    have "masked (c # s) (c # replace_nonempty old MASK s)"
      using masked_replace[of old s] 2(3) by (auto simp: maskable_def intro: masked_keep)
    then have "\<not> prefix old (c # replace_nonempty old MASK s)"
      using masked_prefix False 2(3) by (auto simp: maskable_def)
    with 2(2)[OF False 2(3)] False show ?thesis by (simp add: sublist_Cons_right)
  qed
qed

lemma masked_sub_b64: "(\<And>x. f x = x \<or> f x = MASK) \<Longrightarrow> masked s (sub_b64 f s)"
proof (induction f s rule: sub_b64.induct)
  case (2 f c s)
  let ?run = "takeWhile b64_digit (c # s)" and ?rest = "dropWhile b64_digit (c # s)"
  let ?pads = "take 2 (takeWhile (\<lambda>d. d = 61) ?rest)"
  have rest: "?pads @ drop (length ?pads) ?rest = ?rest"
    by (metis append_eq_conv_conj takeWhile_dropWhile_id take_is_prefix prefix_def append.assoc append_take_drop_id)
  have s: "c # s = ?run @ ?rest" "c # s = (?run @ ?pads) @ drop (length ?pads) ?rest"
    using rest by (simp_all only: takeWhile_dropWhile_id append.assoc)
  show ?case
  proof (cases "b64_digit c")
    case digit: True
    show ?thesis
    proof (cases "16 \<le> length ?run")
      case True
      let ?out = "sub_b64 f (drop (length ?pads) ?rest)"
      have "masked (drop (length ?pads) ?rest) ?out" using 2(1)[OF digit refl refl refl True] 2(4) by blast
      then have "masked ((?run @ ?pads) @ drop (length ?pads) ?rest) (f (?run @ ?pads) @ ?out)"
        using 2(4)[of "?run @ ?pads"] masked_mask masked_append by metis
      with s(2) digit True show ?thesis by (simp only: sub_b64.simps Let_def if_True)
    next
      case False
      have "masked ?rest (sub_b64 f ?rest)" using 2(2)[OF digit refl refl refl False] 2(4) by blast
      then have "masked (?run @ ?rest) (?run @ sub_b64 f ?rest)" by (rule masked_append)
      with s(1) digit False show ?thesis by (simp only: sub_b64.simps Let_def if_True if_False)
    qed
  next
    case False
    with 2(3)[OF False] 2(4) show ?thesis by (simp add: masked_keep)
  qed
qed (simp add: masked_Nil)

lemma masked_sub_hex: "(\<And>x. f x = x \<or> f x = MASK) \<Longrightarrow> masked s (sub_hex f s)"
proof (induction f s rule: sub_hex.induct)
  case (2 f c s)
  let ?run = "takeWhile hex_char (c # s)" and ?rest = "dropWhile hex_char (c # s)"
  let ?n = "2 * (length ?run div 2)"
  have s: "c # s = ?run @ ?rest" "c # s = take ?n ?run @ drop ?n ?run @ ?rest"
    by (simp_all only: takeWhile_dropWhile_id append.assoc[symmetric] append_take_drop_id)
  show ?case
  proof (cases "hex_char c")
    case digit: True
    show ?thesis
    proof (cases "16 \<le> length ?run")
      case True
      have "masked ?rest (sub_hex f ?rest)" using 2(1)[OF digit refl refl refl True] 2(4) by blast
      then have "masked (drop ?n ?run @ ?rest) (drop ?n ?run @ sub_hex f ?rest)" by (rule masked_append)
      then have "masked (take ?n ?run @ drop ?n ?run @ ?rest) (f (take ?n ?run) @ drop ?n ?run @ sub_hex f ?rest)"
        using 2(4)[of "take ?n ?run"] masked_mask masked_append by metis
      with s(2) digit True show ?thesis by (simp only: sub_hex.simps Let_def if_True)
    next
      case False
      have "masked ?rest (sub_hex f ?rest)" using 2(2)[OF digit refl refl refl False] 2(4) by blast
      then have "masked (?run @ ?rest) (?run @ sub_hex f ?rest)" by (rule masked_append)
      with s(1) digit False show ?thesis by (simp only: sub_hex.simps Let_def if_True if_False)
    qed
  next
    case False
    with 2(3)[OF False] 2(4) show ?thesis by (simp add: masked_keep)
  qed
qed (simp add: masked_Nil)

lemma py_replace_masked: "f \<noteq> [] \<Longrightarrow> masked t (py_replace f MASK t)"
  by (simp add: py_replace_def masked_replace)

lemma fold_replace_absent:
  assumes "\<And>f. f \<in> set fs \<Longrightarrow> f \<noteq> []" and "maskable w" and "w \<in> set fs \<or> \<not> sublist w t"
  shows "\<not> sublist w (fold (\<lambda>f t. py_replace f MASK t) fs t)"
  using assms
proof (induction fs arbitrary: t)
  case (Cons f fs)
  have "w \<in> set fs \<or> \<not> sublist w (py_replace f MASK t)"
    using Cons.prems masked_absent[OF py_replace_masked, of f w t] replace_absent[of w t]
    by (auto simp: py_replace_def maskable_def)
  with Cons show ?case by auto
qed simp

lemma masked_set: "masked t t' \<Longrightarrow> set t' \<subseteq> set t \<union> set MASK"
  by (induction rule: masked.induct) auto

lemma fold_replace_set:
  "(\<And>f. f \<in> set fs \<Longrightarrow> f \<noteq> []) \<Longrightarrow> set (fold (\<lambda>f t. py_replace f MASK t) fs t) \<subseteq> set t \<union> set MASK"
proof (induction fs arbitrary: t)
  case (Cons f fs)
  then show ?case using masked_set[OF py_replace_masked, of f t] Cons.IH[of "py_replace f MASK t"] by auto
qed simp

lemma fold_redact_forms:
  "fold redact_forms order t = fold (\<lambda>f t. py_replace f MASK t) (concat (map secret_forms order)) t"
  by (induction order arbitrary: t) (simp_all add: redact_forms_def)

lemma windows_masked: "masked t (redact_encoded_windows r t) \<or> (\<exists>u. masked t u \<and> masked u (redact_encoded_windows r t))"
proof -
  have "mask_b64 ss x = x \<or> mask_b64 ss x = MASK" "mask_hex ss x = x \<or> mask_hex ss x = MASK" for ss x
    by (auto simp: mask_b64_def mask_hex_def split: option.splits)
  then have "masked t (sub_b64 (mask_b64 (rd_secrets r)) t)"
    "masked (sub_b64 (mask_b64 (rd_secrets r)) t) (sub_hex (mask_hex (rd_secrets r)) (sub_b64 (mask_b64 (rd_secrets r)) t))"
    using masked_sub_b64 masked_sub_hex by blast+
  then show ?thesis by (auto simp: redact_encoded_windows_def masked_refl)
qed

lemma windows_absent: "maskable w \<Longrightarrow> \<not> sublist w t \<Longrightarrow> \<not> sublist w (redact_encoded_windows r t)"
  using windows_masked[of t r] masked_absent by blast

lemma utf8_char_ne: "utf8_char c \<noteq> []"
  by (simp add: utf8_char_def)

lemma length_utf8: "length s \<le> length (utf8_encode s)"
proof (induction s)
  case (Cons c s)
  then show ?case using utf8_char_ne[of c] by (cases "utf8_char c") (auto simp: utf8_encode_def)
qed (simp add: utf8_encode_def)

lemma length_b64: "length bs \<le> length (b64encode bs)"
  by (induction bs rule: b64encode.induct) auto

lemma length_hex: "length bs \<le> length (bytes_hex bs)"
  by (induction bs) (auto simp: bytes_hex_def)

lemma length_quote_bytes: "length bs \<le> length (concat (map quote_byte bs))"
proof (induction bs)
  case (Cons b bs)
  then show ?case by (auto simp: quote_byte_def Let_def)
qed simp

lemma secret_forms_length: "f \<in> set (secret_forms s) \<Longrightarrow> length s \<le> length f"
  using length_utf8[of s] length_b64[of "utf8_encode s"] length_hex[of "utf8_encode s"] length_quote_bytes[of "utf8_encode s"]
  by (auto simp: secret_forms_def url_quote_def)

lemma maskable_long: "8 \<le> length f \<Longrightarrow> 42 \<notin> set f \<Longrightarrow> f \<noteq> cps ''REDACTED'' \<Longrightarrow> maskable f"
proof -
  assume f: "8 \<le> length f" "42 \<notin> set f" "f \<noteq> cps ''REDACTED''"
  have "\<not> sublist f (cps ''REDACTED'')"
  proof
    assume sub: "sublist f (cps ''REDACTED'')"
    then have "length f = length (cps ''REDACTED'')" using f(1) sublist_length_le[OF sub] by (simp add: cps_def)
    with sub have "f = cps ''REDACTED''" by (auto simp: sublist_def)
    with f(3) show False by simp
  qed
  with f show ?thesis by (auto simp: maskable_def star_free_def)
qed

text \<open>The constructor keeps exactly the values long enough, and refuses to start without one.\<close>

lemma fold_load_var:
  "set (snd (snd (snd (fold (load_var env) vars st)))) =
     set (snd (snd (snd st))) \<union> {v. MIN_LEN \<le> length v \<and> (\<exists>var \<in> set vars. dict_get env var = Some v)}"
proof (induction vars arbitrary: st)
  case (Cons var vars)
  obtain a b c d where st: "st = (a, b, c, d)" by (cases st)
  have "set (snd (snd (snd (load_var env var st)))) = set d \<union> {v. MIN_LEN \<le> length v \<and> dict_get env var = Some v}"
    by (auto simp: st load_var_def MIN_LEN_def split: option.splits)
  with Cons show ?case by (auto simp: st)
qed simp

lemma fold_load_extra:
  "set (fold load_extra extra ss) = set ss \<union> {v \<in> set extra. MIN_LEN \<le> length v}"
proof (induction extra arbitrary: ss)
  case (Cons v extra)
  have "set (load_extra v ss) = set ss \<union> (if MIN_LEN \<le> length v then {v} else {})"
    by (auto simp: load_extra_def MIN_LEN_def)
  with Cons show ?case by auto
qed simp

lemma redactor_init_secrets:
  assumes "redactor_init env vars extra allow = Inr r"
  shows "set (rd_secrets r) = {v. MIN_LEN \<le> length v \<and> (v \<in> set extra \<or> (\<exists>var \<in> set vars. dict_get env var = Some v))}"
proof -
  obtain a b c d where f: "fold (load_var env) vars ([], [], [], []) = (a, b, c, d)" by (metis prod_cases4)
  have "set d = {v. MIN_LEN \<le> length v \<and> (\<exists>var \<in> set vars. dict_get env var = Some v)}"
    using fold_load_var[of env vars "([], [], [], [])"] by (simp add: f)
  moreover have "rd_secrets r = fold load_extra extra d"
    using assms by (auto simp: redactor_init_def f Let_def split: if_splits)
  ultimately show ?thesis using fold_load_extra[of extra d] by auto
qed

lemma redact_absent:
  assumes ne: "\<And>s. s \<in> set (rd_secrets r) \<Longrightarrow> s \<noteq> []"
    and s: "s \<in> set (rd_secrets r)" "f \<in> set (secret_forms s)" "maskable f" and form: "f = s \<or> 37 \<notin> set text"
  shows "\<not> sublist f (redact r text)"
proof -
  let ?order = "by_length (rd_secrets r)" and ?rep = "\<lambda>f t. py_replace f MASK t"
  let ?forms = "concat (map secret_forms ?order)"
  let ?t1 = "fold redact_forms ?order text"
  have set_order: "set ?order = set (rd_secrets r)" by (simp add: by_length_def)
  have forms_ne: "g \<noteq> []" if "g \<in> set ?forms" for g
    using that ne secret_forms_length by (fastforce simp: set_order)
  have t1: "?t1 = fold ?rep ?forms text" by (rule fold_redact_forms)
  have "f \<in> set ?forms" using s by (auto simp: set_order)
  then have a1: "\<not> sublist f ?t1" unfolding t1 using forms_ne s(3) by (intro fold_replace_absent) auto
  have a2: "\<not> sublist f (fold ?rep ?order (url_unquote ?t1))"
  proof (rule fold_replace_absent)
    show "g \<noteq> []" if "g \<in> set ?order" for g using that ne by (simp add: set_order)
    show "maskable f" by (rule s(3))
    show "f \<in> set ?order \<or> \<not> sublist f (url_unquote ?t1)"
    proof (cases "f = s")
      case True
      then show ?thesis using s by (simp add: set_order)
    next
      case False
      with form have "37 \<notin> set ?t1" unfolding t1 using fold_replace_set[of ?forms "text"] forms_ne
        by (auto simp: MASK_def cps_def)
      with a1 show ?thesis by (simp add: url_unquote_def)
    qed
  qed
  from a1 a2 show ?thesis unfolding redact_def Let_def by (intro windows_absent s(3)) (simp split: if_splits)
qed

section \<open>What the guard sees\<close>

lemma candidate_run:
  assumes "list_all b64_candidate_char run" "10 \<le> length run"
    and "post = [] \<or> \<not> b64_candidate_char (hd post)" and "pre = [] \<or> \<not> b64_candidate_char (last pre)"
  shows "run \<in> set (b64_candidates (pre @ run @ post))"
  using assms(4)
proof (induction "length pre" arbitrary: pre rule: less_induct)
  case less
  show ?case
  proof (cases pre)
    case Nil
    have "takeWhile b64_candidate_char (run @ post) = run"
      using assms(1,3) by (cases post) (auto simp: list_all_iff takeWhile_append2)
    moreover obtain c r where "run = c # r" using assms(2) by (cases run) auto
    ultimately show ?thesis using assms(1,2) Nil by (simp add: Let_def)
  next
    case (Cons c p)
    show ?thesis
    proof (cases "b64_candidate_char c")
      case True
      let ?p = "dropWhile b64_candidate_char p"
      have last: "\<not> b64_candidate_char (last p)" "p \<noteq> []" using less.prems Cons True by (auto split: if_splits)
      then have ex: "\<exists>x \<in> set p. \<not> b64_candidate_char x" by (meson last_in_set)
      then have ne: "?p \<noteq> []" by (simp add: dropWhile_eq_Nil_conv)
      then have "last ?p = last p" by (metis last_appendR takeWhile_dropWhile_id)
      moreover have "length ?p < length pre" using length_dropWhile_le[of b64_candidate_char p] Cons by simp
      ultimately have "run \<in> set (b64_candidates (?p @ run @ post))" using less.hyps last by simp
      moreover have "dropWhile b64_candidate_char (p @ run @ post) = ?p @ run @ post" using ex by (auto simp: dropWhile_append)
      ultimately show ?thesis using Cons True by (simp add: Let_def)
    next
      case False
      have "p = [] \<or> \<not> b64_candidate_char (last p)" using less.prems Cons by auto
      then have "run \<in> set (b64_candidates (p @ run @ post))" using less.hyps Cons by simp
      with False Cons show ?thesis by simp
    qed
  qed
qed

lemma b64_candidate_chars: "list_all b64_candidate_char (b64encode bs)" if "list_all (\<lambda>b. b < 256) bs"
proof -
  have "b64_candidate_char (b64_char v)" if "v < 64" for v
    using b64_val_char[OF that] by (simp add: b64_candidate_char_def b64_digit_def)
  moreover have "b64_candidate_char 61" by (simp add: b64_candidate_char_def)
  ultimately show ?thesis using that
  proof (induction bs rule: b64encode.induct)
    case (2 a)
    then show ?case using b64_bits[of a 0] by simp
  next
    case (3 a b)
    then show ?case using b64_bits[of a b] b64_bits[of b b] by simp
  next
    case (4 a b c bs)
    then show ?case using b64_bits[of a b] b64_bits[of c b] by simp
  qed simp
qed

lemma check_b64_text:
  assumes "list_all scalar m" "occurs s m" "s \<in> set (sg_secrets g)" "10 \<le> length (b64encode (utf8_encode m))"
    and "pre = [] \<or> \<not> b64_candidate_char (last pre)" "post = [] \<or> \<not> b64_candidate_char (hd post)"
  shows "check_text environ g (pre @ b64encode (utf8_encode m) @ post)"
proof -
  let ?run = "b64encode (utf8_encode m)"
  have "b64decode ?run = Some (utf8_encode m)" by (rule b64_roundtrip[OF utf8_bytes[OF assms(1)]])
  moreover have "utf8_decode (utf8_encode m) = m" using utf8_roundtrip[OF assms(1), of "[]"] by simp
  moreover have "?run \<in> set (b64_candidates (pre @ ?run @ post))"
    using candidate_run[OF b64_candidate_chars[OF utf8_bytes[OF assms(1)]] assms(4,6,5)] .
  ultimately have "list_ex (\<lambda>candidate. case b64decode candidate of None \<Rightarrow> False
      | Some bs \<Rightarrow> list_ex (\<lambda>secret. occurs secret (utf8_decode bs)) (sg_secrets g)) (b64_candidates (pre @ ?run @ post))"
    using assms(2,3) by (force simp: list_ex_iff)
  then show ?thesis by (simp only: check_text_def simp_thms)
qed

lemma name_len_chars: "c \<in> set (take (name_len s) s) \<Longrightarrow> name_char c"
  by (cases s) (auto simp: name_len_def takeWhile_eq_take[symmetric] dest: set_takeWhileD split: if_splits)

lemma nth_in_name: "i < name_len s \<Longrightarrow> name_char (s ! i)"
proof -
  assume i: "i < name_len s"
  have "name_len s \<le> length s" by (cases s) (auto simp: name_len_def length_takeWhile_le)
  with i have "s ! i \<in> set (take (name_len s) s)" by (auto simp: in_set_conv_nth intro!: exI[of _ i])
  then show ?thesis by (rule name_len_chars)
qed

text \<open>A dollar sign can only begin a match, so a match that starts before it ends before it.\<close>

lemma interp_match_no_dollar: "INTERP_RE s = Some n \<Longrightarrow> 0 < i \<Longrightarrow> i < n \<Longrightarrow> i < length s \<Longrightarrow> s ! i \<noteq> 36"
proof -
  assume m: "INTERP_RE s = Some n" and i: "0 < i" "i < n" "i < length s"
  have no: "\<not> name_char 36" "\<not> name_char 123" "\<not> name_char 125" by (simp_all add: name_char_def name_start_def)
  have in1: "s ! i \<noteq> 36" if "i - 1 < name_len (drop 1 s)"
    using nth_in_name[OF that] no i by auto
  have in2: "s ! i \<noteq> 36" if "2 \<le> i" "i - 2 < name_len (drop 2 s)"
  proof -
    have "drop 2 s ! (i - 2) = s ! (2 + (i - 2))" using that(1) i(3) by (intro nth_drop) simp
    moreover have "2 + (i - 2) = i" using that(1) by simp
    ultimately have "drop 2 s ! (i - 2) = s ! i" by (simp only:)
    with nth_in_name[OF that(2)] no show ?thesis by auto
  qed
  from m consider "n = 1 + name_len (drop 1 s)"
    | "n = 3 + name_len (drop 2 s)" "prefix (cps ''${'') s" "prefix (cps ''}'') (drop (2 + name_len (drop 2 s)) s)"
    | "n = 4 + name_len (drop 2 s)" "prefix (cps ''{{'') s" "prefix (cps ''}}'') (drop (2 + name_len (drop 2 s)) s)"
    by (auto simp: INTERP_RE_def Let_def split: if_splits)
  then show ?thesis
  proof cases
    case 1
    with i in1 show ?thesis by simp
  next
    case 2
    have "s ! 1 = 123" using 2(2) by (auto simp: prefix_def cps_def)
    moreover have "s ! (2 + name_len (drop 2 s)) = 125" using 2(3) by (auto simp: prefix_def cps_def nth_via_drop)
    moreover have "i = 1 \<or> (2 \<le> i \<and> i - 2 < name_len (drop 2 s)) \<or> i = 2 + name_len (drop 2 s)" using i 2(1) by auto
    ultimately show ?thesis using in2 by auto
  next
    case 3
    have "s ! 1 = 123" using 3(2) by (auto simp: prefix_def cps_def)
    moreover obtain u where u: "drop (2 + name_len (drop 2 s)) s = 125 # 125 # u" using 3(3) by (auto simp: prefix_def cps_def)
    then have "2 + name_len (drop 2 s) \<le> length s" by (metis drop_all linear list.distinct(1))
    then have "s ! (2 + name_len (drop 2 s) + j) = (125 # 125 # u) ! j" for j unfolding u[symmetric] by (simp only: nth_drop)
    from this[of 0] this[of 1] have "s ! (2 + name_len (drop 2 s)) = 125" "s ! (3 + name_len (drop 2 s)) = 125"
      by (simp_all add: numeral_3_eq_3)
    moreover have "i = 1 \<or> (2 \<le> i \<and> i - 2 < name_len (drop 2 s)) \<or> i = 2 + name_len (drop 2 s) \<or> i = 3 + name_len (drop 2 s)"
      using i 3(1) by auto
    ultimately show ?thesis using in2 by auto
  qed
qed

lemma interp_found:
  assumes "INTERP_RE (36 # u @ post) = Some (Suc (length u))"
  shows "36 # u \<in> set (interp_matches (pre @ 36 # u @ post))"
proof (induction "length pre" arbitrary: pre rule: less_induct)
  case less
  show ?case
  proof (cases pre)
    case Nil
    then show ?thesis using assms by simp
  next
    case (Cons c p)
    let ?s = "c # p @ 36 # u @ post"
    show ?thesis
    proof (cases "INTERP_RE ?s")
      case None
      then show ?thesis using less.hyps[of p] Cons by simp
    next
      case (Some n)
      have "\<not> length pre < n"
        using interp_match_no_dollar[OF Some, of "length pre"] Cons by (auto simp: nth_append)
      then have n: "n - 1 \<le> length p" using Cons by auto
      have "36 # u \<in> set (interp_matches (drop (n - 1) p @ 36 # u @ post))"
        using less.hyps[of "drop (n - 1) p"] Cons by auto
      then show ?thesis using Cons Some n by simp
    qed
  qed
qed

section \<open>Properties\<close>

text \<open>C15: 
  The redactor built from the environment hides the API keys: no key of at least eight characters
  survives in a redacted text, and when the text has no percent sign, neither do its base64, hex,
  URL-quoted and reversed forms (code points 37 and 42 are the percent sign and the star; a form with
  a star in it, or equal to the word in the mask, can reappear next to
  or inside a mask).
\<close>
theorem redact_hides_keys:
  assumes "redactor_init env vars extra allow = Inr r"
    and "var \<in> set vars" "dict_get env var = Some key" "8 \<le> length key"
    and "form \<in> set (secret_forms key)" "42 \<notin> set form" "form \<noteq> cps ''REDACTED''"
    and "form = key \<or> 37 \<notin> set content"
  shows "\<not> occurs form (redact r content)"
proof -
  have long: "8 \<le> length s" if "s \<in> set (rd_secrets r)" for s
    using that redactor_init_secrets[OF assms(1)] by (simp add: MIN_LEN_def)
  then have ne: "s \<noteq> []" if "s \<in> set (rd_secrets r)" for s using that by fastforce
  have key: "key \<in> set (rd_secrets r)"
    using redactor_init_secrets[OF assms(1)] assms(2-4) by (auto simp: MIN_LEN_def)
  have "maskable form"
    using maskable_long[of form] secret_forms_length[OF assms(5)] assms(4,6,7) by simp
  then show ?thesis unfolding occurs_sublist using redact_absent[OF ne key assms(5)] assms(8) by blast
qed

definition demo_env :: "(string, ustr) pydict" where
  "demo_env = [(''API_KEY'', cps ''sk-0123456789''), (''OLD_KEY'', cps ''short'')]"

theorem redact_hides_keys_witness:
  "redactor_init demo_env [''API_KEY'', ''OLD_KEY''] [] False = Inr \<lparr>rd_secrets = [cps ''sk-0123456789'']\<rparr> \<and>
   \<not> occurs (b64encode (utf8_encode (cps ''sk-0123456789'')))
       (redact \<lparr>rd_secrets = [cps ''sk-0123456789'']\<rparr> (cps ''key c2stMDEyMzQ1Njc4OQ== used''))"
proof -
  have init: "redactor_init demo_env [''API_KEY'', ''OLD_KEY''] [] False = Inr \<lparr>rd_secrets = [cps ''sk-0123456789'']\<rparr>"
    by code_simp
  have "\<not> occurs (b64encode (utf8_encode (cps ''sk-0123456789'')))
       (redact \<lparr>rd_secrets = [cps ''sk-0123456789'']\<rparr> (cps ''key c2stMDEyMzQ1Njc4OQ== used''))"
  proof (rule redact_hides_keys[OF init, of "''API_KEY''" "cps ''sk-0123456789''"])
    show "''API_KEY'' \<in> set [''API_KEY'', ''OLD_KEY'']" by simp
    show "dict_get demo_env ''API_KEY'' = Some (cps ''sk-0123456789'')" by code_simp
    show "8 \<le> length (cps ''sk-0123456789'')" by code_simp
    show "b64encode (utf8_encode (cps ''sk-0123456789'')) \<in> set (secret_forms (cps ''sk-0123456789''))"
      by (simp add: secret_forms_def)
    show "42 \<notin> set (b64encode (utf8_encode (cps ''sk-0123456789'')))" by code_simp
    show "b64encode (utf8_encode (cps ''sk-0123456789'')) \<noteq> cps ''REDACTED''" by code_simp
    show "b64encode (utf8_encode (cps ''sk-0123456789'')) = cps ''sk-0123456789'' \<or>
      37 \<notin> set (cps ''key c2stMDEyMzQ1Njc4OQ== used'')" by code_simp
  qed
  with init show ?thesis by blast
qed

text \<open>
  A secret leaks through a text when it or one of its encodings occurs in it, when the text decodes
  to it, when a stretch of the text is the base64 form of any message with the secret in it, or when
  the text mentions an environment variable that holds it.
\<close>

definition leaks :: "(ustr, ustr) pydict \<Rightarrow> ustr \<Rightarrow> ustr \<Rightarrow> bool" where
  "leaks environ s t \<longleftrightarrow>
     occurs s t \<or> occurs (b64encode (utf8_encode s)) t \<or> occurs (url_quote s) t \<or> occurs s (url_unquote t) \<or>
     (\<exists>pre m post. t = pre @ b64encode (utf8_encode m) @ post \<and> list_all scalar m \<and> occurs s m \<and>
        10 \<le> length (b64encode (utf8_encode m)) \<and> (pre = [] \<or> \<not> b64_candidate_char (last pre)) \<and>
        (post = [] \<or> \<not> b64_candidate_char (hd post))) \<or>
     (\<exists>pre name post. t = pre @ cps ''$'' @ name @ post \<and> name \<noteq> [] \<and> name_start (hd name) \<and> list_all name_char name \<and>
        (post = [] \<or> \<not> name_char (hd post)) \<and> dict_get environ name = Some s)"

lemma interp_dollar:
  assumes "name \<noteq> []" "name_start (hd name)" "list_all name_char name" "post = [] \<or> \<not> name_char (hd post)"
  shows "INTERP_RE (36 # name @ post) = Some (Suc (length name))"
proof -
  have "takeWhile name_char (name @ post) = name"
    using assms(3,4) by (cases post) (auto simp: list_all_iff takeWhile_append2)
  then have "name_len (name @ post) = length name" using assms(1,2) by (cases name) (auto simp: name_len_def)
  then show ?thesis using assms(1) by (simp add: INTERP_RE_def cps_def)
qed

lemma strip_name: "list_all name_char name \<Longrightarrow> strip_interp (36 # name) = name"
proof -
  assume n: "list_all name_char name"
  have no: "\<not> name_char 36" "\<not> name_char 123" "\<not> name_char 125" by (simp_all add: name_char_def name_start_def)
  have keep: "dropWhile (\<lambda>c. c \<in> set (cps ''${}'')) w = w" if "list_all name_char w" for w
    using that no by (cases w) (auto simp: cps_def)
  have "list_all name_char (rev name)" using n by (simp add: list_all_iff)
  then show ?thesis using keep[OF n] keep[of "rev name"] by (simp add: strip_interp_def Let_def cps_def)
qed

lemma check_text_leaks:
  assumes "s \<in> set (sg_secrets g)" "s \<noteq> []" "leaks environ s t"
  shows "check_text environ g t"
proof -
  from assms(3) consider
      "occurs s t \<or> occurs (b64encode (utf8_encode s)) t \<or> occurs (url_quote s) t \<or> occurs s (url_unquote t)"
    | pre m post where "t = pre @ b64encode (utf8_encode m) @ post" "list_all scalar m" "occurs s m"
        "10 \<le> length (b64encode (utf8_encode m))" "pre = [] \<or> \<not> b64_candidate_char (last pre)"
        "post = [] \<or> \<not> b64_candidate_char (hd post)"
    | pre name post where "t = pre @ cps ''$'' @ name @ post" "name \<noteq> []" "name_start (hd name)" "list_all name_char name"
        "post = [] \<or> \<not> name_char (hd post)" "dict_get environ name = Some s"
    unfolding leaks_def by (elim disjE exE conjE) blast+
  then show ?thesis
  proof cases
    case 1
    then show ?thesis using assms(1) by (auto simp: check_text_def list_ex_iff)
  next
    case 2
    then show ?thesis using check_b64_text[OF 2(2,3) assms(1) 2(4-6)] by simp
  next
    case 3
    have "t = pre @ 36 # name @ post" using 3(1) by (simp add: cps_def)
    then have "36 # name \<in> set (interp_matches t)" using interp_found[OF interp_dollar[OF 3(2-5)]] by simp
    then have "list_ex (\<lambda>raw. let resolved = dict_get_default environ (strip_interp raw) []
        in resolved \<noteq> [] \<and> resolved \<in> set (sg_secrets g)) (interp_matches t)"
      using assms(1,2) 3(6) strip_name[OF 3(4)] by (force simp: list_ex_iff dict_get_default_def)
    then show ?thesis by (simp only: check_text_def simp_thms)
  qed
qed

text \<open>The last test of the guard cannot fire: a secret in the clear was found by \<open>_check_text\<close> before it.\<close>

lemma env_gate_redundant:
  "secret_guard_handle environ g point payload =
     (case hp_tool_call payload of
        None \<Rightarrow> Inr decision_allow
      | Some call \<Rightarrow>
         (if tc_name call = ''fs_write_file'' \<and>
             (case str_param call ''content'' of None \<Rightarrow> False | Some s \<Rightarrow> check_text environ g (cps s))
          then decision_deny ''secret leak detected in fs_write_file content''
          else if tc_name call \<in> {''fs_run_bash'', ''fs_spawn_subagent''} \<and>
             (case str_param call ''command'' of None \<Rightarrow> False | Some s \<Rightarrow> check_text environ g (cps s))
          then decision_deny ''secret leak detected in shell-like command''
          else Inr decision_allow))"
  by (auto simp: secret_guard_handle_def check_text_def list_ex_iff split: option.splits)

interpretation sg: pure_guard "secret_guard_handle environ g"
  by unfold_locales (auto simp: env_gate_redundant split: option.splits)


definition demo_write :: "string \<Rightarrow> hook_payload" where
  "demo_write t = \<lparr>hp_tool_call = Some \<lparr>tc_name = ''fs_write_file'', tc_params = [(''content'', JStr t)], tc_call_id = ''c1''\<rparr>,
     hp_tool_result = None, hp_role = [], hp_acting_family = [], hp_context = []\<rparr>"


text \<open>
  An encoded form that only appears when the text is unquoted is not looked for again: the first
  percent-encoded key makes the redactor unquote the whole text, and the base64 form that shows up
  then is too short for a window.
\<close>

definition demo_leak :: ustr where
  "demo_leak = cps ''%73k-01234 %63%32stMDEyMzQ=''"

lemma redact_misses_unquoted_forms:
  "occurs (b64encode (utf8_encode (cps ''sk-01234''))) (redact \<lparr>rd_secrets = [cps ''sk-01234'']\<rparr> demo_leak)"
  by code_simp

end
