(* ===== verification/Runtime_Limits.thy ===== *)
theory Runtime_Limits
  imports Config Recovery Loop_Guard
begin

text \<open>
  Runtime caps (\<open>inner_loop/runtime_limits.py\<close>): the documented anchors, the \<open>runtime_limits:\<close> block of
  the configuration file with its typed keys and warnings, and the iteration cap of a role. The
  lemmas bound every loaded value, say which line a value comes from, and how the loaded caps meet the
  constructor of the loop guard, as \<open>cli.py\<close> calls it.
\<close>

section \<open>Anchors\<close>

definition DEFAULT_MAX_ITERATIONS :: int where "DEFAULT_MAX_ITERATIONS = 6"
definition DEFAULT_BASH_TIMEOUT_SECONDS :: int where "DEFAULT_BASH_TIMEOUT_SECONDS = 30"
definition DEFAULT_LOOP_GUARD_REPEAT_WARN :: int where "DEFAULT_LOOP_GUARD_REPEAT_WARN = 3"
definition DEFAULT_LOOP_GUARD_CIRCUIT_BREAKER :: int where "DEFAULT_LOOP_GUARD_CIRCUIT_BREAKER = 5"
definition DEFAULT_LOOP_GUARD_WINDOW :: int where "DEFAULT_LOOP_GUARD_WINDOW = 8"
definition DEFAULT_LOOP_GUARD_PINGPONG_WARN_CYCLES :: int where "DEFAULT_LOOP_GUARD_PINGPONG_WARN_CYCLES = 3"
definition DEFAULT_LOOP_GUARD_PINGPONG_BREAK_CYCLES :: int where "DEFAULT_LOOP_GUARD_PINGPONG_BREAK_CYCLES = 4"
definition DEFAULT_QA_MAX_ITERATIONS :: int where "DEFAULT_QA_MAX_ITERATIONS = 50"
definition DEFAULT_QA_MAX_CONSECUTIVE_ERRORS :: int where "DEFAULT_QA_MAX_CONSECUTIVE_ERRORS = 3"
definition DEFAULT_QA_RECURRING_ISSUE_THRESHOLD :: int where "DEFAULT_QA_RECURRING_ISSUE_THRESHOLD = 3"
definition DEFAULT_RATE_LIMIT_SUPPRESSION_SECONDS :: int where "DEFAULT_RATE_LIMIT_SUPPRESSION_SECONDS = 30"
definition DEFAULT_LOCKFILE_SUPPRESSION_SECONDS :: int where "DEFAULT_LOCKFILE_SUPPRESSION_SECONDS = 5"
definition DEFAULT_AUTH_EXPIRED_SUPPRESSION_SECONDS :: int where "DEFAULT_AUTH_EXPIRED_SUPPRESSION_SECONDS = 0"
definition DEFAULT_MAX_SUBAGENT_SPAWNS_PER_SESSION :: int where "DEFAULT_MAX_SUBAGENT_SPAWNS_PER_SESSION = 3"
definition DEFAULT_WORKFLOW_TIMEOUT_SECONDS :: int where "DEFAULT_WORKFLOW_TIMEOUT_SECONDS = 1800"
definition DEFAULT_MAX_WORKFLOW_INVOCATIONS :: int where "DEFAULT_MAX_WORKFLOW_INVOCATIONS = 2"
definition DEFAULT_MIN_FLAG_RUNS :: int where "DEFAULT_MIN_FLAG_RUNS = 10"
definition DEFAULT_CHAT_ESCALATION_GATE :: bool where "DEFAULT_CHAT_ESCALATION_GATE = False"
definition DEFAULT_CALIBRATION_EPSILON :: rat where "DEFAULT_CALIBRATION_EPSILON = 5 / 100"
definition DEFAULT_COST_BUDGET_USD :: "rat option" where "DEFAULT_COST_BUDGET_USD = None"

definition ROLE_ITERATION_DEFAULTS :: "(string, int) pydict" where
  "ROLE_ITERATION_DEFAULTS = [(''planner'', 99), (''coder'', 99), (''eval'', 99), (''researcher'', 99), (''code-reviewer'', 99)]"

definition LIVE_ROLE_NAMES :: "string list" where "LIVE_ROLE_NAMES = [''planner'', ''coder'', ''eval'']"

definition ROLE_KEY_TO_NAME :: "(string, string) pydict" where
  "ROLE_KEY_TO_NAME = [(''max_iterations_planner'', ''planner''), (''max_iterations_coder'', ''coder''),
     (''max_iterations_eval'', ''eval''), (''max_iterations_researcher'', ''researcher''),
     (''max_iterations_code-reviewer'', ''code-reviewer'')]"

record runtime_limits =
  rl_max_iterations :: int
  rl_bash_timeout_seconds :: int
  rl_loop_guard_repeat_warn :: int
  rl_loop_guard_circuit_breaker :: int
  rl_loop_guard_window :: int
  rl_loop_guard_pingpong_warn_cycles :: int
  rl_loop_guard_pingpong_break_cycles :: int
  rl_attempt_history_max_entries :: int
  rl_attempt_history_max_age_seconds :: int
  rl_qa_max_iterations :: int
  rl_qa_max_consecutive_errors :: int
  rl_qa_recurring_issue_threshold :: int
  rl_rate_limit_suppression_seconds :: int
  rl_lockfile_suppression_seconds :: int
  rl_auth_expired_suppression_seconds :: int
  rl_cost_budget_usd :: "rat option"
  rl_max_subagent_spawns_per_session :: int
  rl_workflow_timeout_seconds :: int
  rl_chat_escalation_gate :: bool
  rl_max_workflow_invocations :: int
  rl_calibration_epsilon :: rat
  rl_min_flag_runs :: int

definition anchored_defaults :: runtime_limits where
  "anchored_defaults = \<lparr>
     rl_max_iterations = DEFAULT_MAX_ITERATIONS,
     rl_bash_timeout_seconds = DEFAULT_BASH_TIMEOUT_SECONDS,
     rl_loop_guard_repeat_warn = DEFAULT_LOOP_GUARD_REPEAT_WARN,
     rl_loop_guard_circuit_breaker = DEFAULT_LOOP_GUARD_CIRCUIT_BREAKER,
     rl_loop_guard_window = DEFAULT_LOOP_GUARD_WINDOW,
     rl_loop_guard_pingpong_warn_cycles = DEFAULT_LOOP_GUARD_PINGPONG_WARN_CYCLES,
     rl_loop_guard_pingpong_break_cycles = DEFAULT_LOOP_GUARD_PINGPONG_BREAK_CYCLES,
     rl_attempt_history_max_entries = DEFAULT_ATTEMPT_HISTORY_MAX_ENTRIES,
     rl_attempt_history_max_age_seconds = DEFAULT_ATTEMPT_HISTORY_MAX_AGE_SECONDS,
     rl_qa_max_iterations = DEFAULT_QA_MAX_ITERATIONS,
     rl_qa_max_consecutive_errors = DEFAULT_QA_MAX_CONSECUTIVE_ERRORS,
     rl_qa_recurring_issue_threshold = DEFAULT_QA_RECURRING_ISSUE_THRESHOLD,
     rl_rate_limit_suppression_seconds = DEFAULT_RATE_LIMIT_SUPPRESSION_SECONDS,
     rl_lockfile_suppression_seconds = DEFAULT_LOCKFILE_SUPPRESSION_SECONDS,
     rl_auth_expired_suppression_seconds = DEFAULT_AUTH_EXPIRED_SUPPRESSION_SECONDS,
     rl_cost_budget_usd = DEFAULT_COST_BUDGET_USD,
     rl_max_subagent_spawns_per_session = DEFAULT_MAX_SUBAGENT_SPAWNS_PER_SESSION,
     rl_workflow_timeout_seconds = DEFAULT_WORKFLOW_TIMEOUT_SECONDS,
     rl_chat_escalation_gate = DEFAULT_CHAT_ESCALATION_GATE,
     rl_max_workflow_invocations = DEFAULT_MAX_WORKFLOW_INVOCATIONS,
     rl_calibration_epsilon = DEFAULT_CALIBRATION_EPSILON,
     rl_min_flag_runs = DEFAULT_MIN_FLAG_RUNS\<rparr>"

definition KNOWN_KEYS :: "string list" where
  "KNOWN_KEYS = [''max_iterations'', ''bash_timeout_seconds'', ''loop_guard_repeat_warn'', ''loop_guard_circuit_breaker'',
     ''loop_guard_window'', ''loop_guard_pingpong_warn_cycles'', ''loop_guard_pingpong_break_cycles'',
     ''attempt_history_max_entries'', ''attempt_history_max_age_seconds'', ''qa_max_iterations'',
     ''qa_max_consecutive_errors'', ''qa_recurring_issue_threshold'', ''rate_limit_suppression_seconds'',
     ''lockfile_suppression_seconds'', ''auth_expired_suppression_seconds'', ''cost_budget_usd'',
     ''max_subagent_spawns_per_session'', ''workflow_timeout_seconds'', ''chat_escalation_gate'',
     ''max_workflow_invocations'', ''calibration_epsilon'', ''min_flag_runs'', ''max_iterations_planner'',
     ''max_iterations_coder'', ''max_iterations_eval'', ''max_iterations_researcher'', ''max_iterations_code-reviewer'']"

definition ZERO_ALLOWED_KEYS :: "string list" where
  "ZERO_ALLOWED_KEYS = [''rate_limit_suppression_seconds'', ''lockfile_suppression_seconds'',
     ''auth_expired_suppression_seconds'', ''cost_budget_usd'']"

definition FLOAT_KEYS :: "string list" where "FLOAT_KEYS = [''cost_budget_usd'', ''calibration_epsilon'']"
definition UNIT_INTERVAL_KEYS :: "string list" where "UNIT_INTERVAL_KEYS = [''calibration_epsilon'']"
definition BOOL_KEYS :: "string list" where "BOOL_KEYS = [''chat_escalation_gate'']"
definition BOOL_TRUE :: "string list" where "BOOL_TRUE = [''true'', ''yes'', ''on'', ''1'']"
definition BOOL_FALSE :: "string list" where "BOOL_FALSE = [''false'', ''no'', ''off'', ''0'']"

section \<open>Loader\<close>

record limits_state =
  lm_found :: "(string, int) pydict"
  lm_found_float :: "(string, rat) pydict"
  lm_found_bool :: "(string, bool) pydict"
  lm_found_role :: "(string, int) pydict"
  lm_warnings :: "config_warning list"
  lm_in_block :: bool

definition limits_warn :: "nat \<Rightarrow> string \<Rightarrow> string \<Rightarrow> limits_state \<Rightarrow> limits_state" where
  "limits_warn n k d st = st\<lparr>lm_warnings := lm_warnings st @ [\<lparr>cw_line_no = n, cw_key = k, cw_detail = d\<rparr>]\<rparr>"

definition accept_bool_key :: "string \<Rightarrow> string \<Rightarrow> nat \<Rightarrow> limits_state \<Rightarrow> limits_state" where
  "accept_bool_key key value_str n st =
     (let lowered = py_lower (py_strip_chars [CHR 0x27] (py_strip_chars [CHR 0x22] (py_strip value_str))) in
      if lowered \<in> set BOOL_TRUE then st\<lparr>lm_found_bool := AList.update key True (lm_found_bool st)\<rparr>
      else if lowered \<in> set BOOL_FALSE then st\<lparr>lm_found_bool := AList.update key False (lm_found_bool st)\<rparr>
      else limits_warn n key (''non-boolean value: '' @ py_repr value_str) st)"

text \<open>\<open>fr\<close> is \<open>repr\<close> of a float, for the text of a warning.\<close>

definition accept_float_key :: "(rat \<Rightarrow> string) \<Rightarrow> string \<Rightarrow> string \<Rightarrow> nat \<Rightarrow> limits_state \<Rightarrow> limits_state" where
  "accept_float_key fr key value_str n st =
     (case py_float value_str of
        None \<Rightarrow> limits_warn n key (''non-numeric value: '' @ py_repr value_str) st
      | Some (Fin q) \<Rightarrow>
         (if key \<in> set UNIT_INTERVAL_KEYS
          then (if \<not> (0 < q \<and> q \<le> 1) then limits_warn n key (''value must be in (0.0, 1.0]: '' @ fr q) st
                else st\<lparr>lm_found_float := AList.update key q (lm_found_float st)\<rparr>)
          else if q < (if key \<in> set ZERO_ALLOWED_KEYS then 0 else 1)
          then limits_warn n key
                 ((if key \<in> set ZERO_ALLOWED_KEYS then ''value must be non-negative: '' else ''value must be positive: '') @ fr q) st
          else st\<lparr>lm_found_float := AList.update key q (lm_found_float st)\<rparr>)
      | Some _ \<Rightarrow> limits_warn n key (''value must be a finite number: '' @ py_repr value_str) st)"

definition accept_int_key :: "string \<Rightarrow> string \<Rightarrow> nat \<Rightarrow> limits_state \<Rightarrow> limits_state" where
  "accept_int_key key value_str n st =
     (case py_int value_str of
        None \<Rightarrow> limits_warn n key (''non-integer value: '' @ py_repr value_str) st
      | Some i \<Rightarrow>
         (if i < (if key \<in> set ZERO_ALLOWED_KEYS then 0 else 1)
          then limits_warn n key
                 ((if key \<in> set ZERO_ALLOWED_KEYS then ''value must be non-negative: '' else ''value must be positive: '') @ int_str i) st
          else st\<lparr>lm_found := AList.update key i (lm_found st),
                  lm_found_role := (case map_of ROLE_KEY_TO_NAME key of
                                      None \<Rightarrow> lm_found_role st
                                    | Some role \<Rightarrow> AList.update role i (lm_found_role st))\<rparr>))"

text \<open>\<open>stripped.rstrip(":") == "runtime_limits" and stripped.endswith(":")\<close>\<close>

definition limits_header :: "string \<Rightarrow> bool" where
  "limits_header stripped =
     (rev (dropWhile (\<lambda>c. c = CHR '':'') (rev stripped)) = ''runtime_limits'' \<and> stripped \<noteq> [] \<and> last stripped = CHR '':'')"

text \<open>An entry of the block, by the type of its key.\<close>

definition limits_entry :: "(rat \<Rightarrow> string) \<Rightarrow> string \<Rightarrow> string \<Rightarrow> nat \<Rightarrow> limits_state \<Rightarrow> limits_state" where
  "limits_entry fr key value_str n st =
     (if key \<notin> set KNOWN_KEYS then limits_warn n key ''unknown key'' st
      else if key \<in> set BOOL_KEYS then accept_bool_key key value_str n st
      else if key \<in> set FLOAT_KEYS then accept_float_key fr key value_str n st
      else accept_int_key key value_str n st)"

definition limits_line :: "(rat \<Rightarrow> string) \<Rightarrow> parsed_line \<Rightarrow> limits_state \<Rightarrow> limits_state" where
  "limits_line fr l st =
     (if pl_is_top_level l then st\<lparr>lm_in_block := limits_header (pl_stripped l)\<rparr>
      else if \<not> lm_in_block st then st
      else if \<not> has_colon (pl_stripped l) then st
      else limits_entry fr (cap_key (pl_stripped l))
             (py_strip (strip_inline_comment (snd (py_partition1 (CHR '':'') (pl_stripped l))))) (pl_line_no l) st)"

record limits_load_result =
  lr_limits :: runtime_limits
  lr_warnings :: "config_warning list"
  lr_role_iterations :: "(string, int) pydict"

definition limits_of ::
  "(string, int) pydict \<Rightarrow> (string, rat) pydict \<Rightarrow> (string, bool) pydict \<Rightarrow> runtime_limits" where
  "limits_of found fl bl = \<lparr>
     rl_max_iterations = dict_get_default found ''max_iterations'' DEFAULT_MAX_ITERATIONS,
     rl_bash_timeout_seconds = dict_get_default found ''bash_timeout_seconds'' DEFAULT_BASH_TIMEOUT_SECONDS,
     rl_loop_guard_repeat_warn = dict_get_default found ''loop_guard_repeat_warn'' DEFAULT_LOOP_GUARD_REPEAT_WARN,
     rl_loop_guard_circuit_breaker = dict_get_default found ''loop_guard_circuit_breaker'' DEFAULT_LOOP_GUARD_CIRCUIT_BREAKER,
     rl_loop_guard_window = dict_get_default found ''loop_guard_window'' DEFAULT_LOOP_GUARD_WINDOW,
     rl_loop_guard_pingpong_warn_cycles = dict_get_default found ''loop_guard_pingpong_warn_cycles'' DEFAULT_LOOP_GUARD_PINGPONG_WARN_CYCLES,
     rl_loop_guard_pingpong_break_cycles = dict_get_default found ''loop_guard_pingpong_break_cycles'' DEFAULT_LOOP_GUARD_PINGPONG_BREAK_CYCLES,
     rl_attempt_history_max_entries = dict_get_default found ''attempt_history_max_entries'' DEFAULT_ATTEMPT_HISTORY_MAX_ENTRIES,
     rl_attempt_history_max_age_seconds = dict_get_default found ''attempt_history_max_age_seconds'' DEFAULT_ATTEMPT_HISTORY_MAX_AGE_SECONDS,
     rl_qa_max_iterations = dict_get_default found ''qa_max_iterations'' DEFAULT_QA_MAX_ITERATIONS,
     rl_qa_max_consecutive_errors = dict_get_default found ''qa_max_consecutive_errors'' DEFAULT_QA_MAX_CONSECUTIVE_ERRORS,
     rl_qa_recurring_issue_threshold = dict_get_default found ''qa_recurring_issue_threshold'' DEFAULT_QA_RECURRING_ISSUE_THRESHOLD,
     rl_rate_limit_suppression_seconds = dict_get_default found ''rate_limit_suppression_seconds'' DEFAULT_RATE_LIMIT_SUPPRESSION_SECONDS,
     rl_lockfile_suppression_seconds = dict_get_default found ''lockfile_suppression_seconds'' DEFAULT_LOCKFILE_SUPPRESSION_SECONDS,
     rl_auth_expired_suppression_seconds = dict_get_default found ''auth_expired_suppression_seconds'' DEFAULT_AUTH_EXPIRED_SUPPRESSION_SECONDS,
     rl_cost_budget_usd = (case map_of fl ''cost_budget_usd'' of None \<Rightarrow> DEFAULT_COST_BUDGET_USD | Some q \<Rightarrow> Some q),
     rl_max_subagent_spawns_per_session = dict_get_default found ''max_subagent_spawns_per_session'' DEFAULT_MAX_SUBAGENT_SPAWNS_PER_SESSION,
     rl_workflow_timeout_seconds = dict_get_default found ''workflow_timeout_seconds'' DEFAULT_WORKFLOW_TIMEOUT_SECONDS,
     rl_chat_escalation_gate = dict_get_default bl ''chat_escalation_gate'' DEFAULT_CHAT_ESCALATION_GATE,
     rl_max_workflow_invocations = dict_get_default found ''max_workflow_invocations'' DEFAULT_MAX_WORKFLOW_INVOCATIONS,
     rl_calibration_epsilon = dict_get_default fl ''calibration_epsilon'' DEFAULT_CALIBRATION_EPSILON,
     rl_min_flag_runs = dict_get_default found ''min_flag_runs'' DEFAULT_MIN_FLAG_RUNS\<rparr>"

definition limits_result :: "limits_state \<Rightarrow> limits_load_result" where
  "limits_result st =
     \<lparr>lr_limits = limits_of (lm_found st) (lm_found_float st) (lm_found_bool st),
      lr_warnings = lm_warnings st, lr_role_iterations = lm_found_role st\<rparr>"

definition load_runtime_limits :: "(rat \<Rightarrow> string) \<Rightarrow> string \<Rightarrow> limits_load_result" where
  "load_runtime_limits fr text =
     limits_result (fold (limits_line fr) (iter_yaml_lines text)
       \<lparr>lm_found = [], lm_found_float = [], lm_found_bool = [], lm_found_role = [], lm_warnings = [], lm_in_block = False\<rparr>)"

definition load_runtime_limits_from_path :: "(rat \<Rightarrow> string) \<Rightarrow> string option py_result \<Rightarrow> limits_load_result py_result" where
  "load_runtime_limits_from_path fr file =
     rbind file (\<lambda>content. case content of
        None \<Rightarrow> Inr \<lparr>lr_limits = anchored_defaults, lr_warnings = [], lr_role_iterations = []\<rparr>
      | Some text \<Rightarrow> Inr (load_runtime_limits fr text))"

definition resolve_limits_for_role :: "limits_load_result \<Rightarrow> string option \<Rightarrow> runtime_limits" where
  "resolve_limits_for_role loaded role =
     (case role of
        None \<Rightarrow> lr_limits loaded
      | Some r \<Rightarrow>
         (if r \<in> set LIVE_ROLE_NAMES
          then (lr_limits loaded)\<lparr>rl_max_iterations :=
                  dict_get_default (lr_role_iterations loaded) r (dict_get_default ROLE_ITERATION_DEFAULTS r 0)\<rparr>
          else lr_limits loaded))"

text \<open>The guard the command line builds from the caps.\<close>

definition loop_guard_of_limits :: "runtime_limits \<Rightarrow> loop_guard py_result" where
  "loop_guard_of_limits l =
     loop_guard_init (rl_loop_guard_repeat_warn l) (rl_loop_guard_circuit_breaker l) (rl_loop_guard_window l)
       (rl_loop_guard_pingpong_warn_cycles l) (rl_loop_guard_pingpong_break_cycles l) True"

section \<open>Bounds\<close>

definition least_allowed :: "string \<Rightarrow> int" where
  "least_allowed key = (if key \<in> set ZERO_ALLOWED_KEYS then 0 else 1)"

definition limits_inv :: "limits_state \<Rightarrow> bool" where
  "limits_inv st \<longleftrightarrow>
     (\<forall>k i. map_of (lm_found st) k = Some i \<longrightarrow> least_allowed k \<le> i) \<and>
     (\<forall>k q. map_of (lm_found_float st) k = Some q \<longrightarrow> (if k \<in> set UNIT_INTERVAL_KEYS then 0 < q \<and> q \<le> 1 else 0 \<le> q)) \<and>
     (\<forall>r i. map_of (lm_found_role st) r = Some i \<longrightarrow> 1 \<le> i)"

lemma limits_warn_inv: "limits_inv st \<Longrightarrow> limits_inv (limits_warn n k d st)"
  by (simp add: limits_inv_def limits_warn_def)

lemma bool_key_inv: "limits_inv st \<Longrightarrow> limits_inv (accept_bool_key key v n st)"
  by (auto simp: accept_bool_key_def Let_def limits_warn_inv) (simp_all add: limits_inv_def)

lemma float_key_inv: "limits_inv st \<Longrightarrow> limits_inv (accept_float_key fr key v n st)"
proof -
  assume inv: "limits_inv st"
  have upd: "limits_inv (st\<lparr>lm_found_float := AList.update key q (lm_found_float st)\<rparr>)"
    if "if key \<in> set UNIT_INTERVAL_KEYS then 0 < q \<and> q \<le> 1 else 0 \<le> q" for q
    using inv that by (auto simp: limits_inv_def update_conv')
  show ?thesis
    by (auto simp: accept_float_key_def limits_warn_inv[OF inv] intro!: upd split: option.splits pyfloat.splits)
qed

lemma role_keys_positive: "map_of ROLE_KEY_TO_NAME key = Some role \<Longrightarrow> least_allowed key = 1"
  by (auto simp: ROLE_KEY_TO_NAME_def least_allowed_def ZERO_ALLOWED_KEYS_def split: if_splits)

lemma int_key_inv: "limits_inv st \<Longrightarrow> limits_inv (accept_int_key key v n st)"
proof -
  assume inv: "limits_inv st"
  have upd: "limits_inv (st\<lparr>lm_found := AList.update key i (lm_found st), lm_found_role := (case map_of ROLE_KEY_TO_NAME key of
      None \<Rightarrow> lm_found_role st | Some role \<Rightarrow> AList.update role i (lm_found_role st))\<rparr>)" if "least_allowed key \<le> i" for i
    using inv that role_keys_positive[of key] by (auto simp: limits_inv_def update_conv' split: option.splits)
  then show ?thesis
    by (auto simp: accept_int_key_def limits_warn_inv[OF inv] least_allowed_def split: option.splits)
qed

lemma limits_line_inv: "limits_inv st \<Longrightarrow> limits_inv (limits_line fr l st)"
  by (auto simp: limits_line_def limits_entry_def limits_warn_inv bool_key_inv float_key_inv int_key_inv)
     (simp_all add: limits_inv_def)

lemma limits_lines_inv: "limits_inv st \<Longrightarrow> limits_inv (fold (limits_line fr) ls st)"
  by (induction ls arbitrary: st) (simp_all add: limits_line_inv)

text \<open>What the consumers of the caps rely on.\<close>

definition limits_ok :: "runtime_limits \<Rightarrow> bool" where
  "limits_ok l \<longleftrightarrow>
     (\<forall>i \<in> {rl_max_iterations l, rl_bash_timeout_seconds l, rl_loop_guard_repeat_warn l, rl_loop_guard_circuit_breaker l,
        rl_loop_guard_window l, rl_loop_guard_pingpong_warn_cycles l, rl_loop_guard_pingpong_break_cycles l,
        rl_attempt_history_max_entries l, rl_attempt_history_max_age_seconds l, rl_qa_max_iterations l,
        rl_qa_max_consecutive_errors l, rl_qa_recurring_issue_threshold l, rl_max_subagent_spawns_per_session l,
        rl_workflow_timeout_seconds l, rl_max_workflow_invocations l, rl_min_flag_runs l}. 1 \<le> i) \<and>
     (\<forall>i \<in> {rl_rate_limit_suppression_seconds l, rl_lockfile_suppression_seconds l, rl_auth_expired_suppression_seconds l}. 0 \<le> i) \<and>
     (\<forall>q. rl_cost_budget_usd l = Some q \<longrightarrow> 0 \<le> q) \<and>
     0 < rl_calibration_epsilon l \<and> rl_calibration_epsilon l \<le> 1"

lemmas anchors =
  DEFAULT_MAX_ITERATIONS_def DEFAULT_BASH_TIMEOUT_SECONDS_def DEFAULT_LOOP_GUARD_REPEAT_WARN_def
  DEFAULT_LOOP_GUARD_CIRCUIT_BREAKER_def DEFAULT_LOOP_GUARD_WINDOW_def DEFAULT_LOOP_GUARD_PINGPONG_WARN_CYCLES_def
  DEFAULT_LOOP_GUARD_PINGPONG_BREAK_CYCLES_def DEFAULT_ATTEMPT_HISTORY_MAX_ENTRIES_def
  DEFAULT_ATTEMPT_HISTORY_MAX_AGE_SECONDS_def DEFAULT_QA_MAX_ITERATIONS_def DEFAULT_QA_MAX_CONSECUTIVE_ERRORS_def
  DEFAULT_QA_RECURRING_ISSUE_THRESHOLD_def DEFAULT_RATE_LIMIT_SUPPRESSION_SECONDS_def
  DEFAULT_LOCKFILE_SUPPRESSION_SECONDS_def DEFAULT_AUTH_EXPIRED_SUPPRESSION_SECONDS_def
  DEFAULT_MAX_SUBAGENT_SPAWNS_PER_SESSION_def DEFAULT_WORKFLOW_TIMEOUT_SECONDS_def
  DEFAULT_MAX_WORKFLOW_INVOCATIONS_def DEFAULT_MIN_FLAG_RUNS_def DEFAULT_CALIBRATION_EPSILON_def DEFAULT_COST_BUDGET_USD_def

lemma default_bound: "limits_inv st \<Longrightarrow> least_allowed k \<le> d \<Longrightarrow> least_allowed k \<le> dict_get_default (lm_found st) k d"
  by (auto simp: limits_inv_def dict_get_default_def split: option.splits)

lemma limits_of_ok:
  assumes inv: "limits_inv st"
  shows "limits_ok (limits_of (lm_found st) (lm_found_float st) (lm_found_bool st))"
proof -
  have pos: "1 \<le> dict_get_default (lm_found st) k d" if "k \<notin> set ZERO_ALLOWED_KEYS" "1 \<le> d" for k d
    using default_bound[OF inv, of k d] that by (simp add: least_allowed_def)
  have nonneg: "0 \<le> dict_get_default (lm_found st) k d" if "0 \<le> d" for k d
    using inv that by (force simp: limits_inv_def dict_get_default_def least_allowed_def split: option.splits if_splits)
  have eps: "0 < dict_get_default (lm_found_float st) ''calibration_epsilon'' DEFAULT_CALIBRATION_EPSILON \<and>
      dict_get_default (lm_found_float st) ''calibration_epsilon'' DEFAULT_CALIBRATION_EPSILON \<le> 1"
    using inv by (auto simp: limits_inv_def dict_get_default_def UNIT_INTERVAL_KEYS_def anchors split: option.splits)
  have budget: "0 \<le> q" if "map_of (lm_found_float st) ''cost_budget_usd'' = Some q" for q
    using inv that by (force simp: limits_inv_def UNIT_INTERVAL_KEYS_def)
  show ?thesis
    unfolding limits_ok_def limits_of_def
    using pos nonneg eps budget by (simp add: ZERO_ALLOWED_KEYS_def anchors split: option.splits)
qed

lemma anchored_defaults_of: "anchored_defaults = limits_of [] [] []"
  by (simp add: anchored_defaults_def limits_of_def dict_get_default_def)

text \<open>
  Whatever the configuration file says, the caps a session starts with are in range: loop caps and
  timeouts at least 1, suppression windows and the cost budget not negative, the tolerance in (0, 1].
  The anchored defaults also satisfy the constructor of the loop guard.
\<close>
theorem limits_bounded:
  "limits_ok (resolve_limits_for_role (load_runtime_limits fr content) role) \<and>
   limits_ok anchored_defaults \<and> (\<exists>g. loop_guard_of_limits anchored_defaults = Inr g)"
proof -
  define st where "st = fold (limits_line fr) (iter_yaml_lines content)
    \<lparr>lm_found = [], lm_found_float = [], lm_found_bool = [], lm_found_role = [], lm_warnings = [], lm_in_block = False\<rparr>"
  have inv: "limits_inv st" unfolding st_def by (rule limits_lines_inv) (simp add: limits_inv_def)
  have load: "load_runtime_limits fr content = \<lparr>lr_limits = limits_of (lm_found st) (lm_found_float st) (lm_found_bool st),
      lr_warnings = lm_warnings st, lr_role_iterations = lm_found_role st\<rparr>"
    by (simp add: load_runtime_limits_def limits_result_def st_def)
  have role: "1 \<le> dict_get_default (lm_found_role st) r (dict_get_default ROLE_ITERATION_DEFAULTS r 0)"
    if "r \<in> set LIVE_ROLE_NAMES" for r
    using inv that by (auto simp: limits_inv_def dict_get_default_def LIVE_ROLE_NAMES_def ROLE_ITERATION_DEFAULTS_def split: option.splits)
  have cap: "limits_ok l \<Longrightarrow> 1 \<le> i \<Longrightarrow> limits_ok (l\<lparr>rl_max_iterations := i\<rparr>)" for l i
    by (simp add: limits_ok_def)
  have "limits_ok (resolve_limits_for_role (load_runtime_limits fr content) role)"
    using limits_of_ok[OF inv] cap role by (auto simp: load resolve_limits_for_role_def split: option.splits)
  moreover have "limits_ok anchored_defaults"
    unfolding anchored_defaults_def limits_ok_def by (simp add: anchors)
  moreover have "\<exists>g. loop_guard_of_limits anchored_defaults = Inr g"
    by (simp add: loop_guard_of_limits_def loop_guard_init_def anchored_defaults_def anchors)
  ultimately show ?thesis by blast
qed

section \<open>Where a value comes from\<close>

text \<open>Line \<open>l\<close> of the file stands in a \<open>runtime_limits:\<close> block and gives \<open>key\<close> the value \<open>i\<close>.\<close>

definition open_block :: "parsed_line list \<Rightarrow> bool" where
  "open_block ls \<longleftrightarrow> (\<exists>pre h mid. ls = pre @ h # mid \<and> pl_is_top_level h \<and> limits_header (pl_stripped h) \<and>
     (\<forall>x \<in> set mid. \<not> pl_is_top_level x))"

definition caps_line :: "parsed_line list \<Rightarrow> string \<Rightarrow> int \<Rightarrow> bool" where
  "caps_line ls key i \<longleftrightarrow> (\<exists>pre l post. ls = pre @ l # post \<and> open_block pre \<and> \<not> pl_is_top_level l \<and>
     cap_key (pl_stripped l) = key \<and>
     py_int (py_strip (strip_inline_comment (snd (py_partition1 (CHR '':'') (pl_stripped l))))) = Some i)"

lemma caps_line_snoc: "caps_line ls key i \<Longrightarrow> caps_line (ls @ [l]) key i"
  unfolding caps_line_def by (metis append.assoc append_Cons)

lemma open_block_snoc: "open_block ls \<Longrightarrow> \<not> pl_is_top_level l \<Longrightarrow> open_block (ls @ [l])"
proof -
  assume "open_block ls" and l: "\<not> pl_is_top_level l"
  then obtain pre h mid where h: "ls = pre @ h # mid" "pl_is_top_level h" "limits_header (pl_stripped h)" "\<forall>x \<in> set mid. \<not> pl_is_top_level x"
    by (auto simp: open_block_def)
  then show ?thesis unfolding open_block_def
    by (intro exI[of _ pre] exI[of _ h] exI[of _ "mid @ [l]"]) (use l in auto)
qed

definition traced :: "parsed_line list \<Rightarrow> limits_state \<Rightarrow> bool" where
  "traced ls st \<longleftrightarrow>
     (lm_in_block st \<longrightarrow> open_block ls) \<and>
     (\<forall>k i. map_of (lm_found st) k = Some i \<longrightarrow> caps_line ls k i) \<and>
     (\<forall>r i. map_of (lm_found_role st) r = Some i \<longrightarrow> (\<exists>k. map_of ROLE_KEY_TO_NAME k = Some r \<and> caps_line ls k i))"

lemma traced_cong:
  "traced ls st \<Longrightarrow> lm_in_block st' = lm_in_block st \<Longrightarrow> lm_found st' = lm_found st \<Longrightarrow> lm_found_role st' = lm_found_role st \<Longrightarrow>
     traced ls st'"
  by (simp add: traced_def)

lemma same_counts:
  "lm_in_block (limits_warn n k d st) = lm_in_block st" "lm_found (limits_warn n k d st) = lm_found st"
  "lm_found_role (limits_warn n k d st) = lm_found_role st"
  "lm_in_block (accept_bool_key k v n st) = lm_in_block st" "lm_found (accept_bool_key k v n st) = lm_found st"
  "lm_found_role (accept_bool_key k v n st) = lm_found_role st"
  "lm_in_block (accept_float_key fr k v n st) = lm_in_block st" "lm_found (accept_float_key fr k v n st) = lm_found st"
  "lm_found_role (accept_float_key fr k v n st) = lm_found_role st"
  by (auto simp: limits_warn_def accept_bool_key_def accept_float_key_def Let_def split: option.splits pyfloat.splits)

lemma traced_step:
  assumes tr: "traced ls st"
  shows "traced (ls @ [l]) (limits_line fr l st)"
proof -
  have vals: "\<forall>k i. map_of (lm_found st) k = Some i \<longrightarrow> caps_line (ls @ [l]) k i"
    "\<forall>r i. map_of (lm_found_role st) r = Some i \<longrightarrow> (\<exists>k. map_of ROLE_KEY_TO_NAME k = Some r \<and> caps_line (ls @ [l]) k i)"
    using tr unfolding traced_def by (blast intro: caps_line_snoc)+
  show ?thesis
proof (cases "pl_is_top_level l")
  case True
  then have "limits_line fr l st = st\<lparr>lm_in_block := limits_header (pl_stripped l)\<rparr>" by (simp add: limits_line_def)
  moreover have "open_block (ls @ [l])" if "limits_header (pl_stripped l)"
    unfolding open_block_def using True that by (intro exI[of _ ls] exI[of _ l] exI[of _ "[]"]) simp
  ultimately show ?thesis using vals by (simp add: traced_def)
next
  case False
  have snoc: "traced (ls @ [l]) st" using tr False vals by (simp add: traced_def open_block_snoc)
  let ?key = "cap_key (pl_stripped l)" and ?v = "py_strip (strip_inline_comment (snd (py_partition1 (CHR '':'') (pl_stripped l))))"
  have int: "traced (ls @ [l]) (accept_int_key ?key ?v n st)" if "lm_in_block st" for n
  proof (cases "py_int ?v")
    case None
    then show ?thesis by (auto simp: accept_int_key_def same_counts intro: traced_cong[OF snoc])
  next
    case (Some i)
    have line: "caps_line (ls @ [l]) ?key i"
      unfolding caps_line_def using tr that False Some by (intro exI[of _ ls] exI[of _ l] exI[of _ "[]"]) (simp add: traced_def)
    have warned: "traced (ls @ [l]) (limits_warn n ?key d st)" for d by (rule traced_cong[OF snoc]) (simp_all add: same_counts)
    show ?thesis using snoc line warned Some
      by (auto simp: accept_int_key_def traced_def update_conv' split: option.splits if_splits)
  qed
  show ?thesis using False int
    by (auto simp: limits_line_def limits_entry_def same_counts intro: snoc traced_cong[OF snoc])
qed
qed

lemma traced_fold: "traced ls st \<Longrightarrow> traced (ls @ ks) (fold (limits_line fr) ks st)"
proof (induction ks arbitrary: ls st)
  case (Cons k ks)
  from Cons.IH[OF traced_step[OF Cons.prems, of k fr]] show ?case by simp
qed simp

text \<open>
  The iteration cap of a session is the anchor of its role unless the configuration file exists and a
  line in a \<open>runtime_limits:\<close> block sets it: a role that reaches the loop has its own key and ignores
  the global one, every other role uses the global cap.
\<close>
theorem iteration_cap_source:
  assumes "load_runtime_limits_from_path fr file = Inr r"
    and "rl_max_iterations (resolve_limits_for_role r role) = i"
  shows "(case role of Some n \<Rightarrow> n \<in> set LIVE_ROLE_NAMES | None \<Rightarrow> False) \<and>
           (i = 99 \<or> (\<exists>content. file = Inr (Some content) \<and> caps_line (iter_yaml_lines content) (''max_iterations_'' @ the role) i)) \<or>
         \<not> (case role of Some n \<Rightarrow> n \<in> set LIVE_ROLE_NAMES | None \<Rightarrow> False) \<and>
           (i = 6 \<or> (\<exists>content. file = Inr (Some content) \<and> caps_line (iter_yaml_lines content) ''max_iterations'' i))"
proof -
  have role_key: "k = ''max_iterations_'' @ n" if "map_of ROLE_KEY_TO_NAME k = Some n" for k n
    using that by (auto simp: ROLE_KEY_TO_NAME_def split: if_splits)
  have anchor: "dict_get_default ROLE_ITERATION_DEFAULTS n 0 = 99" if "n \<in> set LIVE_ROLE_NAMES" for n
    using that by (auto simp: LIVE_ROLE_NAMES_def ROLE_ITERATION_DEFAULTS_def dict_get_default_def)
  obtain content where f: "file = Inr content" using assms(1) by (auto simp: load_runtime_limits_from_path_def)
  show ?thesis
  proof (cases content)
    case None
    then have "r = \<lparr>lr_limits = anchored_defaults, lr_warnings = [], lr_role_iterations = []\<rparr>"
      using assms(1) f by (simp add: load_runtime_limits_from_path_def)
    with assms(2) anchor show ?thesis
      by (auto simp: resolve_limits_for_role_def anchored_defaults_def DEFAULT_MAX_ITERATIONS_def dict_get_default_def split: option.splits if_splits)
  next
    case (Some c)
    define st where "st = fold (limits_line fr) (iter_yaml_lines c)
      \<lparr>lm_found = [], lm_found_float = [], lm_found_bool = [], lm_found_role = [], lm_warnings = [], lm_in_block = False\<rparr>"
    have "traced [] \<lparr>lm_found = [], lm_found_float = [], lm_found_bool = [], lm_found_role = [], lm_warnings = [], lm_in_block = False\<rparr>"
      by (simp add: traced_def)
    from traced_fold[OF this] have tr: "traced (iter_yaml_lines c) st" by (simp add: st_def)
    have r: "lr_limits r = limits_of (lm_found st) (lm_found_float st) (lm_found_bool st)" "lr_role_iterations r = lm_found_role st"
      using assms(1) f Some by (auto simp: load_runtime_limits_from_path_def load_runtime_limits_def limits_result_def st_def)
    have global: "rl_max_iterations (lr_limits r) = 6 \<or> caps_line (iter_yaml_lines c) ''max_iterations'' (rl_max_iterations (lr_limits r))"
      using tr by (auto simp: r limits_of_def traced_def dict_get_default_def DEFAULT_MAX_ITERATIONS_def split: option.splits)
    have live: "dict_get_default (lm_found_role st) n 99 = 99 \<or>
        caps_line (iter_yaml_lines c) (''max_iterations_'' @ n) (dict_get_default (lm_found_role st) n 99)" for n
    proof (cases "map_of (lm_found_role st) n")
      case N: (Some j)
      with tr obtain k where "map_of ROLE_KEY_TO_NAME k = Some n" "caps_line (iter_yaml_lines c) k j" unfolding traced_def by blast
      with N role_key show ?thesis by (simp add: dict_get_default_def)
    qed (simp add: dict_get_default_def)
    show ?thesis
    proof (cases role)
      case None
      with assms(2) global f Some show ?thesis by (simp add: resolve_limits_for_role_def)
    next
      case R: (Some n)
      with assms(2) global live[of n] anchor[of n] f Some show ?thesis
        by (cases "n \<in> set LIVE_ROLE_NAMES") (auto simp: resolve_limits_for_role_def r)
    qed
  qed
qed

definition demo_limits :: string where
  "demo_limits = ''runtime_limits:'' @ [CHR 0x0A] @ ''  max_iterations_coder: 12 # turns'' @ [CHR 0x0A]"

theorem iteration_cap_source_witness: "caps_line (iter_yaml_lines demo_limits) ''max_iterations_coder'' 12"
proof -
  have "rl_max_iterations (resolve_limits_for_role (load_runtime_limits (\<lambda>_. []) demo_limits) (Some ''coder'')) = 12"
    by code_simp
  from iteration_cap_source[of "\<lambda>_. []" "Inr (Some demo_limits)" "load_runtime_limits (\<lambda>_. []) demo_limits" "Some ''coder''", OF _ this]
  show ?thesis by (simp add: load_runtime_limits_from_path_def LIVE_ROLE_NAMES_def)
qed

text \<open>
  Two consequences of checking keys one by one and of the exact header: a window of 7 is accepted
  without a warning although the loop guard then refuses to be built, and a comment after the header
  makes the whole block be skipped in silence.
\<close>

lemma window_without_cross_check:
  "let r = load_runtime_limits (\<lambda>_. []) (''runtime_limits:'' @ [CHR 0x0A] @ '' loop_guard_window: 7'') in
     lr_warnings r = [] \<and> (case loop_guard_of_limits (lr_limits r) of Inl e \<Rightarrow> exn_class e = ValueError | Inr _ \<Rightarrow> False)"
  by code_simp

lemma commented_header_skipped:
  "let r = load_runtime_limits (\<lambda>_. []) (''runtime_limits: # caps'' @ [CHR 0x0A] @ '' max_iterations: 2'') in
     lr_warnings r = [] \<and> lr_limits r = anchored_defaults"
  by code_simp

end
