(* ===== verification/Egress.thy ===== *)
theory Egress
  imports Chain_Config Py_Match
begin

text \<open>
  The egress proxy (\<open>egress_proxy/routing.py\<close>, \<open>egress_proxy/server.py\<close>): the route table with its
  checks, the injection of the provider's key into a request, and the HTTP handler. Header values and
  bodies are Latin-1 texts, as \<open>http.server\<close> decodes them; the connection is the bytes the client
  sends after the headers; the forwarder and its failure are a parameter. The log line is left out.
\<close>

section \<open>Routes\<close>

definition ANTHROPIC_API_VERSION :: string where "ANTHROPIC_API_VERSION = ''2023-06-01''"
definition XAPIKEY_PROVIDERS :: "string list" where "XAPIKEY_PROVIDERS = [''anthropic'']"
definition LOCAL_HOSTS :: "string list" where "LOCAL_HOSTS = [''localhost'', ''127.0.0.1'', ''0.0.0.0'']"

definition proxy_config_error :: "string \<Rightarrow> py_exc" where
  "proxy_config_error msg = Exn (OtherError ''ProxyConfigError'') msg"

definition name_safe :: "char \<Rightarrow> bool" where
  "name_safe c = (let n = (of_char c :: nat) in (48 \<le> n \<and> n \<le> 57) \<or> (97 \<le> n \<and> n \<le> 122))"

text \<open>\<open>_NAME_SAFE_RE.sub("-", s)\<close>: every longest run of other characters becomes one dash.\<close>

fun route_dashes :: "bool \<Rightarrow> string \<Rightarrow> string" where
  "route_dashes in_run [] = []"
| "route_dashes in_run (c # cs) =
     (if name_safe c then c # route_dashes False cs
      else if in_run then route_dashes True cs else CHR ''-'' # route_dashes True cs)"

definition route_name_for :: "string \<Rightarrow> string \<Rightarrow> string py_result" where
  "route_name_for provider slug =
     (let name = py_strip_chars ''-'' (route_dashes False (py_lower (provider @ ''-'' @ slug))) in
      if name = []
      then Inl (proxy_config_error (''empty route name for provider='' @ py_repr provider @ '' slug='' @ py_repr slug))
      else Inr name)"

record proxy_route =
  pr_name :: string
  pr_provider :: string
  pr_upstream_base_url :: string
  pr_api_key_env :: string

type_synonym route_table = "(string, proxy_route) pydict"

definition table_names :: "route_table \<Rightarrow> string list" where "table_names t = sort (map fst t)"

definition table_routes :: "route_table \<Rightarrow> proxy_route list" where
  "table_routes t = List.map_filter (dict_get t) (table_names t)"

definition conflict_message :: "string \<Rightarrow> proxy_route \<Rightarrow> proxy_route \<Rightarrow> string" where
  "conflict_message name existing candidate =
     (if pr_upstream_base_url existing \<noteq> pr_upstream_base_url candidate
      then ''route '' @ py_repr name @ '' maps to conflicting upstreams: '' @ py_repr (pr_upstream_base_url existing) @
           '' vs '' @ py_repr (pr_upstream_base_url candidate)
      else ''route '' @ py_repr name @ '': two chain entries share the identical base_url '' @
           py_repr (pr_upstream_base_url existing) @ '' but declare DIFFERENT api_key_env values ('' @
           py_repr (pr_api_key_env existing) @ '' vs '' @ py_repr (pr_api_key_env candidate) @
           ''). A proxy route can inject only ONE key per (provider, slug) pair - pick a single api_key_env for '' @
           ''this route, or give the entries distinct slugs if they are genuinely different models.'')"

definition strip_slashes :: "string \<Rightarrow> string" where
  "strip_slashes s = rev (dropWhile (\<lambda>c. c = CHR ''/'') (rev s))"

text \<open>\<open>ip6\<close> is the standard library's test of a bracketed host, as in theory \<open>Chain_Config\<close>.\<close>

definition upstream_ok :: "string \<times> string option \<Rightarrow> bool" where
  "upstream_ok parsed =
     (case parsed of (scheme, host) \<Rightarrow>
       (scheme = ''https'' \<and> (case host of None \<Rightarrow> False | Some h \<Rightarrow> h \<noteq> [])) \<or>
       (scheme = ''http'' \<and> (case host of None \<Rightarrow> False | Some h \<Rightarrow> h \<in> set LOCAL_HOSTS)))"

fun build_routes ::
  "(string \<Rightarrow> bool) \<Rightarrow> (string \<times> string \<times> string \<times> string) list \<Rightarrow> route_table \<Rightarrow> route_table py_result" where
  "build_routes ip6 [] routes = Inr routes"
| "build_routes ip6 ((provider, slug, base_url, api_key_env) # entries) routes =
     rbind (route_name_for provider slug) (\<lambda>name.
     rbind (urlparse ip6 base_url) (\<lambda>parsed.
       if \<not> upstream_ok parsed
       then Inl (proxy_config_error (''route '' @ py_repr name @
              '': upstream base_url must be https:// (or http://localhost); got '' @ py_repr base_url))
       else let candidate = \<lparr>pr_name = name, pr_provider = provider, pr_upstream_base_url = strip_slashes base_url,
                             pr_api_key_env = api_key_env\<rparr>
            in case dict_get routes name of
                 Some existing \<Rightarrow>
                   (if existing \<noteq> candidate then Inl (proxy_config_error (conflict_message name existing candidate))
                    else build_routes ip6 entries (AList.update name candidate routes))
               | None \<Rightarrow> build_routes ip6 entries (AList.update name candidate routes)))"

definition build_route_table ::
  "(string \<Rightarrow> bool) \<Rightarrow> (string \<times> string \<times> string \<times> string) list \<Rightarrow> route_table py_result" where
  "build_route_table ip6 chain_entries = build_routes ip6 chain_entries []"

section \<open>Headers\<close>

type_synonym headers = "(string, string) pydict"

definition DROPPED_HEADERS :: "string list" where
  "DROPPED_HEADERS = [''authorization'', ''x-api-key'', ''x-fa-proxy-token'', ''x-fa-timeout'', ''host'', ''content-length'']"

definition dict_setdefault :: "('k, 'v) pydict \<Rightarrow> 'k \<Rightarrow> 'v \<Rightarrow> ('k, 'v) pydict" where
  "dict_setdefault d k v = (if k \<in> fst ` set d then d else AList.update k v d)"

definition inject_headers :: "proxy_route \<Rightarrow> headers \<Rightarrow> string \<Rightarrow> headers" where
  "inject_headers route inbound_headers api_key =
     (let out = filter (\<lambda>(k, v). py_lower k \<notin> set DROPPED_HEADERS) inbound_headers;
          authed = (if pr_provider route \<in> set XAPIKEY_PROVIDERS
                    then dict_setdefault (AList.update ''x-api-key'' api_key out) ''anthropic-version'' ANTHROPIC_API_VERSION
                    else AList.update ''Authorization'' (''Bearer '' @ api_key) out)
      in dict_setdefault authed ''Content-Type'' ''application/json'')"

section \<open>Server\<close>

definition MAX_BODY_BYTES :: int where "MAX_BODY_BYTES = 8 * 1024 * 1024"
definition DEFAULT_UPSTREAM_TIMEOUT :: pyfloat where "DEFAULT_UPSTREAM_TIMEOUT = Fin 60"
definition MAX_UPSTREAM_TIMEOUT :: rat where "MAX_UPSTREAM_TIMEOUT = 600"

text \<open>\<open>min(value, m)\<close> is \<open>value\<close> unless \<open>m < value\<close>, so it keeps a NaN.\<close>

definition resolve_upstream_timeout :: "string option \<Rightarrow> pyfloat" where
  "resolve_upstream_timeout raw =
     (case raw of
        None \<Rightarrow> DEFAULT_UPSTREAM_TIMEOUT
      | Some s \<Rightarrow>
         (if py_strip s = [] then DEFAULT_UPSTREAM_TIMEOUT
          else case py_float (py_strip s) of
            None \<Rightarrow> DEFAULT_UPSTREAM_TIMEOUT
          | Some NaN \<Rightarrow> NaN
          | Some NInf \<Rightarrow> Fin MAX_UPSTREAM_TIMEOUT
          | Some PInf \<Rightarrow> Fin MAX_UPSTREAM_TIMEOUT
          | Some (Fin q) \<Rightarrow> (if q \<le> 0 then Fin MAX_UPSTREAM_TIMEOUT else Fin (min q MAX_UPSTREAM_TIMEOUT))))"

text \<open>A request: the path, the header lines in order, and what the client sends after them.\<close>

record http_request =
  ht_path :: string
  ht_headers :: "(string \<times> string) list"
  ht_stream :: string

record http_response =
  hr_status :: int
  hr_body :: string
  hr_content_type :: string

type_synonym 'w forwarder = "string \<Rightarrow> headers \<Rightarrow> string \<Rightarrow> pyfloat \<Rightarrow> 'w \<Rightarrow> (int \<times> string) py_result \<times> 'w"

record 'w egress_handler =
  eg_route_table :: route_table
  eg_secrets :: "(string, string) pydict"
  eg_proxy_token :: string
  eg_forward :: "'w forwarder"

definition send_json :: "int \<Rightarrow> string \<Rightarrow> http_response" where
  "send_json status body = \<lparr>hr_status = status, hr_body = body, hr_content_type = ''application/json''\<rparr>"

definition send_json_error :: "int \<Rightarrow> string \<Rightarrow> http_response" where
  "send_json_error status message = send_json status (json_dumps_sorted (\<lambda>_. []) (JObj [(''error'', JStr message)]))"

text \<open>\<open>headers.get\<close>: the first header of that name, whatever its case.\<close>

definition header_get :: "(string \<times> string) list \<Rightarrow> string \<Rightarrow> string option" where
  "header_get hs name = map_option snd (find (\<lambda>(k, v). py_lower k = py_lower name) hs)"

definition header_default :: "(string \<times> string) list \<Rightarrow> string \<Rightarrow> string \<Rightarrow> string" where
  "header_default hs name d = (case header_get hs name of None \<Rightarrow> d | Some v \<Rightarrow> v)"

definition ascii_text :: "string \<Rightarrow> bool" where
  "ascii_text s = list_all (\<lambda>c. (of_char c :: nat) < 128) s"

text \<open>\<open>hmac.compare_digest\<close> of texts refuses characters outside ASCII.\<close>

definition authorized :: "'w egress_handler \<Rightarrow> http_request \<Rightarrow> bool py_result" where
  "authorized h rq =
     (let supplied = header_default (ht_headers rq) ''X-FA-Proxy-Token'' [] in
      if eg_proxy_token h = [] then Inr False
      else if \<not> ascii_text supplied \<or> \<not> ascii_text (eg_proxy_token h)
      then Inl (Exn TypeError ''comparing strings with non-ASCII characters is not supported'')
      else Inr (supplied = eg_proxy_token h))"

definition routes_payload :: "'w egress_handler \<Rightarrow> json" where
  "routes_payload h = JList (map (\<lambda>route. JObj
     [(''name'', JStr (pr_name route)),
      (''has_key'', JBool (py_strip (dict_get_default (eg_secrets h) (pr_api_key_env route) []) \<noteq> []))])
     (table_routes (eg_route_table h)))"

definition handle_routes :: "'w egress_handler \<Rightarrow> http_request \<Rightarrow> http_response py_result" where
  "handle_routes h rq = rbind (authorized h rq) (\<lambda>ok.
     if \<not> ok then Inr (send_json_error 403 ''forbidden'')
     else Inr (send_json 200 (json_dumps_sorted (\<lambda>_. []) (routes_payload h))))"

definition do_GET :: "'w egress_handler \<Rightarrow> http_request \<Rightarrow> http_response py_result" where
  "do_GET h rq =
     (if ht_path rq = ''/healthz'' then Inr (send_json 200 ([CHR ''{'', CHR 0x22] @ ''status'' @ [CHR 0x22, CHR '':'', CHR 0x22] @ ''ok'' @ [CHR 0x22, CHR ''}'']))
      else if ht_path rq = ''/routes'' then handle_routes h rq
      else Inr (send_json_error 404 ''not found''))"

text \<open>\<open>rfile.read(n)\<close>: a negative count reads to the end of the stream.\<close>

definition rfile_read :: "string \<Rightarrow> int \<Rightarrow> string" where
  "rfile_read stream n = (if n < 0 then stream else take (nat n) stream)"

definition content_length :: "http_request \<Rightarrow> int py_result" where
  "content_length rq =
     (let v = header_default (ht_headers rq) ''Content-Length'' ''0''; w = (if v = [] then ''0'' else v) in
      case py_int w of
        None \<Rightarrow> Inl (Exn ValueError (''invalid literal for int() with base 10: '' @ py_repr w))
      | Some n \<Rightarrow> Inr n)"

definition upstream_url :: "proxy_route \<Rightarrow> string \<Rightarrow> string" where
  "upstream_url route upstream_path =
     pr_upstream_base_url route @ ''/'' @ dropWhile (\<lambda>c. c = CHR ''/'') upstream_path"

definition forward_request ::
  "'w egress_handler \<Rightarrow> http_request \<Rightarrow> proxy_route \<Rightarrow> string \<Rightarrow> string \<Rightarrow> 'w \<Rightarrow> http_response py_result \<times> 'w" where
  "forward_request h rq route upstream_path body w =
     (let api_key = dict_get_default (eg_secrets h) (pr_api_key_env route) [];
          inbound = fold (\<lambda>(k, v) d. AList.update k v d) (ht_headers rq) [];
          timeout = resolve_upstream_timeout (header_get (ht_headers rq) ''X-FA-Timeout'');
          headers = inject_headers route inbound api_key
      in case eg_forward h (upstream_url route upstream_path) headers body timeout w of
           (Inr (status, resp_body), w') \<Rightarrow> (Inr (send_json status resp_body), w')
         | (Inl e, w') \<Rightarrow> (if is_Exception e then Inr (send_json_error 502 ''upstream error'') else Inl e, w'))"

definition do_POST :: "'w egress_handler \<Rightarrow> http_request \<Rightarrow> 'w \<Rightarrow> http_response py_result \<times> 'w" where
  "do_POST h rq w =
     (case authorized h rq of
        Inl e \<Rightarrow> (Inl e, w)
      | Inr ok \<Rightarrow>
         if \<not> ok then (Inr (send_json_error 403 ''forbidden''), w)
         else if \<not> prefix ''/route/'' (ht_path rq) then (Inr (send_json_error 404 ''not found''), w)
         else case py_partition1 (CHR ''/'') (drop (length ''/route/'') (ht_path rq)) of (name, upstream_path) \<Rightarrow>
           (case dict_get (eg_route_table h) name of
              None \<Rightarrow> (Inr (send_json_error 404 ''unknown route''), w)
            | Some route \<Rightarrow>
               (case content_length rq of
                  Inl e \<Rightarrow> (Inl e, w)
                | Inr n \<Rightarrow>
                   if n > MAX_BODY_BYTES then (Inr (send_json_error 413 ''request too large''), w)
                   else forward_request h rq route upstream_path (if n \<noteq> 0 then rfile_read (ht_stream rq) n else []) w)))"

section \<open>Where a request goes\<close>

text \<open>What the validator reads from a URL does not change when a path is appended after its host.\<close>

lemma dropWhile_append_stop: "\<not> P c \<Longrightarrow> c \<in> set xs \<Longrightarrow> dropWhile P (xs @ ys) = dropWhile P xs @ ys"
  by (induction xs) auto

lemma takeWhile_append_stop: "\<not> P c \<Longrightarrow> takeWhile P (xs @ c # ys) = takeWhile P (xs @ c # zs)"
  by (induction xs) auto

lemma strip_slashes_split: "\<exists>k. s = strip_slashes s @ replicate k (CHR ''/'')"
proof -
  let ?P = "\<lambda>c. c = CHR ''/''" and ?ends = "takeWhile (\<lambda>c. c = CHR ''/'') (rev s)"
  have "rev (?ends @ dropWhile ?P (rev s)) = s" by simp
  then have "s = strip_slashes s @ rev ?ends" by (simp only: strip_slashes_def rev_append)
  moreover have "rev ?ends = replicate (length ?ends) (CHR ''/'')"
    by (intro replicate_eqI) (auto dest: set_takeWhileD)
  ultimately show ?thesis by metis
qed

text \<open>The network location is cut at the first slash, whatever follows it.\<close>

lemma netloc_stable:
  assumes "url_netloc (r @ replicate k (CHR ''/'')) \<noteq> []"
  shows "url_netloc (r @ CHR ''/'' # q) = url_netloc (r @ replicate k (CHR ''/''))"
proof (cases "2 \<le> length r")
  case True
  then obtain a b r2 where r: "r = a # b # r2" by (cases r; cases "tl r") auto
  have "takeWhile (\<lambda>c. c \<notin> {CHR ''/'', CHR ''?'', CHR ''#''}) (r2 @ replicate k (CHR ''/'')) =
      takeWhile (\<lambda>c. c \<notin> {CHR ''/'', CHR ''?'', CHR ''#''}) (r2 @ CHR ''/'' # q)"
    by (induction r2) (auto simp: takeWhile_replicate)
  with assms show ?thesis by (auto simp: url_netloc_def r split: if_splits)
next
  case False
  then have "drop 2 (r @ replicate k (CHR ''/'')) = replicate (k + length r - 2) (CHR ''/'')" by (cases r) auto
  then have "url_netloc (r @ replicate k (CHR ''/'')) = []" by (simp add: url_netloc_def)
  with assms show ?thesis by simp
qed

lemma split_scheme_at:
  assumes "CHR '':'' \<notin> set u"
  shows "split_scheme (u @ CHR '':'' # x) =
    (if u \<noteq> [] \<and> ascii_alpha (hd u) \<and> list_all scheme_char u then (py_lower u, x) else ([], u @ CHR '':'' # x))"
proof -
  have "takeWhile (\<lambda>c. c \<noteq> CHR '':'') (u @ CHR '':'' # x) = u" using assms by (subst takeWhile_append2) auto
  then show ?thesis by (simp add: split_scheme_def Let_def)
qed

lemma hostname_netloc: "url_hostname [] = None"
  by (simp add: url_hostname_def)

lemma urlparse_stable:
  assumes base: "urlparse ip6 base = Inr (scheme, Some host)" and scheme: "scheme \<noteq> []"
  shows "urlparse ip6 (strip_slashes base @ CHR ''/'' # q) = Inr (scheme, Some host)"
proof -
  obtain k where k: "base = strip_slashes base @ replicate k (CHR ''/'')" using strip_slashes_split by blast
  let ?b = "strip_slashes base" and ?tail = "replicate k (CHR ''/'')" and ?sp = "\<lambda>c. (of_char c :: nat) \<le> 32"
  let ?f = "filter (\<lambda>c. c \<notin> {CHR 0x09, CHR 0x0A, CHR 0x0D})"
  obtain s rest where s: "split_scheme (url_clean base) = (s, rest)" by (cases "split_scheme (url_clean base)")
  have sch: "s = scheme" and host: "url_hostname (url_netloc rest) = Some host"
    using base by (auto simp: urlparse_def s Let_def split: if_splits)
  have colon: "CHR '':'' \<in> set (url_clean base)"
  proof (rule ccontr)
    assume "CHR '':'' \<notin> set (url_clean base)"
    then have "takeWhile (\<lambda>c. c \<noteq> CHR '':'') (url_clean base) = url_clean base" by (auto simp: takeWhile_eq_all_conv)
    then have "split_scheme (url_clean base) = ([], url_clean base)" by (simp only: split_scheme_def Let_def less_irrefl simp_thms if_False)
    then show False using s sch scheme by simp
  qed
  then have "CHR '':'' \<in> set base" by (auto simp: url_clean_def dest: set_dropWhileD)
  then have c_b: "CHR '':'' \<in> set ?b" by (subst (asm) k) auto
  have sp: "dropWhile ?sp (?b @ t) = dropWhile ?sp ?b @ t" for t
    by (rule dropWhile_append_stop[OF _ c_b]) simp
  define c where "c = ?f (dropWhile ?sp ?b)"
  have clean: "url_clean (?b @ t) = c @ ?f t" for t by (simp add: url_clean_def sp c_def)
  have clean_base: "url_clean base = c @ ?tail" by (subst k) (simp add: clean)
  have colon_c: "CHR '':'' \<in> set c" using colon by (auto simp: clean_base)
  then obtain u v where c: "c = u @ CHR '':'' # v" "CHR '':'' \<notin> set u" by (meson split_list_first)
  have ok: "(u \<noteq> [] \<and> ascii_alpha (hd u) \<and> list_all scheme_char u) \<and> scheme = py_lower u \<and> rest = v @ ?tail"
    using s sch scheme by (auto simp: clean_base c(1) split_scheme_at[OF c(2)] split: if_splits)
  have split: "split_scheme (url_clean (?b @ CHR ''/'' # q)) = (scheme, v @ CHR ''/'' # ?f q)"
    unfolding clean using ok by (simp add: c(1) split_scheme_at[OF c(2)])
  have "url_netloc (v @ ?tail) \<noteq> []" using host ok hostname_netloc by auto
  then have "url_netloc (v @ CHR ''/'' # ?f q) = url_netloc rest" using ok netloc_stable by auto
  then show ?thesis using base by (simp add: urlparse_def s split Let_def split: if_splits)
qed

text \<open>The header that carries the provider's key, and the names that can carry a credential.\<close>

definition key_header :: "string \<Rightarrow> string \<Rightarrow> string \<times> string" where
  "key_header provider api_key =
     (if provider \<in> set XAPIKEY_PROVIDERS then (''x-api-key'', api_key) else (''Authorization'', ''Bearer '' @ api_key))"

definition credential :: "string \<Rightarrow> bool" where
  "credential name = (py_lower name \<in> {''authorization'', ''x-api-key'', ''x-fa-proxy-token''})"

lemma update_append: "k \<notin> fst ` set d \<Longrightarrow> AList.update k v d = d @ [(k, v)]"
  by (induction d) auto

lemma setdefault_filter:
  "\<not> P k \<Longrightarrow> filter (\<lambda>(k, v). P k) (dict_setdefault d k v) = filter (\<lambda>(k, v). P k) d"
  by (simp add: dict_setdefault_def update_append)

lemma lower_names:
  "py_lower ''x-api-key'' = ''x-api-key''" "py_lower ''Authorization'' = ''authorization''"
  "py_lower ''Content-Type'' = ''content-type''" "py_lower ''anthropic-version'' = ''anthropic-version''"
  by code_simp+

lemma inject_credentials:
  "filter (\<lambda>(k, v). credential k) (inject_headers route inbound api_key) = [key_header (pr_provider route) api_key]"
proof -
  let ?out = "filter (\<lambda>(k, v). py_lower k \<notin> set DROPPED_HEADERS) inbound"
  have none: "filter (\<lambda>(k, v). credential k) ?out = []"
    by (auto simp: filter_empty_conv credential_def DROPPED_HEADERS_def)
  have absent: "k \<notin> fst ` set ?out" if "py_lower k \<in> set DROPPED_HEADERS" for k using that by auto
  have cred: "credential ''x-api-key''" "credential ''Authorization''" "\<not> credential ''Content-Type''" "\<not> credential ''anthropic-version''"
    by (simp_all add: credential_def lower_names)
  have "AList.update ''x-api-key'' api_key ?out = ?out @ [(''x-api-key'', api_key)]"
    "AList.update ''Authorization'' (''Bearer '' @ api_key) ?out = ?out @ [(''Authorization'', ''Bearer '' @ api_key)]"
    by (rule update_append, rule absent, simp add: lower_names DROPPED_HEADERS_def)+
  then show ?thesis
    by (simp add: inject_headers_def Let_def key_header_def setdefault_filter[of credential, OF cred(3)]
        setdefault_filter[of credential, OF cred(4)] none cred del: filter_filter)
qed

text \<open>The route of an entry, as the table builder writes it.\<close>

definition entry_route ::
  "(string \<Rightarrow> bool) \<Rightarrow> (string \<times> string \<times> string \<times> string) \<Rightarrow> string \<Rightarrow> proxy_route \<Rightarrow> bool" where
  "entry_route ip6 e name route =
     (case e of (provider, slug, base_url, api_key_env) \<Rightarrow>
       route_name_for provider slug = Inr name \<and>
       route = \<lparr>pr_name = name, pr_provider = provider, pr_upstream_base_url = strip_slashes base_url, pr_api_key_env = api_key_env\<rparr> \<and>
       (\<exists>parsed. urlparse ip6 base_url = Inr parsed \<and> upstream_ok parsed))"

lemma build_routes_step:
  assumes "build_routes ip6 (e # es) t = Inr t'"
  obtains name route where "entry_route ip6 e name route" "dict_get t name = None \<or> dict_get t name = Some route"
    "build_routes ip6 es (AList.update name route t) = Inr t'"
proof -
  obtain p sl b k where e: "e = (p, sl, b, k)" by (cases e)
  from assms e obtain name parsed where n: "route_name_for p sl = Inr name" "urlparse ip6 b = Inr parsed" "upstream_ok parsed"
    by (auto simp: rbind_Inr split: if_splits)
  let ?r = "\<lparr>pr_name = name, pr_provider = p, pr_upstream_base_url = strip_slashes b, pr_api_key_env = k\<rparr>"
  have "entry_route ip6 e name ?r" using n by (cases parsed) (simp add: entry_route_def e)
  moreover have "dict_get t name = None \<or> dict_get t name = Some ?r"
    "build_routes ip6 es (AList.update name ?r t) = Inr t'"
    using assms n e by (auto simp: Let_def split: option.splits if_splits)
  ultimately show ?thesis by (rule that)
qed

lemma build_routes_sound:
  "build_routes ip6 es t = Inr t' \<Longrightarrow> map_of t' name = Some route \<Longrightarrow>
     map_of t name = Some route \<or> (\<exists>e \<in> set es. entry_route ip6 e name route)"
proof (induction es arbitrary: t)
  case (Cons e es)
  from Cons.prems(1) obtain n r where step: "entry_route ip6 e n r" "build_routes ip6 es (AList.update n r t) = Inr t'"
    by (rule build_routes_step)
  from Cons.IH[OF step(2) Cons.prems(2)] step(1) show ?case by (auto simp: update_conv' split: if_splits)
qed simp

lemma build_routes_complete:
  "build_routes ip6 es t = Inr t' \<Longrightarrow>
     (\<forall>name route. map_of t name = Some route \<longrightarrow> map_of t' name = Some route) \<and>
     (\<forall>e \<in> set es. \<exists>name route. entry_route ip6 e name route \<and> map_of t' name = Some route)"
proof (induction es arbitrary: t)
  case (Cons e es)
  from Cons.prems obtain n r where step: "entry_route ip6 e n r" "dict_get t n = None \<or> dict_get t n = Some r"
    "build_routes ip6 es (AList.update n r t) = Inr t'" by (rule build_routes_step)
  note IH = Cons.IH[OF step(3)]
  have "map_of t' n = Some r" using IH by (simp add: update_conv')
  moreover have "map_of t' name = Some route" if "map_of t name = Some route" for name route
    using IH that step(2) by (cases "name = n") (auto simp: update_conv')
  moreover have "\<forall>e' \<in> set es. \<exists>name route. entry_route ip6 e' name route \<and> map_of t' name = Some route" using IH by blast
  ultimately show ?case using step(1) unfolding list.set by blast
qed simp

lemma authorized_forward [simp]: "authorized (h\<lparr>eg_forward := fwd\<rparr>) rq = authorized h rq"
  by (simp add: authorized_def Let_def)

section \<open>Properties\<close>


text \<open>
  The proxy finds the route of every configured model: when the table is built, looking up the name
  computed from an entry's provider and slug gives its upstream (without trailing slashes) and key.
\<close>
theorem route_lookup:
  assumes "build_route_table ip6 entries = Inr table" and "(provider, slug, base, env) \<in> set entries"
  shows "\<exists>name. route_name_for provider slug = Inr name \<and>
    dict_get table name = Some \<lparr>pr_name = name, pr_provider = provider, pr_upstream_base_url = strip_slashes base, pr_api_key_env = env\<rparr>"
  using build_routes_complete[of ip6 entries "[]" table] assms by (fastforce simp: build_route_table_def entry_route_def)

definition demo_entries :: "(string \<times> string \<times> string \<times> string) list" where
  "demo_entries = [(''anthropic'', ''Opus'', ''https://api.x.com/'', ''A_KEY'')]"

definition demo_table :: route_table where
  "demo_table = [(''anthropic-opus'', \<lparr>pr_name = ''anthropic-opus'', pr_provider = ''anthropic'',
     pr_upstream_base_url = ''https://api.x.com'', pr_api_key_env = ''A_KEY''\<rparr>)]"

lemma demo_table_built: "build_route_table (\<lambda>_. False) demo_entries = Inr demo_table"
  by code_simp

definition demo_proxy :: "unit egress_handler" where
  "demo_proxy = \<lparr>eg_route_table = demo_table, eg_secrets = [(''A_KEY'', ''sk'')], eg_proxy_token = ''tok'',
     eg_forward = (\<lambda>url hs body t w. (Inr (200, url), w))\<rparr>"

definition demo_post :: http_request where
  "demo_post = \<lparr>ht_path = ''/route/anthropic-opus/v1/messages'',
     ht_headers = [(''X-Fa-Proxy-Token'', ''tok''), (''X-Api-Key'', ''mine'')], ht_stream = []\<rparr>"

lemma demo_post_forwarded:
  "do_POST demo_proxy demo_post () = (Inr (send_json 200 ''https://api.x.com/v1/messages''), ())"
  by code_simp


theorem route_lookup_witness:
  "\<exists>name. route_name_for ''anthropic'' ''Opus'' = Inr name \<and>
     dict_get demo_table name = Some \<lparr>pr_name = name, pr_provider = ''anthropic'',
       pr_upstream_base_url = strip_slashes ''https://api.x.com/'', pr_api_key_env = ''A_KEY''\<rparr>"
  by (rule route_lookup[OF demo_table_built]) (simp add: demo_entries_def)

text \<open>
  Three corners: a token header outside ASCII makes the handler raise instead of answering 403; a
  negative length reads the whole stream past the cap; and two entries that differ only in how a dash
  splits provider and slug are refused with a message about different key variables they do not have.
\<close>

lemma non_ascii_token_raises:
  "case do_POST demo_proxy \<lparr>ht_path = ''/route/x'', ht_headers = [(''X-FA-Proxy-Token'', [CHR 0xE9])], ht_stream = []\<rparr> () of
     (Inl e, _) \<Rightarrow> exn_class e = TypeError | _ \<Rightarrow> False"
  by code_simp

lemma negative_length_uncapped: "n < 0 \<Longrightarrow> rfile_read stream n = stream \<and> \<not> n > MAX_BODY_BYTES"
  by (simp add: rfile_read_def MAX_BODY_BYTES_def)

lemma misleading_conflict:
  "build_route_table (\<lambda>_. False) [(''a-b'', ''c'', ''https://x.y'', ''K''), (''a'', ''b-c'', ''https://x.y'', ''K'')] =
     Inl (proxy_config_error (conflict_message ''a-b-c''
       \<lparr>pr_name = ''a-b-c'', pr_provider = ''a-b'', pr_upstream_base_url = ''https://x.y'', pr_api_key_env = ''K''\<rparr>
       \<lparr>pr_name = ''a-b-c'', pr_provider = ''a'', pr_upstream_base_url = ''https://x.y'', pr_api_key_env = ''K''\<rparr>))"
  by code_simp

lemma nan_timeout_unclamped: "resolve_upstream_timeout (Some ''nan'') = NaN"
  by code_simp

end
