(* ===== verification/Projection.thy ===== *)
theory Projection
  imports Py_Codec Tool_Registry
begin

text \<open>
  From a tool result to the text the model sees: the projection with its per-tool byte budget
  (\<open>inner_loop/projection.py\<close>) and the content-addressed store of what it leaves out
  (\<open>inner_loop/artifacts.py\<close>).

  Budgets count UTF-8 bytes, so texts are code points (theory \<open>Py_Codec\<close>). SHA-256 is the argument
  \<open>sha\<close> and \<open>repr\<close> of a float the argument \<open>fr\<close>; an artifact file is the document it holds, \<open>None\<close>
  when it cannot be read.
\<close>

section \<open>Rendering\<close>

definition json_newline :: "nat \<Rightarrow> string" where
  "json_newline n = CHR 0x0A # replicate (2 * n) (CHR '' '')"

text \<open>\<open>json.dumps(v, ensure_ascii=False, sort_keys=True, indent=2)\<close> at depth \<open>n\<close>.\<close>

fun json_pretty :: "(rat \<Rightarrow> string) \<Rightarrow> nat \<Rightarrow> json \<Rightarrow> string" where
  "json_pretty fr n JNull = ''null''"
| "json_pretty fr n (JBool b) = (if b then ''true'' else ''false'')"
| "json_pretty fr n (JInt i) = int_str i"
| "json_pretty fr n (JFloat q) = fr q"
| "json_pretty fr n (JStr s) = json_quote s"
| "json_pretty fr n (JList vs) =
     (if vs = [] then ''[]''
      else ''['' @ json_newline (n + 1) @
           py_join ('','' @ json_newline (n + 1)) (map (json_pretty fr (n + 1)) vs) @ json_newline n @ '']'')"
| "json_pretty fr n (JObj kvs) =
     (if kvs = [] then ''{}''
      else ''{'' @ json_newline (n + 1) @
           py_join ('','' @ json_newline (n + 1)) (map (\<lambda>(k, t). json_quote k @ '': '' @ t)
             (sort_key fst (map (\<lambda>(k, v). (k, json_pretty fr (n + 1) v)) kvs))) @ json_newline n @ ''}'')"

definition render_tool_payload :: "(rat \<Rightarrow> string) \<Rightarrow> json \<Rightarrow> ustr" where
  "render_tool_payload fr value = cps (case value of JStr s \<Rightarrow> s | _ \<Rightarrow> json_pretty fr 0 value)"

section \<open>Artifacts\<close>

record artifact_store =
  as_files :: "(string, json option) pydict"
  as_escaping :: "string list"
  as_write_error :: "py_exc option"

text \<open>\<open>(root / id).resolve()\<close> stays under the root: \<open>as_escaping\<close> are the ids whose files are links out of it.\<close>

definition as_contained :: "artifact_store \<Rightarrow> string \<Rightarrow> bool" where
  "as_contained store artifact_id = (artifact_id \<notin> set (as_escaping store))"

definition stable_json :: "(rat \<Rightarrow> string) \<Rightarrow> json \<Rightarrow> string" where
  "stable_json fr value = json_pretty fr 0 value"

definition artifact_id_of :: "(nat list \<Rightarrow> string) \<Rightarrow> (rat \<Rightarrow> string) \<Rightarrow> json \<Rightarrow> string" where
  "artifact_id_of sha fr payload = ''tool-result-'' @ take 16 (sha (utf8_encode (cps (stable_json fr payload))))"

definition artifact_put ::
  "(nat list \<Rightarrow> string) \<Rightarrow> (rat \<Rightarrow> string) \<Rightarrow> json \<Rightarrow> artifact_store \<Rightarrow> string py_result \<times> artifact_store" where
  "artifact_put sha fr payload store =
     (let artifact_id = artifact_id_of sha fr payload in
      case as_write_error store of
        Some e \<Rightarrow> (Inl e, store)
      | None \<Rightarrow>
         (Inr artifact_id,
          if dict_get (as_files store) artifact_id = None
          then store\<lparr>as_files := AList.update artifact_id (Some payload) (as_files store)\<rparr> else store))"

text \<open>\<open>_ARTIFACT_ID_PATTERN.fullmatch\<close>\<close>

definition artifact_id_ok :: "string \<Rightarrow> bool" where
  "artifact_id_ok s =
     (prefix ''tool-result-'' s \<and> length s = 28 \<and>
      list_all (\<lambda>c. is_digit c \<or> c \<in> set ''abcdef'') (drop 12 s))"

definition artifact_get :: "string \<Rightarrow> artifact_store \<Rightarrow> json option" where
  "artifact_get artifact_id store =
     (if \<not> artifact_id_ok artifact_id then None
      else if \<not> as_contained store artifact_id then None
      else case dict_get (as_files store) artifact_id of None \<Rightarrow> None | Some doc \<Rightarrow> doc)"

section \<open>Projection\<close>

definition ERROR_MESSAGE_CHARS :: nat where "ERROR_MESSAGE_CHARS = 500"

definition ELISION_MARKER :: ustr where
  "ELISION_MARKER = cps ([CHR 0x0A] @ ''... [elided] ...'' @ [CHR 0x0A])"

abbreviation utf8_length :: "ustr \<Rightarrow> int" where "utf8_length t \<equiv> int (length (utf8_encode t))"

definition clip_utf8 :: "ustr \<Rightarrow> int \<Rightarrow> ustr" where
  "clip_utf8 t max_bytes =
     (if max_bytes \<le> 0 then []
      else if utf8_length t \<le> max_bytes then t
      else utf8_decode_ignore (take (nat max_bytes) (utf8_encode t)))"

definition default_head_tail :: "(rat \<Rightarrow> string) \<Rightarrow> json \<Rightarrow> int \<Rightarrow> ustr" where
  "default_head_tail fr value max_bytes =
     (if max_bytes \<le> 0 then []
      else let rendered = render_tool_payload fr value; encoded = utf8_encode rendered;
               marker_bytes = utf8_length ELISION_MARKER
           in if int (length encoded) \<le> max_bytes then rendered
              else if max_bytes \<le> marker_bytes + 2 then clip_utf8 ELISION_MARKER max_bytes
              else let remaining = max_bytes - marker_bytes; head_bytes = remaining div 2;
                       tail_bytes = remaining - head_bytes;
                       head = utf8_decode_ignore (take (nat head_bytes) encoded);
                       tail = utf8_decode_ignore (drop (length encoded - nat tail_bytes) encoded)
                   in head @ ELISION_MARKER @ tail)"

definition blank_line :: ustr where "blank_line = cps [CHR 0x0A, CHR 0x0A]"

definition project_for_model ::
  "(nat list \<Rightarrow> string) \<Rightarrow> (rat \<Rightarrow> string) \<Rightarrow> 'w tool_spec \<Rightarrow> tool_result \<Rightarrow> artifact_store \<Rightarrow> ustr py_result \<times> artifact_store" where
  "project_for_model sha fr spec r store =
     (case tr_error r of
        Some err \<Rightarrow>
          (Inr (cps (''ERROR['' @ te_code err @ '']: '' @ take ERROR_MESSAGE_CHARS (te_message err))), store)
      | None \<Rightarrow>
         (case tr_result r of
            None \<Rightarrow> (Inr (cps (tr_summary r)), store)
          | Some payload \<Rightarrow>
             (let rendered = render_tool_payload fr payload; budget = ts_max_context_bytes spec in
              if budget > 0 \<and> utf8_length rendered \<le> budget
              then (Inr (cps (tr_summary r) @ blank_line @ rendered), store)
              else sbind (artifact_put sha fr payload store) (\<lambda>artifact_id store'.
                let reference = blank_line @ cps (''[artifact: '' @ artifact_id @ '']'') in
                if budget = 0 then (Inr (cps (tr_summary r) @ reference), store')
                else let elided = (case ts_elide spec of
                                     Some elide \<Rightarrow> cps (elide payload budget)
                                   | None \<Rightarrow> default_head_tail fr payload budget)
                     in (Inr (cps (tr_summary r) @ blank_line @ clip_utf8 elided budget @ reference), store')))))"

section \<open>Byte budgets\<close>

text \<open>A decoded character takes as many bytes as it was read from.\<close>

lemma utf8_step_length:
  assumes "utf8_step b bs = (Some c, k)"
  shows "length (utf8_char c) = Suc k \<and> k \<le> length bs"
proof (cases "b < 128")
  case True
  with assms show ?thesis by (auto simp: utf8_step_def utf8_char_def)
next
  case False
  then obtain n lo hi where lead: "utf8_lead b = Some (n, lo, hi)" using assms
    by (cases "utf8_lead b") (auto simp: utf8_step_def)
  then obtain c1 bs1 where c1: "bs = c1 # bs1" "lo \<le> c1" "c1 \<le> hi" using assms False
    by (cases bs) (auto simp: utf8_step_def split: if_splits)
  have range: "128 \<le> lo" "hi \<le> 191" "n = 2 \<or> n = 3 \<or> n = 4"
    using lead by (auto simp: utf8_lead_def split: if_splits)
  consider "n = 2" | "n = 3" | "n = 4" using range by blast
  then show ?thesis
  proof cases
    case 1
    then have "194 \<le> b" "b \<le> 223" using lead by (auto simp: utf8_lead_def split: if_splits)
    with assms False lead c1 1 range show ?thesis by (auto simp: utf8_step_def utf8_char_def)
  next
    case 2
    then have b: "224 \<le> b" "b \<le> 239" "b = 224 \<Longrightarrow> lo = 160" using lead by (auto simp: utf8_lead_def split: if_splits)
    obtain c2 bs2 where c2: "bs1 = c2 # bs2" "utf8_cont c2" using assms False lead c1 2
      by (cases bs1) (auto simp: utf8_step_def split: if_splits)
    have c: "c = (b - 224) * 4096 + (c1 - 128) * 64 + (c2 - 128)" "k = 2"
      using assms False lead c1 c2 2 by (auto simp: utf8_step_def)
    have "c1 - 128 < 64" "c2 - 128 < 64" using c1 c2 range by (auto simp: utf8_cont_def)
    moreover have "b = 224 \<Longrightarrow> 32 \<le> c1 - 128" using b(3) c1 by auto
    ultimately have "2048 \<le> c" "c < 65536" using b(1,2) unfolding c(1) by (cases "b = 224"; auto)+
    then show ?thesis using c c1 c2 by (simp add: utf8_char_def)
  next
    case 3
    then have b: "240 \<le> b" "b \<le> 244" "b = 240 \<Longrightarrow> lo = 144" using lead by (auto simp: utf8_lead_def split: if_splits)
    obtain c2 bs2 where c2: "bs1 = c2 # bs2" "utf8_cont c2" using assms False lead c1 3
      by (cases bs1) (auto simp: utf8_step_def split: if_splits)
    obtain c3 bs3 where c3: "bs2 = c3 # bs3" "utf8_cont c3" using assms False lead c1 c2 3
      by (cases bs2) (auto simp: utf8_step_def split: if_splits)
    have c: "c = (b - 240) * 262144 + (c1 - 128) * 4096 + (c2 - 128) * 64 + (c3 - 128)" "k = 3"
      using assms False lead c1 c2 c3 3 by (auto simp: utf8_step_def)
    have "b = 240 \<Longrightarrow> 16 \<le> c1 - 128" using b(3) c1 by auto
    then have "65536 \<le> c" using b(1,2) unfolding c(1) by (cases "b = 240"; auto)
    then show ?thesis using c c1 c2 c3 by (simp add: utf8_char_def)
  qed
qed

lemma utf8_encode_append: "utf8_encode (s @ t) = utf8_encode s @ utf8_encode t"
  by (simp add: utf8_encode_def)

lemma decode_ignore_length: "length (utf8_encode (utf8_decode_ignore bs)) \<le> length bs"
proof (induction bs rule: utf8_decode_ignore.induct)
  case (2 b bs)
  obtain oc k where st: "utf8_step b bs = (oc, k)" by fastforce
  show ?case
  proof (cases oc)
    case None
    then show ?thesis using 2 st by (simp add: utf8_encode_append le_SucI)
  next
    case (Some c)
    with utf8_step_length[of b bs c k] st have "length (utf8_char c) = Suc k" "k \<le> length bs" by auto
    moreover have "length (utf8_encode (utf8_decode_ignore (drop k bs))) \<le> length bs - k" using 2 st by simp
    ultimately show ?thesis using st Some by (simp add: utf8_encode_def)
  qed
qed (simp add: utf8_encode_def)

lemma clip_length: "0 \<le> m \<Longrightarrow> utf8_length (clip_utf8 t m) \<le> m"
  using decode_ignore_length[of "take (nat m) (utf8_encode t)"]
  by (auto simp: clip_utf8_def utf8_encode_def)

text \<open>The default strategy needs no clipping.\<close>

lemma head_tail_length: "0 \<le> m \<Longrightarrow> utf8_length (default_head_tail fr value m) \<le> m"
proof -
  assume m: "0 \<le> m"
  let ?enc = "utf8_encode (render_tool_payload fr value)" and ?mark = "utf8_length ELISION_MARKER"
  let ?rem = "m - ?mark"
  have mark: "?mark = 18" by code_simp
  have parts: "utf8_length (utf8_decode_ignore (take (nat (?rem div 2)) ?enc) @ ELISION_MARKER @
      utf8_decode_ignore (drop (length ?enc - nat (?rem - ?rem div 2)) ?enc)) \<le> m" if "?mark + 2 < m"
  proof -
    have "int (length (utf8_encode (utf8_decode_ignore (take (nat (?rem div 2)) ?enc)))) \<le> ?rem div 2"
      using decode_ignore_length[of "take (nat (?rem div 2)) ?enc"] that mark by auto
    moreover have "int (length (utf8_encode (utf8_decode_ignore (drop (length ?enc - nat (?rem - ?rem div 2)) ?enc)))) \<le> ?rem - ?rem div 2"
    proof -
      let ?k = "nat (?rem - ?rem div 2)"
      have "0 \<le> ?rem - ?rem div 2" using that by linarith
      then have k: "int ?k = ?rem - ?rem div 2" by simp
      have "length (utf8_encode (utf8_decode_ignore (drop (length ?enc - ?k) ?enc))) \<le> ?k"
        using decode_ignore_length[of "drop (length ?enc - ?k) ?enc"] unfolding length_drop by linarith
      then have "int (length (utf8_encode (utf8_decode_ignore (drop (length ?enc - ?k) ?enc)))) \<le> int ?k" by (simp only: of_nat_le_iff)
      also note k
      finally show ?thesis .
    qed
    ultimately show ?thesis by (simp add: utf8_encode_append)
  qed
  show ?thesis
  proof (cases "m \<le> 0 \<or> int (length ?enc) \<le> m \<or> m \<le> ?mark + 2")
    case True
    then show ?thesis using m clip_length[of m ELISION_MARKER] by (auto simp: default_head_tail_def Let_def utf8_encode_def)
  next
    case False
    then show ?thesis using parts by (simp add: default_head_tail_def Let_def)
  qed
qed

section \<open>Properties\<close>

definition hex_digest :: "(nat list \<Rightarrow> string) \<Rightarrow> bool" where
  "hex_digest sha \<longleftrightarrow> (\<forall>bs. 16 \<le> length (sha bs) \<and> list_all (\<lambda>c. is_digit c \<or> c \<in> set ''abcdef'') (sha bs))"

lemma artifact_id_shape: "hex_digest sha \<Longrightarrow> artifact_id_ok (artifact_id_of sha fr payload)"
proof -
  assume "hex_digest sha"
  then have "16 \<le> length (sha x)" "list_all (\<lambda>c. is_digit c \<or> c \<in> set ''abcdef'') (take 16 (sha x))" for x
    by (auto simp: hex_digest_def list_all_iff dest: in_set_takeD)
  then show ?thesis by (simp add: artifact_id_ok_def artifact_id_of_def)
qed

lemma artifact_put_get:
  assumes "hex_digest sha" "as_contained store (artifact_id_of sha fr payload)"
    and "dict_get (as_files store) (artifact_id_of sha fr payload) \<in> {None, Some (Some payload)}"
    and "artifact_put sha fr payload store = (Inr i, store')"
  shows "i = artifact_id_of sha fr payload" "artifact_get i store' = Some payload"
    "artifact_get j store = Some doc \<Longrightarrow> artifact_get j store' = Some doc"
proof -
  show i: "i = artifact_id_of sha fr payload"
    using assms(4) by (auto simp: artifact_put_def Let_def split: option.splits)
  show "artifact_get i store' = Some payload"
    using assms artifact_id_shape[OF assms(1), of fr payload]
    by (auto simp: artifact_put_def artifact_get_def as_contained_def Let_def split: option.splits if_splits)
  show "artifact_get j store' = Some doc" if "artifact_get j store = Some doc"
    using assms(4) that
    by (auto simp: artifact_put_def artifact_get_def as_contained_def Let_def update_conv' split: option.splits if_splits)
qed


definition demo_spec :: "unit tool_spec" where
  "demo_spec = \<lparr>ts_name = ''t'', ts_description = ''d'', ts_input_schema = [], ts_permission = ''read'',
     ts_handler = (\<lambda>_ w. (Inl (Exn ValueError []), w)), ts_tags = [], ts_output_schema = None, ts_defer_loading = False,
     ts_max_context_bytes = 4, ts_elide = None\<rparr>"

definition demo_payload_result :: tool_result where
  "demo_payload_result = \<lparr>tr_summary = ''ok'', tr_result = Some (JStr ''abcdefgh''), tr_error = None, tr_artifacts = []\<rparr>"

definition demo_store :: artifact_store where
  "demo_store = \<lparr>as_files = [], as_escaping = [], as_write_error = None\<rparr>"

definition demo_sha :: "nat list \<Rightarrow> string" where "demo_sha bs = replicate 64 (CHR ''a'')"


end
