(* ===== verification/Prompt.thy ===== *)
theory Prompt
  imports Tool_Registry Provider_Api Py_Codec Workflow_Artifacts
begin

text \<open>
  The request of a turn: the tool list (\<open>render_tool_specs\<close> of \<open>inner_loop/prompt.py\<close>), the pinned
  guidelines (\<open>memory/pinned_buffer.py\<close>) and the composer (\<open>inner_loop/prompt_composer.py\<close>).

  SHA-256 is the argument \<open>sha\<close>, \<open>repr\<close> of a float the argument \<open>fr\<close>. Every caller leaves
  \<open>skills_all\<close> and \<open>skills_always\<close> out, so the skill part of the cache key is \<open>no-skills\<close>.
\<close>

section \<open>JSON texts\<close>

definition json_esc_ascii :: "char \<Rightarrow> string" where
  "json_esc_ascii c = (if (of_char c :: nat) \<ge> 127 then [CHR 0x5C] @ ''u00'' @ hex2 (of_char c) else json_esc_char c)"

definition json_quote_ascii :: "string \<Rightarrow> string" where
  "json_quote_ascii s = [CHR 0x22] @ concat (map json_esc_ascii s) @ [CHR 0x22]"

text \<open>\<open>json.dumps(v, separators=(",", ":"))\<close> and \<open>json.dumps(v, indent=2)\<close> at depth \<open>n\<close>.\<close>

fun json_compact :: "(rat \<Rightarrow> string) \<Rightarrow> json \<Rightarrow> string" where
  "json_compact fr JNull = ''null''"
| "json_compact fr (JBool b) = (if b then ''true'' else ''false'')"
| "json_compact fr (JInt i) = int_str i"
| "json_compact fr (JFloat q) = fr q"
| "json_compact fr (JStr s) = json_quote_ascii s"
| "json_compact fr (JList vs) = ''['' @ py_join '','' (map (json_compact fr) vs) @ '']''"
| "json_compact fr (JObj kvs) =
     ''{'' @ py_join '','' (map (\<lambda>(k, v). json_quote_ascii k @ '':'' @ json_compact fr v) kvs) @ ''}''"

definition indent_newline :: "nat \<Rightarrow> string" where
  "indent_newline n = CHR 0x0A # replicate (2 * n) (CHR '' '')"

fun json_indent :: "(rat \<Rightarrow> string) \<Rightarrow> nat \<Rightarrow> json \<Rightarrow> string" where
  "json_indent fr n JNull = ''null''"
| "json_indent fr n (JBool b) = (if b then ''true'' else ''false'')"
| "json_indent fr n (JInt i) = int_str i"
| "json_indent fr n (JFloat q) = fr q"
| "json_indent fr n (JStr s) = json_quote_ascii s"
| "json_indent fr n (JList vs) =
     (if vs = [] then ''[]''
      else ''['' @ indent_newline (n + 1) @
           py_join ('','' @ indent_newline (n + 1)) (map (json_indent fr (n + 1)) vs) @ indent_newline n @ '']'')"
| "json_indent fr n (JObj kvs) =
     (if kvs = [] then ''{}''
      else ''{'' @ indent_newline (n + 1) @
           py_join ('','' @ indent_newline (n + 1))
             (map (\<lambda>(k, v). json_quote_ascii k @ '': '' @ json_indent fr (n + 1) v) kvs) @ indent_newline n @ ''}'')"

section \<open>Tool list\<close>

definition tool_payload :: "'w tool_spec \<Rightarrow> json" where
  "tool_payload spec = JObj [(''type'', JStr ''function''),
     (''function'', JObj [(''name'', JStr (ts_name spec)), (''description'', JStr (ts_description spec)),
                          (''parameters'', JObj (ts_input_schema spec))])]"

text \<open>Reading the canonical text of a payload back gives it with the keys of every object in order.\<close>

definition render_tool_specs :: "'w tool_spec list \<Rightarrow> json list" where
  "render_tool_specs specs = map (\<lambda>spec. json_sort (tool_payload spec)) (sort_key ts_name specs)"

section \<open>Pinned guidelines\<close>

definition PINNED_FILES :: "string list" where
  "PINNED_FILES = [''AGENTS.md'', ''knowledge/llms.txt'', ''llms.txt'']"

definition short_sha :: "(nat list \<Rightarrow> string) \<Rightarrow> string \<Rightarrow> string" where
  "short_sha sha t = take 16 (sha (utf8_encode (cps t)))"

text \<open>The files as they are now: \<open>None\<close> for no file or one that cannot be read.\<close>

definition pinned_refresh :: "(string \<Rightarrow> string option) \<Rightarrow> (string, string) pydict" where
  "pinned_refresh files = List.map_filter (\<lambda>rel. map_option (\<lambda>t. (rel, t)) (files rel)) PINNED_FILES"

definition lf :: string where "lf = [CHR 0x0A]"

definition extract_pinned_content :: "(nat list \<Rightarrow> string) \<Rightarrow> (string \<Rightarrow> string option) \<Rightarrow> string \<Rightarrow> string" where
  "extract_pinned_content sha files extra_instructions =
     (let sections =
        (if extra_instructions \<noteq> []
         then [''### STANDING PROFILE GUIDELINES (hash:'' @ short_sha sha extra_instructions @ '')'' @ lf @ extra_instructions @ lf]
         else []) @
        map (\<lambda>(rel, t). ''### STANDING CONSTRAINT: '' @ rel @ '' (hash:'' @ short_sha sha t @ '')'' @ lf @ t @ lf)
          (pinned_refresh files)
      in py_join (lf @ ''---'' @ lf) sections)"

section \<open>Cache key\<close>

definition stable_hash :: "(nat list \<Rightarrow> string) \<Rightarrow> (rat \<Rightarrow> string) \<Rightarrow> json \<Rightarrow> string" where
  "stable_hash sha fr v = take 8 (sha (utf8_encode (cps (json_dumps_sorted fr v))))"

definition tool_def_error :: "nat \<Rightarrow> string \<Rightarrow> py_exc" where
  "tool_def_error i what = Exn ValueError (''tool definition at index '' @ nat_str i @ '' '' @ what)"

definition normalize_tool_cache_identity :: "nat \<Rightarrow> json_obj \<Rightarrow> (string \<times> json) py_result" where
  "normalize_tool_cache_identity i tool_def =
     rbind (case map_of tool_def ''function'' of
              Some (JObj f) \<Rightarrow>
                (case map_of f ''parameters'' of
                   None \<Rightarrow> Inl (tool_def_error i ''function.parameters is required'')
                 | Some s \<Rightarrow> Inr (msg_get f ''name'', s))
            | Some _ \<Rightarrow> Inl (tool_def_error i ''function must be an object'')
            | None \<Rightarrow> Inr (msg_get tool_def ''name'', dict_get_default tool_def ''input_schema'' (JObj [])))
       (\<lambda>(name, input_schema).
          case name of
            JStr (c # cs) \<Rightarrow> Inr (c # cs, input_schema)
          | _ \<Rightarrow> Inl (tool_def_error i ''must have a non-empty string name''))"

definition tool_identities :: "json_obj list \<Rightarrow> (string \<times> json) list py_result" where
  "tool_identities tool_defs =
     rmap (\<lambda>(i, t). normalize_tool_cache_identity i t) (zip [0..<length tool_defs] tool_defs)"

definition hash_tool_defs_stable ::
  "(nat list \<Rightarrow> string) \<Rightarrow> (rat \<Rightarrow> string) \<Rightarrow> json_obj list \<Rightarrow> string py_result" where
  "hash_tool_defs_stable sha fr tool_defs =
     rbind (tool_identities tool_defs) (\<lambda>ids.
       Inr (stable_hash sha fr (JList (map (\<lambda>(name, schema). JObj [(''name'', JStr name), (''input_schema'', schema)])
                                  (sort_key fst ids)))))"

section \<open>Composer\<close>

record prompt_parts =
  pp_cacheable :: "json_obj list"
  pp_non_cacheable :: "json_obj list"

definition message :: "string \<Rightarrow> string \<Rightarrow> json_obj" where
  "message role content = [(''role'', JStr role), (''content'', JStr content)]"

definition dangling_tool_error :: provider_error where
  "dangling_tool_error = message_rules_error
     (''dangling tool (CT5/K4): trailing assistant message carries unresolved '' @
      ''tool_calls and tool results are missing from history'')"

text \<open>Where the task goes: last after a plain assistant turn, first otherwise.\<close>

definition place_task :: "string \<Rightarrow> json_obj list \<Rightarrow> provider_error + json_obj list" where
  "place_task task observations =
     (let task_msg = (if task \<noteq> [] then [message ''user'' (''Task: '' @ task)] else []) in
      if observations \<noteq> [] \<and> msg_get (last observations) ''role'' = JStr ''assistant''
      then (if json_truthy (msg_get (last observations) ''tool_calls'') then Inl dangling_tool_error
            else Inr (observations @ task_msg))
      else Inr (task_msg @ observations))"

definition cacheable_messages ::
  "(rat \<Rightarrow> string) \<Rightarrow> string \<Rightarrow> string \<Rightarrow> json_obj list \<Rightarrow> string \<Rightarrow> json_obj list" where
  "cacheable_messages fr base_system agents_md_map tool_defs role_id =
     [message ''system'' base_system,
      message ''system'' (''AGENTS.md map:'' @ lf @ agents_md_map),
      message ''system'' (''Tools for role '' @ role_id @ '':'' @ lf @ json_compact fr (JList (map JObj tool_defs)))]"

definition context_messages ::
  "(rat \<Rightarrow> string) \<Rightarrow> json list \<Rightarrow> string \<Rightarrow> string \<Rightarrow> json_obj list" where
  "context_messages fr skills_conditional turn_context memory_summary =
     (if skills_conditional \<noteq> []
      then [message ''system'' (''ConditionalSkills:'' @ lf @ json_indent fr 0 (JList skills_conditional))] else []) @
     (if turn_context \<noteq> [] then [message ''system'' turn_context] else []) @
     (if memory_summary \<noteq> [] then [message ''system'' (''Memory summary:'' @ lf @ memory_summary)] else [])"

definition build_prompt_parts_v2 ::
  "(nat list \<Rightarrow> string) \<Rightarrow> (rat \<Rightarrow> string) \<Rightarrow> string \<Rightarrow> string \<Rightarrow> json_obj list \<Rightarrow> string \<Rightarrow> json list \<Rightarrow> string \<Rightarrow> string \<Rightarrow>
     json_obj list \<Rightarrow> string \<Rightarrow> provider_error + (prompt_parts \<times> string)" where
  "build_prompt_parts_v2 sha fr base_system agents_md_map tool_defs role_id skills_conditional memory_summary task
     observations turn_context =
     (case hash_tool_defs_stable sha fr tool_defs of
        Inl e \<Rightarrow> Inl (Raised e)
      | Inr hash_tools \<Rightarrow>
         (let hash_map = stable_hash sha fr (JStr agents_md_map);
              cache_key = ''fa-'' @ role_id @ ''-'' @ hash_tools @ ''-'' @ hash_map @ ''-'' @ ''no-skills''
          in case place_task task observations of
               Inl e \<Rightarrow> Inl e
             | Inr body \<Rightarrow>
                 Inr (\<lparr>pp_cacheable = cacheable_messages fr base_system agents_md_map tool_defs role_id,
                       pp_non_cacheable = context_messages fr skills_conditional turn_context memory_summary @ body\<rparr>,
                      cache_key)))"

text \<open>The Anthropic request: breakpoints on fixed positions of the cacheable part and on the summary.\<close>

definition with_cache_control :: "json_obj \<Rightarrow> json_obj" where
  "with_cache_control m = AList.update ''cache_control'' (JObj [(''type'', JStr ''ephemeral'')]) m"

definition is_memory_summary :: "json_obj \<Rightarrow> bool" where
  "is_memory_summary m =
     (msg_get m ''role'' = JStr ''system'' \<and>
      (case msg_get m ''content'' of JStr s \<Rightarrow> prefix (''Memory summary:'' @ lf) s | _ \<Rightarrow> False))"

fun anchor_memory :: "json_obj list \<Rightarrow> json_obj list" where
  "anchor_memory [] = []"
| "anchor_memory (m # ms) = (if is_memory_summary m then with_cache_control m # ms else m # anchor_memory ms)"

definition to_anthropic_request_v2 :: "bool \<Rightarrow> prompt_parts \<Rightarrow> json_obj list" where
  "to_anthropic_request_v2 prompt_caching parts =
     (if \<not> prompt_caching then pp_cacheable parts @ pp_non_cacheable parts
      else map (\<lambda>(i, m). if i \<in> {0, 2, length (pp_cacheable parts) - 1} then with_cache_control m else m)
             (zip [0..<length (pp_cacheable parts)] (pp_cacheable parts)) @
           anchor_memory (pp_non_cacheable parts))"

definition to_openai_request_v2 :: "prompt_parts \<Rightarrow> string \<Rightarrow> json_obj list \<times> json_obj" where
  "to_openai_request_v2 parts cache_key =
     (pp_cacheable parts @ pp_non_cacheable parts,
      [(''prompt_cache_key'', JStr cache_key), (''prompt_cache_retention'', JStr ''1h'')])"

end
