(* ===== verification/Scope.thy ===== *)
theory Scope
  imports Config Py_Path
begin

text \<open>
  How large a task is: the estimate before the run (\<open>inner_loop/scope_estimator.py\<close>), the gate on
  the chat role's write tools (\<open>routing.py\<close>), the risk tiers of the paths a run touches
  (\<open>path_risk.py\<close>) and the escalation of its posture turn by turn (\<open>expansion.py\<close>).
\<close>

section \<open>Estimate\<close>

record operating_point =
  op_difficulty :: int
  op_scope :: string
  op_risk :: string
  op_confidence :: rat
  op_recommended_mode :: string

text \<open>A keyword between word boundaries, and two keywords with anything of one line between them.\<close>

definition kw :: "string \<Rightarrow> pat" where
  "kw w = p_seq [PWb, p_ilit w, PWb]"

definition kw2 :: "string \<Rightarrow> string \<Rightarrow> pat" where
  "kw2 a b = p_seq [PWb, p_ilit a, PStar p_dot, p_ilit b, PWb]"

definition L3_PATTERNS :: "pat list" where
  "L3_PATTERNS = [kw ''refactor'', kw ''redesign'', kw ''migrate'', kw ''restructure'', kw ''new subsystem'',
     kw ''protocol'', kw ''architecture'', kw2 ''across'' ''codebase'',
     p_seq [PWb, p_ilit ''every'', PStar p_dot, p_ilit ''call'', p_opt p_dot, p_ilit ''site'', PWb]]"

definition L2_PATTERNS :: "pat list" where
  "L2_PATTERNS = [kw2 ''add'' ''function'', kw ''implement'', kw2 ''new'' ''command'', kw ''cross-file'',
     kw2 ''2'' ''files'', kw2 ''3'' ''files'']"

definition L1_PATTERNS :: "pat list" where
  "L1_PATTERNS = [kw ''fix typo'', kw ''rename'', kw2 ''update'' ''docstring'', kw2 ''single'' ''file'', kw2 ''one'' ''line'']"

definition SECURITY_PATTERNS :: "pat list" where
  "SECURITY_PATTERNS = [kw ''auth'', kw ''permission'', kw ''secret'', kw ''sandbox'', kw ''security'']"

definition file_char :: "char \<Rightarrow> bool" where
  "file_char c = (ascii_alnum c \<or> c = CHR ''_'' \<or> c = CHR ''-'')"

definition FILE_REF_PATTERN :: pat where
  "FILE_REF_PATTERN =
     (let name = p_plus (PChar file_char); dot = p_lit ''.''; slash = p_lit ''/'' in
      PAlt (p_seq [p_opt (p_seq [p_opt dot, p_opt dot, slash]), PStar (PSeq name slash), name, dot, p_plus (PChar ascii_alnum)])
           (p_seq [name, dot, p_alt (p_ilit ''py'') (map p_ilit [''js'', ''ts'', ''md'', ''yaml'', ''yml'', ''json'', ''toml'', ''txt'', ''sh''])]))"

definition count_file_references :: "string \<Rightarrow> nat" where
  "count_file_references task =
     length (ordered_unique (map (\<lambda>(a, st). take (fst st - a) (drop a task)) (finditer FILE_REF_PATTERN task)))"

definition count_matches :: "pat list \<Rightarrow> string \<Rightarrow> nat" where
  "count_matches ps task = length (filter (\<lambda>p. search_from p task 0 \<noteq> None) ps)"

definition estimate_scope :: "string \<Rightarrow> operating_point py_result" where
  "estimate_scope task =
     (if py_strip task = [] then Inl (Exn ValueError ''task must be non-empty'')
      else
        (let l3_count = count_matches L3_PATTERNS task;
             l2_count = count_matches L2_PATTERNS task;
             l1_count = count_matches L1_PATTERNS task;
             security_count = count_matches SECURITY_PATTERNS task;
             file_refs = count_file_references task;
             base =
               (if l3_count > 0 then
                  \<lparr>op_difficulty = 3, op_scope = ''repo'', op_risk = ''high'',
                   op_confidence = (if l3_count \<ge> 2 then 8 / 10 else 6 / 10), op_recommended_mode = ''workflow_linear''\<rparr>
                else if l2_count > 0 then
                  \<lparr>op_difficulty = 2, op_scope = ''cross-file'', op_risk = ''medium'',
                   op_confidence = (if l2_count \<ge> 2 then 8 / 10 else 6 / 10), op_recommended_mode = ''chat_planned''\<rparr>
                else if l1_count > 0 then
                  \<lparr>op_difficulty = 1, op_scope = ''single-file'', op_risk = ''low'',
                   op_confidence = (if l1_count \<ge> 2 then 8 / 10 else 6 / 10), op_recommended_mode = ''chat_direct''\<rparr>
                else if file_refs = 1 \<and> security_count = 0 then
                  \<lparr>op_difficulty = 1, op_scope = ''single-file'', op_risk = ''low'', op_confidence = 8 / 10,
                   op_recommended_mode = ''chat_direct''\<rparr>
                else
                  \<lparr>op_difficulty = 1, op_scope = ''single-file'', op_risk = ''low'', op_confidence = 3 / 10,
                   op_recommended_mode = ''chat_direct''\<rparr>)
         in Inr (if security_count > 0 \<and> op_difficulty base < 3
                 then (let new_difficulty = min (op_difficulty base + 1) 3 in
                       if new_difficulty = 3 then base\<lparr>op_difficulty := 3, op_risk := ''high''\<rparr>
                       else if new_difficulty = 2 then base\<lparr>op_difficulty := 2\<rparr>
                       else base)
                 else base)))"

section \<open>Write gate\<close>

definition GATE_MIN_CONFIDENCE :: rat where "GATE_MIN_CONFIDENCE = 8 / 10"

definition WITHHELD_WRITE_TOOLS :: "string list" where
  "WITHHELD_WRITE_TOOLS = [''fs_write_file'', ''fs_edit_file'', ''fs_spawn_subagent'']"

definition should_withhold_write_tools :: "operating_point option \<Rightarrow> string \<Rightarrow> bool \<Rightarrow> bool" where
  "should_withhold_write_tools point role gate_enabled =
     (if \<not> gate_enabled then False
      else if role \<noteq> ''chat'' then False
      else case point of
        None \<Rightarrow> False
      | Some p \<Rightarrow>
          if op_recommended_mode p \<noteq> ''workflow_linear'' then False
          else op_confidence p \<ge> GATE_MIN_CONFIDENCE)"

section \<open>Globs\<close>

text \<open>
  \<open>fnmatch\<close> on POSIX. A bracket set ends at the first \<open>]\<close> after its first character; \<open>c-d\<close> is a range
  (empty when \<open>d < c\<close>), an opening bracket without an end is itself.
\<close>

fun set_items :: "string \<Rightarrow> char \<Rightarrow> bool" where
  "set_items (a # b # c # rest) x =
     (if b = CHR ''-'' then (a \<le> x \<and> x \<le> c) \<or> set_items rest x
      else x = a \<or> set_items (b # c # rest) x)"
| "set_items rest x = (x \<in> set rest)"

definition split_set :: "string \<Rightarrow> (string \<times> string) option" where
  "split_set p =
     (let pre = (if prefix ''!'' p then 1 else 0);
          pre = (if prefix '']'' (drop pre p) then pre + 1 else pre);
          body = takeWhile (\<lambda>c. c \<noteq> CHR '']'') (drop pre p)
      in if pre + length body < length p then Some (take pre p @ body, drop (pre + length body + 1) p) else None)"

definition set_match :: "string \<Rightarrow> char \<Rightarrow> bool" where
  "set_match stuff x = (case stuff of
     [] \<Rightarrow> False
   | c # rest \<Rightarrow> if c = CHR ''!'' then \<not> set_items rest x else set_items stuff x)"

lemma split_set_length: "split_set p = Some (a, b) \<Longrightarrow> length b < length p"
  by (auto simp: split_set_def Let_def split: if_splits)

function (sequential) fnmatch :: "string \<Rightarrow> string \<Rightarrow> bool" where
  "fnmatch s [] = (s = [])"
| "fnmatch s (p # ps) =
     (if p = CHR ''*'' then fnmatch s ps \<or> (case s of [] \<Rightarrow> False | _ # s' \<Rightarrow> fnmatch s' (p # ps))
      else if p = CHR ''?'' then (case s of [] \<Rightarrow> False | _ # s' \<Rightarrow> fnmatch s' ps)
      else if p = CHR ''['' then
        (case split_set ps of
           None \<Rightarrow> (case s of [] \<Rightarrow> False | c # s' \<Rightarrow> c = p \<and> fnmatch s' ps)
         | Some (stuff, rest) \<Rightarrow> (case s of [] \<Rightarrow> False | c # s' \<Rightarrow> set_match stuff c \<and> fnmatch s' rest))
      else (case s of [] \<Rightarrow> False | c # s' \<Rightarrow> c = p \<and> fnmatch s' ps))"
  by pat_completeness auto
termination
  by (relation "measure (\<lambda>(s, p). length s + length p)") (auto dest: split_set_length)

section \<open>Risk tiers\<close>

definition TIER_NO_EVIDENCE :: int where "TIER_NO_EVIDENCE = 0"
definition TIER_SAFE :: int where "TIER_SAFE = 1"
definition TIER_MEDIUM :: int where "TIER_MEDIUM = 3"
definition TIER_HIGH :: int where "TIER_HIGH = 5"

definition ROOT_MANIFEST_NAMES :: "string list" where
  "ROOT_MANIFEST_NAMES = [''pyproject.toml'', ''setup.py'', ''setup.cfg'', ''package.json'', ''package-lock.json'',
     ''Cargo.toml'', ''Cargo.lock'', ''go.mod'', ''go.sum'', ''Makefile'', ''justfile'', ''Dockerfile'',
     ''docker-compose.yml'', ''docker-compose.yaml'', ''.github'']"

definition DEFAULT_SAFE_PREFIXES :: "string list" where
  "DEFAULT_SAFE_PREFIXES = [''worklogs/archive'', ''worklogs/research'', ''worklogs/reviews'', ''worklogs/pr-notes'',
     ''worklogs/implementation-plans'']"

definition DEFAULT_MEDIUM_PREFIXES :: "string list" where
  "DEFAULT_MEDIUM_PREFIXES = [''knowledge'', ''tests'', ''scripts'']"

definition DEFAULT_HIGH_PREFIXES :: "string list" where "DEFAULT_HIGH_PREFIXES = [''src'']"

definition TIER_NAMES :: "(int \<times> string) list" where
  "TIER_NAMES = [(TIER_SAFE, ''safe''), (TIER_MEDIUM, ''medium''), (TIER_HIGH, ''high'')]"

record scope_risk_config =
  sc_safe :: "string list"
  sc_medium :: "string list"
  sc_high :: "string list"

definition default_scope_risk_config :: scope_risk_config where
  "default_scope_risk_config = \<lparr>sc_safe = DEFAULT_SAFE_PREFIXES, sc_medium = DEFAULT_MEDIUM_PREFIXES, sc_high = DEFAULT_HIGH_PREFIXES\<rparr>"

definition tier_prefixes :: "scope_risk_config \<Rightarrow> (int \<times> string list) list" where
  "tier_prefixes c = [(TIER_SAFE, sc_safe c), (TIER_MEDIUM, sc_medium c), (TIER_HIGH, sc_high c)]"

text \<open>\<open>while p.startswith("./"): p = p[2:]\<close>\<close>

fun strip_dot_slash :: "string \<Rightarrow> string" where
  "strip_dot_slash (a # b # s) = (if a = CHR ''.'' \<and> b = CHR ''/'' then strip_dot_slash s else a # b # s)"
| "strip_dot_slash s = s"

definition posix_form :: "string \<Rightarrow> string" where
  "posix_form p = strip_dot_slash (py_replace1 (CHR 0x5C) ''/'' (py_strip p))"

definition rstrip_slash :: "string \<Rightarrow> string" where
  "rstrip_slash s = rev (dropWhile (\<lambda>c. c = CHR ''/'') (rev s))"

definition normalise_prefix :: "string \<Rightarrow> string" where
  "normalise_prefix raw =
     rstrip_slash (strip_dot_slash (path_str (path_parts (py_replace1 (CHR 0x5C) ''/'' (py_strip raw)))))"

definition is_glob :: "string \<Rightarrow> bool" where
  "is_glob p = list_ex (\<lambda>c. c \<in> set p) ''*?[''"

definition prefix_matches :: "string \<Rightarrow> string \<Rightarrow> bool" where
  "prefix_matches path pre =
     (let path = posix_form path in
      if is_glob pre then
        (if suffix ''/**'' pre
         then (let base = take (length pre - 3) pre in path = base \<or> prefix (base @ ''/'') path)
         else (let prefix_segments = py_split1 (CHR ''/'') pre; path_segments = py_split1 (CHR ''/'') path in
               length prefix_segments = length path_segments \<and>
               list_all2 fnmatch path_segments prefix_segments))
      else path = pre \<or> prefix (pre @ ''/'') path)"

definition tier_for_path :: "string \<Rightarrow> scope_risk_config \<Rightarrow> int" where
  "tier_for_path path config =
     (let posix = posix_form path in
      if posix \<in> set ROOT_MANIFEST_NAMES then TIER_HIGH
      else if prefix ''.github/'' posix then TIER_HIGH
      else
        (let best = fold (\<lambda>(level, prefixes) best. if list_ex (prefix_matches posix) prefixes then max best level else best)
                      (tier_prefixes config) TIER_NO_EVIDENCE
         in if best \<noteq> TIER_NO_EVIDENCE then best else TIER_MEDIUM))"

definition combine_tiers :: "int \<Rightarrow> int \<Rightarrow> int" where
  "combine_tiers lexical path_based = max lexical path_based"

text \<open>The read and write maxima over the sets of a transaction.\<close>

definition observed_tier :: "string set \<Rightarrow> scope_risk_config \<Rightarrow> int" where
  "observed_tier paths config = Max (insert TIER_NO_EVIDENCE ((\<lambda>p. tier_for_path p config) ` paths))"

definition observed_tiers :: "string set \<Rightarrow> string set \<Rightarrow> scope_risk_config \<Rightarrow> int \<times> int" where
  "observed_tiers read_paths write_paths config = (observed_tier read_paths config, observed_tier write_paths config)"

section \<open>Tier configuration\<close>

record tier_state =
  ti_config :: scope_risk_config
  ti_warnings :: "config_warning list"
  ti_in_block :: bool
  ti_current :: "int option"

definition tier_level_for_name :: "string \<Rightarrow> int option" where
  "tier_level_for_name name = map_option fst (find (\<lambda>(level, label). label = name) TIER_NAMES)"

definition quote_chars :: string where "quote_chars = [CHR 0x27, CHR 0x22]"

definition parse_inline_list :: "string \<Rightarrow> string list" where
  "parse_inline_list rest =
     (let body = py_strip rest;
          body = (if prefix ''['' body \<and> suffix '']'' body then take (length body - 2) (drop 1 body) else body)
      in map (\<lambda>part. py_strip_chars quote_chars (py_strip part))
           (filter (\<lambda>part. py_strip part \<noteq> []) (py_split1 (CHR '','') body)))"

definition tier_warn :: "nat \<Rightarrow> string \<Rightarrow> string \<Rightarrow> tier_state \<Rightarrow> tier_state" where
  "tier_warn line_no key detail st =
     st\<lparr>ti_warnings := ti_warnings st @ [\<lparr>cw_line_no = line_no, cw_key = key, cw_detail = detail\<rparr>]\<rparr>"

definition tier_insert :: "int \<Rightarrow> string \<Rightarrow> scope_risk_config \<Rightarrow> scope_risk_config" where
  "tier_insert tier p c =
     (if tier = TIER_SAFE then c\<lparr>sc_safe := List.insert p (sc_safe c)\<rparr>
      else if tier = TIER_MEDIUM then c\<lparr>sc_medium := List.insert p (sc_medium c)\<rparr>
      else c\<lparr>sc_high := List.insert p (sc_high c)\<rparr>)"

definition add_prefix :: "int \<Rightarrow> nat \<Rightarrow> string \<Rightarrow> tier_state \<Rightarrow> tier_state" where
  "add_prefix tier line_no raw st =
     (let p = normalise_prefix (py_strip_chars quote_chars raw) in
      if p = [] \<or> p \<in> {''.'', ''/''}
      then tier_warn line_no (the (map_of TIER_NAMES tier)) (''empty/root prefix ignored: '' @ py_repr raw) st
      else st\<lparr>ti_config := tier_insert tier p (ti_config st)\<rparr>)"

text \<open>\<open>rest.split("#", 1)[0].strip()\<close>\<close>

definition before_hash :: "string \<Rightarrow> string" where
  "before_hash s = py_strip (takeWhile (\<lambda>c. c \<noteq> CHR ''#'') s)"

definition tier_entry :: "nat \<Rightarrow> string \<Rightarrow> tier_state \<Rightarrow> tier_state" where
  "tier_entry line_no stripped st =
     (if has_colon stripped \<and> \<not> prefix ''- '' stripped
      then (case py_partition1 (CHR '':'') stripped of (key_raw, rest) \<Rightarrow>
        let key = py_strip key_raw; rest = before_hash rest in
        (case tier_level_for_name key of
           None \<Rightarrow> (tier_warn line_no key ''unknown tier; expected safe/medium/high'' st)\<lparr>ti_current := None\<rparr>
         | Some tier \<Rightarrow>
             (let st = st\<lparr>ti_current := Some tier\<rparr> in
              if rest \<noteq> [] then fold (add_prefix tier line_no) (parse_inline_list rest) st else st)))
      else (let item_text = (if prefix ''- '' stripped then before_hash (py_strip (drop 2 stripped)) else stripped) in
        (case ti_current st of
           None \<Rightarrow> st
         | Some tier \<Rightarrow> if item_text = [] then st else add_prefix tier line_no item_text st)))"

definition scalar_block :: "nat \<Rightarrow> scope_risk_config \<times> config_warning list" where
  "scalar_block line_no = (default_scope_risk_config,
     [\<lparr>cw_line_no = line_no, cw_key = ''scope_risk_tiers'', cw_detail = ''block must be a mapping of tier lists; got scalar''\<rparr>])"

fun tier_lines :: "parsed_line list \<Rightarrow> tier_state \<Rightarrow> scope_risk_config \<times> config_warning list" where
  "tier_lines [] st = (ti_config st, ti_warnings st)"
| "tier_lines (l # ls) st =
     (if pl_is_top_level l
      then (case py_partition1 (CHR '':'') (pl_stripped l) of (header, rest) \<Rightarrow>
        let in_block = (has_colon (pl_stripped l) \<and> py_strip header = ''scope_risk_tiers'') in
        if in_block \<and> before_hash rest \<noteq> [] then scalar_block (pl_line_no l)
        else tier_lines ls (st\<lparr>ti_in_block := in_block, ti_current := None\<rparr>))
      else if \<not> ti_in_block st then tier_lines ls st
      else tier_lines ls (tier_entry (pl_line_no l) (pl_stripped l) st))"

definition load_scope_risk_tiers :: "string \<Rightarrow> scope_risk_config \<times> config_warning list" where
  "load_scope_risk_tiers content =
     tier_lines (iter_yaml_lines content)
       \<lparr>ti_config = default_scope_risk_config, ti_warnings = [], ti_in_block = False, ti_current = None\<rparr>"

text \<open>\<open>file\<close> is what reading the configuration file gives (\<open>None\<close> for an \<open>OSError\<close>).\<close>

definition load_scope_risk_config :: "string option \<Rightarrow> scope_risk_config" where
  "load_scope_risk_config file =
     (case file of None \<Rightarrow> default_scope_risk_config | Some content \<Rightarrow> fst (load_scope_risk_tiers content))"

section \<open>Expansion\<close>

definition LEVEL_CEILING :: int where "LEVEL_CEILING = 3"
definition READ_LIMIT :: int where "READ_LIMIT = 10"
definition CHANGE_LIMIT :: int where "CHANGE_LIMIT = 3"

definition MODE_TO_LEVEL :: "(string, int) pydict" where
  "MODE_TO_LEVEL = [(''chat_direct'', 1), (''chat_planned'', 2), (''workflow_linear'', 3)]"

record expansion_state =
  xs_level :: int
  xs_read_paths :: "string set"
  xs_write_paths :: "string set"

record expansion_decision =
  xd_level_to :: int
  xd_evidence :: string
  xd_observation_key :: string

definition expansion_state_init :: "int \<Rightarrow> string set \<Rightarrow> string set \<Rightarrow> expansion_state py_result" where
  "expansion_state_init level reads writes =
     (if level \<notin> {1, 2, LEVEL_CEILING}
      then Inl (Exn ValueError (''level must be in 1..'' @ int_str LEVEL_CEILING @ '', got '' @ int_str level))
      else Inr \<lparr>xs_level = level, xs_read_paths = reads, xs_write_paths = writes\<rparr>)"

definition difficulty_to_level :: "string \<Rightarrow> int py_result" where
  "difficulty_to_level mode =
     (case dict_get MODE_TO_LEVEL mode of
        Some level \<Rightarrow> Inr level
      | None \<Rightarrow> Inl (Exn ValueError (''unknown recommended_mode '' @ py_repr mode @ ''; expected one of '' @
                  string_list_repr (sort (map fst MODE_TO_LEVEL)))))"

definition select_l2_skill :: "bool \<Rightarrow> string" where
  "select_l2_skill plan_artifact = (if plan_artifact then ''feature-planning'' else ''plan-authoring'')"

definition bad_write_tier :: "int \<Rightarrow> py_exc option" where
  "bad_write_tier write_tier =
     (if write_tier \<notin> {0, TIER_SAFE, TIER_MEDIUM, TIER_HIGH}
      then Some (Exn ValueError (''write_tier must be one of 0/1/3/5, got '' @ int_str write_tier)) else None)"

definition next_level :: "expansion_state \<Rightarrow> int \<Rightarrow> bool \<Rightarrow> bool \<Rightarrow> bool \<Rightarrow> expansion_decision option py_result" where
  "next_level state write_tier read_tier_high verify_failed assumed_linear =
     (case bad_write_tier write_tier of
        Some e \<Rightarrow> Inl e
      | None \<Rightarrow> Inr
         (if assumed_linear then None
          else if xs_level state \<ge> LEVEL_CEILING then None
          else if verify_failed
          then Some \<lparr>xd_level_to = 3, xd_evidence = ''verify_failed'', xd_observation_key = ''escalation''\<rparr>
          else if write_tier = TIER_HIGH
          then Some \<lparr>xd_level_to = 3, xd_evidence = ''high_tier_write'', xd_observation_key = ''escalation''\<rparr>
          else if read_tier_high \<and> xs_level state < 2
          then Some \<lparr>xd_level_to = 2, xd_evidence = ''read_high_arm'', xd_observation_key = ''skill''\<rparr>
          else None))"

definition near_miss_evidence ::
  "expansion_state \<Rightarrow> int \<Rightarrow> int \<Rightarrow> int \<Rightarrow> bool \<Rightarrow> bool \<Rightarrow> json_obj option py_result" where
  "near_miss_evidence state files_read files_changed write_tier read_tier_high verify_failed =
     (if files_read < 0 \<or> files_changed < 0 then Inl (Exn ValueError ''file counters must be non-negative'')
      else case bad_write_tier write_tier of
        Some e \<Rightarrow> Inl e
      | None \<Rightarrow> Inr
         (if files_read > READ_LIMIT \<or> files_changed > CHANGE_LIMIT \<or> write_tier \<ge> TIER_MEDIUM \<or>
             (read_tier_high \<and> xs_level state \<ge> 2)
          then Some [(''files_read'', JInt files_read), (''files_changed'', JInt files_changed),
                     (''write_tier'', JInt write_tier), (''read_tier_high'', JBool read_tier_high),
                     (''verify_failed'', JBool verify_failed), (''level'', JInt (xs_level state))]
          else None))"
section \<open>Tiers under a configuration\<close>

definition keeps_defaults :: "scope_risk_config \<Rightarrow> bool" where
  "keeps_defaults c \<longleftrightarrow> set DEFAULT_SAFE_PREFIXES \<subseteq> set (sc_safe c) \<and>
     set DEFAULT_MEDIUM_PREFIXES \<subseteq> set (sc_medium c) \<and> set DEFAULT_HIGH_PREFIXES \<subseteq> set (sc_high c)"

lemma keeps_defaults_default [simp]: "keeps_defaults default_scope_risk_config"
  by (simp add: keeps_defaults_def default_scope_risk_config_def)

lemma keeps_defaults_insert: "keeps_defaults c \<Longrightarrow> keeps_defaults (tier_insert tier p c)"
  by (auto simp: keeps_defaults_def tier_insert_def)

lemma tier_warn_config [simp]: "ti_config (tier_warn n k d st) = ti_config st"
  by (simp add: tier_warn_def)

lemma keeps_defaults_add: "keeps_defaults (ti_config st) \<Longrightarrow> keeps_defaults (ti_config (add_prefix tier n raw st))"
  by (simp add: add_prefix_def Let_def keeps_defaults_insert)

lemma keeps_defaults_adds:
  "keeps_defaults (ti_config st) \<Longrightarrow> keeps_defaults (ti_config (fold (add_prefix tier n) raws st))"
  by (induction raws arbitrary: st) (simp_all add: keeps_defaults_add)

lemma keeps_defaults_entry: "keeps_defaults (ti_config st) \<Longrightarrow> keeps_defaults (ti_config (tier_entry n l st))"
  by (simp add: tier_entry_def Let_def keeps_defaults_add keeps_defaults_adds split: option.split prod.split)

lemma tier_lines_keep: "keeps_defaults (ti_config st) \<Longrightarrow> keeps_defaults (fst (tier_lines ls st))"
  by (induction ls arbitrary: st)
     (auto simp: scalar_block_def Let_def keeps_defaults_entry split: prod.splits)

lemma load_keeps: "keeps_defaults (load_scope_risk_config cfg)"
  by (auto simp: load_scope_risk_config_def load_scope_risk_tiers_def tier_lines_keep split: option.split)

text \<open>The tier of a path that is no manifest is the highest tier with a matching prefix.\<close>

definition matched :: "string list \<Rightarrow> string \<Rightarrow> bool" where
  "matched pres path = list_ex (prefix_matches (posix_form path)) pres"

lemma tier_cases:
  "tier_for_path p c =
     (if posix_form p \<in> set ROOT_MANIFEST_NAMES \<or> prefix ''.github/'' (posix_form p) then 5
      else if matched (sc_high c) p then 5
      else if matched (sc_medium c) p then 3
      else if matched (sc_safe c) p then 1
      else 3)"
  by (simp add: tier_for_path_def tier_prefixes_def matched_def Let_def TIER_NO_EVIDENCE_def TIER_SAFE_def
      TIER_MEDIUM_def TIER_HIGH_def)

lemma matched_mono: "set ps \<subseteq> set qs \<Longrightarrow> matched ps p \<Longrightarrow> matched qs p"
  by (auto simp: matched_def list_ex_iff)

text \<open>C39: 
  The tier configuration only adds process: whatever the file says, a path that the documented
  defaults hold high stays high, one below a default medium prefix stays at least medium, and every
  path has one of the three tiers.
\<close>
theorem config_never_lowers:
  "(tier_for_path p default_scope_risk_config = 5 \<longrightarrow> tier_for_path p (load_scope_risk_config cfg) = 5) \<and>
   (matched DEFAULT_MEDIUM_PREFIXES p \<longrightarrow> tier_for_path p (load_scope_risk_config cfg) \<ge> 3) \<and>
   tier_for_path p (load_scope_risk_config cfg) \<in> {1, 3, 5}"
  using load_keeps[of cfg] matched_mono[of DEFAULT_HIGH_PREFIXES "sc_high (load_scope_risk_config cfg)" p]
    matched_mono[of DEFAULT_MEDIUM_PREFIXES "sc_medium (load_scope_risk_config cfg)" p]
  by (auto simp: tier_cases keeps_defaults_def default_scope_risk_config_def)

text \<open>A safe entry for a path of no default tier does lower it from medium.\<close>

definition demo_tiers :: string where
  "demo_tiers = ''scope_risk_tiers:'' @ [CHR 0x0A] @ ''  safe: [lib, src/*]'' @ [CHR 0x0A] @ ''  high:'' @ [CHR 0x0A] @ ''    - ./deploy/**''"

lemma demo_tiers_loaded:
  "tier_for_path ''lib/a.py'' default_scope_risk_config = 3 \<and>
   tier_for_path ''lib/a.py'' (load_scope_risk_config (Some demo_tiers)) = 1 \<and>
   tier_for_path ''src/a.py'' (load_scope_risk_config (Some demo_tiers)) = 5 \<and>
   tier_for_path ''deploy/x/y'' (load_scope_risk_config (Some demo_tiers)) = 5"
  by code_simp

theorem config_never_lowers_witness:
  "tier_for_path ''src/a.py'' default_scope_risk_config = 5 \<and>
   tier_for_path ''src/a.py'' (load_scope_risk_config (Some demo_tiers)) = 5 \<and>
   tier_for_path ''tests/t.py'' (load_scope_risk_config (Some demo_tiers)) \<ge> 3"
proof -
  have "tier_for_path ''src/a.py'' default_scope_risk_config = 5" "matched DEFAULT_MEDIUM_PREFIXES ''tests/t.py''"
    by code_simp+
  with config_never_lowers[of "''src/a.py''" "Some demo_tiers"] config_never_lowers[of "''tests/t.py''" "Some demo_tiers"]
  show ?thesis by blast
qed

section \<open>Posture\<close>

text \<open>The level after a run of turns, each with its write tier, high read and failed verification.\<close>

definition turn_level :: "bool \<Rightarrow> int \<times> bool \<times> bool \<Rightarrow> int \<Rightarrow> int" where
  "turn_level assumed_linear ev level =
     (case ev of (write_tier, read_high, failed) \<Rightarrow>
       (case next_level \<lparr>xs_level = level, xs_read_paths = {}, xs_write_paths = {}\<rparr> write_tier read_high failed assumed_linear of
          Inr (Some d) \<Rightarrow> xd_level_to d
        | _ \<Rightarrow> level))"

definition evidence_level :: "int \<times> bool \<times> bool \<Rightarrow> int" where
  "evidence_level ev =
     (case ev of (write_tier, read_high, failed) \<Rightarrow>
        if failed \<or> write_tier = 5 then 3 else if read_high then 2 else 1)"

lemmas tier_defs = TIER_SAFE_def TIER_MEDIUM_def TIER_HIGH_def TIER_NO_EVIDENCE_def LEVEL_CEILING_def

lemma turn_level_max:
  assumes "fst ev \<in> {0, 1, 3, 5}" and "level \<in> {1, 2, 3}"
  shows "turn_level False ev level = max level (evidence_level ev)"
  using assms by (auto simp: turn_level_def evidence_level_def next_level_def bad_write_tier_def tier_defs split: prod.splits)

lemma evidence_level_range: "evidence_level ev \<in> {1, 2, 3}"
  by (auto simp: evidence_level_def split: prod.splits)

text \<open>
  The posture of a run is the strongest evidence it has seen: after any turns the level is the maximum
  of the seed and of the evidence of the turns (3 for a failed verification or a write in the high tier,
  2 for a read there), so it never falls, and it can rise at most twice. A run seeded for the workflow
  keeps its level.
\<close>
theorem posture_is_strongest_evidence:
  assumes "\<forall>ev \<in> set evs. fst ev \<in> {0, 1, 3, 5}" and "seed \<in> {1, 2, 3}"
  shows "fold (turn_level False) evs seed = Max (insert seed (evidence_level ` set evs)) \<and>
    fold (turn_level True) evs seed = seed"
  using assms
proof (induction evs arbitrary: seed)
  case (Cons ev evs)
  let ?s = "max seed (evidence_level ev)"
  have step: "turn_level False ev seed = ?s" using Cons.prems by (simp add: turn_level_max)
  have "?s \<in> {1, 2, 3}" using Cons.prems(2) evidence_level_range[of ev] by (simp add: max_def)
  with Cons.IH[of ?s] Cons.prems(1)
  have "fold (turn_level False) evs ?s = Max (insert ?s (evidence_level ` set evs))" by simp
  also have "\<dots> = Max (insert seed (evidence_level ` set (ev # evs)))"
    by (cases "evidence_level ` set evs = {}") (simp_all add: Max_insert ac_simps)
  finally have "fold (turn_level False) (ev # evs) seed = Max (insert seed (evidence_level ` set (ev # evs)))"
    using step by simp
  moreover have "turn_level True ev seed = seed"
    using Cons.prems(1) by (auto simp: turn_level_def next_level_def bad_write_tier_def tier_defs split: prod.splits)
  ultimately show ?case using Cons.IH[of seed] Cons.prems by simp
qed simp

theorem posture_is_strongest_evidence_witness:
  "fold (turn_level False) [(1, True, False), (3, True, False), (0, False, True), (1, False, False)] 1 = 3"
  using posture_is_strongest_evidence[of "[(1, True, False), (3, True, False), (0, False, True), (1, False, False)]" 1]
  by (simp add: evidence_level_def)

text \<open>
  The chat role is denied its write tools exactly when the gate is on and two of the repository-wide
  keywords occur in the task; nothing else the estimate looks at can withhold them.
\<close>
theorem withhold_needs_two_signals:
  assumes "estimate_scope task = Inr p"
  shows "should_withhold_write_tools (Some p) role gate_enabled \<longleftrightarrow>
    gate_enabled \<and> role = ''chat'' \<and> 2 \<le> count_matches L3_PATTERNS task"
  using assms
  by (auto simp: estimate_scope_def should_withhold_write_tools_def GATE_MIN_CONFIDENCE_def Let_def split: if_splits)

theorem withhold_needs_two_signals_witness:
  "\<exists>p. estimate_scope ''Refactor the protocol'' = Inr p \<and> should_withhold_write_tools (Some p) ''chat'' True"
proof -
  have "py_strip ''Refactor the protocol'' \<noteq> []" by code_simp
  then have "\<exists>p. estimate_scope ''Refactor the protocol'' = Inr p" unfolding estimate_scope_def Let_def by (subst if_not_P) blast+
  then obtain p where p: "estimate_scope ''Refactor the protocol'' = Inr p" ..
  have "2 \<le> count_matches L3_PATTERNS ''Refactor the protocol''" by code_simp
  with withhold_needs_two_signals[OF p] p show ?thesis by auto
qed

end
