(* ===== verification/Observations.thy ===== *)
theory Observations
  imports Scope Provider_Api
begin

text \<open>
  What a turn is told about its own scope: the skill reader (\<open>skills/_inject.py\<close>) and the advisory
  block of a turn (\<open>inner_loop/observations.py\<close>).

  PyYAML is a parameter: \<open>yaml raw\<close> is what \<open>yaml.safe_load\<close> returns or raises (\<open>ImportError\<close> when
  it is not installed). Reading a file gives no file, an \<open>OSError\<close> or the text.
\<close>

section \<open>Front matter\<close>

definition SKILL_FILE_NAME :: string where "SKILL_FILE_NAME = ''SKILL.md''"

text \<open>\<open>text.find(sub, start)\<close>\<close>

definition find_at :: "string \<Rightarrow> string \<Rightarrow> nat \<Rightarrow> nat option" where
  "find_at sub s start = (if start \<le> length s then find_from sub (drop start s) start else None)"

definition newline :: string where "newline = [CHR 0x0A]"

definition split_frontmatter :: "string \<Rightarrow> string \<times> string" where
  "split_frontmatter content =
     (if \<not> prefix ''---'' content then ([], py_strip_chars newline content)
      else case find_at newline content 0 of
        None \<Rightarrow> ([], [])
      | Some first_end \<Rightarrow>
         (case find_at (newline @ ''---'') content (first_end + 1) of
            None \<Rightarrow> (drop (first_end + 1) content, [])
          | Some second \<Rightarrow>
             (case find_at newline content (second + 1) of
                None \<Rightarrow> (take (second - (first_end + 1)) (drop (first_end + 1) content), [])
              | Some line_end \<Rightarrow>
                  (py_strip_chars newline (take (second - (first_end + 1)) (drop (first_end + 1) content)),
                   py_strip_chars newline (drop (line_end + 1) content)))))"

definition quotes :: string where "quotes = [CHR 0x27, CHR 0x22]"

definition after_colon :: "string \<Rightarrow> string" where
  "after_colon s = py_strip (snd (py_partition1 (CHR '':'') s))"

definition block_line :: "string \<Rightarrow> bool" where
  "block_line l = (prefix ''  '' l \<or> py_strip l = [])"

function (sequential) hand_parse :: "string list \<Rightarrow> json_obj \<Rightarrow> json_obj" where
  "hand_parse [] acc = acc"
| "hand_parse (line # rest) acc =
     (let stripped = py_strip line in
      if prefix ''name:'' stripped
      then hand_parse rest (AList.update ''name'' (JStr (py_strip_chars quotes (after_colon stripped))) acc)
      else if prefix ''description:'' stripped
      then (if after_colon stripped \<in> set [''|'', ''|-'', ''>'', ''>-'']
            then hand_parse (dropWhile block_line rest)
                   (AList.update ''description''
                      (JStr (py_join '' '' (filter (\<lambda>p. p \<noteq> []) (map py_strip (takeWhile block_line rest))))) acc)
            else hand_parse rest (AList.update ''description'' (JStr (py_strip_chars quotes (after_colon stripped))) acc))
      else hand_parse rest acc)"
  by pat_completeness auto
termination
  by (relation "measure (\<lambda>(ls, acc). length ls)") (auto simp: length_dropWhile_le less_Suc_eq_le)

definition parse_frontmatter :: "(string \<Rightarrow> json py_result) \<Rightarrow> string \<Rightarrow> json_obj py_result" where
  "parse_frontmatter yaml raw =
     (if py_strip raw = [] then Inr []
      else case yaml raw of
        Inr (JObj kvs) \<Rightarrow> Inr kvs
      | Inl e \<Rightarrow> if is_Exception e then Inr (hand_parse (splitlines raw) []) else Inl e
      | Inr _ \<Rightarrow> Inr (hand_parse (splitlines raw) []))"

section \<open>Skill blocks\<close>

definition ARGUMENT_HINT :: "(string, string) pydict" where
  "ARGUMENT_HINT =
     [(''feature-planning'', ''Apply this skill directly to the current task in this workspace now.''),
      (''plan-authoring'', ''Follow this skill to author the implementation plan for the current task now.''),
      (''feature-planning-inject'', ''Follow this implementation ceremony for the current slice now.''),
      (''tests-writing-inject'', ''Classify and write the tests for this slice per this ladder now.'')]"

definition one_line_description :: "string \<Rightarrow> string" where
  "one_line_description description =
     (case filter (\<lambda>l. l \<noteq> []) (map py_strip (splitlines (py_strip description))) of [] \<Rightarrow> [] | l # _ \<Rightarrow> l)"

record skill_block =
  sb_name :: string
  sb_description :: string
  sb_instruction :: string
  sb_body :: string

definition build_skill_block :: "string \<Rightarrow> string \<Rightarrow> string \<Rightarrow> skill_block option" where
  "build_skill_block name description body =
     (if py_strip body = [] then None
      else
        (let header_desc = (if one_line_description description = [] then name else one_line_description description);
             hint = dict_get_default ARGUMENT_HINT name ''Apply this skill to the current task now.''
         in Some \<lparr>sb_name = name, sb_description = header_desc, sb_instruction = hint,
                  sb_body = ''# '' @ name @ '' - '' @ header_desc @ newline @ hint @ newline @ newline @ py_strip body\<rparr>))"

definition skill_json :: "skill_block \<Rightarrow> json" where
  "skill_json b = JObj [(''name'', JStr (sb_name b)), (''description'', JStr (sb_description b)),
     (''instruction'', JStr (sb_instruction b)), (''body'', JStr (sb_body b))]"

definition build_skill_anchor :: "string \<Rightarrow> string \<Rightarrow> string" where
  "build_skill_anchor name skill_path =
     ''Skill '' @ name @ '' remains active (full instructions given earlier). Reference: '' @ skill_path"

text \<open>
  The pattern between its anchors: it starts the path or follows a slash, and ends the path or stands
  before a final line break.
\<close>

definition PLAN_ARTIFACT_PATTERN :: pat where
  "PLAN_ARTIFACT_PATTERN = p_seq [p_ilit ''PLAN-'', PStar (PChar (\<lambda>c. c \<noteq> CHR ''/'')), p_ilit ''.md'']"

definition PLAN_BLACKBOARD_KEYS :: "string list" where
  "PLAN_BLACKBOARD_KEYS = [''workflow_handoff'', ''plan'', ''plan_artifact'']"

definition plan_artifact_path :: "string \<Rightarrow> bool" where
  "plan_artifact_path p =
     (let s = py_replace1 (CHR 0x5C) ''/'' p in
      list_ex (\<lambda>i. (i = 0 \<or> s ! (i - 1) = CHR ''/'') \<and>
        list_ex (\<lambda>t. fst t = length s \<or> (fst t + 1 = length s \<and> s ! fst t = CHR 0x0A))
          (pat_run PLAN_ARTIFACT_PATTERN s (i, []))) [0..<length s])"

definition plan_artifact_present :: "string set \<Rightarrow> string list \<Rightarrow> bool" where
  "plan_artifact_present read_paths blackboard_keys =
     ((\<exists>p \<in> read_paths. plan_artifact_path p) \<or> list_ex (\<lambda>k. k \<in> set PLAN_BLACKBOARD_KEYS) blackboard_keys)"

datatype file_read = NoFile | ReadError string | FileText string

record skill_result =
  sk_block :: "skill_block option"
  sk_warning :: "string option"

text \<open>\<open>skill_path\<close> is the text of the path read; \<open>fr\<close> is \<open>repr\<close> of a float.\<close>

definition read_skill_for_injection ::
  "(rat \<Rightarrow> string) \<Rightarrow> (string \<Rightarrow> json py_result) \<Rightarrow> string \<Rightarrow> string \<Rightarrow> file_read \<Rightarrow> skill_result py_result" where
  "read_skill_for_injection fr yaml skill_name skill_path content =
     (case content of
        NoFile \<Rightarrow> Inr \<lparr>sk_block = None,
          sk_warning = Some (''skill '' @ py_repr skill_name @ '' not found at '' @ skill_path @ '' (L2 injection skipped)'')\<rparr>
      | ReadError msg \<Rightarrow> Inr \<lparr>sk_block = None,
          sk_warning = Some (''could not read '' @ skill_path @ '': '' @ msg @ '' (L2 injection skipped)'')\<rparr>
      | FileText t \<Rightarrow>
         (case split_frontmatter t of (raw, body) \<Rightarrow>
           rbind (parse_frontmatter yaml raw) (\<lambda>fm.
             let given = msg_get fm ''name'';
                 stripped = py_strip (if json_truthy given then json_str fr given else skill_name);
                 name = (if stripped = [] then skill_name else stripped);
                 description = str_or_empty fr (msg_get fm ''description'')
             in case build_skill_block name description body of
                  None \<Rightarrow> Inr \<lparr>sk_block = None,
                    sk_warning = Some (''skill '' @ py_repr skill_name @ '' at '' @ skill_path @ '' has an empty body (L2 injection skipped)'')\<rparr>
                | Some b \<Rightarrow> Inr \<lparr>sk_block = Some b, sk_warning = None\<rparr>)))"

section \<open>Observation block\<close>

definition OBSERVATION_CAP_CHARS :: nat where "OBSERVATION_CAP_CHARS = 1800"

definition KEY_PRIORITY :: "(string, int) pydict" where
  "KEY_PRIORITY = [(''exhausted'', 4), (''escalation'', 3), (''verification'', 2), (''skill'', 1)]"

record observation_render =
  or_turn_context :: string
  or_skill_block :: "skill_block option"

definition escalation_text :: string where
  "escalation_text =
     ''Scope escalation: the evidence now warrants the invoke_workflow tool, which runs a '' @
     ''planner/coder/eval loop built for work at this size.'' @ newline @
     ''Do exactly:'' @ newline @
     ''1) Call invoke_workflow with the current goal.'' @ newline @
     ''2) The harness attaches a file map and handoff; start from its '' @ [CHR 0x22] @ ''Start here'' @ [CHR 0x22] @ '' list.'' @ newline @
     ''3) Continue the chat task only if you finish without it.''"

definition exhausted_text :: string where
  "exhausted_text = ''Escalation budget used: invoke_workflow cannot be called again this session. '' @
     ''Finish the current task with the tools you have and report the state to the operator.''"

definition skill_anchor_text :: "string \<Rightarrow> string" where
  "skill_anchor_text skill_name =
     ''Planner skill active: '' @ build_skill_anchor skill_name (''knowledge/skills/'' @ skill_name @ ''/SKILL.md'')"

definition verification_text :: "int \<Rightarrow> string option \<Rightarrow> string option" where
  "verification_text write_tier verification_command =
     (if write_tier \<le> 0 then None
      else if write_tier \<ge> TIER_HIGH
      then (let command = (case verification_command of Some (c # cs) \<Rightarrow> c # cs
                           | _ \<Rightarrow> ''the repo's test suite (pytest) plus ruff and mypy'')
            in Some (''Risk tier high for the modified paths. Verification: run '' @ command @
                     '' and confirm green before reporting done.''))
      else if write_tier \<ge> TIER_MEDIUM
      then Some ''Changed files include test/knowledge/script paths; consider targeted tests for what you edited.''
      else None)"

text \<open>The loop over the ordered entries; \<open>chosen\<close> and the number of characters so far.\<close>

fun choose_capped :: "(string \<times> string) list \<Rightarrow> string list \<Rightarrow> nat \<Rightarrow> string list" where
  "choose_capped [] chosen n = chosen"
| "choose_capped ((key, t) # rest) chosen n =
     (if n + length t > OBSERVATION_CAP_CHARS \<and> chosen \<noteq> [] then choose_capped rest chosen n
      else choose_capped rest (chosen @ [t]) (n + length t))"

definition render_with_cap :: "(string, string) pydict \<Rightarrow> string" where
  "render_with_cap entries =
     py_join (newline @ newline)
       (choose_capped (sort_key (\<lambda>kv. - dict_get_default KEY_PRIORITY (fst kv) 0) entries) [] 0)"

definition observation_entries ::
  "int \<Rightarrow> int \<Rightarrow> expansion_decision option \<Rightarrow> int \<Rightarrow> bool \<Rightarrow> string \<Rightarrow> string option \<Rightarrow> (string, string) pydict" where
  "observation_entries level_from level_to decision write_tier exhausted skill_name verification_command =
     (let just_escalated = (decision \<noteq> None \<and> level_to \<ge> LEVEL_CEILING \<and> level_from < LEVEL_CEILING);
          posture =
            (if exhausted then [(''exhausted'', exhausted_text)]
             else if just_escalated then [(''escalation'', escalation_text)]
             else if level_to = 2 then
               (if (case decision of Some d \<Rightarrow> xd_observation_key d = ''skill'' | None \<Rightarrow> False)
                then [(''skill'', skill_anchor_text (if skill_name = [] then ''plan-authoring'' else skill_name))]
                else if skill_name \<noteq> [] then [(''skill'', skill_anchor_text skill_name)] else [])
             else [])
      in posture @ (case verification_text write_tier verification_command of
                      None \<Rightarrow> [] | Some t \<Rightarrow> [(''verification'', t)]))"

definition build_observation_block ::
  "int \<Rightarrow> int \<Rightarrow> expansion_decision option \<Rightarrow> int \<Rightarrow> skill_result option \<Rightarrow> bool \<Rightarrow> string \<Rightarrow> string option \<Rightarrow> observation_render" where
  "build_observation_block level_from level_to decision write_tier result exhausted skill_name verification_command =
     \<lparr>or_turn_context = render_with_cap
        (observation_entries level_from level_to decision write_tier exhausted skill_name verification_command),
      or_skill_block = (case result of None \<Rightarrow> None | Some r \<Rightarrow> sk_block r)\<rparr>"

section \<open>Front matter and body\<close>

lemma find_from_absent: "\<not> sublist sub s \<Longrightarrow> sub \<noteq> [] \<Longrightarrow> find_from sub s i = None"
  by (induction s arbitrary: i) (auto simp: sublist_Cons_right)

text \<open>
  An empty front matter (two delimiter lines in a row) is not recognised: the search for the closing
  delimiter starts after the line break it would have to begin with, so the whole body becomes front
  matter and the injection is skipped as empty.
\<close>
lemma empty_frontmatter_swallows_body:
  assumes "\<not> sublist (newline @ ''---'') (''---'' @ newline @ body)"
  shows "split_frontmatter (''---'' @ newline @ ''---'' @ newline @ body) = (''---'' @ newline @ body, [])"
proof -
  let ?t = "''---'' @ newline @ ''---'' @ newline @ body"
  have 1: "find_at newline ?t 0 = Some 3" by (simp add: find_at_def newline_def)
  have d: "drop (3 + 1) ?t = ''---'' @ newline @ body" by (simp add: newline_def)
  have 2: "find_at (newline @ ''---'') ?t (3 + 1) = None"
    unfolding find_at_def d using find_from_absent[OF assms, of "3 + 1"] by (simp add: newline_def del: find_from.simps)
  show ?thesis unfolding split_frontmatter_def 1 option.case 2 d by simp
qed

end
