(* ===== verification/Coder_Loop.thy ===== *)
theory Coder_Loop
  imports Inner_Loop Compaction Projection Prompt Observations Injections Runtime_Limits
begin

text \<open>
  The conversation of a session with its model (\<open>inner_loop/coder_loop.py\<close>): one turn is the scope
  boundary, the BEFORE_LLM_CALL hooks, the pairing check, composition, the context budget with its two
  compaction stages, the request with its retries, the AFTER_LLM_CALL hooks and the tool calls of the
  answer, which go through \<open>run_session\<close> (theory \<open>Inner_Loop\<close>).

  \<open>coder_input\<close> holds the arguments of \<open>drive_session\<close> and what the environment answers: role prompts,
  pinned and skill files, PyYAML, \<open>json.loads\<close>, SHA-256, clocks and sleeping, the bash classifier, the
  thread pools. \<open>coder_state\<close> holds the local variables of the driver and the state it works on: hooks,
  session and outside world (\<open>lstate\<close>), the cooldowns of the two chains (each chain has its own), the
  artifact store. Console events, log records and the session metrics are left out; so is the
  fall-back of \<open>read_all\<close> to a legacy file.
\<close>

section \<open>State\<close>

record 'w coder_input =
  ci_task :: string
  ci_role :: string
  ci_family :: string
  ci_chain :: "'w provider_chain"
  ci_compactor :: "'w provider_chain option"
  ci_registry :: "'w loop_world tool_registry"
  ci_limits :: "runtime_limits option"
  ci_max_turns :: int
  ci_system_extra :: string
  ci_turn_context :: string
  ci_scope_mode :: string
  ci_injections :: "(string, string) pydict option"
  ci_initial_summary :: string
  ci_temperature :: json
  ci_max_tokens :: int
  ci_redactor :: "(string \<Rightarrow> string) option"
  ci_flags :: "feature_flags option"
  ci_disk_caching :: bool
  ci_role_prompts :: "(string, string) pydict"
  ci_fr :: "rat \<Rightarrow> string"
  ci_sha :: "nat list \<Rightarrow> string"
  ci_json_loads :: "string \<Rightarrow> json option"
  ci_yaml :: "string \<Rightarrow> json py_result"
  ci_pinned :: "'w \<Rightarrow> string \<Rightarrow> string option"
  ci_skill_file :: "'w \<Rightarrow> string \<Rightarrow> string \<Rightarrow> file_read"
  ci_skills_root :: string
  ci_config_file :: "string option"
  ci_verify_only :: "string \<Rightarrow> bool"
  ci_pools :: "nat \<Rightarrow> nat \<Rightarrow> pool_run"
  ci_now :: "'w \<Rightarrow> rat \<times> 'w"
  ci_sleep :: "pyfloat \<Rightarrow> 'w \<Rightarrow> unit py_result \<times> 'w"
  ci_pytest :: bool

record usage_totals =
  us_input :: int
  us_cache_read :: int
  us_cache_creation :: int
  us_output :: int

record 'w coder_state =
  cs_ls :: "'w lstate"
  cs_cds :: ledger
  cs_compactor_cds :: ledger
  cs_store :: artifact_store
  cs_history :: "json_obj list"
  cs_summary :: string
  cs_budget :: context_budget
  cs_usage :: usage_totals
  cs_usage_turns :: nat
  cs_summary_written :: bool
  cs_results :: "tool_result list"
  cs_turn :: nat
  cs_expansion :: expansion_state
  cs_skill_name :: string
  cs_exhausted :: bool
  cs_prev_calls :: "tool_call list"
  cs_prev_results :: "tool_result list"
  cs_observed :: "json_obj option"
  cs_exhaustions :: int

record session_outcome =
  so_exit_code :: int
  so_stop_reason :: string
  so_turns :: nat
  so_final_text :: string
  so_tool_results :: "tool_result list"

text \<open>Statements that may also end the session: \<open>Inl\<close> is a \<open>return\<close>.\<close>

definition ebind ::
  "('o + 'a) py_result \<times> 's \<Rightarrow> ('a \<Rightarrow> 's \<Rightarrow> ('o + 'b) py_result \<times> 's) \<Rightarrow> ('o + 'b) py_result \<times> 's" where
  "ebind m k = sbind m (\<lambda>r s. case r of Inl out \<Rightarrow> (Inr (Inl out), s) | Inr x \<Rightarrow> k x s)"

definition on_ls :: "('w lstate \<Rightarrow> 'a \<times> 'w lstate) \<Rightarrow> 'w coder_state \<Rightarrow> 'a \<times> 'w coder_state" where
  "on_ls f st = (case f (cs_ls st) of (r, ls) \<Rightarrow> (r, st\<lparr>cs_ls := ls\<rparr>))"

definition session_of :: "'w coder_state \<Rightarrow> session_state" where
  "session_of st = lw_state (snd (cs_ls st))"

definition env_of :: "'w coder_state \<Rightarrow> 'w" where
  "env_of st = lw_env (snd (cs_ls st))"

definition set_env :: "'w \<Rightarrow> 'w coder_state \<Rightarrow> 'w coder_state" where
  "set_env w st = st\<lparr>cs_ls := (fst (cs_ls st), (snd (cs_ls st))\<lparr>lw_env := w\<rparr>)\<rparr>"

definition log_append :: "string \<Rightarrow> string \<Rightarrow> json_obj \<Rightarrow> 'w coder_state \<Rightarrow> unit py_result \<times> 'w coder_state" where
  "log_append actor kind content st =
     (case on_ls (ls_session (session_append actor kind content [] [])) st of
        (Inl e, st) \<Rightarrow> (Inl e, st) | (Inr _, st) \<Rightarrow> (Inr (), st))"

definition log_events :: "'w coder_state \<Rightarrow> trace_event list" where
  "log_events st =
     (case ss_log (session_of st) of
        None \<Rightarrow> []
      | Some elog \<Rightarrow> read_event_rows (if el_run_id elog = [] then None else Some (el_run_id elog)) (el_db elog))"

definition llm_payload :: "'w coder_input \<Rightarrow> hook_payload" where
  "llm_payload ci = call_payload None (ci_role ci) (ci_family ci)"

section \<open>Usage and outcome\<close>

definition usage_event_content :: "response_info \<Rightarrow> json_obj" where
  "usage_event_content r = [(''input_tokens'', JInt (rs_in_tokens r)),
     (''cache_read_input_tokens'', JInt (rs_cache_read_input_tokens r)),
     (''cache_creation_input_tokens'', JInt (rs_cache_creation_input_tokens r)),
     (''output_tokens'', JInt (rs_out_tokens r))]"

definition session_summary_content :: "usage_totals \<Rightarrow> nat \<Rightarrow> json_obj" where
  "session_summary_content u n_turns =
     (let uncached = max (us_input u - us_cache_read u - us_cache_creation u) 0;
          denominator = us_cache_read u + us_cache_creation u + uncached
      in [(''n_turns'', JInt (int n_turns)), (''input_tokens'', JInt (us_input u)),
          (''cache_read_input_tokens'', JInt (us_cache_read u)),
          (''cache_creation_input_tokens'', JInt (us_cache_creation u)),
          (''uncached_input_tokens'', JInt uncached), (''output_tokens'', JInt (us_output u)),
          (''cache_hit_ratio'', JFloat (if denominator \<noteq> 0 then of_int (us_cache_read u) / of_int denominator else 0))])"

definition record_usage :: "response_info \<Rightarrow> 'w coder_state \<Rightarrow> unit py_result \<times> 'w coder_state" where
  "record_usage r st =
     sbind (log_append ''runtime'' ''usage'' (usage_event_content r) st) (\<lambda>_ st.
       let u = cs_usage st in
       (Inr (), st\<lparr>cs_usage := \<lparr>us_input = us_input u + rs_in_tokens r,
                     us_cache_read = us_cache_read u + rs_cache_read_input_tokens r,
                     us_cache_creation = us_cache_creation u + rs_cache_creation_input_tokens r,
                     us_output = us_output u + rs_out_tokens r\<rparr>,
                   cs_usage_turns := cs_usage_turns st + 1\<rparr>))"

definition finish :: "session_outcome \<Rightarrow> 'w coder_state \<Rightarrow> session_outcome py_result \<times> 'w coder_state" where
  "finish out st =
     (if cs_summary_written st then (Inr out, st)
      else sbind (log_append ''runtime'' ''session_summary'' (session_summary_content (cs_usage st) (cs_usage_turns st)) st)
             (\<lambda>_ st. (Inr out, st\<lparr>cs_summary_written := True\<rparr>)))"

definition outcome :: "int \<Rightarrow> string \<Rightarrow> string \<Rightarrow> 'w coder_state \<Rightarrow> session_outcome" where
  "outcome code reason final st =
     \<lparr>so_exit_code = code, so_stop_reason = reason, so_turns = cs_turn st, so_final_text = final,
      so_tool_results = cs_results st\<rparr>"

text \<open>\<open>log.append(kind="run_stopped", ...); return finish(SessionOutcome(...))\<close>\<close>

definition stop_with ::
  "json_obj \<Rightarrow> int \<Rightarrow> string \<Rightarrow> string \<Rightarrow> 'w coder_state \<Rightarrow> (session_outcome + 'a) py_result \<times> 'w coder_state" where
  "stop_with content code reason final st =
     sbind (log_append ''runtime'' ''run_stopped'' content st) (\<lambda>_ st.
     sbind (finish (outcome code reason final st) st) (\<lambda>out st. (Inr (Inl out), st)))"

definition request_shape_failure :: "string \<Rightarrow> 'w coder_state \<Rightarrow> (session_outcome + 'a) py_result \<times> 'w coder_state" where
  "request_shape_failure detail st =
     stop_with [(''reason'', JStr ''request_shape''), (''detail'', JStr detail)] 2 ''request_shape'' [] st"

section \<open>History\<close>

definition merge_memory_summary_context :: "string \<Rightarrow> string \<Rightarrow> string" where
  "merge_memory_summary_context initial_summary rebuilt_summary =
     (let initial = py_strip initial_summary; rebuilt = py_strip rebuilt_summary in
      if initial \<noteq> [] \<and> rebuilt \<noteq> []
      then ''Resumed session context:'' @ nl @ initial @ nl @ nl @ ''Previous compacted summary:'' @ nl @ rebuilt
      else if initial \<noteq> [] then initial else rebuilt)"

definition or_empty :: "json \<Rightarrow> json" where
  "or_empty v = (if json_truthy v then v else JStr [])"

text \<open>The messages an event of the log stands for.\<close>

definition replay_event :: "(rat \<Rightarrow> string) \<Rightarrow> trace_event \<Rightarrow> json_obj list" where
  "replay_event fr ev =
     (let c = ev_content ev in
      if ev_kind ev = ''user_msg''
      then [[(''role'', JStr ''user''), (''content'', JStr (str_or_empty fr (msg_get c ''text'')))]]
      else if ev_kind ev = ''model_msg''
      then [[(''role'', JStr ''assistant''), (''content'', or_empty (msg_get c ''text''))] @
            (if json_truthy (msg_get c ''tool_calls'') then [(''tool_calls'', msg_get c ''tool_calls'')] else [])]
      else if ev_kind ev = ''tool_result''
      then (let stdout = (case msg_get c ''result'' of JObj res \<Rightarrow> str_or_empty fr (msg_get res ''stdout'') | _ \<Rightarrow> [])
            in [[(''role'', JStr ''tool''), (''tool_call_id'', JStr (ev_tool_call_id ev)),
                 (''content'', if stdout \<noteq> [] then JStr stdout else or_empty (msg_get c ''summary''))]])
      else [])"

text \<open>The events after the last finished compaction, and its summary.\<close>

fun since_compaction :: "(rat \<Rightarrow> string) \<Rightarrow> trace_event list \<Rightarrow> string \<times> trace_event list \<Rightarrow> string \<times> trace_event list" where
  "since_compaction fr [] acc = acc"
| "since_compaction fr (ev # evs) (summary, relevant) =
     since_compaction fr evs
       (if ev_kind ev = ''compaction_stage3_done'' then (str_or_empty fr (msg_get (ev_content ev) ''summary''), [])
        else (summary, relevant @ [ev]))"

definition rebuild_history :: "(rat \<Rightarrow> string) \<Rightarrow> trace_event list \<Rightarrow> string \<times> json_obj list" where
  "rebuild_history fr evs =
     (case since_compaction fr evs ([], []) of
        (summary, relevant) \<Rightarrow> (summary, concat (map (replay_event fr) relevant)))"

section \<open>Tool calls\<close>

definition obj_or_empty :: "json \<Rightarrow> json_obj" where
  "obj_or_empty v = (case v of JObj kvs \<Rightarrow> kvs | _ \<Rightarrow> [])"

definition fmt04 :: "nat \<Rightarrow> string" where
  "fmt04 n = replicate (4 - length (nat_str n)) (CHR ''0'') @ nat_str n"

definition call_params :: "(string \<Rightarrow> json option) \<Rightarrow> json \<Rightarrow> json_obj" where
  "call_params loads arguments_raw =
     (case arguments_raw of
        JStr a \<Rightarrow> (if a = [] then [] else case loads a of Some v \<Rightarrow> obj_or_empty v | None \<Rightarrow> [])
      | v \<Rightarrow> obj_or_empty v)"

definition build_tool_call :: "(rat \<Rightarrow> string) \<Rightarrow> (string \<Rightarrow> json option) \<Rightarrow> nat \<Rightarrow> json \<Rightarrow> tool_call py_result" where
  "build_tool_call fr loads index raw =
     (case raw of
        JObj r \<Rightarrow>
          (let function_obj = obj_or_empty (msg_get r ''function'');
               name = str_or_empty fr (msg_get function_obj ''name'')
           in tool_call_post_init
                \<lparr>tc_name = (if name = [] then ''__invalid__'' else name),
                 tc_params = call_params loads (msg_get function_obj ''arguments''),
                 tc_call_id = (if json_truthy (msg_get r ''id'') then json_str fr (msg_get r ''id'') else ''tc-'' @ fmt04 index)\<rparr>)
      | v \<Rightarrow> Inl (no_attribute (json_type_name v) ''get''))"

definition build_tool_calls :: "(rat \<Rightarrow> string) \<Rightarrow> (string \<Rightarrow> json option) \<Rightarrow> json list \<Rightarrow> tool_call list py_result" where
  "build_tool_calls fr loads raw_calls =
     rmap (\<lambda>(i, raw). build_tool_call fr loads i raw) (zip [0..<length raw_calls] raw_calls)"

definition tool_call_for_message :: "(rat \<Rightarrow> string) \<Rightarrow> json \<Rightarrow> tool_call \<Rightarrow> json" where
  "tool_call_for_message fr raw parsed =
     (let function_obj = obj_or_empty (msg_get (obj_or_empty raw) ''function'');
          name = msg_get function_obj ''name'';
          arguments = (case msg_get function_obj ''arguments'' of
                         JStr a \<Rightarrow> a | _ \<Rightarrow> json_dumps_sorted fr (JObj (tc_params parsed)))
      in JObj [(''id'', JStr (tc_call_id parsed)), (''type'', JStr ''function''),
               (''function'', JObj [(''name'', JStr (if json_truthy name then json_str fr name else tc_name parsed)),
                                    (''arguments'', JStr arguments)])])"

definition tool_calls_for_message :: "(rat \<Rightarrow> string) \<Rightarrow> json list \<Rightarrow> tool_call list \<Rightarrow> json list" where
  "tool_calls_for_message fr raw_calls parsed_calls = map2 (tool_call_for_message fr) raw_calls parsed_calls"

definition projection_spec_for_call :: "'w tool_registry \<Rightarrow> tool_call \<Rightarrow> 'w tool_spec py_result" where
  "projection_spec_for_call reg call =
     (case registry_lookup reg (tc_name call) of
        Inr spec \<Rightarrow> Inr spec
      | Inl e \<Rightarrow>
          if exn_class e = KeyError
          then tool_spec_post_init
            \<lparr>ts_name = tc_name call, ts_description = ''Fallback projection spec for an unregistered tool call.'',
             ts_input_schema = [(''type'', JStr ''object'')], ts_permission = ''read'',
             ts_handler = (\<lambda>_ w. (tool_result_ok ''projection fallback'' None [], w)),
             ts_tags = [], ts_output_schema = None, ts_defer_loading = False,
             ts_max_context_bytes = DEFAULT_TOOL_CONTEXT_BYTES, ts_elide = None\<rparr>
          else Inl e)"

section \<open>Invariants checked at run time\<close>

text \<open>The ids in a content list: \<open>tool_use\<close> blocks of the assistant, \<open>tool_result\<close> blocks of the user.\<close>

definition block_ids :: "(rat \<Rightarrow> string) \<Rightarrow> string \<Rightarrow> string \<Rightarrow> json \<Rightarrow> string list" where
  "block_ids fr ty key content =
     (case content of
        JList vs \<Rightarrow> List.map_filter (\<lambda>v. case v of
            JObj b \<Rightarrow> if msg_get b ''type'' = JStr ty then Some (str_or_empty fr (msg_get b key)) else None
          | _ \<Rightarrow> None) vs
      | _ \<Rightarrow> [])"

definition obj_ids :: "(rat \<Rightarrow> string) \<Rightarrow> json list \<Rightarrow> string list" where
  "obj_ids fr vs = List.map_filter (\<lambda>v. case v of JObj c \<Rightarrow> Some (str_or_empty fr (msg_get c ''id'')) | _ \<Rightarrow> None) vs"

definition use_ids :: "(rat \<Rightarrow> string) \<Rightarrow> json_obj \<Rightarrow> string list py_result" where
  "use_ids fr m =
     (if msg_get m ''role'' = JStr ''assistant''
      then rbind (if json_truthy (msg_get m ''tool_calls'') then json_iter (msg_get m ''tool_calls'') else Inr [])
             (\<lambda>calls. Inr (obj_ids fr calls @ block_ids fr ''tool_use'' ''id'' (msg_get m ''content'')))
      else Inr [])"

definition result_ids :: "(rat \<Rightarrow> string) \<Rightarrow> json_obj \<Rightarrow> string list" where
  "result_ids fr m =
     (if msg_get m ''role'' = JStr ''tool'' then [str_or_empty fr (msg_get m ''tool_call_id'')]
      else if msg_get m ''role'' = JStr ''user'' then block_ids fr ''tool_result'' ''tool_use_id'' (msg_get m ''content'')
      else [])"

definition assertion_error :: "string \<Rightarrow> py_exc" where
  "assertion_error msg = Exn (OtherError ''AssertionError'') msg"

definition assert_tool_pairing_invariant :: "(rat \<Rightarrow> string) \<Rightarrow> json_obj list \<Rightarrow> unit py_result" where
  "assert_tool_pairing_invariant fr messages =
     rbind (rmap (use_ids fr) messages) (\<lambda>uses.
       if set (concat uses) = set (concat (map (result_ids fr) messages)) then Inr ()
       else Inl (assertion_error ''orphaned tool calls''))"

definition assert_final_role_invariant :: "(rat \<Rightarrow> string) \<Rightarrow> json_obj list \<Rightarrow> unit py_result" where
  "assert_final_role_invariant fr messages =
     (if messages = [] then Inr ()
      else let last_role = msg_get (last messages) ''role'' in
        if last_role \<notin> {JStr ''user'', JStr ''tool''}
        then Inl (assertion_error (''final provider-visible role must be user or tool for serving, got '' @ json_repr fr last_role))
        else Inr ())"
section \<open>Scope boundary\<close>

definition CEREMONY_SKILLS :: "string list" where
  "CEREMONY_SKILLS = [''feature-planning'', ''tests-writing'']"

definition should_inject_ceremony :: "string \<Rightarrow> nat \<Rightarrow> (string, string) pydict option \<Rightarrow> bool" where
  "should_inject_ceremony role turn injection_modes =
     (role = ''coder'' \<and> turn = 1 \<and> is_active injection_modes (is_name CODER_SLICE_CEREMONY))"

definition read_skill :: "'w coder_input \<Rightarrow> string \<Rightarrow> string \<Rightarrow> 'w \<Rightarrow> skill_result py_result" where
  "read_skill ci skill_name file_name w =
     read_skill_for_injection (ci_fr ci) (ci_yaml ci) skill_name
       (ci_skills_root ci @ ''/'' @ skill_name @ ''/'' @ file_name) (ci_skill_file ci w skill_name file_name)"

text \<open>The blocks read before the first exception.\<close>

fun ceremony_blocks :: "'w coder_input \<Rightarrow> 'w \<Rightarrow> string list \<Rightarrow> json list py_result" where
  "ceremony_blocks ci w [] = Inr []"
| "ceremony_blocks ci w (skill # skills) =
     (case read_skill ci skill ''INJECT.md'' w of
        Inl e \<Rightarrow> if is_Exception e then Inr [] else Inl e
      | Inr r \<Rightarrow> rbind (ceremony_blocks ci w skills) (\<lambda>bs.
          Inr ((case sk_block r of None \<Rightarrow> [] | Some b \<Rightarrow> [skill_json b]) @ bs)))"

definition ceremony_step :: "'w coder_input \<Rightarrow> 'w coder_state \<Rightarrow> json list py_result \<times> 'w coder_state" where
  "ceremony_step ci st =
     (let name = is_name CODER_SLICE_CEREMONY in
      if ci_role ci = ''coder'' \<and> cs_turn st = 1 \<and> is_observed (ci_injections ci) name
      then (let enforcing = should_inject_ceremony (ci_role ci) (cs_turn st) (ci_injections ci) in
            sbind (if enforcing then ceremony_blocks ci (env_of st) CEREMONY_SKILLS else Inr [], st) (\<lambda>blocks st.
            sbind (log_append ''harness'' ''ceremony_injected''
                [(''turn'', JInt (int (cs_turn st))), (''role'', JStr (ci_role ci)),
                 (''mode'', JStr (mode_for (ci_injections ci) name)),
                 (''skills'', JList (if enforcing then map JStr CEREMONY_SKILLS else [])),
                 (''blocks'', JInt (int (length blocks)))] st) (\<lambda>_ st. (Inr blocks, st))))
      else (Inr [], st))"

text \<open>\<open>str(call.params.get("command", ""))\<close> of a failed \<open>fs_run_bash\<close>, judged by the classifier.\<close>

definition verify_failed_in_pairs :: "'w coder_input \<Rightarrow> tool_call list \<Rightarrow> tool_result list \<Rightarrow> bool" where
  "verify_failed_in_pairs ci calls results =
     list_ex (\<lambda>(call, result).
        tc_name call = ''fs_run_bash'' \<and> tr_error result \<noteq> None \<and>
        (let command = json_str (ci_fr ci) (dict_get_default (tc_params call) ''command'' (JStr [])) in
         command \<noteq> [] \<and> ci_verify_only ci command)) (zip calls results)"

definition is_chat_role :: "'w coder_input \<Rightarrow> bool" where
  "is_chat_role ci = (ci_role ci = ''chat'' \<and> ci_scope_mode ci \<noteq> [])"

definition seed_level :: "'w coder_input \<Rightarrow> int" where
  "seed_level ci = (if ci_scope_mode ci = [] then 1 else case difficulty_to_level (ci_scope_mode ci) of Inr l \<Rightarrow> l | Inl _ \<Rightarrow> 1)"

definition scope_tiers :: "'w coder_input \<Rightarrow> scope_risk_config" where
  "scope_tiers ci = (if is_chat_role ci then load_scope_risk_config (ci_config_file ci) else default_scope_risk_config)"

text \<open>The L2 skill on its entry turn; an exception of the reader means no skill.\<close>

definition entry_skill ::
  "'w coder_input \<Rightarrow> string set \<Rightarrow> expansion_decision option \<Rightarrow> 'w coder_state \<Rightarrow> skill_result option py_result \<times> 'w coder_state" where
  "entry_skill ci read_paths decision st =
     (case decision of
        Some d \<Rightarrow>
          (if xd_observation_key d = ''skill''
           then (let name = select_l2_skill (plan_artifact_present read_paths []);
                     st = st\<lparr>cs_skill_name := name\<rparr>
                 in case read_skill ci name SKILL_FILE_NAME (env_of st) of
                      Inr r \<Rightarrow> (Inr (Some r), st)
                    | Inl e \<Rightarrow> (if is_Exception e then Inr None else Inl e, st))
           else (Inr None, st))
      | None \<Rightarrow> (Inr None, st))"

definition log_transition ::
  "int \<Rightarrow> int \<Rightarrow> expansion_decision option \<Rightarrow> int \<Rightarrow> int \<Rightarrow> int \<times> int \<Rightarrow> 'w coder_state \<Rightarrow> unit py_result \<times> 'w coder_state" where
  "log_transition level_from level_to decision files_read files_changed tiers st =
     log_append ''harness'' ''scope_expansion''
       [(''turn'', JInt (int (cs_turn st))), (''level_from'', JInt level_from), (''level_to'', JInt level_to),
        (''evidence'', JStr (case decision of Some d \<Rightarrow> xd_evidence d | None \<Rightarrow> [])),
        (''files_read'', JInt files_read), (''files_changed'', JInt files_changed),
        (''write_tier'', JInt (snd tiers)), (''read_tier'', JInt (fst tiers))] st"

definition log_near_miss :: "json_obj option \<Rightarrow> 'w coder_state \<Rightarrow> unit py_result \<times> 'w coder_state" where
  "log_near_miss near_miss st =
     (case near_miss of
        None \<Rightarrow> (Inr (), st)
      | Some ev \<Rightarrow>
          if cs_observed st = Some ev then (Inr (), st)
          else log_append ''harness'' ''expansion_observed'' ((''turn'', JInt (int (cs_turn st))) # ev)
                 (st\<lparr>cs_observed := Some ev\<rparr>))"

definition scope_boundary :: "'w coder_input \<Rightarrow> 'w coder_state \<Rightarrow> observation_render py_result \<times> 'w coder_state" where
  "scope_boundary ci st =
     (if \<not> is_chat_role ci then (Inr \<lparr>or_turn_context = [], or_skill_block = None\<rparr>, st)
      else
        (let txn = ss_transaction (session_of st);
             reads = (case txn of None \<Rightarrow> {} | Some t \<Rightarrow> txn_read_set t);
             writes = (case txn of None \<Rightarrow> {} | Some t \<Rightarrow> txn_write_set t);
             tiers = observed_tiers reads writes (scope_tiers ci);
             read_high = (fst tiers \<ge> 5);
             failed = verify_failed_in_pairs ci (cs_prev_calls st) (cs_prev_results st);
             assumed_linear = (ci_scope_mode ci = ''workflow_linear'')
         in sbind (next_level (cs_expansion st) (snd tiers) read_high failed assumed_linear, st) (\<lambda>decision st.
            let level_from = xs_level (cs_expansion st);
                level_to = (case decision of Some d \<Rightarrow> xd_level_to d | None \<Rightarrow> level_from)
            in sbind (entry_skill ci reads decision st) (\<lambda>skill st.
            let render = build_observation_block level_from level_to decision (snd tiers) skill (cs_exhausted st)
                           (cs_skill_name st) None
            in sbind (expansion_state_init level_to reads writes, st) (\<lambda>xs st.
            let st = st\<lparr>cs_expansion := xs\<rparr> in
            sbind (if level_to \<noteq> level_from
                   then log_transition level_from level_to decision (int (card reads)) (int (card writes)) tiers st
                   else sbind (near_miss_evidence xs (int (card reads)) (int (card writes)) (snd tiers) read_high failed, st) log_near_miss)
              (\<lambda>_ st. (Inr render, st)))))))"

section \<open>Composition\<close>

definition tool_payload_of :: "'w coder_input \<Rightarrow> json list" where
  "tool_payload_of ci = render_tool_specs (registry_specs (ci_registry ci))"

definition base_system_of :: "'w coder_input \<Rightarrow> string" where
  "base_system_of ci = dict_get_default (ci_role_prompts ci) (ci_role ci) (dict_get_default (ci_role_prompts ci) ''coder'' [])"

definition prompt_caching_of :: "'w coder_input \<Rightarrow> bool" where
  "prompt_caching_of ci = (case ci_flags ci of Some f \<Rightarrow> ff_prompt_caching f | None \<Rightarrow> ci_disk_caching ci)"

definition turn_context_of :: "'w coder_input \<Rightarrow> string \<Rightarrow> string" where
  "turn_context_of ci observation_context =
     (if observation_context \<noteq> [] then py_strip (ci_turn_context ci @ nl @ nl @ observation_context) else ci_turn_context ci)"

text \<open>What a turn fixes for its compositions: pinned text, turn context, conditional skills.\<close>

record turn_fixed =
  tf_pinned :: string
  tf_context :: string
  tf_skills :: "json list"

definition compose_request_payload ::
  "'w coder_input \<Rightarrow> turn_fixed \<Rightarrow> string \<Rightarrow> json_obj list \<Rightarrow> provider_error + (json_obj list \<times> json_obj)" where
  "compose_request_payload ci tf active_summary observations =
     (case build_prompt_parts_v2 (ci_sha ci) (ci_fr ci) (base_system_of ci) (tf_pinned tf)
             (map obj_or_empty (tool_payload_of ci)) (ci_role ci) (tf_skills tf) active_summary (ci_task ci)
             observations (tf_context tf) of
        Inl e \<Rightarrow> Inl e
      | Inr (parts, cache_key) \<Rightarrow>
         (let (messages, extras) =
                (if cc_family (pc_config (ci_chain ci)) = ''anthropic''
                 then (to_anthropic_request_v2 (prompt_caching_of ci) parts, [])
                 else to_openai_request_v2 parts cache_key)
          in case assert_final_role_invariant (ci_fr ci) messages of
               Inl e \<Rightarrow> Inl (Raised e) | Inr _ \<Rightarrow> Inr (messages, extras)))"

text \<open>\<open>str(exc)\<close> of an exception raised by composition.\<close>

definition perr_text :: "provider_error \<Rightarrow> string" where
  "perr_text e = (case e of
     ProviderTransientError m _ _ _ \<Rightarrow> m | ProviderAuthError m _ \<Rightarrow> m
   | ProviderRequestShapeError m _ _ _ _ \<Rightarrow> m | ProviderChainExhaustedError m _ _ \<Rightarrow> m | Raised x \<Rightarrow> exn_msg x)"

section \<open>Context budget\<close>

text \<open>The variables the budget gate works on.\<close>

record 'w gate =
  ga_st :: "'w coder_state"
  ga_messages :: "json_obj list"
  ga_extras :: json_obj
  ga_usage :: int
  ga_decision :: budget_report

definition usage_of :: "'w coder_input \<Rightarrow> json_obj list \<Rightarrow> int" where
  "usage_of ci messages = int (estimate_tokens (ci_fr ci) messages (JList (tool_payload_of ci)) None)"

definition report_json :: "budget_report \<Rightarrow> json_obj" where
  "report_json r = [(''action'', JStr (br_action r)), (''ratio'', JFloat (br_ratio r)), (''message'', JStr (br_message r)),
     (''current_tokens'', JInt (br_current_tokens r)), (''limit_tokens'', JInt (br_limit_tokens r)),
     (''threshold'', JInt (br_threshold r)), (''warning_threshold'', JInt (br_warning_threshold r)),
     (''stage2_threshold'', JInt (br_stage2_threshold r)), (''stage3_threshold'', JInt (br_stage3_threshold r))]"

definition gate_log :: "string \<Rightarrow> json_obj \<Rightarrow> 'w gate \<Rightarrow> unit py_result \<times> 'w gate" where
  "gate_log kind content g =
     (case log_append ''runtime'' kind content (ga_st g) of (r, st) \<Rightarrow> (r, g\<lparr>ga_st := st\<rparr>))"

definition gate_stop :: "string \<Rightarrow> 'w gate \<Rightarrow> (session_outcome + 'a) py_result \<times> 'w gate" where
  "gate_stop final g =
     (case stop_with [(''reason'', JStr ''context_budget_hard_stop''), (''turns'', JInt (int (cs_turn (ga_st g))))]
             1 ''context_budget_hard_stop'' final (ga_st g) of (r, st) \<Rightarrow> (r, g\<lparr>ga_st := st\<rparr>))"

definition hard_stop :: "'w gate \<Rightarrow> (session_outcome + 'a) py_result \<times> 'w gate" where
  "hard_stop g =
     sbind (gate_log ''context_budget_hard_stop'' (report_json (ga_decision g)) g) (\<lambda>_ g.
       gate_stop (br_message (ga_decision g)) g)"

definition gate_compose ::
  "'w coder_input \<Rightarrow> turn_fixed \<Rightarrow> string \<Rightarrow> json_obj list \<Rightarrow> 'w gate \<Rightarrow> unit py_result \<times> 'w gate" where
  "gate_compose ci tf summary observations g =
     (case compose_request_payload ci tf summary observations of
        Inl (Raised e) \<Rightarrow> (Inl e, g)
      | Inl e \<Rightarrow> (Inl (Exn (OtherError ''ProviderError'') (perr_text e)), g)
      | Inr (messages, extras) \<Rightarrow> (Inr (), g\<lparr>ga_messages := messages, ga_extras := extras\<rparr>))"

definition artifact_api :: "'w coder_input \<Rightarrow> artifact_store store_api" where
  "artifact_api ci = \<lparr>sa_put = Some (artifact_put (ci_sha ci) (ci_fr ci)), sa_write = None\<rparr>"

definition stage2_body :: "'w coder_input \<Rightarrow> turn_fixed \<Rightarrow> 'w gate \<Rightarrow> unit py_result \<times> 'w gate" where
  "stage2_body ci tf g =
     (case project_messages_after_mask (cs_history (ga_st g)) (Some (artifact_api ci)) 4 (cs_store (ga_st g)) of
        (r, store) \<Rightarrow>
          (let g = g\<lparr>ga_st := (ga_st g)\<lparr>cs_store := store\<rparr>\<rparr> in
           sbind (r, g) (\<lambda>masked g.
           sbind (gate_compose ci tf (cs_summary (ga_st g)) masked g) (\<lambda>_ g.
           let post = usage_of ci (ga_messages g) in
           sbind (gate_log ''compaction_stage2_done''
                    [(''tokens_before'', JInt (ga_usage g)), (''tokens_after'', JInt post)] g) (\<lambda>_ g.
             (Inr (), g\<lparr>ga_st := (ga_st g)\<lparr>cs_history := masked\<rparr>, ga_usage := post,
                        ga_decision := budget_check (cs_budget (ga_st g)) post\<rparr>))))))"

text \<open>\<open>except Exception\<close> around a compaction stage.\<close>

definition stage_handler ::
  "string \<Rightarrow> 'a \<Rightarrow> 'a py_result \<times> 'w gate \<Rightarrow> 'a py_result \<times> 'w gate" where
  "stage_handler kind skip m =
     (case m of
        (Inl e, g) \<Rightarrow>
          (if is_Exception e
           then sbind (gate_log kind [(''error'', JStr (exn_msg e))] g) (\<lambda>_ g. (Inr skip, g))
           else (Inl e, g))
      | r \<Rightarrow> r)"

definition call_line :: "(rat \<Rightarrow> string) \<Rightarrow> json \<Rightarrow> string py_result" where
  "call_line fr tc =
     (case (case tc of JObj c \<Rightarrow> dict_get_default c ''function'' (JObj []) | _ \<Rightarrow> JObj []) of
        JObj f \<Rightarrow> Inr (''CALL TOOL: '' @ json_str fr (msg_get f ''name'') @ '' with arguments '' @ json_str fr (msg_get f ''arguments''))
      | v \<Rightarrow> Inl (no_attribute (json_type_name v) ''get''))"

definition message_lines :: "(rat \<Rightarrow> string) \<Rightarrow> json_obj \<Rightarrow> string list py_result" where
  "message_lines fr m =
     (case dict_get_default m ''role'' (JStr ''unknown'') of
        JStr role \<Rightarrow>
          (let content = (if json_truthy (msg_get m ''content'') then msg_get m ''content'' else or_empty (msg_get m ''text''));
               line = py_upper role @ '': '' @ json_str fr content
           in case map_of m ''tool_calls'' of
                None \<Rightarrow> Inr [line]
              | Some calls \<Rightarrow> rbind (json_iter calls) (\<lambda>tcs. rbind (rmap (call_line fr) tcs) (\<lambda>ls. Inr (line # ls))))
      | v \<Rightarrow> Inl (no_attribute (json_type_name v) ''upper''))"

definition older_history_text :: "(rat \<Rightarrow> string) \<Rightarrow> string \<Rightarrow> json_obj list \<Rightarrow> string py_result" where
  "older_history_text fr memory_summary older =
     rbind (rmap (message_lines fr) older) (\<lambda>lss.
       Inr ((if memory_summary \<noteq> []
             then ''PREVIOUS COMPACTION SUMMARY:'' @ nl @ memory_summary @ nl @ nl @ ''NEW CONVERSATION TO ADD:'' @ nl
             else []) @ py_join nl (concat lss)))"

definition breaker_message :: string where
  "breaker_message = ''Compaction circuit breaker triggered: anti-thrashing loop locked.''"

definition run_compactor :: "'w coder_input \<Rightarrow> string \<Rightarrow> 'w gate \<Rightarrow> string py_result \<times> 'w gate" where
  "run_compactor ci history g =
     (let st = ga_st g in
      case compact (ci_compactor ci) history (cs_compactor_cds st, env_of st) of
        (r, cds, w) \<Rightarrow> (r, g\<lparr>ga_st := set_env w (st\<lparr>cs_compactor_cds := cds\<rparr>)\<rparr>))"

text \<open>The end of stage 3: the circuit breaker, or the compacted conversation takes over.\<close>

definition stage3_end :: "string \<Rightarrow> json_obj list \<Rightarrow> int \<Rightarrow> 'w gate \<Rightarrow> (session_outcome + unit) py_result \<times> 'w gate" where
  "stage3_end updated protected post g =
     (case record_compaction_attempt (ga_usage g) post (cs_budget (ga_st g)) of
        (is_ok, budget) \<Rightarrow>
          (let g = g\<lparr>ga_st := (ga_st g)\<lparr>cs_budget := budget\<rparr>\<rparr> in
           if \<not> is_ok
           then sbind (gate_log ''compaction_circuit_breaker'' [(''message'', JStr breaker_message)] g) (\<lambda>_ g.
                sbind (gate_log ''context_budget_hard_stop''
                   [(''message'', JStr breaker_message), (''current_tokens'', JInt post),
                    (''limit_tokens'', JInt (cb_limit_tokens budget)), (''threshold'', JInt (cb_stage3_threshold budget))] g)
                  (\<lambda>_ g. gate_stop breaker_message g))
           else (Inr (Inr ()), g\<lparr>ga_st := (ga_st g)\<lparr>cs_history := protected, cs_summary := updated\<rparr>,
                                 ga_usage := post, ga_decision := budget_check budget post\<rparr>)))"

definition stage3_body ::
  "'w coder_input \<Rightarrow> turn_fixed \<Rightarrow> 'w gate \<Rightarrow> (session_outcome + unit) py_result \<times> 'w gate" where
  "stage3_body ci tf g =
     (let history = cs_history (ga_st g); cutoff = find_turn_boundary_backward history 4;
          older = take cutoff history; protected = drop cutoff history
      in sbind (older_history_text (ci_fr ci) (cs_summary (ga_st g)) older, g) (\<lambda>t g.
         if t = [] then (Inr (Inr ()), g)
         else
         sbind (run_compactor ci t g) (\<lambda>updated g.
         sbind (gate_compose ci tf updated protected g) (\<lambda>_ g.
         let post = usage_of ci (ga_messages g) in
         sbind (gate_log ''compaction_stage3_done''
             [(''tokens_before'', JInt (ga_usage g)), (''tokens_after'', JInt post), (''summary'', JStr updated)] g) (\<lambda>_ g.
           stage3_end updated protected post g)))))"

definition compaction_stages ::
  "'w coder_input \<Rightarrow> turn_fixed \<Rightarrow> 'w gate \<Rightarrow> (session_outcome + unit) py_result \<times> 'w gate" where
  "compaction_stages ci tf g =
     sbind (gate_log ''compaction_stage2_start''
         [(''tokens_before'', JInt (ga_usage g)), (''threshold'', JInt (cb_stage2_threshold (cs_budget (ga_st g))))] g) (\<lambda>_ g.
     sbind (stage_handler ''compaction_stage2_error'' () (stage2_body ci tf g)) (\<lambda>_ g.
     ebind (if br_action (ga_decision g) = ''stage3''
            then sbind (gate_log ''compaction_stage3_start''
                   [(''tokens_before'', JInt (ga_usage g)), (''threshold'', JInt (cb_stage3_threshold (cs_budget (ga_st g))))] g)
                   (\<lambda>_ g. stage_handler ''compaction_stage3_error'' (Inr ()) (stage3_body ci tf g))
            else (Inr (Inr ()), g)) (\<lambda>_ g.
     if br_action (ga_decision g) = ''stage3'' then hard_stop g else (Inr (Inr ()), g))))"

definition pressure :: "'w coder_input \<Rightarrow> turn_fixed \<Rightarrow> 'w gate \<Rightarrow> (session_outcome + unit) py_result \<times> 'w gate" where
  "pressure ci tf g =
     (let enabled = (cc_compaction_threshold (pc_config (ci_chain ci)) \<noteq> None);
          action = br_action (ga_decision g); b = cs_budget (ga_st g)
      in sbind (gate_log ''compaction_warning''
             [(''action'', JStr action), (''compaction_enabled'', JBool enabled), (''ratio'', JFloat (br_ratio (ga_decision g))),
              (''threshold'', JInt (if action = ''stage2'' then cb_stage2_threshold b else cb_stage3_threshold b))] g) (\<lambda>_ g.
         if \<not> enabled
         then (if action = ''stage2''
               then sbind (gate_log ''context_budget_warn'' (report_json (ga_decision g)) g) (\<lambda>_ g. (Inr (Inr ()), g))
               else hard_stop g)
         else compaction_stages ci tf g))"

definition budget_gate ::
  "'w coder_input \<Rightarrow> turn_fixed \<Rightarrow> json_obj list \<times> json_obj \<Rightarrow> 'w coder_state
     \<Rightarrow> (session_outcome + json_obj list \<times> json_obj) py_result \<times> 'w coder_state" where
  "budget_gate ci tf request st =
     (case request of (messages, extras) \<Rightarrow>
       if \<not> (case ci_flags ci of Some f \<Rightarrow> ff_context_budget_enabled f | None \<Rightarrow> True)
       then (Inr (Inr (messages, extras)), st)
       else
         (let usage = usage_of ci messages; decision = budget_check (cs_budget st) usage;
              g = \<lparr>ga_st = st, ga_messages = messages, ga_extras = extras, ga_usage = usage, ga_decision = decision\<rparr>
          in case (if br_action decision = ''warn''
                   then sbind (gate_log ''context_budget_warn'' (report_json decision) g) (\<lambda>_ g. (Inr (Inr ()), g))
                   else if br_action decision \<in> {''stage2'', ''stage3''} then pressure ci tf g
                   else (Inr (Inr ()), g)) of
               (Inl e, g) \<Rightarrow> (Inl e, ga_st g)
             | (Inr (Inl out), g) \<Rightarrow> (Inr (Inl out), ga_st g)
             | (Inr (Inr _), g) \<Rightarrow> (Inr (Inr (ga_messages g, ga_extras g)), ga_st g)))"

end
