(* ===== verification/Coder_Session.thy ===== *)
theory Coder_Session
  imports Coder_Loop
begin

text \<open>
  The turns of \<open>drive_session\<close> (\<open>inner_loop/coder_loop.py\<close>): the request with its cooldown waits, the
  answer, the batch of tool calls, and the loop over the turns. The provider chain is the argument \<open>req\<close>
  of the turn functions; \<open>drive_session\<close> puts \<open>chain_request\<close> of theory \<open>Provider_Chain\<close> there.
\<close>

section \<open>The request\<close>

type_synonym 'w requester = "request_info \<Rightarrow> ledger \<times> 'w \<Rightarrow> chain_outcome \<times> (ledger \<times> 'w)"

definition on_chain :: "'w requester \<Rightarrow> request_info \<Rightarrow> 'w coder_state \<Rightarrow> chain_outcome \<times> 'w coder_state" where
  "on_chain req rq st =
     (case req rq (cs_cds st, env_of st) of (r, cds, w) \<Rightarrow> (r, set_env w (st\<lparr>cs_cds := cds\<rparr>)))"

definition opt_text :: "string option \<Rightarrow> json" where
  "opt_text x = (case x of None \<Rightarrow> JNull | Some t \<Rightarrow> JStr t)"

definition attempt_row :: "chain_attempt \<Rightarrow> json_obj" where
  "attempt_row a = [(''provider'', JStr (ca_provider a)), (''slug'', JStr (ca_slug a)), (''status'', JInt (ca_status a)),
     (''ms'', JInt (ca_ms a)), (''error'', opt_text (ca_error a))]"

fun log_attempts :: "string \<Rightarrow> chain_attempt list \<Rightarrow> 'w coder_state \<Rightarrow> unit py_result \<times> 'w coder_state" where
  "log_attempts call_id [] st = (Inr (), st)"
| "log_attempts call_id (a # as) st =
     sbind (log_append ''provider'' ''provider_attempt'' (attempt_row a @ [(''logical_call_id'', JStr call_id)]) st)
       (\<lambda>_ st. log_attempts call_id as st)"

text \<open>\<open>min\<close> over the cooldowns that are still running at \<open>now\<close>, in seconds from now.\<close>

fun pyfloat_min :: "pyfloat \<Rightarrow> pyfloat \<Rightarrow> pyfloat" where
  "pyfloat_min (Fin x) (Fin y) = (if y < x then Fin y else Fin x)"
| "pyfloat_min (Fin x) _ = Fin x"
| "pyfloat_min _ y = y"

definition active_cooldowns :: "rat \<Rightarrow> ledger \<Rightarrow> pyfloat list" where
  "active_cooldowns now cds =
     List.map_filter (\<lambda>(_, row). if pyfloat_gt (cd_expires_at row) now
       then Some (case cd_expires_at row of Fin x \<Rightarrow> Fin (x - now) | x \<Rightarrow> x) else None) cds"

definition wait_seconds :: "bool \<Rightarrow> rat \<Rightarrow> ledger \<Rightarrow> pyfloat" where
  "wait_seconds pytest now cds =
     (if pytest then Fin (1 / 100)
      else case active_cooldowns now cds of
          [] \<Rightarrow> Fin 5
        | x # xs \<Rightarrow> (case fold (\<lambda>y m. pyfloat_min m y) xs x of Fin s \<Rightarrow> Fin (max 1 s) | y \<Rightarrow> y))"

definition wait_for_cooldown :: "'w coder_input \<Rightarrow> 'w coder_state \<Rightarrow> unit py_result \<times> 'w coder_state" where
  "wait_for_cooldown ci st =
     (case ci_now ci (env_of st) of (now, w) \<Rightarrow>
       (case ci_sleep ci (wait_seconds (ci_pytest ci) now (cs_cds st)) w of (r, w) \<Rightarrow> (r, set_env w st)))"

text \<open>One request; the attempts of an exhausted chain are logged.\<close>

definition request_attempt :: "'w requester \<Rightarrow> request_info \<Rightarrow> 'w coder_state \<Rightarrow> chain_outcome \<times> 'w coder_state" where
  "request_attempt req rq st =
     (case on_chain req rq st of
        (Inl (ProviderChainExhaustedError m as cid), st) \<Rightarrow>
          (case log_attempts cid as st of
             (Inl e, st) \<Rightarrow> (Inl (Raised e), st)
           | (Inr _, st) \<Rightarrow> (Inl (ProviderChainExhaustedError m as cid), st))
      | r \<Rightarrow> r)"

text \<open>The retry loop with the given number of further attempts after a wait.\<close>

primrec request_retry ::
  "'w coder_input \<Rightarrow> 'w requester \<Rightarrow> request_info \<Rightarrow> nat \<Rightarrow> 'w coder_state \<Rightarrow> chain_outcome \<times> 'w coder_state" where
  "request_retry ci req rq 0 st = request_attempt req rq st"
| "request_retry ci req rq (Suc n) st =
     (case request_attempt req rq st of
        (Inl (ProviderChainExhaustedError m as cid), st) \<Rightarrow>
          (case wait_for_cooldown ci st of
             (Inl e, st) \<Rightarrow> (Inl (Raised e), st)
           | (Inr _, st) \<Rightarrow> request_retry ci req rq n st)
      | r \<Rightarrow> r)"

definition PER_TURN_CHAIN_RETRIES :: nat where
  "PER_TURN_CHAIN_RETRIES = 3"

definition llm_call_row :: "'w coder_input \<Rightarrow> response_info \<Rightarrow> string \<Rightarrow> chain_attempt list \<Rightarrow> json_obj" where
  "llm_call_row ci r call_id as =
     [(''logical_call_id'', JStr call_id), (''role'', JStr (ci_role ci)),
      (''model'', JStr (cc_name (pc_config (ci_chain ci)))), (''family'', JStr (ci_family ci)),
      (''chain'', JList (map (\<lambda>a. JObj (attempt_row a)) as)), (''in_tokens'', JInt (rs_in_tokens r)),
      (''out_tokens'', JInt (rs_out_tokens r)), (''wallclock_ms'', JInt (sum_list (map ca_ms as)))]"

definition request_info_of :: "'w coder_input \<Rightarrow> json_obj list \<times> json_obj \<Rightarrow> request_info" where
  "request_info_of ci request =
     \<lparr>rq_model_slug = cc_name (pc_config (ci_chain ci)), rq_messages = fst request, rq_temperature = ci_temperature ci,
      rq_max_tokens = JInt (ci_max_tokens ci), rq_top_p = JNull, rq_tools = map obj_or_empty (tool_payload_of ci),
      rq_extras = snd request, rq_thinking_mode = ''thinking''\<rparr>"

text \<open>The body of the \<open>try\<close> around the request.\<close>

definition request_response ::
  "'w coder_input \<Rightarrow> 'w requester \<Rightarrow> json_obj list \<times> json_obj \<Rightarrow> 'w coder_state
     \<Rightarrow> (provider_error + response_info) \<times> 'w coder_state" where
  "request_response ci req request st =
     (case request_retry ci req (request_info_of ci request) (PER_TURN_CHAIN_RETRIES - 1) st of
        (Inl e, st) \<Rightarrow> (Inl e, st)
      | (Inr (r, call_id, as), st) \<Rightarrow>
          (case sbind (log_attempts call_id as st) (\<lambda>_ st.
                sbind (log_append ''provider'' ''llm_call'' (llm_call_row ci r call_id as) st) (\<lambda>_ st.
                record_usage r st)) of
             (Inl e, st) \<Rightarrow> (Inl (Raised e), st)
           | (Inr _, st) \<Rightarrow> (Inr r, st)))"

definition count_exhaustion :: "'w coder_state \<Rightarrow> 'w coder_state" where
  "count_exhaustion st =
     (let st = st\<lparr>cs_exhaustions := cs_exhaustions st + 1\<rparr> in
      st\<lparr>cs_ls := ls_update (\<lambda>s. s\<lparr>ss_log := map_option
           (\<lambda>l. l\<lparr>el_chain_exhaustion_count := el_chain_exhaustion_count l + 1\<rparr>) (ss_log s)\<rparr>) (cs_ls st)\<rparr>)"

definition max_chain_retries_of :: "'w coder_input \<Rightarrow> int" where
  "max_chain_retries_of ci = (case ci_flags ci of Some f \<Rightarrow> ff_max_chain_retries f | None \<Rightarrow> 0)"

text \<open>The \<open>except\<close> clauses of the request. \<open>Inr None\<close> is \<open>continue\<close>, back to the head of the loop.\<close>

definition handle_request ::
  "'w coder_input \<Rightarrow> (provider_error + response_info) \<times> 'w coder_state
     \<Rightarrow> (session_outcome + response_info option) py_result \<times> 'w coder_state" where
  "handle_request ci m =
     (case m of
        (Inr r, st) \<Rightarrow> (Inr (Inr (Some r)), st)
      | (Inl (ProviderChainExhaustedError msg as cid), st) \<Rightarrow>
          sbind (log_attempts cid as st) (\<lambda>_ st.
            let st = count_exhaustion st in
            if cs_exhaustions st \<le> max_chain_retries_of ci then (Inr (Inr None), st)
            else stop_with [(''reason'', JStr ''chain_exhausted''), (''detail'', JStr msg)] 2 ''chain_exhausted'' [] st)
      | (Inl (ProviderRequestShapeError msg a b c d), st) \<Rightarrow> request_shape_failure msg st
      | (Inl (ProviderTransientError msg a b c), st) \<Rightarrow> (Inl (Exn (OtherError ''ProviderTransientError'') msg), st)
      | (Inl (ProviderAuthError msg a), st) \<Rightarrow> (Inl (Exn (OtherError ''ProviderAuthError'') msg), st)
      | (Inl (Raised e), st) \<Rightarrow>
          (if exn_class e = KeyboardInterrupt
           then stop_with [(''reason'', JStr ''abnormal_stop:interrupt'')] 130 ''abnormal_stop:interrupt'' [] st
           else (Inl e, st)))"

section \<open>Hooks around the request\<close>

definition hook_gate ::
  "'w coder_input \<Rightarrow> lifecycle_point \<Rightarrow> 'w coder_state \<Rightarrow> (session_outcome + unit) py_result \<times> 'w coder_state" where
  "hook_gate ci point st =
     try_permission (on_ls (ls_dispatch point (llm_payload ci)) st)
       (\<lambda>reason st. stop_with [(''reason'', JStr (''hook_deny:'' @ point_value point)), (''detail'', JStr reason)]
                      1 (''hook_deny:'' @ point_value point) [] st)
       (\<lambda>_ st. (Inr (Inr ()), st))"

section \<open>The answer\<close>

definition message_extras :: "response_info \<Rightarrow> json_obj py_result" where
  "message_extras r =
     (case map_of (rs_extras r) ''message_extras'' of
        None \<Rightarrow> Inr [] | Some (JObj kvs) \<Rightarrow> Inr kvs | Some v \<Rightarrow> Inl (no_attribute (json_type_name v) ''items''))"

definition assistant_message :: "(rat \<Rightarrow> string) \<Rightarrow> response_info \<Rightarrow> tool_call list \<Rightarrow> json_obj py_result" where
  "assistant_message fr r calls =
     rbind (message_extras r) (\<lambda>extras.
       let m = dict_update [(''role'', JStr ''assistant''), (''content'', JStr (rs_text r))] extras in
       Inr (if calls \<noteq> []
            then AList.update ''tool_calls'' (JList (tool_calls_for_message fr (rs_tool_calls r) calls)) m else m))"

definition model_msg_content :: "response_info \<Rightarrow> json_obj" where
  "model_msg_content r =
     [(''text'', JStr (rs_text r)), (''tool_calls'', JList (rs_tool_calls r)), (''finish_reason'', JStr (rs_finish_reason r)),
      (''in_tokens'', JInt (rs_in_tokens r)), (''cache_read_input_tokens'', JInt (rs_cache_read_input_tokens r)),
      (''cache_creation_input_tokens'', JInt (rs_cache_creation_input_tokens r)), (''out_tokens'', JInt (rs_out_tokens r))]"

text \<open>The calls of the answer, which is now in the history and in the log.\<close>

definition take_answer :: "'w coder_input \<Rightarrow> response_info \<Rightarrow> 'w coder_state \<Rightarrow> tool_call list py_result \<times> 'w coder_state" where
  "take_answer ci r st =
     sbind (build_tool_calls (ci_fr ci) (ci_json_loads ci) (rs_tool_calls r), st) (\<lambda>calls st.
     sbind (assistant_message (ci_fr ci) r calls, st) (\<lambda>m st.
     sbind (log_append ''model'' ''model_msg'' (model_msg_content r) (st\<lparr>cs_history := cs_history st @ [m]\<rparr>)) (\<lambda>_ st.
       (Inr calls, st))))"

definition TERMINAL_FINISH_REASONS :: "string list" where
  "TERMINAL_FINISH_REASONS = [''stop'', ''end_turn'']"

definition terminal_finish :: "response_info \<Rightarrow> bool" where
  "terminal_finish r \<longleftrightarrow> rs_finish_reason r \<in> set TERMINAL_FINISH_REASONS \<or> rs_finish_reason r = []"

definition stop_without_calls ::
  "response_info \<Rightarrow> 'w coder_state \<Rightarrow> (session_outcome + 'a) py_result \<times> 'w coder_state" where
  "stop_without_calls r st =
     (if terminal_finish r
      then sbind (finish (outcome 0 ''stopped_by_llm'' (rs_text r) st) st) (\<lambda>out st. (Inr (Inl out), st))
      else stop_with [(''reason'', JStr (''abnormal_stop:'' @ rs_finish_reason r))] 1
             (''abnormal_stop:'' @ rs_finish_reason r) (rs_text r) st)"
section \<open>The batch of tool calls\<close>

definition effective_limit :: "'w coder_input \<Rightarrow> int" where
  "effective_limit ci = rl_max_iterations (case ci_limits ci of Some l \<Rightarrow> l | None \<Rightarrow> anchored_defaults)"

definition run_batch_of_calls ::
  "'w coder_input \<Rightarrow> tool_call list \<Rightarrow> 'w coder_state \<Rightarrow> session_run py_result \<times> 'w coder_state" where
  "run_batch_of_calls ci calls st =
     on_ls (run_session (ci_registry ci) (ci_role ci) (ci_family ci) (effective_limit ci) (ci_pools ci (cs_turn st)) calls) st"

text \<open>Stops that end the session: a denial after a tool, and a trip of the loop guard.\<close>

definition ends_session :: "stop_info option \<Rightarrow> bool" where
  "ends_session stop =
     (case stop of
        None \<Rightarrow> False
      | Some s \<Rightarrow> si_point s = point_value AFTER_TOOL_EXEC \<or>
          (si_point s = point_value BETWEEN_ROUNDS \<and> prefix LOOP_GUARD_REASON_PREFIX (si_reason s)))"

definition observe_stop :: "stop_info option \<Rightarrow> 'w coder_state \<Rightarrow> 'w coder_state" where
  "observe_stop stop st =
     (case stop of
        None \<Rightarrow> st
      | Some s \<Rightarrow> st\<lparr>cs_ls := ls_update (\<lambda>ss. ss\<lparr>ss_observations := ss_observations ss @
            [''run stopped at '' @ si_point s @ '': '' @ si_reason s]\<rparr>) (cs_ls st)\<rparr>)"

text \<open>Why calls were skipped, from the rows of the batch, and the result that stands for them.\<close>

definition skip_reason :: "'w coder_input \<Rightarrow> trace_event list \<Rightarrow> string \<times> string" where
  "skip_reason ci new_rows =
     (let capped = (''iteration_cap'', ''tool call skipped: per-turn iteration limit ('' @ int_str (effective_limit ci) @ '') exceeded'')
      in case find (\<lambda>row. ev_kind row = ''run_stopped'') (rev new_rows) of
           None \<Rightarrow> capped
         | Some row \<Rightarrow>
             (let reason = json_str (ci_fr ci) (dict_get_default (ev_content row) ''reason'' (JStr [])) in
              if prefix ''iteration_cap'' reason then capped
              else (''run_stopped'', ''tool call skipped: session stopped - '' @ reason)))"

fun record_skipped :: "(tool_call \<times> tool_result) list \<Rightarrow> 'w coder_state \<Rightarrow> unit py_result \<times> 'w coder_state" where
  "record_skipped [] st = (Inr (), st)"
| "record_skipped ((call, result) # rest) st =
     sbind (on_ls (ls_session (record_tool_call call)) st) (\<lambda>_ st.
     sbind (on_ls (ls_session (record_tool_result call result)) st) (\<lambda>_ st.
       record_skipped rest st))"

definition pad_results ::
  "'w coder_input \<Rightarrow> nat \<Rightarrow> tool_call list \<Rightarrow> tool_result list \<Rightarrow> 'w coder_state \<Rightarrow> tool_result list py_result \<times> 'w coder_state" where
  "pad_results ci log_len_before calls results st =
     (if length calls \<le> length results then (Inr results, st)
      else case skip_reason ci (drop log_len_before (log_events st)) of
        (code, detail) \<Rightarrow>
          sbind (tool_result_fail code detail True None, st) (\<lambda>synthetic st.
            let padded = results @ replicate (length calls - length results) synthetic in
            sbind (record_skipped (drop (length results) (zip calls padded)) st) (\<lambda>_ st. (Inr padded, st))))"

definition budget_exhausted :: "tool_result list \<Rightarrow> bool" where
  "budget_exhausted results =
     list_ex (\<lambda>r. case tr_error r of None \<Rightarrow> False | Some e \<Rightarrow> te_code e = ''workflow_budget_exhausted'') results"

definition latch_exhausted :: "tool_result list \<Rightarrow> 'w coder_state \<Rightarrow> unit py_result \<times> 'w coder_state" where
  "latch_exhausted results st =
     (if \<not> cs_exhausted st \<and> budget_exhausted results
      then log_append ''harness'' ''expansion_exhausted'' [(''turn'', JInt (int (cs_turn st)))] (st\<lparr>cs_exhausted := True\<rparr>)
      else (Inr (), st))"

text \<open>Message texts are Latin-1 strings; a code point above 255 is written as a question mark.\<close>

definition latin1 :: "ustr \<Rightarrow> string" where
  "latin1 t = map (\<lambda>c. if c < 256 then char_of c else CHR ''?'') t"

definition redact_text :: "'w coder_input \<Rightarrow> string \<Rightarrow> string" where
  "redact_text ci t = (case ci_redactor ci of None \<Rightarrow> t | Some r \<Rightarrow> r t)"

definition tool_message :: "tool_call \<Rightarrow> string \<Rightarrow> json_obj" where
  "tool_message call t = [(''role'', JStr ''tool''), (''tool_call_id'', JStr (tc_call_id call)), (''content'', JStr t)]"

definition append_tool_message :: "'w coder_input \<Rightarrow> tool_call \<Rightarrow> tool_result \<Rightarrow> 'w coder_state \<Rightarrow> unit py_result \<times> 'w coder_state" where
  "append_tool_message ci call result st =
     sbind (projection_spec_for_call (ci_registry ci) call, st) (\<lambda>spec st.
       case project_for_model (ci_sha ci) (ci_fr ci) spec result (cs_store st) of
         (Inl e, store) \<Rightarrow> (Inl e, st\<lparr>cs_store := store\<rparr>)
       | (Inr t, store) \<Rightarrow>
           (Inr (), st\<lparr>cs_store := store,
                       cs_history := cs_history st @ [tool_message call (redact_text ci (latin1 t))]\<rparr>))"

fun append_tool_messages ::
  "'w coder_input \<Rightarrow> tool_call list \<Rightarrow> tool_result list \<Rightarrow> 'w coder_state \<Rightarrow> unit py_result \<times> 'w coder_state" where
  "append_tool_messages ci [] [] st = (Inr (), st)"
| "append_tool_messages ci (call # calls) (result # results) st =
     sbind (append_tool_message ci call result st) (\<lambda>_ st. append_tool_messages ci calls results st)"
| "append_tool_messages ci _ _ st = (Inl (Exn ValueError ''zip() arguments have different lengths''), st)"

datatype turn_end = NextTurn | StopLoop

definition collect_results :: "tool_call list \<Rightarrow> tool_result list \<Rightarrow> 'w coder_state \<Rightarrow> 'w coder_state" where
  "collect_results calls results st =
     st\<lparr>cs_results := cs_results st @ results, cs_prev_calls := calls, cs_prev_results := results\<rparr>"

definition tool_phase :: "'w coder_input \<Rightarrow> tool_call list \<Rightarrow> 'w coder_state \<Rightarrow> turn_end py_result \<times> 'w coder_state" where
  "tool_phase ci calls st =
     (let log_len_before = length (log_events st) in
      sbind (run_batch_of_calls ci calls st) (\<lambda>run st.
        if ends_session (sr_stop run) then (Inr StopLoop, observe_stop (sr_stop run) st)
        else
          sbind (pad_results ci log_len_before calls (sr_results run) st) (\<lambda>results st.
          sbind (latch_exhausted results (collect_results calls results st)) (\<lambda>_ st.
          sbind (append_tool_messages ci calls results st) (\<lambda>_ st. (Inr NextTurn, st))))))"

section \<open>A turn\<close>

text \<open>The invariant assertion, turned into a request-shape stop.\<close>

definition pairing_gate :: "'w coder_input \<Rightarrow> 'w coder_state \<Rightarrow> (session_outcome + unit) py_result \<times> 'w coder_state" where
  "pairing_gate ci st =
     (case assert_tool_pairing_invariant (ci_fr ci) (cs_history st) of
        Inr _ \<Rightarrow> (Inr (Inr ()), st)
      | Inl e \<Rightarrow>
          (if exn_class e = OtherError ''AssertionError''
           then request_shape_failure ''history pairing invariant violated: orphaned/duplicate tool calls in conversation history'' st
           else (Inl e, st)))"

definition compose_gate ::
  "'w coder_input \<Rightarrow> turn_fixed \<Rightarrow> 'w coder_state \<Rightarrow> (session_outcome + json_obj list \<times> json_obj) py_result \<times> 'w coder_state" where
  "compose_gate ci tf st =
     (case compose_request_payload ci tf (cs_summary st) (cs_history st) of
        Inr request \<Rightarrow> (Inr (Inr request), st)
      | Inl (Raised e) \<Rightarrow> (Inl e, st)
      | Inl e \<Rightarrow> request_shape_failure (perr_text e) st)"

definition turn_fixed_of :: "'w coder_input \<Rightarrow> json list \<Rightarrow> observation_render \<Rightarrow> 'w coder_state \<Rightarrow> turn_fixed" where
  "turn_fixed_of ci ceremony render st =
     \<lparr>tf_pinned = extract_pinned_content (ci_sha ci) (ci_pinned ci (env_of st)) (ci_system_extra ci),
      tf_context = turn_context_of ci (or_turn_context render),
      tf_skills = ceremony @ (case or_skill_block render of None \<Rightarrow> [] | Some b \<Rightarrow> [skill_json b])\<rparr>"

text \<open>From the response to the end of the turn.\<close>

definition after_response ::
  "'w coder_input \<Rightarrow> response_info \<Rightarrow> 'w coder_state \<Rightarrow> (session_outcome + turn_end) py_result \<times> 'w coder_state" where
  "after_response ci r st =
     ebind (hook_gate ci AFTER_LLM_CALL st) (\<lambda>_ st.
     sbind (take_answer ci r st) (\<lambda>calls st.
       if calls = [] then stop_without_calls r st
       else sbind (tool_phase ci calls st) (\<lambda>t st. (Inr (Inr t), st))))"

definition prepare_request ::
  "'w coder_input \<Rightarrow> 'w coder_state \<Rightarrow> (session_outcome + json_obj list \<times> json_obj) py_result \<times> 'w coder_state" where
  "prepare_request ci st =
     sbind (ceremony_step ci st) (\<lambda>ceremony st.
     sbind (scope_boundary ci st) (\<lambda>render st.
     ebind (hook_gate ci BEFORE_LLM_CALL st) (\<lambda>_ st.
     ebind (pairing_gate ci st) (\<lambda>_ st.
     let tf = turn_fixed_of ci ceremony render st in
     ebind (compose_gate ci tf st) (\<lambda>request st. budget_gate ci tf request st)))))"

definition coder_turn ::
  "'w coder_input \<Rightarrow> 'w requester \<Rightarrow> 'w coder_state \<Rightarrow> (session_outcome + turn_end) py_result \<times> 'w coder_state" where
  "coder_turn ci req st =
     ebind (prepare_request ci (st\<lparr>cs_turn := cs_turn st + 1\<rparr>)) (\<lambda>request st.
     ebind (handle_request ci (request_response ci req request st)) (\<lambda>answer st.
       case answer of None \<Rightarrow> (Inr (Inr NextTurn), st) | Some r \<Rightarrow> after_response ci r st))"

section \<open>The session\<close>

definition iteration_cap_stop :: "'w coder_state \<Rightarrow> session_outcome py_result \<times> 'w coder_state" where
  "iteration_cap_stop st =
     sbind (log_append ''runtime'' ''run_stopped''
         [(''reason'', JStr ''iteration_cap''), (''turns'', JInt (int (cs_turn st)))] st) (\<lambda>_ st.
       finish (outcome 1 ''iteration_cap'' [] st) st)"

text \<open>\<open>while turn < max_turns\<close>, with the number of turns that are left.\<close>

primrec coder_loop ::
  "'w coder_input \<Rightarrow> 'w requester \<Rightarrow> nat \<Rightarrow> 'w coder_state \<Rightarrow> session_outcome py_result \<times> 'w coder_state" where
  "coder_loop ci req 0 st = iteration_cap_stop st"
| "coder_loop ci req (Suc n) st =
     sbind (coder_turn ci req st) (\<lambda>t st.
       case t of
         Inl out \<Rightarrow> (Inr out, st)
       | Inr StopLoop \<Rightarrow> iteration_cap_stop st
       | Inr NextTurn \<Rightarrow> coder_loop ci req n st)"

definition MIN_CONTEXT_LIMIT :: int where
  "MIN_CONTEXT_LIMIT = 32000"

definition clamp_context_limit :: "'w coder_input \<Rightarrow> 'w coder_state \<Rightarrow> int py_result \<times> 'w coder_state" where
  "clamp_context_limit ci st =
     (let limit = cc_context_limit (pc_config (ci_chain ci)) in
      if limit < MIN_CONTEXT_LIMIT
      then sbind (log_append ''runtime'' ''telemetry''
             [(''message'', JStr (''context_limit='' @ int_str limit @ '' below floor 32000, clamped''))] st)
             (\<lambda>_ st. (Inr MIN_CONTEXT_LIMIT, st))
      else (Inr limit, st))"

text \<open>The local variables at the start, on the state the caller hands over.\<close>

definition start_state ::
  "'w coder_input \<Rightarrow> 'w lstate \<Rightarrow> ledger \<times> ledger \<Rightarrow> artifact_store \<Rightarrow> 'w coder_state" where
  "start_state ci ls cds store =
     \<lparr>cs_ls = ls, cs_cds = fst cds, cs_compactor_cds = snd cds, cs_store = store, cs_history = [], cs_summary = [],
      cs_budget = context_budget_init MIN_CONTEXT_LIMIT None, cs_usage = \<lparr>us_input = 0, us_cache_read = 0, us_cache_creation = 0, us_output = 0\<rparr>,
      cs_usage_turns = 0, cs_summary_written = False, cs_results = [], cs_turn = 0,
      cs_expansion = \<lparr>xs_level = seed_level ci, xs_read_paths = {}, xs_write_paths = {}\<rparr>,
      cs_skill_name = [], cs_exhausted = False, cs_prev_calls = [], cs_prev_results = [], cs_observed = None,
      cs_exhaustions = 0\<rparr>"

definition restore_history :: "'w coder_input \<Rightarrow> 'w coder_state \<Rightarrow> 'w coder_state" where
  "restore_history ci st =
     (case rebuild_history (ci_fr ci) (log_events st) of
        (summary, history) \<Rightarrow>
          st\<lparr>cs_history := history, cs_summary := merge_memory_summary_context (ci_initial_summary ci) summary\<rparr>)"

definition open_session :: "'w coder_input \<Rightarrow> 'w coder_state \<Rightarrow> unit py_result \<times> 'w coder_state" where
  "open_session ci st =
     sbind (clamp_context_limit ci st) (\<lambda>limit st.
     let st = restore_history ci
                (st\<lparr>cs_budget := context_budget_init limit (cc_compaction_threshold (pc_config (ci_chain ci)))\<rparr>) in
     sbind (log_append ''user'' ''user_msg'' [(''text'', JStr (ci_task ci))] st) (\<lambda>_ st.
       log_append ''runtime'' ''run_started''
         [(''role'', JStr (ci_role ci)), (''max_turns'', JInt (ci_max_turns ci)), (''temperature'', ci_temperature ci)] st))"

definition drive_with ::
  "'w coder_input \<Rightarrow> 'w requester \<Rightarrow> 'w coder_state \<Rightarrow> session_outcome py_result \<times> 'w coder_state" where
  "drive_with ci req st =
     (if ss_log (session_of st) = None
      then (Inl (Exn ValueError ''SessionState.log must be set before drive_session. Fix: pass log=EventLog(path) when constructing SessionState, or let __post_init__ create one from the default path.''), st)
      else sbind (open_session ci st) (\<lambda>_ st. coder_loop ci req (nat (ci_max_turns ci)) st))"

definition chain_requester :: "'w coder_input \<Rightarrow> 'w requester" where
  "chain_requester ci rq = chain_request (ci_chain ci) rq None"

definition drive_session ::
  "'w coder_input \<Rightarrow> 'w lstate \<Rightarrow> ledger \<times> ledger \<Rightarrow> artifact_store \<Rightarrow> session_outcome py_result \<times> 'w coder_state" where
  "drive_session ci ls cds store = drive_with ci (chain_requester ci) (start_state ci ls cds store)"

end
