(* ===== verification/Coder_Safety.thy ===== *)
theory Coder_Safety
  imports Coder_Session
begin

text \<open>
  What holds of a whole session of \<open>drive_session\<close>: its outcome, and the conversation it sends.
\<close>

section \<open>Statements that leave the conversation alone\<close>

definition quiet :: "'w coder_state \<Rightarrow> 'w coder_state \<Rightarrow> bool" where
  "quiet st st' \<longleftrightarrow> cs_history st' = cs_history st \<and> cs_turn st' = cs_turn st \<and> cs_results st' = cs_results st"

named_theorems quiet_rules

lemma quiet_refl [quiet_rules]: "quiet st st"
  by (simp add: quiet_def)

lemma quiet_trans: "quiet a b \<Longrightarrow> quiet b c \<Longrightarrow> quiet a c"
  by (simp add: quiet_def)

lemma quiet_sbind [quiet_rules]:
  assumes "quiet st (snd m)" and "\<And>x. quiet (snd m) (snd (k x (snd m)))"
  shows "quiet st (snd (sbind m k))"
  using assms quiet_trans by (cases m; cases "fst m") (auto simp: sbind_def)

lemma quiet_ebind [quiet_rules]:
  assumes "quiet st (snd m)" and "\<And>x. quiet (snd m) (snd (k x (snd m)))"
  shows "quiet st (snd (ebind m k))"
  unfolding ebind_def by (rule quiet_sbind[OF assms(1)]) (use assms(2) in \<open>auto simp: quiet_refl split: sum.split\<close>)

lemma quiet_pair [quiet_rules]: "quiet st s \<Longrightarrow> quiet st (snd (r, s))"
  by simp

lemma quiet_if [quiet_rules]:
  "(b \<Longrightarrow> quiet st (snd m)) \<Longrightarrow> (\<not> b \<Longrightarrow> quiet st (snd n)) \<Longrightarrow> quiet st (snd (if b then m else n))"
  by simp

lemma quiet_on_ls [quiet_rules]: "quiet st (snd (on_ls f st))"
  by (simp add: on_ls_def quiet_def split: prod.split)

lemma quiet_set_env: "quiet st (set_env w st)"
  by (simp add: set_env_def quiet_def)

lemma quiet_log_append [quiet_rules]: "quiet st (snd (log_append actor kind content st))"
  using quiet_on_ls[of st "ls_session (session_append actor kind content [] [])"]
  by (auto simp: log_append_def split: prod.split sum.split)

lemma quiet_finish [quiet_rules]: "quiet st (snd (finish out st))"
  unfolding finish_def by (intro quiet_rules) (simp add: quiet_def)

lemma quiet_stop_with [quiet_rules]: "quiet st (snd (stop_with content code reason final st))"
  unfolding stop_with_def by (intro quiet_rules)

lemma quiet_request_shape_failure [quiet_rules]: "quiet st (snd (request_shape_failure detail st))"
  unfolding request_shape_failure_def by (intro quiet_rules)

lemma quiet_record_usage [quiet_rules]: "quiet st (snd (record_usage r st))"
  unfolding record_usage_def Let_def by (intro quiet_rules) (simp add: quiet_def)

lemma quiet_ceremony_step [quiet_rules]: "quiet st (snd (ceremony_step ci st))"
  unfolding ceremony_step_def Let_def by (intro quiet_rules)

lemma quiet_entry_skill [quiet_rules]: "quiet st (snd (entry_skill ci reads decision st))"
  by (auto simp: entry_skill_def quiet_def Let_def split: option.split sum.split)

lemma quiet_log_near_miss [quiet_rules]: "quiet st (snd (log_near_miss ev st))"
  using quiet_log_append[of "st\<lparr>cs_observed := ev\<rparr>"]
  by (auto simp: log_near_miss_def quiet_def split: option.split)

lemma quiet_log_transition [quiet_rules]: "quiet st (snd (log_transition a b d n m t st))"
  unfolding log_transition_def by (intro quiet_rules)

lemma quiet_then_update: "quiet (st\<lparr>cs_expansion := xs\<rparr>) s \<Longrightarrow> quiet st s"
  by (simp add: quiet_def)

lemma quiet_scope_boundary [quiet_rules]: "quiet st (snd (scope_boundary ci st))"
  unfolding scope_boundary_def Let_def
  by (intro quiet_rules quiet_then_update[OF quiet_sbind]) (auto intro!: quiet_rules)

lemma quiet_hook_gate [quiet_rules]: "quiet st (snd (hook_gate ci point st))"
proof (cases "on_ls (ls_dispatch point (llm_payload ci)) st")
  case (Pair r s)
  then have "quiet st s" using quiet_on_ls[of st "ls_dispatch point (llm_payload ci)"] by simp
  then show ?thesis using quiet_trans[OF _ quiet_stop_with, of st s]
    unfolding hook_gate_def try_permission_def Pair by (auto split: sum.split py_exc.split exc_class.split)
qed

lemma quiet_pairing_gate [quiet_rules]: "quiet st (snd (pairing_gate ci st))"
  by (auto simp: pairing_gate_def intro: quiet_rules split: sum.split)

lemma quiet_compose_gate [quiet_rules]: "quiet st (snd (compose_gate ci tf st))"
  by (auto simp: compose_gate_def intro: quiet_rules split: sum.split provider_error.split)

lemma quiet_log_attempts [quiet_rules]: "quiet st (snd (log_attempts cid as st))"
  by (induction cid as st rule: log_attempts.induct) (auto intro!: quiet_rules)

lemma quiet_on_chain: "quiet st (snd (on_chain req rq st))"
  by (auto simp: on_chain_def set_env_def quiet_def split: prod.split)

lemma quiet_wait: "quiet st (snd (wait_for_cooldown ci st))"
  by (auto simp: wait_for_cooldown_def set_env_def quiet_def split: prod.split)

lemma snd_case_result:
  "snd (case m of (Inl e, s) \<Rightarrow> (f e s, s) | (Inr x, s) \<Rightarrow> (g x s, s)) = snd m"
  by (simp split: prod.split sum.split)

lemma quiet_request_attempt: "quiet st (snd (request_attempt req rq st))"
proof -
  obtain r s where a: "on_chain req rq st = (r, s)" by fastforce
  have s: "quiet st s" using quiet_on_chain[of st req rq] a by simp
  show ?thesis
  proof (cases "\<exists>m as cid. r = Inl (ProviderChainExhaustedError m as cid)")
    case True
    then obtain m as cid where r: "r = Inl (ProviderChainExhaustedError m as cid)" by blast
    show ?thesis using quiet_trans[OF s quiet_log_attempts[of s cid as]]
      by (simp add: request_attempt_def a r snd_case_result)
  next
    case False
    then have "request_attempt req rq st = (r, s)"
      by (auto simp: request_attempt_def a split: sum.split provider_error.split)
    with s show ?thesis by simp
  qed
qed

lemma quiet_request_retry: "quiet st (snd (request_retry ci req rq n st))"
proof (induction n arbitrary: st)
  case (Suc n)
  obtain r s where a: "request_attempt req rq st = (r, s)" by fastforce
  have s: "quiet st s" using quiet_request_attempt[of st req rq] a by simp
  show ?case
  proof (cases "\<exists>m as cid. r = Inl (ProviderChainExhaustedError m as cid)")
    case True
    then obtain m as cid where r: "r = Inl (ProviderChainExhaustedError m as cid)" by blast
    obtain r' s' where w: "wait_for_cooldown ci s = (r', s')" by fastforce
    have "quiet s s'" using quiet_wait[of s ci] w by simp
    with s have "quiet st s'" by (rule quiet_trans)
    then show ?thesis using quiet_trans[OF _ Suc[of s']] by (cases r') (simp_all add: a r w)
  next
    case False
    then have "request_retry ci req rq (Suc n) st = (r, s)" by (auto simp: a split: sum.split provider_error.split)
    with s show ?thesis by simp
  qed
qed (simp add: quiet_request_attempt)

lemma quiet_request_response: "quiet st (snd (request_response ci req request st))"
proof -
  obtain r s where a: "request_retry ci req (request_info_of ci request) (PER_TURN_CHAIN_RETRIES - 1) st = (r, s)" by fastforce
  have s: "quiet st s" using quiet_request_retry[of st ci req "request_info_of ci request" "PER_TURN_CHAIN_RETRIES - 1"] a by simp
  show ?thesis
  proof (cases r)
    case (Inr p)
    obtain x c ats where p: "p = (x, c, ats)" by (cases p)
    have "quiet s (snd (sbind (log_attempts c ats s) (\<lambda>_ st.
                sbind (log_append ''provider'' ''llm_call'' (llm_call_row ci x c ats) st) (\<lambda>_ st.
                record_usage x st))))" by (intro quiet_rules)
    from quiet_trans[OF s this] show ?thesis unfolding request_response_def a by (simp add: Inr p snd_case_result)
  next
    case (Inl e)
    with s show ?thesis unfolding request_response_def a by simp
  qed
qed

lemma quiet_count_exhaustion: "quiet st (count_exhaustion st)"
  by (simp add: count_exhaustion_def quiet_def)

lemma quiet_handle_request: "quiet s (snd (handle_request ci (r, s)))"
proof -
  have "quiet s (snd (sbind (log_attempts cid as s) (\<lambda>_ st.
            let st = count_exhaustion st in
            if cs_exhaustions st \<le> max_chain_retries_of ci then (Inr (Inr None), st)
            else stop_with [(''reason'', JStr ''chain_exhausted''), (''detail'', JStr msg)] 2 ''chain_exhausted'' [] st)))"
    for cid as msg unfolding Let_def
    by (intro quiet_rules quiet_trans[OF quiet_count_exhaustion] quiet_count_exhaustion)
  then show ?thesis
    by (auto simp: handle_request_def intro: quiet_rules split: sum.split provider_error.split)
qed

section \<open>Conversations in which every call is answered\<close>

text \<open>Assistant messages with tool calls, each followed by the answers to its calls in their order.\<close>

abbreviation answer_id :: "(rat \<Rightarrow> string) \<Rightarrow> json_obj \<Rightarrow> string" where
  "answer_id fr t \<equiv> str_or_empty fr (msg_get t ''tool_call_id'')"

inductive paired :: "(rat \<Rightarrow> string) \<Rightarrow> json_obj list \<Rightarrow> bool" for fr where
  paired_empty: "paired fr []"
| paired_round: "paired fr h \<Longrightarrow> msg_role m = JStr ''assistant'' \<Longrightarrow> calls_ok m \<Longrightarrow> ts \<noteq> [] \<Longrightarrow>
     \<forall>t \<in> set ts. msg_role t = JStr ''tool'' \<Longrightarrow> call_ids fr m = map (answer_id fr) ts \<Longrightarrow> paired fr (h @ m # ts)"

lemma paired_roles: "paired fr h \<Longrightarrow> m \<in> set h \<Longrightarrow> msg_role m \<in> {JStr ''assistant'', JStr ''tool''}"
  by (induction rule: paired.induct) auto

lemma paired_last: "paired fr h \<Longrightarrow> h \<noteq> [] \<Longrightarrow> msg_role (last h) = JStr ''tool''"
  by (induction rule: paired.induct) auto

lemma paired_calls_ok: "paired fr h \<Longrightarrow> list_all calls_ok h"
  by (induction rule: paired.induct) (auto simp: list_all_iff calls_ok_def)

lemma answers_of_tools:
  "\<forall>t \<in> set ts. msg_role t = JStr ''tool'' \<Longrightarrow>
     concat (map (answer_ids fr) ts) = map (answer_id fr) ts \<and> concat (map (call_ids fr) ts) = []"
  by (induction ts) (auto simp: answer_ids_def call_ids_def)

lemma paired_ids: "paired fr h \<Longrightarrow> concat (map (call_ids fr) h) = concat (map (answer_ids fr) h)"
proof (induction rule: paired.induct)
  case (paired_round h m ts)
  have "answer_ids fr m = []" using paired_round.hyps(2) by (simp add: answer_ids_def)
  then show ?case using paired_round answers_of_tools[of ts fr] by simp
qed simp

lemma paired_masked: "paired fr h \<Longrightarrow> list_all2 masked_of h h' \<Longrightarrow> paired fr h'"
proof (induction arbitrary: h' rule: paired.induct)
  case (paired_round h m ts)
  from paired_round.prems obtain h1 m1 ts1 where h': "h' = h1 @ m1 # ts1" "list_all2 masked_of h h1" "masked_of m m1"
    "list_all2 masked_of ts ts1" by (auto simp: list_all2_append1 list_all2_Cons1)
  have m1: "m1 = m" using h'(3) paired_round.hyps(2) masked_assistant by blast
  have ids: "map (answer_id fr) ts1 = map (answer_id fr) ts"
    using h'(4) by (induction rule: list_all2_induct) (auto simp: masked_call_id)
  have "\<forall>t \<in> set ts1. msg_role t = JStr ''tool''"
    using h'(4) paired_round.hyps(5) by (induction rule: list_all2_induct) (auto simp: masked_role)
  moreover have "ts1 \<noteq> []" using h'(4) paired_round.hyps(4) by auto
  ultimately show ?case unfolding h'(1) m1
    using paired_round.IH[OF h'(2)] paired_round.hyps ids by (intro paired.paired_round) auto
qed (auto intro: paired_empty)

text \<open>A cut before an assistant message leaves no answer without its call.\<close>

lemma paired_drop: "paired fr h \<Longrightarrow> i < length h \<Longrightarrow> msg_role (h ! i) = JStr ''assistant'' \<Longrightarrow> paired fr (drop i h)"
proof (induction rule: paired.induct)
  case (paired_round h m ts)
  consider "i < length h" | "i = length h" | "length h < i" by linarith
  then show ?case
  proof cases
    case 1
    with paired_round have "paired fr (drop i h)" by (simp add: nth_append)
    then show ?thesis using paired_round.hyps paired.paired_round[of fr "drop i h" m ts] 1 by simp
  next
    case 2
    then show ?thesis using paired_round.hyps paired.paired_round[OF paired_empty, of m ts fr] by simp
  next
    case 3
    with paired_round.prems(1) have "i - Suc (length h) < length ts" by simp
    moreover have "(h @ m # ts) ! i = ts ! (i - Suc (length h))" using 3 by (simp add: nth_append nth_Cons')
    ultimately have "(h @ m # ts) ! i \<in> set ts" by simp
    then show ?thesis using paired_round.prems(2) paired_round.hyps(5) by auto
  qed
qed simp

lemma boundary_scan_cut:
  "n + 1 = length ms \<or> ms = [] \<Longrightarrow>
     boundary_scan keep count n ms = 0 \<or>
     (boundary_scan keep count n ms < length ms \<and> msg_role (rev ms ! boundary_scan keep count n ms) = JStr ''assistant'')"
proof (induction keep count n ms rule: boundary_scan.induct)
  case (2 keep count n m ms)
  then have n: "n = length ms" by simp
  show ?case
  proof (cases "msg_role m = JStr ''assistant'' \<and> count + 1 \<ge> keep")
    case True
    then show ?thesis by (simp add: n nth_append)
  next
    case False
    have lift: "b = 0 \<or> b < length (m # ms) \<and> msg_role (rev (m # ms) ! b) = JStr ''assistant''"
      if "b = 0 \<or> b < length ms \<and> msg_role (rev ms ! b) = JStr ''assistant''" for b
      using that by (auto simp: nth_append)
    have len: "n - 1 + 1 = length ms \<or> ms = []" using n by (cases ms) auto
    show ?thesis
    proof (cases "msg_role m = JStr ''assistant''")
      case True
      then show ?thesis using lift[OF 2(1)[OF _ _ len]] False by auto
    next
      case no: False
      then show ?thesis using lift[OF 2(2)[OF _ len]] by auto
    qed
  qed
qed simp

lemma paired_protected: "paired fr h \<Longrightarrow> paired fr (drop (find_turn_boundary_backward h keep) h)"
proof -
  assume h: "paired fr h"
  have "boundary_scan keep 0 (length h - 1) (rev h) = 0 \<or>
    (boundary_scan keep 0 (length h - 1) (rev h) < length h \<and>
     msg_role (h ! boundary_scan keep 0 (length h - 1) (rev h)) = JStr ''assistant'')"
    using boundary_scan_cut[of "length h - 1" "rev h" keep 0] by (cases h) auto
  then show ?thesis using h paired_drop[OF h] by (auto simp: find_turn_boundary_backward_def)
qed

section \<open>Composed requests\<close>

lemma role_with_cache_control: "msg_role (with_cache_control m) = msg_role m"
  by (simp add: with_cache_control_def msg_get_def update_conv)

lemma anchor_memory_body:
  "\<forall>m \<in> set body. msg_role m \<noteq> JStr ''system'' \<Longrightarrow> \<forall>m \<in> set ctx. msg_role m = JStr ''system'' \<Longrightarrow>
     \<exists>ctx'. anchor_memory (ctx @ body) = ctx' @ body \<and> (\<forall>m \<in> set ctx'. msg_role m = JStr ''system'')"
proof (induction ctx)
  case Nil
  then have "anchor_memory body = body" by (induction body) (auto simp: is_memory_summary_def)
  then show ?case by (intro exI[of _ "[]"]) simp
next
  case (Cons c ctx)
  then obtain ctx' where "anchor_memory (ctx @ body) = ctx' @ body" "\<forall>m \<in> set ctx'. msg_role m = JStr ''system''" by auto
  then show ?case using Cons.prems role_with_cache_control
    by (cases "is_memory_summary c")
       (auto intro: exI[of _ "with_cache_control c # ctx"] exI[of _ "c # ctx'"])
qed

lemma system_messages:
  "m \<in> set (cacheable_messages fr b a t r) \<Longrightarrow> msg_role m = JStr ''system''"
  "m \<in> set (context_messages fr s c y) \<Longrightarrow> msg_role m = JStr ''system''"
  by (auto simp: cacheable_messages_def context_messages_def message_def msg_get_def split: if_splits)

lemma composed_form:
  assumes "compose_request_payload ci tf summary obs = Inr (ms, extras)"
    and "\<forall>m \<in> set obs. msg_role m \<noteq> JStr ''system''"
  obtains sys body where "place_task (ci_task ci) obs = Inr body" "ms = sys @ body"
    "\<forall>m \<in> set sys. msg_role m = JStr ''system''"
proof -
  from assms(1) obtain parts key where parts: "build_prompt_parts_v2 (ci_sha ci) (ci_fr ci) (base_system_of ci) (tf_pinned tf)
             (map obj_or_empty (tool_payload_of ci)) (ci_role ci) (tf_skills tf) summary (ci_task ci)
             obs (tf_context tf) = Inr (parts, key)"
    and ms: "ms = (if cc_family (pc_config (ci_chain ci)) = ''anthropic''
        then to_anthropic_request_v2 (prompt_caching_of ci) parts else fst (to_openai_request_v2 parts key))"
    by (auto simp: compose_request_payload_def Let_def split: sum.splits prod.splits if_splits)
  from parts obtain body where body: "place_task (ci_task ci) obs = Inr body"
    and p: "pp_cacheable parts = cacheable_messages (ci_fr ci) (base_system_of ci) (tf_pinned tf) (map obj_or_empty (tool_payload_of ci)) (ci_role ci)"
      "pp_non_cacheable parts = context_messages (ci_fr ci) (tf_skills tf) (tf_context tf) summary @ body"
    by (auto simp: build_prompt_parts_v2_def Let_def split: sum.splits)
  let ?ca = "pp_cacheable parts" and ?ctx = "context_messages (ci_fr ci) (tf_skills tf) (tf_context tf) summary"
  have sys: "\<forall>m \<in> set ?ca. msg_role m = JStr ''system''" "\<forall>m \<in> set ?ctx. msg_role m = JStr ''system''"
    using system_messages unfolding p by blast+
  have "\<forall>m \<in> set body. msg_role m \<noteq> JStr ''system''"
    using body assms(2) by (auto simp: place_task_def Let_def message_def msg_get_def split: if_splits)
  from anchor_memory_body[OF this sys(2)] obtain ctx' where ctx': "anchor_memory (?ctx @ body) = ctx' @ body"
    "\<forall>m \<in> set ctx'. msg_role m = JStr ''system''" by blast
  let ?ca' = "map (\<lambda>(i, m). if i \<in> {0, 2, length ?ca - 1} then with_cache_control m else m) (zip [0..<length ?ca] ?ca)"
  have "\<forall>m \<in> set ?ca'. msg_role m = JStr ''system''"
    using sys(1) role_with_cache_control by (auto dest!: set_zip_rightD split: if_splits)
  then have first: "\<forall>m \<in> set (?ca' @ ctx'). msg_role m = JStr ''system''" using ctx'(2) by auto
  have second: "\<forall>m \<in> set (?ca @ ?ctx). msg_role m = JStr ''system''" using sys by auto
  have "ms = (?ca' @ ctx') @ body \<or> ms = (?ca @ ?ctx) @ body"
    by (simp add: ms to_anthropic_request_v2_def to_openai_request_v2_def p(2) ctx'(1))
  then consider "ms = (?ca' @ ctx') @ body" | "ms = (?ca @ ?ctx) @ body" by blast
  then show ?thesis
    by cases (erule that[OF body _ first], erule that[OF body _ second])
qed

lemma system_user_ids:
  "msg_role m \<in> {JStr ''system'', JStr ''user''} \<Longrightarrow> call_ids fr m = [] \<and> answer_ids fr m = [] \<and> calls_ok m"
  by (auto simp: call_ids_def answer_ids_def calls_ok_def)

lemma conformant_request:
  assumes "compose_request_payload ci tf summary h = Inr (ms, extras)" and "paired fr h" and "ci_task ci \<noteq> []"
  shows "conformant fr trailing after_tool ms"
proof -
  note roles = paired_roles[OF assms(2)]
  have "\<forall>m \<in> set h. msg_role m \<noteq> JStr ''system''" using roles by fastforce
  from composed_form[OF assms(1) this] obtain sys body where body: "place_task (ci_task ci) h = Inr body"
    and ms: "ms = sys @ body" and sys: "\<forall>m \<in> set sys. msg_role m = JStr ''system''" .
  let ?u = "message ''user'' (''Task: '' @ ci_task ci)"
  have u: "msg_role ?u = JStr ''user''" by (simp add: message_def msg_get_def)
  have b: "body = ?u # h"
    using body assms(3) paired_last[OF assms(2)] by (auto simp: place_task_def Let_def split: if_splits)
  have "msg_role (last ms) \<in> {JStr ''user'', JStr ''tool''}"
    using u paired_last[OF assms(2)] by (cases "h = []") (simp_all add: ms b)
  moreover have "\<not> (msg_role (ms ! i) = JStr ''tool'' \<and> msg_role (ms ! Suc i) = JStr ''user'')" if "Suc i < length ms" for i
  proof (cases "Suc i \<le> length sys")
    case True
    then have "ms ! i \<in> set sys" by (simp add: ms nth_append)
    then show ?thesis using sys by auto
  next
    case False
    then have "ms ! Suc i \<in> set h" using that by (simp add: ms b nth_append nth_Cons' Suc_diff_le not_le less_Suc_eq_le)
    then show ?thesis using roles by fastforce
  qed
  moreover have "list_all calls_ok ms"
    using sys u system_user_ids[of _ fr] paired_calls_ok[OF assms(2)] by (auto simp: ms b list_all_iff)
  moreover have "concat (map (call_ids fr) sys) = []" "concat (map (answer_ids fr) sys) = []"
    using sys system_user_ids by fastforce+
  ultimately show ?thesis
    using paired_ids[OF assms(2)] system_user_ids[of ?u fr] u by (simp add: conformant_def ms b)
qed

section \<open>Rows of the log\<close>

lemma insert_visible:
  assumes run: "append_event_row_allocating row db = (Inr event_id, db')" and "run_id = None \<or> run_id = Some (ev_run_id row)"
  shows "\<exists>sid. read_event_rows run_id db' = read_event_rows run_id db @ [row\<lparr>ev_event_id := event_id, ev_session_id := sid\<rparr>]"
proof -
  define db1 where "db1 = db\<lparr>sdb_env := drop (Suc 0) (sdb_env db)\<rparr>"
  define w where "w = (case sdb_env db of [] \<Rightarrow> \<lparr>bw_busy = 0, bw_busy_msg = [], bw_insert_error = None\<rparr> | w # _ \<Rightarrow> w)"
  have match: "sdb_session_id db = [] \<or> ev_session_id row = sdb_session_id db"
  proof (rule ccontr)
    assume "\<not> ?thesis"
    with run show False by (simp add: append_event_row_allocating_def Let_def)
  qed
  have idle: "\<not> bw_busy w \<ge> WRITE_RETRY_ATTEMPTS"
  proof
    assume "bw_busy w \<ge> WRITE_RETRY_ATTEMPTS"
    with run match show False by (auto simp: append_event_row_allocating_def Let_def w_def[symmetric])
  qed
  have calm: "bw_insert_error w = None"
  proof (cases "bw_insert_error w")
    case (Some msg)
    with run match idle show ?thesis by (auto simp: append_event_row_allocating_def Let_def w_def[symmetric])
  qed
  have "(case insert_event_row row (ev_session_id row) (next_event_id (ev_session_id row) db1) db1 of
      Inl e \<Rightarrow> (Inl (write_failed (exn_msg e)), db1) | Inr db'' \<Rightarrow> (Inr (next_event_id (ev_session_id row) db1), db'')) = (Inr event_id, db')"
    unfolding db1_def using run match calm idle by (auto simp: append_event_row_allocating_def Let_def w_def[symmetric] split: sum.splits)
  then have "insert_event_row row (ev_session_id row) event_id db1 = Inr db'" by (auto split: sum.splits)
  then have "db' = db1\<lparr>sdb_rows := sdb_rows db1 @ [row\<lparr>ev_event_id := event_id,
       ev_session_id := (if sdb_legacy_schema db then [] else ev_session_id row)\<rparr>]\<rparr>"
    by (auto simp: insert_event_row_def Let_def db1_def split: if_splits)
  then have rows: "sdb_rows db' = sdb_rows db @ [row\<lparr>ev_event_id := event_id,
       ev_session_id := (if sdb_legacy_schema db then [] else ev_session_id row)\<rparr>]" (is "_ = _ @ [?row]")
    and same: "sdb_legacy_schema db' = sdb_legacy_schema db" "sdb_session_id db' = sdb_session_id db"
    by (simp_all add: db1_def)
  have "(sdb_legacy_schema db \<or> sdb_session_id db = [] \<or> ev_session_id ?row = sdb_session_id db) \<and>
      (case run_id of None \<Rightarrow> True | Some rid \<Rightarrow> ev_run_id ?row = rid)"
    using match assms(2) by (cases run_id) auto
  then have "read_event_rows run_id db' = read_event_rows run_id db @ [?row]"
    by (simp only: read_event_rows_def rows same filter_append filter.simps simp_thms if_True)
  then show ?thesis by blast
qed

lemma log_append_post:
  assumes "log_append actor kind content st = (Inr (), st')"
  obtains elog elog' row where "ss_log (session_of st) = Some elog" "ss_log (session_of st') = Some elog'"
    "el_redactor elog' = el_redactor elog" "log_events st' = log_events st @ [row]"
    "ev_kind row = kind" "ev_content row = redact_content (el_redactor elog) content"
proof -
  obtain hr w where ls: "cs_ls st = (hr, w)" by (cases "cs_ls st")
  from assms obtain elog ev elog' where e: "ss_log (session_of st) = Some elog"
    and a: "event_log_append actor kind content [] [] [] elog = (Inr ev, elog')"
    and st': "st' = st\<lparr>cs_ls := (hr, w\<lparr>lw_state := (lw_state w)\<lparr>ss_log := Some elog'\<rparr>\<rparr>)\<rparr>"
    by (auto simp: log_append_def on_ls_def ls_session_def session_append_def session_of_def ls
        split: prod.splits sum.splits option.splits)
  let ?p = "\<lparr>ev_event_id = [], ev_ts = el_clock elog, ev_run_id = el_run_id elog, ev_actor = actor,
                     ev_kind = kind, ev_content = redact_content (el_redactor elog) content,
                     ev_harness_id = HARNESS_ID, ev_tool_name = [], ev_tool_call_id = [],
                     ev_parent_event_id = [], ev_session_id = el_session_id elog\<rparr>"
  from a obtain event_id db where i: "append_event_row_allocating ?p (el_db elog) = (Inr event_id, db)"
    and el: "el_db elog' = db" "el_run_id elog' = el_run_id elog" "el_redactor elog' = el_redactor elog"
    by (auto simp: event_log_append_def Let_def split: prod.splits sum.splits)
  let ?rid = "if el_run_id elog = [] then None else Some (el_run_id elog)"
  have "\<exists>sid. read_event_rows ?rid db = read_event_rows ?rid (el_db elog) @ [?p\<lparr>ev_event_id := event_id, ev_session_id := sid\<rparr>]"
    by (rule insert_visible[OF i]) simp
  then obtain sid where rows: "read_event_rows ?rid db = read_event_rows ?rid (el_db elog) @ [?p\<lparr>ev_event_id := event_id, ev_session_id := sid\<rparr>]" by blast
  have "log_events st = read_event_rows ?rid (el_db elog)" using e by (simp add: log_events_def)
  moreover have "log_events st' = read_event_rows ?rid db" using el by (simp add: log_events_def session_of_def st')
  ultimately have "log_events st' = log_events st @ [?p\<lparr>ev_event_id := event_id, ev_session_id := sid\<rparr>]" using rows by simp
  from that[OF e _ el(3) this] show ?thesis by (simp add: session_of_def st')
qed

definition redact_of :: "event_log \<Rightarrow> string \<Rightarrow> string" where
  "redact_of elog t = (case el_redactor elog of None \<Rightarrow> t | Some f \<Rightarrow> f t)"

text \<open>A \<open>run_stopped\<close> row with this reason, as the log writes it.\<close>

definition stop_logged :: "string \<Rightarrow> 'w coder_state \<Rightarrow> bool" where
  "stop_logged reason st \<longleftrightarrow> (\<exists>elog. ss_log (session_of st) = Some elog \<and>
     (\<exists>row \<in> set (log_events st). ev_kind row = ''run_stopped'' \<and>
        msg_get (ev_content row) ''reason'' = JStr (redact_of elog reason)))"

lemma stop_logged_append:
  assumes "stop_logged reason st" and a: "log_append actor kind content st = (Inr (), st')"
  shows "stop_logged reason st'"
proof -
  obtain elog elog' row where "ss_log (session_of st) = Some elog" "ss_log (session_of st') = Some elog'"
    "el_redactor elog' = el_redactor elog" "log_events st' = log_events st @ [row]"
    by (rule log_append_post[OF a])
  with assms(1) show ?thesis by (auto simp: stop_logged_def redact_of_def)
qed

lemma stop_logged_here:
  assumes a: "log_append actor ''run_stopped'' ((''reason'', JStr reason) # content) st = (Inr (), st')"
  shows "stop_logged reason st'"
proof -
  obtain elog elog' row where "ss_log (session_of st) = Some elog" "ss_log (session_of st') = Some elog'"
    "el_redactor elog' = el_redactor elog" "log_events st' = log_events st @ [row]"
    "ev_kind row = ''run_stopped''" "ev_content row = redact_content (el_redactor elog) ((''reason'', JStr reason) # content)"
    by (rule log_append_post[OF a])
  then show ?thesis by (auto simp: stop_logged_def redact_of_def redact_content_def msg_get_def split: option.split)
qed

lemma stop_logged_finish:
  assumes "stop_logged reason st" and f: "finish out st = (Inr out', st')"
  shows "stop_logged reason st'"
proof (cases "cs_summary_written st")
  case True
  with assms show ?thesis by (simp add: finish_def)
next
  case False
  with f obtain s where a: "log_append ''runtime'' ''session_summary'' (session_summary_content (cs_usage st) (cs_usage_turns st)) st = (Inr (), s)"
    and st': "st' = s\<lparr>cs_summary_written := True\<rparr>" by (auto simp: finish_def sbind_Inr)
  from stop_logged_append[OF assms(1) a] show ?thesis by (simp add: stop_logged_def log_events_def session_of_def st')
qed

section \<open>Outcomes\<close>

text \<open>A final answer: the chain gave it, it asks for no tool, and it is the last message.\<close>

definition answered :: "(response_info \<Rightarrow> bool) \<Rightarrow> 'w coder_input \<Rightarrow> string \<Rightarrow> 'w coder_state \<Rightarrow> bool" where
  "answered reply ci t st \<longleftrightarrow>
     (\<exists>r h m. reply r \<and> rs_tool_calls r = [] \<and> terminal_finish r \<and> rs_text r = t \<and>
        assistant_message (ci_fr ci) r [] = Inr m \<and> cs_history st = h @ [m])"

definition verdict :: "(response_info \<Rightarrow> bool) \<Rightarrow> 'w coder_input \<Rightarrow> session_outcome \<Rightarrow> 'w coder_state \<Rightarrow> bool" where
  "verdict reply ci out st \<longleftrightarrow>
     so_turns out = cs_turn st \<and> so_tool_results out = cs_results st \<and> so_exit_code out \<in> {0, 1, 2, 130} \<and>
     (so_exit_code out = 0 \<longleftrightarrow> so_stop_reason out = ''stopped_by_llm'') \<and>
     (so_exit_code out = 0 \<longrightarrow> answered reply ci (so_final_text out) st) \<and>
     (so_exit_code out \<noteq> 0 \<longrightarrow> stop_logged (so_stop_reason out) st)"

definition ends :: "(session_outcome \<Rightarrow> 's \<Rightarrow> bool) \<Rightarrow> (session_outcome + 'a) py_result \<times> 's \<Rightarrow> bool" where
  "ends R m \<longleftrightarrow> (\<forall>out. fst m = Inr (Inl out) \<longrightarrow> R out (snd m))"

lemma ends_simps [simp]:
  "ends R (Inr (Inr x), s)" "ends R (Inl e, s)" "ends R (Inr (Inl out), s) \<longleftrightarrow> R out s"
  by (simp_all add: ends_def)

lemma ends_sbind: "(\<And>x s. m = (Inr x, s) \<Longrightarrow> ends R (k x s)) \<Longrightarrow> ends R (sbind m k)"
  by (auto simp: sbind_def split: prod.split sum.split)

lemma ends_ebind: "ends R m \<Longrightarrow> (\<And>x s. m = (Inr (Inr x), s) \<Longrightarrow> ends R (k x s)) \<Longrightarrow> ends R (ebind m k)"
  by (auto simp: ebind_def sbind_def ends_def split: prod.split sum.split)

lemma finish_result: "fst (finish out st) = Inr out' \<Longrightarrow> out' = out"
  by (auto simp: finish_def sbind_def split: if_splits prod.splits sum.splits)

lemma verdict_finish:
  assumes v: "verdict reply ci out st" and f: "finish out st = (Inr out', st')"
  shows "out' = out \<and> verdict reply ci out st'"
proof -
  have "out' = out" using f finish_result[of out st out'] by simp
  have "quiet st st'" using quiet_finish[of st out] f by simp
  then have e: "cs_history st' = cs_history st" "cs_turn st' = cs_turn st" "cs_results st' = cs_results st"
    by (simp_all add: quiet_def)
  have "so_exit_code out \<noteq> 0 \<longrightarrow> stop_logged (so_stop_reason out) st'"
    using v stop_logged_finish[OF _ f] unfolding verdict_def by blast
  with v have "verdict reply ci out st'" unfolding verdict_def answered_def e by blast
  with \<open>out' = out\<close> show ?thesis by blast
qed

lemma ends_finish:
  assumes "verdict reply ci out st"
  shows "ends (verdict reply ci) (sbind (finish out st) (\<lambda>out st. (Inr (Inl out), st)))"
proof (rule ends_sbind)
  fix x s
  assume "finish out st = (Inr x, s)"
  from verdict_finish[OF assms this] show "ends (verdict reply ci) (Inr (Inl x), s)" by simp
qed

lemma ends_stop_with:
  assumes "code \<in> {1, 2, 130}" and "reason \<noteq> ''stopped_by_llm''"
  shows "ends (verdict reply ci) (stop_with ((''reason'', JStr reason) # rest) code reason final st)"
  unfolding stop_with_def
proof (rule ends_sbind, rule ends_finish)
  fix x s
  assume a: "log_append ''runtime'' ''run_stopped'' ((''reason'', JStr reason) # rest) st = (Inr x, s)"
  have "stop_logged reason s" by (rule stop_logged_here) (use a in simp)
  then show "verdict reply ci (outcome code reason final s) s"
    using assms by (auto simp: verdict_def outcome_def)
qed

lemma ends_request_shape: "ends (verdict reply ci) (request_shape_failure detail st)"
  unfolding request_shape_failure_def by (rule ends_stop_with) auto

lemma ends_hook_gate: "ends (verdict reply ci) (hook_gate ci point st)"
proof -
  have "ends (verdict reply ci) (stop_with ((''reason'', JStr (''hook_deny:'' @ p)) # c) 1 (''hook_deny:'' @ p) [] s)" for c p s
    by (rule ends_stop_with) auto
  then show ?thesis by (auto simp: hook_gate_def try_permission_def split: prod.split sum.split py_exc.split exc_class.split)
qed

lemma ends_pairing_gate: "ends (verdict reply ci) (pairing_gate ci st)"
  by (auto simp: pairing_gate_def intro: ends_request_shape split: sum.split)

lemma ends_compose_gate: "ends (verdict reply ci) (compose_gate ci tf st)"
  by (auto simp: compose_gate_def intro: ends_request_shape split: sum.split provider_error.split)

lemma ends_handle_request: "ends (verdict reply ci) (handle_request ci (r, st))"
proof -
  have "ends (verdict reply ci) (stop_with ((''reason'', JStr ''chain_exhausted'') # c) 2 ''chain_exhausted'' [] s)"
    "ends (verdict reply ci) (stop_with ((''reason'', JStr ''abnormal_stop:interrupt'') # c) 130 ''abnormal_stop:interrupt'' [] s)" for c s
    by (rule ends_stop_with; simp)+
  then show ?thesis
    by (auto simp: handle_request_def Let_def intro!: ends_sbind intro: ends_request_shape split: sum.split provider_error.split)
qed

lemma ends_stop_without_calls:
  assumes "reply r" and "rs_tool_calls r = []" and "assistant_message (ci_fr ci) r [] = Inr m" and "cs_history st = h @ [m]"
  shows "ends (verdict reply ci) (stop_without_calls r st)"
proof (cases "terminal_finish r")
  case True
  have "verdict reply ci (outcome 0 ''stopped_by_llm'' (rs_text r) st) st"
    using assms True by (auto simp: verdict_def outcome_def answered_def)
  with True show ?thesis by (simp add: stop_without_calls_def ends_finish)
next
  case False
  have "ends (verdict reply ci) (stop_with [(''reason'', JStr (''abnormal_stop:'' @ rs_finish_reason r))] 1
             (''abnormal_stop:'' @ rs_finish_reason r) (rs_text r) st)"
    by (rule ends_stop_with) auto
  with False show ?thesis by (simp add: stop_without_calls_def)
qed

section \<open>The budget gate\<close>

text \<open>
  What the gate keeps: turn and results, and, when the conversation was complete, a complete one and a
  request composed of it.
\<close>

definition gate_inv :: "bool \<Rightarrow> 'w coder_input \<Rightarrow> 'w coder_state \<Rightarrow> 'w gate \<Rightarrow> bool" where
  "gate_inv whole ci st0 g \<longleftrightarrow>
     cs_turn (ga_st g) = cs_turn st0 \<and> cs_results (ga_st g) = cs_results st0 \<and>
     (whole \<longrightarrow> ci_task ci \<noteq> [] \<and> paired (ci_fr ci) (cs_history (ga_st g)) \<and>
        (\<forall>trailing after_tool. conformant (ci_fr ci) trailing after_tool (ga_messages g)))"

lemma gate_inv_quiet: "gate_inv whole ci st0 g \<Longrightarrow> quiet (ga_st g) s \<Longrightarrow> gate_inv whole ci st0 (g\<lparr>ga_st := s\<rparr>)"
  by (simp add: gate_inv_def quiet_def)

lemma gate_inv_numbers [simp]:
  "gate_inv whole ci st0 (g\<lparr>ga_usage := n\<rparr>) = gate_inv whole ci st0 g"
  "gate_inv whole ci st0 (g\<lparr>ga_decision := d\<rparr>) = gate_inv whole ci st0 g"
  by (simp_all add: gate_inv_def)

named_theorems gate_rules

lemma inv_sbind:
  assumes "I (snd m)" and "\<And>x s. m = (Inr x, s) \<Longrightarrow> I s \<Longrightarrow> I (snd (k x s))"
  shows "I (snd (sbind m k))"
  using assms by (cases m; cases "fst m") (auto simp: sbind_def)

lemma inv_ebind:
  assumes "I (snd m)" and "\<And>x s. m = (Inr (Inr x), s) \<Longrightarrow> I s \<Longrightarrow> I (snd (k x s))"
  shows "I (snd (ebind m k))"
  using assms by (cases m; cases "fst m") (auto simp: ebind_def sbind_def split: sum.split)

lemmas gate_sbind [gate_rules] = inv_sbind[of "gate_inv whole ci st0" for whole ci st0]
lemmas gate_ebind [gate_rules] = inv_ebind[of "gate_inv whole ci st0" for whole ci st0]

lemma gate_update_inv:
  "gate_inv whole ci st0 g \<Longrightarrow> quiet (ga_st g) (snd m) \<Longrightarrow>
     gate_inv whole ci st0 (snd (case m of (r, st) \<Rightarrow> (r, g\<lparr>ga_st := st\<rparr>)))"
  using gate_inv_quiet by (cases m) simp

lemma gate_log_inv [gate_rules]: "gate_inv whole ci st0 g \<Longrightarrow> gate_inv whole ci st0 (snd (gate_log kind content g))"
  unfolding gate_log_def by (intro gate_update_inv quiet_log_append)

lemma gate_stop_inv [gate_rules]: "gate_inv whole ci st0 g \<Longrightarrow> gate_inv whole ci st0 (snd (gate_stop final g))"
  unfolding gate_stop_def by (intro gate_update_inv quiet_stop_with)

lemma hard_stop_inv [gate_rules]: "gate_inv whole ci st0 g \<Longrightarrow> gate_inv whole ci st0 (snd (hard_stop g))"
  unfolding hard_stop_def by (intro gate_rules)

lemma gate_compose_inv:
  "gate_inv whole ci st0 g \<Longrightarrow> (whole \<Longrightarrow> paired (ci_fr ci) obs) \<Longrightarrow> gate_inv whole ci st0 (snd (gate_compose ci tf summary obs g))"
  by (auto simp: gate_compose_def gate_inv_def intro: conformant_request split: sum.split provider_error.split)

lemma stage2_inv: "gate_inv whole ci st0 g \<Longrightarrow> gate_inv whole ci st0 (snd (stage2_body ci tf g))"
proof -
  assume g: "gate_inv whole ci st0 g"
  obtain r store where p: "project_messages_after_mask (cs_history (ga_st g)) (Some (artifact_api ci)) 4 (cs_store (ga_st g)) = (r, store)"
    by fastforce
  let ?g = "g\<lparr>ga_st := (ga_st g)\<lparr>cs_store := store\<rparr>\<rparr>"
  have g': "gate_inv whole ci st0 ?g" using g by (simp add: gate_inv_def)
  have masked: "paired (ci_fr ci) h" if "r = Inr h" whole for h
    using paired_masked mask_from_masks[OF p[unfolded project_messages_after_mask_def that(1)]] g that(2)
    by (auto simp: gate_inv_def)
  have upd: "gate_inv whole ci st0 (g\<lparr>ga_st := (ga_st g)\<lparr>cs_history := h\<rparr>\<rparr>)"
    if "gate_inv whole ci st0 g" "r = Inr h" for h g using that masked by (simp add: gate_inv_def)
  show ?thesis unfolding stage2_body_def p Let_def prod.case
    by (intro gate_rules gate_compose_inv) (auto simp: g' intro: masked upd)
qed

lemma stage_handler_inv: "gate_inv whole ci st0 (snd m) \<Longrightarrow> gate_inv whole ci st0 (snd (stage_handler kind skip m))"
  by (auto simp: stage_handler_def intro!: gate_rules split: prod.split sum.split)

lemma ends_lift:
  "ends (verdict reply ci) m \<Longrightarrow> ends (\<lambda>out g. verdict reply ci out (ga_st g)) (case m of (r, st) \<Rightarrow> (r, g\<lparr>ga_st := st\<rparr>))"
  by (cases m) (simp add: ends_def)

lemma ends_gate_stop: "ends (\<lambda>out g. verdict reply ci out (ga_st g)) (gate_stop final g)"
  unfolding gate_stop_def by (rule ends_lift, rule ends_stop_with) auto

lemma ends_hard_stop: "ends (\<lambda>out g. verdict reply ci out (ga_st g)) (hard_stop g)"
  unfolding hard_stop_def by (rule ends_sbind, rule ends_gate_stop)

lemma run_compactor_inv: "gate_inv whole ci st0 g \<Longrightarrow> gate_inv whole ci st0 (snd (run_compactor ci t g))"
  by (auto simp: run_compactor_def gate_inv_def set_env_def Let_def split: prod.split)

lemma gate_inv_protected:
  "gate_inv whole ci st0 g \<Longrightarrow> whole \<Longrightarrow>
     paired (ci_fr ci) (drop (find_turn_boundary_backward (cs_history (ga_st g)) keep) (cs_history (ga_st g)))"
  by (simp add: gate_inv_def paired_protected)

lemma stage3_end_inv:
  assumes "gate_inv whole ci st0 g" and "whole \<Longrightarrow> paired (ci_fr ci) protected"
  shows "gate_inv whole ci st0 (snd (stage3_end updated protected post g)) \<and>
    ends (\<lambda>out g. verdict reply ci out (ga_st g)) (stage3_end updated protected post g)"
proof -
  obtain ok budget where r: "record_compaction_attempt (ga_usage g) post (cs_budget (ga_st g)) = (ok, budget)" by fastforce
  let ?g = "g\<lparr>ga_st := (ga_st g)\<lparr>cs_budget := budget\<rparr>\<rparr>"
  have g: "gate_inv whole ci st0 ?g" using assms(1) by (simp add: gate_inv_def)
  show ?thesis
  proof (cases ok)
    case True
    then show ?thesis using g assms(2) by (simp add: stage3_end_def r Let_def gate_inv_def)
  next
    case False
    then show ?thesis unfolding stage3_end_def r Let_def prod.case
      by (auto intro!: gate_rules g ends_sbind ends_gate_stop)
  qed
qed

lemma stage3_inv:
  assumes "gate_inv whole ci st0 g"
  shows "gate_inv whole ci st0 (snd (stage3_body ci tf g))"
proof -
  note p = gate_inv_protected[OF assms, of 4]
  show ?thesis unfolding stage3_body_def Let_def
    using assms p by (intro gate_rules) (auto intro!: gate_rules run_compactor_inv gate_compose_inv stage3_end_inv[THEN conjunct1])
qed

lemma stage3_ends: "ends (\<lambda>out g. verdict reply ci out (ga_st g)) (stage3_body ci tf g)"
proof -
  have "ends (\<lambda>out g. verdict reply ci out (ga_st g)) (stage3_end updated protected post g)" for updated protected post and g :: "'a gate"
    using stage3_end_inv[of False ci "ga_st g" g] by (simp add: gate_inv_def)
  then show ?thesis unfolding stage3_body_def Let_def by (auto intro!: ends_sbind)
qed

lemma stage_handler_ends: "ends R m \<Longrightarrow> ends R (stage_handler kind (Inr ()) m)"
  by (auto simp: stage_handler_def ends_def sbind_def split: prod.splits sum.splits if_splits)

lemma compaction_stages_inv: "gate_inv whole ci st0 g \<Longrightarrow> gate_inv whole ci st0 (snd (compaction_stages ci tf g))"
  unfolding compaction_stages_def
  by (intro gate_rules) (auto intro!: gate_rules stage2_inv stage3_inv stage_handler_inv)

lemma compaction_stages_ends: "ends (\<lambda>out g. verdict reply ci out (ga_st g)) (compaction_stages ci tf g)"
  unfolding compaction_stages_def
  by (auto intro!: ends_sbind ends_ebind ends_hard_stop stage_handler_ends stage3_ends)

lemma pressure_inv: "gate_inv whole ci st0 g \<Longrightarrow> gate_inv whole ci st0 (snd (pressure ci tf g))"
  unfolding pressure_def Let_def by (intro gate_rules) (auto intro!: gate_rules compaction_stages_inv)

lemma pressure_ends: "ends (\<lambda>out g. verdict reply ci out (ga_st g)) (pressure ci tf g)"
  unfolding pressure_def Let_def by (auto intro!: ends_sbind ends_hard_stop compaction_stages_ends)

text \<open>What the gate lets through, and how it ends a session.\<close>

lemma budget_gate_post:
  assumes "whole \<Longrightarrow> ci_task ci \<noteq> [] \<and> paired (ci_fr ci) (cs_history st) \<and> (\<forall>a b. conformant (ci_fr ci) a b (fst request))"
    and run: "budget_gate ci tf request st = (r, st')"
  shows "cs_turn st' = cs_turn st \<and> cs_results st' = cs_results st \<and>
    (\<forall>out. r = Inr (Inl out) \<longrightarrow> verdict reply ci out st') \<and>
    (whole \<longrightarrow> paired (ci_fr ci) (cs_history st') \<and>
       (\<forall>q. r = Inr (Inr q) \<longrightarrow> (\<forall>a b. conformant (ci_fr ci) a b (fst q))))"
proof (cases "case ci_flags ci of Some f \<Rightarrow> ff_context_budget_enabled f | None \<Rightarrow> True")
  case False
  then show ?thesis using assms by (auto simp: budget_gate_def split: prod.splits)
next
  case True
  obtain ms ex where q: "request = (ms, ex)" by (cases request)
  define d where "d = budget_check (cs_budget st) (usage_of ci ms)"
  define g where "g = \<lparr>ga_st = st, ga_messages = ms, ga_extras = ex, ga_usage = usage_of ci ms, ga_decision = d\<rparr>"
  define m where "m = (if br_action d = ''warn''
      then sbind (gate_log ''context_budget_warn'' (report_json d) g) (\<lambda>_ g. (Inr (Inr ()), g))
      else if br_action d \<in> {''stage2'', ''stage3''} then pressure ci tf g else (Inr (Inr ()), g))"
  have g: "gate_inv whole ci st g" using assms(1) by (auto simp: gate_inv_def g_def q)
  have i: "gate_inv whole ci st (snd m)"
    unfolding m_def using g by (auto intro!: gate_rules pressure_inv)
  have e: "ends (\<lambda>out g. verdict reply ci out (ga_st g)) m"
    unfolding m_def by (auto intro!: ends_sbind pressure_ends)
  have res: "budget_gate ci tf request st = (case m of
      (Inl e, g) \<Rightarrow> (Inl e, ga_st g) | (Inr (Inl out), g) \<Rightarrow> (Inr (Inl out), ga_st g)
    | (Inr (Inr _), g) \<Rightarrow> (Inr (Inr (ga_messages g, ga_extras g)), ga_st g))"
    using True by (simp add: budget_gate_def q m_def g_def d_def Let_def)
  obtain x g' where m: "m = (x, g')" by (cases m)
  show ?thesis using i e run unfolding res m
    by (auto simp: gate_inv_def ends_def split: sum.splits)
qed

section \<open>Turns\<close>

text \<open>The answers the chain can give.\<close>

definition chain_answer :: "'w requester \<Rightarrow> response_info \<Rightarrow> bool" where
  "chain_answer req r \<longleftrightarrow> (\<exists>rq s call_id ats s'. req rq s = (Inr (r, call_id, ats), s'))"

lemma request_attempt_answer:
  "request_attempt req rq st = (Inr (r, call_id, ats), st') \<Longrightarrow> chain_answer req r"
  unfolding chain_answer_def
  by (fastforce simp: request_attempt_def on_chain_def split: prod.splits sum.splits provider_error.splits)

lemma request_retry_answer:
  "request_retry ci req rq n st = (Inr (r, call_id, ats), st') \<Longrightarrow> chain_answer req r"
  by (induction n arbitrary: st)
     (auto dest: request_attempt_answer split: prod.splits sum.splits provider_error.splits)

lemma request_response_answer:
  "request_response ci req request st = (Inr r, st') \<Longrightarrow> chain_answer req r"
  unfolding request_response_def
  by (auto dest: request_retry_answer split: prod.splits sum.splits)

lemma handle_request_answer:
  assumes "handle_request ci m = (Inr (Inr (Some r)), st)"
  shows "m = (Inr r, st)"
  using assms
  by (auto simp: handle_request_def stop_with_def request_shape_failure_def sbind_def Let_def
      split: prod.splits sum.splits provider_error.splits if_splits)

lemma rmap_length: "rmap f xs = Inr ys \<Longrightarrow> length ys = length xs"
  by (induction xs arbitrary: ys) (auto simp: rbind_def split: sum.splits)

lemma build_tool_calls_length: "build_tool_calls fr loads raws = Inr calls \<Longrightarrow> length calls = length raws"
  by (auto simp: build_tool_calls_def dest!: rmap_length)

lemma take_answer_post:
  assumes "take_answer ci r st = (Inr calls, st')"
  obtains m where "assistant_message (ci_fr ci) r calls = Inr m" "cs_history st' = cs_history st @ [m]"
    "cs_turn st' = cs_turn st" "cs_results st' = cs_results st" "length calls = length (rs_tool_calls r)"
proof -
  from assms obtain m where b: "build_tool_calls (ci_fr ci) (ci_json_loads ci) (rs_tool_calls r) = Inr calls"
    and m: "assistant_message (ci_fr ci) r calls = Inr m"
    and l: "log_append ''model'' ''model_msg'' (model_msg_content r) (st\<lparr>cs_history := cs_history st @ [m]\<rparr>) = (Inr (), st')"
    by (auto simp: take_answer_def sbind_Inr)
  have "quiet (st\<lparr>cs_history := cs_history st @ [m]\<rparr>) st'" using quiet_log_append l by (metis snd_conv)
  with that[OF m] build_tool_calls_length[OF b] show ?thesis by (simp add: quiet_def)
qed

lemma append_tool_message_post:
  assumes "append_tool_message ci call result st = (Inr (), st')"
  shows "\<exists>t. cs_history st' = cs_history st @ [tool_message call t] \<and> cs_turn st' = cs_turn st"
proof -
  from assms obtain spec where spec: "projection_spec_for_call (ci_registry ci) call = Inr spec"
    by (cases "projection_spec_for_call (ci_registry ci) call") (auto simp: append_tool_message_def sbind_def)
  obtain x store where p: "project_for_model (ci_sha ci) (ci_fr ci) spec result (cs_store st) = (x, store)" by fastforce
  show ?thesis using assms by (cases x) (auto simp: append_tool_message_def sbind_def spec p)
qed

lemma append_tool_messages_post:
  "append_tool_messages ci calls results st = (Inr (), st') \<Longrightarrow>
     \<exists>ts. length ts = length calls \<and> cs_history st' = cs_history st @ map2 tool_message calls ts \<and> cs_turn st' = cs_turn st"
proof (induction ci calls results st arbitrary: st' rule: append_tool_messages.induct)
  case (2 ci call calls result results st)
  from 2(2) obtain s where s: "append_tool_message ci call result st = (Inr (), s)"
    and rest: "append_tool_messages ci calls results s = (Inr (), st')" by (auto simp: sbind_Inr)
  from append_tool_message_post[OF s] obtain t where t: "cs_history s = cs_history st @ [tool_message call t]"
    "cs_turn s = cs_turn st" by blast
  from 2(1)[OF rest] obtain ts where "length ts = length calls"
    "cs_history st' = cs_history s @ map2 tool_message calls ts" "cs_turn st' = cs_turn s" by auto
  then show ?case using t by (intro exI[of _ "t # ts"]) simp
qed auto

lemma quiet_record_skipped [quiet_rules]: "quiet st (snd (record_skipped rs st))"
  by (induction rs st rule: record_skipped.induct) (auto intro!: quiet_rules)

lemma quiet_pad_results [quiet_rules]: "quiet st (snd (pad_results ci n calls results st))"
  by (auto simp: pad_results_def Let_def intro!: quiet_rules split: prod.split)

lemma quiet_latch: "quiet st (snd (latch_exhausted results st))"
  using quiet_log_append[of "st\<lparr>cs_exhausted := True\<rparr>"]
  by (auto simp: latch_exhausted_def quiet_def)

lemma tool_phase_post:
  assumes "tool_phase ci calls st = (Inr t, st')"
  shows "cs_turn st' = cs_turn st \<and>
    (t = NextTurn \<longrightarrow> (\<exists>ts. length ts = length calls \<and> cs_history st' = cs_history st @ map2 tool_message calls ts))"
proof -
  from assms obtain run s where run: "run_batch_of_calls ci calls st = (Inr run, s)"
    and rest: "(if ends_session (sr_stop run) then (Inr StopLoop, observe_stop (sr_stop run) s)
        else sbind (pad_results ci (length (log_events st)) calls (sr_results run) s) (\<lambda>results st.
          sbind (latch_exhausted results (collect_results calls results st)) (\<lambda>_ st.
          sbind (append_tool_messages ci calls results st) (\<lambda>_ st. (Inr NextTurn, st))))) = (Inr t, st')"
    by (auto simp: tool_phase_def Let_def sbind_Inr)
  have s: "quiet st s" using quiet_on_ls[of st] run unfolding run_batch_of_calls_def by (metis snd_conv)
  show ?thesis
  proof (cases "ends_session (sr_stop run)")
    case True
    with rest s show ?thesis by (auto simp: quiet_def observe_stop_def split: option.splits)
  next
    case False
    with rest obtain results s1 s2 where p: "pad_results ci (length (log_events st)) calls (sr_results run) s = (Inr results, s1)"
      and l: "latch_exhausted results (collect_results calls results s1) = (Inr (), s2)"
      and a: "append_tool_messages ci calls results s2 = (Inr (), st')" and t: "t = NextTurn"
      by (auto simp: sbind_Inr)
    have "quiet s s1" using quiet_pad_results p by (metis snd_conv)
    moreover have "quiet (collect_results calls results s1) s2" using quiet_latch l by (metis snd_conv)
    ultimately have "cs_history s2 = cs_history st" "cs_turn s2 = cs_turn st"
      using s by (simp_all add: quiet_def collect_results_def)
    then show ?thesis using append_tool_messages_post[OF a] t by auto
  qed
qed

section \<open>Rounds\<close>

text \<open>Extra attributes of an answer that leave its role alone.\<close>

definition plain_answer :: "response_info \<Rightarrow> bool" where
  "plain_answer r \<longleftrightarrow> (\<forall>kvs. map_of (rs_extras r) ''message_extras'' = Some (JObj kvs) \<longrightarrow> ''role'' \<notin> fst ` set kvs)"

lemma message_extras_keys:
  "message_extras r = Inr kvs \<Longrightarrow> plain_answer r \<Longrightarrow> map_of (rev kvs) ''role'' = None"
  by (auto simp: message_extras_def plain_answer_def map_of_eq_None_iff split: option.splits json.splits)

lemma str_or_empty_string: "str_or_empty fr (JStr s) = s"
  by (simp add: str_or_empty_def json_str_def)

lemma call_message_ids:
  "length calls = length raws \<Longrightarrow>
     map (\<lambda>v. case v of JObj c \<Rightarrow> str_or_empty fr (msg_get c ''id'') | _ \<Rightarrow> []) (tool_calls_for_message fr raws calls) =
       map tc_call_id calls \<and> list_all is_obj (tool_calls_for_message fr raws calls)"
  unfolding tool_calls_for_message_def
  by (induction calls raws rule: list_induct2)
     (auto simp: tool_call_for_message_def is_obj_def Let_def msg_get_def str_or_empty_string)

lemma assistant_message_round:
  assumes "assistant_message fr r calls = Inr m" and "plain_answer r" and "calls \<noteq> []" and "length calls = length (rs_tool_calls r)"
  shows "msg_role m = JStr ''assistant'' \<and> calls_ok m \<and> call_ids fr m = map tc_call_id calls"
proof -
  let ?tcs = "tool_calls_for_message fr (rs_tool_calls r) calls"
  from assms(1,3) obtain kvs where k: "message_extras r = Inr kvs"
    and m: "m = AList.update ''tool_calls'' (JList ?tcs)
              (dict_update [(''role'', JStr ''assistant''), (''content'', JStr (rs_text r))] kvs)"
    by (auto simp: assistant_message_def rbind_def Let_def split: sum.splits)
  have role: "msg_role m = JStr ''assistant''"
    by (simp add: m msg_get_def update_conv map_of_dict_update message_extras_keys[OF k assms(2)])
  have tcs: "msg_get m ''tool_calls'' = JList ?tcs" by (simp add: m msg_get_def update_conv)
  note ids = call_message_ids[OF assms(4), of fr]
  show ?thesis using role ids by (simp add: calls_ok_def call_ids_def tcs)
qed

lemma paired_extend:
  assumes "paired fr h" and "assistant_message fr r calls = Inr m" and "plain_answer r" and "calls \<noteq> []"
    and "length calls = length (rs_tool_calls r)" and "length ts = length calls"
  shows "paired fr (h @ m # map2 tool_message calls ts)"
proof -
  note round = assistant_message_round[OF assms(2-5)]
  have "map (answer_id fr) (map2 tool_message calls ts) = map tc_call_id calls"
    using assms(6) by (induction ts calls rule: list_induct2) (auto simp: tool_message_def msg_get_def str_or_empty_string)
  moreover have "\<forall>t \<in> set (map2 tool_message calls ts). msg_role t = JStr ''tool''"
    by (auto simp: tool_message_def msg_get_def)
  moreover have "map2 tool_message calls ts \<noteq> []" using assms(4,6) by (cases calls; cases ts) auto
  ultimately show ?thesis using assms(1) round by (intro paired.paired_round) auto
qed

section \<open>A turn and the loop\<close>

text \<open>Whole: the task is not empty, the conversation complete, and answers leave their role alone.\<close>

definition whole_conversation :: "'w coder_input \<Rightarrow> 'w requester \<Rightarrow> 'w coder_state \<Rightarrow> bool" where
  "whole_conversation ci req st \<longleftrightarrow>
     ci_task ci \<noteq> [] \<and> paired (ci_fr ci) (cs_history st) \<and> (\<forall>r. chain_answer req r \<longrightarrow> plain_answer r)"

text \<open>What a prefix of the turn leaves behind, up to the request.\<close>

definition prepared ::
  "(response_info \<Rightarrow> bool) \<Rightarrow> 'w coder_input \<Rightarrow> 'w requester \<Rightarrow> 'w coder_state
     \<Rightarrow> (session_outcome + json_obj list \<times> json_obj) py_result \<times> 'w coder_state \<Rightarrow> bool" where
  "prepared reply ci req st m \<longleftrightarrow> (\<forall>z st'. m = (Inr z, st') \<longrightarrow>
     cs_turn st' = cs_turn st \<and> cs_results st' = cs_results st \<and>
     (\<forall>out. z = Inl out \<longrightarrow> verdict reply ci out st') \<and>
     (whole_conversation ci req st \<longrightarrow> paired (ci_fr ci) (cs_history st') \<and>
       (\<forall>q. z = Inr q \<longrightarrow> (\<forall>a b. conformant (ci_fr ci) a b (fst q)))))"

lemma prepared_sbind:
  assumes "quiet st s0" and "quiet s0 (snd m)" and "\<And>x s. m = (Inr x, s) \<Longrightarrow> quiet st s \<Longrightarrow> prepared reply ci req st (k x s)"
  shows "prepared reply ci req st (sbind m k)"
proof (cases m)
  case (Pair r s)
  with assms(1,2) have "quiet st s" by (auto intro: quiet_trans)
  with Pair assms(3) show ?thesis by (cases r) (auto simp: sbind_def prepared_def)
qed

lemma prepared_stop:
  "quiet st s \<Longrightarrow> verdict reply ci out s \<Longrightarrow> prepared reply ci req st (Inr (Inl out), s)"
  by (auto simp: prepared_def quiet_def whole_conversation_def)

lemma prepared_ebind:
  assumes "quiet st s0" and "quiet s0 (snd m)" and "ends (verdict reply ci) m"
    and "\<And>x s. m = (Inr (Inr x), s) \<Longrightarrow> quiet st s \<Longrightarrow> prepared reply ci req st (k x s)"
  shows "prepared reply ci req st (ebind m k)"
  unfolding ebind_def
proof (rule prepared_sbind[OF assms(1,2)])
  fix x s
  assume m: "m = (Inr x, s)" and q: "quiet st s"
  show "prepared reply ci req st (case x of Inl out \<Rightarrow> (Inr (Inl out), s) | Inr x \<Rightarrow> k x s)"
  proof (cases x)
    case (Inl out)
    then have "verdict reply ci out s" using assms(3) m by (simp add: ends_def)
    from prepared_stop[OF q this] show ?thesis unfolding Inl by simp
  next
    case (Inr y)
    from assms(4)[OF m[unfolded Inr] q] show ?thesis unfolding Inr by simp
  qed
qed

lemma prepared_budget:
  assumes q: "quiet st s" and g: "compose_gate ci tf s = (Inr (Inr request), s')"
  shows "prepared reply ci req st (budget_gate ci tf request s')"
  unfolding prepared_def
proof (intro allI impI)
  fix z st'
  assume run: "budget_gate ci tf request s' = (Inr z, st')"
  have s': "s' = s" and comp: "compose_request_payload ci tf (cs_summary s) (cs_history s) = Inr (fst request, snd request)"
    using g by (auto simp: compose_gate_def request_shape_failure_def stop_with_def sbind_def
        split: sum.splits provider_error.splits prod.splits)
  have "ci_task ci \<noteq> [] \<and> paired (ci_fr ci) (cs_history s') \<and> (\<forall>a b. conformant (ci_fr ci) a b (fst request))"
    if "whole_conversation ci req st"
    using that conformant_request[OF comp] q by (auto simp: s' whole_conversation_def quiet_def)
  from budget_gate_post[OF this run] q s' show "cs_turn st' = cs_turn st \<and> cs_results st' = cs_results st \<and>
     (\<forall>out. z = Inl out \<longrightarrow> verdict reply ci out st') \<and>
     (whole_conversation ci req st \<longrightarrow> paired (ci_fr ci) (cs_history st') \<and>
       (\<forall>q. z = Inr q \<longrightarrow> (\<forall>a b. conformant (ci_fr ci) a b (fst q))))" by (auto simp: quiet_def)
qed

lemma prepare_request_prepared: "prepared reply ci req st (prepare_request ci st)"
  unfolding prepare_request_def Let_def
  by (rule prepared_sbind[OF quiet_refl quiet_ceremony_step], rule prepared_sbind[OF _ quiet_scope_boundary], assumption,
      rule prepared_ebind[OF _ quiet_hook_gate ends_hook_gate], assumption,
      rule prepared_ebind[OF _ quiet_pairing_gate ends_pairing_gate], assumption,
      rule prepared_ebind[OF _ quiet_compose_gate ends_compose_gate], assumption, rule prepared_budget)

lemma ebind_Inr: "ebind m k = (Inr z, s) \<Longrightarrow>
    (\<exists>out. z = Inl out \<and> m = (Inr (Inl out), s)) \<or> (\<exists>x s'. m = (Inr (Inr x), s') \<and> k x s' = (Inr z, s))"
  by (auto simp: ebind_def sbind_def split: prod.splits sum.splits)

text \<open>What the rest of a turn leaves behind.\<close>

definition turn_post ::
  "'w coder_input \<Rightarrow> 'w requester \<Rightarrow> bool \<Rightarrow> nat \<Rightarrow> session_outcome + turn_end \<Rightarrow> 'w coder_state \<Rightarrow> bool" where
  "turn_post ci req whole n z st' \<longleftrightarrow>
     (\<forall>out. z = Inl out \<longrightarrow> verdict (chain_answer req) ci out st') \<and> cs_turn st' = n \<and>
     (whole \<longrightarrow> z = Inr NextTurn \<longrightarrow> paired (ci_fr ci) (cs_history st'))"

lemma quiet_stop_without_calls: "quiet st (snd (stop_without_calls r st))"
  unfolding stop_without_calls_def by (intro quiet_rules)

lemma stop_without_calls_result:
  "stop_without_calls r st = (Inr z, s) \<Longrightarrow> \<exists>out. z = Inl out \<and> quiet st s"
proof -
  assume run: "stop_without_calls r st = (Inr z, s)"
  have "quiet st s" using quiet_stop_without_calls[of st r] run by (metis snd_conv)
  then show ?thesis using run
    by (auto simp: stop_without_calls_def stop_with_def sbind_def split: if_splits prod.splits sum.splits)
qed

lemma after_response_post:
  assumes run: "after_response ci r st = (Inr z, st')" and r: "chain_answer req r"
    and whole: "whole \<Longrightarrow> paired (ci_fr ci) (cs_history st) \<and> plain_answer r"
  shows "turn_post ci req whole (cs_turn st) z st'"
proof -
  from ebind_Inr[OF run[unfolded after_response_def]] show ?thesis
  proof (elim disjE exE conjE)
    fix out assume h: "z = Inl out" "hook_gate ci AFTER_LLM_CALL st = (Inr (Inl out), st')"
    have "quiet st st'" using quiet_hook_gate[of st ci AFTER_LLM_CALL] h(2) by simp
    moreover have "verdict (chain_answer req) ci out st'"
      using ends_hook_gate[of "chain_answer req" ci AFTER_LLM_CALL st] h(2) by (simp add: ends_def)
    ultimately show ?thesis using h(1) by (simp add: turn_post_def quiet_def)
  next
    fix u s
    assume h: "hook_gate ci AFTER_LLM_CALL st = (Inr (Inr u), s)"
      and "sbind (take_answer ci r s) (\<lambda>calls st. if calls = [] then stop_without_calls r st
             else sbind (tool_phase ci calls st) (\<lambda>t st. (Inr (Inr t), st))) = (Inr z, st')"
    then obtain calls s1 where t: "take_answer ci r s = (Inr calls, s1)"
      and rest: "(if calls = [] then stop_without_calls r s1
             else sbind (tool_phase ci calls s1) (\<lambda>t st. (Inr (Inr t), st))) = (Inr z, st')" by (auto simp: sbind_Inr)
    have q: "quiet st s" using quiet_hook_gate[of st ci AFTER_LLM_CALL] h by simp
    from take_answer_post[OF t] obtain m where m: "assistant_message (ci_fr ci) r calls = Inr m"
      "cs_history s1 = cs_history s @ [m]" "cs_turn s1 = cs_turn s" "length calls = length (rs_tool_calls r)" by blast
    show ?thesis
    proof (cases "calls = []")
      case True
      with rest have stop: "stop_without_calls r s1 = (Inr z, st')" by simp
      from stop_without_calls_result[OF stop] obtain out where out: "z = Inl out" "quiet s1 st'" by blast
      have "ends (verdict (chain_answer req) ci) (Inr z, st')"
        unfolding stop[symmetric] by (rule ends_stop_without_calls) (use m True r in auto)
      then show ?thesis using out m(3) q by (auto simp: turn_post_def quiet_def)
    next
      case False
      with rest obtain t where tp: "tool_phase ci calls s1 = (Inr t, st')" and z: "z = Inr t" by (auto simp: sbind_Inr)
      note post = tool_phase_post[OF tp]
      have "paired (ci_fr ci) (cs_history st')" if "whole" "t = NextTurn"
        using post that(2) m q whole[OF that(1)] paired_extend[of "ci_fr ci" "cs_history st" r calls m, OF _ m(1) _ False m(4)]
        by (auto simp: quiet_def)
      then show ?thesis using post m(3) q z by (auto simp: turn_post_def quiet_def)
    qed
  qed
qed

lemma coder_turn_post:
  assumes run: "coder_turn ci req st = (Inr z, st')"
  shows "turn_post ci req (whole_conversation ci req st) (Suc (cs_turn st)) z st'"
proof -
  let ?st = "st\<lparr>cs_turn := cs_turn st + 1\<rparr>"
  have whole: "whole_conversation ci req ?st \<longleftrightarrow> whole_conversation ci req st" by (simp add: whole_conversation_def)
  from ebind_Inr[OF run[unfolded coder_turn_def]] show ?thesis
  proof (elim disjE exE conjE)
    fix out assume h: "z = Inl out" "prepare_request ci ?st = (Inr (Inl out), st')"
    then show ?thesis using prepare_request_prepared[of "chain_answer req" ci req ?st] by (auto simp: turn_post_def prepared_def)
  next
    fix request s
    assume p: "prepare_request ci ?st = (Inr (Inr request), s)"
      and rest: "ebind (handle_request ci (request_response ci req request s))
        (\<lambda>answer st. case answer of None \<Rightarrow> (Inr (Inr NextTurn), st) | Some r \<Rightarrow> after_response ci r st) = (Inr z, st')"
    have s: "cs_turn s = Suc (cs_turn st)" "whole_conversation ci req st \<Longrightarrow> paired (ci_fr ci) (cs_history s)"
      using prepare_request_prepared[of "chain_answer req" ci req ?st] p whole by (auto simp: prepared_def)
    obtain a s1 where a: "request_response ci req request s = (a, s1)" by fastforce
    have q1: "quiet s s1" using quiet_request_response[of s ci req request] a by simp
    have q: "quiet s (snd (handle_request ci (a, s1)))" using quiet_trans[OF q1 quiet_handle_request] .
    from ebind_Inr[OF rest[unfolded a]] show ?thesis
    proof (elim disjE exE conjE)
      fix out assume h: "z = Inl out" "handle_request ci (a, s1) = (Inr (Inl out), st')"
      then show ?thesis using ends_handle_request[of "chain_answer req" ci a s1] q s(1)
        by (auto simp: turn_post_def ends_def quiet_def)
    next
      fix answer s2
      assume h: "handle_request ci (a, s1) = (Inr (Inr answer), s2)"
        and rest: "(case answer of None \<Rightarrow> (Inr (Inr NextTurn), s2) | Some r \<Rightarrow> after_response ci r s2) = (Inr z, st')"
      have q2: "quiet s s2" using q h by simp
      show ?thesis
      proof (cases answer)
        case None
        with rest q2 s show ?thesis by (auto simp: turn_post_def quiet_def)
      next
        case (Some r)
        have "chain_answer req r" using request_response_answer[of ci req request s r s1] handle_request_answer[of ci "(a, s1)" r s2] h Some a by auto
        moreover have "paired (ci_fr ci) (cs_history s2) \<and> plain_answer r" if "whole_conversation ci req st"
          using s(2)[OF that] q2 that \<open>chain_answer req r\<close> by (auto simp: quiet_def whole_conversation_def)
        ultimately show ?thesis
          using after_response_post[of ci r s2 z st' req "whole_conversation ci req st"] rest Some q2 s(1) by (simp add: quiet_def)
      qed
    qed
  qed
qed

lemma iteration_cap_stop_post:
  assumes run: "iteration_cap_stop st = (Inr out, st')"
  shows "verdict reply ci out st' \<and> cs_turn st' = cs_turn st"
proof -
  from run obtain s where s: "log_append ''runtime'' ''run_stopped'' [(''reason'', JStr ''iteration_cap''), (''turns'', JInt (int (cs_turn st)))] st = (Inr (), s)"
    and f: "finish (outcome 1 ''iteration_cap'' [] s) s = (Inr out, st')" by (auto simp: iteration_cap_stop_def sbind_Inr)
  have "verdict reply ci (outcome 1 ''iteration_cap'' [] s) s"
    using stop_logged_here[OF s] by (simp add: verdict_def outcome_def)
  from verdict_finish[OF this f] have "verdict reply ci out st'" by blast
  moreover have "quiet s st'" using quiet_finish[of s "outcome 1 ''iteration_cap'' [] s"] f by simp
  moreover have "quiet st s" using quiet_log_append[of st] s by (metis snd_conv)
  ultimately show ?thesis by (simp add: quiet_def)
qed

lemma coder_loop_post:
  "coder_loop ci req n st = (Inr out, st') \<Longrightarrow> verdict (chain_answer req) ci out st' \<and> cs_turn st' \<le> cs_turn st + n"
proof (induction n arbitrary: st)
  case 0
  then show ?case using iteration_cap_stop_post[of st out st' "chain_answer req" ci] by simp
next
  case (Suc n)
  from Suc.prems obtain z s where t: "coder_turn ci req st = (Inr z, s)"
    and rest: "(case z of Inl out \<Rightarrow> (Inr out, s) | Inr StopLoop \<Rightarrow> iteration_cap_stop s
        | Inr NextTurn \<Rightarrow> coder_loop ci req n s) = (Inr out, st')" by (auto simp: sbind_Inr)
  note post = coder_turn_post[OF t, unfolded turn_post_def]
  show ?case
  proof (cases z)
    case (Inl o1)
    with rest post show ?thesis by auto
  next
    case (Inr e)
    with rest post Suc.IH[of s] iteration_cap_stop_post[of s out st' "chain_answer req" ci] show ?thesis
      by (cases e) auto
  qed
qed

section \<open>Whole sessions\<close>

lemma open_session_quiet: "quiet (restore_history ci (st\<lparr>cs_budget := b\<rparr>)) s \<Longrightarrow> cs_turn s = cs_turn st"
  by (simp add: quiet_def restore_history_def split: prod.splits)

lemma open_session_post:
  assumes "open_session ci st = (Inr (), st')"
  obtains s b where "cs_turn st' = cs_turn st" "quiet (restore_history ci (s\<lparr>cs_budget := b\<rparr>)) st'"
    "log_events s = log_events st \<or> (\<exists>row. ev_kind row = ''telemetry'' \<and> log_events s = log_events st @ [row])"
proof -
  let ?limit = "cc_context_limit (pc_config (ci_chain ci))"
  from assms obtain limit s where c: "clamp_context_limit ci st = (Inr limit, s)"
    and rest: "sbind (log_append ''user'' ''user_msg'' [(''text'', JStr (ci_task ci))]
         (restore_history ci (s\<lparr>cs_budget := context_budget_init limit (cc_compaction_threshold (pc_config (ci_chain ci)))\<rparr>))) (\<lambda>_ st.
       log_append ''runtime'' ''run_started''
         [(''role'', JStr (ci_role ci)), (''max_turns'', JInt (ci_max_turns ci)), (''temperature'', ci_temperature ci)] st) = (Inr (), st')"
    by (auto simp: open_session_def sbind_Inr Let_def)
  let ?s = "restore_history ci (s\<lparr>cs_budget := context_budget_init limit (cc_compaction_threshold (pc_config (ci_chain ci)))\<rparr>)"
  have "quiet ?s (snd (sbind (log_append ''user'' ''user_msg'' [(''text'', JStr (ci_task ci))] ?s) (\<lambda>_ st.
       log_append ''runtime'' ''run_started''
         [(''role'', JStr (ci_role ci)), (''max_turns'', JInt (ci_max_turns ci)), (''temperature'', ci_temperature ci)] st)))"
    by (intro quiet_rules)
  then have q: "quiet ?s st'" unfolding rest by simp
  have "log_events s = log_events st \<or> (\<exists>row. ev_kind row = ''telemetry'' \<and> log_events s = log_events st @ [row])"
  proof (cases "?limit < MIN_CONTEXT_LIMIT")
    case True
    with c have a: "log_append ''runtime'' ''telemetry''
             [(''message'', JStr (''context_limit='' @ int_str ?limit @ '' below floor 32000, clamped''))] st = (Inr (), s)"
      by (auto simp: clamp_context_limit_def sbind_Inr Let_def)
    obtain elog elog' row where "ss_log (session_of st) = Some elog" "ss_log (session_of s) = Some elog'"
      "el_redactor elog' = el_redactor elog" "log_events s = log_events st @ [row]" "ev_kind row = ''telemetry''"
      by (rule log_append_post[OF a])
    then show ?thesis by blast
  next
    case False
    with c show ?thesis by (simp add: clamp_context_limit_def Let_def)
  qed
  moreover have "quiet st s"
    using c quiet_log_append[of st] by (auto simp: clamp_context_limit_def Let_def sbind_Inr quiet_refl split: if_splits) (metis snd_conv)
  then have "cs_turn st' = cs_turn st" using open_session_quiet[OF q] by (simp add: quiet_def)
  ultimately show ?thesis using that q by blast
qed

text \<open>C5: 
  How a session ends: within its turns, with one of four exit codes; with 0 exactly when the model
  stopped, which means that the last message is an answer the provider chain gave, without tool calls
  and with a terminal finish reason, whose text is the final text; and every other end has left a
  \<open>run_stopped\<close> row with its reason (as the redactor of the log writes it).
\<close>
theorem session_outcome_honest:
  assumes "drive_session ci ls cds store = (Inr out, st)"
  shows "so_turns out \<le> nat (ci_max_turns ci) \<and> so_exit_code out \<in> {0, 1, 2, 130} \<and>
    (so_exit_code out = 0 \<longleftrightarrow> so_stop_reason out = ''stopped_by_llm'') \<and>
    (so_exit_code out = 0 \<longrightarrow>
       (\<exists>r rq s call_id ats s' h m. chain_request (ci_chain ci) rq None s = (Inr (r, call_id, ats), s') \<and>
          rs_tool_calls r = [] \<and> terminal_finish r \<and> so_final_text out = rs_text r \<and>
          assistant_message (ci_fr ci) r [] = Inr m \<and> cs_history st = h @ [m])) \<and>
    (so_exit_code out \<noteq> 0 \<longrightarrow>
       (\<exists>elog row. ss_log (session_of st) = Some elog \<and> row \<in> set (log_events st) \<and> ev_kind row = ''run_stopped'' \<and>
          msg_get (ev_content row) ''reason'' = JStr (redact_of elog (so_stop_reason out))))"
proof -
  from assms obtain s where o: "open_session ci (start_state ci ls cds store) = (Inr (), s)"
    and l: "coder_loop ci (chain_requester ci) (nat (ci_max_turns ci)) s = (Inr out, st)"
    by (auto simp: drive_session_def drive_with_def sbind_Inr split: if_splits)
  obtain s1 b where "cs_turn s = cs_turn (start_state ci ls cds store)" by (rule open_session_post[OF o])
  then have "cs_turn s = 0" by (simp add: start_state_def)
  with coder_loop_post[OF l] have v: "verdict (chain_answer (chain_requester ci)) ci out st" "cs_turn st \<le> nat (ci_max_turns ci)"
    by auto
  then have "so_turns out \<le> nat (ci_max_turns ci)" by (simp add: verdict_def)
  moreover have "\<exists>r rq s call_id ats s' h m. chain_request (ci_chain ci) rq None s = (Inr (r, call_id, ats), s') \<and>
          rs_tool_calls r = [] \<and> terminal_finish r \<and> so_final_text out = rs_text r \<and>
          assistant_message (ci_fr ci) r [] = Inr m \<and> cs_history st = h @ [m]" if "so_exit_code out = 0"
    using v(1) that unfolding verdict_def answered_def chain_answer_def chain_requester_def by metis
  ultimately show ?thesis using v(1) unfolding verdict_def stop_logged_def by blast
qed

section \<open>The states in which turns begin\<close>

inductive turn_starts :: "'w coder_input \<Rightarrow> 'w requester \<Rightarrow> 'w coder_state \<Rightarrow> 'w coder_state \<Rightarrow> bool"
  for ci req st0 where
  first_turn: "open_session ci st0 = (Inr (), st) \<Longrightarrow> turn_starts ci req st0 st"
| next_turn: "turn_starts ci req st0 st \<Longrightarrow> coder_turn ci req st = (Inr (Inr NextTurn), st') \<Longrightarrow> turn_starts ci req st0 st'"

definition conversation_kinds :: "string set" where
  "conversation_kinds = {''user_msg'', ''model_msg'', ''tool_result''}"

lemma since_compaction_set: "set (snd (since_compaction fr evs acc)) \<subseteq> set evs \<union> set (snd acc)"
  by (induction fr evs acc rule: since_compaction.induct) auto

lemma rebuild_empty:
  assumes "\<forall>ev \<in> set evs. ev_kind ev \<notin> conversation_kinds"
  shows "snd (rebuild_history fr evs) = []"
proof -
  obtain summary relevant where s: "since_compaction fr evs ([], []) = (summary, relevant)" by fastforce
  have "\<forall>ev \<in> set relevant. replay_event fr ev = []"
    using since_compaction_set[of fr evs "([], [])"] s assms by (auto simp: replay_event_def conversation_kinds_def Let_def)
  then show ?thesis by (simp add: rebuild_history_def s)
qed

lemma open_session_history:
  assumes "open_session ci st = (Inr (), st')" and "\<forall>ev \<in> set (log_events st). ev_kind ev \<notin> conversation_kinds"
  shows "cs_history st' = []"
proof -
  obtain s b where q: "quiet (restore_history ci (s\<lparr>cs_budget := b\<rparr>)) st'"
    and l: "log_events s = log_events st \<or> (\<exists>row. ev_kind row = ''telemetry'' \<and> log_events s = log_events st @ [row])"
    by (rule open_session_post[OF assms(1)])
  have "\<forall>ev \<in> set (log_events s). ev_kind ev \<notin> conversation_kinds"
    using l assms(2) by (auto simp: conversation_kinds_def)
  moreover have "cs_history (restore_history ci (s\<lparr>cs_budget := b\<rparr>)) = snd (rebuild_history (ci_fr ci) (log_events s))"
    by (simp add: restore_history_def log_events_def session_of_def split: prod.split)
  ultimately show ?thesis using rebuild_empty q by (simp add: quiet_def)
qed

lemma turn_starts_whole:
  assumes "turn_starts ci req st0 st" and "\<forall>ev \<in> set (log_events st0). ev_kind ev \<notin> conversation_kinds"
    and "ci_task ci \<noteq> []" and "\<forall>r. chain_answer req r \<longrightarrow> plain_answer r"
  shows "whole_conversation ci req st"
  using assms(1)
proof induction
  case (first_turn st)
  then show ?case using open_session_history[OF _ assms(2)] assms(3,4) by (simp add: whole_conversation_def paired_empty)
next
  case (next_turn st st')
  from coder_turn_post[OF next_turn.hyps(2)] next_turn.IH show ?case
    by (simp add: turn_post_def whole_conversation_def)
qed

text \<open>C4: 
  A session that starts on a log without conversation sends only requests a provider accepts: at every
  turn the messages that come out of composition and of the context budget (whether masked, compacted
  or untouched) satisfy every set of message rules: the last role is user or tool, no user turn
  follows a tool result, every tool call has its result and every result its call.
\<close>
theorem requests_conform:
  assumes "turn_starts ci req st0 st" and "\<forall>ev \<in> set (log_events st0). ev_kind ev \<notin> conversation_kinds"
    and "ci_task ci \<noteq> []" and "\<forall>r. chain_answer req r \<longrightarrow> plain_answer r"
    and "prepare_request ci (st\<lparr>cs_turn := cs_turn st + 1\<rparr>) = (Inr (Inr (messages, extras)), st')"
  shows "conformant (ci_fr ci) trailing after_tool messages"
proof -
  have "whole_conversation ci req (st\<lparr>cs_turn := cs_turn st + 1\<rparr>)"
    using turn_starts_whole[OF assms(1-4)] by (simp add: whole_conversation_def)
  then show ?thesis
    using prepare_request_prepared[of "\<lambda>_. True" ci req "st\<lparr>cs_turn := cs_turn st + 1\<rparr>"] assms(5)
    by (auto simp: prepared_def)
qed

section \<open>A session that runs\<close>

text \<open>A log whose writes succeed, hooks without middleware, no cooldowns.\<close>

definition ready :: "'w coder_state \<Rightarrow> bool" where
  "ready st \<longleftrightarrow> (\<exists>elog. ss_log (session_of st) = Some elog \<and> log_db_ok elog \<and> sdb_env (el_db elog) = [] \<and>
     (sdb_session_id (el_db elog) = [] \<or> el_session_id elog = sdb_session_id (el_db elog))) \<and>
   hr_chains (fst (cs_ls st)) = (\<lambda>_. []) \<and> cs_cds st = []"

lemma ready_append:
  assumes "ready st"
  obtains st' where "log_append actor kind content st = (Inr (), st')" "ready st'" "quiet st st'"
    "cs_summary_written st' = cs_summary_written st"
proof -
  obtain hr w where ls: "cs_ls st = (hr, w)" by (cases "cs_ls st")
  from assms obtain elog where e: "ss_log (lw_state w) = Some elog" "log_db_ok elog" "sdb_env (el_db elog) = []"
    "sdb_session_id (el_db elog) = [] \<or> el_session_id elog = sdb_session_id (el_db elog)"
    by (auto simp: ready_def session_of_def ls)
  let ?p = "\<lparr>ev_event_id = [], ev_ts = el_clock elog, ev_run_id = el_run_id elog, ev_actor = actor,
                     ev_kind = kind, ev_content = redact_content (el_redactor elog) content,
                     ev_harness_id = HARNESS_ID, ev_tool_name = [], ev_tool_call_id = [],
                     ev_parent_event_id = [], ev_session_id = el_session_id elog\<rparr>"
  obtain r db where run: "append_event_row_allocating ?p (el_db elog) = (r, db)" by fastforce
  have ok: "db_seq_ok (el_db elog)" "\<not> sdb_legacy_schema (el_db elog)" using e(2) by (auto simp: log_db_ok_def)
  from append_row_cases[OF ok run] e(3,4) obtain i where r: "r = Inr i" by auto
  have db: "sdb_session_id db = sdb_session_id (el_db elog) \<and> sdb_env db = []"
    using run e(3) r by (auto simp: append_event_row_allocating_def insert_event_row_def Let_def split: if_splits sum.splits option.splits)
  obtain ev elog' where a: "event_log_append actor kind content [] [] [] elog = (Inr ev, elog')"
    and e': "el_db elog' = db" "el_session_id elog' = el_session_id elog"
    using run r by (auto simp: event_log_append_def Let_def)
  have ok': "log_db_ok elog'" using event_log_append_cases[OF e(2) a] by blast
  let ?st = "st\<lparr>cs_ls := (hr, w\<lparr>lw_state := (lw_state w)\<lparr>ss_log := Some elog'\<rparr>\<rparr>)\<rparr>"
  have "log_append actor kind content st = (Inr (), ?st)"
    by (simp add: log_append_def on_ls_def ls_session_def session_append_def ls e a)
  moreover have "ready ?st" using assms ok' e(4) e' db by (auto simp: ready_def session_of_def ls)
  ultimately show ?thesis using that by (simp add: quiet_def)
qed

definition demo_final :: response_info where
  "demo_final = \<lparr>rs_text = ''bye'', rs_in_tokens = 9, rs_out_tokens = 1, rs_finish_reason = ''stop'', rs_tool_calls = [],
     rs_cache_read_input_tokens = 0, rs_cache_creation_input_tokens = 0, rs_extras = []\<rparr>"

text \<open>A provider that answers at once; the world is a clock.\<close>

definition demo_provider :: "nat provider_chain" where
  "demo_provider =
     \<lparr>pc_config = \<lparr>cc_role = ''coder'', cc_name = ''m'', cc_family = ''f'', cc_chain = [demo_entry ''anthropic''],
        cc_context_limit = 150000, cc_compaction_threshold = None, cc_sampling = []\<rparr>,
      pc_factory = (\<lambda>e w. (Inr (\<lambda>rq url key tmo rt hdrs w. (Inr demo_final, Suc w)), w)),
      pc_env = [], pc_clock = (\<lambda>w. (of_nat w, w)), pc_new_id = (\<lambda>w. (''id'', w)), pc_frepr = (\<lambda>_. [])\<rparr>"

definition demo_input :: "nat coder_input" where
  "demo_input = \<lparr>ci_task = ''t'', ci_role = ''coder'', ci_family = ''f'', ci_chain = demo_provider, ci_compactor = None,
     ci_registry = registry_init, ci_limits = None, ci_max_turns = 3, ci_system_extra = [], ci_turn_context = [],
     ci_scope_mode = [], ci_injections = None, ci_initial_summary = [], ci_temperature = JNull, ci_max_tokens = 10,
     ci_redactor = None, ci_flags = Some (default_flags\<lparr>ff_context_budget_enabled := False\<rparr>), ci_disk_caching = False,
     ci_role_prompts = [(''coder'', ''p'')], ci_fr = (\<lambda>_. []), ci_sha = (\<lambda>_. ''h''), ci_json_loads = (\<lambda>_. None),
     ci_yaml = (\<lambda>_. Inr JNull), ci_pinned = (\<lambda>_ _. None), ci_skill_file = (\<lambda>_ _ _. NoFile), ci_skills_root = ''r'',
     ci_config_file = None, ci_verify_only = (\<lambda>_. False), ci_pools = (\<lambda>_ _. PoolFailed []), ci_now = (\<lambda>w. (of_nat w, w)),
     ci_sleep = (\<lambda>_ w. (Inr (), w)), ci_pytest = False\<rparr>"

definition demo_start :: "nat coder_state" where
  "demo_start = start_state demo_input demo_lstate ([], []) Projection.demo_store"

lemma demo_start_ready: "ready demo_start" "log_events demo_start = []" "cs_turn demo_start = 0" "cs_summary_written demo_start = False"
  by (auto simp: ready_def demo_start_def start_state_def demo_lstate_def demo_world_def session_of_def demo_log_def demo_db_def
      hooks_init_def log_db_ok_def db_seq_ok_def log_events_def read_event_rows_def)

lemma ready_hook_gate:
  assumes "ready st"
  obtains st' where "hook_gate ci point st = (Inr (Inr ()), st')" "ready st'" "quiet st st'" "cs_summary_written st' = cs_summary_written st"
proof -
  obtain hr w where ls: "cs_ls st = (hr, w)" by (cases "cs_ls st")
  then have "ls_dispatch point p (hr, w) = (Inr p, (hr\<lparr>hr_trace := hr_trace hr\<rparr>, w))" for p
    using assms by (simp add: ls_dispatch_def hooks_dispatch_def ready_def)
  then have "hook_gate ci point st = (Inr (Inr ()), st\<lparr>cs_ls := (hr, w)\<rparr>)"
    by (simp add: hook_gate_def try_permission_def on_ls_def ls)
  then show ?thesis using that[of "st\<lparr>cs_ls := (hr, w)\<rparr>"] assms by (simp add: quiet_def ready_def session_of_def ls)
qed

lemma demo_open:
  obtains st where "open_session demo_input demo_start = (Inr (), st)" "ready st" "cs_history st = []" "cs_turn st = 0"
    "cs_summary_written st = False"
proof -
  let ?s = "restore_history demo_input (demo_start\<lparr>cs_budget := context_budget_init 150000 None\<rparr>)"
  have r: "ready ?s" "cs_summary_written ?s = False"
    using demo_start_ready by (simp_all add: ready_def restore_history_def session_of_def split: prod.split)
  obtain s1 where a: "log_append ''user'' ''user_msg'' [(''text'', JStr (ci_task demo_input))] ?s = (Inr (), s1)" "ready s1"
    "quiet ?s s1" "cs_summary_written s1 = cs_summary_written ?s" by (rule ready_append[OF r(1)])
  obtain s2 where b: "log_append ''runtime'' ''run_started'' [(''role'', JStr (ci_role demo_input)),
        (''max_turns'', JInt (ci_max_turns demo_input)), (''temperature'', ci_temperature demo_input)] s1 = (Inr (), s2)"
    "ready s2" "quiet s1 s2" "cs_summary_written s2 = cs_summary_written s1" by (rule ready_append[OF a(2)])
  have "clamp_context_limit demo_input demo_start = (Inr 150000, demo_start)"
    by (simp add: clamp_context_limit_def demo_input_def demo_provider_def MIN_CONTEXT_LIMIT_def)
  then have o: "open_session demo_input demo_start = (Inr (), s2)"
    using a(1) b(1) by (simp add: open_session_def sbind_def) (simp add: demo_input_def demo_provider_def)
  have "cs_history s2 = []" by (rule open_session_history[OF o]) (simp add: demo_start_ready)
  then show ?thesis using that[OF o b(2)] a b r demo_start_ready open_session_post[OF o] by (metis)
qed

lemma demo_compose: "\<exists>request. compose_request_payload demo_input tf summary [] = Inr request"
  by (simp add: compose_request_payload_def build_prompt_parts_v2_def hash_tool_defs_stable_def tool_identities_def
      tool_payload_of_def registry_init_def registry_specs_def render_tool_specs_def demo_input_def demo_provider_def
      place_task_def to_openai_request_v2_def Let_def message_def
      assert_final_role_invariant_def msg_get_def)

lemma demo_prepare:
  assumes "ready st" and "cs_history st = []"
  obtains request st' where "prepare_request demo_input st = (Inr (Inr request), st')" "ready st'" "quiet st st'"
    "cs_summary_written st' = cs_summary_written st"
proof -
  have c: "ceremony_step demo_input st = (Inr [], st)"
    by (simp add: ceremony_step_def demo_input_def is_observed_def mode_for_def mode_defs)
  have b: "scope_boundary demo_input st = (Inr \<lparr>or_turn_context = [], or_skill_block = None\<rparr>, st)"
    by (simp add: scope_boundary_def is_chat_role_def demo_input_def)
  obtain s where h: "hook_gate demo_input BEFORE_LLM_CALL st = (Inr (Inr ()), s)" "ready s" "quiet st s"
    "cs_summary_written s = cs_summary_written st" by (rule ready_hook_gate[OF assms(1)])
  have s: "cs_history s = []" using h(3) assms(2) by (simp add: quiet_def)
  have p: "pairing_gate demo_input s = (Inr (Inr ()), s)"
    by (simp add: pairing_gate_def assert_tool_pairing_invariant_def s rbind_def)
  let ?tf = "turn_fixed_of demo_input [] \<lparr>or_turn_context = [], or_skill_block = None\<rparr> s"
  obtain request where g: "compose_gate demo_input ?tf s = (Inr (Inr request), s)"
    using demo_compose[of ?tf "cs_summary s"] s by (auto simp: compose_gate_def)
  have u: "budget_gate demo_input ?tf request s = (Inr (Inr request), s)"
    by (cases request) (simp add: budget_gate_def demo_input_def default_flags_def)
  have "prepare_request demo_input st = (Inr (Inr request), s)"
    by (simp add: prepare_request_def sbind_def ebind_def c b h(1) p Let_def g u)
  then show ?thesis using that h by blast
qed

lemma demo_request:
  assumes "ready st" and "conformant (\<lambda>_. []) False False (fst request)"
  obtains st' where "request_response demo_input (chain_requester demo_input) request st = (Inr demo_final, st')"
    "ready st'" "quiet st st'" "cs_summary_written st' = cs_summary_written st"
proof -
  let ?rq = "request_info_of demo_input request" and ?pc = demo_provider
  have "conformant (pc_frepr ?pc) (mr_allows_trailing_assistant (ps_rules ANTHROPIC)) (mr_requires_user_after_tool (ps_rules ANTHROPIC))
      (rq_messages (entry_request (pc_config ?pc) ?rq (demo_entry ''anthropic'')))"
    using assms(2) by (simp add: demo_provider_def ANTHROPIC_def default_rules_def entry_request_def request_info_of_def split: prod.split)
  moreover obtain t m p where eff: "effective_sampling (pc_config ?pc) ?rq = (t, m, p)" by (cases "effective_sampling (pc_config ?pc) ?rq")
  moreover have "dict_get PROVIDERS (ce_provider (demo_entry ''anthropic'')) = Some ANTHROPIC"
    by (simp add: PROVIDERS_def demo_entry_def)
  then have "finalize ?pc ?rq (demo_entry ''anthropic'') = validate_and_normalize (pc_frepr ?pc)
      (entry_request (pc_config ?pc) ?rq (demo_entry ''anthropic'')) (ps_rules ANTHROPIC) t p"
    by (simp add: finalize_def eff)
  ultimately obtain rq' where f: "finalize ?pc ?rq (demo_entry ''anthropic'') = Inr rq'"
    using conformance_exact[of "pc_frepr ?pc" "entry_request (pc_config ?pc) ?rq (demo_entry ''anthropic'')" "ps_rules ANTHROPIC" t p,
        THEN conjunct1] by metis
  have "cs_cds st = []" using assms(1) by (simp add: ready_def)
  then obtain a where "chain_request ?pc ?rq None (cs_cds st, env_of st) = (Inr (demo_final, ''id'', [a]), [], Suc (env_of st))"
    using f by (auto simp: chain_request_def try_entry_def demo_provider_def)
  then have "request_retry demo_input (chain_requester demo_input) ?rq (PER_TURN_CHAIN_RETRIES - 1) st =
      (Inr (demo_final, ''id'', [a]), set_env (Suc (env_of st)) (st\<lparr>cs_cds := []\<rparr>))"
    by (simp add: PER_TURN_CHAIN_RETRIES_def numeral_eq_Suc request_attempt_def on_chain_def chain_requester_def)
       (simp add: demo_input_def)
  moreover let ?s = "set_env (Suc (env_of st)) (st\<lparr>cs_cds := []\<rparr>)"
  have r: "ready ?s" "quiet st ?s" "cs_summary_written ?s = cs_summary_written st"
    using assms(1) by (simp_all add: ready_def set_env_def session_of_def quiet_def)
  obtain s1 where 1: "log_append ''provider'' ''provider_attempt'' (attempt_row a @ [(''logical_call_id'', JStr ''id'')]) ?s = (Inr (), s1)"
    "ready s1" "quiet ?s s1" "cs_summary_written s1 = cs_summary_written ?s" by (rule ready_append[OF r(1)])
  obtain s2 where 2: "log_append ''provider'' ''llm_call'' (llm_call_row demo_input demo_final ''id'' [a]) s1 = (Inr (), s2)"
    "ready s2" "quiet s1 s2" "cs_summary_written s2 = cs_summary_written s1" by (rule ready_append[OF 1(2)])
  obtain s3 where 3: "log_append ''runtime'' ''usage'' (usage_event_content demo_final) s2 = (Inr (), s3)"
    "ready s3" "quiet s2 s3" "cs_summary_written s3 = cs_summary_written s2" by (rule ready_append[OF 2(2)])
  obtain s4 where 4: "record_usage demo_final s2 = (Inr (), s4)" "ready s4" "quiet s3 s4" "cs_summary_written s4 = cs_summary_written s3"
    using 3 by (simp add: record_usage_def sbind_def Let_def ready_def session_of_def quiet_def)
  ultimately have "request_response demo_input (chain_requester demo_input) request st = (Inr demo_final, s4)"
    using 1(1) 2(1) unfolding request_response_def by (simp add: sbind_def)
  moreover have "quiet st s4" using r(2) 1(3) 2(3) 3(3) 4(3) by (simp add: quiet_def)
  ultimately show ?thesis using that 4 3(4) 2(4) 1(4) r(3) by simp
qed

lemma demo_after:
  assumes "ready st" and "cs_summary_written st = False"
  obtains out st' where "after_response demo_input demo_final st = (Inr (Inl out), st')" "so_exit_code out = 0"
proof -
  obtain s where h: "hook_gate demo_input AFTER_LLM_CALL st = (Inr (Inr ()), s)" "ready s" "quiet st s"
    "cs_summary_written s = cs_summary_written st" by (rule ready_hook_gate[OF assms(1)])
  let ?m = "[(''role'', JStr ''assistant''), (''content'', JStr ''bye'')]"
  have "ready (s\<lparr>cs_history := cs_history s @ [?m]\<rparr>)" using h(2) by (simp add: ready_def session_of_def)
  then obtain s1 where 1: "log_append ''model'' ''model_msg'' (model_msg_content demo_final) (s\<lparr>cs_history := cs_history s @ [?m]\<rparr>) = (Inr (), s1)"
    "ready s1" "cs_summary_written s1 = cs_summary_written s" using ready_append by (metis (no_types, lifting) coder_state.select_convs(10) coder_state.surjective coder_state.update_convs(5))
  have t: "take_answer demo_input demo_final s = (Inr [], s1)"
    using 1(1) by (simp add: take_answer_def sbind_def build_tool_calls_def assistant_message_def message_extras_def demo_final_def
        rbind_def dict_update_def)
  obtain s2 where 2: "log_append ''runtime'' ''session_summary'' (session_summary_content (cs_usage s1) (cs_usage_turns s1)) s1 = (Inr (), s2)"
    by (rule ready_append[OF 1(2)])
  have "finish (outcome 0 ''stopped_by_llm'' (rs_text demo_final) s1) s1 =
      (Inr (outcome 0 ''stopped_by_llm'' (rs_text demo_final) s1), s2\<lparr>cs_summary_written := True\<rparr>)"
    using 2 1(3) h(4) assms(2) by (simp add: finish_def sbind_def)
  moreover have "terminal_finish demo_final" by (simp add: terminal_finish_def demo_final_def TERMINAL_FINISH_REASONS_def)
  ultimately have "after_response demo_input demo_final st =
      (Inr (Inl (outcome 0 ''stopped_by_llm'' (rs_text demo_final) s1)), s2\<lparr>cs_summary_written := True\<rparr>)"
    by (simp add: after_response_def ebind_def sbind_def h(1) t stop_without_calls_def)
  then show ?thesis using that by (simp add: outcome_def)
qed

lemma demo_answers_plain: "plain_answer demo_final"
  by (simp add: plain_answer_def demo_final_def)

lemma demo_first_turn:
  obtains s request s' where "open_session demo_input demo_start = (Inr (), s)"
    "prepare_request demo_input (s\<lparr>cs_turn := cs_turn s + 1\<rparr>) = (Inr (Inr request), s')"
    "ready s'" "cs_summary_written s' = False" "cs_history s = []"
proof -
  obtain s where o: "open_session demo_input demo_start = (Inr (), s)" "ready s" "cs_history s = []" "cs_turn s = 0"
    "cs_summary_written s = False" by (rule demo_open)
  let ?s = "s\<lparr>cs_turn := cs_turn s + 1\<rparr>"
  have "ready ?s" "cs_history ?s = []" using o(2,3) by (simp_all add: ready_def session_of_def)
  then obtain request s' where "prepare_request demo_input ?s = (Inr (Inr request), s')" "ready s'" "quiet ?s s'"
    "cs_summary_written s' = cs_summary_written ?s" by (rule demo_prepare)
  then show ?thesis using that o by simp
qed

lemma demo_session:
  obtains out st where "drive_session demo_input demo_lstate ([], []) Projection.demo_store = (Inr out, st)" "so_exit_code out = 0"
proof -
  obtain s request s' where o: "open_session demo_input demo_start = (Inr (), s)"
    and p: "prepare_request demo_input (s\<lparr>cs_turn := cs_turn s + 1\<rparr>) = (Inr (Inr request), s')"
    and r: "ready s'" "cs_summary_written s' = False" and h: "cs_history s = []" by (rule demo_first_turn)
  have "whole_conversation demo_input (\<lambda>_ w. (Inr (demo_final, [], []), w)) (s\<lparr>cs_turn := cs_turn s + 1\<rparr>)"
    using h demo_answers_plain by (auto simp: whole_conversation_def chain_answer_def paired_empty demo_input_def)
  with prepare_request_prepared[of "\<lambda>_. True" demo_input _ "s\<lparr>cs_turn := cs_turn s + 1\<rparr>"] p
  have "conformant (ci_fr demo_input) False False (fst request)" unfolding prepared_def by blast
  then have c: "conformant (\<lambda>_. []) False False (fst request)" by (simp add: demo_input_def)
  obtain s1 where q: "request_response demo_input (chain_requester demo_input) request s' = (Inr demo_final, s1)"
    "ready s1" "quiet s' s1" "cs_summary_written s1 = cs_summary_written s'" by (rule demo_request[OF r(1) c])
  have "cs_summary_written s1 = False" using q(4) r(2) by simp
  then obtain out st where a: "after_response demo_input demo_final s1 = (Inr (Inl out), st)" "so_exit_code out = 0"
    by (rule demo_after[OF q(2)])
  have "coder_turn demo_input (chain_requester demo_input) s = (Inr (Inl out), st)"
    using p by (simp add: coder_turn_def ebind_def sbind_def q(1) handle_request_def a(1))
  then have "coder_loop demo_input (chain_requester demo_input) (nat (ci_max_turns demo_input)) s = (Inr out, st)"
    by (simp add: demo_input_def numeral_eq_Suc sbind_def)
  moreover have "ss_log (session_of demo_start) \<noteq> None" using demo_start_ready(1) by (auto simp: ready_def)
  ultimately have "drive_session demo_input demo_lstate ([], []) Projection.demo_store = (Inr out, st)"
    using o by (simp add: drive_session_def drive_with_def demo_start_def sbind_def)
  then show ?thesis using that a(2) by blast
qed

theorem session_outcome_honest_witness:
  "\<exists>out st h m. drive_session demo_input demo_lstate ([], []) Projection.demo_store = (Inr out, st) \<and>
     so_exit_code out = 0 \<and> so_stop_reason out = ''stopped_by_llm'' \<and> so_turns out \<le> 3 \<and> cs_history st = h @ [m]"
proof -
  obtain out st where run: "drive_session demo_input demo_lstate ([], []) Projection.demo_store = (Inr out, st)"
    and 0: "so_exit_code out = 0" by (rule demo_session)
  have "nat (ci_max_turns demo_input) = 3" by (simp add: demo_input_def)
  with session_outcome_honest[OF run] 0 run show ?thesis by auto
qed

theorem requests_conform_witness:
  "\<exists>st messages extras st'. turn_starts demo_input (\<lambda>_ w. (Inr (demo_final, [], []), w)) demo_start st \<and>
     prepare_request demo_input (st\<lparr>cs_turn := cs_turn st + 1\<rparr>) = (Inr (Inr (messages, extras)), st') \<and>
     conformant (ci_fr demo_input) False False messages"
proof -
  obtain s request s' where o: "open_session demo_input demo_start = (Inr (), s)"
    and p: "prepare_request demo_input (s\<lparr>cs_turn := cs_turn s + 1\<rparr>) = (Inr (Inr request), s')" by (rule demo_first_turn)
  obtain ms ex where q: "request = (ms, ex)" by (cases request)
  let ?req = "\<lambda>_ w. (Inr (demo_final, [], []), w)"
  have start: "turn_starts demo_input ?req demo_start s" by (rule first_turn[OF o])
  have plain: "\<forall>r. chain_answer ?req r \<longrightarrow> plain_answer r" using demo_answers_plain by (simp add: chain_answer_def)
  have task: "ci_task demo_input \<noteq> []" by (simp add: demo_input_def)
  have log: "\<forall>ev \<in> set (log_events demo_start). ev_kind ev \<notin> conversation_kinds" by (simp add: demo_start_ready)
  from requests_conform[OF start log task plain p[unfolded q]] start p q show ?thesis by blast
qed

section \<open>A call of an unregistered tool\<close>

lemma classify_single: "classify_batches [call] reg = [[call]]"
  by (simp add: classify_batches_def opt_list_def scope_conflict_def Let_def split: option.split)

lemma sequential_unregistered:
  assumes "map_of (reg_validators reg) (tc_name call) = None" and "hr_chains (fst st) = (\<lambda>_. [])"
  shows "\<exists>e s. execute_one_sequential reg role fam call st = (Inl e, s)"
proof -
  obtain r s where a: "ls_session (record_tool_call call) st = (r, s)"
    by (cases "ls_session (record_tool_call call) st") blast
  then have h: "hr_chains (fst s) = (\<lambda>_. [])" using assms(2) by (auto simp: ls_session_def split: prod.splits)
  then have d: "ls_dispatch BEFORE_TOOL_EXEC p s = (Inr p, ((fst s)\<lparr>hr_trace := hr_trace (fst s)\<rparr>, snd s))" for p
    by (simp add: ls_dispatch_def hooks_dispatch_def)
  have t: "\<exists>e. ls_tool reg call s' = (Inl e, s')" for s'
    using assms(1) by (cases s') (auto simp: ls_tool_def registry_dispatch_def registry_validate_def)
  show ?thesis
    using t[of "((fst s)\<lparr>hr_trace := hr_trace (fst s)\<rparr>, snd s)"]
    by (cases r) (auto simp: execute_one_sequential_def sbind_def a d try_permission_def call_payload_def)
qed

text \<open>
  The exception of the registry leaves the loop and the session: the documented \<open>invalid_params\<close> row
  for a call without a name is never produced.
\<close>

lemma unregistered_call_raises:
  assumes "map_of (reg_validators (ci_registry ci)) (tc_name call) = None" and "hr_chains (fst (cs_ls st)) = (\<lambda>_. [])"
    and "effective_limit ci \<ge> 1"
  shows "\<exists>e s. tool_phase ci [call] st = (Inl e, s)"
proof -
  let ?reg = "ci_registry ci" and ?pools = "ci_pools ci (cs_turn st)"
  have seq: "\<exists>e s. run_batch ?reg (ci_role ci) (ci_family ci) p [call] rs ls = (Inl e, s)"
    if "hr_chains (fst ls) = (\<lambda>_. [])" for p rs ls
    using sequential_unregistered[OF assms(1) that, of "ci_role ci" "ci_family ci"] by (auto simp: run_batch_def sbind_def)
  have loop: "\<exists>e s. session_loop ?reg (ci_role ci) (ci_family ci) (effective_limit ci) ?pools 0 [[call]] [] ls = (Inl e, s)"
    if h: "hr_chains (fst ls) = (\<lambda>_. [])" for ls
  proof -
    let ?ls = "ls_update (\<lambda>s. s\<lparr>ss_batch_turn := ss_batch_turn s + 1\<rparr>) ls"
    have "hr_chains (fst ?ls) = (\<lambda>_. [])" using h by (simp add: ls_update_def)
    then have d: "ls_dispatch BETWEEN_ROUNDS p ?ls = (Inr p, ((fst ?ls)\<lparr>hr_trace := hr_trace (fst ?ls)\<rparr>, snd ?ls))" for p
      by (simp add: ls_dispatch_def hooks_dispatch_def)
    have "hr_chains (fst ((fst ?ls)\<lparr>hr_trace := hr_trace (fst ?ls)\<rparr>, snd ?ls)) = (\<lambda>_. [])"
      using h by (simp add: ls_update_def)
    from seq[OF this, of "?pools 0" "[]"] show ?thesis
      using assms(3) by (auto simp: Let_def d try_permission_def sbind_def)
  qed
  obtain hr w where ls: "cs_ls st = (hr, w)" by (cases "cs_ls st")
  have "hr_chains (fst (set_event_sink (Some make_hook_decision_sink) hr, w)) = (\<lambda>_. [])"
    using assms(2) by (simp add: set_event_sink_def ls)
  from loop[OF this] obtain e s where l: "session_loop ?reg (ci_role ci) (ci_family ci) (effective_limit ci) ?pools 0 [[call]] []
      (set_event_sink (Some make_hook_decision_sink) hr, w) = (Inl e, s)" by blast
  then have "\<exists>e s. run_session ?reg (ci_role ci) (ci_family ci) (effective_limit ci) ?pools [call] (cs_ls st) = (Inl e, s)"
    by (auto simp: run_session_def ls classify_single sbind_def Let_def simp del: session_loop.simps split: sum.split)
  then show ?thesis by (auto simp: tool_phase_def run_batch_of_calls_def on_ls_def sbind_def)
qed

section \<open>Replay\<close>

text \<open>
  Resuming after a compaction drops the window that stage 3 kept: its rows stand before the marker.
\<close>

lemma since_compaction_append:
  "since_compaction fr (evs @ evs') acc = since_compaction fr evs' (since_compaction fr evs acc)"
  by (induction fr evs acc rule: since_compaction.induct) auto

lemma replay_drops_window:
  "ev_kind ev = ''compaction_stage3_done'' \<Longrightarrow> snd (rebuild_history fr (evs @ [ev])) = []"
  by (cases "since_compaction fr evs ([], [])") (simp add: rebuild_history_def since_compaction_append)

text \<open>A stage that ended on tool results and the user row of the next one give a user turn after a tool result.\<close>

lemma replay_user_after_tool:
  assumes "ev_kind t = ''tool_result''" and "ev_kind u = ''user_msg''"
  shows "user_after_tool 1 (snd (rebuild_history fr [t, u])) \<noteq> []"
  using assms by (simp add: rebuild_history_def replay_event_def msg_get_def Let_def)

text \<open>A guard that stops the session is reported as the iteration cap.\<close>

lemma guard_stop_reported_as_cap:
  assumes "coder_turn ci req st = (Inr (Inr StopLoop), s)" and "coder_loop ci req (Suc n) st = (Inr out, st')"
  shows "so_stop_reason out = ''iteration_cap''"
proof -
  from assms have "iteration_cap_stop s = (Inr out, st')" by (simp add: sbind_def)
  then obtain s1 where "finish (outcome 1 ''iteration_cap'' [] s1) s1 = (Inr out, st')"
    by (auto simp: iteration_cap_stop_def sbind_Inr)
  then have "out = outcome 1 ''iteration_cap'' [] s1" using finish_result[of _ s1 out] by (metis fst_conv)
  then show ?thesis by (simp add: outcome_def)
qed

end
