(* ===== verification/Pr_Intent.thy ===== *)
theory Pr_Intent
  imports Py_Path Py_Match
begin

text \<open>
  The PR-intent rulebook of \<open>hygiene/pr_intent.py\<close>: the classifier of a staged diff, the fields each intent requires,
  the parsing and the six checks of a commit message, the protection of existing tests, the resolution of citations, and
  the two git hooks built from them (\<open>prepare-commit-msg\<close>, \<open>commit-msg\<close>).

  What the operating system and git answer is a parameter: \<open>repo_env\<close> adds to \<open>os_env\<close> the kinds of paths and the
  number of lines of a file; the standard output of \<open>git diff --cached --name-status\<close>, the text of the message file and the
  working directory are arguments of the hooks. The em dash, which is not a Latin-1 character, is its Windows-1252 code
  \<open>0x97\<close> in this theory, since the code tells it from a hyphen.
\<close>

record repo_env = os_env +
  rp_is_dir :: "string list \<Rightarrow> bool"
  rp_is_file :: "string list \<Rightarrow> bool"
  rp_exists :: "string list \<Rightarrow> bool"
  rp_line_count :: "string list \<Rightarrow> nat option"

definition EM_DASH :: string where "EM_DASH = [CHR 0x97]"
definition SECTION_SIGN :: string where "SECTION_SIGN = [CHR 0xA7]"
definition line_feed :: string where "line_feed = [CHR 0x0A]"

section \<open>Intents and rows\<close>

datatype intent = RESEARCH | ADR_RULE | IMPLEMENT | FIX | CHORE
datatype fix_class = REPAIR | RELAX | WORKAROUND

fun intent_value :: "intent \<Rightarrow> string" where
  "intent_value RESEARCH = ''RESEARCH''"
| "intent_value ADR_RULE = ''ADR-RULE''"
| "intent_value IMPLEMENT = ''IMPLEMENT''"
| "intent_value FIX = ''FIX''"
| "intent_value CHORE = ''CHORE''"

fun fix_class_value :: "fix_class \<Rightarrow> string" where
  "fix_class_value REPAIR = ''REPAIR''"
| "fix_class_value RELAX = ''RELAX''"
| "fix_class_value WORKAROUND = ''WORKAROUND''"

definition INTENT_PRIORITY :: "intent list" where
  "INTENT_PRIORITY = [ADR_RULE, IMPLEMENT, FIX, RESEARCH, CHORE]"

definition INTENT_VALUES :: "string list" where
  "INTENT_VALUES = map intent_value [RESEARCH, ADR_RULE, IMPLEMENT, FIX, CHORE]"

definition CLASS_VALUES :: "string list" where
  "CLASS_VALUES = map fix_class_value [REPAIR, RELAX, WORKAROUND]"

text \<open>\<open>Intent(value)\<close>\<close>

definition intent_of :: "string \<Rightarrow> intent option" where
  "intent_of v = find (\<lambda>i. intent_value i = v) [RESEARCH, ADR_RULE, IMPLEMENT, FIX, CHORE]"

record staged_path =
  sp_status :: string
  sp_path :: string

record field_spec =
  fs_name :: string
  fs_placeholder :: string

record violation =
  vi_code :: string
  vi_message :: string

section \<open>Path buckets and the classifier\<close>

definition MIRROR_PATHS :: "string list" where
  "MIRROR_PATHS = [''HANDOFF.md'', ''knowledge/trace/exploration_log.md'', ''knowledge/adr/DIGEST.md'', ''knowledge/llms.txt'']"

definition CHORE_EXACT_PATHS :: "string list" where
  "CHORE_EXACT_PATHS = [''pyproject.toml'', ''.pre-commit-config.yaml'']"

definition CHORE_PREFIXES :: "string list" where
  "CHORE_PREFIXES = [''.github/'']"

definition ADR_RULE_EXACT_PATHS :: "string list" where
  "ADR_RULE_EXACT_PATHS = [''AGENTS.md'', ''knowledge/project-overview.md'', ''knowledge/skills/doc-maintenance/SKILL.md'']"

definition ADR_RULE_PREFIXES :: "string list" where
  "ADR_RULE_PREFIXES = [''knowledge/adr/ADR-'', ''knowledge/anti-patterns/AP-'', ''knowledge/skills/'']"

definition is_mirror :: "string \<Rightarrow> bool" where
  "is_mirror p = (p \<in> set MIRROR_PATHS)"

definition is_adr_rule :: "string \<Rightarrow> bool" where
  "is_adr_rule p = (p \<in> set ADR_RULE_EXACT_PATHS \<or> list_ex (\<lambda>x. prefix x p) ADR_RULE_PREFIXES)"

definition is_src_or_tests :: "string \<Rightarrow> bool" where
  "is_src_or_tests p = (prefix ''src/fa/'' p \<or> prefix ''tests/'' p)"

definition is_research :: "string \<Rightarrow> bool" where
  "is_research p = (prefix ''knowledge/research/'' p \<and> suffix ''.md'' p)"

definition is_chore :: "string \<Rightarrow> bool" where
  "is_chore p = (p \<in> set CHORE_EXACT_PATHS \<or> list_ex (\<lambda>x. prefix x p) CHORE_PREFIXES)"

text \<open>The set of fired intents is the list of its members, in the order they are added.\<close>

definition fired_intents :: "staged_path list \<Rightarrow> intent list" where
  "fired_intents staged =
     (let paths = filter (\<lambda>r. sp_path r \<noteq> []) staged;
          non_mirror = filter (\<lambda>r. \<not> is_mirror (sp_path r)) paths;
          src_rows = filter (\<lambda>r. is_src_or_tests (sp_path r)) non_mirror;
          research_rows = filter (\<lambda>r. is_research (sp_path r)) non_mirror
      in if non_mirror = [] then []
         else (if list_ex (\<lambda>r. is_adr_rule (sp_path r)) non_mirror then [ADR_RULE] else []) @
              (if src_rows = [] then []
               else if list_all (\<lambda>r. sp_status r = ''A'') src_rows then [IMPLEMENT] else [FIX]) @
              (if research_rows \<noteq> [] \<and> list_all (\<lambda>r. sp_status r = ''A'') research_rows then [RESEARCH] else []) @
              (if list_all (\<lambda>r. is_chore (sp_path r)) non_mirror then [CHORE] else []))"

definition classify_intent :: "staged_path list \<Rightarrow> intent" where
  "classify_intent staged =
     (case find (\<lambda>i. i \<in> set (fired_intents staged)) INTENT_PRIORITY of Some i \<Rightarrow> i | None \<Rightarrow> CHORE)"

definition detect_multi_intent :: "staged_path list \<Rightarrow> intent list" where
  "detect_multi_intent staged = fired_intents staged"

definition is_mirror_only :: "staged_path list \<Rightarrow> bool" where
  "is_mirror_only staged =
     (let materialised = filter (\<lambda>r. sp_path r \<noteq> []) staged
      in materialised \<noteq> [] \<and> list_all (\<lambda>r. is_mirror (sp_path r)) materialised)"

section \<open>Required fields\<close>

definition spec :: "string \<Rightarrow> string \<Rightarrow> field_spec" where
  "spec n p = \<lparr>fs_name = n, fs_placeholder = p\<rparr>"

fun derive_required_fields :: "intent \<Rightarrow> field_spec list" where
  "derive_required_fields RESEARCH = [spec ''INTENT'' ''RESEARCH'', spec ''INVARIANT'' ''n/a'']"
| "derive_required_fields ADR_RULE = [spec ''INTENT'' ''ADR-RULE'', spec ''INVARIANT'' ''Contract: <one sentence>'']"
| "derive_required_fields IMPLEMENT = [spec ''INTENT'' ''IMPLEMENT'', spec ''INVARIANT'' ''Implements: <ADR or rule reference>'']"
| "derive_required_fields FIX =
     [spec ''INTENT'' ''FIX'', spec ''CLASS'' ''<REPAIR | RELAX | WORKAROUND>'',
      spec ''INVARIANT'' ''Affects: <pre-existing ADR or rule invariant>'',
      spec ''DEGREE-OF-FREEDOM CLOSED'' ''<one sentence | n/a (reason)>'',
      spec ''DETERMINISTIC MECHANISM'' ''<one sentence ending with `repo/file.ext:line` | n/a (reason)>'']"
| "derive_required_fields CHORE = [spec ''INTENT'' ''CHORE'', spec ''INVARIANT'' ''n/a'']"

definition render_prepare_buffer :: "intent \<Rightarrow> string" where
  "render_prepare_buffer i =
     py_join line_feed
       (map (\<lambda>f. if fs_name f = ''INTENT'' then ''INTENT: '' @ fs_placeholder f
                 else fs_name f @ '': <fill me '' @ EM_DASH @ '' '' @ fs_placeholder f @ ''>'')
          (derive_required_fields i))"

section \<open>Fields of a message\<close>

definition HEADER_INTENT :: string where "HEADER_INTENT = ''INTENT:''"
definition HEADER_CLASS :: string where "HEADER_CLASS = ''CLASS:''"
definition HEADER_INVARIANT :: string where "HEADER_INVARIANT = ''INVARIANT:''"
definition HEADER_DOF_CLOSED :: string where "HEADER_DOF_CLOSED = ''DEGREE-OF-FREEDOM CLOSED:''"
definition HEADER_DET_MECHANISM :: string where "HEADER_DET_MECHANISM = ''DETERMINISTIC MECHANISM:''"
definition HEADER_TEST_EDITS :: string where "HEADER_TEST_EDITS = ''TEST-EDITS:''"

definition PR_INTENT_HEADERS :: "string list" where
  "PR_INTENT_HEADERS =
     [HEADER_INTENT, HEADER_CLASS, HEADER_INVARIANT, HEADER_DOF_CLOSED, HEADER_DET_MECHANISM, HEADER_TEST_EDITS]"

fun invariant_required_prefixes :: "intent \<Rightarrow> string list" where
  "invariant_required_prefixes RESEARCH = []"
| "invariant_required_prefixes ADR_RULE = [''Contract:'']"
| "invariant_required_prefixes IMPLEMENT = [''Implements:'']"
| "invariant_required_prefixes FIX = [''Affects:'']"
| "invariant_required_prefixes CHORE = []"

text \<open>\<open>^HEADER\s*(?P<value>.*)$\<close> under \<open>re.MULTILINE\<close>.\<close>

definition FIELD_PATTERN :: "string \<Rightarrow> pat" where
  "FIELD_PATTERN header = p_seq [PBol, p_lit header, PStar p_space, PGroup 1 (PStar p_dot), PEol]"

definition parse_field :: "string \<Rightarrow> string \<Rightarrow> string option" where
  "parse_field msg header =
     (case search_from (FIELD_PATTERN header) msg 0 of
        None \<Rightarrow> None
      | Some (_, st) \<Rightarrow> Some (py_strip (pat_group msg st 1)))"

definition has_pr_intent_headers :: "string \<Rightarrow> bool" where
  "has_pr_intent_headers msg =
     list_ex (\<lambda>line. list_ex (\<lambda>h. prefix h (py_lstrip line)) PR_INTENT_HEADERS) (splitlines msg)"

section \<open>Declared test edits\<close>

definition removeprefix :: "string \<Rightarrow> string \<Rightarrow> string" where
  "removeprefix p s = (if prefix p s then drop (length p) s else s)"

text \<open>\<open>path.replace(backslash, "/").removeprefix("./")\<close>\<close>

definition normalise_path :: "string \<Rightarrow> string" where
  "normalise_path p = removeprefix ''./'' (py_replace1 (CHR 0x5C) ''/'' p)"

text \<open>\<open>entry.partition(sep)\<close>, when \<open>sep\<close> occurs.\<close>

fun partition_at :: "string \<Rightarrow> string \<Rightarrow> (string \<times> string) option" where
  "partition_at sep [] = (if sep = [] then Some ([], []) else None)"
| "partition_at sep (c # s) =
     (if prefix sep (c # s) then Some ([], drop (length sep) (c # s))
      else map_option (\<lambda>(a, b). (c # a, b)) (partition_at sep s))"

definition store_test_edit :: "string \<times> string \<Rightarrow> (string, string) pydict \<Rightarrow> (string, string) pydict" where
  "store_test_edit pr out =
     (let path = normalise_path (py_strip (fst pr)); reason = py_strip (snd pr)
      in if path \<noteq> [] \<and> reason \<noteq> [] then AList.update path reason out else out)"

definition add_test_edit_entry :: "string \<Rightarrow> (string, string) pydict \<Rightarrow> (string, string) pydict" where
  "add_test_edit_entry entry out =
     (case partition_at ('' '' @ EM_DASH @ '' '') entry of
        Some pr \<Rightarrow> store_test_edit pr out
      | None \<Rightarrow>
          (case partition_at '' - '' entry of
             Some pr \<Rightarrow> store_test_edit pr out
           | None \<Rightarrow> out))"

definition upper_letter :: "char \<Rightarrow> bool" where
  "upper_letter c = (let n = (of_char c :: nat) in 65 \<le> n \<and> n \<le> 90)"

definition HEADER_LIKE :: pat where
  "HEADER_LIKE = p_seq [PChar upper_letter, PStar (PChar (\<lambda>c. upper_letter c \<or> c = CHR '' '' \<or> c = CHR ''-'')), p_lit '':'']"

fun test_edit_block :: "string list \<Rightarrow> (string, string) pydict \<Rightarrow> (string, string) pydict" where
  "test_edit_block [] out = out"
| "test_edit_block (line # lines) out =
     (let stripped = py_strip line
      in if stripped = [] then out
         else if match_at HEADER_LIKE stripped 0 \<noteq> None then out
         else test_edit_block lines (add_test_edit_entry stripped out))"

fun test_edit_lines :: "string list \<Rightarrow> (string, string) pydict" where
  "test_edit_lines [] = []"
| "test_edit_lines (line # lines) =
     (let stripped = py_strip line
      in if prefix HEADER_TEST_EDITS stripped
         then (let rest = py_strip (drop (length HEADER_TEST_EDITS) stripped)
               in test_edit_block lines (if rest \<noteq> [] then add_test_edit_entry rest [] else []))
         else test_edit_lines lines)"

definition parse_test_edits :: "string \<Rightarrow> (string, string) pydict" where
  "parse_test_edits msg = test_edit_lines (splitlines msg)"

definition is_test_path :: "string \<Rightarrow> bool" where
  "is_test_path p = (let n = normalise_path p in prefix ''tests/'' n \<and> suffix ''.py'' n)"

definition test_edit_violations :: "(string, string) pydict \<Rightarrow> intent \<Rightarrow> staged_path \<Rightarrow> violation list" where
  "test_edit_violations declared classifier_intent row =
     (if \<not> is_test_path (sp_path row) then []
      else if sp_status row \<in> {''D'', ''R'', ''C''}
      then [\<lparr>vi_code = ''test_delete_blocked'',
             vi_message = ''deleting/renaming an existing test is blocked: `'' @ sp_path row @ ''` (status '' @ sp_status row @
               ''). Fix the code, not the test; if the test is genuinely obsolete a human removes it in a dedicated CHORE PR.''\<rparr>]
      else if sp_status row = ''M'' \<and> classifier_intent = FIX \<and> sp_path row \<notin> fst ` set declared
      then [\<lparr>vi_code = ''test_edit_undeclared'',
             vi_message = ''modifying existing test `'' @ sp_path row @ ''` during a FIX-shaped diff requires a `'' @ HEADER_TEST_EDITS @
               ''` declaration line (`<path> '' @ EM_DASH @ '' <one-line reason>`) in the PR draft. Fix the code, not the test '' @
               EM_DASH @ '' or declare why this test must change.''\<rparr>]
      else [])"

definition validate_test_edits :: "string \<Rightarrow> intent \<Rightarrow> staged_path list \<Rightarrow> violation list" where
  "validate_test_edits draft_text classifier_intent staged =
     concat (map (test_edit_violations (parse_test_edits draft_text) classifier_intent) staged)"

section \<open>Citations\<close>

text \<open>
  The two patterns end in \<open>\s*$\<close> and are applied to stripped text, in which \<open>$\<close> is the end of the text: a match is the first
  outcome that reaches it.
\<close>

definition match_to_end :: "pat \<Rightarrow> string \<Rightarrow> nat \<Rightarrow> mstate option" where
  "match_to_end p s i = find (\<lambda>st. fst st = length s) (pat_run p s (i, []))"

fun search_to_end :: "pat \<Rightarrow> string \<Rightarrow> nat list \<Rightarrow> mstate option" where
  "search_to_end p s [] = None"
| "search_to_end p s (i # is) = (case match_to_end p s i of Some st \<Rightarrow> Some st | None \<Rightarrow> search_to_end p s is)"

definition p_nonspace :: pat where "p_nonspace = PChar (\<lambda>c. \<not> py_space c)"

definition CITATION_RE :: pat where
  "CITATION_RE = p_seq
     [p_opt (p_lit ''`''), PGroup 1 (p_seq [p_plus p_nonspace, p_lit ''.'', p_plus p_nonspace]), p_lit '':'',
      PGroup 2 (p_plus p_digit), p_opt (p_lit ''`''), PStar p_space]"

definition NA_RE :: pat where
  "NA_RE = p_seq [p_ilit ''n/a'', PStar p_space, p_lit ''('', p_plus p_dot, p_lit '')'', PStar p_space]"

text \<open>\<open>path.relative_to(root)\<close>\<close>

definition relative_to :: "string list \<Rightarrow> string list \<Rightarrow> string list option" where
  "relative_to p base = (if prefix base p then Some (drop (length base) p) else None)"

definition resolve_citation :: "'a repo_env_scheme \<Rightarrow> string \<Rightarrow> string list \<Rightarrow> staged_path list \<Rightarrow> bool py_result" where
  "resolve_citation os citation repo_root staged =
     (let msg = py_strip citation
      in if match_to_end NA_RE msg 0 \<noteq> None then Inr True
         else case search_to_end CITATION_RE msg [0..<Suc (length msg)] of
           None \<Rightarrow> Inr False
         | Some st \<Rightarrow>
             (let rel_path = pat_group msg st 1;
                  line_number = (case py_int (pat_group msg st 2) of Some n \<Rightarrow> n | None \<Rightarrow> 0)
              in if line_number < 1 then Inr False
                 else rbind (os_resolve os (path_join repo_root (path_parts rel_path))) (\<lambda>candidate.
                   rbind (os_resolve os repo_root) (\<lambda>repo_root_resolved.
                     if relative_to candidate repo_root_resolved = None then Inr False
                     else if \<not> rp_is_file os candidate then Inr (rel_path \<in> sp_path ` set staged)
                     else case rp_line_count os candidate of
                       None \<Rightarrow> Inr False
                     | Some line_count \<Rightarrow> Inr (1 \<le> line_number \<and> line_number \<le> int line_count)))))"

section \<open>The six checks\<close>

definition normalise_whitespace :: "string \<Rightarrow> string" where
  "normalise_whitespace v = py_join '' '' (py_words (py_strip v))"

text \<open>\<open>sorted(values)\<close> as it is shown in a message.\<close>

definition show_values :: "string list \<Rightarrow> string" where
  "show_values vs = string_list_repr (sort vs)"

definition missing :: "string option \<Rightarrow> bool" where
  "missing v = (v = None \<or> v = Some [])"

definition check_intent :: "string option \<Rightarrow> violation list" where
  "check_intent intent_v =
     (case intent_v of
        None \<Rightarrow> [\<lparr>vi_code = ''intent_missing'',
                  vi_message = ''missing `'' @ HEADER_INTENT @ ''` header line (expected one of: '' @ show_values INTENT_VALUES @ '')''\<rparr>]
      | Some v \<Rightarrow>
          if v \<notin> set INTENT_VALUES
          then [\<lparr>vi_code = ''intent_value_invalid'',
                 vi_message = ''`'' @ HEADER_INTENT @ '' '' @ v @ ''` not in closed enum '' @ show_values INTENT_VALUES\<rparr>]
          else [])"

definition check_class :: "intent \<Rightarrow> string option \<Rightarrow> violation list" where
  "check_class i class_v =
     (if i = FIX
      then (case class_v of
              None \<Rightarrow> [\<lparr>vi_code = ''class_missing'',
                        vi_message = ''`INTENT: FIX` requires `'' @ HEADER_CLASS @ ''` header line (one of: '' @ show_values CLASS_VALUES @ '')''\<rparr>]
            | Some v \<Rightarrow>
                if v \<notin> set CLASS_VALUES
                then [\<lparr>vi_code = ''class_value_invalid'',
                       vi_message = ''`'' @ HEADER_CLASS @ '' '' @ v @ ''` not in closed enum '' @ show_values CLASS_VALUES\<rparr>]
                else [])
      else if class_v \<noteq> None
      then [\<lparr>vi_code = ''class_unexpected'',
             vi_message = ''`'' @ HEADER_CLASS @ ''` header line is only valid when `INTENT: FIX`; got `INTENT: '' @ intent_value i @ ''`''\<rparr>]
      else [])"

definition starts_with_any :: "string \<Rightarrow> string list \<Rightarrow> bool" where
  "starts_with_any v ps = list_ex (\<lambda>p. prefix (py_lower p) (py_lower v)) ps"

definition check_invariant :: "intent \<Rightarrow> string option \<Rightarrow> violation list" where
  "check_invariant i invariant_v =
     (if missing invariant_v
      then [\<lparr>vi_code = ''invariant_missing'', vi_message = ''missing `'' @ HEADER_INVARIANT @ ''` header line''\<rparr>]
      else let v = the invariant_v; required = invariant_required_prefixes i
           in if required \<noteq> [] \<and> \<not> starts_with_any v required
              then [\<lparr>vi_code = ''invariant_shape_mismatch'',
                     vi_message = ''`'' @ HEADER_INVARIANT @ ''` value `'' @ py_repr v @ ''` does not match the required shape for `INTENT: '' @
                       intent_value i @ ''` (expected to start with one of: '' @ string_list_repr required @ '')''\<rparr>]
              else [])"

definition fix_missing :: "string \<Rightarrow> string \<Rightarrow> string \<Rightarrow> string option \<Rightarrow> violation list" where
  "fix_missing code header shape v =
     (if missing v then [\<lparr>vi_code = code, vi_message = ''`INTENT: FIX` requires `'' @ header @ ''` header line '' @ shape\<rparr>] else [])"

definition fix_citation ::
  "'a repo_env_scheme \<Rightarrow> string option \<Rightarrow> staged_path list \<Rightarrow> string list \<Rightarrow> violation list py_result" where
  "fix_citation os mech_v staged repo_root =
     (if missing mech_v then Inr []
      else rbind (resolve_citation os (the mech_v) repo_root staged) (\<lambda>ok.
        Inr (if ok then []
             else [\<lparr>vi_code = ''mechanism_citation_unresolved'',
                    vi_message = ''`'' @ HEADER_DET_MECHANISM @ ''` must end with a resolving `path/file.ext:line` citation (file in '' @
                      ''staged tree or HEAD; line within bounds), or be `n/a (reason)`. Got: '' @ py_repr (the mech_v)\<rparr>])))"

definition fix_tautology :: "string option \<Rightarrow> string option \<Rightarrow> violation list" where
  "fix_tautology dof_v mech_v =
     (if \<not> missing dof_v \<and> \<not> missing mech_v \<and> normalise_whitespace (the dof_v) = normalise_whitespace (the mech_v)
      then [\<lparr>vi_code = ''fix_tautology'',
             vi_message = ''`'' @ HEADER_DOF_CLOSED @ ''` and `'' @ HEADER_DET_MECHANISM @ ''` are string-identical modulo whitespace; '' @
               ''restate the mechanism as a producer-site artefact distinct from the degree of freedom it closes''\<rparr>]
      else [])"

definition validate_fix_clauses ::
  "'a repo_env_scheme \<Rightarrow> string option \<Rightarrow> string option \<Rightarrow> staged_path list \<Rightarrow> string list \<Rightarrow> violation list py_result" where
  "validate_fix_clauses os dof_v mech_v staged repo_root =
     rbind (fix_citation os mech_v staged repo_root) (\<lambda>citation.
       Inr (fix_missing ''dof_missing'' HEADER_DOF_CLOSED ''(one sentence | `n/a (reason)`)'' dof_v @
            fix_missing ''mechanism_missing'' HEADER_DET_MECHANISM
              ''(one sentence ending with `path/file.ext:line` | `n/a (reason)`)'' mech_v @
            citation @ fix_tautology dof_v mech_v))"

definition validate_commit_msg ::
  "'a repo_env_scheme \<Rightarrow> string \<Rightarrow> intent \<Rightarrow> staged_path list \<Rightarrow> string list \<Rightarrow> violation list py_result" where
  "validate_commit_msg os msg i staged repo_root =
     rbind (if i = FIX
            then validate_fix_clauses os (parse_field msg HEADER_DOF_CLOSED) (parse_field msg HEADER_DET_MECHANISM) staged repo_root
            else Inr [])
       (\<lambda>clauses. Inr (check_intent (parse_field msg HEADER_INTENT) @ check_class i (parse_field msg HEADER_CLASS) @
          check_invariant i (parse_field msg HEADER_INVARIANT) @ clauses))"

section \<open>The git hooks\<close>

definition parse_name_status_row :: "string \<Rightarrow> staged_path list" where
  "parse_name_status_row raw =
     (let parts = py_split1 (CHR 0x09) raw
      in if py_strip raw = [] \<or> length parts < 2 then []
         else [\<lparr>sp_status = take 1 (hd parts), sp_path = last parts\<rparr>])"

definition parse_name_status :: "string \<Rightarrow> staged_path list" where
  "parse_name_status stdout = concat (map parse_name_status_row (splitlines stdout))"

definition git_dir :: "'a repo_env_scheme \<Rightarrow> string list \<Rightarrow> string list" where
  "git_dir os repo_root =
     (case dict_get (os_environ os) ''GIT_DIR'' of
        Some d \<Rightarrow> if d \<noteq> [] then path_parts d else path_join repo_root [''.git'']
      | None \<Rightarrow> path_join repo_root [''.git''])"

definition is_non_validating_commit_source :: "'a repo_env_scheme \<Rightarrow> string list \<Rightarrow> bool" where
  "is_non_validating_commit_source os repo_root =
     (let reflog = py_lower (dict_get_default (os_environ os) ''GIT_REFLOG_ACTION'' [])
      in list_ex (\<lambda>marker. rp_is_file os (path_join (git_dir os repo_root) [marker]))
           [''MERGE_HEAD'', ''CHERRY_PICK_HEAD'', ''REVERT_HEAD'', ''SQUASH_MSG''] \<or>
         py_in ''merge'' reflog \<or> py_in ''amend'' reflog)"

text \<open>The new text of the message file; \<open>existing\<close> is its text, or the empty string when there is no such file.\<close>

definition prepare_warnings :: "staged_path list \<Rightarrow> string list" where
  "prepare_warnings staged =
     (let fired = detect_multi_intent staged
      in (if 1 < length fired
          then [''# WARNING (skill '' @ SECTION_SIGN @ ''No mixed PRs): multi-intent diff detected '' @ EM_DASH @ '' fired '' @
                show_values (map intent_value fired) @ ''; consider splitting.'']
          else []) @
         (if is_mirror_only staged
          then [''# WARNING: mirror-only diff is unusual; pick the dominant upstream intent or commit as `CHORE` if pure cleanup.'']
          else []))"

definition cli_prepare :: "string py_result \<Rightarrow> string \<Rightarrow> string py_result" where
  "cli_prepare name_status existing =
     rbind name_status (\<lambda>out.
       let staged = parse_name_status out; warnings = prepare_warnings staged
       in Inr (py_join (line_feed @ line_feed)
            ((if warnings = [] then [] else [py_join line_feed warnings]) @
             [render_prepare_buffer (classify_intent staged)] @
             (if existing = [] then [] else [rev (dropWhile (\<lambda>c. c = CHR 0x0A) (rev existing))])) @ line_feed))"

text \<open>The exit code of \<open>commit-msg\<close> with the violations it prints.\<close>

definition typed_intent_of_hook :: "string \<Rightarrow> intent \<Rightarrow> intent" where
  "typed_intent_of_hook msg classifier_intent =
     (case parse_field msg HEADER_INTENT of
        Some v \<Rightarrow> (case intent_of v of Some i \<Rightarrow> i | None \<Rightarrow> classifier_intent)
      | None \<Rightarrow> classifier_intent)"

definition cli_validate ::
  "'a repo_env_scheme \<Rightarrow> string py_result \<Rightarrow> string \<Rightarrow> string list \<Rightarrow> (nat \<times> violation list) py_result" where
  "cli_validate os name_status msg repo_root =
     (if is_non_validating_commit_source os repo_root then Inr (0, [])
      else if \<not> has_pr_intent_headers msg then Inr (0, [])
      else rbind name_status (\<lambda>out.
        let staged = parse_name_status out; classifier_intent = classify_intent staged
        in rbind (validate_commit_msg os msg (typed_intent_of_hook msg classifier_intent) staged repo_root) (\<lambda>shape.
             let violations = shape @ validate_test_edits msg classifier_intent staged
             in Inr (if violations = [] then 0 else 1, violations))))"

section \<open>What a field is\<close>

text \<open>The first outcome of a pattern decides a match; the fields' pattern always has one after its header.\<close>

lemma concat_map_head: "xs = x # xs' \<Longrightarrow> f x = y # ys \<Longrightarrow> \<exists>zs. concat (map f xs) = y # zs"
  by simp

lemma lit_outcomes:
  "i \<le> length s \<Longrightarrow> pat_run (p_lit w) s (i, g) = (if prefix w (drop i s) then [(i + length w, g)] else [])"
proof (induction w arbitrary: i)
  case (Cons c w)
  show ?case
  proof (cases "i < length s \<and> s ! i = c")
    case True
    then have "drop i s = c # drop (Suc i) s" by (metis Cons_nth_drop_Suc)
    with Cons.IH [of "Suc i"] True show ?thesis by (simp add: p_lit_def)
  next
    case False
    then have "\<not> prefix (c # w) (drop i s)" by (cases "i < length s") (auto simp: Cons_nth_drop_Suc [symmetric])
    with False show ?thesis by (auto simp: p_lit_def)
  qed
qed (simp add: p_lit_def)

lemma star_head:
  "length s - i \<le> n \<Longrightarrow> i \<le> length s \<Longrightarrow>
     \<exists>zs. star_greedy (pat_run (PChar P) s) n (i, g) = (i + length (takeWhile P (drop i s)), g) # zs"
proof (induction n arbitrary: i)
  case (Suc n)
  show ?case
  proof (cases "i < length s \<and> P (s ! i)")
    case True
    then have "drop i s = s ! i # drop (Suc i) s" by (metis Cons_nth_drop_Suc)
    moreover from True Suc.prems have "length s - Suc i \<le> n" "Suc i \<le> length s" by auto
    from Suc.IH [OF this] obtain zs
      where "star_greedy (pat_run (PChar P) s) n (Suc i, g) = (Suc i + length (takeWhile P (drop (Suc i) s)), g) # zs" by blast
    moreover have "pat_run (PChar P) s (i, g) = [(Suc i, g)]" using True by simp
    ultimately show ?thesis using True by (simp del: pat_run.simps)
  next
    case False
    then have "takeWhile P (drop i s) = []" by (cases "i < length s") (auto simp: Cons_nth_drop_Suc [symmetric])
    with False show ?thesis by auto
  qed
qed simp

definition field_text :: "string \<Rightarrow> string" where
  "field_text rest = takeWhile (\<lambda>c. c \<noteq> CHR 0x0A) (dropWhile py_space rest)"

definition line_start :: "string \<Rightarrow> nat \<Rightarrow> bool" where
  "line_start s i = (i = 0 \<or> s ! (i - 1) = CHR 0x0A)"

lemma field_outcome:
  assumes "line_start s i" "prefix h (drop i s)" "i \<le> length s"
    and sp: "pat_run (PStar p_space) s (i + length h, []) = (b, []) # z1"
    and dot: "pat_run (PStar p_dot) s (b, []) = (c, []) # z2" and eol: "c = length s \<or> s ! c = CHR 0x0A"
  shows "match_at (FIELD_PATTERN h) s i = Some (c, [(1, b, c)])"
proof -
  have grouped: "pat_run (PGroup 1 (PStar p_dot)) s (b, []) = (c, [(1, b, c)]) # map (\<lambda>t. (fst t, (1, b, fst t) # snd t)) z2"
    by (simp only: pat_run.simps(10) dot list.map fst_conv snd_conv)
  have "pat_run (p_seq [PEol]) s (c, [(1, b, c)]) = [(c, [(1, b, c)])]" using eol by simp
  from concat_map_head [where f = "pat_run (p_seq [PEol]) s", OF grouped this]
  obtain z3 where z3: "pat_run (p_seq [PGroup 1 (PStar p_dot), PEol]) s (b, []) = (c, [(1, b, c)]) # z3"
    unfolding p_seq.simps(2) [of "PGroup 1 (PStar p_dot)"] pat_run.simps(3) by blast
  from concat_map_head [where f = "pat_run (p_seq [PGroup 1 (PStar p_dot), PEol]) s", OF sp z3]
  obtain z where rest: "pat_run (p_seq [PStar p_space, PGroup 1 (PStar p_dot), PEol]) s (i + length h, []) = (c, [(1, b, c)]) # z"
    unfolding p_seq.simps(2) [of "PStar p_space"] pat_run.simps(3) by blast
  have bol: "pat_run PBol s (i, []) = [(i, [])]" using assms(1) by (simp add: line_start_def)
  have "pat_run (p_lit h) s (i, []) = [(i + length h, [])]" using lit_outcomes [OF assms(3), of h "[]"] assms(2) by simp
  with bol rest have "pat_run (FIELD_PATTERN h) s (i, []) = (c, [(1, b, c)]) # z"
    unfolding FIELD_PATTERN_def p_seq.simps(2) [of PBol] p_seq.simps(2) [of "p_lit h"] pat_run.simps(3)
    by (simp only: list.map concat.simps append_Nil2)
  then show ?thesis by (simp add: match_at_def)
qed

lemma field_match_at:
  assumes "i \<le> length s"
  shows "map_option (\<lambda>st. pat_group s st 1) (match_at (FIELD_PATTERN h) s i) =
    (if line_start s i \<and> prefix h (drop i s) then Some (field_text (drop (i + length h) s)) else None)"
proof (cases "line_start s i \<and> prefix h (drop i s)")
  case False
  then have "pat_run (FIELD_PATTERN h) s (i, []) = []"
    using lit_outcomes [OF assms, of h "[]"] by (auto simp: FIELD_PATTERN_def line_start_def)
  then show ?thesis using False by (simp add: match_at_def)
next
  case True
  let ?a = "i + length h"
  let ?b = "?a + length (takeWhile py_space (drop ?a s))"
  let ?w = "takeWhile (\<lambda>c. c \<noteq> CHR 0x0A) (drop ?b s)"
  let ?c = "?b + length ?w"
  from True have a: "?a \<le> length s" using prefix_length_le [of h "drop i s"] assms by simp
  have b: "?b \<le> length s" using a length_takeWhile_le [of py_space "drop ?a s"] by simp
  have dw: "drop ?b s = dropWhile py_space (drop ?a s)" by (simp add: dropWhile_eq_drop add.commute)
  have eol: "?c = length s \<or> s ! ?c = CHR 0x0A"
  proof (cases "length ?w < length (drop ?b s)")
    case True
    from nth_length_takeWhile [OF True] b show ?thesis by (simp add: nth_drop)
  next
    case False
    with length_takeWhile_le [of "\<lambda>c. c \<noteq> CHR 0x0A" "drop ?b s"] b show ?thesis by simp
  qed
  obtain z1 where sp: "pat_run (PStar p_space) s (?a, []) = (?b, []) # z1"
    using star_head [of s ?a "length s" py_space "[]"] a by (auto simp: p_space_def)
  obtain z2 where dot: "pat_run (PStar p_dot) s (?b, []) = (?c, []) # z2"
    using star_head [of s ?b "length s" "\<lambda>c. c \<noteq> CHR 0x0A" "[]"] b by (auto simp: p_dot_def)
  have grp: "pat_group s (?c, [(1, ?b, ?c)]) 1 = ?w" by (simp add: pat_group_def takeWhile_eq_take [symmetric])
  from True have "match_at (FIELD_PATTERN h) s i = Some (?c, [(1, ?b, ?c)])"
    using field_outcome [OF _ _ assms sp dot eol] by blast
  then show ?thesis using True grp dw by (simp add: field_text_def)
qed

lemma search_field:
  "\<forall>i \<in> set is. i \<le> length s \<Longrightarrow>
   map_option (\<lambda>p. pat_group s (snd p) 1) (search_at (FIELD_PATTERN h) s is) =
     map_option (\<lambda>i. field_text (drop (i + length h) s)) (find (\<lambda>i. line_start s i \<and> prefix h (drop i s)) is)"
proof (induction "is")
  case (Cons i "is")
  with field_match_at [of i s h] show ?case by (cases "match_at (FIELD_PATTERN h) s i") (auto split: if_splits)
qed simp

lemma parse_field_eq:
  "parse_field msg h = map_option (\<lambda>i. py_strip (field_text (drop (i + length h) msg)))
     (find (\<lambda>i. line_start msg i \<and> prefix h (drop i msg)) [0..<Suc (length msg)])"
proof -
  have "parse_field msg h = map_option py_strip (map_option (\<lambda>p. pat_group msg (snd p) 1)
      (search_at (FIELD_PATTERN h) msg [0..<Suc (length msg)]))"
    by (auto simp: parse_field_def search_from_def simp del: upt_Suc split: option.splits)
  also have "\<dots> = map_option py_strip (map_option (\<lambda>i. field_text (drop (i + length h) msg))
      (find (\<lambda>i. line_start msg i \<and> prefix h (drop i msg)) [0..<Suc (length msg)]))"
    by (subst search_field) auto
  finally show ?thesis by (simp add: option.map_comp comp_def del: upt_Suc)
qed

lemma parse_field_first:
  assumes "prefix h msg"
  shows "parse_field msg h = Some (py_strip (field_text (drop (length h) msg)))"
proof -
  have "[0..<Suc (length msg)] = 0 # [Suc 0..<Suc (length msg)]" by (rule upt_conv_Cons) simp
  with assms show ?thesis by (simp add: parse_field_eq line_start_def del: upt_Suc)
qed

section \<open>The validator decides the rulebook\<close>

lemma missing_iff: "missing v \<longleftrightarrow> (\<forall>w. v = Some w \<longrightarrow> w = [])"
  by (cases v) (auto simp: missing_def)

lemma check_intent_clean: "check_intent v = [] \<longleftrightarrow> (\<exists>w. v = Some w \<and> w \<in> set INTENT_VALUES)"
  by (auto simp: check_intent_def split: option.splits)

lemma check_class_clean:
  "check_class i v = [] \<longleftrightarrow> (if i = FIX then \<exists>w. v = Some w \<and> w \<in> set CLASS_VALUES else v = None)"
  by (auto simp: check_class_def split: option.splits)

lemma check_invariant_clean:
  "check_invariant i v = [] \<longleftrightarrow>
     (\<exists>w. v = Some w \<and> w \<noteq> [] \<and> (invariant_required_prefixes i = [] \<or> starts_with_any w (invariant_required_prefixes i)))"
  by (cases v) (auto simp: check_invariant_def missing_def Let_def)

lemma fix_clauses_clean:
  "validate_fix_clauses os dof mech staged dir = Inr [] \<longleftrightarrow>
     (\<exists>d m. dof = Some d \<and> d \<noteq> [] \<and> mech = Some m \<and> m \<noteq> [] \<and>
        resolve_citation os m dir staged = Inr True \<and> normalise_whitespace d \<noteq> normalise_whitespace m)"
proof (cases "missing dof \<or> missing mech")
  case True
  then show ?thesis
    by (auto simp: validate_fix_clauses_def fix_missing_def missing_def)
next
  case False
  then obtain d m where v: "dof = Some d" "d \<noteq> []" "mech = Some m" "m \<noteq> []" by (cases dof; cases mech) (auto simp: missing_def)
  then show ?thesis
    by (auto simp: validate_fix_clauses_def fix_missing_def missing_def fix_citation_def fix_tautology_def split: if_splits)
qed

lemma validate_clean:
  "validate_commit_msg os msg i staged dir = Inr [] \<longleftrightarrow>
     check_intent (parse_field msg HEADER_INTENT) = [] \<and> check_class i (parse_field msg HEADER_CLASS) = [] \<and>
     check_invariant i (parse_field msg HEADER_INVARIANT) = [] \<and>
     (i = FIX \<longrightarrow> validate_fix_clauses os (parse_field msg HEADER_DOF_CLOSED) (parse_field msg HEADER_DET_MECHANISM) staged dir = Inr [])"
  by (auto simp: validate_commit_msg_def)

text \<open>A message as the rulebook asks for it, field by field.\<close>

definition wellformed_msg :: "'a repo_env_scheme \<Rightarrow> string \<Rightarrow> intent \<Rightarrow> staged_path list \<Rightarrow> string list \<Rightarrow> bool" where
  "wellformed_msg os msg i staged dir =
     ((\<exists>v. parse_field msg HEADER_INTENT = Some v \<and> v \<in> set INTENT_VALUES) \<and>
      (\<exists>v. parse_field msg HEADER_INVARIANT = Some v \<and> v \<noteq> [] \<and>
         (invariant_required_prefixes i = [] \<or> starts_with_any v (invariant_required_prefixes i))) \<and>
      (if i = FIX
       then (\<exists>v. parse_field msg HEADER_CLASS = Some v \<and> v \<in> set CLASS_VALUES) \<and>
            (\<exists>d m. parse_field msg HEADER_DOF_CLOSED = Some d \<and> d \<noteq> [] \<and> parse_field msg HEADER_DET_MECHANISM = Some m \<and> m \<noteq> [] \<and>
               resolve_citation os m dir staged = Inr True \<and> normalise_whitespace d \<noteq> normalise_whitespace m)
       else parse_field msg HEADER_CLASS = None))"

lemma rule_exact: "validate_commit_msg os msg i staged dir = Inr [] \<longleftrightarrow> wellformed_msg os msg i staged dir"
  unfolding validate_clean check_intent_clean check_class_clean check_invariant_clean fix_clauses_clean wellformed_msg_def
  by auto

text \<open>The validator reports nothing exactly for a message the rulebook accepts: a known intent, an invariant of the
  shape its intent asks for, a class exactly for a FIX, and for a FIX two distinct clauses whose citation resolves.\<close>

theorem validate_commit_msg_exact:
  "validate_commit_msg os msg i staged repo_root = Inr [] \<longleftrightarrow> wellformed_msg os msg i staged repo_root"
  by (rule rule_exact)

section \<open>Existing tests are protected\<close>

lemma fired_members:
  "i \<in> set (fired_intents staged) \<longleftrightarrow>
     (let rows = filter (\<lambda>r. \<not> is_mirror (sp_path r)) (filter (\<lambda>r. sp_path r \<noteq> []) staged)
      in case i of
           ADR_RULE \<Rightarrow> list_ex (\<lambda>r. is_adr_rule (sp_path r)) rows
         | IMPLEMENT \<Rightarrow> list_ex (\<lambda>r. is_src_or_tests (sp_path r)) rows \<and>
                        \<not> list_ex (\<lambda>r. is_src_or_tests (sp_path r) \<and> sp_status r \<noteq> ''A'') rows
         | FIX \<Rightarrow> list_ex (\<lambda>r. is_src_or_tests (sp_path r) \<and> sp_status r \<noteq> ''A'') rows
         | RESEARCH \<Rightarrow> list_ex (\<lambda>r. is_research (sp_path r)) rows \<and>
                       \<not> list_ex (\<lambda>r. is_research (sp_path r) \<and> sp_status r \<noteq> ''A'') rows
         | CHORE \<Rightarrow> rows \<noteq> [] \<and> list_all (\<lambda>r. is_chore (sp_path r)) rows)"
  by (cases i)
     (auto simp: fired_intents_def Let_def list_ex_iff list_all_iff filter_empty_conv filter_eq_Cons_iff split: if_splits)

lemma classify_cases:
  "classify_intent staged =
     (if ADR_RULE \<in> set (fired_intents staged) then ADR_RULE
      else if IMPLEMENT \<in> set (fired_intents staged) then IMPLEMENT
      else if FIX \<in> set (fired_intents staged) then FIX
      else if RESEARCH \<in> set (fired_intents staged) then RESEARCH else CHORE)"
  by (auto simp: classify_intent_def INTENT_PRIORITY_def)

lemma tests_not_mirror: "prefix ''tests/'' p \<Longrightarrow> \<not> is_mirror p \<and> p \<noteq> [] \<and> is_src_or_tests p"
  by (auto simp: is_mirror_def MIRROR_PATHS_def is_src_or_tests_def prefix_def)

text \<open>A diff that edits a file under \<open>tests/\<close> is a FIX, unless it also touches a rule file.\<close>

lemma edited_test_is_fix:
  assumes "r \<in> set staged" "prefix ''tests/'' (sp_path r)" "sp_status r \<noteq> ''A''"
  shows "classify_intent staged \<in> {FIX, ADR_RULE}"
proof -
  from assms tests_not_mirror [OF assms(2)] have "FIX \<in> set (fired_intents staged)" "IMPLEMENT \<notin> set (fired_intents staged)"
    unfolding fired_members by (auto simp: Let_def list_ex_iff)
  then show ?thesis by (simp add: classify_cases)
qed

lemma test_row_clean:
  "test_edit_violations declared i r = [] \<longleftrightarrow>
     (is_test_path (sp_path r) \<longrightarrow>
        sp_status r \<notin> {''D'', ''R'', ''C''} \<and> (sp_status r = ''M'' \<and> i = FIX \<longrightarrow> sp_path r \<in> fst ` set declared))"
  unfolding test_edit_violations_def
  by (cases "is_test_path (sp_path r)"; cases "sp_status r \<in> {''D'', ''R'', ''C''}";
      cases "sp_status r = ''M'' \<and> i = FIX \<and> sp_path r \<notin> fst ` set declared") (simp_all only: if_True if_False simp_thms, blast+)

lemma test_edits_clean:
  "validate_test_edits draft i staged = [] \<longleftrightarrow>
     (\<forall>r \<in> set staged. is_test_path (sp_path r) \<longrightarrow>
        sp_status r \<notin> {''D'', ''R'', ''C''} \<and> (sp_status r = ''M'' \<and> i = FIX \<longrightarrow> sp_path r \<in> fst ` set (parse_test_edits draft)))"
  unfolding validate_test_edits_def concat_eq_Nil_conv set_map ball_simps(9) test_row_clean by blast

definition test_row_ok :: "string \<Rightarrow> staged_path list \<Rightarrow> staged_path \<Rightarrow> bool" where
  "test_row_ok draft staged r \<longleftrightarrow>
     sp_status r \<notin> {''D'', ''R'', ''C''} \<and>
     (sp_status r \<noteq> ''M'' \<or> sp_path r \<in> fst ` set (parse_test_edits draft) \<or> classify_intent staged = ADR_RULE)"

lemma tests_protected_row:
  assumes "validate_test_edits draft (classify_intent staged) staged = []"
    and "r \<in> set staged" "is_test_path (sp_path r)" "prefix ''tests/'' (sp_path r)"
  shows "test_row_ok draft staged r"
  using assms edited_test_is_fix [OF assms(2,4)] by (auto simp: test_edits_clean test_row_ok_def)


definition row :: "string \<Rightarrow> string \<Rightarrow> staged_path" where
  "row st p = \<lparr>sp_status = st, sp_path = p\<rparr>"

lemma row_simps [simp]: "sp_status (row st p) = st" "sp_path (row st p) = p"
  by (simp_all add: row_def)

definition demo_fix_draft :: string where
  "demo_fix_draft = ''TEST-EDITS: tests/test_a.py - new limit''"


text \<open>
  The rule is armed by the classifier's intent alone, and a rule file beside the tests changes that intent: the same edit
  of a test, undeclared, passes.
\<close>

lemma rule_file_disarms:
  "validate_test_edits [] (classify_intent [row ''M'' ''tests/test_a.py'']) [row ''M'' ''tests/test_a.py''] \<noteq> []"
  "validate_test_edits [] (classify_intent [row ''M'' ''tests/test_a.py'', row ''A'' ''knowledge/skills/x.md''])
     [row ''M'' ''tests/test_a.py'', row ''A'' ''knowledge/skills/x.md''] = []"
  by code_simp+

text \<open>An empty field takes its value from the next line that is not blank.\<close>

lemma empty_field_reads_on:
  assumes "v \<noteq> []" "\<not> py_space (hd v)" "CHR 0x0A \<notin> set v"
  shows "parse_field (h @ line_feed @ v) h = Some (py_strip v)"
proof -
  from assms obtain c w where v: "v = c # w" "\<not> py_space c" by (cases v) auto
  have "field_text (line_feed @ v) = takeWhile (\<lambda>c. c \<noteq> CHR 0x0A) v"
    using v by (simp add: field_text_def line_feed_def py_space_def)
  moreover have "takeWhile (\<lambda>c. c \<noteq> CHR 0x0A) v = v" using assms(3) by (auto simp: takeWhile_eq_all_conv)
  moreover have "parse_field (h @ line_feed @ v) h = Some (py_strip (field_text (line_feed @ v)))"
    by (subst parse_field_first) auto
  ultimately show ?thesis by simp
qed

definition demo_repo :: repo_env where
  "demo_repo = \<lparr>os_environ = [], os_home = (\<lambda>_. None), os_resolve = Inr, os_is_symlink = (\<lambda>_. False), os_state_root = [],
     rp_is_dir = (\<lambda>p. p = [''/'', ''w'', ''tests'']), rp_is_file = (\<lambda>p. p = [''/'', ''w'', ''src'', ''fa'', ''a.py'']),
     rp_exists = (\<lambda>p. p \<in> {[''/'', ''w'', ''tests''], [''/'', ''w'', ''src'', ''fa'', ''a.py'']}), rp_line_count = (\<lambda>_. Some 10)\<rparr>"

definition demo_empty_invariant :: string where
  "demo_empty_invariant = ''INTENT: CHORE'' @ line_feed @ ''INVARIANT:'' @ line_feed @ line_feed @ ''Bump the lock file.''"

text \<open>A field left empty is not reported as missing: the validator takes the next line of text that is not blank for its value, so
  a message with an empty INVARIANT passes all six checks.\<close>

theorem empty_invariant_accepted:
  "parse_field demo_empty_invariant HEADER_INVARIANT = Some ''Bump the lock file.'' \<and>
   validate_commit_msg demo_repo demo_empty_invariant CHORE [] [''/'', ''w''] = Inr []"
  by code_simp

end
