(* ===== verification/Bash_Intent.thy ===== *)
theory Bash_Intent
  imports Pr_Intent
begin

text \<open>
  The effect of a shell command on the repository, \<open>inner_loop/bash_intent.py\<close>: every clause of the parsed command is
  classified as reading, verifying, writing the index, writing files, or opaque, and the clauses are reduced to one verdict.

  The parser \<open>bashlex\<close> is a parameter: it yields the name of the exception it raised or the list of its nodes. A node
  carries the attributes the analysis reads, with \<open>getattr\<close>'s default where a kind of node has none; the output of a
  redirection that is no node (a file descriptor) is a node of the empty kind.
\<close>

section \<open>Effects\<close>

datatype bash_effect = READ_ONLY | VERIFY_ONLY | INDEX_WRITE | REPO_WRITE | OPAQUE_EXEC

record bash_analysis =
  ba_effect :: bash_effect
  ba_projected :: "staged_path list"
  ba_reasons :: "string list"

definition verdict :: "bash_effect \<Rightarrow> string \<Rightarrow> bash_analysis" where
  "verdict e reason = \<lparr>ba_effect = e, ba_projected = [], ba_reasons = [reason]\<rparr>"

abbreviation opaque :: "string \<Rightarrow> bash_analysis" where
  "opaque reason \<equiv> verdict OPAQUE_EXEC reason"

definition writes :: "staged_path list \<Rightarrow> string \<Rightarrow> bash_analysis" where
  "writes projected reason = \<lparr>ba_effect = REPO_WRITE, ba_projected = projected, ba_reasons = [reason]\<rparr>"

datatype bash_node =
  Bash_Node (nd_class: string) (nd_kind: string) (nd_word: string) (nd_type: string) (nd_output: "bash_node option")
    (nd_parts: "bash_node list")

definition WRITE_REDIRECT_TYPES :: "string list" where
  "WRITE_REDIRECT_TYPES = [''>'', ''>>'', ''>|'', ''&>'', ''&>>'', ''<>'']"

definition READ_ONLY_COMMANDS :: "string list" where
  "READ_ONLY_COMMANDS =
     [''ls'', ''cat'', ''grep'', ''egrep'', ''fgrep'', ''rg'', ''find'', ''head'', ''tail'', ''wc'', ''stat'', ''file'', ''du'', ''df'',
      ''which'', ''whereis'', ''whoami'', ''id'', ''pwd'', ''echo'', ''printf'', ''date'', ''uname'', ''hostname'', ''tree'', ''less'',
      ''more'', ''diff'', ''cmp'', ''true'', ''false'', ''test'', ''['', '':'']"

definition GIT_READ_SUBCOMMANDS :: "string list" where
  "GIT_READ_SUBCOMMANDS = [''status'', ''diff'', ''log'', ''show'', ''blame'', ''rev-parse'', ''ls-files'']"

definition OPAQUE_HEADS :: "string list" where
  "OPAQUE_HEADS = [''make'', ''npm'', ''pnpm'', ''yarn'', ''tox'', ''nox'']"

definition LITERAL_PATH_META_CHARS :: string where
  "LITERAL_PATH_META_CHARS = ''*?[]{}$~`''"

definition SED_FLAGS_WITH_VALUE :: "string list" where
  "SED_FLAGS_WITH_VALUE = [''-e'', ''-f'', ''--expression'', ''--file'']"

definition VERIFY_ONLY_INTERPRETERS :: "string list" where
  "VERIFY_ONLY_INTERPRETERS = [''python'', ''python3'']"

definition RUFF_MUTATING_FLAGS :: "string list" where
  "RUFF_MUTATING_FLAGS = [''--fix'', ''--unsafe-fixes'']"

section \<open>Reduction\<close>

text \<open>\<open>_dedupe_projected\<close>: the first entry of every path.\<close>

fun dedupe_go :: "string list \<Rightarrow> staged_path list \<Rightarrow> staged_path list" where
  "dedupe_go seen [] = []"
| "dedupe_go seen (r # rs) =
     (if sp_path r \<in> set seen then dedupe_go seen rs else r # dedupe_go (sp_path r # seen) rs)"

definition dedupe_projected :: "staged_path list \<Rightarrow> staged_path list" where
  "dedupe_projected rs = dedupe_go [] rs"

definition reduce_analyses :: "bash_analysis list \<Rightarrow> bash_analysis" where
  "reduce_analyses analyses =
     (let effects = map ba_effect analyses;
          reasons = concat (map ba_reasons analyses);
          projected = concat (map ba_projected (filter (\<lambda>a. ba_effect a = REPO_WRITE) analyses))
      in if analyses = [] then opaque ''no analyzable clauses''
         else if OPAQUE_EXEC \<in> set effects then \<lparr>ba_effect = OPAQUE_EXEC, ba_projected = [], ba_reasons = reasons\<rparr>
         else if INDEX_WRITE \<in> set effects \<and> (REPO_WRITE \<in> set effects \<or> OPAQUE_EXEC \<in> set effects)
         then \<lparr>ba_effect = OPAQUE_EXEC, ba_projected = [], ba_reasons = reasons @ [''index-write mixed with non-index mutation'']\<rparr>
         else if REPO_WRITE \<in> set effects
         then \<lparr>ba_effect = REPO_WRITE, ba_projected = dedupe_projected projected, ba_reasons = reasons\<rparr>
         else if INDEX_WRITE \<in> set effects then \<lparr>ba_effect = INDEX_WRITE, ba_projected = [], ba_reasons = reasons\<rparr>
         else if VERIFY_ONLY \<in> set effects then \<lparr>ba_effect = VERIFY_ONLY, ba_projected = [], ba_reasons = reasons\<rparr>
         else \<lparr>ba_effect = READ_ONLY, ba_projected = [], ba_reasons = reasons\<rparr>)"

section \<open>Words\<close>

text \<open>\<open>Path(word).name\<close>\<close>

definition base_name :: "string \<Rightarrow> string" where
  "base_name w =
     (let p = path_parts w; names = (if is_absolute p then tl p else p)
      in if names = [] then [] else last names)"

definition py_isalnum :: "char \<Rightarrow> bool" where
  "py_isalnum c = (ascii_alnum c \<or> (let n = (of_char c :: nat) in
     n \<in> {170, 178, 179, 181, 185, 186, 188, 189, 190} \<or> (192 \<le> n \<and> n \<noteq> 215 \<and> n \<noteq> 247)))"

definition looks_like_assignment :: "string \<Rightarrow> bool" where
  "looks_like_assignment token =
     (CHR ''='' \<in> set token \<and>
      (let key = takeWhile (\<lambda>c. c \<noteq> CHR ''='') token in key \<noteq> [] \<and> list_all (\<lambda>c. c = CHR ''_'' \<or> py_isalnum c) key))"

definition unwrap_env :: "string list \<Rightarrow> string list option" where
  "unwrap_env words =
     (let args = dropWhile (\<lambda>a. prefix ''-'' a \<or> looks_like_assignment a) (tl words)
      in if args = [] then None else Some args)"

definition is_python_interpreter :: "string \<Rightarrow> bool" where
  "is_python_interpreter w = (w \<in> set VERIFY_ONLY_INTERPRETERS)"

text \<open>The family and whether it only verifies.\<close>

definition normalise_verifier :: "string list \<Rightarrow> (string \<times> bool) option" where
  "normalise_verifier words =
     (case words of
        [] \<Rightarrow> None
      | w # rest \<Rightarrow>
          (if w = ''pytest'' then Some (''pytest'', True)
           else if w = ''mypy'' then Some (''mypy'', True)
           else if w = ''ruff'' \<and> rest \<noteq> []
           then (if hd rest = ''check''
                 then Some (''ruff-check'', \<not> list_ex (\<lambda>f. f \<in> set (tl rest)) RUFF_MUTATING_FLAGS)
                 else if hd rest = ''format'' then Some (''ruff-format'', ''--check'' \<in> set (tl rest))
                 else None)
           else None))"

definition is_verify_only :: "string list \<Rightarrow> bool" where
  "is_verify_only words = (case normalise_verifier words of Some (_, verifies) \<Rightarrow> verifies | None \<Rightarrow> False)"

definition is_read_only :: "string list \<Rightarrow> bool" where
  "is_read_only words = (base_name (hd words) \<in> set READ_ONLY_COMMANDS)"

fun non_flag_args :: "string list \<Rightarrow> string list" where
  "non_flag_args [] = []"
| "non_flag_args (a # as) =
     (if a = ''--'' then as else if prefix ''-'' a then non_flag_args as else a # non_flag_args as)"

text \<open>The words after the options of \<open>sed\<close>, and whether a script was given by an option.\<close>

fun sed_options :: "bool \<Rightarrow> string list \<Rightarrow> bool \<times> string list" where
  "sed_options saw [] = (saw, [])"
| "sed_options saw (w # ws) =
     (if w = ''--'' then (saw, ws)
      else if \<not> prefix ''-'' w then (saw, w # ws)
      else if w \<in> set SED_FLAGS_WITH_VALUE then (case ws of [] \<Rightarrow> (True, []) | _ # ws' \<Rightarrow> sed_options True ws')
      else sed_options saw ws)"

definition sed_target_files :: "string list \<Rightarrow> string list" where
  "sed_target_files args =
     (case sed_options False args of
        (_, []) \<Rightarrow> []
      | (saw, w # ws) \<Rightarrow> if saw then w # ws else ws)"

fun perl_options :: "string list \<Rightarrow> string list" where
  "perl_options [] = []"
| "perl_options (w # ws) =
     (if \<not> prefix ''-'' w then w # ws
      else if w = ''-e'' \<or> w = ''-f'' then (case ws of [] \<Rightarrow> [] | _ # ws' \<Rightarrow> perl_options ws')
      else perl_options ws)"

definition perl_target_files :: "string list \<Rightarrow> string list" where
  "perl_target_files args = filter (\<lambda>w. \<not> prefix ''-'' w) (perl_options args)"

section \<open>Paths\<close>

definition not_literal :: "string \<Rightarrow> bool" where
  "not_literal raw = (raw = [] \<or> list_ex (\<lambda>c. c \<in> set raw) LITERAL_PATH_META_CHARS)"

definition rel_text :: "bool \<Rightarrow> string list \<Rightarrow> string" where
  "rel_text is_dir rel =
     (let t = py_replace1 (CHR 0x5C) ''/'' (path_str rel)
      in if is_dir \<and> t \<noteq> [] \<and> \<not> suffix ''/'' t then t @ ''/'' else t)"

text \<open>The status is forced to \<open>D\<close> or \<open>M\<close>, or read off the file system.\<close>

datatype path_use = Deletes | Modifies | Touches | Makes_Dir

definition project_path :: "'a repo_env_scheme \<Rightarrow> string list \<Rightarrow> path_use \<Rightarrow> string \<Rightarrow> staged_path option py_result" where
  "project_path os repo_root act raw =
     (if not_literal raw then Inr None
      else rbind (os_resolve os repo_root) (\<lambda>repo_root_resolved.
        rbind (os_resolve os (path_join repo_root_resolved (path_parts raw))) (\<lambda>candidate.
          case relative_to candidate repo_root_resolved of
            None \<Rightarrow> Inr None
          | Some rel \<Rightarrow>
              (let is_dir = (act = Makes_Dir \<or> suffix ''/'' raw \<or> rp_is_dir os candidate)
               in Inr (Some \<lparr>sp_status = (case act of Deletes \<Rightarrow> ''D'' | Modifies \<Rightarrow> ''M'' | _ \<Rightarrow> (if rp_exists os candidate then ''M'' else ''A'')),
                             sp_path = rel_text is_dir rel\<rparr>)))))"

definition project_all :: "'a repo_env_scheme \<Rightarrow> string list \<Rightarrow> path_use \<Rightarrow> string list \<Rightarrow> staged_path list py_result" where
  "project_all os repo_root act raws =
     rbind (rmap (project_path os repo_root act) raws) (\<lambda>entries. Inr (List.map_filter id entries))"

text \<open>The write redirections of a command: what they touch, whether there are any, whether one is ambiguous.\<close>

record redirects =
  rd_projected :: "staged_path list"
  rd_write :: bool
  rd_ambiguous :: bool

fun redirects_go :: "'a repo_env_scheme \<Rightarrow> string list \<Rightarrow> bash_node list \<Rightarrow> redirects \<Rightarrow> redirects py_result" where
  "redirects_go os repo_root [] acc = Inr acc"
| "redirects_go os repo_root (r # rs) acc =
     (if nd_type r \<notin> set WRITE_REDIRECT_TYPES then redirects_go os repo_root rs acc
      else let ambiguous = acc\<lparr>rd_write := True, rd_ambiguous := True\<rparr>
      in case nd_output r of
        None \<Rightarrow> redirects_go os repo_root rs ambiguous
      | Some out \<Rightarrow>
          if nd_kind out \<noteq> ''word'' \<or> nd_parts out \<noteq> [] \<or> not_literal (nd_word out)
          then redirects_go os repo_root rs ambiguous
          else rbind (project_path os repo_root Touches (nd_word out)) (\<lambda>p.
            case p of
              None \<Rightarrow> redirects_go os repo_root rs acc
            | Some e \<Rightarrow> redirects_go os repo_root rs (acc\<lparr>rd_write := True, rd_projected := rd_projected acc @ [e]\<rparr>)))"

definition analyze_redirects :: "'a repo_env_scheme \<Rightarrow> string list \<Rightarrow> bash_node list \<Rightarrow> redirects py_result" where
  "analyze_redirects os repo_root rs =
     rbind (redirects_go os repo_root rs \<lparr>rd_projected = [], rd_write = False, rd_ambiguous = False\<rparr>) (\<lambda>acc.
       Inr (acc\<lparr>rd_projected := dedupe_projected (rd_projected acc)\<rparr>))"

section \<open>Commands\<close>

text \<open>A command whose own effect is \<open>base\<close>, with its write redirections.\<close>

definition with_redirects :: "bash_effect \<Rightarrow> redirects \<Rightarrow> string \<Rightarrow> string \<Rightarrow> string \<Rightarrow> bash_analysis" where
  "with_redirects base rd reason ambiguous_reason redirect_reason =
     (if rd_ambiguous rd then opaque ambiguous_reason
      else if rd_write rd then writes (rd_projected rd) redirect_reason
      else verdict base reason)"

definition is_git_remote_read_only :: "string list \<Rightarrow> bool" where
  "is_git_remote_read_only args =
     (args = [] \<or> list_all (\<lambda>a. a \<in> {''-v'', ''--verbose''}) args \<or> hd args \<in> {''get-url'', ''show''})"

definition is_git_branch_read_only :: "string list \<Rightarrow> bool" where
  "is_git_branch_read_only args =
     (if args = [] then True
      else if list_ex (\<lambda>a. a \<in> set [''-d'', ''-D'', ''-m'', ''-M'', ''-c'', ''-C'', ''--delete'', ''--move'', ''--copy'',
                 ''--set-upstream-to'', ''--unset-upstream'', ''--edit-description'']) args then False
      else if ''--list'' \<in> set args then True
      else list_all (\<lambda>a. a \<in> set [''-a'', ''--all'', ''-r'', ''--remotes'', ''-v'', ''-vv'', ''--verbose'', ''--show-current'',
             ''--merged'', ''--no-merged'', ''--contains'', ''--no-contains'']) args)"

definition is_git_read_only :: "string list \<Rightarrow> bool" where
  "is_git_read_only words =
     (let subcommand = words ! 1
      in if subcommand \<in> set GIT_READ_SUBCOMMANDS then True
         else if subcommand = ''remote'' then is_git_remote_read_only (drop 2 words)
         else if subcommand = ''branch'' then is_git_branch_read_only (drop 2 words)
         else False)"

definition analyze_git :: "string list \<Rightarrow> redirects \<Rightarrow> bash_analysis option" where
  "analyze_git words rd =
     (if base_name (hd words) \<noteq> ''git'' then None
      else if length words < 2
      then Some (with_redirects READ_ONLY rd ''git without subcommand'' ''git without subcommand with write redirection''
             ''git without subcommand with write redirection'')
      else let sub = words ! 1; redirected = ''git '' @ sub @ '' with write redirection''
      in if sub \<in> {''add'', ''commit''}
         then Some (if rd_ambiguous rd \<or> rd_write rd then opaque redirected else verdict INDEX_WRITE (''git '' @ sub))
         else if is_git_read_only words then Some (with_redirects READ_ONLY rd (''git '' @ sub) redirected redirected)
         else if rd_ambiguous rd \<or> rd_write rd then Some (opaque redirected)
         else Some (opaque (''git '' @ sub)))"

definition python_verifier_reason :: "string \<Rightarrow> string" where
  "python_verifier_reason family =
     (if family = ''ruff-check'' then ''python -m ruff check''
      else if family = ''ruff-format'' then ''python -m ruff format --check''
      else ''python -m '' @ family)"

definition analyze_python :: "string list \<Rightarrow> redirects \<Rightarrow> bash_analysis" where
  "analyze_python words rd =
     (if 3 \<le> length words \<and> words ! 1 = ''-m''
      then let module = words ! 2
           in case normalise_verifier (drop 2 words) of
                Some (family, verifies) \<Rightarrow>
                  (if \<not> verifies
                   then opaque (if family = ''ruff-check'' then ''python -m ruff check with mutating flags'' else ''python -m '' @ module)
                   else let reason = python_verifier_reason family
                        in with_redirects VERIFY_ONLY rd reason (reason @ '' with ambiguous write redirection'')
                             (reason @ '' with write redirection''))
              | None \<Rightarrow> opaque (''python -m '' @ module)
      else if 2 \<le> length words \<and> words ! 1 = ''-c'' then opaque ''python -c''
      else opaque ''python executable'')"

definition writes_with :: "staged_path list \<Rightarrow> redirects \<Rightarrow> string \<Rightarrow> bash_analysis" where
  "writes_with projected rd reason = writes (dedupe_projected (projected @ rd_projected rd)) reason"

text \<open>\<open>touch\<close>, \<open>mkdir\<close>, \<open>rm\<close>, and the in-place editors: a write of the targets that are literal paths inside the repository.\<close>

definition analyze_targets ::
  "'a repo_env_scheme \<Rightarrow> string list \<Rightarrow> path_use \<Rightarrow> string list \<Rightarrow> redirects \<Rightarrow> string \<Rightarrow> string \<Rightarrow> string
     \<Rightarrow> bash_analysis py_result" where
  "analyze_targets os repo_root act targets rd reason none_reason not_literal_reason =
     (if targets = [] then Inr (opaque none_reason)
      else rbind (project_all os repo_root act targets) (\<lambda>projected.
        Inr (if projected = [] then opaque not_literal_reason else writes_with projected rd reason)))"

definition analyze_tee :: "'a repo_env_scheme \<Rightarrow> string list \<Rightarrow> string list \<Rightarrow> redirects \<Rightarrow> bash_analysis py_result" where
  "analyze_tee os repo_root words rd =
     (let targets = non_flag_args (tl words)
      in if targets = []
         then Inr (if rd_projected rd \<noteq> [] then writes (rd_projected rd) ''tee with write redirection''
                   else verdict READ_ONLY ''tee to stdout'')
         else analyze_targets os repo_root Touches targets rd ''tee'' [] ''tee targets not literal'')"

definition copy_verdict :: "bool \<Rightarrow> string \<Rightarrow> staged_path option \<Rightarrow> staged_path option \<Rightarrow> redirects \<Rightarrow> bash_analysis" where
  "copy_verdict delete_source verb src dst rd =
     (case (src, dst) of
        (Some s, Some d) \<Rightarrow>
          (if suffix ''/'' (sp_path d) then opaque (verb @ '' destination directory is ambiguous'')
           else writes_with ((if delete_source then [s] else []) @ [d]) rd verb)
      | _ \<Rightarrow> opaque (verb @ '' args not literal''))"

definition analyze_copy_like ::
  "'a repo_env_scheme \<Rightarrow> string list \<Rightarrow> string list \<Rightarrow> redirects \<Rightarrow> bool \<Rightarrow> bash_analysis py_result" where
  "analyze_copy_like os repo_root words rd delete_source =
     (let args = dropWhile (prefix ''-'') (tl words);
          verb = (if delete_source then ''mv'' else ''cp'')
      in if length args \<noteq> 2 then Inr (opaque (verb @ '' requires exactly one src and one dst''))
         else rbind (project_path os repo_root (if delete_source then Deletes else Touches) (args ! 0)) (\<lambda>src.
           rbind (project_path os repo_root Touches (args ! 1)) (\<lambda>dst.
             Inr (copy_verdict delete_source verb src dst rd))))"

definition analyze_in_place ::
  "'a repo_env_scheme \<Rightarrow> string list \<Rightarrow> redirects \<Rightarrow> string list \<Rightarrow> string \<Rightarrow> bash_analysis option py_result" where
  "analyze_in_place os repo_root rd files reason =
     rbind (analyze_targets os repo_root Modifies files rd reason (reason @ '' without literal files'') (reason @ '' files not literal''))
       (\<lambda>a. Inr (Some a))"

definition analyze_sed :: "'a repo_env_scheme \<Rightarrow> string list \<Rightarrow> string list \<Rightarrow> redirects \<Rightarrow> bash_analysis option py_result" where
  "analyze_sed os repo_root words rd =
     (let args = tl words
      in if \<not> list_ex (prefix ''-i'') args then Inr None
         else analyze_in_place os repo_root rd (sed_target_files args) ''sed -i'')"

definition analyze_perl :: "'a repo_env_scheme \<Rightarrow> string list \<Rightarrow> string list \<Rightarrow> redirects \<Rightarrow> bash_analysis option py_result" where
  "analyze_perl os repo_root words rd =
     (let args = tl words
      in if \<not> list_ex (\<lambda>a. prefix ''-pi'' a \<or> a = ''-i'') args then Inr None
         else analyze_in_place os repo_root rd (perl_target_files args) ''perl -pi'')"

definition analyze_repo_write_command ::
  "'a repo_env_scheme \<Rightarrow> string list \<Rightarrow> string list \<Rightarrow> redirects \<Rightarrow> bash_analysis option py_result" where
  "analyze_repo_write_command os repo_root words rd =
     (let name = base_name (hd words); targets = non_flag_args (tl words);
          some = (\<lambda>r. rbind r (\<lambda>a. Inr (Some a)))
      in if name = ''tee'' then some (analyze_tee os repo_root words rd)
         else if name = ''touch''
         then some (analyze_targets os repo_root Touches targets rd ''touch'' ''touch without targets'' ''touch targets not literal'')
         else if name = ''mkdir''
         then some (analyze_targets os repo_root Makes_Dir targets rd ''mkdir'' ''mkdir without targets'' ''mkdir targets not literal'')
         else if name = ''rm''
         then some (analyze_targets os repo_root Deletes targets rd ''rm'' ''rm without targets'' ''rm targets not literal'')
         else if name = ''cp'' then some (analyze_copy_like os repo_root words rd False)
         else if name = ''mv'' then some (analyze_copy_like os repo_root words rd True)
         else if name = ''sed'' then analyze_sed os repo_root words rd
         else if name = ''perl'' then analyze_perl os repo_root words rd
         else Inr None)"

definition analyze_literal_words ::
  "'a repo_env_scheme \<Rightarrow> string list \<Rightarrow> string list \<Rightarrow> redirects \<Rightarrow> bash_analysis py_result" where
  "analyze_literal_words os repo_root words rd =
     (let name = base_name (hd words)
      in if is_python_interpreter name then Inr (analyze_python words rd)
         else if name \<in> {''bash'', ''sh'', ''zsh'', ''dash''} then Inr (opaque (''opaque shell exec: '' @ name))
         else if name \<in> set OPAQUE_HEADS then Inr (opaque (''opaque exec family: '' @ name))
         else case analyze_git words rd of
           Some a \<Rightarrow> Inr a
         | None \<Rightarrow>
           (if is_verify_only words
            then Inr (with_redirects VERIFY_ONLY rd (''verify command: '' @ name)
                   (''verify command with ambiguous write redirection: '' @ name) (''verify command with write redirection: '' @ name))
            else if is_read_only words
            then Inr (with_redirects READ_ONLY rd (''read-only command: '' @ name)
                   (''read command with ambiguous write redirection: '' @ name) (''read command with write redirection: '' @ name))
            else rbind (analyze_repo_write_command os repo_root words rd) (\<lambda>repo_write.
              Inr (case repo_write of
                     Some a \<Rightarrow> a
                   | None \<Rightarrow> if rd_ambiguous rd \<or> rd_write rd then opaque (''unsupported command with write redirection: '' @ name)
                             else opaque (''unsupported literal command: '' @ name)))))"

text \<open>The words and redirections of a command, or the analysis that stops at a part that is neither.\<close>

fun command_parts :: "bash_node list \<Rightarrow> string list \<Rightarrow> bash_node list \<Rightarrow> bash_analysis + string list \<times> bash_node list" where
  "command_parts [] words rs = Inr (words, rs)"
| "command_parts (p # ps) words rs =
     (if nd_kind p = ''word''
      then (if nd_parts p \<noteq> [] then Inl (opaque (''word expansion in '' @ py_repr (nd_word p)))
            else command_parts ps (words @ [nd_word p]) rs)
      else if nd_kind p = ''assignment''
      then (if nd_parts p \<noteq> [] then Inl (opaque (''assignment expansion in '' @ py_repr (nd_word p)))
            else command_parts ps words rs)
      else if nd_kind p = ''redirect'' then command_parts ps words (rs @ [p])
      else Inl (opaque (''unsupported command part kind: '' @ (if nd_kind p = [] then nd_class p else nd_kind p))))"

definition analyze_command :: "'a repo_env_scheme \<Rightarrow> string list \<Rightarrow> bash_node \<Rightarrow> bash_analysis py_result" where
  "analyze_command os repo_root node =
     (case command_parts (nd_parts node) [] [] of
        Inl a \<Rightarrow> Inr a
      | Inr (words, rs) \<Rightarrow>
          rbind (analyze_redirects os repo_root rs) (\<lambda>rd.
            if words = []
            then Inr (if rd_ambiguous rd then opaque ''redirect-only command with ambiguous target''
                      else if rd_write rd then writes (rd_projected rd) ''redirect-only command''
                      else opaque ''command without argv'')
            else if base_name (hd words) = ''env''
            then (case unwrap_env words of
                    None \<Rightarrow> Inr (opaque ''env without subcommand'')
                  | Some wrapped \<Rightarrow> analyze_literal_words os repo_root wrapped rd)
            else analyze_literal_words os repo_root words rd))"

section \<open>The tree\<close>

text \<open>The parts of a list or pipeline that are analysed.\<close>

definition clause_parts :: "bash_node \<Rightarrow> bash_node list" where
  "clause_parts node =
     filter (\<lambda>p. nd_kind p \<notin> (if nd_kind node = ''list'' then {''operator'', ''reservedword''} else {''pipe''})) (nd_parts node)"

lemma clause_parts_size [termination_simp]: "p \<in> set (clause_parts node) \<Longrightarrow> size p < size node"
  by (cases node) (auto simp: clause_parts_def dest!: size_list_estimation' [where f = size, OF _ order_refl])

lemma rmap_cong [fundef_cong]: "xs = ys \<Longrightarrow> (\<And>x. x \<in> set ys \<Longrightarrow> f x = g x) \<Longrightarrow> rmap f xs = rmap g ys"
  by (induction ys arbitrary: xs) auto

function analyze_node :: "'a repo_env_scheme \<Rightarrow> string list \<Rightarrow> bash_node \<Rightarrow> bash_analysis py_result" where
  "analyze_node os repo_root node =
     (if nd_kind node = ''command'' then analyze_command os repo_root node
      else if nd_kind node = ''list'' \<or> nd_kind node = ''pipeline''
      then rbind (rmap (analyze_node os repo_root) (clause_parts node)) (\<lambda>children.
        Inr (if children = [] then opaque (''empty '' @ nd_kind node) else reduce_analyses children))
      else Inr (opaque (''unsupported node kind: '' @ (if nd_kind node = [] then nd_class node else nd_kind node))))"
  by auto
termination by (relation "measure (\<lambda>(_, _, n). size n)") (auto simp: clause_parts_size)

declare analyze_node.simps [simp del]

definition analyze_bash_for_intent ::
  "(string \<Rightarrow> string + bash_node list) \<Rightarrow> 'a repo_env_scheme \<Rightarrow> string list \<Rightarrow> string \<Rightarrow> bash_analysis py_result" where
  "analyze_bash_for_intent bashlex os repo_root command =
     (case bashlex command of
        Inl exc_type \<Rightarrow> Inr (opaque (''bash parse failed: '' @ exc_type))
      | Inr [] \<Rightarrow> Inr (reduce_analyses [])
      | Inr roots \<Rightarrow>
          rbind (os_resolve os repo_root) (\<lambda>resolved.
          rbind (rmap (analyze_node os resolved) roots) (\<lambda>analyses. Inr (reduce_analyses analyses))))"

section \<open>The verdict is a join\<close>

text \<open>Effects are ordered by what they may do; writing the index and writing files are incomparable, and their join is opaque.\<close>

fun effect_rank :: "bash_effect \<Rightarrow> nat" where
  "effect_rank READ_ONLY = 0"
| "effect_rank VERIFY_ONLY = 1"
| "effect_rank INDEX_WRITE = 2"
| "effect_rank REPO_WRITE = 2"
| "effect_rank OPAQUE_EXEC = 3"

instantiation bash_effect :: bounded_semilattice_sup_bot
begin

definition less_eq_bash_effect :: "bash_effect \<Rightarrow> bash_effect \<Rightarrow> bool" where
  "e \<le> f \<longleftrightarrow> e = f \<or> effect_rank e < effect_rank f"

definition less_bash_effect :: "bash_effect \<Rightarrow> bash_effect \<Rightarrow> bool" where
  "e < f \<longleftrightarrow> effect_rank e < effect_rank f"

definition sup_bash_effect :: "bash_effect \<Rightarrow> bash_effect \<Rightarrow> bash_effect" where
  "sup e f = (if e \<le> f then f else if f \<le> e then e else OPAQUE_EXEC)"

definition bot_bash_effect :: bash_effect where
  "bot = READ_ONLY"

instance
proof
  fix x y z :: bash_effect
  show "(x < y) = (x \<le> y \<and> \<not> y \<le> x)" "x \<le> x" "x \<le> sup x y" "y \<le> sup x y" "bot \<le> x"
    by (cases x; cases y; simp add: less_eq_bash_effect_def less_bash_effect_def sup_bash_effect_def bot_bash_effect_def)+
  show "x \<le> y \<Longrightarrow> y \<le> z \<Longrightarrow> x \<le> z" "x \<le> y \<Longrightarrow> y \<le> x \<Longrightarrow> x = y"
    by (auto simp: less_eq_bash_effect_def)
  show "y \<le> x \<Longrightarrow> z \<le> x \<Longrightarrow> sup y z \<le> x"
    by (cases x; cases y; cases z; simp add: less_eq_bash_effect_def sup_bash_effect_def)
qed

end

definition join_effects :: "bash_effect list \<Rightarrow> bash_effect" where
  "join_effects es = foldr sup es bot"

lemma join_effects_simps [simp]:
  "join_effects [] = bot" "join_effects (e # es) = sup e (join_effects es)"
  by (simp_all add: join_effects_def)

lemma join_effects_append [simp]: "join_effects (es @ fs) = sup (join_effects es) (join_effects fs)"
  by (induction es) (simp_all add: sup_assoc)

lemma join_effects_le: "join_effects es \<le> e \<longleftrightarrow> (\<forall>f \<in> set es. f \<le> e)"
  by (induction es) auto

lemma join_effects_cases:
  "join_effects es =
     (if OPAQUE_EXEC \<in> set es then OPAQUE_EXEC
      else if INDEX_WRITE \<in> set es \<and> REPO_WRITE \<in> set es then OPAQUE_EXEC
      else if REPO_WRITE \<in> set es then REPO_WRITE
      else if INDEX_WRITE \<in> set es then INDEX_WRITE
      else if VERIFY_ONLY \<in> set es then VERIFY_ONLY else READ_ONLY)"
proof (induction es)
  case (Cons e es)
  show ?case unfolding join_effects_simps Cons
    by (cases e) (simp_all add: sup_bash_effect_def less_eq_bash_effect_def)
qed (simp add: bot_bash_effect_def)

lemma reduce_join: "as \<noteq> [] \<Longrightarrow> ba_effect (reduce_analyses as) = join_effects (map ba_effect as)"
  by (simp add: reduce_analyses_def join_effects_cases Let_def)

text \<open>The clauses of a command: the leaves of its tree; an empty list or pipeline is one.\<close>

function clauses :: "bash_node \<Rightarrow> bash_node list" where
  "clauses node =
     (if (nd_kind node = ''list'' \<or> nd_kind node = ''pipeline'') \<and> clause_parts node \<noteq> []
      then concat (map clauses (clause_parts node)) else [node])"
  by auto
termination by (relation "measure size") (auto simp: clause_parts_size)

declare clauses.simps [simp del]

lemma rmap_append:
  "rmap f (xs @ ys) = rbind (rmap f xs) (\<lambda>us. rbind (rmap f ys) (\<lambda>vs. Inr (us @ vs)))"
proof (induction xs)
  case Nil
  then show ?case by (cases "rmap f ys") (simp_all add: rbind_def)
next
  case (Cons x xs)
  then show ?case by (cases "f x"; cases "rmap f xs"; cases "rmap f ys") (simp_all add: rbind_def)
qed

lemma rmap_Nil [simp]: "rmap f xs = Inr [] \<longleftrightarrow> xs = []"
  by (cases xs) auto

lemma rmap_concat_join:
  assumes "rmap f ns = Inr as"
    and "\<And>n a. n \<in> set ns \<Longrightarrow> f n = Inr a \<Longrightarrow> \<exists>bs. rmap f (g n) = Inr bs \<and> ba_effect a = join_effects (map ba_effect bs)"
  shows "\<exists>bs. rmap f (concat (map g ns)) = Inr bs \<and> join_effects (map ba_effect as) = join_effects (map ba_effect bs)"
  using assms
proof (induction ns arbitrary: as)
  case (Cons n ns)
  from Cons.prems(1) obtain a as' where a: "f n = Inr a" "rmap f ns = Inr as'" "as = a # as'" by auto
  from Cons.IH [OF a(2)] Cons.prems(2) obtain bs
    where bs: "rmap f (concat (map g ns)) = Inr bs" "join_effects (map ba_effect as') = join_effects (map ba_effect bs)"
    by (metis list.set_intros(2))
  from Cons.prems(2) [OF _ a(1)] obtain cs where "rmap f (g n) = Inr cs" "ba_effect a = join_effects (map ba_effect cs)" by auto
  with bs a(3) show ?case by (simp add: rmap_append)
qed simp

lemma node_is_join:
  "analyze_node os dir n = Inr a \<Longrightarrow>
     \<exists>bs. rmap (analyze_node os dir) (clauses n) = Inr bs \<and> ba_effect a = join_effects (map ba_effect bs)"
proof (induction os dir n arbitrary: a rule: analyze_node.induct)
  case (1 os dir n)
  show ?case
  proof (cases "(nd_kind n = ''list'' \<or> nd_kind n = ''pipeline'') \<and> clause_parts n \<noteq> []")
    case False
    then have "clauses n = [n]" by (subst clauses.simps) (rule if_not_P)
    with "1.prems" show ?thesis by (simp add: rbind_def)
  next
    case True
    then have k: "nd_kind n \<noteq> ''command''" by auto
    with "1.prems" True obtain as where as: "rmap (analyze_node os dir) (clause_parts n) = Inr as" "as \<noteq> []" "a = reduce_analyses as"
      by (auto simp: analyze_node.simps [of os dir n] split: if_splits)
    from True have c: "clauses n = concat (map clauses (clause_parts n))"
      by (subst clauses.simps) (rule if_P)
    have "\<exists>bs. rmap (analyze_node os dir) (concat (map clauses (clause_parts n))) = Inr bs \<and>
        join_effects (map ba_effect as) = join_effects (map ba_effect bs)"
      by (rule rmap_concat_join [OF as(1)]) (rule "1.IH" [OF k], use True in auto)
    with as c show ?thesis by (simp add: reduce_join)
  qed
qed

text \<open>No clause hides behind another: the verdict is the join of the verdicts on all clauses, however they are nested.\<close>

lemma verdict_join:
  assumes "analyze_bash_for_intent bashlex os repo_root command = Inr a" "bashlex command = Inr roots" "roots \<noteq> []"
  shows "\<exists>dir bs. os_resolve os repo_root = Inr dir \<and> rmap (analyze_node os dir) (concat (map clauses roots)) = Inr bs \<and>
    ba_effect a = join_effects (map ba_effect bs)"
proof -
  from assms obtain dir as where d: "os_resolve os repo_root = Inr dir" "rmap (analyze_node os dir) roots = Inr as"
      "a = reduce_analyses as"
    by (cases roots) (auto simp: analyze_bash_for_intent_def)
  from d(2) assms(3) have "as \<noteq> []" by auto
  with rmap_concat_join [OF d(2), of clauses] node_is_join d show ?thesis by (metis reduce_join)
qed

section \<open>What needs no draft\<close>

lemma le_verify: "e \<le> VERIFY_ONLY \<longleftrightarrow> e = READ_ONLY \<or> e = VERIFY_ONLY"
  by (cases e) (simp_all add: less_eq_bash_effect_def)

lemma effect_simps [simp]:
  "ba_effect (verdict e r) = e" "ba_effect (writes p r) = REPO_WRITE" "ba_effect (writes_with p rd r) = REPO_WRITE"
  by (simp_all add: verdict_def writes_def writes_with_def)

text \<open>The words of a command that only reads or verifies.\<close>

definition harmless_words :: "string list \<Rightarrow> bool" where
  "harmless_words words =
     (let name = base_name (hd words)
      in if name \<in> {''python'', ''python3''} then 3 \<le> length words \<and> words ! 1 = ''-m'' \<and> is_verify_only (drop 2 words)
         else if name \<in> {''bash'', ''sh'', ''zsh'', ''dash''} \<union> set OPAQUE_HEADS then False
         else if name = ''git'' then length words < 2 \<or> words ! 1 \<notin> {''add'', ''commit''} \<and> is_git_read_only words
         else is_verify_only words \<or> is_read_only words)"

definition idle_tee :: "string list \<Rightarrow> redirects \<Rightarrow> bool" where
  "idle_tee words rd = (base_name (hd words) = ''tee'' \<and> \<not> is_verify_only words \<and> non_flag_args (tl words) = [] \<and> rd_projected rd = [])"

definition no_write :: "redirects \<Rightarrow> bool" where
  "no_write rd = (\<not> rd_ambiguous rd \<and> \<not> rd_write rd)"

lemma with_redirects_le:
  "base \<le> VERIFY_ONLY \<Longrightarrow> ba_effect (with_redirects base rd r s t) \<le> VERIFY_ONLY \<longleftrightarrow> no_write rd"
  by (simp add: with_redirects_def le_verify no_write_def)

lemma targets_not_exempt: "analyze_targets os dir act ts rd r s t = Inr a \<Longrightarrow> \<not> ba_effect a \<le> VERIFY_ONLY"
  by (auto simp: analyze_targets_def le_verify split: if_splits)

lemma tee_exempt:
  "analyze_tee os dir words rd = Inr a \<Longrightarrow>
     ba_effect a \<le> VERIFY_ONLY \<longleftrightarrow> non_flag_args (tl words) = [] \<and> rd_projected rd = []"
  using targets_not_exempt by (fastforce simp: analyze_tee_def Let_def le_verify split: if_splits)

lemma copy_verdict_not_exempt: "\<not> ba_effect (copy_verdict m v s d rd) \<le> VERIFY_ONLY"
  by (cases s; cases d) (simp_all add: copy_verdict_def le_verify)

lemma copy_not_exempt: "analyze_copy_like os dir words rd m = Inr a \<Longrightarrow> \<not> ba_effect a \<le> VERIFY_ONLY"
  using copy_verdict_not_exempt by (fastforce simp: analyze_copy_like_def Let_def le_verify split: if_splits)

lemma in_place_not_exempt: "analyze_in_place os dir rd fs r = Inr (Some a) \<Longrightarrow> \<not> ba_effect a \<le> VERIFY_ONLY"
  using targets_not_exempt by (fastforce simp: analyze_in_place_def)

lemma repo_write_exempt:
  assumes "analyze_repo_write_command os dir words rd = Inr (Some a)"
  shows "ba_effect a \<le> VERIFY_ONLY \<longleftrightarrow> base_name (hd words) = ''tee'' \<and> non_flag_args (tl words) = [] \<and> rd_projected rd = []"
proof (cases "base_name (hd words) = ''tee''")
  case True
  with assms have "analyze_tee os dir words rd = Inr a" by (simp add: analyze_repo_write_command_def Let_def)
  with tee_exempt True show ?thesis by blast
next
  case False
  have "\<not> ba_effect a \<le> VERIFY_ONLY"
    using assms False targets_not_exempt copy_not_exempt in_place_not_exempt
    unfolding analyze_repo_write_command_def Let_def analyze_sed_def analyze_perl_def
    by (simp split: if_splits) blast+
  with False show ?thesis by simp
qed

lemma git_exempt:
  assumes "analyze_git words rd = Some a"
  shows "ba_effect a \<le> VERIFY_ONLY \<longleftrightarrow>
    (length words < 2 \<or> words ! 1 \<notin> {''add'', ''commit''} \<and> is_git_read_only words) \<and> no_write rd"
  using assms with_redirects_le [of READ_ONLY]
  by (auto simp: analyze_git_def Let_def le_verify no_write_def split: if_splits)

lemma python_exempt:
  "ba_effect (analyze_python words rd) \<le> VERIFY_ONLY \<longleftrightarrow>
     3 \<le> length words \<and> words ! 1 = ''-m'' \<and> is_verify_only (drop 2 words) \<and> no_write rd"
  using with_redirects_le [of VERIFY_ONLY]
  by (auto simp: analyze_python_def is_verify_only_def Let_def le_verify split: option.splits if_splits)

lemma tee_not_read_only: "base_name (hd words) = ''tee'' \<Longrightarrow> \<not> is_read_only words"
  by (simp add: is_read_only_def READ_ONLY_COMMANDS_def)

lemma literal_words_exempt:
  assumes "analyze_literal_words os dir words rd = Inr a"
  shows "ba_effect a \<le> VERIFY_ONLY \<longleftrightarrow> harmless_words words \<and> no_write rd \<or> idle_tee words rd"
proof -
  let ?name = "base_name (hd words)"
  consider (python) "?name \<in> {''python'', ''python3''}"
    | (opaque) "?name \<notin> {''python'', ''python3''}" "?name \<in> {''bash'', ''sh'', ''zsh'', ''dash''} \<union> set OPAQUE_HEADS"
    | (git) "?name = ''git''"
    | (other) "?name \<notin> {''python'', ''python3''}" "?name \<notin> {''bash'', ''sh'', ''zsh'', ''dash''} \<union> set OPAQUE_HEADS" "?name \<noteq> ''git''"
    by blast
  then show ?thesis
  proof cases
    case python
    then have "a = analyze_python words rd" "\<not> idle_tee words rd"
      using assms by (auto simp: analyze_literal_words_def is_python_interpreter_def VERIFY_ONLY_INTERPRETERS_def idle_tee_def Let_def)
    with python python_exempt show ?thesis by (auto simp: harmless_words_def Let_def)
  next
    case opaque
    then have "ba_effect a = OPAQUE_EXEC" "\<not> idle_tee words rd"
      using assms by (auto simp: analyze_literal_words_def is_python_interpreter_def VERIFY_ONLY_INTERPRETERS_def
          OPAQUE_HEADS_def idle_tee_def Let_def)
    with opaque show ?thesis by (auto simp: harmless_words_def Let_def le_verify)
  next
    case git
    obtain b where b: "analyze_git words rd = Some b" using git
      by (cases "analyze_git words rd") (auto simp: analyze_git_def Let_def split: if_splits)
    with git assms have "a = b" "\<not> idle_tee words rd"
      by (auto simp: analyze_literal_words_def is_python_interpreter_def VERIFY_ONLY_INTERPRETERS_def OPAQUE_HEADS_def
          idle_tee_def Let_def)
    with b git git_exempt show ?thesis by (auto simp: harmless_words_def OPAQUE_HEADS_def Let_def)
  next
    case other
    have h: "harmless_words words \<longleftrightarrow> is_verify_only words \<or> is_read_only words"
      using other unfolding harmless_words_def Let_def by (simp only: if_False simp_thms)
    have g: "analyze_git words rd = None" using other(3) by (simp add: analyze_git_def)
    have run: "a = with_redirects VERIFY_ONLY rd (''verify command: '' @ ?name)
        (''verify command with ambiguous write redirection: '' @ ?name) (''verify command with write redirection: '' @ ?name)"
      if "is_verify_only words"
      using assms other g that by (simp add: analyze_literal_words_def is_python_interpreter_def VERIFY_ONLY_INTERPRETERS_def Let_def)
    have rd: "a = with_redirects READ_ONLY rd (''read-only command: '' @ ?name)
        (''read command with ambiguous write redirection: '' @ ?name) (''read command with write redirection: '' @ ?name)"
      if "\<not> is_verify_only words" "is_read_only words"
      using assms other g that by (simp add: analyze_literal_words_def is_python_interpreter_def VERIFY_ONLY_INTERPRETERS_def Let_def)
    show ?thesis
    proof (cases "is_verify_only words \<or> is_read_only words")
      case True
      then have "\<not> idle_tee words rd" using tee_not_read_only by (auto simp: idle_tee_def)
      with True run rd with_redirects_le h show ?thesis by (metis le_verify)
    next
      case False
      then obtain w where w: "analyze_repo_write_command os dir words rd = Inr w"
        "case w of Some b \<Rightarrow> a = b | None \<Rightarrow> ba_effect a = OPAQUE_EXEC"
        using assms other g by (auto simp: analyze_literal_words_def is_python_interpreter_def VERIFY_ONLY_INTERPRETERS_def Let_def
            split: option.splits if_splits)
      show ?thesis
      proof (cases w)
        case None
        then have "?name \<noteq> ''tee''" using w(1) by (auto simp: analyze_repo_write_command_def Let_def)
        with None w(2) False h show ?thesis by (simp add: le_verify idle_tee_def)
      next
        case (Some b)
        with w have "analyze_repo_write_command os dir words rd = Inr (Some a)" by simp
        from repo_write_exempt [OF this] False h show ?thesis by (auto simp: idle_tee_def)
      qed
    qed
  qed
qed

text \<open>The words that run: those of the command, without a leading \<open>env\<close> and its settings.\<close>

definition command_argv :: "string list \<Rightarrow> string list option" where
  "command_argv words =
     (if words = [] then None else if base_name (hd words) = ''env'' then unwrap_env words else Some words)"

definition harmless_clause :: "'a repo_env_scheme \<Rightarrow> string list \<Rightarrow> bash_node \<Rightarrow> bool" where
  "harmless_clause os dir node \<longleftrightarrow>
     nd_kind node = ''command'' \<and>
     (\<exists>words rs rd argv. command_parts (nd_parts node) [] [] = Inr (words, rs) \<and> analyze_redirects os dir rs = Inr rd \<and>
        command_argv words = Some argv \<and> (harmless_words argv \<and> no_write rd \<or> idle_tee argv rd))"

lemma command_parts_stop: "command_parts ps ws rs = Inl a \<Longrightarrow> ba_effect a = OPAQUE_EXEC"
  by (induction ps ws rs rule: command_parts.induct) (auto split: if_splits)

lemma command_exempt:
  assumes "analyze_command os dir node = Inr a"
  shows "ba_effect a \<le> VERIFY_ONLY \<longleftrightarrow>
    (\<exists>words rs rd argv. command_parts (nd_parts node) [] [] = Inr (words, rs) \<and> analyze_redirects os dir rs = Inr rd \<and>
        command_argv words = Some argv \<and> (harmless_words argv \<and> no_write rd \<or> idle_tee argv rd))"
proof (cases "command_parts (nd_parts node) [] []")
  case (Inl b)
  with assms command_parts_stop [OF Inl] show ?thesis by (simp add: analyze_command_def le_verify)
next
  case (Inr wr)
  obtain words rs where wr: "wr = (words, rs)" by (cases wr)
  with Inr assms obtain rd where rd: "analyze_redirects os dir rs = Inr rd" by (auto simp: analyze_command_def)
  show ?thesis
  proof (cases "command_argv words")
    case None
    with Inr wr rd assms have "\<not> ba_effect a \<le> VERIFY_ONLY"
      by (auto simp: analyze_command_def command_argv_def le_verify rbind_def split: if_splits)
    with None Inr wr show ?thesis by auto
  next
    case (Some argv)
    with Inr wr rd assms have "analyze_literal_words os dir argv rd = Inr a"
      by (auto simp: analyze_command_def command_argv_def rbind_def split: if_splits)
    with literal_words_exempt [OF this] Some Inr wr rd show ?thesis by auto
  qed
qed

lemma clause_leaf: "n \<in> set (clauses m) \<Longrightarrow> nd_kind n = ''list'' \<or> nd_kind n = ''pipeline'' \<Longrightarrow> clause_parts n = []"
proof (induction m rule: clauses.induct)
  case (1 m)
  show ?case
  proof (cases "(nd_kind m = ''list'' \<or> nd_kind m = ''pipeline'') \<and> clause_parts m \<noteq> []")
    case True
    then have "clauses m = concat (map clauses (clause_parts m))" by (subst clauses.simps) (rule if_P)
    with "1.prems" "1.IH" [OF True] show ?thesis by auto
  next
    case False
    then have "clauses m = [m]" by (subst clauses.simps) (rule if_not_P)
    with False "1.prems" show ?thesis by auto
  qed
qed

lemma clause_exempt:
  assumes "analyze_node os dir n = Inr a" "n \<in> set (clauses m)"
  shows "ba_effect a \<le> VERIFY_ONLY \<longleftrightarrow> harmless_clause os dir n"
proof (cases "nd_kind n = ''command''")
  case True
  with assms(1) have "analyze_command os dir n = Inr a" by (simp add: analyze_node.simps)
  from command_exempt [OF this] True show ?thesis by (simp add: harmless_clause_def)
next
  case False
  with assms(1) clause_leaf [OF assms(2)] have "ba_effect a = OPAQUE_EXEC"
    by (auto simp: analyze_node.simps [of os dir n] split: if_splits)
  with False show ?thesis by (simp add: harmless_clause_def le_verify)
qed

lemma rmap_all_iff:
  assumes "rmap f xs = Inr ys" "\<And>x y. x \<in> set xs \<Longrightarrow> f x = Inr y \<Longrightarrow> P y \<longleftrightarrow> Q x"
  shows "(\<forall>y \<in> set ys. P y) \<longleftrightarrow> (\<forall>x \<in> set xs. Q x)"
  using assms by (induction xs arbitrary: ys) fastforce+

lemma draft_free:
  assumes "analyze_bash_for_intent bashlex os repo_root command = Inr a" "os_resolve os repo_root = Inr dir"
  shows "ba_effect a \<in> {READ_ONLY, VERIFY_ONLY} \<longleftrightarrow>
    (\<exists>roots. bashlex command = Inr roots \<and> roots \<noteq> [] \<and> list_all (harmless_clause os dir) (concat (map clauses roots)))"
proof (cases "\<exists>roots. bashlex command = Inr roots \<and> roots \<noteq> []")
  case False
  with assms(1) have "ba_effect a = OPAQUE_EXEC"
    by (auto simp: analyze_bash_for_intent_def reduce_analyses_def split: sum.splits list.splits)
  with False show ?thesis by auto
next
  case True
  then obtain roots where roots: "bashlex command = Inr roots" "roots \<noteq> []" by blast
  from verdict_join [OF assms(1) roots] assms(2) obtain bs
    where bs: "rmap (analyze_node os dir) (concat (map clauses roots)) = Inr bs" "ba_effect a = join_effects (map ba_effect bs)" by auto
  have "(\<forall>b \<in> set bs. ba_effect b \<le> VERIFY_ONLY) \<longleftrightarrow> (\<forall>n \<in> set (concat (map clauses roots)). harmless_clause os dir n)"
    by (rule rmap_all_iff [OF bs(1)]) (use clause_exempt in fastforce)
  then have "ba_effect a \<le> VERIFY_ONLY \<longleftrightarrow> list_all (harmless_clause os dir) (concat (map clauses roots))"
    unfolding bs(2) join_effects_le by (simp add: list_all_iff)
  with roots show ?thesis by (auto simp: le_verify)
qed


text \<open>A parser of commands of plain words, for the examples.\<close>

definition word_node :: "string \<Rightarrow> bash_node" where
  "word_node w = Bash_Node ''WordNode'' ''word'' w [] None []"

definition command_node :: "string list \<Rightarrow> bash_node" where
  "command_node ws = Bash_Node ''CommandNode'' ''command'' [] [] None (map word_node ws)"

definition demo_bashlex :: "string \<Rightarrow> string + bash_node list" where
  "demo_bashlex c = Inr [command_node (py_words c)]"

abbreviation demo_analysis :: "string \<Rightarrow> bash_analysis py_result" where
  "demo_analysis \<equiv> analyze_bash_for_intent demo_bashlex demo_repo [''/'', ''w'']"

abbreviation demo_harmless :: "string \<Rightarrow> bool" where
  "demo_harmless c \<equiv> (\<exists>roots. demo_bashlex c = Inr roots \<and> roots \<noteq> [] \<and>
     list_all (harmless_clause demo_repo [''/'', ''w'']) (concat (map clauses roots)))"

lemma demo_reads: "demo_analysis ''git status'' = Inr (verdict READ_ONLY ''git status'')"
  by code_simp

lemma demo_removes: "demo_analysis ''rm src/fa/a.py'' = Inr (writes [row ''D'' ''src/fa/a.py''] ''rm'')"
  by code_simp


section \<open>What the list of harmless commands lets through\<close>

text \<open>
  The list names programs, not what their arguments make them do; a file that is not a literal path is dropped from a write
  instead of making it opaque; and \<open>tee\<close> without targets ignores an ambiguous redirection.
\<close>

lemma harmless_commands_write:
  "demo_analysis ''find tests -name *.py -delete'' = Inr (verdict READ_ONLY ''read-only command: find'')"
  "demo_analysis ''git diff --output=src/fa/a.py'' = Inr (verdict READ_ONLY ''git diff'')"
  "demo_analysis ''tree -o src/fa/a.py'' = Inr (verdict READ_ONLY ''read-only command: tree'')"
  by code_simp+

lemma glob_target_dropped:
  "demo_analysis ''rm src/fa/a.py tests/*.py'' = Inr (writes [row ''D'' ''src/fa/a.py''] ''rm'')"
  by code_simp

lemma tee_to_variable_reads:
  "analyze_node demo_repo [''/'', ''w'']
     (Bash_Node ''CommandNode'' ''command'' [] [] None
        [word_node ''tee'',
         Bash_Node ''RedirectNode'' ''redirect'' [] ''>''
           (Some (Bash_Node ''WordNode'' ''word'' ''$F'' [] None [Bash_Node ''ParameterNode'' ''parameter'' [] [] None []])) []]) =
   Inr (verdict READ_ONLY ''tee to stdout'')"
  by code_simp

section \<open>What a write names\<close>

text \<open>A path that some word resolves to inside the repository.\<close>

definition inside_repo :: "'a repo_env_scheme \<Rightarrow> string list \<Rightarrow> string \<Rightarrow> bool" where
  "inside_repo os dir p \<longleftrightarrow>
     (\<exists>base raw rel d. os_resolve os dir = Inr base \<and> os_resolve os (path_join base (path_parts raw)) = Inr (base @ rel) \<and>
        p = rel_text d rel)"

definition analysis_wf :: "'a repo_env_scheme \<Rightarrow> string list \<Rightarrow> bash_analysis \<Rightarrow> bool" where
  "analysis_wf os dir a \<longleftrightarrow>
     (ba_effect a = REPO_WRITE \<longleftrightarrow> ba_projected a \<noteq> []) \<and> distinct (map sp_path (ba_projected a)) \<and>
     list_all (\<lambda>r. inside_repo os dir (sp_path r)) (ba_projected a)"

definition redirects_wf :: "'a repo_env_scheme \<Rightarrow> string list \<Rightarrow> redirects \<Rightarrow> bool" where
  "redirects_wf os dir rd \<longleftrightarrow>
     (rd_write rd \<longrightarrow> rd_ambiguous rd \<or> rd_projected rd \<noteq> []) \<and>
     list_all (\<lambda>r. inside_repo os dir (sp_path r)) (rd_projected rd)"

lemma set_dedupe: "set (dedupe_go seen rs) \<subseteq> set rs"
  by (induction seen rs rule: dedupe_go.induct) auto

lemma dedupe_paths: "distinct (map sp_path (dedupe_go seen rs)) \<and> sp_path ` set (dedupe_go seen rs) \<inter> set seen = {}"
  by (induction seen rs rule: dedupe_go.induct) auto

lemma dedupe_Nil [simp]: "dedupe_projected rs = [] \<longleftrightarrow> rs = []"
  by (cases rs) (simp_all add: dedupe_projected_def)

lemma dedupe_all: "list_all P rs \<Longrightarrow> list_all P (dedupe_projected rs)"
  using set_dedupe [of "[]" rs] by (auto simp: dedupe_projected_def list_all_iff)

lemma dedupe_distinct [simp]: "distinct (map sp_path (dedupe_projected rs))"
  using dedupe_paths [of "[]" rs] by (simp add: dedupe_projected_def)

lemma dedupe_id: "distinct (map sp_path rs) \<Longrightarrow> sp_path ` set rs \<inter> set seen = {} \<Longrightarrow> dedupe_go seen rs = rs"
  by (induction seen rs rule: dedupe_go.induct) auto

lemma project_inside: "project_path os dir act raw = Inr (Some r) \<Longrightarrow> inside_repo os dir (sp_path r)"
  by (fastforce simp: project_path_def relative_to_def inside_repo_def prefix_def Let_def split: if_splits option.splits)

lemma project_all_inside: "project_all os dir act raws = Inr rs \<Longrightarrow> list_all (\<lambda>r. inside_repo os dir (sp_path r)) rs"
proof (induction raws arbitrary: rs)
  case Nil
  then show ?case by (simp add: project_all_def List.map_filter_def)
next
  case (Cons raw raws)
  then obtain e es where e: "project_path os dir act raw = Inr e" "rmap (project_path os dir act) raws = Inr es"
      "rs = List.map_filter id (e # es)"
    by (auto simp: project_all_def)
  then have "list_all (\<lambda>r. inside_repo os dir (sp_path r)) (List.map_filter id es)" by (intro Cons.IH) (simp add: project_all_def)
  with e project_inside [of os dir act raw] show ?case by (cases e) (auto simp: List.map_filter_def)
qed

lemma redirects_go_wf:
  "redirects_go os dir rs acc = Inr rd \<Longrightarrow> redirects_wf os dir acc \<Longrightarrow> redirects_wf os dir rd"
proof (induction os dir rs acc arbitrary: rd rule: redirects_go.induct)
  case (2 os dir r rs acc)
  have amb: "redirects_wf os dir (acc\<lparr>rd_write := True, rd_ambiguous := True\<rparr>)" using "2.prems"(2) by (simp add: redirects_wf_def)
  show ?case
  proof (cases "nd_type r \<notin> set WRITE_REDIRECT_TYPES")
    case True
    with 2 show ?thesis by simp
  next
    case False
    show ?thesis
    proof (cases "nd_output r")
      case None
      with 2 False amb show ?thesis by simp
    next
      case (Some out)
      show ?thesis
      proof (cases "nd_kind out \<noteq> ''word'' \<or> nd_parts out \<noteq> [] \<or> not_literal (nd_word out)")
        case True
        with 2 False Some amb show ?thesis by (simp add: Let_def)
      next
        case lit: False
        with "2.prems"(1) False Some obtain p where p: "project_path os dir Touches (nd_word out) = Inr p"
          "(case p of None \<Rightarrow> redirects_go os dir rs acc
             | Some e \<Rightarrow> redirects_go os dir rs (acc\<lparr>rd_write := True, rd_projected := rd_projected acc @ [e]\<rparr>)) = Inr rd"
          by (auto simp: Let_def)
        show ?thesis
        proof (cases p)
          case None
          with p(2) have "redirects_go os dir rs acc = Inr rd" by simp
          then show ?thesis using "2.IH"(4) [OF False refl Some lit] "2.prems"(2) by blast
        next
          case (Some e)
          with p(1) project_inside "2.prems"(2)
          have "redirects_wf os dir (acc\<lparr>rd_write := True, rd_projected := rd_projected acc @ [e]\<rparr>)"
            by (auto simp: redirects_wf_def)
          moreover from p(2) Some
          have "redirects_go os dir rs (acc\<lparr>rd_write := True, rd_projected := rd_projected acc @ [e]\<rparr>) = Inr rd" by simp
          ultimately show ?thesis using "2.IH"(5) [OF False refl \<open>nd_output r = Some out\<close> lit] by blast
        qed
      qed
    qed
  qed
qed simp

abbreviation redirects_ok :: "'a repo_env_scheme \<Rightarrow> string list \<Rightarrow> redirects \<Rightarrow> bool" where
  "redirects_ok os dir rd \<equiv> redirects_wf os dir rd \<and> distinct (map sp_path (rd_projected rd))"

lemma redirects_ok: "analyze_redirects os dir rs = Inr rd \<Longrightarrow> redirects_ok os dir rd"
  using redirects_go_wf [of os dir rs]
  by (fastforce simp: analyze_redirects_def redirects_wf_def intro: dedupe_all)

named_theorems analysis_intros \<open>well-formedness of the analyses\<close>

lemma verdict_wf [analysis_intros]: "e \<noteq> REPO_WRITE \<Longrightarrow> analysis_wf os dir (verdict e r)"
  by (simp add: analysis_wf_def verdict_def)

lemma writes_wf [analysis_intros]:
  "redirects_ok os dir rd \<Longrightarrow> rd_projected rd \<noteq> [] \<Longrightarrow> analysis_wf os dir (writes (rd_projected rd) r)"
  by (simp add: analysis_wf_def writes_def redirects_wf_def)

lemma writes_with_wf [analysis_intros]:
  "redirects_ok os dir rd \<Longrightarrow> ps \<noteq> [] \<Longrightarrow> list_all (\<lambda>r. inside_repo os dir (sp_path r)) ps \<Longrightarrow> analysis_wf os dir (writes_with ps rd r)"
  by (simp add: analysis_wf_def writes_with_def writes_def redirects_wf_def dedupe_all)

lemma with_redirects_wf [analysis_intros]:
  "redirects_ok os dir rd \<Longrightarrow> base \<noteq> REPO_WRITE \<Longrightarrow> analysis_wf os dir (with_redirects base rd r s t)"
  by (auto simp: with_redirects_def redirects_wf_def intro!: analysis_intros)

lemma targets_wf:
  "analyze_targets os dir act ts rd r s t = Inr a \<Longrightarrow> redirects_ok os dir rd \<Longrightarrow> analysis_wf os dir a"
proof -
  assume run: "analyze_targets os dir act ts rd r s t = Inr a" and ok: "redirects_ok os dir rd"
  show ?thesis
  proof (cases "ts = []")
    case True
    with run have "a = opaque s" by (simp add: analyze_targets_def)
    then show ?thesis by (simp add: verdict_wf)
  next
    case False
    with run obtain ps where ps: "project_all os dir act ts = Inr ps" "a = (if ps = [] then opaque t else writes_with ps rd r)"
      by (auto simp: analyze_targets_def)
    with writes_with_wf [OF ok _ project_all_inside [OF ps(1)]] show ?thesis by (simp add: verdict_wf)
  qed
qed

lemma tee_wf: "analyze_tee os dir words rd = Inr a \<Longrightarrow> redirects_ok os dir rd \<Longrightarrow> analysis_wf os dir a"
  by (auto simp: analyze_tee_def Let_def split: if_splits intro!: analysis_intros intro: targets_wf)

lemma copy_verdict_wf:
  assumes "redirects_ok os dir rd" "\<And>r. s = Some r \<Longrightarrow> inside_repo os dir (sp_path r)"
    "\<And>r. d = Some r \<Longrightarrow> inside_repo os dir (sp_path r)"
  shows "analysis_wf os dir (copy_verdict m v s d rd)"
proof (cases s)
  case None
  then show ?thesis by (simp add: copy_verdict_def verdict_wf)
next
  case (Some r)
  show ?thesis
  proof (cases d)
    case None
    with Some show ?thesis by (simp add: copy_verdict_def verdict_wf)
  next
    case (Some q)
    with \<open>s = Some r\<close> assms(2,3) show ?thesis
      by (simp add: copy_verdict_def verdict_wf writes_with_wf [OF assms(1)])
  qed
qed

lemma copy_wf: "analyze_copy_like os dir words rd m = Inr a \<Longrightarrow> redirects_ok os dir rd \<Longrightarrow> analysis_wf os dir a"
proof -
  assume run: "analyze_copy_like os dir words rd m = Inr a" and rd: "redirects_ok os dir rd"
  let ?args = "dropWhile (prefix ''-'') (tl words)"
  show ?thesis
  proof (cases "length ?args = 2")
    case True
    with run obtain s d v where p: "project_path os dir (if m then Deletes else Touches) (?args ! 0) = Inr s"
      "project_path os dir Touches (?args ! 1) = Inr d" "a = copy_verdict m v s d rd"
      by (auto simp: analyze_copy_like_def Let_def)
    have "inside_repo os dir (sp_path r)" if "s = Some r" for r using project_inside p(1) that by blast
    moreover have "inside_repo os dir (sp_path r)" if "d = Some r" for r using project_inside p(2) that by blast
    ultimately show ?thesis unfolding p(3) by (rule copy_verdict_wf [OF rd])
  next
    case False
    with run have "\<exists>r. a = opaque r" by (auto simp: analyze_copy_like_def Let_def)
    then show ?thesis by (auto intro: verdict_wf)
  qed
qed

lemma in_place_wf: "analyze_in_place os dir rd fs r = Inr (Some a) \<Longrightarrow> redirects_ok os dir rd \<Longrightarrow> analysis_wf os dir a"
  using targets_wf by (fastforce simp: analyze_in_place_def)

lemma repo_write_analyser:
  assumes "analyze_repo_write_command os dir words rd = Inr (Some a)"
  shows "analyze_tee os dir words rd = Inr a \<or> (\<exists>act ts r s t. analyze_targets os dir act ts rd r s t = Inr a) \<or>
    (\<exists>m. analyze_copy_like os dir words rd m = Inr a) \<or> (\<exists>fs r. analyze_in_place os dir rd fs r = Inr (Some a))"
  using assms unfolding analyze_repo_write_command_def Let_def analyze_sed_def analyze_perl_def
  by (simp split: if_splits) blast+

lemma repo_write_wf:
  assumes "analyze_repo_write_command os dir words rd = Inr (Some a)" "redirects_ok os dir rd"
  shows "analysis_wf os dir a"
  using repo_write_analyser [OF assms(1)] tee_wf [OF _ assms(2)] targets_wf [OF _ assms(2)] copy_wf [OF _ assms(2)]
    in_place_wf [OF _ assms(2)] by metis

lemma git_wf: "analyze_git words rd = Some a \<Longrightarrow> redirects_ok os dir rd \<Longrightarrow> analysis_wf os dir a"
  by (auto simp: analyze_git_def Let_def split: if_splits intro!: analysis_intros)

lemma python_wf: "redirects_ok os dir rd \<Longrightarrow> analysis_wf os dir (analyze_python words rd)"
  by (auto simp: analyze_python_def Let_def split: option.splits if_splits intro!: analysis_intros)

lemma literal_words_wf:
  assumes "analyze_literal_words os dir words rd = Inr a" "redirects_ok os dir rd"
  shows "analysis_wf os dir a"
proof (cases "analyze_git words rd")
  case (Some b)
  with assms git_wf [OF Some assms(2)] show ?thesis
    by (auto simp: analyze_literal_words_def Let_def split: if_splits intro!: analysis_intros python_wf)
next
  case None
  show ?thesis
  proof (cases "analyze_repo_write_command os dir words rd")
    case (Inl e)
    with assms None show ?thesis
      by (auto simp: analyze_literal_words_def Let_def split: if_splits intro!: analysis_intros python_wf)
  next
    case (Inr w)
    have "analysis_wf os dir b" if "w = Some b" for b using repo_write_wf Inr that assms(2) by blast
    with assms None Inr show ?thesis
      by (cases w) (auto simp: analyze_literal_words_def Let_def split: if_splits intro!: analysis_intros python_wf)
  qed
qed

lemma command_wf: "analyze_command os dir node = Inr a \<Longrightarrow> analysis_wf os dir a"
proof -
  assume run: "analyze_command os dir node = Inr a"
  show ?thesis
  proof (cases "command_parts (nd_parts node) [] []")
    case (Inl b)
    have "ba_projected c = []" if "command_parts ps ws rs = Inl c" for c ps ws rs
      using that by (induction ps ws rs rule: command_parts.induct) (auto simp: verdict_def split: if_splits)
    with run Inl command_parts_stop [OF Inl] show ?thesis by (simp add: analyze_command_def analysis_wf_def)
  next
    case (Inr wr)
    obtain words rs where wr: "wr = (words, rs)" by (cases wr)
    with run Inr obtain rd where rd: "analyze_redirects os dir rs = Inr rd" by (auto simp: analyze_command_def)
    note ok = redirects_ok [OF rd]
    show ?thesis
    proof (cases "command_argv words")
      case None
      with Inr wr rd run ok show ?thesis
        by (auto simp: analyze_command_def command_argv_def redirects_wf_def rbind_def split: if_splits
            intro!: verdict_wf writes_wf)
    next
      case (Some argv)
      with Inr wr rd run have "analyze_literal_words os dir argv rd = Inr a"
        by (auto simp: analyze_command_def command_argv_def rbind_def split: if_splits)
      from literal_words_wf [OF this ok] show ?thesis .
    qed
  qed
qed

lemma reduce_wf:
  assumes "\<forall>a \<in> set as. analysis_wf os dir a"
  shows "analysis_wf os dir (reduce_analyses as)"
proof -
  let ?ps = "concat (map ba_projected (filter (\<lambda>a. ba_effect a = REPO_WRITE) as))"
  have ne: "?ps \<noteq> []" if "REPO_WRITE \<in> ba_effect ` set as" using that assms by (auto simp: analysis_wf_def)
  have ins: "list_all (\<lambda>r. inside_repo os dir (sp_path r)) ?ps" using assms by (auto simp: analysis_wf_def list_all_iff)
  show ?thesis using ne dedupe_all [OF ins]
    by (simp add: reduce_analyses_def Let_def verdict_wf) (simp add: analysis_wf_def)
qed

lemma rmap_image: "rmap f xs = Inr ys \<Longrightarrow> y \<in> set ys \<Longrightarrow> \<exists>x \<in> set xs. f x = Inr y"
  by (induction xs arbitrary: ys) auto

lemma node_wf: "analyze_node os dir n = Inr a \<Longrightarrow> analysis_wf os dir a"
proof (induction os dir n arbitrary: a rule: analyze_node.induct)
  case (1 os dir n)
  consider (command) "nd_kind n = ''command''"
    | (tree) "nd_kind n \<noteq> ''command''" "nd_kind n = ''list'' \<or> nd_kind n = ''pipeline''"
    | (other) "nd_kind n \<noteq> ''command''" "\<not> (nd_kind n = ''list'' \<or> nd_kind n = ''pipeline'')" by blast
  then show ?case
  proof cases
    case command
    with "1.prems" command_wf show ?thesis by (simp add: analyze_node.simps [of os dir n])
  next
    case tree
    with "1.prems" obtain as where as: "rmap (analyze_node os dir) (clause_parts n) = Inr as"
        "a = (if as = [] then opaque (''empty '' @ nd_kind n) else reduce_analyses as)"
      by (auto simp: analyze_node.simps [of os dir n] split: if_splits)
    have "\<forall>b \<in> set as. analysis_wf os dir b" using rmap_image [OF as(1)] "1.IH" [OF tree] by blast
    with reduce_wf as(2) show ?thesis by (auto intro!: analysis_intros)
  next
    case other
    with "1.prems" show ?thesis by (auto simp: analyze_node.simps [of os dir n] intro!: analysis_intros)
  qed
qed

text \<open>
  A command is found to write files exactly when the analysis names a path it writes; the paths it names are distinct, and
  each is what some word resolves to inside the repository.
\<close>

theorem writes_name_their_paths:
  assumes "analyze_bash_for_intent bashlex os repo_root command = Inr a" "os_resolve os repo_root = Inr dir"
  shows "analysis_wf os dir a"
proof -
  consider (none) "ba_effect a = OPAQUE_EXEC" "ba_projected a = []"
    | (some) roots as where "rmap (analyze_node os dir) roots = Inr as" "a = reduce_analyses as"
  proof (cases "\<exists>roots. bashlex command = Inr roots \<and> roots \<noteq> []")
    case True
    then obtain n ns where "bashlex command = Inr (n # ns)" by (metis neq_Nil_conv)
    with assms obtain as where "rmap (analyze_node os dir) (n # ns) = Inr as" "a = reduce_analyses as"
      by (auto simp: analyze_bash_for_intent_def simp del: rmap.simps)
    with some show ?thesis by blast
  next
    case False
    with assms(1) have "ba_effect a = OPAQUE_EXEC \<and> ba_projected a = []"
      by (auto simp: analyze_bash_for_intent_def reduce_analyses_def verdict_def split: sum.splits list.splits)
    with none show ?thesis by blast
  qed
  then show ?thesis
  proof cases
    case none
    then show ?thesis by (simp add: analysis_wf_def)
  next
    case some
    from rmap_image [OF some(1)] node_wf have "\<forall>b \<in> set as. analysis_wf os dir b" by blast
    with reduce_wf some(2) show ?thesis by blast
  qed
qed

theorem writes_name_their_paths_witness:
  "analysis_wf demo_repo [''/'', ''w''] (writes [row ''D'' ''src/fa/a.py''] ''rm'')"
  by (rule writes_name_their_paths [OF demo_removes]) (simp add: demo_repo_def)

end
