(* ===== verification/Pr_Draft.thy ===== *)
theory Pr_Draft
  imports Pr_Intent Py_Codec Tool_Registry
begin

text \<open>
  The draft of the pull-request description: \<open>PrDraftStore\<close> of \<open>inner_loop/pr_draft.py\<close>, which trusts the file only when
  this process wrote what it holds, and the tool \<open>pr_prepare\<close> of \<open>inner_loop/tools/prepare_pr.py\<close>, which renders and
  writes it.

  The file is what a read of it finds; the rest of the world may replace it at any time. SHA-256 is the parameter
  \<open>digest\<close>, and what the file system raises on a write or a removal is an argument of the operation.
\<close>

section \<open>The store\<close>

datatype draft_file = No_File | Unreadable | Undecodable | Text_File string

record draft_store =
  ds_path :: "string list"
  ds_current_digest :: "string option"
  ds_file :: draft_file

text \<open>Reading in text mode turns every line end into a line feed.\<close>

fun universal_newlines :: "string \<Rightarrow> string" where
  "universal_newlines [] = []"
| "universal_newlines (c # s) =
     (if c = CHR 0x0D
      then CHR 0x0A # universal_newlines (if s \<noteq> [] \<and> hd s = CHR 0x0A then tl s else s)
      else c # universal_newlines s)"

definition store_clear :: "bool \<Rightarrow> py_exc option \<Rightarrow> draft_store \<Rightarrow> py_exc option \<times> draft_store" where
  "store_clear remove_file unlink_raises st =
     (let cleared = st\<lparr>ds_current_digest := None\<rparr>
      in if \<not> remove_file then (None, cleared)
         else if ds_file st = No_File then (None, cleared)
         else case unlink_raises of Some e \<Rightarrow> (Some e, cleared) | None \<Rightarrow> (None, cleared\<lparr>ds_file := No_File\<rparr>))"

definition write_text :: "(string \<Rightarrow> string) \<Rightarrow> py_exc option \<Rightarrow> string \<Rightarrow> draft_store \<Rightarrow> py_exc option \<times> draft_store" where
  "write_text digest write_raises t st =
     (case write_raises of
        Some e \<Rightarrow> (Some e, st)
      | None \<Rightarrow> (None, st\<lparr>ds_file := Text_File t, ds_current_digest := Some (digest t)\<rparr>))"

definition read_current_text :: "(string \<Rightarrow> string) \<Rightarrow> draft_store \<Rightarrow> string option py_result" where
  "read_current_text digest st =
     (case ds_current_digest st of
        None \<Rightarrow> Inr None
      | Some d \<Rightarrow>
          (case ds_file st of
             No_File \<Rightarrow> Inr None
           | Unreadable \<Rightarrow> Inr None
           | Undecodable \<Rightarrow> Inl (Exn (OtherError ''UnicodeDecodeError'') ''invalid utf-8'')
           | Text_File raw \<Rightarrow> (let t = universal_newlines raw in Inr (if digest t \<noteq> d then None else Some t))))"

definition has_current_text :: "(string \<Rightarrow> string) \<Rightarrow> draft_store \<Rightarrow> bool py_result" where
  "has_current_text digest st = rbind (read_current_text digest st) (\<lambda>t. Inr (t \<noteq> None))"

section \<open>The tool\<close>

definition require_string :: "json_obj \<Rightarrow> string \<Rightarrow> string py_result" where
  "require_string params k =
     (case dict_get params k of Some (JStr s) \<Rightarrow> Inr s | _ \<Rightarrow> Inl (Exn ValueError (k @ '' must be a string'')))"

definition optional_string :: "json_obj \<Rightarrow> string \<Rightarrow> string option py_result" where
  "optional_string params k =
     (case dict_get params k of
        None \<Rightarrow> Inr None
      | Some JNull \<Rightarrow> Inr None
      | Some (JStr s) \<Rightarrow> Inr (Some s)
      | _ \<Rightarrow> Inl (Exn ValueError (k @ '' must be a string'')))"

record draft_fields =
  df_intent :: string
  df_invariant :: string
  df_fix_class :: "string option"
  df_dof :: "string option"
  df_mechanism :: "string option"
  df_body :: "string option"

definition draft_fields_of :: "json_obj \<Rightarrow> draft_fields py_result" where
  "draft_fields_of params =
     rbind (require_string params ''intent'') (\<lambda>i.
     rbind (require_string params ''invariant'') (\<lambda>inv.
     rbind (optional_string params ''fix_class'') (\<lambda>cls.
     rbind (optional_string params ''degree_of_freedom_closed'') (\<lambda>dof.
     rbind (optional_string params ''deterministic_mechanism'') (\<lambda>mech.
     rbind (optional_string params ''body'') (\<lambda>body.
       Inr \<lparr>df_intent = i, df_invariant = inv, df_fix_class = cls, df_dof = dof, df_mechanism = mech, df_body = body\<rparr>))))))"

definition header_line :: "string \<Rightarrow> string option \<Rightarrow> string list" where
  "header_line h v = (case v of None \<Rightarrow> [] | Some s \<Rightarrow> [h @ '' '' @ s])"

definition render_draft :: "intent \<Rightarrow> draft_fields \<Rightarrow> string" where
  "render_draft i f =
     py_join line_feed
       ([HEADER_INTENT @ '' '' @ intent_value i] @ header_line HEADER_CLASS (df_fix_class f) @
        [HEADER_INVARIANT @ '' '' @ df_invariant f] @
        (if i = FIX then header_line HEADER_DOF_CLOSED (df_dof f) @ header_line HEADER_DET_MECHANISM (df_mechanism f) else []) @
        (case df_body f of
           None \<Rightarrow> []
         | Some b \<Rightarrow> if py_strip b \<noteq> [] then [[], py_rstrip b] else [])) @ line_feed"

definition only_for_fix :: "intent \<Rightarrow> string \<Rightarrow> string" where
  "only_for_fix i k = ''`'' @ k @ ''` is only valid when `intent` is `FIX`; got `'' @ intent_value i @ ''`''"

definition validate_fix_fields :: "intent \<Rightarrow> draft_fields \<Rightarrow> string option" where
  "validate_fix_fields i f =
     (if i = FIX
      then (if df_fix_class f = None then Some (''`INTENT: FIX` requires `fix_class` (one of: '' @ show_values CLASS_VALUES @ '')'')
            else if df_dof f = None then Some ''`INTENT: FIX` requires `degree_of_freedom_closed`''
            else if df_mechanism f = None then Some ''`INTENT: FIX` requires `deterministic_mechanism`''
            else None)
      else if df_fix_class f \<noteq> None then Some (only_for_fix i ''fix_class'')
      else if df_dof f \<noteq> None then Some (only_for_fix i ''degree_of_freedom_closed'')
      else if df_mechanism f \<noteq> None then Some (only_for_fix i ''deterministic_mechanism'')
      else None)"

definition validate_invariant_prefix :: "intent \<Rightarrow> string \<Rightarrow> string option" where
  "validate_invariant_prefix i invariant =
     (let required = invariant_required_prefixes i
      in if required = [] \<or> starts_with_any invariant required then None
         else Some (''`invariant` value '' @ py_repr invariant @ '' does not match the required shape for `INTENT: '' @
                    intent_value i @ ''` (expected to start with one of: '' @ string_list_repr required @ '')''))"

text \<open>The handler after its parameters are read.\<close>

definition write_draft ::
  "(string \<Rightarrow> string) \<Rightarrow> py_exc option \<Rightarrow> intent \<Rightarrow> string \<Rightarrow> draft_store \<Rightarrow> tool_result py_result \<times> draft_store" where
  "write_draft digest write_raises i rendered st =
     (case write_text digest write_raises rendered st of
        (Some e, st') \<Rightarrow>
          (if exn_class e \<in> {OSError, PermissionError} then tool_result_fail ''write_failed'' (exn_msg e) True None else Inl e, st')
      | (None, st') \<Rightarrow>
          (tool_result_ok (''wrote pr draft ('' @ intent_value i @ '')'')
             (Some (JObj [(''path'', JStr (path_str (ds_path st))), (''bytes'', JInt (int (length (utf8_encode (cps rendered))))),
                          (''intent'', JStr (intent_value i))])) [], st'))"

definition path_parent :: "string list \<Rightarrow> string list" where
  "path_parent p = (if length p \<le> 1 \<and> is_absolute p then p else butlast p)"

definition prepare_fields ::
  "'a repo_env_scheme \<Rightarrow> (string \<Rightarrow> string) \<Rightarrow> py_exc option \<Rightarrow> draft_fields \<Rightarrow> draft_store
     \<Rightarrow> tool_result py_result \<times> draft_store" where
  "prepare_fields os digest write_raises f st =
     (case intent_of (df_intent f) of
        None \<Rightarrow> (tool_result_fail ''invalid_params''
                  (''`intent` '' @ py_repr (df_intent f) @ '' not in closed enum '' @ show_values INTENT_VALUES) True None, st)
      | Some i \<Rightarrow>
          (case validate_invariant_prefix i (df_invariant f) of
             Some msg \<Rightarrow> (tool_result_fail ''invariant_shape_mismatch'' msg True None, st)
           | None \<Rightarrow>
               (case validate_fix_fields i f of
                  Some msg \<Rightarrow> (tool_result_fail ''invalid_params'' msg True None, st)
                | None \<Rightarrow>
                    (let rendered = render_draft i f
                     in case validate_commit_msg os rendered i [] (path_parent (ds_path st)) of
                          Inl e \<Rightarrow> (Inl e, st)
                        | Inr downstream \<Rightarrow>
                            (case filter (\<lambda>v. vi_code v \<noteq> ''mechanism_citation_unresolved'') downstream of
                               first # rest \<Rightarrow>
                                 (tool_result_fail (vi_code first)
                                    (py_join ''; '' (map (\<lambda>v. vi_code v @ '': '' @ vi_message v) (first # rest))) True None, st)
                             | [] \<Rightarrow> write_draft digest write_raises i rendered st)))))"

definition pr_prepare ::
  "'a repo_env_scheme \<Rightarrow> (string \<Rightarrow> string) \<Rightarrow> py_exc option \<Rightarrow> json_obj \<Rightarrow> draft_store \<Rightarrow> tool_result py_result \<times> draft_store" where
  "pr_prepare os digest write_raises params st =
     (case draft_fields_of params of
        Inl e \<Rightarrow> (tool_result_fail ''invalid_params'' (exn_msg e) True None, st)
      | Inr f \<Rightarrow> prepare_fields os digest write_raises f st)"

section \<open>Trust\<close>

text \<open>What happens to a store in a session: its own operations, and whatever else writes to the path.\<close>

datatype draft_op = Clear bool "py_exc option" | Write "py_exc option" string | Outside draft_file

fun store_step :: "(string \<Rightarrow> string) \<Rightarrow> draft_op \<Rightarrow> draft_store \<Rightarrow> draft_store" where
  "store_step digest (Clear r e) st = snd (store_clear r e st)"
| "store_step digest (Write e t) st = snd (write_text digest e t st)"
| "store_step digest (Outside f) st = st\<lparr>ds_file := f\<rparr>"

fun store_steps :: "(string \<Rightarrow> string) \<Rightarrow> draft_op list \<Rightarrow> draft_store \<Rightarrow> draft_store" where
  "store_steps digest [] st = st"
| "store_steps digest (p # ps) st = store_steps digest ps (store_step digest p st)"

text \<open>The text last written by the session itself since the last reset.\<close>

fun session_draft :: "draft_op list \<Rightarrow> string option \<Rightarrow> string option" where
  "session_draft [] w = w"
| "session_draft (Clear r e # ps) w = session_draft ps None"
| "session_draft (Write None t # ps) w = session_draft ps (Some t)"
| "session_draft (Write (Some e) t # ps) w = session_draft ps w"
| "session_draft (Outside f # ps) w = session_draft ps w"

definition empty_store :: "string list \<Rightarrow> draft_file \<Rightarrow> draft_store" where
  "empty_store p f = \<lparr>ds_path = p, ds_current_digest = None, ds_file = f\<rparr>"

lemma steps_digest:
  "ds_current_digest st = map_option digest w \<Longrightarrow>
     ds_current_digest (store_steps digest ps st) = map_option digest (session_draft ps w)"
proof (induction ps w arbitrary: st rule: session_draft.induct)
  case (2 r e ps w)
  have "ds_current_digest (store_step digest (Clear r e) st) = map_option digest None"
    by (auto simp: store_clear_def Let_def split: option.splits)
  from "2.IH" [OF this] show ?case by simp
qed (simp_all add: write_text_def)

lemma read_current_iff:
  "read_current_text digest st = Inr (Some t) \<longleftrightarrow>
     (\<exists>raw. ds_current_digest st = Some (digest t) \<and> ds_file st = Text_File raw \<and> t = universal_newlines raw)"
  by (auto simp: read_current_text_def Let_def split: option.splits draft_file.splits)

text \<open>C10: Over any interleaving of the session's own writes and resets with foreign changes of the file, a draft is trusted
  exactly when the file reads as a text whose digest is that of the text this session wrote last.\<close>

theorem draft_trust_exact:
  "read_current_text digest (store_steps digest ps (empty_store p f)) = Inr (Some t) \<longleftrightarrow>
     (\<exists>w raw. session_draft ps None = Some w \<and> digest w = digest t \<and>
        ds_file (store_steps digest ps (empty_store p f)) = Text_File raw \<and> universal_newlines raw = t)"
proof -
  have "ds_current_digest (store_steps digest ps (empty_store p f)) = map_option digest (session_draft ps None)"
    by (rule steps_digest) (simp add: empty_store_def)
  then show ?thesis by (cases "session_draft ps None") (auto simp: read_current_iff)
qed

lemma universal_newlines_id: "CHR 0x0D \<notin> set t \<Longrightarrow> universal_newlines t = t"
  by (induction t rule: universal_newlines.induct) auto

lemma write_then_read:
  "CHR 0x0D \<notin> set t \<Longrightarrow> read_current_text digest (snd (write_text digest None t st)) = Inr (Some t)"
  by (simp add: write_text_def read_current_text_def universal_newlines_id)

text \<open>A draft with a carriage return does not read back as it was written, so it is never trusted.\<close>

lemma carriage_return_untrusted:
  "digest (universal_newlines t) \<noteq> digest t \<Longrightarrow> read_current_text digest (snd (write_text digest None t st)) = Inr None"
  by (simp add: write_text_def read_current_text_def)

text \<open>A file that is not UTF-8 makes the read raise.\<close>

lemma undecodable_draft_raises:
  "\<exists>e. read_current_text digest (store_step digest (Outside Undecodable) (snd (write_text digest None t st))) = Inl e"
  by (simp add: write_text_def read_current_text_def)

section \<open>A prepared draft satisfies the validator\<close>

abbreviation "CITATION_CODE \<equiv> ''mechanism_citation_unresolved''"

abbreviation blocking :: "violation list \<Rightarrow> violation list" where
  "blocking vs \<equiv> filter (\<lambda>v. vi_code v \<noteq> CITATION_CODE) vs"

lemma check_codes [simp]:
  "blocking (check_intent v) = check_intent v"
  "blocking (check_class i v) = check_class i v"
  "blocking (check_invariant i v) = check_invariant i v"
  "blocking (fix_tautology v w) = fix_tautology v w"
  by (auto simp: check_intent_def check_class_def check_invariant_def fix_tautology_def Let_def split: option.splits)

lemma missing_codes [simp]: "c \<noteq> CITATION_CODE \<Longrightarrow> blocking (fix_missing c h s v) = fix_missing c h s v"
  by (simp add: fix_missing_def)

lemma citation_codes [simp]: "fix_citation os m staged dir = Inr vs \<Longrightarrow> blocking vs = []"
  by (auto simp: fix_citation_def split: if_splits)

text \<open>Everything but the citation is decided by the message alone.\<close>

lemma blocking_message:
  assumes "validate_commit_msg os msg i staged dir = Inr vs" "validate_commit_msg os msg i staged' dir' = Inr vs'"
  shows "blocking vs = blocking vs'"
  using assms by (auto simp: validate_commit_msg_def validate_fix_clauses_def split: if_splits)

lemma not_fix_validates: "i \<noteq> FIX \<Longrightarrow> validate_commit_msg os msg i staged dir = validate_commit_msg os msg i [] dir'"
  by (simp add: validate_commit_msg_def)

lemma not_fix_blocking: "validate_commit_msg os msg i staged dir = Inr vs \<Longrightarrow> i \<noteq> FIX \<Longrightarrow> blocking vs = vs"
  by (auto simp: validate_commit_msg_def)

lemma render_starts: "\<exists>rest. render_draft i f = HEADER_INTENT @ '' '' @ intent_value i @ line_feed @ rest"
proof -
  have "py_join line_feed (x # y # xs) = x @ line_feed @ py_join line_feed (y # xs)" for x y :: string and xs
    by simp
  then show ?thesis
    by (cases "df_fix_class f") (auto simp: render_draft_def header_line_def)
qed

lemma render_intent: "parse_field (render_draft i f) HEADER_INTENT = Some (intent_value i)"
proof -
  obtain rest where r: "render_draft i f = HEADER_INTENT @ '' '' @ intent_value i @ line_feed @ rest" using render_starts by blast
  have "field_text ('' '' @ intent_value i @ line_feed @ rest) = intent_value i"
    by (cases i) (simp_all add: field_text_def line_feed_def py_space_def)
  moreover have "py_strip (intent_value i) = intent_value i"
    by (cases i) (simp_all add: py_strip_def py_rstrip_def py_lstrip_def py_space_def)
  ultimately show ?thesis unfolding r by (subst parse_field_first) simp_all
qed

lemma intent_of_value: "intent_of v = Some i \<longleftrightarrow> v = intent_value i"
  by (cases i) (auto simp: intent_of_def)

definition prepared :: "tool_result py_result \<Rightarrow> bool" where
  "prepared r \<longleftrightarrow> (\<exists>t. r = Inr t \<and> tr_error t = None)"

lemma fail_not_prepared [simp]: "\<not> prepared (tool_result_fail c m rt s)"
  by (auto simp: prepared_def tool_result_fail_def tool_result_post_init_def split: if_splits)

lemma raise_not_prepared [simp]: "\<not> prepared (Inl e)"
  by (simp add: prepared_def)

lemma fields_intent: "draft_fields_of params = Inr f \<Longrightarrow> dict_get params ''intent'' = Some (JStr (df_intent f))"
  by (auto simp: draft_fields_of_def require_string_def split: option.splits json.splits)

lemma pr_prepare_success:
  assumes "pr_prepare os digest wr params st = (r, st')" "prepared r"
  shows "\<exists>i f vs. dict_get params ''intent'' = Some (JStr (intent_value i)) \<and> wr = None \<and>
    validate_commit_msg os (render_draft i f) i [] (path_parent (ds_path st)) = Inr vs \<and> blocking vs = [] \<and>
    st' = snd (write_text digest None (render_draft i f) st)"
proof -
  from assms obtain f where p: "draft_fields_of params = Inr f" and f: "prepare_fields os digest wr f st = (r, st')"
    by (auto simp: pr_prepare_def split: sum.splits)
  with assms(2) obtain i vs where i: "df_intent f = intent_value i"
      "validate_commit_msg os (render_draft i f) i [] (path_parent (ds_path st)) = Inr vs" "blocking vs = []"
      "write_draft digest wr i (render_draft i f) st = (r, st')"
    by (auto simp: prepare_fields_def Let_def intent_of_value split: option.splits sum.splits list.splits)
  from i(4) assms(2) have "wr = None" "st' = snd (write_text digest None (render_draft i f) st)"
    by (auto simp: write_draft_def write_text_def split: option.splits if_splits)
  with i fields_intent [OF p] show ?thesis by metis
qed

lemma intent_value_inj: "intent_value i = intent_value j \<Longrightarrow> i = j"
  by (cases i; cases j) simp_all

lemma prepared_not_fix:
  assumes "pr_prepare os digest wr params st = (r, st')" "prepared r"
    and "dict_get params ''intent'' = Some (JStr (intent_value i))" "i \<noteq> FIX"
  shows "\<exists>f. st' = snd (write_text digest None (render_draft i f) st) \<and>
    (\<forall>staged dir. validate_commit_msg os (render_draft i f) i staged dir = Inr [])"
proof -
  from pr_prepare_success [OF assms(1,2)] obtain j f vs
    where j: "dict_get params ''intent'' = Some (JStr (intent_value j))"
      "validate_commit_msg os (render_draft j f) j [] (path_parent (ds_path st)) = Inr vs" "blocking vs = []"
      "st' = snd (write_text digest None (render_draft j f) st)" by blast
  with assms(3) intent_value_inj have "j = i" by force
  with j not_fix_blocking [OF j(2)] assms(4) not_fix_validates [OF assms(4)] show ?thesis by metis
qed

text \<open>
  When \<open>pr_prepare\<close> reports success and the rendered text has no carriage return, the draft is trusted from then on, its
  typed intent is the one that was asked for, and against any staged diff the validator can only object to the citation of a FIX.
\<close>

theorem prepared_draft_valid:
  assumes "pr_prepare os digest wr params st = (r, st')" "prepared r"
  shows "\<exists>i msg. ds_file st' = Text_File msg \<and> parse_field msg HEADER_INTENT = Some (intent_value i) \<and>
    dict_get params ''intent'' = Some (JStr (intent_value i)) \<and>
    (CHR 0x0D \<in> set msg \<or> read_current_text digest st' = Inr (Some msg)) \<and>
    (\<nexists>staged dir vs. validate_commit_msg os msg i staged dir = Inr vs \<and> vi_code ` set vs - {CITATION_CODE} \<noteq> {}) \<and>
    (i = FIX \<or> (\<nexists>staged dir. validate_commit_msg os msg i staged dir \<noteq> Inr []))"
proof -
  from pr_prepare_success [OF assms] obtain i f vs
    where par: "dict_get params ''intent'' = Some (JStr (intent_value i))"
      and v: "validate_commit_msg os (render_draft i f) i [] (path_parent (ds_path st)) = Inr vs" "blocking vs = []"
      and st': "st' = snd (write_text digest None (render_draft i f) st)" by blast
  let ?msg = "render_draft i f"
  have only: "vi_code ` set ws - {CITATION_CODE} = {}" if "validate_commit_msg os ?msg i staged dir = Inr ws" for staged dir ws
    using blocking_message [OF that v(1)] v(2) by (auto simp: filter_empty_conv)
  have clean: "validate_commit_msg os ?msg i staged dir = Inr []" if "i \<noteq> FIX" for staged dir
    using not_fix_validates [OF that] v not_fix_blocking [OF v(1) that] by metis
  have on_disk: "ds_file st' = Text_File ?msg" by (simp add: st' write_text_def)
  have trusted: "CHR 0x0D \<in> set ?msg \<or> read_current_text digest st' = Inr (Some ?msg)"
    using write_then_read unfolding st' by blast
  show ?thesis
  proof (intro exI conjI)
    show "i = FIX \<or> (\<nexists>staged dir. validate_commit_msg os ?msg i staged dir \<noteq> Inr [])" using clean by blast
    show "\<nexists>staged dir ws. validate_commit_msg os ?msg i staged dir = Inr ws \<and> vi_code ` set ws - {CITATION_CODE} \<noteq> {}"
      using only by blast
  qed (rule on_disk render_intent par trusted)+
qed

definition demo_prepare :: "tool_result py_result \<times> draft_store" where
  "demo_prepare = pr_prepare demo_repo id None [(''intent'', JStr ''CHORE''), (''invariant'', JStr ''n/a'')]
     (empty_store [''/'', ''s'', ''pr_draft.md''] No_File)"

theorem prepared_draft_valid_witness:
  "prepared (fst demo_prepare) \<and>
   (\<exists>i msg. ds_file (snd demo_prepare) = Text_File msg \<and> parse_field msg HEADER_INTENT = Some (intent_value i) \<and>
      (CHR 0x0D \<in> set msg \<or> read_current_text id (snd demo_prepare) = Inr (Some msg)))"
proof
  have "case fst demo_prepare of Inr t \<Rightarrow> tr_error t = None | Inl e \<Rightarrow> False" by code_simp
  then show ok: "prepared (fst demo_prepare)" by (auto simp: prepared_def split: sum.splits)
  have "pr_prepare demo_repo id None [(''intent'', JStr ''CHORE''), (''invariant'', JStr ''n/a'')]
      (empty_store [''/'', ''s'', ''pr_draft.md''] No_File) = (fst demo_prepare, snd demo_prepare)"
    by (simp add: demo_prepare_def)
  from prepared_draft_valid [OF this ok]
  show "\<exists>i msg. ds_file (snd demo_prepare) = Text_File msg \<and> parse_field msg HEADER_INTENT = Some (intent_value i) \<and>
      (CHR 0x0D \<in> set msg \<or> read_current_text id (snd demo_prepare) = Inr (Some msg))" by blast
qed

end
