(* ===== verification/Intent_Guard.thy ===== *)
theory Intent_Guard
  imports Bash_Intent Pr_Draft Hooks
begin

text \<open>
  \<open>IntentGuard\<close> of \<open>inner_loop/hooks/intent_guard.py\<close>: before a tool that writes runs, the guard asks for a draft this
  session wrote, projects what the call will touch into the staged diff, and validates the draft against the result with
  the rulebook of the git hook.

  The standard output of \<open>git diff --cached --name-status\<close> and the parser of shell commands are parameters; the log
  messages are left out.
\<close>

section \<open>The guard\<close>

definition MUTATING_TOOL_NAMES :: "string list" where
  "MUTATING_TOOL_NAMES = [''fs_write_file'', ''fs_edit_file'', ''fs_apply_patch'']"

definition INTENT_GUARD_MODES :: "string list" where
  "INTENT_GUARD_MODES = [''enforce'', ''observe'', ''off'']"

definition MISSING_DRAFT_REASON :: string where
  "MISSING_DRAFT_REASON = ''IntentGuard: missing or untrusted current-session PR draft; call `pr_prepare` before mutating the workspace or staged tree''"

record intent_guard =
  ig_repo_root :: "string list"
  ig_mode :: string

definition intent_guard_init :: "string list \<Rightarrow> string \<Rightarrow> intent_guard" where
  "intent_guard_init repo_root mode =
     \<lparr>ig_repo_root = repo_root, ig_mode = (if mode \<notin> set INTENT_GUARD_MODES then ''enforce'' else mode)\<rparr>"

definition guard_decide :: "intent_guard \<Rightarrow> string \<Rightarrow> decision py_result" where
  "guard_decide g reason =
     (if ig_mode g = ''observe''
      then Inr \<lparr>dc_action = ''allow'', dc_reason = ''would-deny(observe): '' @ reason, dc_payload = None\<rparr>
      else decision_deny reason)"

definition parse_typed_intent :: "string \<Rightarrow> intent option" where
  "parse_typed_intent draft_text =
     (case parse_field draft_text HEADER_INTENT of None \<Rightarrow> None | Some raw \<Rightarrow> intent_of (py_strip raw))"

text \<open>The path of a file tool, relative to the repository when it resolves inside it.\<close>

definition call_path :: "(rat \<Rightarrow> string) \<Rightarrow> tool_call \<Rightarrow> string" where
  "call_path fr call =
     (case dict_get (tc_params call) ''path'' of
        None \<Rightarrow> []
      | Some JNull \<Rightarrow> []
      | Some v \<Rightarrow> py_strip (json_str fr v))"

definition project_call ::
  "(rat \<Rightarrow> string) \<Rightarrow> 'a repo_env_scheme \<Rightarrow> string list \<Rightarrow> tool_call \<Rightarrow> staged_path list \<Rightarrow> staged_path list py_result" where
  "project_call fr os repo_root call staged =
     (let given = call_path fr call
      in if tc_name call \<notin> set MUTATING_TOOL_NAMES \<or> given = [] then Inr staged
         else rbind (os_resolve os repo_root) (\<lambda>repo_root_resolved.
           let relative = (\<lambda>resolved. case relative_to resolved repo_root_resolved of
                   Some rel \<Rightarrow> py_replace1 (CHR 0x5C) ''/'' (path_str rel)
                 | None \<Rightarrow> given)
           in rbind (case os_resolve os (path_join repo_root_resolved (path_parts given)) of
                       Inr resolved \<Rightarrow> Inr (relative resolved)
                     | Inl e \<Rightarrow> if exn_class e = ValueError then Inr given else Inl e) (\<lambda>path.
                Inr (if path \<in> sp_path ` set staged then staged
                     else staged @ [\<lparr>sp_status = (if rp_is_file os (path_join repo_root (path_parts path)) then ''M'' else ''A''),
                                     sp_path = path\<rparr>]))))"

fun merge_projected_paths :: "staged_path list \<Rightarrow> staged_path list \<Rightarrow> staged_path list" where
  "merge_projected_paths merged [] = merged"
| "merge_projected_paths merged (r # rs) =
     merge_projected_paths (if sp_path r \<in> sp_path ` set merged then merged else merged @ [r]) rs"

definition bash_analysis_for_call ::
  "(string \<Rightarrow> string + bash_node list) \<Rightarrow> 'a repo_env_scheme \<Rightarrow> string list \<Rightarrow> tool_call \<Rightarrow> bash_analysis option py_result" where
  "bash_analysis_for_call bashlex os repo_root call =
     (if tc_name call \<notin> {''fs_run_bash'', ''fs_spawn_subagent''} then Inr None
      else case dict_get (tc_params call) ''command'' of
        Some (JStr c) \<Rightarrow>
          (if py_strip c = [] then Inr None
           else rbind (analyze_bash_for_intent bashlex os repo_root c) (\<lambda>a. Inr (Some a)))
      | _ \<Rightarrow> Inr None)"

definition requires_draft ::
  "(string \<Rightarrow> string + bash_node list) \<Rightarrow> 'a repo_env_scheme \<Rightarrow> string list \<Rightarrow> tool_call
     \<Rightarrow> (bool \<times> bash_analysis option) py_result" where
  "requires_draft bashlex os repo_root call =
     (if tc_name call \<in> set MUTATING_TOOL_NAMES then Inr (True, None)
      else rbind (bash_analysis_for_call bashlex os repo_root call) (\<lambda>analysis.
        Inr (case analysis of
               None \<Rightarrow> (False, None)
             | Some a \<Rightarrow> (ba_effect a \<in> {INDEX_WRITE, REPO_WRITE, OPAQUE_EXEC}, Some a))))"

text \<open>What the diff will be once the call has run.\<close>

definition projected_diff ::
  "(rat \<Rightarrow> string) \<Rightarrow> 'a repo_env_scheme \<Rightarrow> string list \<Rightarrow> tool_call \<Rightarrow> bash_analysis option \<Rightarrow> staged_path list
     \<Rightarrow> staged_path list py_result" where
  "projected_diff fr os repo_root call analysis staged =
     (if tc_name call \<in> set MUTATING_TOOL_NAMES then project_call fr os repo_root call staged
      else case analysis of
        Some a \<Rightarrow> Inr (if ba_effect a = REPO_WRITE then merge_projected_paths staged (ba_projected a) else staged)
      | None \<Rightarrow> Inr staged)"

definition guard_violations ::
  "'a repo_env_scheme \<Rightarrow> string list \<Rightarrow> string \<Rightarrow> staged_path list \<Rightarrow> violation list py_result" where
  "guard_violations os repo_root draft_text projected =
     (let classifier_intent = classify_intent projected;
          effective = (case parse_typed_intent draft_text of Some i \<Rightarrow> i | None \<Rightarrow> classifier_intent)
      in rbind (validate_commit_msg os draft_text effective projected repo_root) (\<lambda>shape.
           Inr (shape @ validate_test_edits draft_text classifier_intent projected)))"

text \<open>\<open>CalledProcessError\<close> and \<open>OSError\<close> of the git runner leave the decision to the git hook.\<close>

definition git_unreachable :: "py_exc \<Rightarrow> bool" where
  "git_unreachable e = (exn_class e \<in> {OSError, PermissionError, OtherError ''CalledProcessError''})"

definition intent_guard_handle ::
  "(string \<Rightarrow> string + bash_node list) \<Rightarrow> (string \<Rightarrow> string) \<Rightarrow> (rat \<Rightarrow> string) \<Rightarrow> 'a repo_env_scheme \<Rightarrow> string py_result
     \<Rightarrow> draft_store \<Rightarrow> intent_guard \<Rightarrow> lifecycle_point \<Rightarrow> hook_payload \<Rightarrow> decision py_result" where
  "intent_guard_handle bashlex digest fr os git_runner store g point payload =
     (if point \<noteq> BEFORE_TOOL_EXEC then Inr decision_allow
      else case hp_tool_call payload of
        None \<Rightarrow> Inr decision_allow
      | Some call \<Rightarrow>
          rbind (requires_draft bashlex os (ig_repo_root g) call) (\<lambda>(required, analysis).
            if \<not> required then Inr decision_allow
            else rbind (read_current_text digest store) (\<lambda>draft.
              case draft of
                None \<Rightarrow> guard_decide g MISSING_DRAFT_REASON
              | Some draft_text \<Rightarrow>
                  (case git_runner of
                     Inl e \<Rightarrow> if git_unreachable e then Inr decision_allow else Inl e
                   | Inr stdout \<Rightarrow>
                       rbind (projected_diff fr os (ig_repo_root g) call analysis (parse_name_status stdout)) (\<lambda>projected.
                       rbind (guard_violations os (ig_repo_root g) draft_text projected) (\<lambda>violations.
                         if violations = [] then Inr decision_allow
                         else guard_decide g (''IntentGuard: '' @ py_join ''; '' (map vi_message violations))))))))"

section \<open>What it lets through\<close>

lemma deny_denies: "decision_deny r = Inr d \<Longrightarrow> dc_action d = ''deny''"
  by (auto simp: decision_deny_def split: if_splits)

lemma decide_enforced: "guard_decide g r = Inr d \<Longrightarrow> ig_mode g \<noteq> ''observe'' \<Longrightarrow> dc_action d = ''deny''"
  by (auto simp: guard_decide_def dest: deny_denies)

text \<open>A call that needs no draft: of another tool, or of a shell tool with a command that escapes the draft.\<close>

definition needs_no_draft :: "(string \<Rightarrow> string + bash_node list) \<Rightarrow> 'a repo_env_scheme \<Rightarrow> string list \<Rightarrow> tool_call \<Rightarrow> bool" where
  "needs_no_draft bashlex os repo_root call \<longleftrightarrow>
     tc_name call \<notin> set MUTATING_TOOL_NAMES \<and>
     (tc_name call \<in> {''fs_run_bash'', ''fs_spawn_subagent''} \<longrightarrow>
        (\<forall>c. dict_get (tc_params call) ''command'' = Some (JStr c) \<and> py_strip c \<noteq> [] \<longrightarrow>
           (\<exists>dir roots. os_resolve os repo_root = Inr dir \<and> bashlex c = Inr roots \<and> roots \<noteq> [] \<and>
              list_all (harmless_clause os dir) (concat (map clauses roots)))))"

lemma analysis_resolves:
  "analyze_bash_for_intent bashlex os repo_root c = Inr a \<Longrightarrow> ba_effect a \<noteq> OPAQUE_EXEC \<Longrightarrow> \<exists>dir. os_resolve os repo_root = Inr dir"
  by (auto simp: analyze_bash_for_intent_def reduce_analyses_def split: sum.splits list.splits)

lemma not_required:
  assumes "requires_draft bashlex os repo_root call = Inr (False, analysis)"
  shows "needs_no_draft bashlex os repo_root call"
  unfolding needs_no_draft_def
proof (intro conjI impI allI)
  show m: "tc_name call \<notin> set MUTATING_TOOL_NAMES" using assms by (auto simp: requires_draft_def)
  fix c assume shell: "tc_name call \<in> {''fs_run_bash'', ''fs_spawn_subagent''}"
    and c: "dict_get (tc_params call) ''command'' = Some (JStr c) \<and> py_strip c \<noteq> []"
  with assms m obtain a where a: "analyze_bash_for_intent bashlex os repo_root c = Inr a"
      "ba_effect a \<notin> {INDEX_WRITE, REPO_WRITE, OPAQUE_EXEC}"
    by (auto simp: requires_draft_def bash_analysis_for_call_def)
  from analysis_resolves [OF a(1)] a(2) obtain dir where dir: "os_resolve os repo_root = Inr dir" by auto
  from a(2) have "ba_effect a \<in> {READ_ONLY, VERIFY_ONLY}" by (cases "ba_effect a") auto
  with draft_free [OF a(1) dir] dir
  show "\<exists>dir roots. os_resolve os repo_root = Inr dir \<and> bashlex c = Inr roots \<and> roots \<noteq> [] \<and>
      list_all (harmless_clause os dir) (concat (map clauses roots))" by blast
qed

definition effective_intent :: "string \<Rightarrow> staged_path list \<Rightarrow> intent" where
  "effective_intent draft diff = (case parse_typed_intent draft of Some i \<Rightarrow> i | None \<Rightarrow> classify_intent diff)"

lemma no_violations:
  "guard_violations os dir draft diff = Inr [] \<longleftrightarrow>
     wellformed_msg os draft (effective_intent draft diff) diff dir \<and> validate_test_edits draft (classify_intent diff) diff = []"
  by (auto simp: guard_violations_def effective_intent_def Let_def rule_exact)

text \<open>A diff the draft covers: the draft is well formed for it and the existing tests in it are protected.\<close>

definition diff_covered :: "'a repo_env_scheme \<Rightarrow> string list \<Rightarrow> string \<Rightarrow> staged_path list \<Rightarrow> bool" where
  "diff_covered os dir draft diff \<longleftrightarrow>
     wellformed_msg os draft (effective_intent draft diff) diff dir \<and>
     (\<forall>r \<in> set diff. is_test_path (sp_path r) \<and> prefix ''tests/'' (sp_path r) \<longrightarrow> test_row_ok draft diff r)"

lemma handle_allows:
  assumes "intent_guard_handle bashlex digest fr os git_runner store g BEFORE_TOOL_EXEC payload = Inr d"
    and "dc_action d = ''allow''" "ig_mode g \<noteq> ''observe''" "hp_tool_call payload = Some call"
  shows "needs_no_draft bashlex os (ig_repo_root g) call \<or>
    (\<exists>draft. read_current_text digest store = Inr (Some draft) \<and>
       ((\<exists>e. git_runner = Inl e \<and> git_unreachable e) \<or>
        (\<exists>stdout analysis diff. git_runner = Inr stdout \<and> requires_draft bashlex os (ig_repo_root g) call = Inr (True, analysis) \<and>
           projected_diff fr os (ig_repo_root g) call analysis (parse_name_status stdout) = Inr diff \<and>
           guard_violations os (ig_repo_root g) draft diff = Inr [])))"
proof -
  from assms(1,4) obtain required analysis where r: "requires_draft bashlex os (ig_repo_root g) call = Inr (required, analysis)"
    by (auto simp: intent_guard_handle_def)
  show ?thesis
  proof (cases required)
    case False
    with r have "requires_draft bashlex os (ig_repo_root g) call = Inr (False, analysis)" by simp
    then show ?thesis using not_required by blast
  next
    case True
    with assms(1,4) r obtain draft_opt where o_: "read_current_text digest store = Inr draft_opt"
      by (auto simp: intent_guard_handle_def)
    show ?thesis
    proof (cases draft_opt)
      case None
      with assms r True o_ show ?thesis by (auto simp: intent_guard_handle_def dest: decide_enforced)
    next
      case (Some draft)
      show ?thesis
      proof (cases git_runner)
        case (Inl e)
        with assms r True o_ Some show ?thesis by (auto simp: intent_guard_handle_def split: if_splits)
      next
        case (Inr stdout)
        let ?diff = "projected_diff fr os (ig_repo_root g) call analysis (parse_name_status stdout)"
        from assms(1,4) r True o_ Some Inr have h: "rbind ?diff (\<lambda>projected.
            rbind (guard_violations os (ig_repo_root g) draft projected) (\<lambda>violations.
              if violations = [] then Inr decision_allow
              else guard_decide g (''IntentGuard: '' @ py_join ''; '' (map vi_message violations)))) = Inr d"
          by (simp only: intent_guard_handle_def option.case rbind_def sum.case prod.case simp_thms if_True if_False)
        from h [unfolded rbind_Inr] obtain diff where diff: "?diff = Inr diff"
          and h2: "\<exists>vs. guard_violations os (ig_repo_root g) draft diff = Inr vs \<and>
            (if vs = [] then Inr decision_allow else guard_decide g (''IntentGuard: '' @ py_join ''; '' (map vi_message vs))) = Inr d"
          by (elim exE conjE) (rule that, assumption, intro exI conjI, assumption+)
        from h2 obtain vs where d: "guard_violations os (ig_repo_root g) draft diff = Inr vs"
            "(if vs = [] then Inr decision_allow else guard_decide g (''IntentGuard: '' @ py_join ''; '' (map vi_message vs))) = Inr d"
          by (elim exE conjE) (rule that, assumption+)
        have "vs = []"
        proof (rule ccontr)
          assume "vs \<noteq> []"
          with d(2) have "guard_decide g (''IntentGuard: '' @ py_join ''; '' (map vi_message vs)) = Inr d" by (simp only: if_False)
          from decide_enforced [OF this assms(3)] assms(2) show False by simp
        qed
        with d(1) have clean: "guard_violations os (ig_repo_root g) draft diff = Inr []" by simp
        have req: "requires_draft bashlex os (ig_repo_root g) call = Inr (True, analysis)" using r True by simp
        have draft: "read_current_text digest store = Inr (Some draft)" using o_ Some by simp
        show ?thesis
          by (intro disjI2 exI conjI) (rule draft, rule Inr, rule req, rule diff, rule clean)
      qed
    qed
  qed
qed


text \<open>The mode only decides what becomes of a reason to deny.\<close>

definition outcome_decision :: "intent_guard \<Rightarrow> string option py_result \<Rightarrow> decision py_result" where
  "outcome_decision g out = rbind out (\<lambda>reason. case reason of None \<Rightarrow> Inr decision_allow | Some r \<Rightarrow> guard_decide g r)"

lemma outcome_simps [simp]:
  "outcome_decision g (Inl e) = Inl e" "outcome_decision g (Inr None) = Inr decision_allow"
  "outcome_decision g (Inr (Some r)) = guard_decide g r"
  by (simp_all add: outcome_decision_def)

definition mode_free :: "(intent_guard \<Rightarrow> decision py_result) \<Rightarrow> bool" where
  "mode_free h \<longleftrightarrow> (\<exists>out. \<forall>g. h g = outcome_decision g out)"

lemma mode_free_answers:
  "mode_free (\<lambda>_. Inr decision_allow)" "mode_free (\<lambda>_. Inl e)" "mode_free (\<lambda>g. guard_decide g r)"
  unfolding mode_free_def
  by (rule exI [of _ "Inr None"], simp, rule exI [of _ "Inl e"], simp, rule exI [of _ "Inr (Some r)"], simp)

lemma mode_free_bind: "(\<And>x. mode_free (\<lambda>g. k g x)) \<Longrightarrow> mode_free (\<lambda>g. rbind m (k g))"
  using mode_free_answers(2) by (cases m) (simp_all add: rbind_def)

lemma mode_free_if: "mode_free a \<Longrightarrow> mode_free b \<Longrightarrow> mode_free (\<lambda>g. if c then a g else b g)"
  by (cases c) simp_all

lemma mode_free_option:
  "mode_free n \<Longrightarrow> (\<And>x. mode_free (s x)) \<Longrightarrow> mode_free (\<lambda>g. case v of None \<Rightarrow> n g | Some x \<Rightarrow> s x g)"
  by (cases v) simp_all

lemma mode_free_sum:
  "(\<And>x. mode_free (l x)) \<Longrightarrow> (\<And>x. mode_free (r x)) \<Longrightarrow> mode_free (\<lambda>g. case v of Inl x \<Rightarrow> l x g | Inr x \<Rightarrow> r x g)"
  by (cases v) simp_all

lemma mode_free_prod: "(\<And>x y. mode_free (\<lambda>g. k g x y)) \<Longrightarrow> mode_free (\<lambda>g. case v of (x, y) \<Rightarrow> k g x y)"
  by (cases v) simp

lemmas mode_free_intros =
  mode_free_answers mode_free_bind mode_free_if mode_free_option mode_free_sum mode_free_prod

lemma decide_root [simp]: "guard_decide (g\<lparr>ig_repo_root := dir\<rparr>) r = guard_decide g r"
  by (simp add: guard_decide_def)

lemma handle_mode_free:
  "mode_free (\<lambda>g. intent_guard_handle bashlex digest fr os git_runner store (g\<lparr>ig_repo_root := dir\<rparr>) point payload)"
  unfolding intent_guard_handle_def by (simp add: mode_free_intros)

lemma handle_outcome:
  "\<exists>out. \<forall>g. ig_repo_root g = dir \<longrightarrow>
     intent_guard_handle bashlex digest fr os git_runner store g point payload = outcome_decision g out"
proof -
  obtain out where "\<forall>g. intent_guard_handle bashlex digest fr os git_runner store (g\<lparr>ig_repo_root := dir\<rparr>) point payload =
      outcome_decision g out"
    using handle_mode_free unfolding mode_free_def by blast
  then show ?thesis by (metis intent_guard.surjective intent_guard.update_convs(1))
qed

text \<open>
  Observing costs no call and loses no verdict: wherever the enforcing guard answers, the observing one allows, and it gives the
  reason of the denial it withholds.
\<close>

theorem observe_reports_denials:
  assumes "intent_guard_handle bashlex digest fr os git_runner store (intent_guard_init dir ''enforce'') point payload = Inr d"
  shows "\<exists>d'. intent_guard_handle bashlex digest fr os git_runner store (intent_guard_init dir ''observe'') point payload = Inr d' \<and>
    dc_action d' = ''allow'' \<and> (if dc_action d = ''deny'' then dc_reason d' = ''would-deny(observe): '' @ dc_reason d else d' = d)"
proof -
  obtain out where out: "\<forall>g. ig_repo_root g = dir \<longrightarrow>
      intent_guard_handle bashlex digest fr os git_runner store g point payload = outcome_decision g out"
    using handle_outcome by metis
  with assms have d: "outcome_decision (intent_guard_init dir ''enforce'') out = Inr d"
    by (simp add: intent_guard_init_def)
  from out have o_: "intent_guard_handle bashlex digest fr os git_runner store (intent_guard_init dir ''observe'') point payload =
      outcome_decision (intent_guard_init dir ''observe'') out"
    by (simp add: intent_guard_init_def)
  from d obtain reason where reason: "out = Inr reason" by (auto simp: outcome_decision_def)
  show ?thesis
  proof (cases reason)
    case None
    with d reason o_ show ?thesis by (auto simp: decision_allow_def)
  next
    case (Some r)
    with d reason have "decision_deny r = Inr d" by (simp add: guard_decide_def intent_guard_init_def INTENT_GUARD_MODES_def)
    then have "d = \<lparr>dc_action = ''deny'', dc_reason = r, dc_payload = None\<rparr>" by (auto simp: decision_deny_def split: if_splits)
    with Some reason o_ show ?thesis by (simp add: guard_decide_def intent_guard_init_def INTENT_GUARD_MODES_def)
  qed
qed

lemma typed_of_prepared: "parse_typed_intent (render_draft i f) = Some i"
proof -
  have "py_strip (intent_value i) = intent_value i"
    by (cases i) (simp_all add: py_strip_def py_rstrip_def py_lstrip_def py_space_def)
  then show ?thesis by (simp add: parse_typed_intent_def render_intent intent_of_value)
qed

text \<open>C11: 
  The way past the guard is open: once \<open>pr_prepare\<close> has succeeded for an intent other than FIX with a text free of carriage
  returns, a call that needs a draft is allowed, in either mode, whenever the diff it leads to passes the rule on existing tests.
\<close>

theorem prepared_draft_opens_gate:
  assumes "pr_prepare os digest wr params st = (r, st')" "prepared r"
    and "dict_get params ''intent'' = Some (JStr (intent_value i))" "i \<noteq> FIX"
    and "ds_file st' = Text_File msg" "CHR 0x0D \<notin> set msg"
    and "hp_tool_call payload = Some call" "requires_draft bashlex os (ig_repo_root g) call = Inr (True, analysis)"
    and "projected_diff fr os (ig_repo_root g) call analysis (parse_name_status stdout) = Inr diff"
    and "validate_test_edits msg (classify_intent diff) diff = []"
  shows "intent_guard_handle bashlex digest fr os (Inr stdout) st' g BEFORE_TOOL_EXEC payload = Inr decision_allow"
proof -
  from prepared_not_fix [OF assms(1-4)] obtain f
    where f: "st' = snd (write_text digest None (render_draft i f) st)"
      "\<forall>staged dir. validate_commit_msg os (render_draft i f) i staged dir = Inr []" by blast
  with assms(5) have msg: "msg = render_draft i f" by (simp add: write_text_def)
  with f(1) write_then_read assms(6) have draft: "read_current_text digest st' = Inr (Some msg)" by simp
  have "guard_violations os (ig_repo_root g) msg diff = Inr []"
    using assms(10) f(2) by (simp add: guard_violations_def Let_def msg typed_of_prepared)
  with draft assms(7-9) show ?thesis by (simp add: intent_guard_handle_def)
qed

section \<open>Examples\<close>

definition demo_intent_guard :: intent_guard where
  "demo_intent_guard = intent_guard_init [''/'', ''w''] ''enforce''"

definition demo_write :: tool_call where
  "demo_write = \<lparr>tc_name = ''fs_write_file'', tc_params = [(''path'', JStr ''README.md'')], tc_call_id = ''1''\<rparr>"

definition demo_write_payload :: hook_payload where
  "demo_write_payload = (demo_payload ''coder'')\<lparr>hp_tool_call := Some demo_write\<rparr>"

abbreviation demo_guarded :: "draft_store \<Rightarrow> decision py_result" where
  "demo_guarded store \<equiv>
     intent_guard_handle demo_bashlex id (\<lambda>_. []) demo_repo (Inr []) store demo_intent_guard BEFORE_TOOL_EXEC demo_write_payload"

lemma demo_guard_allows: "demo_guarded (snd demo_prepare) = Inr decision_allow"
  by code_simp

lemma demo_write_call: "hp_tool_call demo_write_payload = Some demo_write"
  by (simp add: demo_write_payload_def)


theorem observe_reports_denials_witness:
  "\<exists>d. intent_guard_handle demo_bashlex id (\<lambda>_. []) demo_repo (Inr []) (empty_store [''/'', ''s'', ''pr_draft.md''] No_File)
      (intent_guard_init [''/'', ''w''] ''observe'') BEFORE_TOOL_EXEC demo_write_payload = Inr d \<and>
    dc_action d = ''allow'' \<and> dc_reason d = ''would-deny(observe): '' @ MISSING_DRAFT_REASON"
proof -
  have "intent_guard_handle demo_bashlex id (\<lambda>_. []) demo_repo (Inr []) (empty_store [''/'', ''s'', ''pr_draft.md''] No_File)
      (intent_guard_init [''/'', ''w''] ''enforce'') BEFORE_TOOL_EXEC demo_write_payload =
    Inr \<lparr>dc_action = ''deny'', dc_reason = MISSING_DRAFT_REASON, dc_payload = None\<rparr>" by code_simp
  from observe_reports_denials [OF this] show ?thesis by simp
qed

theorem prepared_draft_opens_gate_witness: "demo_guarded (snd demo_prepare) = Inr decision_allow"
proof -
  have p: "pr_prepare demo_repo id None [(''intent'', JStr ''CHORE''), (''invariant'', JStr ''n/a'')]
      (empty_store [''/'', ''s'', ''pr_draft.md''] No_File) = (fst demo_prepare, snd demo_prepare)"
    by (simp add: demo_prepare_def)
  have "case fst demo_prepare of Inr t \<Rightarrow> tr_error t = None | Inl e \<Rightarrow> False" by code_simp
  then have ok: "prepared (fst demo_prepare)" by (auto simp: prepared_def split: sum.splits)
  let ?msg = "''INTENT: CHORE'' @ line_feed @ ''INVARIANT: n/a'' @ line_feed"
  have on_disk: "ds_file (snd demo_prepare) = Text_File ?msg" by code_simp
  have cr: "CHR 0x0D \<notin> set ?msg" by code_simp
  have need: "requires_draft demo_bashlex demo_repo (ig_repo_root demo_intent_guard) demo_write = Inr (True, None)" by code_simp
  have diff: "projected_diff (\<lambda>_. []) demo_repo (ig_repo_root demo_intent_guard) demo_write None (parse_name_status []) =
      Inr [row ''A'' ''README.md'']" by code_simp
  have tests: "validate_test_edits ?msg (classify_intent [row ''A'' ''README.md'']) [row ''A'' ''README.md''] = []" by code_simp
  show ?thesis
    by (rule prepared_draft_opens_gate [OF p ok _ _ on_disk cr demo_write_call need diff tests, of CHORE]) simp_all
qed

section \<open>Removals the guard does not see\<close>

text \<open>
  The rule on existing tests looks at files whose path is a test: a removed directory is none. A path that is already staged keeps its
  row, so a later removal of it is not seen either; and moving a test out of the repository is opaque and claims no path.
\<close>

abbreviation demo_bash_diff :: "string \<Rightarrow> staged_path list \<Rightarrow> staged_path list py_result" where
  "demo_bash_diff c staged \<equiv>
     rbind (demo_analysis c) (\<lambda>a. projected_diff (\<lambda>_. []) demo_repo [''/'', ''w'']
       \<lparr>tc_name = ''fs_run_bash'', tc_params = [(''command'', JStr c)], tc_call_id = ''1''\<rparr> (Some a) staged)"

lemma test_directory_removed:
  "demo_bash_diff ''rm -rf tests'' [] = Inr [row ''D'' ''tests/'']"
  "validate_test_edits [] FIX [row ''D'' ''tests/''] = []"
  by code_simp+

lemma staged_test_removed:
  "demo_bash_diff ''rm tests/test_a.py'' [row ''A'' ''tests/test_a.py''] = Inr [row ''A'' ''tests/test_a.py'']"
  by code_simp

lemma test_moved_away: "demo_bash_diff ''mv tests/test_a.py /tmp/x'' [] = Inr []"
  by code_simp


end
