(* ===== verification/Spec2Isabelle.thy ===== *)
theory Spec2Isabelle
  imports Loop_Safety Sandbox_Hook Provider_Chain Workflow_Safety
    Secrets Runtime_Limits Egress Coder_Safety Intent_Guard
begin

text \<open>
  \<^bold>\<open>First-Agent: a verification of the agent runtime's core.\<close>

  The program (\<open>src/src/fa\<close>) drives a coding agent: a loop executes the tool calls a model asks
  for, a chain of middleware may deny or rewrite each call, every step is logged to a session
  database, requests to model providers walk a chain of fallbacks, and a workflow controller runs
  planner, coder and evaluator stages and decides from the evaluator's report whether the work is
  done. The development follows that structure; paths below are relative to \<open>src/src/fa\<close>.

  \<^bold>\<open>Shared theories.\<close>
  \<^item> \<open>Prelude\<close>: Python exceptions as values (\<open>py_result\<close>, \<open>Inl\<close> the exception), the result and state
    combinators, \<open>str\<close>, \<open>list\<close> and \<open>dict\<close> operations, JSON values. \<open>Py_Text\<close>: \<open>repr\<close>, \<open>json.dumps\<close>,
    number formatting, JSON truthiness. \<open>Py_Regex\<close>, \<open>Py_Match\<close>: the patterns of the code as syntax
    trees, without and with capture groups (backtracking order). \<open>Py_Path\<close>: \<open>pathlib\<close>, \<open>shlex\<close>,
    \<open>expandvars\<close>. \<open>Py_Codec\<close>: UTF-8, base64, hex and percent encoding over code points, with their
    round trips.

  \<^bold>\<open>Tools, hooks and the loop.\<close>
  \<^item> \<open>Tool_Registry\<close> (\<open>inner_loop/registry.py\<close>): the portable schema validator is equivalent to a
    declarative profile; dispatching yields a well-formed result and lets no \<open>Exception\<close> escape.
  \<^item> \<open>Hooks\<close> (\<open>inner_loop/hooks/base.py\<close>): the dispatch loop; a deny is final, at most one mutation,
    and a guard that revalidates cannot be bypassed by a later rewrite. The locales state the
    contract of a middleware; the built-in hooks interpret them.
  \<^item> \<open>Loop_Guard\<close>, \<open>Blockers\<close>, \<open>Builtin_Hooks\<close>, \<open>Cost_Guardian\<close>, \<open>Sandbox_Hook\<close>
    (\<open>inner_loop/hooks/loop_guard.py\<close>, \<open>blockers.py\<close>, \<open>builtin.py\<close>, \<open>recovery_observers.py\<close>,
    \<open>observability/cost_guardian.py\<close>): when each guard denies, over whole runs.
  \<^item> \<open>Recovery\<close> (\<open>inner_loop/recovery/\<close>): the failure classifier, and the attempt history as a
    refinement of a window of recent rows.
  \<^item> \<open>Session_State\<close> (\<open>inner_loop/state.py\<close>, \<open>session_db.py\<close>, \<open>transaction.py\<close>): event ids are
    allocated by the store and stay distinct, also with several writers.
  \<^item> \<open>Inner_Loop\<close>, \<open>Loop_Safety\<close> (\<open>inner_loop/loop.py\<close>): batching, sequential and parallel
    execution, the iteration cap; a denied call never runs; results belong to their calls when the
    call ids are distinct, and are mixed up when they are not.

  \<^bold>\<open>Sandbox and control.\<close>
  \<^item> \<open>Sandbox\<close> (\<open>sandbox/\<close>): containment, classifier, validators and the shell gate, with what an
    allowed command is known not to touch and the commands that pass the gate all the same.
  \<^item> \<open>Pause\<close> (\<open>orchestration/pause.py\<close>): the sentinel protocol and that waiting ends.
  \<^item> \<open>Config\<close> (\<open>config.py\<close>, \<open>feature_flags.py\<close>, the two YAML helpers), \<open>Injections\<close>
    (\<open>inner_loop/injections.py\<close>): settings take effect only when the file or the flag says so.
    \<open>Runtime_Limits\<close> (\<open>inner_loop/runtime_limits.py\<close>): every loaded limit is within its bounds, and
    where the iteration cap of a role comes from.
  \<^item> \<open>Secrets\<close> (\<open>observability/redaction.py\<close>, \<open>SecretGuard\<close> of \<open>inner_loop/hooks/builtin.py\<close>): no key
    survives redaction; a write or command through which one leaks is denied.

  \<^bold>\<open>Intent.\<close>
  \<^item> \<open>Pr_Intent\<close> (\<open>hygiene/pr_intent.py\<close>): the classifier of a staged diff, the six checks of a message
    (clean exactly for a well-formed one), the protection of existing tests, the two git hooks.
    \<open>Pr_Draft\<close> (\<open>inner_loop/pr_draft.py\<close>, \<open>inner_loop/tools/prepare_pr.py\<close>): a draft is trusted exactly when this
    session wrote what the file holds, over any interleaving; what \<open>pr_prepare\<close> accepts, the validator accepts.
  \<^item> \<open>Bash_Intent\<close> (\<open>inner_loop/bash_intent.py\<close>): the effects of commands form a semilattice and the verdict
    is the join over all clauses, so a command needs no draft exactly when each clause only reads or verifies;
    a write names its paths, all inside the repository. \<open>Intent_Guard\<close>
    (\<open>inner_loop/hooks/intent_guard.py\<close>) composes them: what the enforcing guard lets through, that observing
    withholds no verdict, that a prepared draft opens the gate, and the removals of tests it does not see.

  \<^bold>\<open>Providers.\<close>
  \<^item> \<open>Roles\<close> (\<open>roles.py\<close>), \<open>Provider_Api\<close> (\<open>providers/base.py\<close>, \<open>errors.py\<close>, \<open>types.py\<close>,
    \<open>message_rules.py\<close>, \<open>registry.py\<close>, \<open>transport.py\<close>), \<open>Chain_Config\<close> and \<open>Provider_Chain\<close>
    (\<open>providers/chain.py\<close>): validation of configurations and messages against declarative
    judgements, bounded retries, and the fallback walk with its cooldown ledger.
  \<^item> \<open>Egress\<close> (\<open>egress_proxy/\<close>): the proxy that holds the API keys sends each only to the host of its
    entry, for an authorised caller.

  \<^bold>\<open>Context.\<close>
  \<^item> \<open>Projection\<close> (\<open>inner_loop/projection.py\<close>, \<open>artifacts.py\<close>): a tool result is cut to its byte budget
    and what is cut can be read back from the store under the id the model is given.
  \<^item> \<open>Compaction\<close> (\<open>memory/context_budget.py\<close>, \<open>inner_loop/compaction/\<close>): masking old results keeps the
    message rules and never adds tokens, summaries have their sections, the thrashing breaker.
  \<^item> \<open>Scope\<close> (\<open>inner_loop/scope_estimator.py\<close>, \<open>routing.py\<close>, \<open>path_risk.py\<close>, \<open>expansion.py\<close>): the estimate of
    a task, the tiers of paths, the posture of a run as the strongest evidence it has seen.
    \<open>Observations\<close> (\<open>inner_loop/observations.py\<close>, \<open>skills/_inject.py\<close>): what a turn is told, and the
    skill reader. \<open>Prompt\<close> (\<open>inner_loop/prompt_composer.py\<close>, \<open>render_tool_specs\<close> of \<open>prompt.py\<close>,
    \<open>memory/pinned_buffer.py\<close>): tool payload, pinned guidelines, cache key, placement of the task.

  \<^bold>\<open>The coder loop\<close> (\<open>inner_loop/coder_loop.py\<close>), which puts these together.
  \<^item> \<open>Coder_Loop\<close>: the local state of \<open>drive_session\<close>, replay of the log, composition of a request,
    the scope boundary, the context budget with its two compaction stages.
  \<^item> \<open>Coder_Session\<close>: the request with its cooldown waits, the answer, the batch of calls (through
    \<open>run_session\<close> of \<open>Inner_Loop\<close>), the turn, the loop by recursion over the turns left.
  \<^item> \<open>Coder_Safety\<close>: an invariant over all states in which a turn begins (every call in the conversation
    has its result), from which every request conforms to the message rules; what an exit code
    says; where replay and an unregistered tool depart from the documentation.

  \<^bold>\<open>Workflow.\<close>
  \<^item> \<open>Plan_Ids\<close> (\<open>inner_loop/plan_ids.py\<close>), \<open>Workflow_Artifacts\<close> (\<open>workflow_artifacts.py\<close>): what is
    read from a plan and from an evaluator's message; reports and flow states survive a write and a
    read; an unparsable message blocks.
  \<^item> \<open>Workflow\<close>, \<open>Workflow_Safety\<close> (\<open>workflow_controller.py\<close>): the number of stages a run can
    dispatch, none after the deadline, and exit code 0 only after a judged success.

  \<^bold>\<open>Conventions.\<close> Strings are lists of 8-bit characters (the code's em dash is written \<open>-\<close>, in the rulebook of intents as the character 0x97); text
  outside Latin-1 is not represented. Floats are exact rationals, with infinities and nan
  where the code can receive them; \<open>Compaction\<close> rounds to 53 bits (\<open>fl\<close>), where a threshold depends on it. A \<open>dict\<close> is an association list in insertion order. A file is
  the document it holds. Log records, progress messages and metrics are left out. Exceptions that
  the interpreter may raise anywhere (memory, interrupts) are left out, except where the code
  handles them.

  \<^bold>\<open>Parameters.\<close> Code outside the repository is an argument: \<open>fastjsonschema.compile\<close>, SHA-256, the
  redactor of the event log, the thread pool (which calls took effect, in which order, which were done in time),
  \<open>urlopen\<close> and \<open>json.loads\<close> of a response, the provider adapters, the operating system (\<open>os_env\<close>:
  home directories, environment, symbolic links), clocks and sleepers, the stage runner of the
  workflow, git, the parser bashlex, the reading of files, PyYAML, the role prompts, the classifier of bash commands in
  the coder loop (\<open>Bash_Intent\<close> models it, the loop takes any). Hypotheses on them (a clock that does not go back, a
  handler that returns well-formed results) are premises of the theorems, each with a witness.

  \<^bold>\<open>Fuel and termination.\<close> The matcher bounds a star by the length of the subject, which is enough
  because an iteration that consumes nothing is cut, as \<open>re\<close> does; scanning for all matches is
  bounded by the number of positions. The adaptive workflow loop terminates by the repairs and
  replans left, \<open>wait_for_resume\<close> by its time budget, and every other recursion is structural.

  \<^bold>\<open>Not modelled.\<close> The command line, tool handlers, memory and search
  indexes, provider adapters, sub-agents, sessions, worktrees and terminals, statistics and
  repository tooling: mostly file, process, network and terminal I/O around the modelled core. Of
  \<open>builtin.py\<close> the verifier and learning observers are left out, of \<open>session_db.py\<close> the queries and
  migrations, of \<open>compactor.py\<close> the masking of trace events, of \<open>coder_loop.py\<close> the console events and
  the metrics written at the end.
\<close>

end
